(* ===== verification/Prelude.thy ===== *)
theory Prelude
  imports Complex_Main
    "HOL-Library.Word"
    "HOL-Library.Multiset"
    "HOL-Library.List_Lexorder"
    "HOL-Library.Char_ord"
begin

text \<open>
  Shared vocabulary of the development: the machine integers and clocks of the Rust
  code, ordered maps (\<^verbatim>\<open>BTreeMap\<close>, and \<^verbatim>\<open>HashMap\<close> read in key order) as sorted
  association lists behind a locale that states the map laws, and the facts on lists and
  multisets of map entries that carry the accounting proofs of the components.
\<close>

unbundle bit_operations_syntax

section \<open>Types\<close>

type_synonym u8 = "8 word"
type_synonym u32 = "32 word"
type_synonym u64 = "64 word"

text \<open>
  \<^verbatim>\<open>usize\<close> counters, lengths and \<^verbatim>\<open>Instant\<close>/\<^verbatim>\<open>Duration\<close> values (nanoseconds) are
  natural numbers; Rust's \<^verbatim>\<open>saturating_sub\<close> is then the subtraction of \<^typ>\<open>nat\<close>.
  \<^verbatim>\<open>f64\<close> values are exact reals, except where the code distinguishes NaN.
\<close>

type_synonym f64 = real
type_synonym instant = nat
type_synonym duration = nat

named_theorems bt_simps \<open>laws of the ordered map\<close>
named_theorems inv_intros \<open>preservation of component invariants\<close>

section \<open>Ordered maps\<close>

type_synonym ('k, 'v) btree = "('k \<times> 'v) list"

definition bt_get :: "('k, 'v) btree \<Rightarrow> 'k \<Rightarrow> 'v option" where
  "bt_get m k = map_of m k"

fun bt_insert :: "'k::linorder \<Rightarrow> 'v \<Rightarrow> ('k, 'v) btree \<Rightarrow> ('k, 'v) btree" where
  "bt_insert k v [] = [(k, v)]"
| "bt_insert k v (e # m) =
     (if k = fst e then (k, v) # m
      else if k < fst e then (k, v) # e # m
      else e # bt_insert k v m)"

definition bt_remove :: "'k \<Rightarrow> ('k, 'v) btree \<Rightarrow> ('k, 'v) btree" where
  "bt_remove k m = filter (\<lambda>e. fst e \<noteq> k) m"

text \<open>\<^verbatim>\<open>get_mut\<close> followed by an in-place change of the value.\<close>

definition bt_modify :: "'k \<Rightarrow> ('v \<Rightarrow> 'v) \<Rightarrow> ('k, 'v) btree \<Rightarrow> ('k, 'v) btree" where
  "bt_modify k f m = map (\<lambda>e. if fst e = k then (fst e, f (snd e)) else e) m"

abbreviation bt_keys :: "('k, 'v) btree \<Rightarrow> 'k list" where
  "bt_keys m \<equiv> map fst m"

abbreviation bt_values :: "('k, 'v) btree \<Rightarrow> 'v list" where
  "bt_values m \<equiv> map snd m"

definition bt_inv :: "('k::linorder, 'v) btree \<Rightarrow> bool" where
  "bt_inv m \<longleftrightarrow> sorted_wrt (<) (bt_keys m)"

text \<open>The contract the components rely on.\<close>

locale ordered_map =
  fixes get :: "'m \<Rightarrow> 'k::linorder \<Rightarrow> 'v option"
    and ins :: "'k \<Rightarrow> 'v \<Rightarrow> 'm \<Rightarrow> 'm"
    and del :: "'k \<Rightarrow> 'm \<Rightarrow> 'm"
    and upd :: "'k \<Rightarrow> ('v \<Rightarrow> 'v) \<Rightarrow> 'm \<Rightarrow> 'm"
    and elems :: "'m \<Rightarrow> ('k \<times> 'v) list"
    and ok :: "'m \<Rightarrow> bool"
  assumes get_ins: "get (ins k v m) k' = (if k' = k then Some v else get m k')"
    and get_del: "get (del k m) k' = (if k' = k then None else get m k')"
    and get_upd: "get (upd k f m) k' = (if k' = k then map_option f (get m k') else get m k')"
    and ok_ins: "ok m \<Longrightarrow> ok (ins k v m)"
    and ok_del: "ok m \<Longrightarrow> ok (del k m)"
    and ok_upd: "ok m \<Longrightarrow> ok (upd k f m)"
    and elems_get: "ok m \<Longrightarrow> (k, v) \<in> set (elems m) \<longleftrightarrow> get m k = Some v"
    and elems_sorted: "ok m \<Longrightarrow> sorted_wrt (<) (map fst (elems m))"
begin

lemma elems_distinct: "ok m \<Longrightarrow> distinct (map fst (elems m))"
  using elems_sorted strict_sorted_iff by blast

lemma elems_distinct_pairs: "ok m \<Longrightarrow> distinct (elems m)"
  using elems_distinct distinct_map by blast

lemma key_iff: "ok m \<Longrightarrow> k \<in> set (map fst (elems m)) \<longleftrightarrow> get m k \<noteq> None"
  using elems_get by force

lemma keys_ins: "ok m \<Longrightarrow> set (map fst (elems (ins k v m))) = insert k (set (map fst (elems m)))"
  by (rule set_eqI) (metis get_ins insert_iff key_iff ok_ins option.discI)

lemma keys_del: "ok m \<Longrightarrow> set (map fst (elems (del k m))) = set (map fst (elems m)) - {k}"
  by (rule set_eqI) (metis Diff_iff get_del insertCI key_iff ok_del singletonD)

text \<open>The entries of a map after an insertion of a fresh key, and after a removal.\<close>

lemma mset_elems_ext:
  assumes "ok m" "ok m'" "\<And>k. get m' k = get m k"
  shows "mset (elems m') = mset (elems m)"
proof -
  have "distinct (elems m)" "distinct (elems m')"
    using assms(1,2) elems_distinct_pairs by blast+
  moreover have "set (elems m') = set (elems m)"
    using assms by (auto simp: elems_get)
  ultimately show ?thesis using set_eq_iff_mset_eq_distinct by blast
qed

lemma mset_elems_ins:
  assumes "ok m" "get m k = None"
  shows "mset (elems (ins k v m)) = add_mset (k, v) (mset (elems m))"
proof -
  have "distinct ((k, v) # elems m)" "distinct (elems (ins k v m))"
    using assms by (simp_all add: elems_distinct_pairs elems_get ok_ins)
  moreover have "set (elems (ins k v m)) = set ((k, v) # elems m)"
    using assms by (auto simp: elems_get ok_ins get_ins split: if_splits)
  ultimately have "mset (elems (ins k v m)) = mset ((k, v) # elems m)"
    using set_eq_iff_mset_eq_distinct by blast
  then show ?thesis by simp
qed

lemma mset_elems_del:
  assumes "ok m" "get m k = Some v"
  shows "mset (elems m) = add_mset (k, v) (mset (elems (del k m)))"
proof -
  have "distinct ((k, v) # elems (del k m))" "distinct (elems m)"
    using assms by (simp_all add: elems_distinct_pairs elems_get ok_del get_del)
  moreover have "set (elems m) = set ((k, v) # elems (del k m))"
    using assms by (auto simp: elems_get ok_del get_del split: if_splits)
  ultimately have "mset (elems m) = mset ((k, v) # elems (del k m))"
    using set_eq_iff_mset_eq_distinct by blast
  then show ?thesis by simp
qed

lemma del_absent:
  assumes "ok m" "get m k = None"
  shows "mset (elems (del k m)) = mset (elems m)"
  using assms by (intro mset_elems_ext) (auto simp: ok_del get_del)

end

subsection \<open>Sorted association lists are ordered maps\<close>

lemma bt_get_insert: "bt_get (bt_insert k v m) k' = (if k' = k then Some v else bt_get m k')"
  by (induction m) (auto simp: bt_get_def)

lemma bt_get_remove: "bt_get (bt_remove k m) k' = (if k' = k then None else bt_get m k')"
  by (induction m) (auto simp: bt_get_def bt_remove_def)

lemma bt_get_modify:
  "bt_get (bt_modify k f m) k' = (if k' = k then map_option f (bt_get m k') else bt_get m k')"
  by (induction m) (auto simp: bt_get_def bt_modify_def)

lemma bt_keys_insert: "set (bt_keys (bt_insert k v m)) = insert k (set (bt_keys m))"
  by (induction m) auto

lemma bt_inv_insert: "bt_inv m \<Longrightarrow> bt_inv (bt_insert k v m)"
proof (induction m)
  case Nil
  then show ?case by (simp add: bt_inv_def)
next
  case (Cons e m)
  then have "bt_inv (bt_insert k v m)" by (simp add: bt_inv_def)
  then show ?case
    using Cons.prems bt_keys_insert [of k v m] by (auto simp: bt_inv_def)
qed

lemma bt_keys_modify [simp]: "bt_keys (bt_modify k f m) = bt_keys m"
  by (induction m) (auto simp: bt_modify_def)

lemma bt_inv_remove: "bt_inv m \<Longrightarrow> bt_inv (bt_remove k m)"
  by (induction m) (auto simp: bt_inv_def bt_remove_def)

lemma bt_inv_distinct: "bt_inv m \<Longrightarrow> distinct (bt_keys m)"
  by (simp add: bt_inv_def strict_sorted_iff)

lemma bt_inv_empty [simp]: "bt_inv []"
  by (simp add: bt_inv_def)

lemma bt_inv_modify [inv_intros]: "bt_inv m \<Longrightarrow> bt_inv (bt_modify k f m)"
  by (simp add: bt_inv_def)

lemma bt_inv_sorted: "bt_inv m \<Longrightarrow> sorted_wrt (<) (bt_keys m)"
  by (simp add: bt_inv_def)

interpretation bt: ordered_map bt_get bt_insert bt_remove bt_modify "\<lambda>m. m" bt_inv
proof
  show "bt_inv m \<Longrightarrow> (k, v) \<in> set m \<longleftrightarrow> bt_get m k = Some v" for m :: "('k::linorder, 'v) btree" and k v
    unfolding bt_get_def by (metis Some_eq_map_of_iff bt_inv_distinct)
qed (auto simp: bt_get_insert bt_get_remove bt_get_modify bt_inv_insert bt_inv_remove
  bt_inv_modify bt_inv_sorted)

lemmas bt_laws [bt_simps] = bt_get_insert bt_get_remove bt_get_modify
lemmas bt_invs [inv_intros] = bt_inv_insert bt_inv_remove

lemma bt_get_empty [simp]: "bt_get [] k = None"
  by (simp add: bt_get_def)

lemma bt_get_Some_mem: "bt_get m k = Some v \<Longrightarrow> (k, v) \<in> set m"
  by (simp add: bt_get_def map_of_SomeD)

lemma bt_get_None_iff: "bt_get m k = None \<longleftrightarrow> k \<notin> set (bt_keys m)"
  by (simp add: bt_get_def map_of_eq_None_iff)

lemma bt_remove_absent: "bt_get m k = None \<Longrightarrow> bt_remove k m = m"
  by (auto simp: bt_get_None_iff bt_remove_def intro!: filter_True)

text \<open>Sums over the entries follow insertions and removals.\<close>

lemma sum_list_mset_cong:
  fixes f :: "'a \<Rightarrow> nat"
  shows "mset xs = mset ys \<Longrightarrow> sum_list (map f xs) = sum_list (map f ys)"
  by (metis mset_map sum_mset_sum_list)

lemma bt_sum_insert:
  fixes f :: "'k::linorder \<times> 'v \<Rightarrow> nat"
  assumes "bt_inv m" "bt_get m k = None"
  shows "sum_list (map f (bt_insert k v m)) = f (k, v) + sum_list (map f m)"
  using sum_list_mset_cong [of "bt_insert k v m" "(k, v) # m" f] bt.mset_elems_ins [OF assms]
  by simp

lemma bt_sum_remove:
  fixes f :: "'k::linorder \<times> 'v \<Rightarrow> nat"
  assumes "bt_inv m" "bt_get m k = Some v"
  shows "sum_list (map f m) = f (k, v) + sum_list (map f (bt_remove k m))"
  using sum_list_mset_cong [of m "(k, v) # bt_remove k m" f] bt.mset_elems_del [OF assms]
  by simp

lemma bt_sum_modify:
  fixes f :: "'k::linorder \<times> 'v \<Rightarrow> nat"
  assumes "bt_inv m" "bt_get m k = Some v"
  shows "sum_list (map f (bt_modify k g m)) + f (k, v) = sum_list (map f m) + f (k, g v)"
  using assms
proof (induction m)
  case Nil
  then show ?case by simp
next
  case (Cons e m)
  show ?case
  proof (cases "fst e = k")
    case True
    with Cons.prems have "k \<notin> set (bt_keys m)" and e: "e = (k, v)"
      by (auto simp: bt_inv_def bt_get_def split: if_splits prod.splits)
    then have "bt_modify k g m = m"
      by (force simp: bt_modify_def intro!: map_idI)
    with e show ?thesis by (simp add: bt_modify_def)
  next
    case False
    then have "bt_inv m" "bt_get m k = Some v"
      using Cons.prems by (auto simp: bt_inv_def bt_get_def split: prod.splits)
    with Cons.IH False show ?thesis by (simp add: bt_modify_def)
  qed
qed

section \<open>Lists\<close>

text \<open>\<^verbatim>\<open>Vec::pop\<close> takes the last element.\<close>

definition vec_pop :: "'a list \<Rightarrow> ('a \<times> 'a list) option" where
  "vec_pop xs = (if xs = [] then None else Some (last xs, butlast xs))"

lemma vec_pop_None [simp]: "vec_pop xs = None \<longleftrightarrow> xs = []"
  by (simp add: vec_pop_def)

lemma vec_pop_Some: "vec_pop xs = Some (x, ys) \<longleftrightarrow> xs = ys @ [x]"
  by (auto simp: vec_pop_def)

text \<open>\<^verbatim>\<open>Iterator::min_by_key\<close>: the first element whose key is minimal.\<close>

fun min_by_key :: "('a \<Rightarrow> 'b::linorder) \<Rightarrow> 'a list \<Rightarrow> 'a option" where
  "min_by_key f [] = None"
| "min_by_key f (x # xs) =
     (case min_by_key f xs of None \<Rightarrow> Some x | Some y \<Rightarrow> Some (if f x \<le> f y then x else y))"

lemma min_by_key_None [simp]: "min_by_key f xs = None \<longleftrightarrow> xs = []"
  by (cases xs) (auto split: option.splits)

lemma min_by_key_Some:
  "min_by_key f xs = Some x \<Longrightarrow> x \<in> set xs \<and> (\<forall>y \<in> set xs. f x \<le> f y)"
  by (induction xs arbitrary: x) (fastforce split: option.splits if_splits)+

text \<open>With distinct keys the minimum does not depend on the iteration order.\<close>

lemma min_by_key_perm:
  assumes "mset xs = mset ys" "inj_on f (set xs)"
  shows "min_by_key f xs = min_by_key f ys"
proof (cases "min_by_key f xs")
  case None
  then show ?thesis using assms(1) by (metis min_by_key_None mset_zero_iff)
next
  case (Some x)
  have sets: "set xs = set ys" using assms(1) by (metis set_mset_mset)
  from Some have "xs \<noteq> []" by auto
  with assms(1) have "ys \<noteq> []" by auto
  then obtain y where y: "min_by_key f ys = Some y" by (cases "min_by_key f ys") auto
  have "f x = f y"
    using min_by_key_Some [OF Some] min_by_key_Some [OF y] sets by (simp add: order_antisym)
  then show ?thesis
    using assms(2) min_by_key_Some [OF Some] min_by_key_Some [OF y] sets Some y
    by (auto simp: inj_on_def)
qed

text \<open>\<^verbatim>\<open>Iterator::position\<close>: the index of the first element that satisfies a predicate.\<close>

fun position :: "('a \<Rightarrow> bool) \<Rightarrow> 'a list \<Rightarrow> nat option" where
  "position P [] = None"
| "position P (x # xs) = (if P x then Some 0 else map_option Suc (position P xs))"

lemma position_None: "position P xs = None \<longleftrightarrow> (\<forall>x \<in> set xs. \<not> P x)"
  by (induction xs) auto

lemma position_Some:
  "position P xs = Some i \<Longrightarrow> i < length xs \<and> P (xs ! i) \<and> (\<forall>j < i. \<not> P (xs ! j))"
proof (induction xs arbitrary: i)
  case (Cons x xs)
  then show ?case
    by (fastforce simp: nth_Cons split: if_splits nat.splits)
qed simp

text \<open>\<^verbatim>\<open>VecDeque::remove(i)\<close>: the element and the rest, \<^const>\<open>None\<close> out of range.\<close>

definition vd_remove :: "nat \<Rightarrow> 'a list \<Rightarrow> ('a \<times> 'a list) option" where
  "vd_remove i xs = (if i < length xs then Some (xs ! i, take i xs @ drop (Suc i) xs) else None)"

lemma vd_remove_mset:
  assumes "vd_remove i xs = Some (x, ys)"
  shows "mset xs = add_mset x (mset ys)"
proof -
  from assms have i: "i < length xs" and x: "x = xs ! i" and ys: "ys = take i xs @ drop (Suc i) xs"
    by (auto simp: vd_remove_def split: if_splits)
  have "xs = take i xs @ xs ! i # drop (Suc i) xs" using i by (rule id_take_nth_drop)
  then have "mset xs = mset (take i xs @ xs ! i # drop (Suc i) xs)" by simp
  then show ?thesis using x ys by simp
qed

lemma vd_remove_length: "vd_remove i xs = Some (x, ys) \<Longrightarrow> length xs = Suc (length ys)"
  by (metis vd_remove_mset size_add_mset size_mset)

end
