(* ===== verification/Cache_Prompt.thy ===== *)
theory Cache_Prompt
  imports Block_Pool
begin

text \<open>
  The correctness of \<^verbatim>\<open>BlockPool::cache_prompt\<close>. The chained hashes of a prompt are given
  by an index-wise specification, the loop is verified with one invariant rule, and the
  results are stated for the whole operation: it keeps the pool invariant, pins exactly the
  blocks it returns and loses no pin, measures the longest cached prefix, and emits events
  from which a router that mirrors the cache stays in agreement with it.
\<close>

section \<open>Specification\<close>

text \<open>The hash of block \<open>i\<close> of a prompt, folding the hash of the block before it.\<close>

primrec chain_hash ::
  "u64 \<Rightarrow> nat \<Rightarrow> u32 list \<Rightarrow> string option \<Rightarrow> string option \<Rightarrow> nat \<Rightarrow> u64" where
  "chain_hash seed bs toks lora salt 0 =
     hash_block seed None (block_toks bs toks 0) (extra_keys lora salt 0)"
| "chain_hash seed bs toks lora salt (Suc i) =
     hash_block seed (Some (chain_hash seed bs toks lora salt i))
       (block_toks bs toks (Suc i)) (extra_keys lora salt (Suc i))"

definition chain_parent ::
  "u64 \<Rightarrow> nat \<Rightarrow> u32 list \<Rightarrow> string option \<Rightarrow> string option \<Rightarrow> nat \<Rightarrow> u64 option" where
  "chain_parent seed bs toks lora salt i =
     (case i of 0 \<Rightarrow> None | Suc j \<Rightarrow> Some (chain_hash seed bs toks lora salt j))"

lemma chain_parent_Suc [simp]:
  "chain_parent seed bs toks lora salt (Suc j) = Some (chain_hash seed bs toks lora salt j)"
  by (simp add: chain_parent_def)

lemma chain_hash_eq:
  "chain_hash seed bs toks lora salt i =
     hash_block seed (chain_parent seed bs toks lora salt i) (block_toks bs toks i)
       (extra_keys lora salt i)"
  by (cases i) (simp_all add: chain_parent_def)

text \<open>A router's view: the set of block hashes it believes cached.\<close>

fun apply_event :: "u64 set \<Rightarrow> kv_cache_event \<Rightarrow> u64 set" where
  "apply_event S (Stored hs _ _ _ _) = S \<union> set hs"
| "apply_event S (Removed hs) = S - set hs"
| "apply_event S AllCleared = {}"

definition apply_events :: "u64 set \<Rightarrow> kv_cache_event list \<Rightarrow> u64 set" where
  "apply_events S evs = foldl apply_event S evs"

lemma apply_events_simps [simp]:
  "apply_events S [] = S"
  "apply_events S (evs @ [e]) = apply_event (apply_events S evs) e"
  by (simp_all add: apply_events_def)

section \<open>The loop rule\<close>

lemma cache_blocks_rule:
  assumes "I i l" "i \<le> n"
    and step: "\<And>j l l'. j < n \<Longrightarrow> I j l \<Longrightarrow> cache_block toks lora salt j l = Inr l' \<Longrightarrow> I (Suc j) l'"
    and break: "\<And>j l l'. j < n \<Longrightarrow> I j l \<Longrightarrow> cache_block toks lora salt j l = Inl l' \<Longrightarrow> Q l'"
    and exit: "\<And>l. I n l \<Longrightarrow> Q l"
  shows "Q (cache_blocks toks lora salt [i..<n] l)"
  using assms(2,1)
proof (induction "n - i" arbitrary: i l)
  case 0
  then show ?case using exit by simp
next
  case (Suc d)
  then have "i < n" by simp
  show ?case
  proof (cases "cache_block toks lora salt i l")
    case (Inl l')
    then show ?thesis using break [OF \<open>i < n\<close> Suc.prems(2)] \<open>i < n\<close> by (simp add: upt_conv_Cons)
  next
    case (Inr l')
    have "Q (cache_blocks toks lora salt [Suc i..<n] l')"
      using Suc.hyps(1) [of "Suc i" l'] Suc.hyps(2) step [OF \<open>i < n\<close> Suc.prems(2) Inr] \<open>i < n\<close> by simp
    then show ?thesis using Inr \<open>i < n\<close> by (simp add: upt_conv_Cons)
  qed
qed

text \<open>What holds of the loop variables before block \<open>j\<close>, whatever property is at stake.\<close>

definition loop_ok ::
  "u64 \<Rightarrow> nat \<Rightarrow> u32 list \<Rightarrow> string option \<Rightarrow> string option \<Rightarrow> nat \<Rightarrow> cache_loop \<Rightarrow> bool" where
  "loop_ok seed bs toks lora salt j l \<longleftrightarrow>
     pool_inv (lpool l) \<and> block_size (lpool l) = bs \<and> none_seed (lpool l) = seed \<and>
     parent l = chain_parent seed bs toks lora salt j \<and>
     (prev_was_miss l \<longleftrightarrow> run_hashes l \<noteq> []) \<and> (run_hashes l = [] \<longrightarrow> run_tokens l = [])"

lemma cache_block_hit:
  assumes "loop_ok seed bs toks lora salt j l" "h = chain_hash seed bs toks lora salt j"
    "bt_get (cached (lpool l)) h = Some s"
  shows "cache_block toks lora salt j l = Inr (l\<lparr>lpool := touch_slot h (lpool l), parent := Some h,
      num_cached_blocks := (if in_prefix l then num_cached_blocks l + 1 else num_cached_blocks l),
      out_ids := out_ids l @ [block_id s],
      out_events := out_events l @ (if run_hashes l = [] then [] else [flush_run lora l]),
      run_hashes := [], run_tokens := [], prev_was_miss := False\<rparr>)"
  using assms
  by (simp add: loop_ok_def cache_block_def cache_hit_def chain_hash_eq flush_run_def Let_def)

lemma cache_block_miss:
  assumes "loop_ok seed bs toks lora salt j l" "h = chain_hash seed bs toks lora salt j"
    "bt_get (cached (lpool l)) h = None" "store_block h (lpool l) = Some (bid, removed, p')"
  shows "cache_block toks lora salt j l = Inr (l\<lparr>lpool := p', parent := Some h, in_prefix := False,
      out_ids := out_ids l @ [bid],
      out_events := out_events l @ (case removed of None \<Rightarrow> [] | Some e \<Rightarrow> [e]),
      run_hashes := run_hashes l @ [h], run_tokens := run_tokens l @ block_toks bs toks j,
      run_parent := (if run_hashes l = [] then parent l else run_parent l), prev_was_miss := True\<rparr>)"
  using assms
  by (simp add: loop_ok_def cache_block_def cache_miss_def chain_hash_eq Let_def)

lemma cache_block_full:
  assumes "loop_ok seed bs toks lora salt j l" "h = chain_hash seed bs toks lora salt j"
    "bt_get (cached (lpool l)) h = None" "store_block h (lpool l) = None"
  shows "cache_block toks lora salt j l = Inl (l\<lparr>parent := Some h, in_prefix := False,
      run_parent := (if run_hashes l = [] then parent l else run_parent l), prev_was_miss := True\<rparr>)"
  using assms
  by (simp add: loop_ok_def cache_block_def cache_miss_def chain_hash_eq Let_def)

lemma cache_block_Inr:
  assumes "loop_ok seed bs toks lora salt j l" "cache_block toks lora salt j l = Inr l'"
  obtains (hit) h s where "h = chain_hash seed bs toks lora salt j"
      "bt_get (cached (lpool l)) h = Some s"
      "l' = l\<lparr>lpool := touch_slot h (lpool l), parent := Some h,
        num_cached_blocks := (if in_prefix l then num_cached_blocks l + 1 else num_cached_blocks l),
        out_ids := out_ids l @ [block_id s],
        out_events := out_events l @ (if run_hashes l = [] then [] else [flush_run lora l]),
        run_hashes := [], run_tokens := [], prev_was_miss := False\<rparr>"
    | (miss) h bid removed p' where "h = chain_hash seed bs toks lora salt j"
      "h \<notin> keys (lpool l)" "store_block h (lpool l) = Some (bid, removed, p')"
      "l' = l\<lparr>lpool := p', parent := Some h, in_prefix := False, out_ids := out_ids l @ [bid],
        out_events := out_events l @ (case removed of None \<Rightarrow> [] | Some e \<Rightarrow> [e]),
        run_hashes := run_hashes l @ [h], run_tokens := run_tokens l @ block_toks bs toks j,
        run_parent := (if run_hashes l = [] then parent l else run_parent l), prev_was_miss := True\<rparr>"
proof (cases "bt_get (cached (lpool l)) (chain_hash seed bs toks lora salt j)")
  case (Some s)
  then show ?thesis using cache_block_hit [OF assms(1) refl Some] assms(2) hit by auto
next
  case None
  show ?thesis
  proof (cases "store_block (chain_hash seed bs toks lora salt j) (lpool l)")
    case n: None
    then show ?thesis using cache_block_full [OF assms(1) refl None n] assms(2) by simp
  next
    case (Some r)
    obtain bid removed p' where "r = (bid, removed, p')" by (cases r) auto
    then show ?thesis
      using miss [OF refl _ _ ] cache_block_miss [OF assms(1) refl None] Some assms(2) None
      by (simp add: keys_iff)
  qed
qed

lemma cache_block_Inl:
  assumes "loop_ok seed bs toks lora salt j l" "cache_block toks lora salt j l = Inl l'"
  obtains h where "h = chain_hash seed bs toks lora salt j" "h \<notin> keys (lpool l)"
    "store_block h (lpool l) = None"
    "l' = l\<lparr>parent := Some h, in_prefix := False,
       run_parent := (if run_hashes l = [] then parent l else run_parent l), prev_was_miss := True\<rparr>"
proof (cases "bt_get (cached (lpool l)) (chain_hash seed bs toks lora salt j)")
  case (Some s)
  then show ?thesis using cache_block_hit [OF assms(1) refl Some] assms(2) by simp
next
  case None
  show ?thesis
  proof (cases "store_block (chain_hash seed bs toks lora salt j) (lpool l)")
    case n: None
    then show ?thesis using cache_block_full [OF assms(1) refl None n] assms(2) that None
      by (simp add: keys_iff)
  next
    case (Some r)
    then show ?thesis using cache_block_miss [OF assms(1) refl None] assms(2) by (cases r) simp
  qed
qed

lemma cache_block_ok:
  assumes "loop_ok seed bs toks lora salt j l" "cache_block toks lora salt j l = Inr l'"
  shows "loop_ok seed bs toks lora salt (Suc j) l'"
  using assms
proof (cases rule: cache_block_Inr)
  case (hit h s)
  then show ?thesis using assms(1) by (simp add: loop_ok_def touch_slot_inv)
next
  case (miss h bid removed p')
  then show ?thesis
    using assms(1) store_block_inv [of "lpool l" h bid removed p'] store_block_fields [OF miss(3)]
    by (simp add: loop_ok_def)
qed

section \<open>Loop invariants\<close>

text \<open>Pins: what the request holds so far, on top of the pins of the pool it started from.\<close>

definition pins_ok ::
  "block_pool \<Rightarrow> (nat \<Rightarrow> u64) \<Rightarrow> cache_loop \<Rightarrow> bool" where
  "pins_ok p0 ch l \<longleftrightarrow>
     pool_inv (lpool l) \<and>
     block_size (lpool l) = block_size p0 \<and> none_seed (lpool l) = none_seed p0 \<and>
     capacity (lpool l) = capacity p0 \<and>
     keeps_pins p0 (lpool l) \<and>
     (\<forall>i. refs (lpool l) i = refs p0 i + count_list (out_ids l) i) \<and>
     (\<forall>k < length (out_ids l). \<exists>s. bt_get (cached (lpool l)) (ch k) = Some s \<and>
        block_id s = out_ids l ! k \<and> 0 < refcnt s)"

lemma held_keeps:
  assumes "\<forall>k < length ids. \<exists>s. bt_get (cached p) (ch k) = Some s \<and> block_id s = ids ! k \<and> 0 < refcnt s"
    and "keeps_pins p q"
    and "bt_get (cached q) (ch (length ids)) = Some t" "block_id t = b" "0 < refcnt t"
  shows "\<forall>k < length (ids @ [b]).
     \<exists>s. bt_get (cached q) (ch k) = Some s \<and> block_id s = (ids @ [b]) ! k \<and> 0 < refcnt s"
proof (intro allI impI)
  fix k assume "k < length (ids @ [b])"
  then consider "k < length ids" | "k = length ids" by (auto simp: less_Suc_eq)
  then show "\<exists>s. bt_get (cached q) (ch k) = Some s \<and> block_id s = (ids @ [b]) ! k \<and> 0 < refcnt s"
  proof cases
    case 1
    with assms(1) obtain s where
      "bt_get (cached p) (ch k) = Some s" "block_id s = ids ! k" "0 < refcnt s" by blast
    with 1 show ?thesis
      by (simp add: nth_append) (metis keeps_pinsD [OF assms(2)])
  next
    case 2
    with assms(3-5) show ?thesis by simp
  qed
qed

lemma pins_ok_step:
  assumes ok: "loop_ok (none_seed p0) (block_size p0) toks lora salt j l"
    and step: "cache_block toks lora salt j l = Inr l'"
    and pins: "pins_ok p0 (chain_hash (none_seed p0) (block_size p0) toks lora salt) l"
    and len: "length (out_ids l) = j"
  shows "pins_ok p0 (chain_hash (none_seed p0) (block_size p0) toks lora salt) l' \<and>
    length (out_ids l') = Suc j"
  using ok step
proof (cases rule: cache_block_Inr)
  case (hit h s)
  have inv: "pool_inv (lpool l)" using ok by (simp add: loop_ok_def)
  note t = touch_slot_keeps [of "lpool l" h]
  obtain t' where "bt_get (cached (touch_slot h (lpool l))) h = Some t'"
    "block_id t' = block_id s" "0 < refcnt t'"
    using hit(2) by (simp add: touch_slot_get)
  then have "\<forall>k < length (out_ids l @ [block_id s]). \<exists>t. bt_get (cached (touch_slot h (lpool l)))
      (chain_hash (none_seed p0) (block_size p0) toks lora salt k) = Some t \<and>
      block_id t = (out_ids l @ [block_id s]) ! k \<and> 0 < refcnt t"
    using pins hit(1) len by (intro held_keeps [OF _ t, where t = t']) (auto simp: pins_ok_def)
  then show ?thesis
    using hit pins len touch_slot_inv [OF inv, of h] keeps_pins_trans [OF _ t, of p0]
      touch_slot_refs [OF inv hit(2)]
    by (simp add: pins_ok_def)
next
  case (miss h bid removed p')
  have inv: "pool_inv (lpool l)" using ok by (simp add: loop_ok_def)
  note t = store_block_keeps [OF inv miss(3) miss(2)]
  obtain t' where "bt_get (cached p') h = Some t'" "block_id t' = bid" "0 < refcnt t'"
    by (simp add: store_block_cached [OF miss(3)] bt_get_insert)
  then have "\<forall>k < length (out_ids l @ [bid]). \<exists>t. bt_get (cached p')
      (chain_hash (none_seed p0) (block_size p0) toks lora salt k) = Some t \<and>
      block_id t = (out_ids l @ [bid]) ! k \<and> 0 < refcnt t"
    using pins miss(1) len by (intro held_keeps [OF _ t, where t = t']) (auto simp: pins_ok_def)
  then show ?thesis
    using miss pins len store_block_inv [OF inv miss(3) miss(2)] keeps_pins_trans [OF _ t, of p0]
      store_block_refs [OF inv miss(3) miss(2)] store_block_fields [OF miss(3)]
    by (simp add: pins_ok_def)
qed

text \<open>Events: the mirrored set, plus the run still to be flushed, is what the pool caches.\<close>

definition mirror_ok :: "u64 set \<Rightarrow> cache_loop \<Rightarrow> bool" where
  "mirror_ok K l \<longleftrightarrow>
     apply_events K (out_events l) \<union> set (run_hashes l) = keys (lpool l) \<and>
     (\<forall>h \<in> set (run_hashes l). \<exists>s. bt_get (cached (lpool l)) h = Some s \<and> 0 < refcnt s)"

lemma mirror_ok_step:
  assumes ok: "loop_ok seed bs toks lora salt j l"
    and step: "cache_block toks lora salt j l = Inr l'"
    and mir: "mirror_ok K l"
  shows "mirror_ok K l'"
  using ok step
proof (cases rule: cache_block_Inr)
  case (hit h s)
  then show ?thesis using mir by (auto simp: mirror_ok_def flush_run_def)
next
  case (miss h bid removed p')
  have inv: "pool_inv (lpool l)" using ok by (simp add: loop_ok_def)
  have pinned: "\<exists>s. bt_get (cached p') k = Some s \<and> 0 < refcnt s" if "k \<in> set (run_hashes l @ [h])" for k
  proof (cases "k = h")
    case True
    then show ?thesis by (simp add: store_block_cached [OF miss(3)] bt_get_insert)
  next
    case False
    with that mir obtain s where "bt_get (cached (lpool l)) k = Some s" "0 < refcnt s"
      by (auto simp: mirror_ok_def)
    then show ?thesis
      using keeps_pinsD [OF store_block_keeps [OF inv miss(3) miss(2)]] by metis
  qed
  have "apply_events K (out_events l @ (case removed of None \<Rightarrow> [] | Some e \<Rightarrow> [e])) \<union>
      set (run_hashes l @ [h]) = keys p'"
    using miss(3)
  proof (cases rule: store_block_Some)
    case (free rest)
    then show ?thesis using mir store_block_keys [OF inv miss(3)] by (auto simp: mirror_ok_def)
  next
    case (evict v s)
    have "v \<notin> set (run_hashes l)"
      using mir lru_victim_Some(1,2) [OF inv evict(2)] by (auto simp: mirror_ok_def)
    then show ?thesis
      using mir store_block_keys [OF inv miss(3)] evict(4) by (auto simp: mirror_ok_def)
  qed
  then show ?thesis using miss pinned by (simp add: mirror_ok_def)
qed

text \<open>Prefix: the leading run of blocks that were cached before the call.\<close>

definition prefix_len :: "u64 set \<Rightarrow> (nat \<Rightarrow> u64) \<Rightarrow> nat \<Rightarrow> nat" where
  "prefix_len K ch n = length (takeWhile (\<lambda>k. ch k \<in> K) [0..<n])"

lemma prefix_len_eq:
  assumes "j \<le> n" "\<And>k. k < j \<Longrightarrow> ch k \<in> K" "j < n \<Longrightarrow> ch j \<notin> K"
  shows "prefix_len K ch n = j"
proof -
  have "[0..<n] = [0..<j] @ [j..<n]"
    using assms(1) by (metis le0 le_add_diff_inverse upt_add_eq_append)
  moreover have "takeWhile (\<lambda>k. ch k \<in> K) [j..<n] = []"
    using assms(3) by (cases "j < n") (auto simp: upt_conv_Cons)
  moreover have "takeWhile (\<lambda>k. ch k \<in> K) ([0..<j] @ [j..<n]) =
      [0..<j] @ takeWhile (\<lambda>k. ch k \<in> K) [j..<n]"
    using assms(2) by (intro takeWhile_append2) auto
  ultimately show ?thesis
    by (simp add: prefix_len_def)
qed

definition prefix_ok :: "u64 set \<Rightarrow> (nat \<Rightarrow> u64) \<Rightarrow> nat \<Rightarrow> nat \<Rightarrow> cache_loop \<Rightarrow> bool" where
  "prefix_ok K ch n j l \<longleftrightarrow>
     (if in_prefix l
      then keys (lpool l) = K \<and> num_cached_blocks l = j \<and> (\<forall>k < j. ch k \<in> K)
      else num_cached_blocks l = prefix_len K ch n)"

lemma prefix_ok_step:
  assumes ok: "loop_ok seed bs toks lora salt j l"
    and step: "cache_block toks lora salt j l = Inr l'"
    and pre: "prefix_ok K (chain_hash seed bs toks lora salt) n j l" and "j < n"
  shows "prefix_ok K (chain_hash seed bs toks lora salt) n (Suc j) l'"
  using ok step
proof (cases rule: cache_block_Inr)
  case (hit h s)
  then have "h \<in> keys (lpool l)" by (simp add: keys_iff)
  then show ?thesis using hit pre by (auto simp: prefix_ok_def less_Suc_eq)
next
  case (miss h bid removed p')
  then have "in_prefix l \<Longrightarrow> prefix_len K (chain_hash seed bs toks lora salt) n = j"
    using pre \<open>j < n\<close> by (intro prefix_len_eq) (auto simp: prefix_ok_def)
  then show ?thesis using miss pre by (auto simp: prefix_ok_def split: if_splits)
qed

lemma prefix_ok_break:
  assumes ok: "loop_ok seed bs toks lora salt j l"
    and step: "cache_block toks lora salt j l = Inl l'"
    and pre: "prefix_ok K (chain_hash seed bs toks lora salt) n j l" and "j < n"
  shows "num_cached_blocks l' = prefix_len K (chain_hash seed bs toks lora salt) n"
  using ok step
proof (cases rule: cache_block_Inl)
  case (1 h)
  then have "in_prefix l \<Longrightarrow> prefix_len K (chain_hash seed bs toks lora salt) n = j"
    using pre \<open>j < n\<close> by (intro prefix_len_eq) (auto simp: prefix_ok_def)
  then show ?thesis using 1 pre by (auto simp: prefix_ok_def split: if_splits)
qed

text \<open>Stored runs: each one is a contiguous stretch of the prompt's chain.\<close>

definition run_of ::
  "u64 \<Rightarrow> nat \<Rightarrow> u32 list \<Rightarrow> string option \<Rightarrow> string option \<Rightarrow> nat \<Rightarrow> nat \<Rightarrow> kv_cache_event" where
  "run_of seed bs toks lora salt a b =
     Stored (map (chain_hash seed bs toks lora salt) [a..<b]) (chain_parent seed bs toks lora salt a)
       (concat (map (block_toks bs toks) [a..<b])) bs lora"

definition event_ok ::
  "u64 \<Rightarrow> nat \<Rightarrow> u32 list \<Rightarrow> string option \<Rightarrow> string option \<Rightarrow> nat \<Rightarrow> kv_cache_event \<Rightarrow> bool" where
  "event_ok seed bs toks lora salt n e \<longleftrightarrow>
     (\<exists>v. e = Removed [v]) \<or> (\<exists>a b. a < b \<and> b \<le> n \<and> e = run_of seed bs toks lora salt a b)"

lemma event_ok_mono: "event_ok seed bs toks lora salt n e \<Longrightarrow> n \<le> m \<Longrightarrow> event_ok seed bs toks lora salt m e"
  by (auto simp: event_ok_def intro: order_trans)

definition runs_ok ::
  "u64 \<Rightarrow> nat \<Rightarrow> u32 list \<Rightarrow> string option \<Rightarrow> string option \<Rightarrow> nat \<Rightarrow> cache_loop \<Rightarrow> bool" where
  "runs_ok seed bs toks lora salt j l \<longleftrightarrow>
     (\<forall>e \<in> set (out_events l). event_ok seed bs toks lora salt j e) \<and>
     (run_hashes l \<noteq> [] \<longrightarrow> (\<exists>a < j. flush_run lora l = run_of seed bs toks lora salt a j))"

lemma runs_ok_flush:
  "runs_ok seed bs toks lora salt j l \<Longrightarrow> run_hashes l \<noteq> [] \<Longrightarrow>
   event_ok seed bs toks lora salt j (flush_run lora l)"
  by (auto simp: runs_ok_def event_ok_def)

lemma runs_ok_step:
  assumes ok: "loop_ok seed bs toks lora salt j l"
    and step: "cache_block toks lora salt j l = Inr l'"
    and runs: "runs_ok seed bs toks lora salt j l"
  shows "runs_ok seed bs toks lora salt (Suc j) l'"
  using ok step
proof (cases rule: cache_block_Inr)
  case (hit h s)
  have "event_ok seed bs toks lora salt (Suc j) e" if "e \<in> set (out_events l')" for e
    using that hit(3) runs runs_ok_flush [OF runs]
    by (auto simp: runs_ok_def split: if_splits intro: event_ok_mono [OF _ le_SucI [OF order_refl]])
  then show ?thesis using hit(3) by (simp add: runs_ok_def)
next
  case (miss h bid removed p')
  have removed: "event_ok seed bs toks lora salt n e" if "removed = Some e" for e n
    using miss(3) that by (cases rule: store_block_Some) (auto simp: event_ok_def)
  have events: "event_ok seed bs toks lora salt (Suc j) e" if "e \<in> set (out_events l')" for e
    using that miss(4) runs removed
    by (auto simp: runs_ok_def split: option.splits intro: event_ok_mono [OF _ le_SucI [OF order_refl]])
  have "\<exists>a < Suc j. flush_run lora l' = run_of seed bs toks lora salt a (Suc j)"
  proof (cases "run_hashes l = []")
    case True
    then have "flush_run lora l' = run_of seed bs toks lora salt j (Suc j)"
      using miss ok store_block_fields(1) [OF miss(3)]
      by (simp add: run_of_def flush_run_def loop_ok_def)
    then show ?thesis by blast
  next
    case False
    with runs obtain a where a: "a < j" "flush_run lora l = run_of seed bs toks lora salt a j"
      by (auto simp: runs_ok_def)
    then have "flush_run lora l' = run_of seed bs toks lora salt a (Suc j)"
      using miss ok False store_block_fields(1) [OF miss(3)]
      by (simp add: run_of_def flush_run_def loop_ok_def)
    then show ?thesis using a(1) less_SucI by blast
  qed
  then show ?thesis using events by (simp add: runs_ok_def)
qed

section \<open>The whole operation\<close>

text \<open>The blocks of a prompt, and its chain as the pool hashes it.\<close>

definition n_blocks :: "block_pool \<Rightarrow> u32 list \<Rightarrow> nat" where
  "n_blocks p toks = length toks div block_size p"

definition prompt_chain ::
  "block_pool \<Rightarrow> u32 list \<Rightarrow> string option \<Rightarrow> string option \<Rightarrow> nat \<Rightarrow> u64" where
  "prompt_chain p toks lora salt =
     chain_hash (none_seed p) (block_size p) toks lora (norm_salt salt)"

text \<open>The counters play no part in the invariants.\<close>

lemma counters_irrelevant [simp]:
  "pool_inv (p\<lparr>requests := a, queries := b\<rparr>) = pool_inv p"
  "pool_inv (p\<lparr>hits := c\<rparr>) = pool_inv p"
  "keys (p\<lparr>requests := a, queries := b\<rparr>) = keys p" "keys (p\<lparr>hits := c\<rparr>) = keys p"
  "refs (p\<lparr>requests := a, queries := b\<rparr>) = refs p" "refs (p\<lparr>hits := c\<rparr>) = refs p"
  "keeps_pins (p\<lparr>requests := a, queries := b\<rparr>) q = keeps_pins p q"
  "keeps_pins p (q\<lparr>hits := c\<rparr>) = keeps_pins p q"
  by (auto simp: pool_inv_def keys_def refs_def cached_ids_def keeps_pins_def fun_eq_iff)

definition prompt_loop ::
  "block_pool \<Rightarrow> u32 list \<Rightarrow> string option \<Rightarrow> string option \<Rightarrow> cache_loop" where
  "prompt_loop p toks lora salt =
     cache_blocks toks lora (norm_salt salt) [0..<n_blocks p toks]
       (start_loop (p\<lparr>requests := requests p + 1, queries := queries p + n_blocks p toks\<rparr>))"

lemma cache_prompt_loop:
  "cache_prompt p toks lora salt =
     (let l = prompt_loop p toks lora salt in
      (\<lparr>num_cached_tokens = num_cached_blocks l * block_size (lpool l), block_ids = out_ids l,
        events = out_events l @ (if run_hashes l = [] then [] else [flush_run lora l])\<rparr>,
       (lpool l)\<lparr>hits := hits (lpool l) + num_cached_blocks l\<rparr>))"
  by (simp add: cache_prompt_def prompt_loop_def n_blocks_def Let_def)

lemma loop_ok_start:
  "pool_inv p \<Longrightarrow> loop_ok (none_seed p) (block_size p) toks lora salt 0 (start_loop p)"
  by (simp add: loop_ok_def start_loop_def chain_parent_def)

lemma prompt_loop_rule:
  fixes p :: block_pool
  defines "seed \<equiv> none_seed p" and "bs \<equiv> block_size p"
  assumes inv: "pool_inv p"
    and init: "I 0 (start_loop (p\<lparr>requests := requests p + 1, queries := queries p + n_blocks p toks\<rparr>))"
    and step: "\<And>j l l'. j < n_blocks p toks \<Longrightarrow> loop_ok seed bs toks lora (norm_salt salt) j l \<Longrightarrow>
      I j l \<Longrightarrow> cache_block toks lora (norm_salt salt) j l = Inr l' \<Longrightarrow> I (Suc j) l'"
    and break: "\<And>j l l'. j < n_blocks p toks \<Longrightarrow> loop_ok seed bs toks lora (norm_salt salt) j l \<Longrightarrow>
      I j l \<Longrightarrow> cache_block toks lora (norm_salt salt) j l = Inl l' \<Longrightarrow> Q l'"
    and exit: "\<And>l. I (n_blocks p toks) l \<Longrightarrow> Q l"
  shows "Q (prompt_loop p toks lora salt)"
  unfolding prompt_loop_def
proof (rule cache_blocks_rule [where
      I = "\<lambda>j l. loop_ok seed bs toks lora (norm_salt salt) j l \<and> I j l"])
  show "loop_ok seed bs toks lora (norm_salt salt) 0
      (start_loop (p\<lparr>requests := requests p + 1, queries := queries p + n_blocks p toks\<rparr>)) \<and>
    I 0 (start_loop (p\<lparr>requests := requests p + 1, queries := queries p + n_blocks p toks\<rparr>))"
    using init inv loop_ok_start
      [of "p\<lparr>requests := requests p + 1, queries := queries p + n_blocks p toks\<rparr>" toks lora "norm_salt salt"]
    by (simp add: seed_def bs_def)
qed (use step break exit cache_block_ok in blast)+

lemma prompt_loop_pins:
  assumes "pool_inv p"
  shows "pins_ok p (prompt_chain p toks lora salt) (prompt_loop p toks lora salt) \<and>
    length (out_ids (prompt_loop p toks lora salt)) \<le> n_blocks p toks"
  unfolding prompt_chain_def
proof (rule prompt_loop_rule [OF assms, where I = "\<lambda>j l. pins_ok p
      (chain_hash (none_seed p) (block_size p) toks lora (norm_salt salt)) l \<and> length (out_ids l) = j"])
  show "pins_ok p (chain_hash (none_seed p) (block_size p) toks lora (norm_salt salt))
      (start_loop (p\<lparr>requests := requests p + 1, queries := queries p + n_blocks p toks\<rparr>)) \<and>
    length (out_ids (start_loop (p\<lparr>requests := requests p + 1, queries := queries p + n_blocks p toks\<rparr>))) = 0"
    using assms by (auto simp: pins_ok_def start_loop_def keeps_pins_def)
next
  fix j l l'
  assume "loop_ok (none_seed p) (block_size p) toks lora (norm_salt salt) j l"
    "cache_block toks lora (norm_salt salt) j l = Inl l'"
  then show "pins_ok p (chain_hash (none_seed p) (block_size p) toks lora (norm_salt salt)) l' \<and>
      length (out_ids l') \<le> n_blocks p toks"
    if "pins_ok p (chain_hash (none_seed p) (block_size p) toks lora (norm_salt salt)) l \<and>
      length (out_ids l) = j" "j < n_blocks p toks"
    using that by (cases rule: cache_block_Inl) (simp add: pins_ok_def)
qed (use pins_ok_step in auto)

lemma prompt_loop_mirror:
  assumes "pool_inv p"
  shows "mirror_ok (keys p) (prompt_loop p toks lora salt)"
proof (rule prompt_loop_rule [OF assms, where I = "\<lambda>j. mirror_ok (keys p)"])
  fix j l l'
  assume "loop_ok (none_seed p) (block_size p) toks lora (norm_salt salt) j l"
    "cache_block toks lora (norm_salt salt) j l = Inl l'"
  then show "mirror_ok (keys p) l'" if "mirror_ok (keys p) l"
    using that by (cases rule: cache_block_Inl) (simp add: mirror_ok_def)
qed (use mirror_ok_step in \<open>auto simp: mirror_ok_def start_loop_def\<close>)

lemma prompt_loop_prefix:
  assumes "pool_inv p"
  shows "num_cached_blocks (prompt_loop p toks lora salt) =
    prefix_len (keys p) (prompt_chain p toks lora salt) (n_blocks p toks)"
  unfolding prompt_chain_def
proof (rule prompt_loop_rule [OF assms, where I = "prefix_ok (keys p)
      (chain_hash (none_seed p) (block_size p) toks lora (norm_salt salt)) (n_blocks p toks)"])
  fix l
  assume "prefix_ok (keys p) (chain_hash (none_seed p) (block_size p) toks lora (norm_salt salt))
      (n_blocks p toks) (n_blocks p toks) l"
  then show "num_cached_blocks l = prefix_len (keys p)
      (chain_hash (none_seed p) (block_size p) toks lora (norm_salt salt)) (n_blocks p toks)"
    using prefix_len_eq [of "n_blocks p toks" "n_blocks p toks"
        "chain_hash (none_seed p) (block_size p) toks lora (norm_salt salt)" "keys p"]
    by (auto simp: prefix_ok_def split: if_splits)
qed (use prefix_ok_step prefix_ok_break in \<open>auto simp: prefix_ok_def start_loop_def\<close>)

lemma prompt_loop_runs:
  assumes "pool_inv p"
  shows "\<exists>j \<le> n_blocks p toks.
    runs_ok (none_seed p) (block_size p) toks lora (norm_salt salt) j (prompt_loop p toks lora salt)"
proof (rule prompt_loop_rule [OF assms, where I =
      "runs_ok (none_seed p) (block_size p) toks lora (norm_salt salt)"])
  fix j l l'
  assume a: "loop_ok (none_seed p) (block_size p) toks lora (norm_salt salt) j l"
    "cache_block toks lora (norm_salt salt) j l = Inl l'" "j < n_blocks p toks"
    "runs_ok (none_seed p) (block_size p) toks lora (norm_salt salt) j l"
  from a(1,2) have "runs_ok (none_seed p) (block_size p) toks lora (norm_salt salt) j l'"
    using a(4) by (cases rule: cache_block_Inl) (auto simp: runs_ok_def flush_run_def)
  with a(3) show "\<exists>j \<le> n_blocks p toks.
      runs_ok (none_seed p) (block_size p) toks lora (norm_salt salt) j l'"
    using less_imp_le by blast
qed (use runs_ok_step in \<open>auto simp: runs_ok_def start_loop_def\<close>)

subsection \<open>Reachable pools\<close>

inductive pool_step :: "block_pool \<Rightarrow> block_pool \<Rightarrow> bool" where
  cache: "pool_step p (snd (cache_prompt p toks lora salt))"
| unpin: "pool_step p (unpin ids p)"
| reset: "pool_step p (snd (reset_pool p))"
| stats: "pool_step p (snd (take_stats p))"

inductive pool_reachable :: "nat \<Rightarrow> nat \<Rightarrow> u64 \<Rightarrow> block_pool \<Rightarrow> bool"
  for bs cap seed where
  start: "pool_reachable bs cap seed (new_pool bs cap seed)"
| step: "pool_reachable bs cap seed p \<Longrightarrow> pool_step p q \<Longrightarrow> pool_reachable bs cap seed q"

inductive_simps pool_step_iff: "pool_step p q"

lemma cache_prompt_inv [inv_intros]: "pool_inv p \<Longrightarrow> pool_inv (snd (cache_prompt p toks lora salt))"
  using prompt_loop_pins [of p toks lora salt] by (simp add: cache_prompt_loop Let_def pins_ok_def)

lemma cache_prompt_capacity [simp]:
  "pool_inv p \<Longrightarrow> capacity (snd (cache_prompt p toks lora salt)) = capacity p"
  "pool_inv p \<Longrightarrow> block_size (snd (cache_prompt p toks lora salt)) = block_size p"
  "pool_inv p \<Longrightarrow> none_seed (snd (cache_prompt p toks lora salt)) = none_seed p"
  using prompt_loop_pins [of p toks lora salt] by (simp_all add: cache_prompt_loop Let_def pins_ok_def)

lemma other_capacity [simp]:
  "capacity (snd (reset_pool p)) = capacity p" "capacity (snd (take_stats p)) = capacity p"
  by (simp_all add: take_stats_def reset_pool_def)

lemma pool_step_inv:
  assumes "pool_inv p" "pool_step p q"
  shows "pool_inv q \<and> capacity q = capacity p"
  using assms(2,1)
  by cases (simp_all add: cache_prompt_inv unpin_inv reset_pool_inv take_stats_inv)

lemma pool_reachable_inv:
  assumes "pool_reachable bs cap seed p"
  shows "pool_inv p \<and> capacity p = max cap 1"
  using assms
proof (induction rule: pool_reachable.induct)
  case start
  then show ?case using new_pool_inv by (simp add: new_pool_def Let_def)
next
  case (step p q)
  then show ?case using pool_step_inv [OF _ step.hyps(2)] by simp
qed

lemma pool_inv_size: "pool_inv p \<Longrightarrow> used_blocks p + length (free_slots p) = capacity p"
  by (metis cached_ids_def diff_zero length_append length_map length_upt mset_append pool_inv_def
      size_mset used_blocks_def)

text \<open>In every pool reachable from \<^verbatim>\<open>BlockPool::new\<close> by any sequence of \<^verbatim>\<open>cache_prompt\<close>,
  \<^verbatim>\<open>unpin\<close>, \<^verbatim>\<open>reset\<close> and \<^verbatim>\<open>take_stats\<close> calls, every physical slot id below the capacity is
  either free or backs exactly one cached block, the number of cached blocks and free slots
  adds up to the capacity, and the reported usage lies in \<open>[0, 1]\<close>.\<close>

theorem pool_slots_conserved:
  assumes "pool_reachable bs cap seed p"
  shows "mset (cached_ids p) + mset (free_slots p) = mset [0..<max cap 1] \<and>
    used_blocks p + length (free_slots p) = max cap 1 \<and> 0 \<le> usage p \<and> usage p \<le> 1"
proof -
  have inv: "pool_inv p" and cap: "capacity p = max cap 1"
    using pool_reachable_inv [OF assms] by auto
  have ids: "mset (cached_ids p) + mset (free_slots p) = mset [0..<max cap 1]"
    using inv unfolding pool_inv_def cap by blast
  have size: "used_blocks p + length (free_slots p) = max cap 1"
    using pool_inv_size [OF inv] cap by simp
  have "referenced_blocks p \<le> used_blocks p"
    using length_filter_le [of "\<lambda>s. refcnt s > 0" "bt_values (cached p)"]
    by (simp add: referenced_blocks_def used_blocks_def)
  then have "referenced_blocks p \<le> capacity p" using pool_inv_size [OF inv] by simp
  moreover have "0 < capacity p" using inv by (simp add: pool_inv_def)
  ultimately have "0 \<le> usage p \<and> usage p \<le> 1" by (simp add: usage_def)
  with ids size show ?thesis by blast
qed

subsection \<open>Pins\<close>

text \<open>Caching a prompt pins exactly the blocks it returns, one pin per returned slot id,
  and never evicts or unpins a block that another request holds: every block pinned before
  the call is still cached in the same slot with at least as many pins.\<close>

theorem cache_prompt_pins:
  assumes "pool_inv p" "cache_prompt p toks lora salt = (out, p')"
  shows "(\<forall>i. refs p' i = refs p i + count_list (block_ids out) i) \<and> keeps_pins p p' \<and>
    length (block_ids out) \<le> n_blocks p toks \<and>
    (\<forall>k < length (block_ids out). \<exists>s. bt_get (cached p') (prompt_chain p toks lora salt k) = Some s \<and>
       block_id s = block_ids out ! k \<and> 0 < refcnt s)"
  using assms(2) prompt_loop_pins [OF assms(1), of toks lora salt]
  by (auto simp: cache_prompt_loop Let_def pins_ok_def)

lemma slot_ids_inj:
  assumes "pool_inv p" "bt_get (cached p) h = Some s" "bt_get (cached p) h' = Some s'"
    "block_id s = block_id s'"
  shows "h = h'"
proof -
  have "inj_on (\<lambda>e. block_id (snd e)) (set (cached p))"
    using pool_inv_distinct_ids [OF assms(1)] by (simp add: cached_ids_def distinct_map)
  then show ?thesis
    using inj_onD [OF _ _ bt_get_Some_mem [OF assms(2)] bt_get_Some_mem [OF assms(3)]] assms(4)
    by fastforce
qed

lemma prompt_pins_aux:
  assumes "pool_inv p" "cache_prompt p toks lora salt = (out, p')"
  shows "refs p' i = refs p i + count_list (block_ids out) i" "keeps_pins p p'"
    "length (block_ids out) \<le> n_blocks p toks"
    "k < length (block_ids out) \<Longrightarrow> \<exists>s. bt_get (cached p') (prompt_chain p toks lora salt k) = Some s \<and>
       block_id s = block_ids out ! k \<and> 0 < refcnt s"
  using assms(2) prompt_loop_pins [OF assms(1), of toks lora salt]
  by (auto simp: cache_prompt_loop Let_def pins_ok_def)

lemma distinct_block_ids:
  assumes "pool_inv p" "cache_prompt p toks lora salt = (out, p')"
    "inj_on (prompt_chain p toks lora salt) {0..<n_blocks p toks}"
  shows "distinct (block_ids out)"
proof -
  have inv': "pool_inv p'" using cache_prompt_inv [OF assms(1), of toks lora salt] assms(2) by simp
  have "i = j" if ij: "i < length (block_ids out)" "j < length (block_ids out)"
      "block_ids out ! i = block_ids out ! j" for i j
  proof -
    obtain s t where "bt_get (cached p') (prompt_chain p toks lora salt i) = Some s"
      "block_id s = block_ids out ! i" "bt_get (cached p') (prompt_chain p toks lora salt j) = Some t"
      "block_id t = block_ids out ! j"
      using prompt_pins_aux(4) [OF assms(1,2)] ij(1,2) by metis
    then have "prompt_chain p toks lora salt i = prompt_chain p toks lora salt j"
      using slot_ids_inj [OF inv'] ij(3) by metis
    then show ?thesis
      using inj_onD [OF assms(3)] ij(1,2) prompt_pins_aux(3) [OF assms(1,2)] by simp
  qed
  then show ?thesis by (auto simp: distinct_conv_nth)
qed

text \<open>Releasing a request's pins undoes exactly what caching its prompt pinned, provided the
  prompt's chained block hashes do not collide with one another.\<close>

theorem cache_then_unpin:
  assumes "pool_inv p" "cache_prompt p toks lora salt = (out, p')"
    "inj_on (prompt_chain p toks lora salt) {0..<n_blocks p toks}"
  shows "refs (unpin (block_ids out) p') i = refs p i"
proof -
  have "pool_inv p'" using cache_prompt_inv [OF assms(1), of toks lora salt] assms(2) by simp
  moreover have "count_list (block_ids out) i = (if i \<in> set (block_ids out) then 1 else 0)"
    using distinct_block_ids [OF assms]
    by (metis count_list_0_iff count_mset distinct_count_atmost_1)
  ultimately show ?thesis
    using prompt_pins_aux(1) [OF assms(1,2)] by (simp add: unpin_refs)
qed

subsection \<open>Prefix hits\<close>

lemma prefix_hit_aux:
  assumes "pool_inv p"
  shows "num_cached_tokens (fst (cache_prompt p toks lora salt)) =
    prefix_len (keys p) (prompt_chain p toks lora salt) (n_blocks p toks) * block_size p"
  using prompt_loop_prefix [OF assms, of toks lora salt] prompt_loop_pins [OF assms, of toks lora salt]
  by (simp add: cache_prompt_loop Let_def pins_ok_def)

text \<open>C32: The reported number of cached tokens is the block size times the length of the longest
  leading run of the prompt's blocks that were cached when the call started.\<close>

theorem cache_prompt_prefix_hit:
  assumes "pool_inv p"
  shows "num_cached_tokens (fst (cache_prompt p toks lora salt)) =
    prefix_len (keys p) (prompt_chain p toks lora salt) (n_blocks p toks) * block_size p"
  using assms by (rule prefix_hit_aux)

definition slot_id :: "block_pool \<Rightarrow> u64 \<Rightarrow> nat option" where
  "slot_id p h = map_option block_id (bt_get (cached p) h)"

definition all_hits_ok :: "block_pool \<Rightarrow> (nat \<Rightarrow> u64) \<Rightarrow> nat \<Rightarrow> cache_loop \<Rightarrow> bool" where
  "all_hits_ok p ch j l \<longleftrightarrow>
     keys (lpool l) = keys p \<and> (\<forall>h. slot_id (lpool l) h = slot_id p h) \<and>
     out_events l = [] \<and> run_hashes l = [] \<and> map Some (out_ids l) = map (slot_id p \<circ> ch) [0..<j]"

lemma all_hits_step:
  assumes "loop_ok seed bs toks lora salt j l" "all_hits_ok p (chain_hash seed bs toks lora salt) j l"
    "chain_hash seed bs toks lora salt j \<in> keys p"
  obtains l' where "cache_block toks lora salt j l = Inr l'"
    "all_hits_ok p (chain_hash seed bs toks lora salt) (Suc j) l'"
proof -
  let ?h = "chain_hash seed bs toks lora salt j"
  have "?h \<in> keys (lpool l)" using assms(2,3) by (simp add: all_hits_ok_def)
  then obtain s where s: "bt_get (cached (lpool l)) ?h = Some s" by (auto simp: keys_iff)
  then have "slot_id (lpool l) ?h = Some (block_id s)" by (simp add: slot_id_def)
  then have "Some (block_id s) = slot_id p ?h"
    using assms(2) by (simp add: all_hits_ok_def)
  moreover have "slot_id (touch_slot ?h (lpool l)) k = slot_id (lpool l) k" for k
    by (cases "bt_get (cached (lpool l)) k") (auto simp: slot_id_def touch_slot_get)
  ultimately show ?thesis
    using that [OF cache_block_hit [OF assms(1) refl s]] assms(2)
    by (simp add: all_hits_ok_def)
qed

lemma prompt_loop_all_hits:
  assumes "pool_inv p" "\<forall>k < n_blocks p toks. prompt_chain p toks lora salt k \<in> keys p"
  shows "all_hits_ok p (prompt_chain p toks lora salt) (n_blocks p toks) (prompt_loop p toks lora salt)"
  unfolding prompt_chain_def
proof (rule prompt_loop_rule [OF assms(1), where I = "all_hits_ok p
        (chain_hash (none_seed p) (block_size p) toks lora (norm_salt salt))"])
  fix j l l'
  assume a: "j < n_blocks p toks" "loop_ok (none_seed p) (block_size p) toks lora (norm_salt salt) j l"
    "all_hits_ok p (chain_hash (none_seed p) (block_size p) toks lora (norm_salt salt)) j l"
  then have "chain_hash (none_seed p) (block_size p) toks lora (norm_salt salt) j \<in> keys p"
    using assms(2) by (simp add: prompt_chain_def)
  note step = all_hits_step [OF a(2,3) this]
  show "all_hits_ok p (chain_hash (none_seed p) (block_size p) toks lora (norm_salt salt)) (Suc j) l'"
    if "cache_block toks lora (norm_salt salt) j l = Inr l'"
    using step that by (metis sum.inject(2))
  show "all_hits_ok p (chain_hash (none_seed p) (block_size p) toks lora (norm_salt salt))
      (n_blocks p toks) l'"
    if "cache_block toks lora (norm_salt salt) j l = Inl l'"
    using step that by (metis sum.distinct(1))
qed (auto simp: all_hits_ok_def start_loop_def slot_id_def keys_def)

text \<open>A prompt whose blocks were all stored is served entirely from the cache when it comes
  back after its pins are released: the same slots, every full block counted as a hit, and
  no event.\<close>

theorem cache_prompt_again_hits:
  assumes "pool_inv p" "cache_prompt p toks lora salt = (out, p')"
    "length (block_ids out) = n_blocks p toks"
    "cache_prompt (unpin (block_ids out) p') toks lora salt = (out2, p2)"
  shows "num_cached_tokens out2 = n_blocks p toks * block_size p \<and>
    block_ids out2 = block_ids out \<and> events out2 = []"
proof -
  let ?q = "unpin (block_ids out) p'"
  let ?ch = "prompt_chain p toks lora salt"
  have inv': "pool_inv p'" and dims: "block_size p' = block_size p" "none_seed p' = none_seed p"
    using assms(2) cache_prompt_inv [OF assms(1), of toks lora salt]
      cache_prompt_capacity [OF assms(1), of toks lora salt] by auto
  have invq: "pool_inv ?q" using inv' by (rule unpin_inv)
  have ch: "prompt_chain ?q toks lora salt = ?ch" and n: "n_blocks ?q toks = n_blocks p toks"
    using dims by (simp_all add: prompt_chain_def n_blocks_def)
  have slot: "slot_id ?q (?ch k) = Some (block_ids out ! k)" if "k < n_blocks p toks" for k
    using prompt_pins_aux(4) [OF assms(1,2)] that assms(3) by (fastforce simp: slot_id_def unpin_get)
  then have hits: "\<forall>k < n_blocks ?q toks. prompt_chain ?q toks lora salt k \<in> keys ?q"
    unfolding ch n keys_iff by (fastforce simp: slot_id_def)
  have l: "all_hits_ok ?q ?ch (n_blocks p toks) (prompt_loop ?q toks lora salt)"
    using prompt_loop_all_hits [OF invq hits] ch n by simp
  have "map Some (out_ids (prompt_loop ?q toks lora salt)) = map Some (block_ids out)"
    using l slot assms(3) by (auto simp: all_hits_ok_def intro!: nth_equalityI)
  then have "block_ids out2 = block_ids out" "events out2 = []"
    using assms(4) l by (auto simp: cache_prompt_loop Let_def all_hits_ok_def)
  moreover have "num_cached_tokens out2 = n_blocks p toks * block_size p"
    using prefix_hit_aux [OF invq, of toks lora salt] assms(4) hits ch n dims
      prefix_len_eq [of "n_blocks p toks" "n_blocks p toks" ?ch "keys ?q"] by simp
  ultimately show ?thesis by simp
qed

subsection \<open>Events\<close>

lemma cache_prompt_mirror:
  assumes "pool_inv p"
  shows "apply_events (keys p) (events (fst (cache_prompt p toks lora salt))) =
    keys (snd (cache_prompt p toks lora salt))"
  using prompt_loop_mirror [OF assms, of toks lora salt]
  by (auto simp: cache_prompt_loop Let_def mirror_ok_def flush_run_def)

lemma reset_mirror:
  "apply_events (keys p) (case fst (reset_pool p) of None \<Rightarrow> [] | Some e \<Rightarrow> [e]) = keys (snd (reset_pool p))"
  by (simp add: reset_pool_def keys_def apply_events_def)

text \<open>A router that starts from the set of cached block hashes and applies the emitted
  \<^verbatim>\<open>BlockStored\<close>/\<^verbatim>\<open>BlockRemoved\<close> events in order arrives at the set of block hashes the pool
  caches afterwards, for \<^verbatim>\<open>cache_prompt\<close> and for \<^verbatim>\<open>reset\<close>.\<close>

theorem events_mirror_cache:
  assumes "pool_inv p"
  shows "apply_events (keys p) (events (fst (cache_prompt p toks lora salt))) =
      keys (snd (cache_prompt p toks lora salt)) \<and>
    apply_events (keys p) (case fst (reset_pool p) of None \<Rightarrow> [] | Some e \<Rightarrow> [e]) =
      keys (snd (reset_pool p))"
  using cache_prompt_mirror [OF assms] reset_mirror by blast

text \<open>Every event of \<^verbatim>\<open>cache_prompt\<close> is either the removal of one evicted block or a stored
  run: consecutive blocks of the prompt with exactly their hashes and tokens, whose parent
  hash is the hash of the block just before the run (none for a run that starts the prompt).\<close>

theorem cache_prompt_event_shape:
  assumes "pool_inv p" "e \<in> set (events (fst (cache_prompt p toks lora salt)))"
  shows "(\<exists>v. e = Removed [v]) \<or>
    (\<exists>a b. a < b \<and> b \<le> n_blocks p toks \<and>
       block_hashes e = map (prompt_chain p toks lora salt) [a..<b] \<and>
       parent_hash e = (if a = 0 then None else Some (prompt_chain p toks lora salt (a - 1))) \<and>
       token_ids e = concat (map (block_toks (block_size p) toks) [a..<b]) \<and>
       e = Stored (block_hashes e) (parent_hash e) (token_ids e) (block_size p) lora)"
proof -
  obtain j where j: "j \<le> n_blocks p toks" and
    runs: "runs_ok (none_seed p) (block_size p) toks lora (norm_salt salt) j (prompt_loop p toks lora salt)"
    using prompt_loop_runs [OF assms(1)] by blast
  have "event_ok (none_seed p) (block_size p) toks lora (norm_salt salt) j e"
    using assms(2) runs runs_ok_flush [OF runs]
    by (auto simp: cache_prompt_loop Let_def runs_ok_def split: if_splits)
  then have "event_ok (none_seed p) (block_size p) toks lora (norm_salt salt) (n_blocks p toks) e"
    using j event_ok_mono by blast
  then consider v where "e = Removed [v]"
    | a b where "a < b" "b \<le> n_blocks p toks"
      "e = run_of (none_seed p) (block_size p) toks lora (norm_salt salt) a b"
    by (auto simp: event_ok_def)
  then show ?thesis
  proof cases
    case (2 a b)
    have "chain_parent (none_seed p) (block_size p) toks lora (norm_salt salt) a =
        (if a = 0 then None else Some (prompt_chain p toks lora salt (a - 1)))"
      by (cases a) (simp_all add: chain_parent_def prompt_chain_def)
    with 2 show ?thesis
      by (intro disjI2 exI [of _ a] exI [of _ b]) (simp add: run_of_def prompt_chain_def)
  qed simp
qed

subsection \<open>Eviction\<close>

text \<open>A slot allocation fails exactly when no slot is free and every cached block is pinned;
  when it evicts, the victim carries no pin and is strictly less recently used than every
  other unpinned block, so the choice does not depend on the hash map's iteration order.\<close>

theorem allocate_slot_evicts_lru:
  assumes "pool_inv p"
  shows "(allocate_slot p = None \<longleftrightarrow>
      free_slots p = [] \<and> (\<forall>h s. bt_get (cached p) h = Some s \<longrightarrow> 0 < refcnt s)) \<and>
    (\<forall>bid e p'. allocate_slot p = Some (bid, Some e, p') \<longrightarrow>
      (\<exists>v s. e = Removed [v] \<and> bt_get (cached p) v = Some s \<and> block_id s = bid \<and> refcnt s = 0 \<and>
         (\<forall>h t. bt_get (cached p) h = Some t \<longrightarrow> refcnt t = 0 \<longrightarrow> h \<noteq> v \<longrightarrow> last_used s < last_used t)))"
proof (intro conjI allI impI)
  show "allocate_slot p = None \<longleftrightarrow>
      free_slots p = [] \<and> (\<forall>h s. bt_get (cached p) h = Some s \<longrightarrow> 0 < refcnt s)"
    using lru_victim_None [OF assms] by (auto simp: allocate_slot_def vec_pop_def split: option.splits)
next
  fix bid e p' assume "allocate_slot p = Some (bid, Some e, p')"
  then obtain v s where v: "lru_victim p = Some (v, s)" "e = Removed [v]" "bid = block_id s"
    by (auto simp: allocate_slot_def split: option.splits)
  note lru = lru_victim_Some [OF assms v(1)]
  have "last_used s < last_used t" if "bt_get (cached p) h = Some t" "refcnt t = 0" "h \<noteq> v" for h t
    using lru(3) [OF that(1,2)] pool_inv_lru [OF assms lru(1) that(1)] that(3) by (auto simp: less_le)
  with v lru(1,2) show "\<exists>v s. e = Removed [v] \<and> bt_get (cached p) v = Some s \<and> block_id s = bid \<and>
      refcnt s = 0 \<and>
      (\<forall>h t. bt_get (cached p) h = Some t \<longrightarrow> refcnt t = 0 \<longrightarrow> h \<noteq> v \<longrightarrow> last_used s < last_used t)"
    by blast
qed

end
