(* ===== verification/Protocol.thy ===== *)
theory Protocol
  imports Prelude
begin

text \<open>
  The wire vocabulary the engine shares with the frontend: the fields of engine-core requests
  and outputs that the code reads or writes (\<^verbatim>\<open>crates/sim-protocol/src/vllm.rs\<close>), finish
  reasons and their trace form (\<^verbatim>\<open>wire.rs\<close>), and the \<^verbatim>\<open>kv_transfer_params\<close> dictionary
  (\<^verbatim>\<open>kvparams.rs\<close> and the two converters of \<^verbatim>\<open>src/src/engine.rs\<close>). JSON and msgpack values
  are trees; their byte encodings belong to external crates. An error is its message.
\<close>

section \<open>Values\<close>

type_synonym 'a result = "string + 'a"

definition bind_result :: "'a result \<Rightarrow> ('a \<Rightarrow> 'b result) \<Rightarrow> 'b result" where
  "bind_result r f = (case r of Inl e \<Rightarrow> Inl e | Inr v \<Rightarrow> f v)"

lemma bind_result_Inr: "bind_result x f = Inr y \<longleftrightarrow> (\<exists>v. x = Inr v \<and> f v = Inr y)"
  by (cases x) (simp_all add: bind_result_def)

datatype json = JNull | JBool bool | JInt int | JFloat f64 | JString string
  | JArray "json list" | JObject "(string \<times> json) list"

fun json_get :: "string \<Rightarrow> json \<Rightarrow> json option" where
  "json_get k (JObject m) = map_of m k"
| "json_get k _ = None"

fun json_as_bool :: "json \<Rightarrow> bool option" where
  "json_as_bool (JBool b) = Some b"
| "json_as_bool _ = None"

fun json_as_str :: "json \<Rightarrow> string option" where
  "json_as_str (JString s) = Some s"
| "json_as_str _ = None"

fun json_as_array :: "json \<Rightarrow> json list option" where
  "json_as_array (JArray xs) = Some xs"
| "json_as_array _ = None"

fun json_as_u64 :: "json \<Rightarrow> nat option" where
  "json_as_u64 (JInt i) = (if 0 \<le> i \<and> i < 2 ^ 64 then Some (nat i) else None)"
| "json_as_u64 _ = None"

fun json_as_i64 :: "json \<Rightarrow> int option" where
  "json_as_i64 (JInt i) = (if - (2 ^ 63) \<le> i \<and> i < 2 ^ 63 then Some i else None)"
| "json_as_i64 _ = None"

datatype msgpack = MNil | MBool bool | MInt int | MFloat f64 | MString string
  | MBinary "u8 list" | MArray "msgpack list" | MMap "(msgpack \<times> msgpack) list"

fun msgpack_as_str :: "msgpack \<Rightarrow> string option" where
  "msgpack_as_str (MString s) = Some s"
| "msgpack_as_str _ = None"

fun msgpack_as_u64 :: "msgpack \<Rightarrow> nat option" where
  "msgpack_as_u64 (MInt i) = (if 0 \<le> i \<and> i < 2 ^ 64 then Some (nat i) else None)"
| "msgpack_as_u64 _ = None"

text \<open>An \<^verbatim>\<open>f64\<close> that may be NaN or infinite, and its partial comparison.\<close>

datatype fval = NaN | NegInf | Fin f64 | PosInf

datatype ordering = Less | Equal | Greater

definition cmp_of :: "'a::linorder \<Rightarrow> 'a \<Rightarrow> ordering" where
  "cmp_of a b = (if a < b then Less else if a = b then Equal else Greater)"

fun partial_cmp :: "fval \<Rightarrow> fval \<Rightarrow> ordering option" where
  "partial_cmp NaN _ = None"
| "partial_cmp _ NaN = None"
| "partial_cmp NegInf NegInf = Some Equal"
| "partial_cmp NegInf _ = Some Less"
| "partial_cmp (Fin _) NegInf = Some Greater"
| "partial_cmp (Fin a) (Fin b) = Some (cmp_of a b)"
| "partial_cmp (Fin _) PosInf = Some Less"
| "partial_cmp PosInf PosInf = Some Equal"
| "partial_cmp PosInf _ = Some Greater"

section \<open>Finish reasons and request types\<close>

datatype finish_reason = FStop | FLength | FAbort | FError | FRepetition

datatype trace_finish_reason = TStop | TLength | TAbort | TError | TRepetition

fun trace_finish_reason_of :: "finish_reason \<Rightarrow> trace_finish_reason" where
  "trace_finish_reason_of FStop = TStop"
| "trace_finish_reason_of FLength = TLength"
| "trace_finish_reason_of FAbort = TAbort"
| "trace_finish_reason_of FError = TError"
| "trace_finish_reason_of FRepetition = TRepetition"

fun engine_finish_reason :: "trace_finish_reason \<Rightarrow> finish_reason" where
  "engine_finish_reason TStop = FStop"
| "engine_finish_reason TLength = FLength"
| "engine_finish_reason TAbort = FAbort"
| "engine_finish_reason TError = FError"
| "engine_finish_reason TRepetition = FRepetition"

datatype request_type = RAdd | RAbort | RStartDpWave | RUtility

fun request_type_from_frame :: "u8 list \<Rightarrow> request_type option" where
  "request_type_from_frame [value] =
     (if value = 0 then Some RAdd
      else if value = 1 then Some RAbort
      else if value = 2 then Some RStartDpWave
      else if value = 3 then Some RUtility
      else None)"
| "request_type_from_frame _ = None"

section \<open>Requests and outputs\<close>

record sampling_params =
  sp_max_tokens :: nat
  sp_min_tokens :: nat
  sp_eos_token_id :: "nat option"
  sp_extra_args :: "(string \<times> json) list option"

record engine_request =
  req_id :: string
  req_client :: nat
  req_prompt :: "u32 list option"
  req_sampling :: "sampling_params option"
  req_lora :: "(string \<times> nat) option"
  req_cache_salt :: "string option"
  req_priority :: int
  req_arrival :: fval
  req_mm_hashes :: "string option list option"

datatype event_type = EQueued | EScheduled

record engine_event =
  ev_type :: event_type
  ev_timestamp :: f64

record prefill_stats =
  ps_num_prompt_tokens :: nat
  ps_num_computed_tokens :: nat
  ps_num_cached_tokens :: nat
  ps_num_local_cached_tokens :: nat
  ps_num_external_cached_tokens :: nat
  ps_num_cache_creation_tokens :: nat

record engine_core_output =
  out_id :: string
  out_tokens :: "u32 list"
  out_finish :: "finish_reason option"
  out_prefill_stats :: "prefill_stats option"
  out_lifecycle :: "engine_event list option"
  out_kv_params :: "json option"

record spec_decoding_stats =
  num_spec_tokens :: nat
  num_drafts :: nat
  num_draft_tokens :: nat
  num_accepted_tokens :: nat
  num_accepted_tokens_per_pos :: "nat list"

record scheduler_stats =
  ss_num_running :: nat
  ss_num_waiting :: nat
  ss_num_skipped :: nat
  ss_kv_cache_usage :: f64
  ss_prefix_requests :: nat
  ss_prefix_queries :: nat
  ss_prefix_hits :: nat
  ss_spec :: "spec_decoding_stats option"

datatype envelope =
    RequestBatch (env_engine: nat) (env_outputs: "engine_core_output list")
      (env_stats: "scheduler_stats option") (env_timestamp: f64) (env_finished: "string list option")
  | UtilityCall (env_engine: nat) (env_timestamp: f64) (env_call_id: nat) (env_result: msgpack)

record engine_output =
  eo_client :: nat
  eo_env :: envelope

fun request_outputs :: "envelope \<Rightarrow> engine_core_output list" where
  "request_outputs (RequestBatch _ outs _ _ _) = outs"
| "request_outputs (UtilityCall _ _ _ _) = []"

fun utility_output :: "envelope \<Rightarrow> (nat \<times> msgpack) option" where
  "utility_output (UtilityCall _ _ call_id result) = Some (call_id, result)"
| "utility_output (RequestBatch _ _ _ _ _) = None"

fun scheduler_stats_of :: "envelope \<Rightarrow> scheduler_stats option" where
  "scheduler_stats_of (RequestBatch _ _ stats _ _) = stats"
| "scheduler_stats_of (UtilityCall _ _ _ _) = None"

definition engine_id_from_index :: "nat \<Rightarrow> nat result" where
  "engine_id_from_index engine_index =
     (if engine_index < 2 ^ 16 then Inr engine_index
      else Inl ''engine index exceeds the wire's u16 range'')"

section \<open>KV transfer parameters\<close>

record remote_kv =
  rk_engine_id :: string
  rk_host :: string
  rk_port :: nat
  rk_block_ids :: "int list"
  rk_request_id :: string

definition extract_kv_params :: "engine_request \<Rightarrow> json option" where
  "extract_kv_params request =
     (case req_sampling request of
        None \<Rightarrow> None
      | Some sp \<Rightarrow>
          (case sp_extra_args sp of
             None \<Rightarrow> None
           | Some args \<Rightarrow> map_of args ''kv_transfer_params''))"

definition kv_flag :: "json \<Rightarrow> string \<Rightarrow> bool" where
  "kv_flag kv key =
     (case Option.bind (json_get key kv) json_as_bool of None \<Rightarrow> False | Some b \<Rightarrow> b)"

definition parse_remote_kv :: "json \<Rightarrow> remote_kv option" where
  "parse_remote_kv kv =
     (if \<not> kv_flag kv ''do_remote_prefill'' then None
      else Option.bind (Option.bind (json_get ''remote_engine_id'' kv) json_as_str) (\<lambda>engine_id.
           Option.bind (Option.bind (json_get ''remote_host'' kv) json_as_str) (\<lambda>host.
           Option.bind (Option.bind (json_get ''remote_port'' kv) json_as_u64) (\<lambda>port.
           Option.bind (Option.bind (json_get ''remote_block_ids'' kv) json_as_array) (\<lambda>ids.
           Some \<lparr>rk_engine_id = engine_id, rk_host = host, rk_port = port mod 2 ^ 32,
                 rk_block_ids = List.map_filter json_as_i64 ids,
                 rk_request_id =
                   (case Option.bind (json_get ''remote_request_id'' kv) json_as_str of
                      None \<Rightarrow> [] | Some s \<Rightarrow> s)\<rparr>)))))"

definition build_prefill_kv_params :: "remote_kv \<Rightarrow> string \<Rightarrow> nat \<Rightarrow> json" where
  "build_prefill_kv_params remote request_id remote_num_tokens =
     JObject
       [(''do_remote_prefill'', JBool True),
        (''do_remote_decode'', JBool False),
        (''remote_block_ids'', JArray (map JInt (rk_block_ids remote))),
        (''remote_engine_id'', JString (rk_engine_id remote)),
        (''remote_request_id'', JString request_id),
        (''remote_host'', JString (rk_host remote)),
        (''remote_port'', JInt (int (rk_port remote))),
        (''tp_size'', JInt 1),
        (''remote_num_tokens'', JInt (int remote_num_tokens))]"

section \<open>Properties\<close>

text \<open>The trace form of a finish reason and its wire form are inverse to each other, so a
  recorded finish reason is replayed unchanged.\<close>

theorem finish_reason_round_trip:
  "trace_finish_reason_of (engine_finish_reason t) = t \<and>
   engine_finish_reason (trace_finish_reason_of f) = f"
  by (cases t; cases f) simp_all

lemma map_filter_as_i64:
  "\<forall>i \<in> set ids. - (2 ^ 63) \<le> i \<and> i < 2 ^ 63 \<Longrightarrow> List.map_filter json_as_i64 (map JInt ids) = ids"
  by (induction ids) (auto simp: map_filter_simps)

text \<open>The descriptor a prefill engine puts on its output is read back by a decode engine as the
  same engine, host, port and blocks, with the prefill's request id; hypotheses: the port fits
  32 bits and the block ids fit \<^verbatim>\<open>i64\<close>.\<close>

theorem kv_params_round_trip:
  assumes "rk_port r < 2 ^ 32" "\<forall>i \<in> set (rk_block_ids r). - (2 ^ 63) \<le> i \<and> i < 2 ^ 63"
  shows "parse_remote_kv (build_prefill_kv_params r rid n) = Some (r\<lparr>rk_request_id := rid\<rparr>)"
  using assms
  by (simp add: parse_remote_kv_def build_prefill_kv_params_def kv_flag_def map_filter_as_i64)

theorem kv_params_round_trip_witness:
  "parse_remote_kv (build_prefill_kv_params
     \<lparr>rk_engine_id = ''e'', rk_host = ''h'', rk_port = 5600, rk_block_ids = [0, 3], rk_request_id = []\<rparr> ''r1'' 8)
   = Some \<lparr>rk_engine_id = ''e'', rk_host = ''h'', rk_port = 5600, rk_block_ids = [0, 3], rk_request_id = ''r1''\<rparr>"
  using kv_params_round_trip [of
      "\<lparr>rk_engine_id = ''e'', rk_host = ''h'', rk_port = 5600, rk_block_ids = [0, 3], rk_request_id = []\<rparr>"
      "''r1''" 8]
  by simp

end
