(* ===== verification/Trace.thy ===== *)
theory Trace
  imports Cache_Prompt Protocol
begin

text \<open>
  Trace records (\<^verbatim>\<open>crates/sim-trace/src/trace.rs\<close>): the schema, the chained block hashes of a
  prompt, record validation and the canonical replay order. The hash chain is related to the
  one the block pool computes.
\<close>

record itl_summary =
  mean_ms :: f64
  itl_count :: nat

record itl_context =
  ctx_num_running :: "nat list"
  ctx_prefill_tokens :: "nat list"

record trace_record =
  tr_prompt_tokens :: nat
  tr_cached_tokens :: nat
  tr_output_tokens :: nat
  tr_ttft_ms :: f64
  tr_itl_ms :: "f64 list option"
  tr_itl_tokens :: "nat list option"
  tr_itl_summary :: "itl_summary option"
  tr_concurrency :: nat
  tr_arrival_ms :: "f64 option"
  tr_itl_ctx :: "itl_context option"
  tr_block_hashes :: "u64 list option"
  tr_mm_hashes :: "string list option"
  tr_output_token_ids :: "u32 list option"
  tr_finish_reason :: "trace_finish_reason option"

definition default_concurrency :: nat where
  "default_concurrency = 1"

definition default_record :: trace_record where
  "default_record =
     \<lparr>tr_prompt_tokens = 0, tr_cached_tokens = 0, tr_output_tokens = 0, tr_ttft_ms = 0,
      tr_itl_ms = None, tr_itl_tokens = None, tr_itl_summary = None,
      tr_concurrency = default_concurrency, tr_arrival_ms = None, tr_itl_ctx = None,
      tr_block_hashes = None, tr_mm_hashes = None, tr_output_token_ids = None,
      tr_finish_reason = None\<rparr>"

section \<open>Block hashes\<close>

text \<open>\<^verbatim>\<open>slice::chunks_exact\<close>: the full chunks, the tail dropped.\<close>

definition chunks_exact :: "nat \<Rightarrow> 'a list \<Rightarrow> 'a list list" where
  "chunks_exact n xs = map (\<lambda>i. take n (drop (i * n) xs)) [0..<length xs div n]"

fun hash_chunks :: "u64 \<Rightarrow> u32 list list \<Rightarrow> u64 list" where
  "hash_chunks prev [] = []"
| "hash_chunks prev (block # blocks) =
     (let h = fold (\<lambda>byte h. (h XOR ucast byte) * FNV_PRIME)
                (u64_to_le_bytes prev @ concat (map u32_to_le_bytes block)) FNV_OFFSET
      in h # hash_chunks h blocks)"

definition prompt_block_hashes :: "u32 list \<Rightarrow> nat \<Rightarrow> u64 list option" where
  "prompt_block_hashes tokens bs =
     (if bs = 0 \<or> length tokens < bs then None
      else Some (hash_chunks FNV_OFFSET (chunks_exact bs tokens)))"

section \<open>Validation and replay order\<close>

definition validate_record :: "trace_record \<Rightarrow> unit result" where
  "validate_record r =
     (let gaps = (case tr_itl_ms r of None \<Rightarrow> 0 | Some g \<Rightarrow> length g) in
      if tr_output_tokens r > 1 \<and> tr_itl_ms r = None \<and> tr_itl_summary r = None
      then Inl ''neither itl_ms nor itl_summary is present''
      else if (case tr_itl_ctx r of None \<Rightarrow> False
               | Some ctx \<Rightarrow> length (ctx_num_running ctx) \<noteq> gaps \<or> length (ctx_prefill_tokens ctx) \<noteq> gaps)
      then Inl ''itl_ctx arrays must parallel itl_ms''
      else if (case tr_itl_tokens r of None \<Rightarrow> False | Some t \<Rightarrow> length t \<noteq> gaps)
      then Inl ''itl_tokens must parallel itl_ms''
      else if (case tr_itl_tokens r of None \<Rightarrow> False
               | Some t \<Rightarrow> 0 \<in> set t \<or> sum_list t \<ge> tr_output_tokens r)
      then Inl ''itl_tokens must be positive and sum below output_tokens''
      else if (case tr_output_token_ids r of None \<Rightarrow> False | Some ids \<Rightarrow> length ids \<noteq> tr_output_tokens r)
      then Inl ''output_token_ids length differs from output_tokens''
      else Inr ())"

text \<open>A stable sort by arrival time of the records that carry one.\<close>

definition replay_subset :: "trace_record list \<Rightarrow> trace_record list" where
  "replay_subset records =
     sort_key (\<lambda>r. the (tr_arrival_ms r)) (filter (\<lambda>r. tr_arrival_ms r \<noteq> None) records)"

section \<open>Properties\<close>

lemma fold_bytes_concat:
  "fold f (concat (map g ts)) h = fold (\<lambda>t h. fold f (g t) h) ts h"
  by (induction ts arbitrary: h) auto

lemma hash_chunks_step:
  "hash_block seed par block [] =
     fold (\<lambda>byte h. (h XOR ucast byte) * FNV_PRIME)
       (u64_to_le_bytes (case par of None \<Rightarrow> seed | Some p \<Rightarrow> p) @ concat (map u32_to_le_bytes block))
       FNV_OFFSET"
  unfolding hash_block_def Let_def mix_def fold_append comp_def fold_bytes_concat by simp

lemma hash_chunks_chain:
  "hash_chunks (case chain_parent seed bs toks None None i of None \<Rightarrow> seed | Some p \<Rightarrow> p)
     (map (block_toks bs toks) [i..<i + n]) =
   map (chain_hash seed bs toks None None) [i..<i + n]"
proof (induction n arbitrary: i)
  case (Suc n)
  have c: "[i..<i + Suc n] = i # [Suc i..<Suc i + n]" by (simp add: upt_conv_Cons)
  have h: "chain_hash seed bs toks None None i =
      fold (\<lambda>byte h. (h XOR ucast byte) * FNV_PRIME)
       (u64_to_le_bytes (case chain_parent seed bs toks None None i of None \<Rightarrow> seed | Some p \<Rightarrow> p) @
        concat (map u32_to_le_bytes (block_toks bs toks i))) FNV_OFFSET"
    unfolding chain_hash_eq [of _ _ _ _ _ i] by (simp add: extra_keys_def hash_chunks_step)
  show ?case
    unfolding c using Suc.IH [of "Suc i"] by (simp only: list.map hash_chunks.simps Let_def h [symmetric]
        chain_parent_Suc option.case)
qed simp

lemma prompt_block_hashes_chain:
  assumes "0 < bs"
  shows "prompt_block_hashes toks bs =
    (if length toks < bs then None
     else Some (map (chain_hash FNV_OFFSET bs toks None None) [0..<length toks div bs]))"
  using hash_chunks_chain [of FNV_OFFSET bs toks 0 "length toks div bs"] assms
  by (simp add: prompt_block_hashes_def chunks_exact_def chain_parent_def block_toks_def [abs_def])

text \<open>The trace's block hashes are the hash chain the block pool itself computes for the prompt
  when it is seeded with the FNV offset basis and the request has neither adapter nor salt.\<close>

theorem trace_hashes_match_pool:
  assumes "pool_inv p" "none_seed p = FNV_OFFSET" "block_size p \<le> length toks"
  shows "prompt_block_hashes toks (block_size p) =
    Some (map (prompt_chain p toks None None) [0..<n_blocks p toks])"
  using assms prompt_block_hashes_chain [of "block_size p" toks]
  by (simp add: pool_inv_def prompt_chain_def n_blocks_def norm_salt_def)

theorem trace_hashes_match_pool_witness:
  "prompt_block_hashes [7, 8] 1 =
     Some (map (prompt_chain (new_pool 1 4 FNV_OFFSET) [7, 8] None None) [0..<n_blocks (new_pool 1 4 FNV_OFFSET) [7, 8]])"
  using trace_hashes_match_pool [OF new_pool_inv [of 1 4 FNV_OFFSET], of "[7, 8]"]
  by (simp add: new_pool_def)

lemma chain_hash_cong:
  assumes "\<forall>j \<le> i. block_toks bs toks j = block_toks bs toks' j"
  shows "chain_hash seed bs toks lora salt i = chain_hash seed bs toks' lora salt i"
  using assms by (induction i) auto

text \<open>Two prompts that share their first \<open>k\<close> blocks of tokens have the same first \<open>k\<close> block
  hashes: shared prefixes show up as shared chain prefixes.\<close>

theorem shared_prefix_shared_hashes:
  assumes "prompt_block_hashes toks bs = Some hs" "prompt_block_hashes toks' bs = Some hs'"
    "take (k * bs) toks = take (k * bs) toks'" "k * bs \<le> length toks" "k * bs \<le> length toks'"
  shows "take k hs = take k hs' \<and> k \<le> length hs \<and> k \<le> length hs'"
proof -
  have bs: "0 < bs" using assms(1) by (auto simp: prompt_block_hashes_def split: if_splits)
  have k: "k \<le> length toks div bs" "k \<le> length toks' div bs"
    using assms(4,5) bs by (simp_all add: less_eq_div_iff_mult_less_eq)
  have blocks: "block_toks bs toks j = block_toks bs toks' j" if "j < k" for j
  proof -
    have "Suc j * bs \<le> k * bs" using that by (intro mult_le_mono1) simp
    then have "bs \<le> k * bs - j * bs" by simp
    then have "block_toks bs xs j = take bs (drop (j * bs) (take (k * bs) xs))" for xs :: "u32 list"
      by (simp only: block_toks_def drop_take take_take min_absorb1)
    then show ?thesis using assms(3) by simp
  qed
  have h: "chain_hash FNV_OFFSET bs toks None None i = chain_hash FNV_OFFSET bs toks' None None i"
    if "i < k" for i
    using that blocks by (intro chain_hash_cong) auto
  have hs: "hs = map (chain_hash FNV_OFFSET bs toks None None) [0..<length toks div bs]"
    and hs': "hs' = map (chain_hash FNV_OFFSET bs toks' None None) [0..<length toks' div bs]"
    using assms(1,2) prompt_block_hashes_chain [OF bs] by (auto split: if_splits)
  show ?thesis
    unfolding hs hs' using k h by (auto simp: take_map min_absorb1 intro!: map_cong)
qed

theorem shared_prefix_shared_hashes_witness:
  "\<exists>hs hs'. prompt_block_hashes [1, 2, 3] 1 = Some hs \<and> prompt_block_hashes [1, 2, 9] 1 = Some hs' \<and>
     take 2 hs = take 2 hs'"
proof -
  obtain hs hs' where h: "prompt_block_hashes [1, 2, 3] 1 = Some hs" "prompt_block_hashes [1, 2, 9] 1 = Some hs'"
    by (simp add: prompt_block_hashes_def)
  show ?thesis using h shared_prefix_shared_hashes [OF h, of 2] by simp
qed

text \<open>The replay order keeps exactly the records that carry an arrival time, sorts them by it, and
  leaves records with equal arrival times in file order.\<close>

theorem replay_subset_order:
  "mset (replay_subset records) = mset (filter (\<lambda>r. tr_arrival_ms r \<noteq> None) records) \<and>
   sorted (map (\<lambda>r. the (tr_arrival_ms r)) (replay_subset records)) \<and>
   filter (\<lambda>r. tr_arrival_ms r = Some t) (replay_subset records) =
     filter (\<lambda>r. tr_arrival_ms r = Some t) records"
proof -
  let ?xs = "filter (\<lambda>r. tr_arrival_ms r \<noteq> None) records"
  let ?f = "\<lambda>r. the (tr_arrival_ms r)"
  have "\<forall>r \<in> set (sort_key ?f ?xs). (tr_arrival_ms r = Some t) = (?f r = t)" by auto
  then have "filter (\<lambda>r. tr_arrival_ms r = Some t) (sort_key ?f ?xs) =
      filter (\<lambda>r. ?f r = t) (sort_key ?f ?xs)" by (intro filter_cong) auto
  also have "\<dots> = filter (\<lambda>r. ?f r = t) ?xs" by (rule sort_key_stable)
  also have "\<dots> = filter (\<lambda>r. tr_arrival_ms r = Some t) records"
    by (auto intro!: filter_cong)
  finally show ?thesis by (simp add: replay_subset_def)
qed

end
