(* ===== verification/Tokens.thy ===== *)
theory Tokens
  imports Trace
begin

text \<open>
  Token sources (\<^verbatim>\<open>src/src/tokens.rs\<close>): random tokens, recorded outputs resolved by request
  id, recorded outputs resolved by the longest shared prompt prefix, and dataset rows. The
  random generator is external code: its operations are a parameter. A locale states the
  contract the engine relies on (a draw of \<open>n\<close> tokens delivers \<open>n\<close> tokens, a pinned
  stream is never empty); every source interprets it.
\<close>

section \<open>The random generator\<close>

record 'r rng_ops =
  rnd_range :: "nat \<Rightarrow> 'r \<Rightarrow> nat \<times> 'r"
  rnd_f64 :: "'r \<Rightarrow> f64 \<times> 'r"
  seed_from_u64 :: "u64 \<Rightarrow> 'r"

text \<open>A counter, the concrete generator the examples run on.\<close>

definition counter_rng :: "nat rng_ops" where
  "counter_rng = \<lparr>rnd_range = (\<lambda>n r. (r mod n, Suc r)), rnd_f64 = (\<lambda>r. (1 / 2, Suc r)),
     seed_from_u64 = unat\<rparr>"

section \<open>Contexts and request ids\<close>

record token_ctx =
  tc_request_id :: string
  tc_prompt :: "u32 list"
  tc_num_generated :: nat

datatype replay_match = MatchIndex | MatchPrefix

definition digit_val :: "char \<Rightarrow> nat option" where
  "digit_val c = (let n = of_char c in if 48 \<le> n \<and> n \<le> 57 then Some (n - 48) else None)"

fun parse_digits :: "nat \<Rightarrow> string \<Rightarrow> nat option" where
  "parse_digits acc [] = Some acc"
| "parse_digits acc (c # cs) =
     (case digit_val c of None \<Rightarrow> None | Some d \<Rightarrow> parse_digits (acc * 10 + d) cs)"

text \<open>\<^verbatim>\<open>str::parse::<usize>\<close>: an optional plus sign, then decimal digits in range.\<close>

definition parse_usize :: "string \<Rightarrow> nat option" where
  "parse_usize s =
     (let ds = (if s \<noteq> [] \<and> hd s = CHR ''+'' then tl s else s) in
      if ds = [] then None
      else case parse_digits 0 ds of
             None \<Rightarrow> None
           | Some v \<Rightarrow> if v < 2 ^ 64 then Some v else None)"

text \<open>Everything after the last dash, the whole id when there is none.\<close>

definition id_tail :: "string \<Rightarrow> string" where
  "id_tail s = rev (takeWhile (\<lambda>c. c \<noteq> CHR ''-'') (rev s))"

definition record_index :: "string \<Rightarrow> nat option" where
  "record_index request_id = parse_usize (id_tail request_id)"

section \<open>Random tokens\<close>

fun random_tokens :: "'r rng_ops \<Rightarrow> nat \<Rightarrow> nat \<Rightarrow> 'r \<Rightarrow> u32 list \<times> 'r" where
  "random_tokens ops vocab 0 rng = ([], rng)"
| "random_tokens ops vocab (Suc n) rng =
     (let (t, rng) = rnd_range ops vocab rng;
          (ts, rng) = random_tokens ops vocab n rng
      in (of_nat t # ts, rng))"

section \<open>Recorded outputs\<close>

record recorded_output =
  ro_token_ids :: "u32 list"
  ro_finish_reason :: "finish_reason option"

definition recorded_of :: "trace_record \<Rightarrow> recorded_output" where
  "recorded_of r =
     \<lparr>ro_token_ids = (case tr_output_token_ids r of None \<Rightarrow> [] | Some ids \<Rightarrow> ids),
      ro_finish_reason = map_option engine_finish_reason (tr_finish_reason r)\<rparr>"

text \<open>The recorded slice for a context, padded with random draws.\<close>

definition serve_recorded ::
  "'r rng_ops \<Rightarrow> nat \<Rightarrow> recorded_output option \<Rightarrow> token_ctx \<Rightarrow> nat \<Rightarrow> 'r \<Rightarrow> u32 list \<times> 'r" where
  "serve_recorded ops vocab rec ctx n rng =
     (let recorded =
        (case rec of
           Some r \<Rightarrow>
             (let start = min (tc_num_generated ctx) (length (ro_token_ids r));
                  stop = min (tc_num_generated ctx + n) (length (ro_token_ids r))
              in drop start (take stop (ro_token_ids r)))
         | None \<Rightarrow> [])
      in if length recorded < n
         then (let (pad, rng) = random_tokens ops vocab (n - length recorded) rng
               in (recorded @ pad, rng))
         else (recorded, rng))"

record replay_tokens =
  rt_records :: "recorded_output list"
  rt_vocab :: nat

definition replay_from_records :: "trace_record list \<Rightarrow> nat \<Rightarrow> replay_tokens" where
  "replay_from_records records vocab = \<lparr>rt_records = map recorded_of records, rt_vocab = vocab\<rparr>"

definition rt_record :: "replay_tokens \<Rightarrow> string \<Rightarrow> recorded_output option" where
  "rt_record s request_id =
     (case record_index request_id of
        None \<Rightarrow> None
      | Some i \<Rightarrow> if i < length (rt_records s) then Some (rt_records s ! i) else None)"

section \<open>Prefix matching\<close>

text \<open>Every hash of every chain, mapped to the record indices that contain it, in order.\<close>

definition index_push :: "nat \<Rightarrow> u64 \<Rightarrow> (u64, nat list) btree \<Rightarrow> (u64, nat list) btree" where
  "index_push i hash m =
     bt_insert hash ((case bt_get m hash of None \<Rightarrow> [] | Some is \<Rightarrow> is) @ [i]) m"

definition index_hashes :: "(nat \<times> u64 list) list \<Rightarrow> (u64, nat list) btree" where
  "index_hashes cs = fold (\<lambda>(i, hs) m. fold (index_push i) hs m) cs []"

text \<open>Deepest hash first; an unconsumed candidate if there is one, else the earliest.\<close>

fun match_deepest :: "(u64, nat list) btree \<Rightarrow> bool list \<Rightarrow> u64 list \<Rightarrow> nat option" where
  "match_deepest by_hash consumed [] = None"
| "match_deepest by_hash consumed (hash # deeper) =
     (case bt_get by_hash hash of
        None \<Rightarrow> match_deepest by_hash consumed deeper
      | Some candidates \<Rightarrow>
          (case find (\<lambda>i. \<not> consumed ! i) candidates of
             Some i \<Rightarrow> Some i
           | None \<Rightarrow> (case candidates of [] \<Rightarrow> None | c # _ \<Rightarrow> Some c)))"

record prefix_tokens =
  pt_records :: "recorded_output list"
  pt_by_hash :: "(u64, nat list) btree"
  pt_assigned :: "(string, nat) btree"
  pt_consumed :: "bool list"
  pt_block_size :: nat
  pt_vocab :: nat

definition matchable_chains :: "trace_record list \<Rightarrow> (nat \<times> u64 list) list" where
  "matchable_chains records =
     map (\<lambda>(i, r). (i, case tr_block_hashes r of None \<Rightarrow> [] | Some hs \<Rightarrow> hs))
       (filter (\<lambda>(i, r). case tr_output_token_ids r of None \<Rightarrow> False | Some t \<Rightarrow> t \<noteq> [])
          (enumerate 0 records))"

definition prefix_from_records :: "trace_record list \<Rightarrow> nat \<Rightarrow> nat \<Rightarrow> prefix_tokens" where
  "prefix_from_records records bs vocab =
     \<lparr>pt_records = map recorded_of records, pt_by_hash = index_hashes (matchable_chains records),
      pt_assigned = [], pt_consumed = replicate (length records) False,
      pt_block_size = bs, pt_vocab = vocab\<rparr>"

definition pt_record :: "prefix_tokens \<Rightarrow> string \<Rightarrow> recorded_output option" where
  "pt_record s request_id =
     (case bt_get (pt_assigned s) request_id of
        None \<Rightarrow> None
      | Some i \<Rightarrow> if i < length (pt_records s) then Some (pt_records s ! i) else None)"

definition pt_on_request_added :: "prefix_tokens \<Rightarrow> string \<Rightarrow> u32 list \<Rightarrow> nat option \<times> prefix_tokens" where
  "pt_on_request_added s request_id prompt =
     (case prompt_block_hashes prompt (pt_block_size s) of
        None \<Rightarrow> (None, s)
      | Some chain \<Rightarrow>
          (case match_deepest (pt_by_hash s) (pt_consumed s) (rev chain) of
             None \<Rightarrow> (None, s)
           | Some idx \<Rightarrow>
               (Some (length (ro_token_ids (pt_records s ! idx))),
                s\<lparr>pt_consumed := (pt_consumed s)[idx := True],
                  pt_assigned := bt_insert request_id idx (pt_assigned s)\<rparr>)))"

section \<open>Dataset rows\<close>

record dataset_row =
  row_block_hashes :: "u64 list option"
  row_response :: "u32 list"

record dataset_tokens =
  ds_rows :: "dataset_row list"
  ds_assignments :: "(string, nat) btree"
  ds_positions :: "(string, nat) btree"
  ds_by_hash :: "(u64, nat list) btree"
  ds_consumed :: "bool list"
  ds_match :: replay_match
  ds_block_size :: nat
  ds_vocab :: nat

text \<open>
  \<^verbatim>\<open>from_file\<close> on the tokenized rows (prompt and response ids, in file order): rows whose
  response is empty are dropped, the rest is indexed by block hash for prefix matching.
\<close>

definition dataset_row_of :: "nat \<Rightarrow> u32 list \<times> u32 list \<Rightarrow> dataset_row" where
  "dataset_row_of bs row =
     \<lparr>row_block_hashes = prompt_block_hashes (fst row) bs, row_response = snd row\<rparr>"

definition dataset_from_tokenized ::
  "(u32 list \<times> u32 list) list \<Rightarrow> nat \<Rightarrow> replay_match \<Rightarrow> nat \<Rightarrow> dataset_tokens result" where
  "dataset_from_tokenized tokenized bs replay_match vocab =
     (let rows = map (dataset_row_of bs) (filter (\<lambda>row. snd row \<noteq> []) tokenized);
          by_hash = (if replay_match = MatchPrefix
            then index_hashes (map (\<lambda>(i, r). (i, case row_block_hashes r of None \<Rightarrow> [] | Some hs \<Rightarrow> hs))
                   (enumerate 0 rows))
            else [])
      in if tokenized = [] then Inl ''dataset contains no rows''
         else if rows = [] then Inl ''dataset has no rows with tokenizable responses''
         else if replay_match = MatchPrefix \<and> by_hash = []
         then Inl ''dataset has no rows with a full prompt block''
         else Inr \<lparr>ds_rows = rows, ds_assignments = [], ds_positions = [], ds_by_hash = by_hash,
                   ds_consumed = replicate (length rows) False, ds_match = replay_match,
                   ds_block_size = bs, ds_vocab = vocab\<rparr>)"

definition ds_row :: "dataset_tokens \<Rightarrow> string \<Rightarrow> dataset_row option" where
  "ds_row s request_id =
     (case bt_get (ds_assignments s) request_id of
        None \<Rightarrow> None
      | Some i \<Rightarrow> if i < length (ds_rows s) then Some (ds_rows s ! i) else None)"

definition ds_assign_index :: "string \<Rightarrow> nat \<Rightarrow> dataset_tokens \<Rightarrow> nat option \<times> dataset_tokens" where
  "ds_assign_index request_id row_idx s =
     (Some (length (row_response (ds_rows s ! row_idx))),
      s\<lparr>ds_assignments := bt_insert request_id row_idx (ds_assignments s),
        ds_positions := bt_insert request_id 0 (ds_positions s)\<rparr>)"

definition ds_match_prefix :: "string \<Rightarrow> u32 list \<Rightarrow> dataset_tokens \<Rightarrow> nat option \<times> dataset_tokens" where
  "ds_match_prefix request_id prompt s =
     (case prompt_block_hashes prompt (ds_block_size s) of
        None \<Rightarrow> (None, s)
      | Some chain \<Rightarrow>
          (case match_deepest (ds_by_hash s) (ds_consumed s) (rev chain) of
             None \<Rightarrow> (None, s)
           | Some idx \<Rightarrow>
               (Some (length (row_response (ds_rows s ! idx))),
                s\<lparr>ds_consumed := (ds_consumed s)[idx := True],
                  ds_assignments := bt_insert request_id idx (ds_assignments s),
                  ds_positions := bt_insert request_id 0 (ds_positions s)\<rparr>)))"

definition ds_on_request_added :: "dataset_tokens \<Rightarrow> string \<Rightarrow> u32 list \<Rightarrow> nat option \<times> dataset_tokens" where
  "ds_on_request_added s request_id prompt =
     (case ds_match s of
        MatchIndex \<Rightarrow>
          (case record_index request_id of
             None \<Rightarrow> (None, s)
           | Some row_idx \<Rightarrow>
               if row_idx \<ge> length (ds_rows s) then (None, s)
               else ds_assign_index request_id row_idx s)
      | MatchPrefix \<Rightarrow> ds_match_prefix request_id prompt s)"

definition ds_next_tokens ::
  "'r rng_ops \<Rightarrow> dataset_tokens \<Rightarrow> token_ctx \<Rightarrow> nat \<Rightarrow> 'r \<Rightarrow> u32 list \<times> dataset_tokens \<times> 'r" where
  "ds_next_tokens ops s ctx n rng =
     (case ds_row s (tc_request_id ctx) of
        None \<Rightarrow> (let (ts, rng) = random_tokens ops (ds_vocab s) n rng in (ts, s, rng))
      | Some row \<Rightarrow>
          (let pos = (case bt_get (ds_positions s) (tc_request_id ctx) of None \<Rightarrow> 0 | Some p \<Rightarrow> p);
               available = drop (min pos (length (row_response row))) (row_response row);
               count = min n (length available);
               tokens = take count available;
               s = s\<lparr>ds_positions := bt_modify (tc_request_id ctx) (\<lambda>p. p + count) (ds_positions s)\<rparr>
           in if length tokens < n
              then (let (pad, rng) = random_tokens ops (ds_vocab s) (n - length tokens) rng
                    in (tokens @ pad, s, rng))
              else (tokens, s, rng)))"

definition ds_on_request_finished :: "string \<Rightarrow> dataset_tokens \<Rightarrow> dataset_tokens" where
  "ds_on_request_finished request_id s =
     s\<lparr>ds_assignments := bt_remove request_id (ds_assignments s),
       ds_positions := bt_remove request_id (ds_positions s)\<rparr>"

definition ds_finish_reason :: "dataset_tokens \<Rightarrow> string \<Rightarrow> finish_reason option" where
  "ds_finish_reason s request_id =
     (case ds_row s request_id of
        None \<Rightarrow> None
      | Some row \<Rightarrow>
          (let pos = (case bt_get (ds_positions s) request_id of None \<Rightarrow> 0 | Some p \<Rightarrow> p)
           in if pos \<ge> length (row_response row) then Some FStop else None))"

section \<open>The token source of an engine\<close>

datatype token_source =
    RandomTokens nat
  | ReplayTokens replay_tokens
  | PrefixMatchTokens prefix_tokens
  | DatasetTokens dataset_tokens

fun next_tokens ::
  "'r rng_ops \<Rightarrow> token_source \<Rightarrow> token_ctx \<Rightarrow> nat \<Rightarrow> 'r \<Rightarrow> u32 list \<times> token_source \<times> 'r" where
  "next_tokens ops (RandomTokens vocab) ctx n rng =
     (let (ts, rng) = random_tokens ops vocab n rng in (ts, RandomTokens vocab, rng))"
| "next_tokens ops (ReplayTokens s) ctx n rng =
     (let (ts, rng) = serve_recorded ops (rt_vocab s) (rt_record s (tc_request_id ctx)) ctx n rng
      in (ts, ReplayTokens s, rng))"
| "next_tokens ops (PrefixMatchTokens s) ctx n rng =
     (let (ts, rng) = serve_recorded ops (pt_vocab s) (pt_record s (tc_request_id ctx)) ctx n rng
      in (ts, PrefixMatchTokens s, rng))"
| "next_tokens ops (DatasetTokens s) ctx n rng =
     (let (ts, s, rng) = ds_next_tokens ops s ctx n rng in (ts, DatasetTokens s, rng))"

fun on_request_added :: "token_source \<Rightarrow> string \<Rightarrow> u32 list \<Rightarrow> nat option \<times> token_source" where
  "on_request_added (PrefixMatchTokens s) rid prompt =
     (let (len, s) = pt_on_request_added s rid prompt in (len, PrefixMatchTokens s))"
| "on_request_added (DatasetTokens s) rid prompt =
     (let (len, s) = ds_on_request_added s rid prompt in (len, DatasetTokens s))"
| "on_request_added src rid prompt = (None, src)"

fun on_request_finished :: "string \<Rightarrow> token_source \<Rightarrow> token_source" where
  "on_request_finished rid (PrefixMatchTokens s) =
     PrefixMatchTokens (s\<lparr>pt_assigned := bt_remove rid (pt_assigned s)\<rparr>)"
| "on_request_finished rid (DatasetTokens s) = DatasetTokens (ds_on_request_finished rid s)"
| "on_request_finished rid src = src"

fun source_finish_reason :: "token_source \<Rightarrow> string \<Rightarrow> finish_reason option" where
  "source_finish_reason (RandomTokens vocab) rid = None"
| "source_finish_reason (ReplayTokens s) rid = Option.bind (rt_record s rid) ro_finish_reason"
| "source_finish_reason (PrefixMatchTokens s) rid = Option.bind (pt_record s rid) ro_finish_reason"
| "source_finish_reason (DatasetTokens s) rid = ds_finish_reason s rid"

section \<open>The contract of a token source\<close>

text \<open>What a request reads when its stream is drawn in chunks of the sizes \<open>ns\<close>.\<close>

fun drawn ::
  "('s \<Rightarrow> token_ctx \<Rightarrow> nat \<Rightarrow> 'r \<Rightarrow> u32 list \<times> 's \<times> 'r) \<Rightarrow> 's \<Rightarrow> token_ctx \<Rightarrow> nat list \<Rightarrow> 'r \<Rightarrow>
   u32 list \<times> 's \<times> 'r" where
  "drawn draw s ctx [] rng = ([], s, rng)"
| "drawn draw s ctx (n # ns) rng =
     (let (ts, s, rng) = draw s ctx n rng;
          (ts', s, rng) = drawn draw s (ctx\<lparr>tc_num_generated := tc_num_generated ctx + n\<rparr>) ns rng
      in (ts @ ts', s, rng))"

locale token_provider =
  fixes draw :: "'s \<Rightarrow> token_ctx \<Rightarrow> nat \<Rightarrow> 'r \<Rightarrow> u32 list \<times> 's \<times> 'r"
    and added :: "'s \<Rightarrow> string \<Rightarrow> u32 list \<Rightarrow> nat option \<times> 's"
    and finished :: "string \<Rightarrow> 's \<Rightarrow> 's"
    and ok :: "'s \<Rightarrow> bool"
  assumes draw_length: "length (fst (draw s ctx n rng)) = n"
    and draw_ok: "ok s \<Longrightarrow> ok (fst (snd (draw s ctx n rng)))"
    and added_ok: "ok s \<Longrightarrow> ok (snd (added s rid prompt))"
    and added_pos: "ok s \<Longrightarrow> fst (added s rid prompt) = Some k \<Longrightarrow> 0 < k"
    and finished_ok: "ok s \<Longrightarrow> ok (finished rid s)"
begin

lemma drawn_length: "length (fst (drawn draw s ctx ns rng)) = sum_list ns"
proof (induction ns arbitrary: s ctx rng)
  case (Cons n ns)
  show ?case
    using draw_length [of s ctx n rng] Cons.IH by (auto split: prod.splits) (metis fst_conv)
qed simp

lemma drawn_ok: "ok s \<Longrightarrow> ok (fst (snd (drawn draw s ctx ns rng)))"
proof (induction ns arbitrary: s ctx rng)
  case (Cons n ns)
  show ?case
    using draw_ok [OF Cons.prems, of ctx n rng] Cons.IH
    by (auto split: prod.splits) (metis fst_conv snd_conv)
qed simp

end

lemma random_tokens_length: "length (fst (random_tokens ops vocab n rng)) = n"
  by (induction n arbitrary: rng) (auto split: prod.splits, metis fst_conv)

lemma serve_recorded_length: "length (fst (serve_recorded ops vocab rec ctx n rng)) = n"
proof -
  have "length (fst (let (pad, rng) = random_tokens ops vocab (n - length xs) rng in (xs @ pad, rng))) = n"
    if "length xs < n" for xs
    using random_tokens_length [of ops vocab "n - length xs" rng] that
    by (simp add: split_beta)
  moreover have "length (drop (min g (length ids)) (take (min (g + n) (length ids)) ids)) \<le> n"
    for g and ids :: "u32 list" by auto
  ultimately show ?thesis
    unfolding serve_recorded_def Let_def
    by (auto split: option.splits simp del: length_drop length_take) (meson le_antisym not_less)+
qed

lemma ds_next_tokens_length: "length (fst (ds_next_tokens ops s ctx n rng)) = n"
  using random_tokens_length [of ops "ds_vocab s"]
  by (auto simp: ds_next_tokens_def Let_def split_beta split: option.splits)

subsection \<open>Well-formed sources\<close>

definition index_ok :: "(u64, nat list) btree \<Rightarrow> (nat \<Rightarrow> bool) \<Rightarrow> bool" where
  "index_ok m good \<longleftrightarrow> (\<forall>hash is. bt_get m hash = Some is \<longrightarrow> (\<forall>i \<in> set is. good i))"

fun source_ok :: "token_source \<Rightarrow> bool" where
  "source_ok (RandomTokens vocab) = True"
| "source_ok (ReplayTokens s) = True"
| "source_ok (PrefixMatchTokens s) =
     (length (pt_consumed s) = length (pt_records s) \<and>
      index_ok (pt_by_hash s) (\<lambda>i. i < length (pt_records s) \<and> ro_token_ids (pt_records s ! i) \<noteq> []))"
| "source_ok (DatasetTokens s) =
     (length (ds_consumed s) = length (ds_rows s) \<and> (\<forall>row \<in> set (ds_rows s). row_response row \<noteq> []) \<and>
      index_ok (ds_by_hash s) (\<lambda>i. i < length (ds_rows s)))"

lemma match_deepest_mem:
  assumes "match_deepest m consumed hs = Some i"
  obtains pre h post cands where "hs = pre @ h # post" "bt_get m h = Some cands" "i \<in> set cands"
    "\<forall>x \<in> set pre. bt_get m x = None"
    "\<forall>j \<in> set cands. \<not> consumed ! j \<longrightarrow> \<not> consumed ! i"
proof -
  from assms have "\<exists>pre h post cands. hs = pre @ h # post \<and> bt_get m h = Some cands \<and> i \<in> set cands \<and>
      (\<forall>x \<in> set pre. bt_get m x = None) \<and> (\<forall>j \<in> set cands. \<not> consumed ! j \<longrightarrow> \<not> consumed ! i)"
  proof (induction hs)
    case (Cons h hs)
    show ?case
    proof (cases "bt_get m h")
      case None
      with Cons obtain pre h' post cands where "hs = pre @ h' # post" "bt_get m h' = Some cands" "i \<in> set cands"
        "\<forall>x \<in> set pre. bt_get m x = None" "\<forall>j \<in> set cands. \<not> consumed ! j \<longrightarrow> \<not> consumed ! i" by auto
      with None have "h # hs = (h # pre) @ h' # post" "\<forall>x \<in> set (h # pre). bt_get m x = None" by auto
      with \<open>bt_get m h' = Some cands\<close> \<open>i \<in> set cands\<close> \<open>\<forall>j \<in> set cands. \<not> consumed ! j \<longrightarrow> \<not> consumed ! i\<close>
      show ?thesis by blast
    next
      case (Some cands)
      have "i \<in> set cands \<and> (\<forall>j \<in> set cands. \<not> consumed ! j \<longrightarrow> \<not> consumed ! i)"
      proof (cases "find (\<lambda>i. \<not> consumed ! i) cands")
        case None
        then have "(case cands of [] \<Rightarrow> None | c # _ \<Rightarrow> Some c) = Some i" using Cons.prems Some by simp
        then have "i \<in> set cands" by (cases cands) auto
        with None show ?thesis by (auto simp: find_None_iff)
      next
        case (Some j)
        then have "j = i" using Cons.prems \<open>bt_get m h = Some cands\<close> by simp
        with Some show ?thesis by (auto simp: find_Some_iff)
      qed
      with Some show ?thesis by (intro exI [of _ "[]"]) auto
    qed
  qed simp
  with that show thesis by blast
qed

lemma match_deepest_index:
  "index_ok m good \<Longrightarrow> match_deepest m consumed hs = Some i \<Longrightarrow> good i"
  by (elim match_deepest_mem) (auto simp: index_ok_def)

lemma pt_on_request_added_ok:
  assumes "source_ok (PrefixMatchTokens s)"
  shows "source_ok (PrefixMatchTokens (snd (pt_on_request_added s rid prompt)))"
    and "fst (pt_on_request_added s rid prompt) = Some k \<Longrightarrow> 0 < k"
  using assms match_deepest_index [of "pt_by_hash s" _ "pt_consumed s"]
  by (fastforce simp: pt_on_request_added_def split: option.splits)+

lemma ds_on_request_added_ok:
  assumes "source_ok (DatasetTokens s)"
  shows "source_ok (DatasetTokens (snd (ds_on_request_added s rid prompt)))"
    and "fst (ds_on_request_added s rid prompt) = Some k \<Longrightarrow> 0 < k"
  using assms match_deepest_index [of "ds_by_hash s" "\<lambda>i. i < length (ds_rows s)" "ds_consumed s"]
  by (auto simp: ds_on_request_added_def ds_match_prefix_def ds_assign_index_def
      split: option.splits replay_match.splits if_splits)

lemma ds_next_tokens_rows:
  "ds_rows (fst (snd (ds_next_tokens ops s ctx n rng))) = ds_rows s \<and>
   ds_consumed (fst (snd (ds_next_tokens ops s ctx n rng))) = ds_consumed s \<and>
   ds_by_hash (fst (snd (ds_next_tokens ops s ctx n rng))) = ds_by_hash s"
  by (auto simp: ds_next_tokens_def Let_def split_beta split: option.splits)

interpretation source: token_provider "next_tokens ops" on_request_added on_request_finished source_ok
proof
  show "length (fst (next_tokens ops s ctx n rng)) = n" for s ctx n rng
    using random_tokens_length serve_recorded_length ds_next_tokens_length
    by (cases s) (simp_all add: split_beta)
  show "source_ok s \<Longrightarrow> source_ok (fst (snd (next_tokens ops s ctx n rng)))" for s ctx n rng
    by (cases s) (simp_all add: split_beta ds_next_tokens_rows)
  show "source_ok s \<Longrightarrow> source_ok (snd (on_request_added s rid prompt))" for s rid prompt
    using pt_on_request_added_ok(1) ds_on_request_added_ok(1)
    by (cases s) (simp_all only: on_request_added.simps split_beta Let_def snd_conv)
  show "source_ok s \<Longrightarrow> fst (on_request_added s rid prompt) = Some k \<Longrightarrow> 0 < k" for s rid prompt k
    using pt_on_request_added_ok(2) ds_on_request_added_ok(2)
    by (cases s) (simp_all only: on_request_added.simps split_beta Let_def fst_conv option.distinct)
  show "source_ok s \<Longrightarrow> source_ok (on_request_finished rid s)" for rid s
    by (cases s) (simp_all add: ds_on_request_finished_def)
qed

subsection \<open>The hash index\<close>

definition candidates_of :: "(u64, nat list) btree \<Rightarrow> u64 \<Rightarrow> nat list" where
  "candidates_of m hash = (case bt_get m hash of None \<Rightarrow> [] | Some is \<Rightarrow> is)"

definition index_tight :: "(u64, nat list) btree \<Rightarrow> bool" where
  "index_tight m \<longleftrightarrow> (\<forall>hash. bt_get m hash \<noteq> Some [])"

lemma candidates_push:
  "candidates_of (index_push i hash m) hash' = candidates_of m hash' @ (if hash' = hash then [i] else [])"
  by (simp add: candidates_of_def index_push_def bt_simps)

lemma candidates_push_all:
  "candidates_of (fold (index_push i) hs m) hash = candidates_of m hash @ replicate (count_list hs hash) i"
  by (induction hs arbitrary: m) (auto simp: candidates_push replicate_app_Cons_same)

lemma index_tight_push: "index_tight m \<Longrightarrow> index_tight (index_push i hash m)"
  by (auto simp: index_tight_def index_push_def bt_simps)

lemma index_tight_push_all: "index_tight m \<Longrightarrow> index_tight (fold (index_push i) hs m)"
  by (induction hs arbitrary: m) (auto simp: index_tight_push)

lemma index_tight_hashes: "index_tight (index_hashes cs)"
proof -
  have "index_tight m \<Longrightarrow> index_tight (fold (\<lambda>(i, hs) m. fold (index_push i) hs m) cs m)" for m
    by (induction cs arbitrary: m) (auto simp: index_tight_push_all)
  then show ?thesis by (simp add: index_hashes_def index_tight_def)
qed

lemma candidates_hashes:
  "candidates_of (index_hashes cs) hash = concat (map (\<lambda>(i, hs). replicate (count_list hs hash) i) cs)"
proof -
  have "candidates_of (fold (\<lambda>(i, hs) m. fold (index_push i) hs m) cs m) hash =
      candidates_of m hash @ concat (map (\<lambda>(i, hs). replicate (count_list hs hash) i) cs)" for m
    by (induction cs arbitrary: m) (auto simp: candidates_push_all)
  then show ?thesis by (simp add: index_hashes_def candidates_of_def)
qed

lemma index_hashes_mem:
  "i \<in> set (candidates_of (index_hashes cs) hash) \<longleftrightarrow> (\<exists>hs. (i, hs) \<in> set cs \<and> hash \<in> set hs)"
  by (force simp: candidates_hashes count_list_0_iff)

lemma bt_get_hashes_None:
  "bt_get (index_hashes cs) hash = None \<longleftrightarrow> (\<forall>(i, hs) \<in> set cs. hash \<notin> set hs)"
proof -
  have "bt_get (index_hashes cs) hash = None \<longleftrightarrow> set (candidates_of (index_hashes cs) hash) = {}"
    using index_tight_hashes [of cs] by (cases "bt_get (index_hashes cs) hash") (auto simp: candidates_of_def index_tight_def)
  also have "\<dots> \<longleftrightarrow> (\<nexists>i. i \<in> set (candidates_of (index_hashes cs) hash))" by auto
  finally show ?thesis unfolding index_hashes_mem by blast
qed

lemma bt_get_hashes_Some:
  "bt_get (index_hashes cs) hash = Some cands \<Longrightarrow>
   i \<in> set cands \<longleftrightarrow> (\<exists>hs. (i, hs) \<in> set cs \<and> hash \<in> set hs)"
  using index_hashes_mem [of i cs hash] by (simp add: candidates_of_def)

lemma index_hashes_ok:
  assumes "\<And>i hs. (i, hs) \<in> set cs \<Longrightarrow> good i"
  shows "index_ok (index_hashes cs) good"
  using assms bt_get_hashes_Some unfolding index_ok_def by blast

lemma prefix_from_records_ok: "source_ok (PrefixMatchTokens (prefix_from_records records bs vocab))"
proof -
  have "i < length records \<and> ro_token_ids (map recorded_of records ! i) \<noteq> []"
    if "(i, hs) \<in> set (matchable_chains records)" for i hs
    using that by (auto simp: matchable_chains_def in_set_enumerate_eq recorded_of_def split: option.splits)
  then have "index_ok (index_hashes (matchable_chains records))
      (\<lambda>i. i < length records \<and> ro_token_ids (map recorded_of records ! i) \<noteq> [])"
    by (rule index_hashes_ok)
  then show ?thesis by (simp add: prefix_from_records_def)
qed

lemma dataset_from_tokenized_ok:
  assumes "dataset_from_tokenized tokenized bs rmatch vocab = Inr s"
  shows "source_ok (DatasetTokens s)"
proof -
  let ?rows = "map (dataset_row_of bs) (filter (\<lambda>row. snd row \<noteq> []) tokenized)"
  have "i < length ?rows" if "(i, hs) \<in> set (map (\<lambda>(i, r). (i, case row_block_hashes r of None \<Rightarrow> [] | Some hs \<Rightarrow> hs))
      (enumerate 0 ?rows))" for i hs
    using that by (auto simp: in_set_enumerate_eq)
  then have "index_ok (index_hashes (map (\<lambda>(i, r). (i, case row_block_hashes r of None \<Rightarrow> [] | Some hs \<Rightarrow> hs))
      (enumerate 0 ?rows))) (\<lambda>i. i < length ?rows)" by (rule index_hashes_ok)
  moreover have "index_ok [] (\<lambda>i. i < length ?rows)" by (simp add: index_ok_def)
  ultimately show ?thesis
    using assms by (auto simp: dataset_from_tokenized_def Let_def dataset_row_of_def split: if_splits)
qed

section \<open>Properties\<close>

subsection \<open>Request ids\<close>

text \<open>The decimal form Rust prints for an integer.\<close>

fun nat_str :: "nat \<Rightarrow> string" where
  "nat_str n = (if n < 10 then [char_of (48 + n)] else nat_str (n div 10) @ [char_of (48 + n mod 10)])"

declare nat_str.simps [simp del]

lemma digit_val_char: "d < 10 \<Longrightarrow> digit_val (char_of (48 + d)) = Some d"
  by (simp add: digit_val_def take_bit_nat_eq_self)

lemma parse_digits_append:
  "parse_digits acc (xs @ ys) = (case parse_digits acc xs of None \<Rightarrow> None | Some a \<Rightarrow> parse_digits a ys)"
  by (induction xs arbitrary: acc) (auto split: option.splits)

lemma parse_digits_nat_str: "parse_digits 0 (nat_str n) = Some n"
proof (induction n rule: nat_str.induct)
  case (1 n)
  show ?case
  proof (cases "n < 10")
    case True
    then show ?thesis by (subst nat_str.simps) (simp add: digit_val_char)
  next
    case False
    then show ?thesis
      using 1 by (subst nat_str.simps) (simp add: parse_digits_append digit_val_char)
  qed
qed

lemma nat_str_chars: "c \<in> set (nat_str n) \<Longrightarrow> digit_val c \<noteq> None"
proof (induction n rule: nat_str.induct)
  case (1 n)
  then show ?case
    by (subst (asm) (2) nat_str.simps) (auto simp: digit_val_char split: if_splits)
qed

lemma nat_str_nonempty: "nat_str n \<noteq> []"
  by (subst nat_str.simps) simp

lemma nat_str_not_dash: "CHR ''-'' \<notin> set (nat_str n)"
  using nat_str_chars [of "CHR ''-''" n] by (auto simp: digit_val_def)

lemma nat_str_not_plus: "hd (nat_str n) \<noteq> CHR ''+''"
  using nat_str_chars [of "CHR ''+''" n] nat_str_nonempty [of n]
  by (auto simp: digit_val_def dest: hd_in_set)

lemma id_tail_dash:
  assumes "CHR ''-'' \<notin> set t"
  shows "id_tail (s @ CHR ''-'' # t) = t"
proof -
  have "takeWhile (\<lambda>c. c \<noteq> CHR ''-'') (rev t @ CHR ''-'' # rev s) = rev t"
    using assms by (subst takeWhile_append2) auto
  then show ?thesis by (simp add: id_tail_def)
qed

lemma record_index_printed:
  "i < 2 ^ 64 \<Longrightarrow> record_index (s @ CHR ''-'' # nat_str i) = Some i"
  using nat_str_not_plus [of i]
  by (simp add: record_index_def id_tail_dash nat_str_not_dash parse_usize_def nat_str_nonempty
      parse_digits_nat_str)

text \<open>A request id that ends in a dash and a printed index resolves to that index, whatever
  precedes the dash.\<close>

theorem record_index_round_trip:
  assumes "i < 2 ^ 64"
  shows "record_index (s @ ''-'' @ nat_str i) = Some i"
  using assms by (simp add: record_index_printed)

theorem record_index_round_trip_witness: "record_index ''replay-42'' = Some 42"
  using record_index_round_trip [of 42 "''replay''"] by (simp add: nat_str.simps char_of_def bit_Suc_0_iff)

subsection \<open>Recorded streams\<close>

lemma serve_recorded_within:
  assumes "tc_num_generated ctx + n \<le> length (ro_token_ids r)"
  shows "serve_recorded ops vocab (Some r) ctx n rng = (take n (drop (tc_num_generated ctx) (ro_token_ids r)), rng)"
  using assms by (simp add: serve_recorded_def Let_def min_absorb1 drop_take)

lemma drawn_recorded:
  assumes "\<And>g n rng. g + n \<le> length ids \<Longrightarrow>
      draw s (ctx\<lparr>tc_num_generated := g\<rparr>) n rng = (take n (drop g ids), s, rng)"
    and "g + sum_list ns \<le> length ids"
  shows "drawn draw s (ctx\<lparr>tc_num_generated := g\<rparr>) ns rng = (take (sum_list ns) (drop g ids), s, rng)"
  using assms(2)
proof (induction ns arbitrary: g)
  case (Cons n ns)
  have "drawn draw s (ctx\<lparr>tc_num_generated := g + n\<rparr>) ns rng = (take (sum_list ns) (drop (g + n) ids), s, rng)"
    using Cons.IH [of "g + n"] Cons.prems by simp
  with assms(1) [of g n] Cons.prems show ?case by (simp add: take_add add.commute)
qed simp

lemma drawn_serve:
  assumes "\<And>g n rng. draw s (ctx\<lparr>tc_num_generated := g\<rparr>) n rng =
      (let (ts, rng) = serve_recorded ops vocab (Some r) (ctx\<lparr>tc_num_generated := g\<rparr>) n rng in (ts, s, rng))"
    and "sum_list ns \<le> length (ro_token_ids r)" "tc_num_generated ctx = 0"
  shows "drawn draw s ctx ns rng = (take (sum_list ns) (ro_token_ids r), s, rng)"
proof -
  have "drawn draw s (ctx\<lparr>tc_num_generated := 0\<rparr>) ns rng =
      (take (sum_list ns) (drop 0 (ro_token_ids r)), s, rng)"
    using assms(2) by (intro drawn_recorded) (simp_all add: assms(1) serve_recorded_within)
  moreover have "ctx\<lparr>tc_num_generated := 0\<rparr> = ctx" using assms(3) by simp
  ultimately show ?thesis by simp
qed

text \<open>Index replay is content-identical to the capture. A request whose id names a record with
  recorded ids receives exactly those ids, in whatever chunk sizes the engine draws them, without
  consuming randomness, and its stream ends with the recorded finish reason.\<close>

theorem replay_stream_recorded:
  assumes "i < length records" "i < 2 ^ 64" "tr_output_token_ids (records ! i) = Some ids"
    "tc_request_id ctx = s @ ''-'' @ nat_str i" "tc_num_generated ctx = 0" "sum_list ns \<le> length ids"
  shows "drawn (next_tokens ops) (ReplayTokens (replay_from_records records vocab)) ctx ns rng =
      (take (sum_list ns) ids, ReplayTokens (replay_from_records records vocab), rng) \<and>
    source_finish_reason (ReplayTokens (replay_from_records records vocab)) (tc_request_id ctx) =
      map_option engine_finish_reason (tr_finish_reason (records ! i))"
proof -
  have r: "rt_record (replay_from_records records vocab) (tc_request_id ctx) = Some (recorded_of (records ! i))"
    using assms(1,2,4) by (simp add: rt_record_def record_index_printed replay_from_records_def)
  have "ro_token_ids (recorded_of (records ! i)) = ids" using assms(3) by (simp add: recorded_of_def)
  with r assms(5,6) drawn_serve [of "next_tokens ops" "ReplayTokens (replay_from_records records vocab)" ctx
      ops "rt_vocab (replay_from_records records vocab)" "recorded_of (records ! i)" ns rng]
  show ?thesis by (simp add: recorded_of_def)
qed

theorem replay_stream_recorded_witness:
  "drawn (next_tokens counter_rng) (ReplayTokens (replay_from_records [default_record\<lparr>tr_output_token_ids := Some [5, 6, 7]\<rparr>] 100))
     \<lparr>tc_request_id = ''r-'' @ nat_str 0, tc_prompt = [], tc_num_generated = 0\<rparr> [2, 1] 0 =
   ([5, 6, 7], ReplayTokens (replay_from_records [default_record\<lparr>tr_output_token_ids := Some [5, 6, 7]\<rparr>] 100), 0)"
  using replay_stream_recorded [of 0 "[default_record\<lparr>tr_output_token_ids := Some [5, 6, 7]\<rparr>]" "[5, 6, 7]"
      "\<lparr>tc_request_id = ''r-'' @ nat_str 0, tc_prompt = [], tc_num_generated = 0\<rparr>" "''r''" "[2, 1]" counter_rng 100 0]
  by simp

lemma pt_assigned_record:
  assumes "on_request_added (PrefixMatchTokens s) rid prompt = (Some k, src)"
  obtains idx chain where "prompt_block_hashes prompt (pt_block_size s) = Some chain"
    "match_deepest (pt_by_hash s) (pt_consumed s) (rev chain) = Some idx"
    "k = length (ro_token_ids (pt_records s ! idx))"
    "src = PrefixMatchTokens (s\<lparr>pt_consumed := (pt_consumed s)[idx := True],
       pt_assigned := bt_insert rid idx (pt_assigned s)\<rparr>)"
  using assms by (auto simp: pt_on_request_added_def split_beta split: option.splits)

text \<open>Prefix matching finds the longest shared prefix. On a source built from trace records, a
  matched request is assigned a record that has recorded ids and contains the incoming chain's
  hash at some depth; no record with ids contains any deeper hash; the record is one no earlier
  request consumed if such a record exists at that depth, and it is consumed afterwards. The
  stream then delivers the record's ids in any chunking, and its length is the returned clamp.\<close>

theorem prefix_match_longest:
  assumes "pt_by_hash s = index_hashes (matchable_chains records)" "pt_records s = map recorded_of records"
    and "source_ok (PrefixMatchTokens s)"
    and "on_request_added (PrefixMatchTokens s) (tc_request_id ctx) prompt = (Some k, src)"
    and "tc_num_generated ctx = 0" "sum_list ns \<le> k"
  shows "\<exists>idx chain d s'. src = PrefixMatchTokens s' \<and>
    prompt_block_hashes prompt (pt_block_size s) = Some chain \<and> d < length chain \<and>
    (\<exists>hs. (idx, hs) \<in> set (matchable_chains records) \<and> chain ! d \<in> set hs) \<and>
    (\<forall>d' < length chain. d < d' \<longrightarrow> (\<forall>(i, hs) \<in> set (matchable_chains records). chain ! d' \<notin> set hs)) \<and>
    (\<forall>(i, hs) \<in> set (matchable_chains records).
       chain ! d \<in> set hs \<and> \<not> pt_consumed s ! i \<longrightarrow> \<not> pt_consumed s ! idx) \<and>
    pt_consumed s' ! idx \<and> k = length (ro_token_ids (recorded_of (records ! idx))) \<and>
    drawn (next_tokens ops) src ctx ns rng =
      (take (sum_list ns) (ro_token_ids (recorded_of (records ! idx))), src, rng)"
proof -
  from pt_assigned_record [OF assms(4)] obtain idx chain where
    chain: "prompt_block_hashes prompt (pt_block_size s) = Some chain"
    and m: "match_deepest (pt_by_hash s) (pt_consumed s) (rev chain) = Some idx"
    and k: "k = length (ro_token_ids (pt_records s ! idx))"
    and src: "src = PrefixMatchTokens (s\<lparr>pt_consumed := (pt_consumed s)[idx := True],
       pt_assigned := bt_insert (tc_request_id ctx) idx (pt_assigned s)\<rparr>)" by metis
  have idx: "idx < length records" "idx < length (pt_consumed s)"
    using match_deepest_index [OF _ m] assms(2,3) by auto
  from m obtain pre h post cands where split: "rev chain = pre @ h # post"
    and h: "bt_get (pt_by_hash s) h = Some cands" "idx \<in> set cands"
    and none: "\<forall>x \<in> set pre. bt_get (pt_by_hash s) x = None"
    and fresh: "\<forall>j \<in> set cands. \<not> pt_consumed s ! j \<longrightarrow> \<not> pt_consumed s ! idx"
    by (rule match_deepest_mem)
  have c: "chain = rev post @ h # rev pre" using split by (metis append.assoc append_Cons append_Nil rev.simps(2) rev_append rev_rev_ident)
  let ?d = "length post"
  have d: "?d < length chain" "chain ! ?d = h" using c by (simp_all add: nth_append)
  have deeper: "chain ! d' \<in> set pre" if "?d < d'" "d' < length chain" for d'
  proof -
    have "chain ! d' = rev pre ! (d' - Suc ?d)" using that(1) by (simp add: c nth_append nth_Cons')
    moreover have "d' - Suc ?d < length (rev pre)" using that c by simp
    ultimately show ?thesis by (metis nth_mem set_rev)
  qed
  have rec: "pt_record (s\<lparr>pt_consumed := (pt_consumed s)[idx := True],
       pt_assigned := bt_insert (tc_request_id ctx) idx (pt_assigned s)\<rparr>) (tc_request_id ctx) =
     Some (recorded_of (records ! idx))"
    using idx(1) assms(2) by (simp add: pt_record_def bt_simps)
  have k': "k = length (ro_token_ids (recorded_of (records ! idx)))" using k idx(1) assms(2) by simp
  have draws: "drawn (next_tokens ops) src ctx ns rng =
      (take (sum_list ns) (ro_token_ids (recorded_of (records ! idx))), src, rng)"
    using assms(5,6) k' rec unfolding src by (intro drawn_serve [where vocab = "pt_vocab s"]) simp_all
  have f1: "\<exists>hs. (idx, hs) \<in> set (matchable_chains records) \<and> chain ! ?d \<in> set hs"
    using h assms(1) d(2) bt_get_hashes_Some by simp
  have f2: "\<forall>d' < length chain. ?d < d' \<longrightarrow> (\<forall>(i, hs) \<in> set (matchable_chains records). chain ! d' \<notin> set hs)"
    using deeper none unfolding assms(1) bt_get_hashes_None by blast
  have f3: "\<forall>(i, hs) \<in> set (matchable_chains records).
       chain ! ?d \<in> set hs \<and> \<not> pt_consumed s ! i \<longrightarrow> \<not> pt_consumed s ! idx"
    using fresh h(1) d(2) bt_get_hashes_Some [of "matchable_chains records" h cands] assms(1) by fastforce
  obtain s' where s': "src = PrefixMatchTokens s'" "pt_consumed s' ! idx" using src idx(2) by simp
  show ?thesis
    by (rule exI [of _ idx], rule exI [of _ chain], rule exI [of _ ?d], rule exI [of _ s'])
      (intro conjI s' chain d(1) f1 f2 f3 k' draws)
qed

definition example_prefix_source :: prefix_tokens where
  "example_prefix_source =
     prefix_from_records
       [default_record\<lparr>tr_output_token_ids := Some [5, 6], tr_block_hashes := prompt_block_hashes [1, 2] 1\<rparr>] 1 100"

theorem prefix_match_longest_witness:
  "\<exists>src. on_request_added (PrefixMatchTokens example_prefix_source) ''q'' [1, 2, 3] = (Some 2, src) \<and>
     drawn (next_tokens counter_rng) src \<lparr>tc_request_id = ''q'', tc_prompt = [], tc_num_generated = 0\<rparr> [1, 1] 0 =
       ([5, 6], src, 0)"
proof -
  let ?recs = "[default_record\<lparr>tr_output_token_ids := Some [5, 6], tr_block_hashes := prompt_block_hashes [1, 2] 1\<rparr>]"
  let ?ctx = "\<lparr>tc_request_id = ''q'', tc_prompt = [], tc_num_generated = 0\<rparr>"
  have "fst (on_request_added (PrefixMatchTokens example_prefix_source) ''q'' [1, 2, 3]) = Some 2"
    by code_simp
  then obtain src where src: "on_request_added (PrefixMatchTokens example_prefix_source) ''q'' [1, 2, 3] = (Some 2, src)"
    by (metis prod.collapse)
  have e: "pt_by_hash example_prefix_source = index_hashes (matchable_chains ?recs)"
    "pt_records example_prefix_source = map recorded_of ?recs"
    by (simp_all add: example_prefix_source_def prefix_from_records_def)
  have "source_ok (PrefixMatchTokens example_prefix_source)"
    unfolding example_prefix_source_def by (rule prefix_from_records_ok)
  from prefix_match_longest [OF e this, of ?ctx "[1, 2, 3]" 2 src "[1, 1]" counter_rng 0] src
  obtain idx hs where i: "(idx, hs) \<in> set (matchable_chains ?recs)" and
    d: "drawn (next_tokens counter_rng) src ?ctx [1, 1] 0 =
      (take 2 (ro_token_ids (recorded_of (?recs ! idx))), src, 0)" by auto
  from i have "idx = 0" by (simp add: matchable_chains_def)
  with d src show ?thesis by (simp add: recorded_of_def)
qed

subsection \<open>Dataset rows\<close>

lemma ds_row_positions [simp]: "ds_row (s\<lparr>ds_positions := x\<rparr>) rid = ds_row s rid"
  by (auto simp: ds_row_def split: option.splits)

lemma ds_assigned_row:
  assumes "on_request_added (DatasetTokens s) rid prompt = (Some k, src)" "source_ok (DatasetTokens s)"
  shows "\<exists>idx c. idx < length (ds_rows s) \<and> k = length (row_response (ds_rows s ! idx)) \<and>
    src = DatasetTokens (s\<lparr>ds_consumed := c, ds_assignments := bt_insert rid idx (ds_assignments s),
      ds_positions := bt_insert rid 0 (ds_positions s)\<rparr>)"
proof (cases "ds_match s")
  case MatchIndex
  with assms(1) obtain idx where "idx < length (ds_rows s)"
    "Some k = fst (ds_assign_index rid idx s)" "src = DatasetTokens (snd (ds_assign_index rid idx s))"
    by (auto simp: ds_on_request_added_def split_beta not_le split: option.splits if_splits)
  then show ?thesis
    by (intro exI [of _ idx] exI [of _ "ds_consumed s"]) (simp add: ds_assign_index_def)
next
  case MatchPrefix
  with assms match_deepest_index [of "ds_by_hash s" "\<lambda>i. i < length (ds_rows s)" "ds_consumed s"]
  show ?thesis
    by (auto simp: ds_on_request_added_def ds_match_prefix_def split: option.splits)
qed

lemma ds_next_within:
  assumes "ds_row s rid = Some row" "bt_get (ds_positions s) rid = Some pos"
    "pos + n \<le> length (row_response row)" "tc_request_id ctx = rid"
  shows "ds_next_tokens ops s ctx n rng =
    (take n (drop pos (row_response row)),
     s\<lparr>ds_positions := bt_modify rid (\<lambda>p. p + n) (ds_positions s)\<rparr>, rng)"
  using assms by (simp add: ds_next_tokens_def Let_def)

lemma ds_drawn:
  assumes "ds_row s (tc_request_id ctx) = Some row" "bt_get (ds_positions s) (tc_request_id ctx) = Some pos"
    "pos + sum_list ns \<le> length (row_response row)"
  shows "\<exists>s'. drawn (next_tokens ops) (DatasetTokens s) ctx ns rng =
      (take (sum_list ns) (drop pos (row_response row)), DatasetTokens s', rng) \<and>
    ds_row s' (tc_request_id ctx) = Some row \<and>
    bt_get (ds_positions s') (tc_request_id ctx) = Some (pos + sum_list ns)"
  using assms
proof (induction ns arbitrary: s pos ctx)
  case (Cons n ns)
  let ?rid = "tc_request_id ctx"
  let ?s = "s\<lparr>ds_positions := bt_modify ?rid (\<lambda>p. p + n) (ds_positions s)\<rparr>"
  let ?ctx = "ctx\<lparr>tc_num_generated := tc_num_generated ctx + n\<rparr>"
  have "ds_row ?s ?rid = Some row" "bt_get (ds_positions ?s) ?rid = Some (pos + n)"
    using Cons.prems(1,2) by (simp_all add: bt_simps)
  then obtain s' where "drawn (next_tokens ops) (DatasetTokens ?s) ?ctx ns rng =
      (take (sum_list ns) (drop (pos + n) (row_response row)), DatasetTokens s', rng)"
    "ds_row s' ?rid = Some row" "bt_get (ds_positions s') ?rid = Some (pos + n + sum_list ns)"
    using Cons.IH [of ?s ?ctx "pos + n"] Cons.prems(3) by auto
  moreover have "ds_next_tokens ops s ctx n rng = (take n (drop pos (row_response row)), ?s, rng)"
    by (rule ds_next_within [OF Cons.prems(1,2)]) (use Cons.prems(3) in simp_all)
  ultimately show ?case by (simp add: take_add add.assoc add.commute)
qed simp

text \<open>A request matched to a dataset row receives the row's response ids in any chunking, and its
  stream reports a natural stop exactly when the whole response was delivered.\<close>

theorem dataset_stream_complete:
  assumes "on_request_added (DatasetTokens s) (tc_request_id ctx) prompt = (Some k, src)"
    and "source_ok (DatasetTokens s)" "sum_list ns \<le> k"
  shows "\<exists>row src'. row \<in> set (ds_rows s) \<and> k = length (row_response row) \<and>
    drawn (next_tokens ops) src ctx ns rng = (take (sum_list ns) (row_response row), src', rng) \<and>
    source_finish_reason src' (tc_request_id ctx) = (if sum_list ns = k then Some FStop else None)"
proof -
  from ds_assigned_row [OF assms(1,2)] obtain idx c where src: "src = DatasetTokens (s\<lparr>ds_consumed := c,
      ds_assignments := bt_insert (tc_request_id ctx) idx (ds_assignments s),
      ds_positions := bt_insert (tc_request_id ctx) 0 (ds_positions s)\<rparr>)"
    and *: "idx < length (ds_rows s)" "k = length (row_response (ds_rows s ! idx))" by blast
  let ?s' = "s\<lparr>ds_consumed := c, ds_assignments := bt_insert (tc_request_id ctx) idx (ds_assignments s),
      ds_positions := bt_insert (tc_request_id ctx) 0 (ds_positions s)\<rparr>"
  have row: "ds_row ?s' (tc_request_id ctx) = Some (ds_rows s ! idx)"
    and pos: "bt_get (ds_positions ?s') (tc_request_id ctx) = Some 0"
    using *(1) by (simp_all add: ds_row_def bt_simps)
  from ds_drawn [OF row pos, of ns ops rng] assms(3) *(2) obtain s'' where
    "drawn (next_tokens ops) src ctx ns rng =
      (take (sum_list ns) (row_response (ds_rows s ! idx)), DatasetTokens s'', rng)"
    "ds_row s'' (tc_request_id ctx) = Some (ds_rows s ! idx)"
    "bt_get (ds_positions s'') (tc_request_id ctx) = Some (sum_list ns)" unfolding src by auto
  moreover have "ds_rows s ! idx \<in> set (ds_rows s)" using *(1) by simp
  ultimately show ?thesis using *(2) assms(3)
    by (intro exI [of _ "ds_rows s ! idx"] exI [of _ "DatasetTokens s''"]) (simp add: ds_finish_reason_def)
qed

theorem dataset_stream_complete_witness:
  "\<exists>s src src'. dataset_from_tokenized [([1], []), ([2, 3], [7, 8])] 1 MatchPrefix 100 = Inr s \<and>
     on_request_added (DatasetTokens s) ''q'' [2, 9] = (Some 2, src) \<and>
     drawn (next_tokens counter_rng) src \<lparr>tc_request_id = ''q'', tc_prompt = [], tc_num_generated = 0\<rparr> [1, 1] 0 =
       ([7, 8], src', 0) \<and>
     source_finish_reason src' ''q'' = Some FStop"
proof -
  let ?d = "dataset_from_tokenized [([1], []), ([2, 3], [7, 8])] 1 MatchPrefix 100"
  let ?ctx = "\<lparr>tc_request_id = ''q'', tc_prompt = [], tc_num_generated = 0\<rparr>"
  have "isl ?d = False" by code_simp
  then obtain s where s: "?d = Inr s" by (cases ?d) auto
  have "fst (on_request_added (DatasetTokens (projr ?d)) ''q'' [2, 9]) = Some 2" by code_simp
  then obtain src where src: "on_request_added (DatasetTokens s) ''q'' [2, 9] = (Some 2, src)"
    using s by (metis prod.collapse sum.sel(2))
  have rows: "ds_rows s = [dataset_row_of 1 ([2, 3], [7, 8])]"
    using s by (auto simp: dataset_from_tokenized_def Let_def split: if_splits)
  from dataset_stream_complete [of s ?ctx "[2, 9]" 2 src "[1, 1]" counter_rng 0]
    src dataset_from_tokenized_ok [OF s] rows
  show ?thesis using s by (auto simp: dataset_row_of_def)
qed

end
