(* ===== verification/Latency.thy ===== *)
theory Latency
  imports Tokens
begin

text \<open>
  The response-timing models (\<^verbatim>\<open>crates/sim-trace/src/latency.rs\<close>): the knob model (truncated
  normal delays scaled by load) and the trace-replay model's sampling side (service curve,
  chunk costs, donor pools, stall samples). Delays are nanoseconds. The fitting of a
  trace-replay model from records is in \<open>Latency_Fit\<close>.
\<close>

section \<open>Numbers and durations\<close>

text \<open>\<^verbatim>\<open>x as u64\<close> truncates toward zero and saturates.\<close>

definition f64_as_u64 :: "f64 \<Rightarrow> nat" where
  "f64_as_u64 x = min (nat \<lfloor>x\<rfloor>) (2 ^ 64 - 1)"

text \<open>Rounding to the nearest integer, halves to even.\<close>

definition round_half_even :: "f64 \<Rightarrow> int" where
  "round_half_even x =
     (let f = \<lfloor>x\<rfloor>; d = x - of_int f in
      if d < 1 / 2 \<or> (d = 1 / 2 \<and> even f) then f else f + 1)"

text \<open>
  \<^verbatim>\<open>Duration::from_secs_f64\<close> for non-negative seconds, and \<^verbatim>\<open>Duration::div_f64\<close>.
\<close>

definition from_secs_f64 :: "f64 \<Rightarrow> duration" where
  "from_secs_f64 secs = nat (round_half_even (secs * 10 ^ 9))"

definition from_millis :: "nat \<Rightarrow> duration" where
  "from_millis ms = ms * 10 ^ 6"

definition div_f64 :: "duration \<Rightarrow> f64 \<Rightarrow> duration" where
  "div_f64 d x = from_secs_f64 (real d / 10 ^ 9 / x)"

definition f64_clamp :: "f64 \<Rightarrow> f64 \<Rightarrow> f64 \<Rightarrow> f64" where
  "f64_clamp x lo hi = (if x < lo then lo else if x > hi then hi else x)"

definition abs_diff :: "nat \<Rightarrow> nat \<Rightarrow> nat" where
  "abs_diff a b = (if a < b then b - a else a - b)"

section \<open>Buckets\<close>

definition PROMPT_EDGES :: "nat list" where
  "PROMPT_EDGES = [0, 65, 129, 257, 513, 1025, 2049, 4097, 8193, 16385, 32769]"

definition NUM_PROMPT_BUCKETS :: nat where
  "NUM_PROMPT_BUCKETS = length PROMPT_EDGES"

fun bucket_scan :: "nat \<Rightarrow> nat \<Rightarrow> nat \<Rightarrow> nat list \<Rightarrow> nat" where
  "bucket_scan v bucket i [] = bucket"
| "bucket_scan v bucket i (edge # edges) =
     (if v \<ge> edge then bucket_scan v i (Suc i) edges else bucket)"

definition prompt_bucket :: "nat \<Rightarrow> nat" where
  "prompt_bucket uncached_prompt_tokens = bucket_scan uncached_prompt_tokens 0 0 PROMPT_EDGES"

definition CONCURRENCY_RANGES :: "(nat \<times> nat) list" where
  "CONCURRENCY_RANGES =
     [(1, 1), (2, 4), (5, 6), (7, 8), (9, 16), (17, 32), (33, 64), (65, 2 ^ 64 - 1)]"

definition NUM_CONCURRENCY_BUCKETS :: nat where
  "NUM_CONCURRENCY_BUCKETS = 8"

definition concurrency_bucket :: "nat \<Rightarrow> nat" where
  "concurrency_bucket concurrency =
     (case position (\<lambda>(lo, hi). lo \<le> concurrency \<and> concurrency \<le> hi) CONCURRENCY_RANGES of
        Some i \<Rightarrow> i
      | None \<Rightarrow> NUM_CONCURRENCY_BUCKETS - 1)"

definition concurrency_label :: "nat \<Rightarrow> string" where
  "concurrency_label bucket =
     (if bucket < length CONCURRENCY_RANGES
      then (let (lo, hi) = CONCURRENCY_RANGES ! bucket in
            if hi = 2 ^ 64 - 1 then nat_str lo @ ''+''
            else if lo = hi then nat_str lo
            else nat_str lo @ ''-'' @ nat_str hi)
      else ''bucket-'' @ nat_str bucket)"

section \<open>Pacing state\<close>

definition BIG_CHUNK_TOKENS :: nat where
  "BIG_CHUNK_TOKENS = 4096"

datatype churn = Calm | BigChunk

fun cell_offset :: "churn \<Rightarrow> nat" where
  "cell_offset Calm = 0"
| "cell_offset BigChunk = NUM_PROMPT_BUCKETS"

definition record_churn :: "trace_record \<Rightarrow> churn" where
  "record_churn r =
     (case tr_itl_ctx r of
        None \<Rightarrow> Calm
      | Some ctx \<Rightarrow>
          (let big = length (filter (\<lambda>t. t > BIG_CHUNK_TOKENS) (ctx_prefill_tokens ctx))
           in if big * 100 > max (length (ctx_prefill_tokens ctx)) 1 * 6 then BigChunk else Calm))"

record first_token_ctx =
  ft_num_prompt_tokens :: nat
  ft_num_cached_tokens :: nat
  ft_do_remote_prefill :: bool
  ft_num_running :: nat

record decode_pacing =
  dp_donors :: "nat option list"
  dp_pending_stall :: "nat option"
  dp_context_bucket :: nat
  dp_churn :: churn

definition for_prompt :: "nat \<Rightarrow> churn \<Rightarrow> decode_pacing" where
  "for_prompt prompt_tokens ch =
     \<lparr>dp_donors = replicate NUM_CONCURRENCY_BUCKETS None, dp_pending_stall = None,
      dp_context_bucket = prompt_bucket prompt_tokens, dp_churn = ch\<rparr>"

definition note_prefill :: "nat \<Rightarrow> decode_pacing \<Rightarrow> decode_pacing" where
  "note_prefill prompt_tokens p =
     p\<lparr>dp_pending_stall :=
         Some (max (case dp_pending_stall p of None \<Rightarrow> 0 | Some t \<Rightarrow> t) prompt_tokens)\<rparr>"

record step_draw =
  sd_delay :: duration
  sd_tokens :: nat

section \<open>The knob model\<close>

record knob_latency =
  kl_time_to_first_token :: nat
  kl_time_to_first_token_std_dev :: nat
  kl_inter_token_latency :: nat
  kl_inter_token_latency_std_dev :: nat
  kl_prefill_overhead :: nat
  kl_prefill_time_per_token :: nat
  kl_prefill_time_std_dev :: nat
  kl_kv_cache_transfer_latency :: nat
  kl_kv_cache_transfer_latency_std_dev :: nat
  kl_kv_cache_transfer_time_per_token :: nat
  kl_kv_cache_transfer_time_std_dev :: nat
  kl_time_factor_under_load :: f64
  kl_max_num_seqs :: nat

definition load_factor :: "knob_latency \<Rightarrow> nat \<Rightarrow> f64" where
  "load_factor k num_running =
     (if kl_max_num_seqs k \<le> 1 then 1
      else 1 + (kl_time_factor_under_load k - 1) * real (num_running - 1) / real (kl_max_num_seqs k - 1))"

definition scale :: "nat \<Rightarrow> f64 \<Rightarrow> nat" where
  "scale millis load = f64_as_u64 (real millis * load)"

definition random_norm :: "'r rng_ops \<Rightarrow> 'r \<Rightarrow> f64 \<Rightarrow> f64 \<Rightarrow> f64 \<times> 'r" where
  "random_norm ops rng mean stddev =
     (if stddev = 0 then (mean, rng)
      else let (r1, rng) = rnd_f64 ops rng;
               u1 = max (1 - r1) (1 / 2 ^ 1022);
               (u2, rng) = rnd_f64 ops rng;
               z = sqrt (- 2 * ln u1) * cos (2 * pi * u2)
           in (z * stddev + mean, rng))"

definition random_norm_truncated :: "'r rng_ops \<Rightarrow> 'r \<Rightarrow> nat \<Rightarrow> nat \<Rightarrow> nat \<times> 'r" where
  "random_norm_truncated ops rng mean stddev =
     (let (v, rng) = random_norm ops rng (real mean) (real stddev)
      in (f64_as_u64 (f64_clamp v (3 / 10 * real mean) (17 / 10 * real mean)), rng))"

definition knob_first_token_delay ::
  "'r rng_ops \<Rightarrow> knob_latency \<Rightarrow> 'r \<Rightarrow> first_token_ctx \<Rightarrow> duration \<times> 'r" where
  "knob_first_token_delay ops k rng ctx =
     (let load = load_factor k (ft_num_running ctx);
          (millis, rng) =
            (if ft_do_remote_prefill ctx then
               (if kl_kv_cache_transfer_latency k = 0 \<and> kl_kv_cache_transfer_latency_std_dev k = 0
                then random_norm_truncated ops rng
                       (kl_kv_cache_transfer_time_per_token k * ft_num_prompt_tokens ctx)
                       (kl_kv_cache_transfer_time_std_dev k)
                else random_norm_truncated ops rng (kl_kv_cache_transfer_latency k)
                       (kl_kv_cache_transfer_latency_std_dev k))
             else if kl_time_to_first_token k = 0 \<and> kl_time_to_first_token_std_dev k = 0
             then random_norm_truncated ops rng
                    (scale (kl_prefill_overhead k) load +
                     (ft_num_prompt_tokens ctx - ft_num_cached_tokens ctx) *
                       scale (kl_prefill_time_per_token k) load)
                    (kl_prefill_time_std_dev k)
             else random_norm_truncated ops rng (scale (kl_time_to_first_token k) load)
                    (kl_time_to_first_token_std_dev k))
      in (from_millis millis, rng))"

definition knob_inter_token_delay :: "'r rng_ops \<Rightarrow> knob_latency \<Rightarrow> 'r \<Rightarrow> nat \<Rightarrow> duration \<times> 'r" where
  "knob_inter_token_delay ops k rng num_running =
     (let load = load_factor k num_running;
          (millis, rng) = random_norm_truncated ops rng (scale (kl_inter_token_latency k) load)
                            (kl_inter_token_latency_std_dev k)
      in (from_millis millis, rng))"

section \<open>Samples of a trace\<close>

text \<open>\<^verbatim>\<open>slice::partition_point\<close> on a slice partitioned by the predicate.\<close>

definition partition_point :: "('a \<Rightarrow> bool) \<Rightarrow> 'a list \<Rightarrow> nat" where
  "partition_point P xs = length (takeWhile P xs)"

record donor =
  dn_steps :: "(f64 \<times> nat) list"

record donor_bucket =
  db_donors :: "donor list"
  db_cum_weights :: "f64 list"

definition default_bucket :: donor_bucket where
  "default_bucket = \<lparr>db_donors = [], db_cum_weights = []\<rparr>"

definition total_weight :: "donor_bucket \<Rightarrow> f64" where
  "total_weight b = (if db_cum_weights b = [] then 0 else last (db_cum_weights b))"

definition db_push :: "donor \<Rightarrow> f64 \<Rightarrow> donor_bucket \<Rightarrow> donor_bucket" where
  "db_push d weight b =
     \<lparr>db_donors = db_donors b @ [d], db_cum_weights = db_cum_weights b @ [total_weight b + weight]\<rparr>"

definition db_pick :: "'r rng_ops \<Rightarrow> donor_bucket \<Rightarrow> 'r \<Rightarrow> nat \<times> 'r" where
  "db_pick ops b rng =
     (let (r, rng) = rnd_f64 ops rng;
          u = r * total_weight b
      in (min (partition_point (\<lambda>w. w \<le> u) (db_cum_weights b)) (length (db_donors b) - 1), rng))"

record service_cell =
  sc_samples :: "f64 list"
  sc_median_uncached :: f64

record service_fit =
  fit_a :: f64
  fit_b :: f64
  fit_c :: f64
  fit_floor_ms :: f64

definition service_eval_ms :: "service_fit \<Rightarrow> f64 \<Rightarrow> f64" where
  "service_eval_ms f uncached =
     max (fit_a f + fit_b f * uncached + fit_c f * uncached * uncached) (fit_floor_ms f)"

record chunk_cost_fit =
  cc_c0 :: f64
  cc_c1 :: f64

definition chunk_eval_ms :: "chunk_cost_fit \<Rightarrow> nat \<Rightarrow> nat \<Rightarrow> f64" where
  "chunk_eval_ms f chunk_tokens kv_depth =
     (let t = real chunk_tokens; d0 = real kv_depth; d1 = d0 + t
      in cc_c0 f * t + cc_c1 f * (d1 * d1 - d0 * d0) / 2)"

definition sample_inverse_cdf :: "'r rng_ops \<Rightarrow> 'r \<Rightarrow> f64 list \<Rightarrow> f64 \<times> 'r" where
  "sample_inverse_cdf ops rng samples =
     (if length samples = 1 then (samples ! 0, rng)
      else let (u, rng) = rnd_f64 ops rng;
               pos = u * real (length samples - 1);
               lo = nat \<lfloor>pos\<rfloor>;
               hi = min (lo + 1) (length samples - 1);
               frac = pos - real lo
           in (samples ! lo * (1 - frac) + samples ! hi * frac, rng))"

definition sample_step_inverse_cdf :: "'r rng_ops \<Rightarrow> 'r \<Rightarrow> (f64 \<times> nat) list \<Rightarrow> (f64 \<times> nat) \<times> 'r" where
  "sample_step_inverse_cdf ops rng steps =
     (if length steps = 1 then (steps ! 0, rng)
      else let (u, rng) = rnd_f64 ops rng;
               pos = u * real (length steps - 1);
               lo = nat \<lfloor>pos\<rfloor>;
               hi = min (lo + 1) (length steps - 1);
               frac = pos - real lo;
               gap = fst (steps ! lo) * (1 - frac) + fst (steps ! hi) * frac;
               tokens = (if frac < 1 / 2 then snd (steps ! lo) else snd (steps ! hi))
           in ((gap, tokens), rng))"

text \<open>The scan of a row or a grid for the nearest cell with data.\<close>

definition closer :: "(nat \<times> nat \<times> 'a) option \<Rightarrow> nat \<Rightarrow> nat \<Rightarrow> 'a \<Rightarrow> (nat \<times> nat \<times> 'a) option" where
  "closer best dst pd cell =
     (case best of
        None \<Rightarrow> Some (dst, pd, cell)
      | Some (bd, bpd, _) \<Rightarrow>
          if dst < bd \<or> (dst = bd \<and> pd < bpd) then Some (dst, pd, cell) else best)"

definition grid_cells :: "'a list list \<Rightarrow> (nat \<times> nat \<times> 'a) list" where
  "grid_cells grid =
     concat (map (\<lambda>(pr, row). map (\<lambda>(ci, cell). (pr, ci, cell)) (enumerate 0 row)) (enumerate 0 grid))"

definition nearest_grid_cell :: "'a list list \<Rightarrow> nat \<Rightarrow> nat \<Rightarrow> ('a \<Rightarrow> bool) \<Rightarrow> 'a option" where
  "nearest_grid_cell grid pb cb has_data =
     (if pb < length grid \<and> cb < length (grid ! pb) \<and> has_data (grid ! pb ! cb)
      then Some (grid ! pb ! cb)
      else map_option (\<lambda>(_, _, cell). cell)
        (fold (\<lambda>(pr, ci, cell) best.
                 if \<not> has_data cell then best
                 else closer best (abs_diff pr pb + abs_diff ci cb) (abs_diff pr pb) cell)
           (grid_cells grid) None))"

definition nearest_itl :: "f64 list list \<Rightarrow> nat \<Rightarrow> f64 list option" where
  "nearest_itl itl cb =
     (if itl ! cb \<noteq> [] then Some (itl ! cb)
      else map_option (\<lambda>(_, ci). itl ! ci)
        (fold (\<lambda>(ci, samples) best.
                 if samples = [] then best
                 else case best of
                        None \<Rightarrow> Some (abs_diff ci cb, ci)
                      | Some (bd, _) \<Rightarrow> if abs_diff ci cb < bd then Some (abs_diff ci cb, ci) else best)
           (enumerate 0 itl) None))"

section \<open>The trace-replay model\<close>

record trace_latency =
  tl_service_fit :: "service_fit option"
  tl_service_by_prompt :: "service_cell option list"
  tl_itl_by_concurrency :: "f64 list list"
  tl_donors_grid :: "donor_bucket list list"
  tl_stalls_grid :: "f64 list list list"
  tl_kv_transfer_fallback :: knob_latency
  tl_chunk_cost :: chunk_cost_fit
  tl_full_step_floor_ms :: f64
  tl_budget_tokens :: nat
  tl_spec_tokens :: "nat option"
  tl_output_lens :: "f64 list"

definition nearest_service_cell :: "service_cell option list \<Rightarrow> nat \<Rightarrow> (nat \<times> service_cell) option" where
  "nearest_service_cell cells pb =
     fold (\<lambda>(pr, cell) best.
             case cell of
               None \<Rightarrow> best
             | Some c \<Rightarrow>
                 (case best of
                    None \<Rightarrow> Some (abs_diff pr pb, c)
                  | Some (bd, _) \<Rightarrow> if abs_diff pr pb < bd then Some (abs_diff pr pb, c) else best))
       (enumerate 0 cells) None"

definition trace_first_token_delay ::
  "'r rng_ops \<Rightarrow> trace_latency \<Rightarrow> 'r \<Rightarrow> first_token_ctx \<Rightarrow> duration \<times> 'r" where
  "trace_first_token_delay ops m rng ctx =
     (if ft_do_remote_prefill ctx then knob_first_token_delay ops (tl_kv_transfer_fallback m) rng ctx
      else
        let uncached = ft_num_prompt_tokens ctx - ft_num_cached_tokens ctx in
        case tl_service_fit m of
          Some fit \<Rightarrow> (from_secs_f64 (service_eval_ms fit (real (max uncached 1)) / 1000), rng)
        | None \<Rightarrow>
            (case nearest_service_cell (tl_service_by_prompt m) (prompt_bucket uncached) of
               None \<Rightarrow> (0, rng)
             | Some (dst, cell) \<Rightarrow>
                 (let (ms, rng) = sample_inverse_cdf ops rng (sc_samples cell);
                      scale = (if dst > 0 \<and> sc_median_uncached cell > 0
                        then f64_clamp (real (max uncached 1) / sc_median_uncached cell) (1 / 4) 8
                        else 1)
                  in (from_secs_f64 (ms * scale / 1000), rng))))"

definition trace_inter_token_delay :: "'r rng_ops \<Rightarrow> trace_latency \<Rightarrow> 'r \<Rightarrow> nat \<Rightarrow> duration \<times> 'r" where
  "trace_inter_token_delay ops m rng num_running =
     (case nearest_itl (tl_itl_by_concurrency m) (concurrency_bucket num_running) of
        None \<Rightarrow> (0, rng)
      | Some samples \<Rightarrow>
          (let (ms, rng) = sample_inverse_cdf ops rng samples in (from_secs_f64 (ms / 1000), rng)))"

text \<open>The clean path of \<^verbatim>\<open>paced_step\<close>: one donor per concurrency bucket, kept once chosen.\<close>

definition donor_step ::
  "'r rng_ops \<Rightarrow> trace_latency \<Rightarrow> 'r \<Rightarrow> nat \<Rightarrow> decode_pacing \<Rightarrow> step_draw \<times> 'r \<times> decode_pacing" where
  "donor_step ops m rng num_running p =
     (let cb = concurrency_bucket num_running;
          ctx_index = dp_context_bucket p + cell_offset (dp_churn p)
      in case nearest_grid_cell (tl_donors_grid m) ctx_index cb (\<lambda>b. db_donors b \<noteq> []) of
           None \<Rightarrow>
             (let (d, rng) = trace_inter_token_delay ops m rng num_running
              in (\<lparr>sd_delay = d, sd_tokens = 1\<rparr>, rng, p))
         | Some bucket \<Rightarrow>
             (let (donor_idx, rng, p) =
                (case dp_donors p ! cb of
                   Some i \<Rightarrow> (i, rng, p)
                 | None \<Rightarrow>
                     (let (i, rng) = db_pick ops bucket rng
                      in (i, rng, p\<lparr>dp_donors := (dp_donors p)[cb := Some i]\<rparr>)));
                  ((ms, tokens), rng) = sample_step_inverse_cdf ops rng (dn_steps (db_donors bucket ! donor_idx))
              in (\<lparr>sd_delay = from_secs_f64 (ms / 1000), sd_tokens = tokens\<rparr>, rng, p)))"

definition trace_paced_step ::
  "'r rng_ops \<Rightarrow> trace_latency \<Rightarrow> 'r \<Rightarrow> nat \<Rightarrow> decode_pacing \<Rightarrow> step_draw \<times> 'r \<times> decode_pacing" where
  "trace_paced_step ops m rng num_running p =
     (let cb = concurrency_bucket num_running;
          stall = dp_pending_stall p;
          p = p\<lparr>dp_pending_stall := None\<rparr>
      in case Option.bind stall (\<lambda>t. nearest_grid_cell (tl_stalls_grid m) (prompt_bucket t) cb (\<lambda>c. c \<noteq> [])) of
           Some stalls \<Rightarrow>
             (let (ms, rng) = sample_inverse_cdf ops rng stalls
              in (\<lparr>sd_delay = from_secs_f64 (ms / 1000), sd_tokens = 1\<rparr>, rng, p))
         | None \<Rightarrow> donor_step ops m rng num_running p)"

definition trace_prefill_chunk_cost :: "trace_latency \<Rightarrow> nat \<Rightarrow> nat \<Rightarrow> duration" where
  "trace_prefill_chunk_cost m chunk_tokens kv_depth =
     from_secs_f64 (max (chunk_eval_ms (tl_chunk_cost m) chunk_tokens kv_depth) 0 / 1000)"

definition trace_full_chunk_floor :: "trace_latency \<Rightarrow> duration" where
  "trace_full_chunk_floor m = from_secs_f64 (tl_full_step_floor_ms m / 1000)"

text \<open>
  The step time an isolated prefill is charged: full-budget chunks while more than a budget
  is left, then the final chunk. The builder keeps the budget at least one, which ends the loop.
\<close>

function charged_chunks :: "trace_latency \<Rightarrow> nat \<Rightarrow> nat \<Rightarrow> duration" where
  "charged_chunks m left depth =
     (if left > tl_budget_tokens m \<and> tl_budget_tokens m > 0
      then max (trace_prefill_chunk_cost m (tl_budget_tokens m) depth) (trace_full_chunk_floor m) +
           charged_chunks m (left - tl_budget_tokens m) (depth + tl_budget_tokens m)
      else trace_prefill_chunk_cost m left depth)"
  by pat_completeness auto
termination
  by (relation "measure (\<lambda>(m, left, depth). left)") auto

declare charged_chunks.simps [simp del]

definition trace_first_token_overhead ::
  "'r rng_ops \<Rightarrow> trace_latency \<Rightarrow> 'r \<Rightarrow> first_token_ctx \<Rightarrow> duration \<times> 'r" where
  "trace_first_token_overhead ops m rng ctx =
     (let (total, rng) = trace_first_token_delay ops m rng ctx
      in if ft_do_remote_prefill ctx then (total, rng)
         else (total - charged_chunks m (max (ft_num_prompt_tokens ctx - ft_num_cached_tokens ctx) 1)
                 (ft_num_cached_tokens ctx), rng))"

text \<open>\<^verbatim>\<open>f64::round\<close>: halves away from zero.\<close>

definition f64_round :: "f64 \<Rightarrow> f64" where
  "f64_round x = (if x \<ge> 0 then of_int \<lfloor>x + 1 / 2\<rfloor> else - of_int \<lfloor>1 / 2 - x\<rfloor>)"

definition trace_sample_output_len :: "'r rng_ops \<Rightarrow> trace_latency \<Rightarrow> 'r \<Rightarrow> nat option \<times> 'r" where
  "trace_sample_output_len ops m rng =
     (if tl_output_lens m = [] then (None, rng)
      else let (v, rng) = sample_inverse_cdf ops rng (tl_output_lens m)
           in (Some (f64_as_u64 (max (f64_round v) 1)), rng))"

section \<open>The latency model of an engine\<close>

datatype latency_model = KnobLatency knob_latency | TraceLatency trace_latency

fun paced_step ::
  "'r rng_ops \<Rightarrow> latency_model \<Rightarrow> 'r \<Rightarrow> nat \<Rightarrow> decode_pacing \<Rightarrow> step_draw \<times> 'r \<times> decode_pacing" where
  "paced_step ops (KnobLatency k) rng num_running p =
     (let (d, rng) = knob_inter_token_delay ops k rng num_running
      in (\<lparr>sd_delay = d, sd_tokens = 1\<rparr>, rng, p))"
| "paced_step ops (TraceLatency m) rng num_running p = trace_paced_step ops m rng num_running p"

fun prefill_chunk_cost :: "latency_model \<Rightarrow> nat \<Rightarrow> nat \<Rightarrow> duration" where
  "prefill_chunk_cost (KnobLatency k) chunk_tokens kv_depth = 0"
| "prefill_chunk_cost (TraceLatency m) chunk_tokens kv_depth = trace_prefill_chunk_cost m chunk_tokens kv_depth"

fun budget_full_chunk_floor :: "latency_model \<Rightarrow> duration" where
  "budget_full_chunk_floor (KnobLatency k) = 0"
| "budget_full_chunk_floor (TraceLatency m) = trace_full_chunk_floor m"

fun first_token_overhead ::
  "'r rng_ops \<Rightarrow> latency_model \<Rightarrow> 'r \<Rightarrow> first_token_ctx \<Rightarrow> duration \<times> 'r" where
  "first_token_overhead ops (KnobLatency k) rng ctx = knob_first_token_delay ops k rng ctx"
| "first_token_overhead ops (TraceLatency m) rng ctx = trace_first_token_overhead ops m rng ctx"

fun latency_spec_tokens :: "latency_model \<Rightarrow> nat option" where
  "latency_spec_tokens (KnobLatency k) = None"
| "latency_spec_tokens (TraceLatency m) = tl_spec_tokens m"

fun sample_output_len :: "'r rng_ops \<Rightarrow> latency_model \<Rightarrow> 'r \<Rightarrow> nat option \<times> 'r" where
  "sample_output_len ops (KnobLatency k) rng = (None, rng)"
| "sample_output_len ops (TraceLatency m) rng = trace_sample_output_len ops m rng"

end
