(* ===== verification/Replay_Steps.thy ===== *)
theory Replay_Steps
  imports Latency
begin

text \<open>
  Verbatim decode-schedule replay (\<^verbatim>\<open>src/src/replay_steps.rs\<close>): a request's recorded chunk
  sizes and gaps, resolved by request id or by the longest shared prompt prefix.
\<close>

record scripted_decode =
  sc_first_chunk_tokens :: nat
  sc_steps :: "step_draw list"

definition output_tokens :: "scripted_decode \<Rightarrow> nat" where
  "output_tokens s = sc_first_chunk_tokens s + sum_list (map sd_tokens (sc_steps s))"

definition schedule_from_record :: "trace_record \<Rightarrow> scripted_decode option" where
  "schedule_from_record r =
     (case tr_itl_ms r of
        None \<Rightarrow> None
      | Some gaps \<Rightarrow>
          (case (case tr_itl_tokens r of
                   Some t \<Rightarrow> if length t = length gaps then Some t else None
                 | None \<Rightarrow> Some (replicate (length gaps) 1)) of
             None \<Rightarrow> None
           | Some tokens \<Rightarrow>
               (let decode_total = sum_list tokens;
                    first_chunk_tokens = max (tr_output_tokens r - decode_total) 1 mod 2 ^ 32;
                    steps = map (\<lambda>(ms, t). \<lparr>sd_delay = from_secs_f64 (max (ms / 1000) 0), sd_tokens = max t 1\<rparr>)
                              (zip gaps tokens)
                in Some \<lparr>sc_first_chunk_tokens = first_chunk_tokens, sc_steps = steps\<rparr>)))"

definition derive_spec_tokens :: "trace_record list \<Rightarrow> nat option" where
  "derive_spec_tokens records =
     (let chunks = concat (List.map_filter tr_itl_tokens records);
          max_chunk = (if chunks = [] then 1 else Max (set chunks))
      in if max_chunk > 1 then Some (max_chunk - 1) else None)"

record index_steps =
  is_records :: "trace_record list"
  is_spec_tokens :: "nat option"

definition index_steps_from_records :: "trace_record list \<Rightarrow> index_steps" where
  "index_steps_from_records records = \<lparr>is_records = records, is_spec_tokens = derive_spec_tokens records\<rparr>"

definition is_take_schedule :: "index_steps \<Rightarrow> string \<Rightarrow> scripted_decode option" where
  "is_take_schedule s request_id =
     (case record_index request_id of
        None \<Rightarrow> None
      | Some i \<Rightarrow> if i < length (is_records s) then schedule_from_record (is_records s ! i) else None)"

record prefix_steps =
  pst_records :: "trace_record list"
  pst_by_hash :: "(u64, nat list) btree"
  pst_consumed :: "bool list"
  pst_block_size :: nat
  pst_spec_tokens :: "nat option"

definition timed_chains :: "trace_record list \<Rightarrow> (nat \<times> u64 list) list" where
  "timed_chains records =
     map (\<lambda>(i, r). (i, case tr_block_hashes r of None \<Rightarrow> [] | Some hs \<Rightarrow> hs))
       (filter (\<lambda>(i, r). tr_itl_ms r \<noteq> None) (enumerate 0 records))"

definition prefix_steps_from_records :: "trace_record list \<Rightarrow> nat \<Rightarrow> prefix_steps" where
  "prefix_steps_from_records records bs =
     \<lparr>pst_records = records, pst_by_hash = index_hashes (timed_chains records),
      pst_consumed = replicate (length records) False, pst_block_size = bs,
      pst_spec_tokens = derive_spec_tokens records\<rparr>"

definition pst_take_schedule :: "prefix_steps \<Rightarrow> u32 list \<Rightarrow> scripted_decode option \<times> prefix_steps" where
  "pst_take_schedule s prompt =
     (case prompt_block_hashes prompt (pst_block_size s) of
        None \<Rightarrow> (None, s)
      | Some chain \<Rightarrow>
          (case match_deepest (pst_by_hash s) (pst_consumed s) (rev chain) of
             None \<Rightarrow> (None, s)
           | Some idx \<Rightarrow>
               (schedule_from_record (pst_records s ! idx),
                s\<lparr>pst_consumed := (pst_consumed s)[idx := True]\<rparr>)))"

datatype step_source = IndexSteps index_steps | PrefixSteps prefix_steps

fun take_schedule :: "step_source \<Rightarrow> string \<Rightarrow> u32 list \<Rightarrow> scripted_decode option \<times> step_source" where
  "take_schedule (IndexSteps s) rid prompt = (is_take_schedule s rid, IndexSteps s)"
| "take_schedule (PrefixSteps s) rid prompt =
     (let (sch, s) = pst_take_schedule s prompt in (sch, PrefixSteps s))"

fun step_spec_tokens :: "step_source \<Rightarrow> nat option" where
  "step_spec_tokens (IndexSteps s) = is_spec_tokens s"
| "step_spec_tokens (PrefixSteps s) = pst_spec_tokens s"

section \<open>The contract of a step source\<close>

locale step_provider =
  fixes take :: "'s \<Rightarrow> string \<Rightarrow> u32 list \<Rightarrow> scripted_decode option \<times> 's"
    and ok :: "'s \<Rightarrow> bool"
  assumes take_ok: "ok s \<Longrightarrow> ok (snd (take s rid prompt))"
    and take_pos: "ok s \<Longrightarrow> fst (take s rid prompt) = Some sch \<Longrightarrow> 0 < sc_first_chunk_tokens sch"
begin

text \<open>Clamping a positive token budget to a schedule leaves it positive.\<close>

lemma clamp_pos:
  "ok s \<Longrightarrow> fst (take s rid prompt) = Some sch \<Longrightarrow> 0 < n \<Longrightarrow> 0 < min n (output_tokens sch)"
  using take_pos by (fastforce simp: output_tokens_def)

end

text \<open>Output lengths fit the 32 bits of a chunk size.\<close>

definition lengths_ok :: "trace_record list \<Rightarrow> bool" where
  "lengths_ok records \<longleftrightarrow> (\<forall>r \<in> set records. tr_output_tokens r < 2 ^ 32)"

fun step_source_ok :: "step_source \<Rightarrow> bool" where
  "step_source_ok (IndexSteps s) = lengths_ok (is_records s)"
| "step_source_ok (PrefixSteps s) =
     (lengths_ok (pst_records s) \<and> index_ok (pst_by_hash s) (\<lambda>i. i < length (pst_records s)))"

lemma schedule_first_pos:
  assumes "schedule_from_record r = Some sch" "tr_output_tokens r < 2 ^ 32"
  shows "0 < sc_first_chunk_tokens sch"
proof -
  have "max (tr_output_tokens r - k) 1 mod 2 ^ 32 = max (tr_output_tokens r - k) 1" for k
    using assms(2) by simp
  then show ?thesis
    using assms(1) by (auto simp: schedule_from_record_def Let_def split: option.splits if_splits)
qed

interpretation steps: step_provider take_schedule step_source_ok
proof
  show "step_source_ok (snd (take_schedule s rid prompt))" if "step_source_ok s" for s rid prompt
    using that by (cases s) (auto simp: pst_take_schedule_def split_beta split: option.splits)
  show "0 < sc_first_chunk_tokens sch"
    if ok: "step_source_ok s" and t: "fst (take_schedule s rid prompt) = Some sch" for s rid prompt sch
  proof (cases s)
    case (IndexSteps x)
    with ok t show ?thesis
      by (auto simp: is_take_schedule_def lengths_ok_def intro!: schedule_first_pos
          split: option.splits if_splits)
  next
    case (PrefixSteps x)
    with t obtain i hs where i: "match_deepest (pst_by_hash x) (pst_consumed x) hs = Some i"
      "schedule_from_record (pst_records x ! i) = Some sch"
      by (auto simp: pst_take_schedule_def split_beta split: option.splits)
    with ok PrefixSteps have "i < length (pst_records x)" using match_deepest_index by fastforce
    with i ok PrefixSteps show ?thesis by (auto simp: lengths_ok_def intro!: schedule_first_pos)
  qed
qed

lemma from_records_steps_ok:
  "lengths_ok records \<Longrightarrow> step_source_ok (IndexSteps (index_steps_from_records records))"
  "lengths_ok records \<Longrightarrow> step_source_ok (PrefixSteps (prefix_steps_from_records records bs))"
proof -
  have "index_ok (index_hashes (timed_chains records)) (\<lambda>i. i < length records)"
    by (rule index_hashes_ok) (auto simp: timed_chains_def in_set_enumerate_eq)
  then show "lengths_ok records \<Longrightarrow> step_source_ok (PrefixSteps (prefix_steps_from_records records bs))"
    by (simp add: prefix_steps_from_records_def)
qed (simp add: index_steps_from_records_def)

section \<open>Properties\<close>

text \<open>For a validated record the replayed schedule delivers exactly the recorded number of output
  tokens: the first chunk takes what the recorded chunk sizes leave, every later chunk its recorded
  size, and the number of steps is the number of recorded gaps.\<close>

theorem schedule_reproduces_lengths:
  assumes "validate_record r = Inr ()" "tr_itl_ms r = Some gaps" "tr_itl_tokens r = Some toks"
    "tr_output_tokens r < 2 ^ 32"
  shows "\<exists>sch. schedule_from_record r = Some sch \<and> output_tokens sch = tr_output_tokens r \<and>
    map sd_tokens (sc_steps sch) = toks \<and> length (sc_steps sch) = length gaps \<and>
    0 < sc_first_chunk_tokens sch"
proof -
  have len: "length toks = length gaps" and pos: "0 \<notin> set toks" and sum: "sum_list toks < tr_output_tokens r"
    using assms(1-3) by (auto simp: validate_record_def Let_def split: if_splits)
  have first: "max (tr_output_tokens r - sum_list toks) 1 mod 2 ^ 32 = tr_output_tokens r - sum_list toks"
    using sum assms(4) by simp
  let ?steps = "map (\<lambda>(ms, t). \<lparr>sd_delay = from_secs_f64 (max (ms / 1000) 0), sd_tokens = max t 1\<rparr>) (zip gaps toks)"
  have "map sd_tokens ?steps = map (\<lambda>t. max t 1) (map snd (zip gaps toks))" by (simp add: split_beta)
  also have "\<dots> = map (\<lambda>t. max t 1) toks" using len by simp
  also have "\<dots> = toks" using pos by (intro map_idI) (metis One_nat_def Suc_leI max_absorb1 neq0_conv)
  finally have steps: "map sd_tokens ?steps = toks" .
  have "schedule_from_record r = Some \<lparr>sc_first_chunk_tokens = tr_output_tokens r - sum_list toks, sc_steps = ?steps\<rparr>"
    using assms(2,3) len first by (simp add: schedule_from_record_def Let_def)
  then show ?thesis using steps sum len by (simp add: output_tokens_def)
qed

theorem schedule_reproduces_lengths_witness:
  "\<exists>sch. schedule_from_record (default_record\<lparr>tr_output_tokens := 6, tr_itl_ms := Some [3, 4], tr_itl_tokens := Some [2, 3]\<rparr>)
     = Some sch \<and> output_tokens sch = 6"
  using schedule_reproduces_lengths [of
      "default_record\<lparr>tr_output_tokens := 6, tr_itl_ms := Some [3, 4], tr_itl_tokens := Some [2, 3]\<rparr>" "[3, 4]" "[2, 3]"]
  by (auto simp: validate_record_def default_record_def)

end
