(* ===== verification/Scheduler.thy ===== *)
theory Scheduler
  imports Protocol
begin

text \<open>
  The waiting-queue policies of \<^verbatim>\<open>src/src/sched.rs\<close>. A locale states what the engine
  relies on (a chosen index is valid and admissible, and one is chosen whenever some waiting
  request is admissible); both policies interpret it.
\<close>

record queued_request =
  q_request :: engine_request
  q_queued_at :: f64

datatype scheduling_policy = Fcfs | Priority

text \<open>\<^verbatim>\<open>Iterator::min_by\<close>: a left fold that keeps the accumulator unless it compares greater.\<close>

fun min_by_from :: "('a \<Rightarrow> 'a \<Rightarrow> ordering) \<Rightarrow> 'a \<Rightarrow> 'a list \<Rightarrow> 'a" where
  "min_by_from cmp acc [] = acc"
| "min_by_from cmp acc (x # xs) = min_by_from cmp (if cmp acc x = Greater then x else acc) xs"

definition min_by :: "('a \<Rightarrow> 'a \<Rightarrow> ordering) \<Rightarrow> 'a list \<Rightarrow> 'a option" where
  "min_by cmp xs = (case xs of [] \<Rightarrow> None | x # xs \<Rightarrow> Some (min_by_from cmp x xs))"

definition then_with :: "ordering \<Rightarrow> ordering \<Rightarrow> ordering" where
  "then_with a b = (if a = Equal then b else a)"

definition priority_cmp :: "engine_request \<Rightarrow> engine_request \<Rightarrow> ordering" where
  "priority_cmp a b =
     then_with (cmp_of (req_priority a) (req_priority b))
       (case partial_cmp (req_arrival a) (req_arrival b) of None \<Rightarrow> Equal | Some c \<Rightarrow> c)"

definition fcfs_next :: "queued_request list \<Rightarrow> (engine_request \<Rightarrow> bool) \<Rightarrow> nat option" where
  "fcfs_next waiting admissible = position (\<lambda>q. admissible (q_request q)) waiting"

definition priority_next :: "queued_request list \<Rightarrow> (engine_request \<Rightarrow> bool) \<Rightarrow> nat option" where
  "priority_next waiting admissible =
     map_option fst
       (min_by (\<lambda>a b. priority_cmp (snd a) (snd b))
          (filter (\<lambda>e. admissible (snd e)) (enumerate 0 (map q_request waiting))))"

definition next_admissible ::
  "scheduling_policy \<Rightarrow> queued_request list \<Rightarrow> (engine_request \<Rightarrow> bool) \<Rightarrow> nat option" where
  "next_admissible policy =
     (case policy of Fcfs \<Rightarrow> fcfs_next | Priority \<Rightarrow> priority_next)"

section \<open>The policy contract\<close>

locale scheduler_policy =
  fixes pick :: "queued_request list \<Rightarrow> (engine_request \<Rightarrow> bool) \<Rightarrow> nat option"
  assumes pick_sound: "pick w adm = Some i \<Longrightarrow> i < length w \<and> adm (q_request (w ! i))"
    and pick_complete: "pick w adm = None \<Longrightarrow> q \<in> set w \<Longrightarrow> \<not> adm (q_request q)"
begin

lemma pick_removes:
  assumes "pick w adm = Some i"
  obtains q w' where "vd_remove i w = Some (q, w')" "adm (q_request q)" "mset w = add_mset q (mset w')"
    "length w = Suc (length w')"
proof -
  let ?w' = "take i w @ drop (Suc i) w"
  have r: "vd_remove i w = Some (w ! i, ?w')" and adm: "adm (q_request (w ! i))"
    using pick_sound [OF assms] by (simp_all add: vd_remove_def)
  show thesis by (rule that [OF r adm vd_remove_mset [OF r] vd_remove_length [OF r]])
qed

lemma pick_None_iff: "pick w adm = None \<longleftrightarrow> (\<forall>q \<in> set w. \<not> adm (q_request q))"
proof
  show "pick w adm = None \<Longrightarrow> \<forall>q \<in> set w. \<not> adm (q_request q)"
    using pick_complete by blast
  show "\<forall>q \<in> set w. \<not> adm (q_request q) \<Longrightarrow> pick w adm = None"
    using pick_sound nth_mem by (metis not_None_eq)
qed

end

lemma min_by_from_mem: "min_by_from cmp acc xs \<in> insert acc (set xs)"
proof (induction xs arbitrary: acc)
  case (Cons x xs)
  show ?case using Cons.IH [of "if cmp acc x = Greater then x else acc"] by (auto split: if_splits)
qed simp

lemma min_by_mem: "min_by cmp xs = Some x \<Longrightarrow> x \<in> set xs"
  using min_by_from_mem by (fastforce simp: min_by_def split: list.splits)

lemma min_by_None: "min_by cmp xs = None \<longleftrightarrow> xs = []"
  by (simp add: min_by_def split: list.splits)

lemma enumerate_mem: "(i, x) \<in> set (enumerate 0 xs) \<longleftrightarrow> i < length xs \<and> x = xs ! i"
  by (auto simp: in_set_enumerate_eq)

lemma priority_next_Some:
  "priority_next w adm = Some i \<Longrightarrow> i < length w \<and> adm (q_request (w ! i))"
  by (auto simp: priority_next_def enumerate_mem dest!: min_by_mem)

lemma priority_next_None:
  assumes "priority_next w adm = None" "q \<in> set w"
  shows "\<not> adm (q_request q)"
proof
  assume adm: "adm (q_request q)"
  from assms(2) obtain i where "i < length w" "w ! i = q" by (auto simp: in_set_conv_nth)
  then have "(i, q_request q) \<in> set (filter (\<lambda>e. adm (snd e)) (enumerate 0 (map q_request w)))"
    using adm by (simp add: enumerate_mem)
  with assms(1) show False by (simp add: priority_next_def min_by_None)
qed

interpretation fcfs: scheduler_policy fcfs_next
  by unfold_locales (auto simp: fcfs_next_def position_None dest!: position_Some)

interpretation priority: scheduler_policy priority_next
  by unfold_locales (auto simp: priority_next_Some priority_next_None)

interpretation policy: scheduler_policy "next_admissible policy" for policy
  by (cases policy)
    (unfold_locales, auto simp: next_admissible_def fcfs.pick_sound fcfs.pick_complete
      priority.pick_sound priority.pick_complete)

section \<open>Properties\<close>

text \<open>First-come first-served admits the earliest admissible request of the queue: the chosen
  index is admissible and no earlier request is.\<close>

theorem fcfs_picks_first:
  "fcfs_next w adm = Some i \<longleftrightarrow>
     i < length w \<and> adm (q_request (w ! i)) \<and> (\<forall>j < i. \<not> adm (q_request (w ! j)))"
proof
  show "fcfs_next w adm = Some i \<Longrightarrow>
      i < length w \<and> adm (q_request (w ! i)) \<and> (\<forall>j < i. \<not> adm (q_request (w ! j)))"
    unfolding fcfs_next_def by (rule position_Some)
next
  assume i: "i < length w \<and> adm (q_request (w ! i)) \<and> (\<forall>j < i. \<not> adm (q_request (w ! j)))"
  then have "fcfs_next w adm \<noteq> None" using fcfs.pick_complete nth_mem by blast
  then obtain k where k: "fcfs_next w adm = Some k" by blast
  then have "k < length w \<and> adm (q_request (w ! k)) \<and> (\<forall>j < k. \<not> adm (q_request (w ! j)))"
    unfolding fcfs_next_def by (rule position_Some)
  then have "k = i" using i by (metis nat_neq_iff)
  with k show "fcfs_next w adm = Some i" by simp
qed

text \<open>With comparable arrival times the priority comparison is a total preorder.\<close>

definition prio_le :: "engine_request \<Rightarrow> engine_request \<Rightarrow> bool" where
  "prio_le a b \<longleftrightarrow> priority_cmp a b \<noteq> Greater"

fun fval_rank :: "fval \<Rightarrow> nat \<times> f64" where
  "fval_rank NaN = (0, 0)"
| "fval_rank NegInf = (0, 0)"
| "fval_rank (Fin a) = (1, a)"
| "fval_rank PosInf = (2, 0)"

lemma partial_cmp_rank:
  assumes "a \<noteq> NaN" "b \<noteq> NaN"
  shows "partial_cmp a b = Some (if fst (fval_rank a) < fst (fval_rank b) then Less
     else if fst (fval_rank a) > fst (fval_rank b) then Greater
     else cmp_of (snd (fval_rank a)) (snd (fval_rank b)))"
  using assms by (cases a; cases b) (simp_all add: cmp_of_def)

lemma prio_le_iff:
  assumes "req_arrival a \<noteq> NaN" "req_arrival b \<noteq> NaN"
  shows "prio_le a b \<longleftrightarrow> req_priority a < req_priority b \<or> req_priority a = req_priority b \<and>
    (fst (fval_rank (req_arrival a)) < fst (fval_rank (req_arrival b)) \<or>
     fst (fval_rank (req_arrival a)) = fst (fval_rank (req_arrival b)) \<and>
     snd (fval_rank (req_arrival a)) \<le> snd (fval_rank (req_arrival b)))"
  using assms
  by (auto simp: prio_le_def priority_cmp_def then_with_def partial_cmp_rank cmp_of_def)

lemma min_by_from_le:
  assumes asym: "\<And>a b. a \<in> S \<Longrightarrow> b \<in> S \<Longrightarrow> cmp a b = Greater \<Longrightarrow> cmp b a \<noteq> Greater"
    and trans: "\<And>a b c. a \<in> S \<Longrightarrow> b \<in> S \<Longrightarrow> c \<in> S \<Longrightarrow>
      cmp a b \<noteq> Greater \<Longrightarrow> cmp b c \<noteq> Greater \<Longrightarrow> cmp a c \<noteq> Greater"
    and refl: "\<And>a. a \<in> S \<Longrightarrow> cmp a a \<noteq> Greater"
    and "acc \<in> S" "set xs \<subseteq> S" "y \<in> insert acc (set xs)"
  shows "cmp (min_by_from cmp acc xs) y \<noteq> Greater"
  using assms(4-6)
proof (induction xs arbitrary: acc y)
  case Nil
  then show ?case using refl by simp
next
  case (Cons x xs)
  define acc' where "acc' = (if cmp acc x = Greater then x else acc)"
  have S: "acc \<in> S" "x \<in> S" "set xs \<subseteq> S" "y \<in> S" "acc' \<in> S"
    using Cons.prems by (auto simp: acc'_def)
  have le: "cmp acc' acc \<noteq> Greater" "cmp acc' x \<noteq> Greater"
    using asym [OF S(1,2)] refl [OF S(1)] refl [OF S(2)] by (simp_all add: acc'_def)
  have IH: "cmp (min_by_from cmp acc' xs) z \<noteq> Greater" if "z \<in> insert acc' (set xs)" for z
    using Cons.IH [OF S(5,3) that] .
  have mem: "min_by_from cmp acc' xs \<in> S"
    using min_by_from_mem [of cmp acc' xs] S(3,5) by (metis insert_iff subsetD)
  have "cmp (min_by_from cmp acc' xs) y \<noteq> Greater"
  proof (cases "y \<in> insert acc' (set xs)")
    case True
    then show ?thesis by (rule IH)
  next
    case False
    then have "cmp acc' y \<noteq> Greater" using Cons.prems(3) le by auto
    then show ?thesis using trans [OF mem S(5,4)] IH [of acc'] by blast
  qed
  then show ?case by (simp add: acc'_def)
qed

text \<open>The priority policy admits an admissible request whose (priority, arrival time) is no larger
  than that of any other admissible request, when no waiting arrival time is NaN.\<close>

theorem priority_picks_smallest:
  assumes "\<forall>q \<in> set w. req_arrival (q_request q) \<noteq> NaN" "priority_next w adm = Some i"
    "j < length w" "adm (q_request (w ! j))"
  shows "adm (q_request (w ! i)) \<and> prio_le (q_request (w ! i)) (q_request (w ! j))"
proof -
  let ?xs = "filter (\<lambda>e. adm (snd e)) (enumerate 0 (map q_request w))"
  let ?cmp = "\<lambda>a b. priority_cmp (snd a) (snd b)"
  obtain r where r: "min_by ?cmp ?xs = Some (i, r)"
    using assms(2) by (auto simp: priority_next_def)
  then have mem: "(i, r) \<in> set ?xs" by (rule min_by_mem)
  then have i: "r = q_request (w ! i)" "adm r" by (auto simp: enumerate_mem)
  obtain x xs where xs: "?xs = x # xs" and m: "(i, r) = min_by_from ?cmp x xs"
    using r by (auto simp: min_by_def split: list.splits)
  have fin: "req_arrival (snd e) \<noteq> NaN" if "e \<in> insert x (set xs)" for e
  proof -
    obtain k q where e: "e = (k, q)" by fastforce
    have "e \<in> set (enumerate 0 (map q_request w))"
      using that xs by (metis filter_is_subset list.simps(15) subsetD)
    then have "k < length w" "q = q_request (w ! k)" unfolding e enumerate_mem by auto
    then show ?thesis using assms(1) e by simp
  qed
  have "(j, q_request (w ! j)) \<in> set ?xs" using assms(3,4) by (simp add: enumerate_mem)
  then have j: "(j, q_request (w ! j)) \<in> insert x (set xs)" using xs by simp
  have "?cmp (min_by_from ?cmp x xs) (j, q_request (w ! j)) \<noteq> Greater"
  proof (rule min_by_from_le [where S = "insert x (set xs)", OF _ _ _ _ _ j])
    show "?cmp b a \<noteq> Greater"
      if "a \<in> insert x (set xs)" "b \<in> insert x (set xs)" "?cmp a b = Greater" for a b
      using that prio_le_iff [OF fin [OF that(1)] fin [OF that(2)]]
        prio_le_iff [OF fin [OF that(2)] fin [OF that(1)]] unfolding prio_le_def by linarith
    show "?cmp a c \<noteq> Greater"
      if "a \<in> insert x (set xs)" "b \<in> insert x (set xs)" "c \<in> insert x (set xs)"
        "?cmp a b \<noteq> Greater" "?cmp b c \<noteq> Greater" for a b c
      using that prio_le_iff [OF fin [OF that(1)] fin [OF that(2)]]
        prio_le_iff [OF fin [OF that(2)] fin [OF that(3)]]
        prio_le_iff [OF fin [OF that(1)] fin [OF that(3)]] unfolding prio_le_def by linarith
    show "?cmp a a \<noteq> Greater" if "a \<in> insert x (set xs)" for a
      using prio_le_iff [OF fin [OF that] fin [OF that]] unfolding prio_le_def by linarith
  qed auto
  then have "?cmp (i, r) (j, q_request (w ! j)) \<noteq> Greater" using m by simp
  then show ?thesis using i by (simp add: prio_le_def)
qed

definition q_ex :: "string \<Rightarrow> int \<Rightarrow> f64 \<Rightarrow> queued_request" where
  "q_ex rid prio t =
     \<lparr>q_request = \<lparr>req_id = rid, req_client = 0, req_prompt = None, req_sampling = None,
        req_lora = None, req_cache_salt = None, req_priority = prio, req_arrival = Fin t, req_mm_hashes = None\<rparr>,
      q_queued_at = 0\<rparr>"

lemma priority_next_ex: "priority_next [q_ex ''a'' 5 0, q_ex ''b'' 1 2] (\<lambda>_. True) = Some 1"
  by (simp add: priority_next_def q_ex_def min_by_def priority_cmp_def then_with_def cmp_of_def)

theorem priority_picks_smallest_witness:
  "prio_le (q_request (q_ex ''b'' 1 2)) (q_request (q_ex ''a'' 5 0))"
  using priority_picks_smallest [OF _ priority_next_ex, of 0] by (simp add: q_ex_def)

end
