(* ===== verification/Latency_Fit.thy ===== *)
theory Latency_Fit
  imports Latency "HOL-Library.Product_Lexorder"
begin

text \<open>
  Fitting the trace-replay latency model from records (\<^verbatim>\<open>crates/sim-trace/src/latency.rs\<close>):
  the weighted least-squares service curve over sliding windows, the trimmed chunk-cost fit, the
  full-step floor, and the construction of the sample grids. \<^verbatim>\<open>f64\<close> is a real number, so
  comparisons are total.
\<close>

section \<open>The service curve\<close>

record service_window =
  sw_u :: f64
  sw_p10_ms :: f64
  sw_count :: nat

text \<open>The windows from \<open>lo\<close> on: 600 tokens wide, 400 apart, kept from five observations.\<close>

function window_loop :: "(f64 \<times> f64) list \<Rightarrow> f64 \<Rightarrow> f64 \<Rightarrow> service_window list" where
  "window_loop obs last_u lo =
     (if lo \<le> last_u
      then
        let hi = lo + 600;
            start = partition_point (\<lambda>(u, _). u < lo) obs;
            stop = partition_point (\<lambda>(u, _). u < hi) obs;
            slice = take (stop - start) (drop start obs);
            ttfts = sort (map snd slice)
        in (if length slice \<ge> 5
            then [\<lparr>sw_u = fst (slice ! (length slice div 2)), sw_p10_ms = ttfts ! (length ttfts div 10),
                   sw_count = length slice\<rparr>]
            else []) @ window_loop obs last_u (lo + 400)
      else [])"
  by pat_completeness auto
termination
proof (relation "measure (\<lambda>(obs, last_u, lo). nat (\<lfloor>(last_u - lo) / 400\<rfloor> + 1))", goal_cases)
  case (2 obs last_u lo)
  then have "0 \<le> \<lfloor>(last_u - lo) / 400\<rfloor>" by simp
  moreover have "\<lfloor>(last_u - (lo + 400)) / 400\<rfloor> = \<lfloor>(last_u - lo) / 400\<rfloor> - 1"
  proof -
    have e: "(last_u - (lo + 400)) / 400 = (last_u - lo) / 400 - 1" by (simp add: field_simps)
    show ?thesis unfolding e by simp
  qed
  ultimately show ?case by simp
qed simp

declare window_loop.simps [simp del]

definition service_windows :: "(f64 \<times> f64) list \<Rightarrow> service_window list" where
  "service_windows obs = (if obs = [] then [] else window_loop obs (fst (last obs)) (fst (hd obs)))"

text \<open>The normal equations, accumulated window by window.\<close>

type_synonym system = "f64 list list \<times> f64 list"

definition powers :: "nat \<Rightarrow> f64 \<Rightarrow> f64 list" where
  "powers n u = map (\<lambda>k. u ^ k) [0..<n]"

definition add_window :: "nat \<Rightarrow> service_window \<Rightarrow> system \<Rightarrow> system" where
  "add_window n w = (\<lambda>(a, rhs).
     let weight = sqrt (real (sw_count w)); p = powers n (sw_u w)
     in (map (\<lambda>i. map (\<lambda>j. a ! i ! j + weight * p ! i * p ! j) [0..<n]) [0..<n],
         map (\<lambda>i. rhs ! i + weight * p ! i * sw_p10_ms w) [0..<n]))"

definition normal_equations :: "nat \<Rightarrow> service_window list \<Rightarrow> system" where
  "normal_equations n windows =
     fold (add_window n) windows (replicate n (replicate n 0), replicate n 0)"

text \<open>Gaussian elimination. \<^verbatim>\<open>max_by\<close> keeps the last of equal pivots.\<close>

definition pivot_of :: "nat \<Rightarrow> f64 list list \<Rightarrow> nat \<Rightarrow> nat" where
  "pivot_of n a col = fold (\<lambda>y best. if \<bar>a ! y ! col\<bar> < \<bar>a ! best ! col\<bar> then best else y) [Suc col..<n] col"

definition swap_entries :: "nat \<Rightarrow> nat \<Rightarrow> 'a list \<Rightarrow> 'a list" where
  "swap_entries i j xs = xs[i := xs ! j, j := xs ! i]"

definition eliminate_column :: "nat \<Rightarrow> nat \<Rightarrow> system \<Rightarrow> system option" where
  "eliminate_column n col = (\<lambda>(a, rhs).
     let pivot = pivot_of n a col
     in if \<bar>a ! pivot ! col\<bar> < 1 / 10 ^ 12 then None
        else
          let a = swap_entries col pivot a; rhs = swap_entries col pivot rhs; pivot_row = a ! col
          in Some
              (map (\<lambda>row. if row \<le> col then a ! row
                 else map (\<lambda>k. if k < col then a ! row ! k
                   else a ! row ! k - a ! row ! col / pivot_row ! col * pivot_row ! k) [0..<n]) [0..<n],
               map (\<lambda>row. if row \<le> col then rhs ! row
                 else rhs ! row - a ! row ! col / pivot_row ! col * rhs ! col) [0..<n]))"

primrec eliminate :: "nat \<Rightarrow> nat list \<Rightarrow> system \<Rightarrow> system option" where
  "eliminate n [] s = Some s"
| "eliminate n (col # cols) s = Option.bind (eliminate_column n col s) (eliminate n cols)"

definition substitute :: "nat \<Rightarrow> system \<Rightarrow> nat \<Rightarrow> f64 list \<Rightarrow> f64 list" where
  "substitute n = (\<lambda>(a, rhs) col out.
     out[col := fold (\<lambda>k acc. acc - a ! col ! k * out ! k) [Suc col..<n] (rhs ! col) / (a ! col ! col)])"

definition solve_weighted_poly :: "nat \<Rightarrow> service_window list \<Rightarrow> f64 list option" where
  "solve_weighted_poly n windows =
     map_option (\<lambda>s. fold (substitute n s) (rev [0..<n]) (replicate n 0))
       (eliminate n [0..<n] (normal_equations n windows))"

definition quadratic_fit :: "service_window list \<Rightarrow> f64 \<Rightarrow> f64 \<Rightarrow> service_fit option" where
  "quadratic_fit windows floor_ms u_max =
     (if length windows \<ge> 4 then
        (case solve_weighted_poly 3 windows of
           Some [a, b, c] \<Rightarrow>
             if c \<ge> 0 \<and> b + 2 * c * u_max \<ge> 0
             then Some \<lparr>fit_a = a, fit_b = b, fit_c = c, fit_floor_ms = floor_ms\<rparr> else None
         | _ \<Rightarrow> None)
      else None)"

definition linear_fit :: "service_window list \<Rightarrow> f64 \<Rightarrow> service_fit option" where
  "linear_fit windows floor_ms =
     (if length windows \<ge> 2 then
        (case solve_weighted_poly 2 windows of
           Some [a, b] \<Rightarrow>
             if b \<ge> 0 then Some \<lparr>fit_a = a, fit_b = b, fit_c = 0, fit_floor_ms = floor_ms\<rparr> else None
         | _ \<Rightarrow> None)
      else None)"

definition fit_service_curve :: "service_window list \<Rightarrow> service_fit option" where
  "fit_service_curve windows =
     (if windows = [] then None
      else
        let floor_ms = fold (\<lambda>w m. min m (sw_p10_ms w)) (tl windows) (sw_p10_ms (hd windows));
            u_max = fold (\<lambda>w m. max m (sw_u w)) windows 0
        in case quadratic_fit windows floor_ms u_max of
             Some fit \<Rightarrow> Some fit
           | None \<Rightarrow> linear_fit windows floor_ms)"

section \<open>The chunk cost\<close>

definition clean_gaps :: "f64 list \<Rightarrow> nat list \<Rightarrow> f64 list" where
  "clean_gaps itls marks = map fst (filter (\<lambda>(_, mark). mark = 0) (zip itls marks))"

text \<open>The gaps and marks of a record with parallel arrays and five clean gaps, and their median.\<close>

definition marked_gaps :: "trace_record \<Rightarrow> (f64 list \<times> nat list \<times> f64) option" where
  "marked_gaps r =
     (case (tr_itl_ms r, tr_itl_ctx r) of
        (Some itls, Some ctx) \<Rightarrow>
          (let marks = ctx_prefill_tokens ctx; clean = clean_gaps itls marks
           in if length marks \<noteq> length itls \<or> length clean < 5 then None
              else Some (itls, marks, sort clean ! (length clean div 2)))
      | _ \<Rightarrow> None)"

type_synonym chunk_obs = "f64 \<times> f64 \<times> f64"

definition chunk_observation :: "nat \<Rightarrow> nat list \<Rightarrow> f64 \<Rightarrow> nat \<times> f64 \<times> nat \<Rightarrow> chunk_obs option" where
  "chunk_observation budget marks base = (\<lambda>(i, gap, prompt).
     if prompt = 0 then None
     else
       let final_chunk = (prompt - 1) mod budget + 1
       in if final_chunk < 256 then None
          else if \<exists>j \<in> set [i - 2..<min (i + 3) (length marks)]. j \<noteq> i \<and> marks ! j > 0 then None
          else
            let d1 = real prompt; d0 = real (prompt - final_chunk)
            in Some (real final_chunk, (d1 * d1 - d0 * d0) / 2, max (gap - base) 0))"

definition chunk_observations :: "nat \<Rightarrow> trace_record list \<Rightarrow> chunk_obs list" where
  "chunk_observations budget records =
     concat (map (\<lambda>(itls, marks, base).
         List.map_filter (chunk_observation budget marks base) (enumerate 0 (zip itls marks)))
       (List.map_filter marked_gaps records))"

definition lstsq2 :: "chunk_obs list \<Rightarrow> (f64 \<times> f64) option" where
  "lstsq2 obs =
     (let saa = sum_list (map (\<lambda>(a, b, y). a * a) obs); sab = sum_list (map (\<lambda>(a, b, y). a * b) obs);
          sbb = sum_list (map (\<lambda>(a, b, y). b * b) obs); say = sum_list (map (\<lambda>(a, b, y). a * y) obs);
          sby = sum_list (map (\<lambda>(a, b, y). b * y) obs); det = saa * sbb - sab * sab
      in if \<bar>det\<bar> < 1 / 10 ^ 9 then None
         else Some ((sbb * say - sab * sby) / det, (saa * sby - sab * say) / det))"

definition residual :: "f64 \<times> f64 \<Rightarrow> chunk_obs \<Rightarrow> f64" where
  "residual fit = (\<lambda>(a, b, y). \<bar>fst fit * a + snd fit * b - y\<bar>)"

definition keep_best :: "f64 \<times> f64 \<Rightarrow> chunk_obs list \<Rightarrow> chunk_obs list" where
  "keep_best fit kept = take (length kept * 4 div 5) (sort_key (residual fit) kept)"

primrec trim_rounds :: "nat \<Rightarrow> chunk_obs list \<Rightarrow> f64 \<times> f64 \<Rightarrow> (f64 \<times> f64) option" where
  "trim_rounds 0 kept fit = Some fit"
| "trim_rounds (Suc n) kept fit =
     (if length kept < 30 then None
      else case lstsq2 kept of
             None \<Rightarrow> None
           | Some fit \<Rightarrow> trim_rounds n (keep_best fit kept) fit)"

definition default_chunk_cost :: chunk_cost_fit where
  "default_chunk_cost = \<lparr>cc_c0 = 0, cc_c1 = 0\<rparr>"

definition fit_chunk_cost :: "trace_record list \<Rightarrow> nat \<Rightarrow> chunk_cost_fit" where
  "fit_chunk_cost records budget =
     (case trim_rounds 4 (chunk_observations (max budget 1) records) (0, 0) of
        None \<Rightarrow> default_chunk_cost
      | Some (c0, c1) \<Rightarrow> if c0 < 0 \<or> c1 < 0 then default_chunk_cost else \<lparr>cc_c0 = c0, cc_c1 = c1\<rparr>)"

definition fit_full_step_floor :: "trace_record list \<Rightarrow> chunk_cost_fit \<Rightarrow> nat \<Rightarrow> f64" where
  "fit_full_step_floor records chunk_cost budget =
     (let law_full = chunk_eval_ms chunk_cost (max budget 1) 0
      in if law_full \<le> 0 then 0
         else
           let lo = 8 / 10 * law_full; hi = 25 / 10 * law_full;
               obs = concat (map (\<lambda>(itls, marks, base).
                   filter (\<lambda>s. lo \<le> s \<and> s \<le> hi) (map (\<lambda>g. g - base) (clean_gaps itls marks)))
                 (List.map_filter marked_gaps records))
           in if length obs < 30 then 0 else sort obs ! (length obs div 2))"

section \<open>Building the model\<close>

record fit_state =
  fs_ttft_obs :: "(nat \<times> f64 \<times> f64) list list"
  fs_donors :: "donor_bucket list list"
  fs_stalls :: "f64 list list list"
  fs_itls :: "f64 list list"

definition empty_fit :: fit_state where
  "empty_fit =
     \<lparr>fs_ttft_obs = replicate NUM_PROMPT_BUCKETS [],
      fs_donors = replicate (2 * NUM_PROMPT_BUCKETS) (replicate NUM_CONCURRENCY_BUCKETS default_bucket),
      fs_stalls = replicate NUM_PROMPT_BUCKETS (replicate NUM_CONCURRENCY_BUCKETS []),
      fs_itls = replicate NUM_CONCURRENCY_BUCKETS []\<rparr>"

definition update_cell :: "nat \<Rightarrow> nat \<Rightarrow> ('a \<Rightarrow> 'a) \<Rightarrow> 'a list list \<Rightarrow> 'a list list" where
  "update_cell i j f grid = grid[i := (grid ! i)[j := f (grid ! i ! j)]]"

definition chunk_tokens :: "trace_record \<Rightarrow> nat \<Rightarrow> nat" where
  "chunk_tokens r i =
     (case tr_itl_tokens r of None \<Rightarrow> 1 | Some t \<Rightarrow> if i < length t then t ! i else 1)"

text \<open>The steps a record donates: sorted by gap, and with batch context cut at four medians.\<close>

definition cut_steps :: "bool \<Rightarrow> (f64 \<times> nat) list \<Rightarrow> (f64 \<times> nat) list" where
  "cut_steps has_ctx steps =
     (let steps = sort_key fst steps
      in if has_ctx
         then take (partition_point (\<lambda>(gap, _). gap \<le> 4 * fst (steps ! (length steps div 2))) steps) steps
         else steps)"

definition donate :: "nat \<Rightarrow> nat \<Rightarrow> (f64 \<times> nat) list \<Rightarrow> fit_state \<Rightarrow> fit_state" where
  "donate ctx_pb cb steps st =
     (let weight = sum_list (map (\<lambda>(_, t). real t) steps)
      in if weight > 0
         then st\<lparr>fs_donors := update_cell ctx_pb cb (db_push \<lparr>dn_steps = steps\<rparr> weight) (fs_donors st)\<rparr>
         else st)"

definition note_stall :: "nat \<Rightarrow> f64 list \<Rightarrow> nat list \<Rightarrow> nat \<Rightarrow> fit_state \<Rightarrow> fit_state" where
  "note_stall cb itls marks i st =
     st\<lparr>fs_stalls := update_cell (prompt_bucket (marks ! i)) cb (\<lambda>c. c @ [itls ! i]) (fs_stalls st)\<rparr>"

text \<open>The gaps of a record; reading a mark past the end of the context array panics.\<close>

definition add_gaps :: "trace_record \<Rightarrow> nat \<Rightarrow> nat \<Rightarrow> f64 list \<Rightarrow> fit_state \<Rightarrow> fit_state result" where
  "add_gaps r ctx_pb cb itls st =
     (let st = st\<lparr>fs_itls := (fs_itls st)[cb := fs_itls st ! cb @ itls]\<rparr>
      in case tr_itl_ctx r of
           None \<Rightarrow>
             Inr (donate ctx_pb cb (cut_steps False (map (\<lambda>(i, gap). (gap, chunk_tokens r i)) (enumerate 0 itls))) st)
         | Some ctx \<Rightarrow>
             if length (ctx_prefill_tokens ctx) < length itls then Inl ''index out of bounds''
             else
               let stalled = filter (\<lambda>i. ctx_prefill_tokens ctx ! i > 0) [0..<length itls];
                   clean = filter (\<lambda>i. \<not> ctx_prefill_tokens ctx ! i > 0) [0..<length itls];
                   st = fold (note_stall cb itls (ctx_prefill_tokens ctx)) stalled st;
                   steps = map (\<lambda>i. (itls ! i, chunk_tokens r i)) clean
               in Inr (if steps = [] then st else donate ctx_pb cb (cut_steps True steps) st))"

definition note_ttft :: "trace_record \<Rightarrow> fit_state \<Rightarrow> fit_state" where
  "note_ttft r st =
     (let uncached = tr_prompt_tokens r - tr_cached_tokens r;
          upb = prompt_bucket uncached;
          cb = concurrency_bucket (tr_concurrency r)
      in st\<lparr>fs_ttft_obs := (fs_ttft_obs st)[upb := fs_ttft_obs st ! upb @ [(cb, real (max uncached 1), tr_ttft_ms r)]]\<rparr>)"

definition add_record :: "trace_record \<Rightarrow> fit_state \<Rightarrow> fit_state result" where
  "add_record r st =
     (let ctx_pb = prompt_bucket (tr_prompt_tokens r) + cell_offset (record_churn r);
          cb = concurrency_bucket (tr_concurrency r);
          st = note_ttft r st
      in case tr_itl_ms r of
           Some itls \<Rightarrow> if itls = [] then Inr st else add_gaps r ctx_pb cb itls st
         | None \<Rightarrow>
             (case tr_itl_summary r of
                None \<Rightarrow> Inr st
              | Some summary \<Rightarrow>
                  Inr (if itl_count summary = 0 then st
                       else st\<lparr>fs_itls := (fs_itls st)[cb := fs_itls st ! cb @ replicate (itl_count summary) (mean_ms summary)],
                               fs_donors := update_cell ctx_pb cb
                                 (db_push \<lparr>dn_steps = [(mean_ms summary, 1)]\<rparr> (real (itl_count summary))) (fs_donors st)\<rparr>)))"

primrec add_records :: "trace_record list \<Rightarrow> fit_state \<Rightarrow> fit_state result" where
  "add_records [] st = Inr st"
| "add_records (r # rs) st = bind_result (add_record r st) (add_records rs)"

definition service_cell_of :: "(nat \<times> f64 \<times> f64) list \<Rightarrow> service_cell option" where
  "service_cell_of obs =
     (if obs = [] then None
      else
        let min_cb = Min (set (map fst obs));
            kept = filter (\<lambda>(cb, _, _). cb = min_cb) obs;
            uncached = sort (map (\<lambda>(_, u, _). u) kept)
        in Some \<lparr>sc_samples = sort (map (\<lambda>(_, _, ttft). ttft) kept),
                 sc_median_uncached = uncached ! (length uncached div 2)\<rparr>)"

definition floor_observations :: "trace_record list \<Rightarrow> (f64 \<times> f64) list" where
  "floor_observations records =
     (let min_concurrency = Min (set (map tr_concurrency records))
      in sort (map (\<lambda>r. (real (max (tr_prompt_tokens r - tr_cached_tokens r) 1), tr_ttft_ms r))
           (filter (\<lambda>r. tr_concurrency r = min_concurrency) records)))"

definition trace_latency_from_records ::
  "trace_record list \<Rightarrow> knob_latency \<Rightarrow> nat \<Rightarrow> trace_latency result" where
  "trace_latency_from_records records kv_transfer_fallback max_batched_tokens =
     (if records = [] then Inl ''trace has no records; cannot build a replay latency model''
      else bind_result (add_records records empty_fit) (\<lambda>st.
        if \<forall>samples \<in> set (fs_itls st). samples = []
        then Inl ''trace contains no inter-token latency data''
        else
          let chunk_cost = fit_chunk_cost records max_batched_tokens;
              chunks = concat (List.map_filter tr_itl_tokens records);
              max_chunk = (if chunks = [] then 1 else Max (set chunks))
          in Inr \<lparr>tl_service_fit = fit_service_curve (service_windows (floor_observations records)),
               tl_service_by_prompt = map service_cell_of (fs_ttft_obs st),
               tl_itl_by_concurrency = map sort (fs_itls st),
               tl_donors_grid = fs_donors st,
               tl_stalls_grid = map (map sort) (fs_stalls st),
               tl_kv_transfer_fallback = kv_transfer_fallback,
               tl_chunk_cost = chunk_cost,
               tl_full_step_floor_ms = fit_full_step_floor records chunk_cost max_batched_tokens,
               tl_budget_tokens = max max_batched_tokens 1,
               tl_spec_tokens = (if max_chunk > 1 then Some (max_chunk - 1) else None),
               tl_output_lens = sort (map (\<lambda>r. real (max (tr_output_tokens r) 1)) records)\<rparr>))"

end
