(* ===== verification/Options.thy ===== *)
theory Options
  imports Replay_Steps Scheduler Latency_Fit
begin

text \<open>
  The command-line options the engine reads (\<^verbatim>\<open>src/src/lib.rs\<close>), and the constructors that turn
  them into a latency model, a token source and a step source. The replay inputs are the
  contents of the files the options name, already read: tokenized dataset rows, trace records
  with the trace's block size, and the records of the latency trace or the error of reading it.
\<close>

datatype failure_type = FailError | FailLength | FailRepetition

fun failure_finish_reason :: "failure_type \<Rightarrow> finish_reason" where
  "failure_finish_reason FailError = FError"
| "failure_finish_reason FailLength = FLength"
| "failure_finish_reason FailRepetition = FRepetition"

datatype pd_role = RolePrefill | RoleDecode | RoleBoth

datatype replay_input =
    DatasetInput "(u32 list \<times> u32 list) list" nat
  | TraceInput "nat option" "trace_record list"

record opt =
  o_engine_id :: string
  o_pd_role :: pd_role
  o_output_token_chunk_size :: nat
  o_vocab_size :: nat
  o_replay_tokens :: "replay_input option"
  o_replay_steps :: "(nat option \<times> trace_record list) option"
  o_replay_match :: replay_match
  o_seed :: u64
  o_kv_block_bytes :: nat
  o_tokens_per_block :: nat
  o_side_channel_host :: string
  o_side_channel_port :: nat
  o_log_requests :: bool
  o_latency_trace :: "trace_record list result option"
  o_time_to_first_token :: nat
  o_time_to_first_token_std_dev :: nat
  o_inter_token_latency :: nat
  o_inter_token_latency_std_dev :: nat
  o_prefill_overhead :: nat
  o_prefill_time_per_token :: nat
  o_prefill_time_std_dev :: nat
  o_kv_cache_transfer_latency :: nat
  o_kv_cache_transfer_latency_std_dev :: nat
  o_kv_cache_transfer_time_per_token :: nat
  o_kv_cache_transfer_time_std_dev :: nat
  o_time_factor_under_load :: f64
  o_max_num_seqs :: nat
  o_max_num_batched_tokens :: nat
  o_long_prefill_token_threshold :: nat
  o_scheduling_policy :: scheduling_policy
  o_kv_cache_size :: nat
  o_max_loras :: nat
  o_enable_kv_cache_events :: bool
  o_kv_events_endpoint :: string
  o_kv_events_topic :: string
  o_model_name :: string
  o_kv_cache_none_seed :: u64
  o_max_model_len :: nat
  o_failure_injection_rate :: f64
  o_time_scale :: f64
  o_failure_types :: "failure_type list"

section \<open>Names and endpoints\<close>

text \<open>\<^verbatim>\<open>str::rsplit_once\<close> on one character.\<close>

definition rsplit_once :: "char \<Rightarrow> string \<Rightarrow> (string \<times> string) option" where
  "rsplit_once c s =
     (if c \<in> set s
      then (let tail = rev (takeWhile (\<lambda>x. x \<noteq> c) (rev s))
            in Some (take (length s - length tail - 1) s, tail))
      else None)"

definition parse_u32 :: "string \<Rightarrow> nat option" where
  "parse_u32 s = (case parse_usize s of None \<Rightarrow> None | Some v \<Rightarrow> if v < 2 ^ 32 then Some v else None)"

definition offset_endpoint_port :: "string \<Rightarrow> nat \<Rightarrow> string" where
  "offset_endpoint_port endpoint n =
     (if n = 0 \<or> take 6 endpoint \<noteq> ''tcp://'' then endpoint
      else case rsplit_once CHR '':'' endpoint of
             None \<Rightarrow> endpoint
           | Some (base, port) \<Rightarrow>
               (case parse_u32 port of
                  None \<Rightarrow> endpoint
                | Some p \<Rightarrow> base @ '':'' @ nat_str ((p + n) mod 2 ^ 32)))"

definition pod_id :: "opt \<Rightarrow> nat \<Rightarrow> string" where
  "pod_id cfg engine_index =
     (if engine_index = 0 then o_engine_id cfg else o_engine_id cfg @ ''-'' @ nat_str engine_index)"

record kv_events_config =
  kc_enabled :: bool
  kc_endpoint :: string
  kc_topic :: string

definition kv_events_config_of :: "opt \<Rightarrow> nat \<Rightarrow> kv_events_config" where
  "kv_events_config_of cfg engine_index =
     \<lparr>kc_enabled = o_enable_kv_cache_events cfg,
      kc_endpoint = offset_endpoint_port (o_kv_events_endpoint cfg) engine_index,
      kc_topic = (if o_kv_events_topic cfg \<noteq> [] then o_kv_events_topic cfg
                  else ''kv@'' @ pod_id cfg engine_index @ ''@'' @ o_model_name cfg)\<rparr>"

section \<open>Building the strategies\<close>

definition latency_model_of :: "opt \<Rightarrow> knob_latency" where
  "latency_model_of cfg =
     \<lparr>kl_time_to_first_token = o_time_to_first_token cfg,
      kl_time_to_first_token_std_dev = o_time_to_first_token_std_dev cfg,
      kl_inter_token_latency = o_inter_token_latency cfg,
      kl_inter_token_latency_std_dev = o_inter_token_latency_std_dev cfg,
      kl_prefill_overhead = o_prefill_overhead cfg,
      kl_prefill_time_per_token = o_prefill_time_per_token cfg,
      kl_prefill_time_std_dev = o_prefill_time_std_dev cfg,
      kl_kv_cache_transfer_latency = o_kv_cache_transfer_latency cfg,
      kl_kv_cache_transfer_latency_std_dev = o_kv_cache_transfer_latency_std_dev cfg,
      kl_kv_cache_transfer_time_per_token = o_kv_cache_transfer_time_per_token cfg,
      kl_kv_cache_transfer_time_std_dev = o_kv_cache_transfer_time_std_dev cfg,
      kl_time_factor_under_load = o_time_factor_under_load cfg,
      kl_max_num_seqs = o_max_num_seqs cfg\<rparr>"

definition has_timing_knobs :: "opt \<Rightarrow> bool" where
  "has_timing_knobs cfg \<longleftrightarrow>
     o_time_to_first_token cfg \<noteq> 0 \<or> o_time_to_first_token_std_dev cfg \<noteq> 0 \<or>
     o_inter_token_latency cfg \<noteq> 0 \<or> o_inter_token_latency_std_dev cfg \<noteq> 0 \<or>
     o_prefill_overhead cfg \<noteq> 0 \<or> o_prefill_time_per_token cfg \<noteq> 0 \<or> o_prefill_time_std_dev cfg \<noteq> 0"

definition build_latency :: "opt \<Rightarrow> latency_model result" where
  "build_latency cfg =
     (case o_latency_trace cfg of
        None \<Rightarrow> Inr (KnobLatency (latency_model_of cfg))
      | Some trace \<Rightarrow>
          if has_timing_knobs cfg then Inl ''--latency-trace is mutually exclusive with timing knobs''
          else bind_result trace (\<lambda>records.
            map_sum (\<lambda>e. e) TraceLatency
              (trace_latency_from_records records (latency_model_of cfg) (o_max_num_batched_tokens cfg))))"

definition has_hashes :: "trace_record list \<Rightarrow> bool" where
  "has_hashes rs \<longleftrightarrow> (\<exists>r \<in> set rs. case tr_block_hashes r of None \<Rightarrow> False | Some h \<Rightarrow> h \<noteq> [])"

definition build_token_source :: "opt \<Rightarrow> Tokens.token_source result" where
  "build_token_source cfg =
     (case o_replay_tokens cfg of
        None \<Rightarrow> Inr (RandomTokens (o_vocab_size cfg))
      | Some (DatasetInput rows vocab) \<Rightarrow>
          if o_replay_match cfg = MatchPrefix \<and> o_model_name cfg = []
          then Inl ''--replay-tokens with a dataset and --replay-match prefix requires --model-name''
          else map_sum (\<lambda>e. e) DatasetTokens
                 (dataset_from_tokenized rows (o_tokens_per_block cfg) (o_replay_match cfg) vocab)
      | Some (TraceInput meta_block_size records) \<Rightarrow>
          (let subset = replay_subset records in
           if subset = [] then Inl ''--replay-tokens trace has no records with arrival_ms''
           else if (\<forall>r \<in> set subset. tr_output_token_ids r = None)
           then Inl ''--replay-tokens trace has no output_token_ids''
           else case o_replay_match cfg of
                  MatchIndex \<Rightarrow> Inr (ReplayTokens (replay_from_records subset (o_vocab_size cfg)))
                | MatchPrefix \<Rightarrow>
                    if \<not> has_hashes subset then Inl ''--replay-match prefix needs block_hashes''
                    else Inr (PrefixMatchTokens (prefix_from_records subset
                           (case meta_block_size of None \<Rightarrow> o_tokens_per_block cfg | Some b \<Rightarrow> b)
                           (o_vocab_size cfg)))))"

definition build_step_source :: "opt \<Rightarrow> step_source option result" where
  "build_step_source cfg =
     (case o_replay_steps cfg of
        None \<Rightarrow> Inr None
      | Some (meta_block_size, records) \<Rightarrow>
          (let subset = replay_subset records in
           if subset = [] then Inl ''--replay-steps trace has no records with arrival_ms''
           else if (\<forall>r \<in> set subset. tr_itl_ms r = None) then Inl ''--replay-steps trace has no itl_ms''
           else case o_replay_match cfg of
                  MatchIndex \<Rightarrow> Inr (Some (IndexSteps (index_steps_from_records subset)))
                | MatchPrefix \<Rightarrow>
                    if \<not> has_hashes subset then Inl ''--replay-match prefix needs block_hashes''
                    else Inr (Some (PrefixSteps (prefix_steps_from_records subset
                           (case meta_block_size of None \<Rightarrow> o_tokens_per_block cfg | Some b \<Rightarrow> b))))))"

lemma map_sum_Inr: "map_sum f g x = Inr y \<longleftrightarrow> (\<exists>z. x = Inr z \<and> y = g z)"
  by (cases x) auto

lemma build_token_source_ok: "build_token_source cfg = Inr src \<Longrightarrow> source_ok src"
  using prefix_from_records_ok dataset_from_tokenized_ok
  by (auto simp: build_token_source_def Let_def map_sum_Inr simp del: source_ok.simps(3,4)
      split: option.splits replay_input.splits if_splits replay_match.splits)

lemma build_step_source_ok:
  assumes "build_step_source cfg = Inr (Some src)"
    and "\<And>b records. o_replay_steps cfg = Some (b, records) \<Longrightarrow> lengths_ok records"
  shows "step_source_ok src"
proof -
  have "lengths_ok (replay_subset records)" if "o_replay_steps cfg = Some (b, records)" for b records
    using assms(2) [OF that] by (simp add: lengths_ok_def replay_subset_def)
  then show ?thesis
    using assms(1) from_records_steps_ok
    by (auto simp: build_step_source_def Let_def simp del: step_source_ok.simps
      split: option.splits if_splits replay_match.splits)
qed

end
