(* ===== verification/Control.thy ===== *)
theory Control
  imports Options
begin

text \<open>
  The control plane (\<^verbatim>\<open>src/src/control.rs\<close>): the runtime configuration, its patches and their
  validation, the request counters, and the fan-out of a control call to every engine. The HTTP
  server around it is external.
\<close>

record config =
  c_time_to_first_token :: nat
  c_time_to_first_token_std_dev :: nat
  c_inter_token_latency :: nat
  c_inter_token_latency_std_dev :: nat
  c_prefill_overhead :: nat
  c_prefill_time_per_token :: nat
  c_prefill_time_std_dev :: nat
  c_time_factor_under_load :: f64
  c_max_num_seqs :: nat
  c_max_num_batched_tokens :: nat
  c_max_model_len :: nat
  c_failure_injection_rate :: f64
  c_failure_types :: "failure_type list"
  c_log_requests :: bool

record config_patch =
  p_time_to_first_token :: "nat option"
  p_time_to_first_token_std_dev :: "nat option"
  p_inter_token_latency :: "nat option"
  p_inter_token_latency_std_dev :: "nat option"
  p_prefill_overhead :: "nat option"
  p_prefill_time_per_token :: "nat option"
  p_prefill_time_std_dev :: "nat option"
  p_time_factor_under_load :: "f64 option"
  p_max_num_seqs :: "nat option"
  p_max_num_batched_tokens :: "nat option"
  p_max_model_len :: "nat option"
  p_failure_injection_rate :: "f64 option"
  p_failure_types :: "failure_type list option"
  p_log_requests :: "bool option"

record stats =
  requests_received :: nat
  requests_completed :: nat
  requests_failed :: nat
  requests_aborted :: nat
  st_running :: nat
  st_waiting :: nat

definition default_stats :: stats where
  "default_stats = \<lparr>requests_received = 0, requests_completed = 0, requests_failed = 0,
     requests_aborted = 0, st_running = 0, st_waiting = 0\<rparr>"

datatype control_request = GetConfig | PatchConfig config_patch | GetStats | ResetStats

datatype control_reply = ReplyConfig config | ReplyStats stats

record control_error =
  ce_status :: nat
  ce_error :: string

definition ce_conflict :: "string \<Rightarrow> control_error" where
  "ce_conflict msg = \<lparr>ce_status = 409, ce_error = msg\<rparr>"

definition ce_bad_request :: "string \<Rightarrow> control_error" where
  "ce_bad_request msg = \<lparr>ce_status = 400, ce_error = msg\<rparr>"

definition ce_internal :: "string \<Rightarrow> control_error" where
  "ce_internal msg = \<lparr>ce_status = 500, ce_error = msg\<rparr>"

definition changes_latency :: "config_patch \<Rightarrow> bool" where
  "changes_latency p \<longleftrightarrow>
     p_time_to_first_token p \<noteq> None \<or> p_time_to_first_token_std_dev p \<noteq> None \<or>
     p_inter_token_latency p \<noteq> None \<or> p_inter_token_latency_std_dev p \<noteq> None \<or>
     p_prefill_overhead p \<noteq> None \<or> p_prefill_time_per_token p \<noteq> None \<or>
     p_prefill_time_std_dev p \<noteq> None \<or> p_time_factor_under_load p \<noteq> None \<or>
     p_max_num_seqs p \<noteq> None"

definition validate_patch :: "config_patch \<Rightarrow> control_error + unit" where
  "validate_patch p =
     (if (case p_failure_injection_rate p of None \<Rightarrow> False | Some rate \<Rightarrow> \<not> (0 \<le> rate \<and> rate \<le> 1))
      then Inl (ce_bad_request ''failure_injection_rate must be in [0, 1]'')
      else if (case p_time_factor_under_load p of None \<Rightarrow> False | Some factor \<Rightarrow> factor < 1)
      then Inl (ce_bad_request ''time_factor_under_load must be >= 1.0'')
      else if p_failure_types p = Some []
      then Inl (ce_bad_request ''failure_types must name at least one type'')
      else Inr ())"

definition add_stats :: "stats \<Rightarrow> stats \<Rightarrow> stats" where
  "add_stats s t =
     \<lparr>requests_received = requests_received s + requests_received t,
      requests_completed = requests_completed s + requests_completed t,
      requests_failed = requests_failed s + requests_failed t,
      requests_aborted = requests_aborted s + requests_aborted t,
      st_running = st_running s + st_running t,
      st_waiting = st_waiting s + st_waiting t\<rparr>"

section \<open>Fan-out to the engines\<close>

text \<open>
  \<^verbatim>\<open>Engines::broadcast\<close>: the engines in order, each handling the request in turn; the first
  error ends the fan-out, after the engines before it have handled the request.
\<close>

fun broadcast ::
  "('e \<Rightarrow> control_request \<Rightarrow> (control_error + control_reply) \<times> 'e) \<Rightarrow> 'e list \<Rightarrow> control_request \<Rightarrow>
   (control_error + control_reply list) \<times> 'e list" where
  "broadcast call [] request = (Inr [], [])"
| "broadcast call (e # es) request =
     (case call e request of
        (Inl err, e') \<Rightarrow> (Inl err, e' # es)
      | (Inr reply, e') \<Rightarrow>
          (case broadcast call es request of
             (Inl err, es') \<Rightarrow> (Inl err, e' # es')
           | (Inr replies, es') \<Rightarrow> (Inr (reply # replies), e' # es')))"

fun first_config :: "control_reply list \<Rightarrow> control_error + config" where
  "first_config (ReplyConfig c # _) = Inr c"
| "first_config _ = Inl (ce_internal ''engine returned no config'')"

definition get_config where
  "get_config call es =
     (case broadcast call es GetConfig of
        (Inl err, es') \<Rightarrow> (Inl err, es')
      | (Inr replies, es') \<Rightarrow> (first_config replies, es'))"

definition patch_config where
  "patch_config call es patch =
     (case validate_patch patch of
        Inl err \<Rightarrow> (Inl err, es)
      | Inr _ \<Rightarrow>
          (case broadcast call es (PatchConfig patch) of
             (Inl err, es') \<Rightarrow> (Inl err, es')
           | (Inr replies, es') \<Rightarrow> (first_config replies, es')))"

definition add_reply :: "control_reply \<Rightarrow> stats \<Rightarrow> stats" where
  "add_reply reply t = (case reply of ReplyStats s \<Rightarrow> add_stats t s | ReplyConfig _ \<Rightarrow> t)"

definition get_stats where
  "get_stats call es =
     (case broadcast call es GetStats of
        (Inl err, es') \<Rightarrow> (Inl err, es')
      | (Inr replies, es') \<Rightarrow> (Inr (fold add_reply replies default_stats), es'))"

definition reset_stats where
  "reset_stats call es =
     (case broadcast call es ResetStats of
        (Inl err, es') \<Rightarrow> (Inl err, es')
      | (Inr _, es') \<Rightarrow> (Inr (), es'))"

section \<open>Lemmas\<close>

text \<open>When every engine answers, each handles the request once and the replies come in engine order.\<close>

lemma broadcast_all:
  assumes "\<And>e. e \<in> set es \<Longrightarrow> fst (call e request) = Inr (reply e)"
  shows "broadcast call es request = (Inr (map reply es), map (\<lambda>e. snd (call e request)) es)"
  using assms
proof (induction es)
  case (Cons e es)
  obtain e' where "call e request = (Inr (reply e), e')"
    using Cons.prems [of e] by (metis list.set_intros(1) prod.collapse)
  with Cons.IH Cons.prems show ?case by simp
qed simp

lemma fold_add_reply:
  "requests_received (fold add_reply (map ReplyStats ss) t) = requests_received t + sum_list (map requests_received ss) \<and>
   requests_completed (fold add_reply (map ReplyStats ss) t) = requests_completed t + sum_list (map requests_completed ss) \<and>
   requests_failed (fold add_reply (map ReplyStats ss) t) = requests_failed t + sum_list (map requests_failed ss) \<and>
   requests_aborted (fold add_reply (map ReplyStats ss) t) = requests_aborted t + sum_list (map requests_aborted ss) \<and>
   st_running (fold add_reply (map ReplyStats ss) t) = st_running t + sum_list (map st_running ss) \<and>
   st_waiting (fold add_reply (map ReplyStats ss) t) = st_waiting t + sum_list (map st_waiting ss)"
  by (induction ss arbitrary: t) (auto simp: add_reply_def add_stats_def)

lemma validate_patch_Inr:
  "validate_patch p = Inr () \<longleftrightarrow>
     (\<forall>r. p_failure_injection_rate p = Some r \<longrightarrow> 0 \<le> r \<and> r \<le> 1) \<and>
     (\<forall>f. p_time_factor_under_load p = Some f \<longrightarrow> 1 \<le> f) \<and> p_failure_types p \<noteq> Some []"
  by (auto simp: validate_patch_def split: option.splits if_splits)

end
