(* ===== verification/Data_Plane.thy ===== *)
theory Data_Plane
  imports Options
begin

text \<open>
  The KV data plane's control side (\<^verbatim>\<open>src/src/dataplane.rs\<close>): the pool descriptor served over the
  side channel (at the level of msgpack values), the per-request fill pattern, and the no-op plane
  of the default build. The NIXL-backed plane calls an external library.
\<close>

record nixl_config =
  nc_kv_block_bytes :: nat
  nc_kv_cache_blocks :: nat
  nc_engine_id :: string
  nc_side_channel_host :: string
  nc_side_channel_port :: nat

record pool_descriptor =
  pd_engine_id :: string
  pd_nixl_agent_md :: "u8 list"
  pd_pool_base :: nat
  pd_block_bytes :: nat
  pd_num_blocks :: nat

definition descriptor_encode :: "pool_descriptor \<Rightarrow> msgpack" where
  "descriptor_encode d =
     MArray [MString (pd_engine_id d), MBinary (pd_nixl_agent_md d), MInt (int (pd_pool_base d)),
             MInt (int (pd_block_bytes d)), MInt (int (pd_num_blocks d))]"

definition with_context :: "string \<Rightarrow> 'a option \<Rightarrow> 'a result" where
  "with_context msg x = (case x of None \<Rightarrow> Inl msg | Some v \<Rightarrow> Inr v)"

fun descriptor_decode :: "msgpack \<Rightarrow> pool_descriptor result" where
  "descriptor_decode (MArray fs) =
     (if length fs < 5 then Inl ''pool descriptor has too few fields, need 5''
      else bind_result (with_context ''pool descriptor engine_id'' (msgpack_as_str (fs ! 0))) (\<lambda>engine_id.
           bind_result (case fs ! 1 of MBinary b \<Rightarrow> Inr b
                        | _ \<Rightarrow> Inl ''pool descriptor nixl_agent_md is not binary'') (\<lambda>md.
           bind_result (with_context ''pool descriptor pool_base'' (msgpack_as_u64 (fs ! 2))) (\<lambda>pool_base.
           bind_result (with_context ''pool descriptor block_bytes'' (msgpack_as_u64 (fs ! 3))) (\<lambda>block_bytes.
           bind_result (with_context ''pool descriptor num_blocks'' (msgpack_as_u64 (fs ! 4))) (\<lambda>num_blocks.
           Inr \<lparr>pd_engine_id = engine_id, pd_nixl_agent_md = md, pd_pool_base = pool_base,
                pd_block_bytes = block_bytes, pd_num_blocks = num_blocks\<rparr>))))))"
| "descriptor_decode _ = Inl ''pool descriptor is not an array''"

definition pattern_for :: "string \<Rightarrow> u8" where
  "pattern_for request_id = fold (\<lambda>c acc. acc + of_nat (of_char c)) request_id 0xa5 OR 1"

record request_kv =
  rkv_request_id :: string
  rkv_num_tokens :: nat
  rkv_block_ids :: "nat list"

definition i64_of_usize :: "nat \<Rightarrow> int" where
  "i64_of_usize n =
     (let m = n mod 2 ^ 64 in if m < 2 ^ 63 then int m else int m - 2 ^ 64)"

definition noop_advertise_prefilled :: "nixl_config \<Rightarrow> request_kv \<Rightarrow> remote_kv result" where
  "noop_advertise_prefilled cfg kv =
     Inr \<lparr>rk_engine_id = nc_engine_id cfg, rk_host = nc_side_channel_host cfg,
          rk_port = nc_side_channel_port cfg, rk_block_ids = map i64_of_usize (rkv_block_ids kv),
          rk_request_id = rkv_request_id kv\<rparr>"

definition noop_pull_prefilled :: "request_kv \<Rightarrow> remote_kv \<Rightarrow> nat result" where
  "noop_pull_prefilled kv remote = Inr 0"

definition nixl_config_of :: "opt \<Rightarrow> nat \<Rightarrow> nixl_config" where
  "nixl_config_of cfg engine_index =
     \<lparr>nc_kv_block_bytes = o_kv_block_bytes cfg, nc_kv_cache_blocks = o_kv_cache_size cfg,
      nc_engine_id = o_engine_id cfg, nc_side_channel_host = o_side_channel_host cfg,
      nc_side_channel_port = o_side_channel_port cfg + engine_index\<rparr>"

section \<open>Properties\<close>

text \<open>A pool descriptor whose addresses and sizes fit 64 bits is decoded back unchanged, also when
  a peer appends fields it does not know.\<close>

theorem descriptor_round_trip:
  assumes "pd_pool_base d < 2 ^ 64" "pd_block_bytes d < 2 ^ 64" "pd_num_blocks d < 2 ^ 64"
    "descriptor_encode d = MArray fs"
  shows "descriptor_decode (MArray (fs @ extra)) = Inr d"
  using assms by (auto simp: descriptor_encode_def with_context_def bind_result_def)

theorem descriptor_round_trip_witness:
  "descriptor_decode (MArray [MString ''e'', MBinary [1], MInt 4096, MInt 16, MInt 8, MNil]) =
     Inr \<lparr>pd_engine_id = ''e'', pd_nixl_agent_md = [1], pd_pool_base = 4096, pd_block_bytes = 16, pd_num_blocks = 8\<rparr>"
  using descriptor_round_trip [of
      "\<lparr>pd_engine_id = ''e'', pd_nixl_agent_md = [1], pd_pool_base = 4096, pd_block_bytes = 16, pd_num_blocks = 8\<rparr>"
      "[MString ''e'', MBinary [1], MInt 4096, MInt 16, MInt 8]" "[MNil]"]
  by (simp add: descriptor_encode_def)

lemma i64_small: "n < 2 ^ 63 \<Longrightarrow> i64_of_usize n = int n"
  by (simp add: i64_of_usize_def)

end
