(* ===== verification/Lora.thy ===== *)
theory Lora
  imports Protocol
begin

text \<open>
  LoRA adapter bookkeeping (\<^verbatim>\<open>src/src/lora.rs\<close>): the identity read off an \<^verbatim>\<open>add_lora\<close> call,
  the registry of loaded adapters and the admission rule of the running-batch slot cap.
\<close>

record lora_spec =
  spec_name :: string
  spec_int_id :: nat

definition lora_from_wire :: "msgpack \<Rightarrow> lora_spec result" where
  "lora_from_wire value =
     (case value of
        MArray fs \<Rightarrow>
          (case Option.bind (if fs = [] then None else Some (hd fs)) msgpack_as_str of
             None \<Rightarrow> Inl ''lora_request[0] (lora_name) missing or not a string''
           | Some name \<Rightarrow>
               (case Option.bind (if 1 < length fs then Some (fs ! 1) else None) msgpack_as_u64 of
                  None \<Rightarrow> Inl ''lora_request[1] (lora_int_id) missing or not an integer''
                | Some i \<Rightarrow> Inr \<lparr>spec_name = name, spec_int_id = i\<rparr>))
      | _ \<Rightarrow> Inl ''lora_request is not a positional array'')"

text \<open>The derived tuple encoding of a spec.\<close>

definition lora_to_wire :: "lora_spec \<Rightarrow> msgpack" where
  "lora_to_wire l = MArray [MString (spec_name l), MInt (int (spec_int_id l))]"

definition request_lora_name :: "engine_request \<Rightarrow> string option" where
  "request_lora_name request = map_option fst (req_lora request)"

record lora_registry =
  loaded :: "(nat, string) btree"
  max_loras :: nat

definition new_registry :: "nat \<Rightarrow> lora_registry" where
  "new_registry cap = \<lparr>loaded = [], max_loras = cap\<rparr>"

definition lora_add :: "lora_spec \<Rightarrow> lora_registry \<Rightarrow> bool \<times> lora_registry" where
  "lora_add l r = (True, r\<lparr>loaded := bt_insert (spec_int_id l) (spec_name l) (loaded r)\<rparr>)"

definition lora_remove :: "nat \<Rightarrow> lora_registry \<Rightarrow> bool \<times> lora_registry" where
  "lora_remove i r = (bt_get (loaded r) i \<noteq> None, r\<lparr>loaded := bt_remove i (loaded r)\<rparr>)"

definition admits :: "lora_registry \<Rightarrow> string option \<Rightarrow> string list \<Rightarrow> bool" where
  "admits r lora running =
     (if max_loras r = 0 then True
      else case lora of
             None \<Rightarrow> True
           | Some name \<Rightarrow> name \<in> set running \<or> card (set running) < max_loras r)"

section \<open>Properties\<close>

text \<open>An adapter identity is read off the wire whatever trailing fields a vLLM line appends, and
  the encoding of a spec reads back as that spec (ids are 64-bit).\<close>

theorem lora_wire_round_trip:
  assumes "spec_int_id l < 2 ^ 64"
  shows "lora_from_wire (lora_to_wire l) = Inr l \<and>
    lora_from_wire (MArray (MString (spec_name l) # MInt (int (spec_int_id l)) # rest)) = Inr l"
proof -
  have "int (spec_int_id l) < 2 ^ 64"
    using assms by (metis of_nat_less_iff of_nat_numeral of_nat_power)
  then show ?thesis by (simp add: lora_from_wire_def lora_to_wire_def)
qed

theorem lora_wire_round_trip_witness:
  "lora_from_wire (lora_to_wire \<lparr>spec_name = ''a'', spec_int_id = 7\<rparr>) =
     Inr \<lparr>spec_name = ''a'', spec_int_id = 7\<rparr>"
  using lora_wire_round_trip [of "\<lparr>spec_name = ''a'', spec_int_id = 7\<rparr>"] by simp

text \<open>Loading an adapter always succeeds and makes it present; removing one reports whether it was
  present, and a second removal reports that it is gone.\<close>

theorem lora_add_remove:
  "fst (lora_add l r) \<and> bt_get (loaded (snd (lora_add l r))) (spec_int_id l) = Some (spec_name l) \<and>
   (fst (lora_remove i r) \<longleftrightarrow> bt_get (loaded r) i \<noteq> None) \<and>
   \<not> fst (lora_remove i (snd (lora_remove i r)))"
  by (simp add: lora_add_def lora_remove_def bt_get_insert bt_get_remove)

lemma admits_cap:
  assumes "0 < max_loras r" "admits r (Some name) running" "card (set running) \<le> max_loras r"
  shows "card (set (name # running)) \<le> max_loras r"
  using assms by (auto simp: admits_def card_insert_if)

lemma admits_capless [simp]: "max_loras r = 0 \<Longrightarrow> admits r lora running"
  by (simp add: admits_def)

end
