(* ===== verification/Engine.thy ===== *)
theory Engine
  imports Control Data_Plane Lora Cache_Prompt "HOL-Library.Product_Lexorder"
begin

text \<open>
  The generation engine (\<^verbatim>\<open>src/src/engine.rs\<close>): requests on the engine step clock, admission
  against the sequence cap, the token budget and the LoRA slot cap, composition and completion
  of steps, emission of due chunks, aborts, utility and control calls.

  The engine is a value that every handler returns updated. Its collaborators that are not
  Rust code of this repository are parameters gathered in a \<open>world\<close>: the random generator, the
  hash behind a request's seed, and the data plane's advertisement of a prefilled request. One
  clock reading is taken per handler. Published KV events, spawned pulls and control
  replies are logs, the effects of the handler; log lines are not modelled.
\<close>

section \<open>Clock and world\<close>

record clock =
  clk_now :: instant
  clk_monotonic :: f64

record 'r world =
  w_rng :: "'r rng_ops"
  w_request_hash :: "u64 \<Rightarrow> nat \<Rightarrow> string \<Rightarrow> u64"
  w_advertise :: "request_kv \<Rightarrow> remote_kv result"

section \<open>State\<close>

datatype req_phase = Prefill (remaining: nat) | Decode

record pending_emit =
  pe_due :: instant
  pe_seq :: nat
  pe_tokens :: "u32 list"

record 'r active_request =
  a_id :: string
  a_client :: nat
  a_prompt_len :: nat
  a_prompt :: "u32 list"
  a_max_tokens :: nat
  a_generated :: nat
  a_rng :: 'r
  a_pacing :: decode_pacing
  a_prefill_advertise :: bool
  a_remote_prefill :: bool
  a_num_local_cached :: nat
  a_block_ids :: "nat list"
  a_lora :: "string option"
  a_phase :: req_phase
  a_emitted :: nat
  a_emit_offset :: duration
  a_pending_emits :: "pending_emit list"
  a_pending_events :: "engine_event list"
  a_scripted :: "scripted_decode option"

record admission_ctx =
  ad_num_running :: nat
  ad_num_local_cached :: nat
  ad_block_ids :: "nat list"
  ad_churn :: churn
  ad_queued_at :: f64

record pending_pull =
  pp_queued :: queued_request
  pp_block_ids :: "nat list"
  pp_num_local_cached :: nat
  pp_client :: nat
  pp_lora :: "string option"

record engine_step =
  es_end :: instant
  es_decoders :: "(string \<times> nat) list"
  es_chunks :: "(string \<times> nat) list"

record 'r sim_engine =
  e_index :: nat
  e_opt :: opt
  e_latency :: latency_model
  e_tokens :: Tokens.token_source
  e_step_source :: "step_source option"
  e_spec_tokens :: "nat option"
  e_policy :: scheduling_policy
  e_pool :: block_pool
  e_events_on :: bool
  e_published :: "kv_cache_event list"
  e_pulls :: "(request_kv \<times> remote_kv) list"
  e_replies :: "(control_error + control_reply) list"
  e_failure_rng :: 'r
  e_loras :: lora_registry
  e_active :: "(string, 'r active_request) btree"
  e_waiting :: "queued_request list"
  e_pending :: "(string, pending_pull) btree"
  e_step :: "engine_step option"
  e_prefill_order :: "string list"
  e_emit_seq :: nat
  e_recent_big :: "instant list"
  e_pending_spec :: "spec_decoding_stats option"
  e_stats :: stats

section \<open>Outputs\<close>

definition request_output :: "string \<Rightarrow> u32 list \<Rightarrow> finish_reason option \<Rightarrow> engine_core_output" where
  "request_output rid toks fin =
     \<lparr>out_id = rid, out_tokens = toks, out_finish = fin, out_prefill_stats = None,
      out_lifecycle = None, out_kv_params = None\<rparr>"

definition empty_finish_outputs :: "clock \<Rightarrow> nat \<Rightarrow> string \<Rightarrow> finish_reason \<Rightarrow> envelope" where
  "empty_finish_outputs clk engine_index rid reason =
     RequestBatch engine_index [request_output rid [] (Some reason)] None (clk_monotonic clk) (Some [rid])"

record utility_request =
  u_client :: nat
  u_call_id :: nat
  u_method :: string
  u_args :: msgpack

definition utility_result_outputs :: "clock \<Rightarrow> nat \<Rightarrow> nat \<Rightarrow> msgpack \<Rightarrow> envelope" where
  "utility_result_outputs clk engine_index call_id result =
     UtilityCall engine_index (clk_monotonic clk) call_id result"

definition utility_response :: "clock \<Rightarrow> nat \<Rightarrow> utility_request \<Rightarrow> envelope" where
  "utility_response clk engine_index request =
     (let result =
        (if u_method request = ''get_supported_tasks'' then MArray [MString ''generate'']
         else if u_method request = ''is_sleeping'' then MBool False
         else MNil)
      in utility_result_outputs clk engine_index (u_call_id request) result)"

section \<open>One request\<close>

definition request_seed :: "'r world \<Rightarrow> u64 \<Rightarrow> nat \<Rightarrow> string \<Rightarrow> u64" where
  "request_seed W base_seed engine_index rid = w_request_hash W base_seed engine_index rid"

definition DEFAULT_MOCK_MAX_MODEL_LEN :: nat where
  "DEFAULT_MOCK_MAX_MODEL_LEN = 1024 * 1024"

definition prompt_of :: "engine_request \<Rightarrow> u32 list" where
  "prompt_of request = (case req_prompt request of None \<Rightarrow> [] | Some p \<Rightarrow> p)"

definition kv_request_flag :: "engine_request \<Rightarrow> string \<Rightarrow> bool" where
  "kv_request_flag request key =
     (case extract_kv_params request of None \<Rightarrow> False | Some kv \<Rightarrow> kv_flag kv key)"

text \<open>The length cap a latency model samples for a request that would stop on end-of-sequence.\<close>

definition eos_capped ::
  "'r world \<Rightarrow> opt \<Rightarrow> latency_model \<Rightarrow> nat \<Rightarrow> sampling_params \<Rightarrow> 'r \<Rightarrow> nat \<times> 'r" where
  "eos_capped W cfg lat prompt_len sp rng =
     (let max_tokens = sp_max_tokens sp;
          max_model_len = (if o_max_model_len cfg > 0 then o_max_model_len cfg else DEFAULT_MOCK_MAX_MODEL_LEN);
          eos_terminable = (sp_eos_token_id sp \<noteq> None);
          open_ended = (prompt_len + max_tokens \<ge> max_model_len);
          verbatim = (o_replay_steps cfg \<noteq> None \<or> o_replay_tokens cfg \<noteq> None)
      in if verbatim \<or> \<not> (eos_terminable \<or> open_ended) then (max_tokens, rng)
         else case sample_output_len (w_rng W) lat rng of
                (Some sampled, rng) \<Rightarrow>
                  (let lo = max (sp_min_tokens sp) 1
                   in (max lo (min sampled (max max_tokens lo)), rng))
              | (None, rng) \<Rightarrow> (max_tokens, rng))"

definition active_new ::
  "'r world \<Rightarrow> clock \<Rightarrow> nat \<Rightarrow> engine_request \<Rightarrow> opt \<Rightarrow> latency_model \<Rightarrow> admission_ctx \<Rightarrow>
   finish_reason + 'r active_request" where
  "active_new W clk engine_index request cfg lat adm =
     (let prompt = prompt_of request;
          prompt_len = length prompt;
          remote_prefill = kv_request_flag request ''do_remote_prefill''
      in case req_sampling request of
           None \<Rightarrow> Inl FError
         | Some sp \<Rightarrow>
             if sp_max_tokens sp = 0 then Inl FLength
             else
               let rng = seed_from_u64 (w_rng W) (request_seed W (o_seed cfg) engine_index (req_id request));
                   (max_tokens, rng) = eos_capped W cfg lat prompt_len sp rng;
                   (phase, emit_offset, rng) =
                     (if remote_prefill
                      then (let (off, rng) = first_token_overhead (w_rng W) lat rng
                              \<lparr>ft_num_prompt_tokens = prompt_len, ft_num_cached_tokens = ad_num_local_cached adm,
                               ft_do_remote_prefill = True, ft_num_running = ad_num_running adm\<rparr>
                            in (Decode, off, rng))
                      else (Prefill (max (prompt_len - ad_num_local_cached adm) 1), 0, rng))
               in Inr \<lparr>a_id = req_id request, a_client = req_client request, a_prompt_len = prompt_len,
                       a_prompt = prompt, a_max_tokens = max_tokens, a_generated = 0, a_rng = rng,
                       a_pacing = for_prompt prompt_len (ad_churn adm),
                       a_prefill_advertise = kv_request_flag request ''do_remote_decode'',
                       a_remote_prefill = remote_prefill,
                       a_num_local_cached = ad_num_local_cached adm,
                       a_block_ids = ad_block_ids adm, a_lora = request_lora_name request,
                       a_phase = phase, a_emitted = 0, a_emit_offset = emit_offset,
                       a_pending_emits = [],
                       a_pending_events = [\<lparr>ev_type = EQueued, ev_timestamp = ad_queued_at adm\<rparr>,
                                           \<lparr>ev_type = EScheduled, ev_timestamp = clk_monotonic clk\<rparr>],
                       a_scripted = None\<rparr>)"

definition chunk_len :: "'r active_request \<Rightarrow> nat \<Rightarrow> nat" where
  "chunk_len r output_token_chunk_size = min (a_max_tokens r - a_generated r) output_token_chunk_size"

definition is_generating :: "'r active_request \<Rightarrow> bool" where
  "is_generating r \<longleftrightarrow> a_generated r < a_max_tokens r"

definition generate ::
  "'r world \<Rightarrow> Tokens.token_source \<Rightarrow> instant \<Rightarrow> nat \<Rightarrow> f64 \<Rightarrow> nat \<Rightarrow> 'r active_request \<Rightarrow>
   Tokens.token_source \<times> 'r active_request" where
  "generate W src step_end output_token_chunk_size tscale seq r =
     (if chunk_len r output_token_chunk_size = 0 then (src, r)
      else let ctx = \<lparr>tc_request_id = a_id r, tc_prompt = a_prompt r, tc_num_generated = a_generated r\<rparr>;
               (toks, src, rng) = next_tokens (w_rng W) src ctx (chunk_len r output_token_chunk_size) (a_rng r)
           in (src, r\<lparr>a_rng := rng, a_generated := a_generated r + length toks,
                      a_pending_emits := a_pending_emits r @
                        [\<lparr>pe_due = step_end + div_f64 (a_emit_offset r) tscale, pe_seq = seq, pe_tokens = toks\<rparr>]\<rparr>))"

definition prefill_stats_of :: "'r active_request \<Rightarrow> prefill_stats" where
  "prefill_stats_of r =
     (let prompt = a_prompt_len r;
          local = min (a_num_local_cached r) prompt;
          external = (if a_remote_prefill r then prompt - local else 0);
          cch = local + external
      in \<lparr>ps_num_prompt_tokens = prompt, ps_num_computed_tokens = prompt - cch,
          ps_num_cached_tokens = cch, ps_num_local_cached_tokens = local,
          ps_num_external_cached_tokens = external, ps_num_cache_creation_tokens = prompt - local\<rparr>)"

section \<open>Admission\<close>

definition maybe_fail :: "'r world \<Rightarrow> engine_request \<Rightarrow> 'r sim_engine \<Rightarrow> finish_reason option \<times> 'r sim_engine" where
  "maybe_fail W request e =
     (let cfg = e_opt e;
          max_tokens = (case req_sampling request of None \<Rightarrow> 0 | Some sp \<Rightarrow> sp_max_tokens sp)
      in if o_max_model_len cfg > 0 \<and> length (prompt_of request) + max_tokens > o_max_model_len cfg
         then (Some FLength, e)
         else if o_failure_injection_rate cfg > 0 \<and> o_failure_types cfg \<noteq> []
         then (let (u, rng) = rnd_f64 (w_rng W) (e_failure_rng e) in
               if u < o_failure_injection_rate cfg
               then (let (idx, rng) = rnd_range (w_rng W) (length (o_failure_types cfg)) rng
                     in (Some (failure_finish_reason (o_failure_types cfg ! idx)), e\<lparr>e_failure_rng := rng\<rparr>))
               else (None, e\<lparr>e_failure_rng := rng\<rparr>))
         else (None, e))"

definition publish :: "kv_cache_event list \<Rightarrow> 'r sim_engine \<Rightarrow> 'r sim_engine" where
  "publish evs e = (if e_events_on e then e\<lparr>e_published := e_published e @ evs\<rparr> else e)"

definition time_scale :: "'r sim_engine \<Rightarrow> f64" where
  "time_scale e = (if o_time_scale (e_opt e) > 0 then o_time_scale (e_opt e) else 1)"

definition num_in_batch :: "'r sim_engine \<Rightarrow> nat" where
  "num_in_batch e = length (e_active e) + length (e_pending e)"

text \<open>The replay pins: a matched stream or schedule ends the request at the recorded length.\<close>

definition pin_stream :: "'r active_request \<Rightarrow> 'r sim_engine \<Rightarrow> 'r active_request \<times> 'r sim_engine" where
  "pin_stream r e =
     (let (len, src) = on_request_added (e_tokens e) (a_id r) (a_prompt r)
      in (case len of None \<Rightarrow> r | Some n \<Rightarrow> r\<lparr>a_max_tokens := min (a_max_tokens r) n\<rparr>,
          e\<lparr>e_tokens := src\<rparr>))"

definition pin_schedule :: "'r active_request \<Rightarrow> 'r sim_engine \<Rightarrow> 'r active_request \<times> 'r sim_engine" where
  "pin_schedule r e =
     (case e_step_source e of
        None \<Rightarrow> (r, e)
      | Some s \<Rightarrow>
          (let (sch, s) = take_schedule s (a_id r) (a_prompt r)
           in (case sch of
                 None \<Rightarrow> r
               | Some sd \<Rightarrow> r\<lparr>a_max_tokens := min (a_max_tokens r) (output_tokens sd), a_scripted := Some sd\<rparr>,
               e\<lparr>e_step_source := Some s\<rparr>)))"

definition insert_active :: "instant \<Rightarrow> string \<Rightarrow> 'r active_request \<Rightarrow> 'r sim_engine \<Rightarrow> 'r sim_engine" where
  "insert_active admit_now rid r e =
     (let e = (case a_phase r of
          Prefill rem \<Rightarrow>
            (let e = (if rem > BIG_CHUNK_TOKENS then e\<lparr>e_recent_big := e_recent_big e @ [admit_now]\<rparr> else e)
             in e\<lparr>e_prefill_order := e_prefill_order e @ [rid]\<rparr>)
        | Decode \<Rightarrow> e)
      in e\<lparr>e_active := bt_insert rid r (e_active e)\<rparr>)"

definition prune_big :: "instant \<Rightarrow> 'r sim_engine \<Rightarrow> 'r sim_engine" where
  "prune_big admit_now e =
     e\<lparr>e_recent_big := dropWhile (\<lambda>t. admit_now - t > from_secs_f64 (1 / time_scale e)) (e_recent_big e)\<rparr>"

definition count_failed :: "'r sim_engine \<Rightarrow> 'r sim_engine" where
  "count_failed e = e\<lparr>e_stats := (e_stats e)\<lparr>requests_failed := requests_failed (e_stats e) + 1\<rparr>\<rparr>"

definition admit_direct ::
  "'r world \<Rightarrow> clock \<Rightarrow> string \<Rightarrow> nat \<Rightarrow> queued_request \<Rightarrow> nat list \<Rightarrow> nat \<Rightarrow> 'r sim_engine \<Rightarrow>
   engine_output option \<times> 'r sim_engine" where
  "admit_direct W clk rid client queued ids num_local_cached e =
     (let num_running = num_in_batch e + 1;
          e = prune_big (clk_now clk) e;
          ch = (if e_recent_big e = [] then Calm else BigChunk)
      in case active_new W clk (e_index e) (q_request queued) (e_opt e) (e_latency e)
                \<lparr>ad_num_running = num_running, ad_num_local_cached = num_local_cached,
                 ad_block_ids = ids, ad_churn = ch, ad_queued_at = q_queued_at queued\<rparr> of
           Inr r \<Rightarrow>
             (let (r, e) = pin_stream r e;
                  (r, e) = pin_schedule r e
              in (None, insert_active (clk_now clk) rid r e))
         | Inl reason \<Rightarrow>
             (Some \<lparr>eo_client = client, eo_env = empty_finish_outputs clk (e_index e) rid reason\<rparr>,
              (count_failed e)\<lparr>e_pool := unpin ids (e_pool e)\<rparr>))"

definition remote_of :: "engine_request \<Rightarrow> remote_kv option" where
  "remote_of request = Option.bind (extract_kv_params request) parse_remote_kv"

definition admit ::
  "'r world \<Rightarrow> clock \<Rightarrow> queued_request \<Rightarrow> 'r sim_engine \<Rightarrow> engine_output option \<times> 'r sim_engine" where
  "admit W clk queued e =
     (let request = q_request queued;
          rid = req_id request;
          prompt = prompt_of request;
          (outcome, pool) = cache_prompt (e_pool e) prompt (request_lora_name request) (req_cache_salt request);
          e = publish (events outcome) (e\<lparr>e_pool := pool\<rparr>);
          ids = block_ids outcome
      in case remote_of request of
           Some remote \<Rightarrow>
             (None,
              e\<lparr>e_pending := bt_insert rid
                  \<lparr>pp_queued = queued, pp_block_ids = ids, pp_num_local_cached = num_cached_tokens outcome,
                   pp_client = req_client request, pp_lora = request_lora_name request\<rparr> (e_pending e),
                e_pulls := e_pulls e @
                  [(\<lparr>rkv_request_id = rid, rkv_num_tokens = length prompt, rkv_block_ids = ids\<rparr>, remote)]\<rparr>)
         | None \<Rightarrow> admit_direct W clk rid (req_client request) queued ids (num_cached_tokens outcome) e)"

section \<open>The scheduler\<close>

definition running_capacity :: "'r sim_engine \<Rightarrow> nat" where
  "running_capacity e = max (o_max_num_seqs (e_opt e)) 1"

definition token_budget :: "'r sim_engine \<Rightarrow> nat" where
  "token_budget e = max (o_max_num_batched_tokens (e_opt e)) 1"

definition num_generating :: "'r sim_engine \<Rightarrow> nat" where
  "num_generating e = length (filter is_generating (bt_values (e_active e)))"

definition token_demand :: "'r active_request \<Rightarrow> nat" where
  "token_demand r = (case a_phase r of Prefill rem \<Rightarrow> rem | Decode \<Rightarrow> if is_generating r then 1 else 0)"

definition step_token_backlog :: "'r sim_engine \<Rightarrow> nat" where
  "step_token_backlog e = sum_list (map token_demand (bt_values (e_active e))) + length (e_pending e)"

definition resident_loras :: "'r sim_engine \<Rightarrow> string list" where
  "resident_loras e =
     List.map_filter a_lora (bt_values (e_active e)) @ List.map_filter pp_lora (bt_values (e_pending e))"

definition lora_admits :: "'r sim_engine \<Rightarrow> engine_request \<Rightarrow> bool" where
  "lora_admits e request = admits (e_loras e) (request_lora_name request) (resident_loras e)"

definition next_admissible_index :: "'r sim_engine \<Rightarrow> nat option" where
  "next_admissible_index e = next_admissible (e_policy e) (e_waiting e) (lora_admits e)"

definition num_lora_skipped :: "'r sim_engine \<Rightarrow> nat" where
  "num_lora_skipped e = length (filter (\<lambda>q. \<not> lora_admits e (q_request q)) (e_waiting e))"

definition has_room :: "'r sim_engine \<Rightarrow> bool" where
  "has_room e \<longleftrightarrow>
     num_generating e + length (e_pending e) < running_capacity e \<and> step_token_backlog e < token_budget e"

definition next_waiting :: "'r sim_engine \<Rightarrow> (queued_request \<times> queued_request list) option" where
  "next_waiting e = Option.bind (next_admissible_index e) (\<lambda>i. vd_remove i (e_waiting e))"

lemma pin_stream_fields:
  "e_waiting (snd (pin_stream r e)) = e_waiting e" "e_active (snd (pin_stream r e)) = e_active e"
  by (simp_all add: pin_stream_def split_beta)

lemma pin_schedule_fields:
  "e_waiting (snd (pin_schedule r e)) = e_waiting e" "e_active (snd (pin_schedule r e)) = e_active e"
  by (simp_all add: pin_schedule_def split_beta split: option.splits)

lemma publish_waiting [simp]: "e_waiting (publish evs e) = e_waiting e"
  by (simp add: publish_def)

lemma insert_active_waiting [simp]: "e_waiting (insert_active t rid r e) = e_waiting e"
  by (simp add: insert_active_def Let_def split: req_phase.splits)

lemma admit_direct_waiting [simp]:
  "e_waiting (snd (admit_direct W clk rid client q ids n e)) = e_waiting e"
  by (simp add: admit_direct_def Let_def split_beta pin_stream_fields pin_schedule_fields prune_big_def
      count_failed_def split: sum.splits)

lemma admit_waiting [simp]: "e_waiting (snd (admit W clk q e)) = e_waiting e"
  by (simp add: admit_def Let_def split_beta split: option.splits)

function schedule :: "'r world \<Rightarrow> clock \<Rightarrow> 'r sim_engine \<Rightarrow> engine_output list \<times> 'r sim_engine" where
  "schedule W clk e =
     (if \<not> has_room e then ([], e)
      else case next_waiting e of
             None \<Rightarrow> ([], e)
           | Some (q, rest) \<Rightarrow>
               (let res = admit W clk q (e\<lparr>e_waiting := rest\<rparr>);
                    (outs, e) = schedule W clk (snd res)
                in (case fst res of None \<Rightarrow> outs | Some out \<Rightarrow> out # outs, e)))"
  by pat_completeness auto
termination
proof (relation "measure (\<lambda>(W, clk, e). length (e_waiting e))")
  show "((W, clk, snd res), (W, clk, e)) \<in> measure (\<lambda>(W, clk, e). length (e_waiting e))"
    if "next_waiting e = Some qr" "(q, rest) = qr" "res = admit W clk q (e\<lparr>e_waiting := rest\<rparr>)"
    for W :: "'r world" and clk e qr q rest and res :: "engine_output option \<times> 'r sim_engine"
    using that by (auto simp: next_waiting_def bind_eq_Some_conv dest: vd_remove_length)
qed simp

declare schedule.simps [simp del]

section \<open>Composing a step\<close>

definition decoder_ids :: "'r sim_engine \<Rightarrow> string list" where
  "decoder_ids e = map a_id (filter (\<lambda>r. a_phase r = Decode \<and> is_generating r) (bt_values (e_active e)))"

text \<open>The pacer is the first decoder whose context bucket is the deepest.\<close>

fun pacer_scan :: "(string, 'r active_request) btree \<Rightarrow> nat option \<Rightarrow> nat \<Rightarrow> nat \<Rightarrow> string list \<Rightarrow> nat option" where
  "pacer_scan act pacer deepest i [] = pacer"
| "pacer_scan act pacer deepest i (rid # rids) =
     (case bt_get act rid of
        None \<Rightarrow> pacer_scan act pacer deepest (Suc i) rids
      | Some r \<Rightarrow>
          (let bucket = dp_context_bucket (a_pacing r)
           in if pacer = None \<or> bucket > deepest
              then pacer_scan act (Some i) bucket (Suc i) rids
              else pacer_scan act pacer deepest (Suc i) rids))"

text \<open>A scripted request pops its recorded step; any other draws from the latency model.\<close>

definition draw_step ::
  "'r world \<Rightarrow> latency_model \<Rightarrow> nat \<Rightarrow> 'r active_request \<Rightarrow> step_draw \<times> 'r active_request" where
  "draw_step W lat num_running r =
     (case Option.bind (a_scripted r) (\<lambda>s. case sc_steps s of [] \<Rightarrow> None | d # ds \<Rightarrow> Some (d, s\<lparr>sc_steps := ds\<rparr>)) of
        Some (d, s) \<Rightarrow> (d, r\<lparr>a_scripted := Some s\<rparr>)
      | None \<Rightarrow>
          (let (d, rng, pacing) = paced_step (w_rng W) lat (a_rng r) num_running (a_pacing r)
           in (d, r\<lparr>a_rng := rng, a_pacing := pacing\<rparr>)))"

fun draw_decoders ::
  "'r world \<Rightarrow> nat \<Rightarrow> nat option \<Rightarrow> nat \<Rightarrow> duration \<Rightarrow> string list \<Rightarrow> 'r sim_engine \<Rightarrow>
   (string \<times> nat) list \<times> duration \<times> 'r sim_engine" where
  "draw_decoders W num_running pacer i base [] e = ([], base, e)"
| "draw_decoders W num_running pacer i base (rid # rids) e =
     (case bt_get (e_active e) rid of
        None \<Rightarrow> draw_decoders W num_running pacer (Suc i) base rids e
      | Some r \<Rightarrow>
          (let (d, r) = draw_step W (e_latency e) num_running r;
               base = (if pacer = Some i then sd_delay d else base);
               e = e\<lparr>e_active := bt_modify rid (\<lambda>_. r) (e_active e)\<rparr>;
               (ds, base, e) = draw_decoders W num_running pacer (Suc i) base rids e
           in ((rid, sd_tokens d) # ds, base, e)))"

fun plan_chunks ::
  "latency_model \<Rightarrow> nat \<Rightarrow> (string, 'r active_request) btree \<Rightarrow> nat \<Rightarrow> string list \<Rightarrow>
   (string \<times> nat) list \<times> nat \<times> duration" where
  "plan_chunks lat threshold act left [] = ([], left, 0)"
| "plan_chunks lat threshold act left (rid # rids) =
     (if left = 0 then ([], left, 0)
      else case bt_get act rid of
             None \<Rightarrow> plan_chunks lat threshold act left rids
           | Some r \<Rightarrow>
               (case a_phase r of
                  Decode \<Rightarrow> plan_chunks lat threshold act left rids
                | Prefill rem \<Rightarrow>
                    (let take = min rem left;
                         take = (if threshold > 0 then min take threshold else take);
                         (cs, left', cost) = plan_chunks lat threshold act (left - take) rids
                     in ((rid, take) # cs, left',
                         prefill_chunk_cost lat take (a_prompt_len r - rem) + cost))))"

definition prefilling :: "(string, 'r active_request) btree \<Rightarrow> string \<Rightarrow> bool" where
  "prefilling act rid \<longleftrightarrow> (case bt_get act rid of None \<Rightarrow> False | Some r \<Rightarrow> a_phase r \<noteq> Decode)"

definition compose_step :: "'r world \<Rightarrow> instant \<Rightarrow> 'r sim_engine \<Rightarrow> 'r sim_engine" where
  "compose_step W anchor e =
     (let ids = decoder_ids e;
          pacer = pacer_scan (e_active e) None 0 0 ids;
          (decoders, decode_base, e) = draw_decoders W (num_in_batch e) pacer 0 0 ids e;
          budget = token_budget e;
          threshold = o_long_prefill_token_threshold (e_opt e);
          decode_claim = sum_list (map (\<lambda>d. max (snd d) 1) decoders);
          order = filter (prefilling (e_active e)) (e_prefill_order e);
          e = e\<lparr>e_prefill_order := order\<rparr>;
          (chunks, left, chunk_cost) =
            plan_chunks (e_latency e) threshold (e_active e) (budget - decode_claim) order
      in if decoders = [] \<and> chunks = [] then e
         else
           let chunk_cost = (if left = 0 \<and> chunks \<noteq> []
                 then max chunk_cost (budget_full_chunk_floor (e_latency e)) else chunk_cost);
               dur = max decode_base chunk_cost
           in e\<lparr>e_step := Some \<lparr>es_end = anchor + div_f64 dur (time_scale e),
                                es_decoders = decoders, es_chunks = chunks\<rparr>\<rparr>)"

definition ensure_step :: "'r world \<Rightarrow> instant \<Rightarrow> 'r sim_engine \<Rightarrow> 'r sim_engine" where
  "ensure_step W anchor e = (if e_step e = None then compose_step W anchor e else e)"

section \<open>Completing a step\<close>

definition generate_for ::
  "'r world \<Rightarrow> instant \<Rightarrow> nat \<Rightarrow> string \<Rightarrow> 'r active_request \<Rightarrow> 'r sim_engine \<Rightarrow> 'r sim_engine" where
  "generate_for W step_end chunk rid r e =
     (let (src, r) = generate W (e_tokens e) step_end chunk (time_scale e) (e_emit_seq e) r
      in e\<lparr>e_tokens := src, e_active := bt_modify rid (\<lambda>_. r) (e_active e), e_emit_seq := e_emit_seq e + 1\<rparr>)"

definition run_decoder :: "'r world \<Rightarrow> instant \<Rightarrow> string \<times> nat \<Rightarrow> 'r sim_engine \<Rightarrow> 'r sim_engine" where
  "run_decoder W step_end d e =
     (case bt_get (e_active e) (fst d) of
        None \<Rightarrow> e
      | Some r \<Rightarrow>
          generate_for W step_end
            (if snd d > 1 then snd d else o_output_token_chunk_size (e_opt e)) (fst d) r e)"

definition run_chunk :: "'r world \<Rightarrow> instant \<Rightarrow> nat \<Rightarrow> string \<times> nat \<Rightarrow> 'r sim_engine \<Rightarrow> 'r sim_engine" where
  "run_chunk W step_end num_running c e =
     (case bt_get (e_active e) (fst c) of
        None \<Rightarrow> e
      | Some r \<Rightarrow>
          (case a_phase r of
             Decode \<Rightarrow> e
           | Prefill rem \<Rightarrow>
               if rem - snd c > 0
               then e\<lparr>e_active := bt_modify (fst c) (\<lambda>_. r\<lparr>a_phase := Prefill (rem - snd c)\<rparr>) (e_active e)\<rparr>
               else
                 (let (off, rng) = first_token_overhead (w_rng W) (e_latency e) (a_rng r)
                        \<lparr>ft_num_prompt_tokens = a_prompt_len r, ft_num_cached_tokens = a_num_local_cached r,
                         ft_do_remote_prefill = False, ft_num_running = num_running\<rparr>;
                      r = r\<lparr>a_rng := rng, a_emit_offset := off, a_phase := Decode\<rparr>;
                      first_chunk = (case a_scripted r of
                          None \<Rightarrow> o_output_token_chunk_size (e_opt e)
                        | Some s \<Rightarrow> sc_first_chunk_tokens s)
                  in generate_for W step_end first_chunk (fst c) r e)))"

definition spec_start :: "nat \<Rightarrow> spec_decoding_stats" where
  "spec_start k = \<lparr>num_spec_tokens = k, num_drafts = 0, num_draft_tokens = 0, num_accepted_tokens = 0,
     num_accepted_tokens_per_pos = replicate k 0\<rparr>"

definition fold_draft :: "nat \<Rightarrow> string \<times> nat \<Rightarrow> spec_decoding_stats \<Rightarrow> spec_decoding_stats" where
  "fold_draft k d acc =
     (let accepted = min (snd d - 1) k
      in acc\<lparr>num_drafts := num_drafts acc + 1, num_draft_tokens := num_draft_tokens acc + k,
             num_accepted_tokens := num_accepted_tokens acc + accepted,
             num_accepted_tokens_per_pos :=
               map Suc (take accepted (num_accepted_tokens_per_pos acc)) @
               drop accepted (num_accepted_tokens_per_pos acc)\<rparr>)"

definition fold_spec_stats :: "(string \<times> nat) list \<Rightarrow> 'r sim_engine \<Rightarrow> 'r sim_engine" where
  "fold_spec_stats decoders e =
     (case e_spec_tokens e of
        None \<Rightarrow> e
      | Some k \<Rightarrow>
          if decoders = [] then e
          else e\<lparr>e_pending_spec :=
                 Some (fold (fold_draft k) decoders
                   (case e_pending_spec e of None \<Rightarrow> spec_start k | Some acc \<Rightarrow> acc))\<rparr>)"

definition complete_step ::
  "'r world \<Rightarrow> clock \<Rightarrow> engine_step \<Rightarrow> 'r sim_engine \<Rightarrow> engine_output list \<times> 'r sim_engine" where
  "complete_step W clk stp e =
     (let num_running = num_in_batch e;
          e = fold (run_decoder W (es_end stp)) (es_decoders stp) e;
          e = fold_spec_stats (es_decoders stp) e;
          e = fold (run_chunk W (es_end stp) num_running) (es_chunks stp) e;
          (outs, e) = schedule W clk e
      in (outs, ensure_step W (es_end stp) e))"

section \<open>Emission\<close>

record due_emit =
  de_due :: instant
  de_seq :: nat
  de_client :: nat
  de_finished :: bool
  de_output :: engine_core_output

definition emit_one ::
  "Tokens.token_source \<Rightarrow> 'r active_request \<Rightarrow> pending_emit \<Rightarrow> due_emit \<times> 'r active_request" where
  "emit_one src r m =
     (let is_first = (a_emitted r = 0);
          emitted = a_emitted r + length (pe_tokens m);
          finished = (emitted \<ge> a_max_tokens r);
          fin = (if finished
                 then Some (case source_finish_reason src (a_id r) of None \<Rightarrow> FLength | Some f \<Rightarrow> f)
                 else None);
          out = request_output (a_id r) (pe_tokens m) fin;
          out = (if is_first then out\<lparr>out_prefill_stats := Some (prefill_stats_of r)\<rparr> else out);
          out = (if a_pending_events r \<noteq> [] then out\<lparr>out_lifecycle := Some (a_pending_events r)\<rparr> else out)
      in (\<lparr>de_due = pe_due m, de_seq = pe_seq m, de_client = a_client r, de_finished = finished, de_output = out\<rparr>,
          r\<lparr>a_emitted := emitted, a_pending_events := []\<rparr>))"

fun emit_due ::
  "Tokens.token_source \<Rightarrow> instant \<Rightarrow> 'r active_request \<Rightarrow> pending_emit list \<Rightarrow> due_emit list \<times> 'r active_request" where
  "emit_due src now r [] = ([], r\<lparr>a_pending_emits := []\<rparr>)"
| "emit_due src now r (m # ms) =
     (if pe_due m \<le> now
      then let (o1, r1) = emit_one src r m;
               (os, r2) = emit_due src now r1 ms
           in (o1 # os, r2)
      else ([], r\<lparr>a_pending_emits := m # ms\<rparr>))"

definition drain_request :: "Tokens.token_source \<Rightarrow> instant \<Rightarrow> 'r active_request \<Rightarrow> due_emit list \<times> 'r active_request" where
  "drain_request src now r = emit_due src now r (a_pending_emits r)"

text \<open>\<^verbatim>\<open>BTreeSet::insert\<close> on a sorted list without duplicates.\<close>

definition btset_insert :: "'a::linorder \<Rightarrow> 'a list \<Rightarrow> 'a list" where
  "btset_insert x xs = (if x \<in> set xs then xs else insort x xs)"

type_synonym client_batches = "(nat, engine_core_output list \<times> string list) btree"

definition batch_push :: "nat \<Rightarrow> bool \<Rightarrow> engine_core_output \<Rightarrow> client_batches \<Rightarrow> client_batches" where
  "batch_push client finished out m =
     (let (outs, fin) = (case bt_get m client of None \<Rightarrow> ([], []) | Some b \<Rightarrow> b)
      in bt_insert client (outs @ [out], if finished then btset_insert (out_id out) fin else fin) m)"

definition push_emit :: "due_emit \<Rightarrow> client_batches \<Rightarrow> client_batches" where
  "push_emit d m = batch_push (de_client d) (de_finished d) (de_output d) m"

definition finish_request :: "string \<Rightarrow> 'r sim_engine \<Rightarrow> 'r sim_engine" where
  "finish_request rid e =
     (case bt_get (e_active e) rid of
        None \<Rightarrow> e
      | Some r \<Rightarrow>
          e\<lparr>e_active := bt_remove rid (e_active e), e_pool := unpin (a_block_ids r) (e_pool e),
            e_tokens := on_request_finished (a_id r) (e_tokens e)\<rparr>)"

fun stamp_finishing :: "string \<Rightarrow> json \<Rightarrow> engine_core_output list \<Rightarrow> engine_core_output list" where
  "stamp_finishing rid kv [] = []"
| "stamp_finishing rid kv (out # outs) =
     (if out_id out = rid \<and> out_finish out \<noteq> None then out\<lparr>out_kv_params := Some kv\<rparr> # outs
      else out # stamp_finishing rid kv outs)"

definition advertise_one ::
  "'r world \<Rightarrow> nat \<times> string \<times> nat \<times> nat list \<Rightarrow> client_batches \<Rightarrow> client_batches" where
  "advertise_one W adv m =
     (case adv of
        (client, rid, num_tokens, ids) \<Rightarrow>
          (case w_advertise W \<lparr>rkv_request_id = rid, rkv_num_tokens = num_tokens, rkv_block_ids = ids\<rparr> of
             Inl err \<Rightarrow> m
           | Inr remote \<Rightarrow>
               bt_modify client
                 (\<lambda>(outs, fin). (stamp_finishing rid (build_prefill_kv_params remote rid num_tokens) outs, fin)) m))"

definition scheduler_stats :: "'r sim_engine \<Rightarrow> Protocol.scheduler_stats \<times> 'r sim_engine" where
  "scheduler_stats e =
     (let (snap, pool) = take_stats (e_pool e);
          e = e\<lparr>e_pool := pool\<rparr>
      in (\<lparr>ss_num_running = num_in_batch e, ss_num_waiting = length (e_waiting e),
           ss_num_skipped = num_lora_skipped e, ss_kv_cache_usage = usage (e_pool e),
           ss_prefix_requests = snap_requests snap, ss_prefix_queries = snap_queries snap,
           ss_prefix_hits = snap_hits snap, ss_spec = e_pending_spec e\<rparr>, e))"

section \<open>The step handler\<close>

definition step_due :: "instant \<Rightarrow> 'r sim_engine \<Rightarrow> engine_step option" where
  "step_due now e = (case e_step e of None \<Rightarrow> None | Some stp \<Rightarrow> if es_end stp \<le> now then Some stp else None)"

text \<open>Complete every due step; \<^const>\<open>None\<close> when the fuel runs out with a step still due.\<close>

fun catch_up ::
  "'r world \<Rightarrow> clock \<Rightarrow> nat \<Rightarrow> 'r sim_engine \<Rightarrow> (engine_output list \<times> 'r sim_engine) option" where
  "catch_up W clk fuel e =
     (case step_due (clk_now clk) e of
        None \<Rightarrow> Some ([], e)
      | Some stp \<Rightarrow>
          (case fuel of
             0 \<Rightarrow> None
           | Suc n \<Rightarrow>
               (let (outs, e) = complete_step W clk stp (e\<lparr>e_step := None\<rparr>)
                in map_option (\<lambda>(outs', e). (outs @ outs', e)) (catch_up W clk n e))))"

declare catch_up.simps [simp del]

definition drain_all :: "instant \<Rightarrow> 'r sim_engine \<Rightarrow> due_emit list \<times> 'r sim_engine" where
  "drain_all now e =
     (let res = map (\<lambda>(k, r). (k, drain_request (e_tokens e) now r)) (e_active e)
      in (concat (map (\<lambda>(k, os, r). os) res), e\<lparr>e_active := map (\<lambda>(k, os, r). (k, r)) res\<rparr>))"

definition finishing :: "due_emit list \<Rightarrow> string list" where
  "finishing emits = fold (\<lambda>d ids. if de_finished d then btset_insert (out_id (de_output d)) ids else ids) emits []"

definition to_advertise :: "'r sim_engine \<Rightarrow> due_emit list \<Rightarrow> (nat \<times> string \<times> nat \<times> nat list) list" where
  "to_advertise e emits =
     List.map_filter
       (\<lambda>d. if \<not> de_finished d then None
            else case bt_get (e_active e) (out_id (de_output d)) of
                   None \<Rightarrow> None
                 | Some r \<Rightarrow> if a_prefill_advertise r
                             then Some (a_client r, a_id r, a_prompt_len r, a_block_ids r) else None)
       emits"

definition batch_output ::
  "clock \<Rightarrow> nat \<Rightarrow> Protocol.scheduler_stats option \<Rightarrow> nat \<times> engine_core_output list \<times> string list \<Rightarrow> engine_output" where
  "batch_output clk engine_index st b =
     (case b of (client, outs, fin) \<Rightarrow>
        \<lparr>eo_client = client,
         eo_env = RequestBatch engine_index outs st (clk_monotonic clk) (if fin = [] then None else Some fin)\<rparr>)"

text \<open>Drain the due emissions, count the completed requests and retire them.\<close>

definition count_completed :: "nat \<Rightarrow> 'r sim_engine \<Rightarrow> 'r sim_engine" where
  "count_completed n e =
     e\<lparr>e_stats := (e_stats e)\<lparr>requests_completed := requests_completed (e_stats e) + n\<rparr>\<rparr>"

definition flush_due ::
  "instant \<Rightarrow> 'r sim_engine \<Rightarrow> due_emit list \<times> (nat \<times> string \<times> nat \<times> nat list) list \<times> 'r sim_engine" where
  "flush_due now e =
     (let (emits, e) = drain_all now e;
          e = count_completed (length (filter de_finished emits)) e
      in (emits, to_advertise e emits, fold finish_request (finishing emits) e))"

definition emit_phase ::
  "'r world \<Rightarrow> clock \<Rightarrow> engine_output list \<Rightarrow> 'r sim_engine \<Rightarrow> engine_output list \<times> 'r sim_engine" where
  "emit_phase W clk admit_outputs e =
     (let (emits, advs, e) = flush_due (clk_now clk) e;
          by_client = fold push_emit (sort_key (\<lambda>d. (de_due d, de_seq d)) emits) [];
          by_client = fold (advertise_one W) advs by_client;
          (outs, e) = schedule W clk e;
          e = ensure_step W (clk_now clk) e;
          (st, e) = scheduler_stats e
      in (map (batch_output clk (e_index e) (Some st)) (filter (\<lambda>b. fst (snd b) \<noteq> []) by_client)
          @ admit_outputs @ outs, e))"

definition step ::
  "'r world \<Rightarrow> clock \<Rightarrow> nat \<Rightarrow> 'r sim_engine \<Rightarrow> (engine_output list \<times> 'r sim_engine) option" where
  "step W clk fuel e =
     (case catch_up W clk fuel (e\<lparr>e_pending_spec := None\<rparr>) of
        None \<Rightarrow> None
      | Some (outs, e) \<Rightarrow> Some (emit_phase W clk outs e))"

section \<open>Aborts\<close>

definition count_aborted :: "'r sim_engine \<Rightarrow> 'r sim_engine" where
  "count_aborted e = e\<lparr>e_stats := (e_stats e)\<lparr>requests_aborted := requests_aborted (e_stats e) + 1\<rparr>\<rparr>"

definition waiting_position :: "string \<Rightarrow> 'r sim_engine \<Rightarrow> nat option" where
  "waiting_position rid e = position (\<lambda>q. req_id (q_request q) = rid) (e_waiting e)"

text \<open>Take a request out of wherever it stands; its client, or \<^const>\<open>None\<close> for an unknown id.\<close>

definition withdraw :: "string \<Rightarrow> 'r sim_engine \<Rightarrow> nat option \<times> 'r sim_engine" where
  "withdraw rid e =
     (case bt_get (e_active e) rid of
        Some r \<Rightarrow> (Some (a_client r), finish_request rid e)
      | None \<Rightarrow>
          (case bt_get (e_pending e) rid of
             Some p \<Rightarrow>
               (Some (pp_client p),
                e\<lparr>e_pending := bt_remove rid (e_pending e), e_pool := unpin (pp_block_ids p) (e_pool e)\<rparr>)
           | None \<Rightarrow>
               (case Option.bind (waiting_position rid e) (\<lambda>i. vd_remove i (e_waiting e)) of
                  Some (q, rest) \<Rightarrow> (Some (req_client (q_request q)), e\<lparr>e_waiting := rest\<rparr>)
                | None \<Rightarrow> (None, e))))"

definition abort_one :: "string \<Rightarrow> 'r sim_engine \<times> client_batches \<Rightarrow> 'r sim_engine \<times> client_batches" where
  "abort_one rid s =
     (case withdraw rid (fst s) of
        (None, e) \<Rightarrow> (e, snd s)
      | (Some client, e) \<Rightarrow>
          (count_aborted e, batch_push client True (request_output rid [] (Some FAbort)) (snd s)))"

fun attach_stats :: "clock \<Rightarrow> nat \<Rightarrow> Protocol.scheduler_stats option \<Rightarrow> client_batches \<Rightarrow> engine_output list" where
  "attach_stats clk idx st [] = []"
| "attach_stats clk idx st (b # bs) =
     \<lparr>eo_client = fst b,
      eo_env = RequestBatch idx (fst (snd b)) st (clk_monotonic clk) (Some (snd (snd b)))\<rparr>
     # attach_stats clk idx None bs"

definition abort_requests ::
  "'r world \<Rightarrow> clock \<Rightarrow> string list \<Rightarrow> 'r sim_engine \<Rightarrow> engine_output list \<times> 'r sim_engine" where
  "abort_requests W clk rids e =
     (let (e, by_client) = fold abort_one rids (e, []);
          (outs, e) = schedule W clk e;
          (st, e) = scheduler_stats e;
          e = ensure_step W (clk_now clk) e
      in (outs @ attach_stats clk (e_index e) (Some st) by_client, e))"

section \<open>Pull completion\<close>

definition finish_pull ::
  "'r world \<Rightarrow> clock \<Rightarrow> string \<Rightarrow> nat result \<Rightarrow> 'r sim_engine \<Rightarrow> engine_output list \<times> 'r sim_engine" where
  "finish_pull W clk rid res e =
     (case bt_get (e_pending e) rid of
        None \<Rightarrow> ([], e)
      | Some p \<Rightarrow>
          (let e = e\<lparr>e_pending := bt_remove rid (e_pending e)\<rparr>;
               (out, e) = admit_direct W clk rid (pp_client p) (pp_queued p) (pp_block_ids p)
                            (pp_num_local_cached p) e;
               (outs, e) = schedule W clk e
           in ((case out of None \<Rightarrow> [] | Some x \<Rightarrow> [x]) @ outs, ensure_step W (clk_now clk) e)))"

section \<open>Utilities and control calls\<close>

definition one_tuple :: "string \<Rightarrow> msgpack \<Rightarrow> msgpack result" where
  "one_tuple msg v = (case v of MArray [x] \<Rightarrow> Inr x | _ \<Rightarrow> Inl msg)"

definition lora_utility_outputs ::
  "clock \<Rightarrow> utility_request \<Rightarrow> 'r sim_engine \<Rightarrow> envelope option result \<times> 'r sim_engine" where
  "lora_utility_outputs clk request e =
     (let reply = (\<lambda>b. Inr (Some (utility_result_outputs clk (e_index e) (u_call_id request) (MBool b)))) in
      if u_method request = ''add_lora'' then
        (case bind_result (one_tuple ''decoding add_lora args tuple'' (u_args request)) lora_from_wire of
           Inl err \<Rightarrow> (Inl err, e)
         | Inr spec \<Rightarrow> (let (b, reg) = lora_add spec (e_loras e) in (reply b, e\<lparr>e_loras := reg\<rparr>)))
      else if u_method request = ''remove_lora'' then
        (case bind_result (one_tuple ''decoding remove_lora args'' (u_args request))
                (\<lambda>x. with_context ''decoding remove_lora args'' (msgpack_as_u64 x)) of
           Inl err \<Rightarrow> (Inl err, e)
         | Inr i \<Rightarrow> (let (b, reg) = lora_remove i (e_loras e) in (reply b, e\<lparr>e_loras := reg\<rparr>)))
      else (Inr None, e))"

definition reset_prefix_cache_outputs ::
  "clock \<Rightarrow> utility_request \<Rightarrow> 'r sim_engine \<Rightarrow> envelope option \<times> 'r sim_engine" where
  "reset_prefix_cache_outputs clk request e =
     (if u_method request \<noteq> ''reset_prefix_cache'' then (None, e)
      else
        let (b, e) =
          (if e_active e = [] \<and> e_pending e = []
           then (let (ev, pool) = reset_pool (e_pool e);
                     e = e\<lparr>e_pool := pool\<rparr>
                 in (True, case ev of None \<Rightarrow> e | Some x \<Rightarrow> publish [x] e))
           else (False, e))
        in (Some (utility_result_outputs clk (e_index e) (u_call_id request) (MBool b)), e))"

definition config_of :: "'r sim_engine \<Rightarrow> config" where
  "config_of e = (let cfg = e_opt e in
     \<lparr>c_time_to_first_token = o_time_to_first_token cfg,
      c_time_to_first_token_std_dev = o_time_to_first_token_std_dev cfg,
      c_inter_token_latency = o_inter_token_latency cfg,
      c_inter_token_latency_std_dev = o_inter_token_latency_std_dev cfg,
      c_prefill_overhead = o_prefill_overhead cfg,
      c_prefill_time_per_token = o_prefill_time_per_token cfg,
      c_prefill_time_std_dev = o_prefill_time_std_dev cfg,
      c_time_factor_under_load = o_time_factor_under_load cfg,
      c_max_num_seqs = o_max_num_seqs cfg,
      c_max_num_batched_tokens = o_max_num_batched_tokens cfg,
      c_max_model_len = o_max_model_len cfg,
      c_failure_injection_rate = o_failure_injection_rate cfg,
      c_failure_types = o_failure_types cfg,
      c_log_requests = o_log_requests cfg\<rparr>)"

definition stats_of :: "'r sim_engine \<Rightarrow> stats" where
  "stats_of e = (e_stats e)\<lparr>st_running := num_in_batch e, st_waiting := length (e_waiting e)\<rparr>"

definition patched :: "'a option \<Rightarrow> 'a \<Rightarrow> 'a" where
  "patched v old = (case v of None \<Rightarrow> old | Some x \<Rightarrow> x)"

definition patch_opt :: "config_patch \<Rightarrow> opt \<Rightarrow> opt" where
  "patch_opt p cfg =
     cfg\<lparr>o_time_to_first_token := patched (p_time_to_first_token p) (o_time_to_first_token cfg),
         o_time_to_first_token_std_dev := patched (p_time_to_first_token_std_dev p) (o_time_to_first_token_std_dev cfg),
         o_inter_token_latency := patched (p_inter_token_latency p) (o_inter_token_latency cfg),
         o_inter_token_latency_std_dev := patched (p_inter_token_latency_std_dev p) (o_inter_token_latency_std_dev cfg),
         o_prefill_overhead := patched (p_prefill_overhead p) (o_prefill_overhead cfg),
         o_prefill_time_per_token := patched (p_prefill_time_per_token p) (o_prefill_time_per_token cfg),
         o_prefill_time_std_dev := patched (p_prefill_time_std_dev p) (o_prefill_time_std_dev cfg),
         o_time_factor_under_load := patched (p_time_factor_under_load p) (o_time_factor_under_load cfg),
         o_max_num_seqs := patched (p_max_num_seqs p) (o_max_num_seqs cfg),
         o_max_num_batched_tokens := patched (p_max_num_batched_tokens p) (o_max_num_batched_tokens cfg),
         o_max_model_len := patched (p_max_model_len p) (o_max_model_len cfg),
         o_failure_injection_rate := patched (p_failure_injection_rate p) (o_failure_injection_rate cfg),
         o_log_requests := patched (p_log_requests p) (o_log_requests cfg),
         o_failure_types := patched (p_failure_types p) (o_failure_types cfg)\<rparr>"

definition apply_patch ::
  "'r world \<Rightarrow> clock \<Rightarrow> config_patch \<Rightarrow> 'r sim_engine \<Rightarrow> (control_error + engine_output list) \<times> 'r sim_engine" where
  "apply_patch W clk p e =
     (if changes_latency p \<and> o_latency_trace (e_opt e) \<noteq> None
      then (Inl (ce_conflict ''latency knobs cannot be patched while --latency-trace is in use''), e)
      else
        let cfg = patch_opt p (e_opt e) in
        case (if changes_latency p then build_latency cfg else Inr (e_latency e)) of
          Inl err \<Rightarrow> (Inl (ce_internal (''rebuilding latency model: '' @ err)), e)
        | Inr lat \<Rightarrow>
            (let (outs, e) = schedule W clk (e\<lparr>e_latency := lat, e_opt := cfg\<rparr>)
             in (Inr outs, ensure_step W (clk_now clk) e)))"

fun handle_control ::
  "'r world \<Rightarrow> clock \<Rightarrow> control_request \<Rightarrow> 'r sim_engine \<Rightarrow>
   (control_error + control_reply) \<times> engine_output list \<times> 'r sim_engine" where
  "handle_control W clk GetConfig e = (Inr (ReplyConfig (config_of e)), [], e)"
| "handle_control W clk (PatchConfig p) e =
     (case apply_patch W clk p e of
        (Inr outs, e) \<Rightarrow> (Inr (ReplyConfig (config_of e)), outs, e)
      | (Inl err, e) \<Rightarrow> (Inl err, [], e))"
| "handle_control W clk GetStats e = (Inr (ReplyStats (stats_of e)), [], e)"
| "handle_control W clk ResetStats e =
     (let e = e\<lparr>e_stats := default_stats\<rparr> in (Inr (ReplyStats (stats_of e)), [], e))"

section \<open>Inputs\<close>

datatype engine_input =
    InRequest engine_request
  | InAbort "string list"
  | InUtility utility_request
  | InStartDpWave
  | InControl control_request

definition known_id :: "string \<Rightarrow> 'r sim_engine \<Rightarrow> bool" where
  "known_id rid e \<longleftrightarrow>
     bt_get (e_active e) rid \<noteq> None \<or> bt_get (e_pending e) rid \<noteq> None \<or>
     (\<exists>q \<in> set (e_waiting e). req_id (q_request q) = rid)"

definition count_received :: "'r sim_engine \<Rightarrow> 'r sim_engine" where
  "count_received e = e\<lparr>e_stats := (e_stats e)\<lparr>requests_received := requests_received (e_stats e) + 1\<rparr>\<rparr>"

definition handle_request ::
  "'r world \<Rightarrow> clock \<Rightarrow> engine_request \<Rightarrow> 'r sim_engine \<Rightarrow> engine_output list \<times> 'r sim_engine" where
  "handle_request W clk request e =
     (let rid = req_id request;
          e = count_received e;
          refuse = (\<lambda>reason e. ([\<lparr>eo_client = req_client request,
             eo_env = empty_finish_outputs clk (e_index e) rid reason\<rparr>], count_failed e))
      in if known_id rid e then refuse FError e
         else case maybe_fail W request e of
                (Some reason, e) \<Rightarrow> refuse reason e
              | (None, e) \<Rightarrow>
                  (let (outs, e) = schedule W clk (e\<lparr>e_waiting := e_waiting e @
                         [\<lparr>q_request = request, q_queued_at = clk_monotonic clk\<rparr>]\<rparr>)
                   in (outs, ensure_step W (clk_now clk) e)))"

definition handle_utility ::
  "clock \<Rightarrow> utility_request \<Rightarrow> 'r sim_engine \<Rightarrow> engine_output list result \<times> 'r sim_engine" where
  "handle_utility clk request e =
     (let wrap = (\<lambda>env. [\<lparr>eo_client = u_client request, eo_env = env\<rparr>]) in
      case reset_prefix_cache_outputs clk request e of
        (Some out, e) \<Rightarrow> (Inr (wrap out), e)
      | (None, e) \<Rightarrow>
          (case lora_utility_outputs clk request e of
             (Inl err, e) \<Rightarrow> (Inl err, e)
           | (Inr (Some out), e) \<Rightarrow> (Inr (wrap out), e)
           | (Inr None, e) \<Rightarrow> (Inr (wrap (utility_response clk (e_index e) request)), e)))"

fun handle_input ::
  "'r world \<Rightarrow> clock \<Rightarrow> engine_input \<Rightarrow> 'r sim_engine \<Rightarrow> engine_output list result \<times> 'r sim_engine" where
  "handle_input W clk (InRequest request) e = (let (outs, e) = handle_request W clk request e in (Inr outs, e))"
| "handle_input W clk (InAbort rids) e = (let (outs, e) = abort_requests W clk rids e in (Inr outs, e))"
| "handle_input W clk (InUtility request) e = handle_utility clk request e"
| "handle_input W clk (InControl call) e =
     (let (reply, outs, e) = handle_control W clk call e
      in (Inr outs, e\<lparr>e_replies := e_replies e @ [reply]\<rparr>))"
| "handle_input W clk InStartDpWave e = (Inr [], e)"

section \<open>The rest of the engine-core interface\<close>

definition option_min :: "nat option \<Rightarrow> nat option \<Rightarrow> nat option" where
  "option_min a b =
     (case (a, b) of (Some x, Some y) \<Rightarrow> Some (min x y) | (None, _) \<Rightarrow> b | (_, None) \<Rightarrow> a)"

definition front_dues :: "'r sim_engine \<Rightarrow> instant list" where
  "front_dues e =
     List.map_filter (\<lambda>r. case a_pending_emits r of [] \<Rightarrow> None | m # _ \<Rightarrow> Some (pe_due m)) (bt_values (e_active e))"

definition earliest_deadline :: "'r sim_engine \<Rightarrow> instant option" where
  "earliest_deadline e =
     option_min (map_option es_end (e_step e))
       (if front_dues e = [] then None else Some (Min (set (front_dues e))))"

definition num_unfinished_requests :: "'r sim_engine \<Rightarrow> nat" where
  "num_unfinished_requests e = length (e_active e) + length (e_pending e) + length (e_waiting e)"

definition abort_all_requests ::
  "'r world \<Rightarrow> clock \<Rightarrow> 'r sim_engine \<Rightarrow> engine_output list \<times> 'r sim_engine" where
  "abort_all_requests W clk e =
     abort_requests W clk
       (bt_keys (e_active e) @ bt_keys (e_pending e) @ map (\<lambda>q. req_id (q_request q)) (e_waiting e)) e"

definition reject_request :: "clock \<Rightarrow> engine_request \<Rightarrow> 'r sim_engine \<Rightarrow> engine_output \<times> 'r sim_engine" where
  "reject_request clk request e =
     (let e = count_aborted (count_received e)
      in (\<lparr>eo_client = req_client request,
           eo_env = empty_finish_outputs clk (e_index e) (req_id request) FAbort\<rparr>, e))"

definition new_engine :: "'r world \<Rightarrow> nat \<Rightarrow> opt \<Rightarrow> bool \<Rightarrow> 'r sim_engine result" where
  "new_engine W engine_index cfg events_on =
     bind_result (build_latency cfg) (\<lambda>lat.
     bind_result (build_token_source cfg) (\<lambda>src.
     bind_result (build_step_source cfg) (\<lambda>steps.
       Inr \<lparr>e_index = engine_index, e_opt = cfg, e_latency = lat, e_tokens = src, e_step_source = steps,
            e_spec_tokens =
              (case Option.bind steps step_spec_tokens of None \<Rightarrow> latency_spec_tokens lat | Some k \<Rightarrow> Some k),
            e_policy = o_scheduling_policy cfg,
            e_pool = new_pool (o_tokens_per_block cfg) (o_kv_cache_size cfg) (o_kv_cache_none_seed cfg),
            e_events_on = events_on, e_published = [], e_pulls = [], e_replies = [],
            e_failure_rng = seed_from_u64 (w_rng W) (o_seed cfg XOR (of_nat engine_index * 0x9e3779b9)),
            e_loras = new_registry (o_max_loras cfg), e_active = [], e_waiting = [], e_pending = [],
            e_step = None, e_prefill_order = [], e_emit_seq = 0, e_recent_big = [],
            e_pending_spec = None, e_stats = default_stats\<rparr>)))"

end
