(* ===== verification/Engine_Frame.thy ===== *)
theory Engine_Frame
  imports Engine
begin

text \<open>
  The transition system of the engine and its proof rule. A first locale states what the work on
  requests inside the engine has to keep (one admission, one composition, one generation, one
  flush, one withdrawal, ...) and lifts it to wake-ups, pulls and aborts; a second one extends it
  by arrivals, utilities and control calls and lifts it to every handler and every reachable
  state. Each invariant of the development interprets it.
\<close>

definition allowed :: "(control_request \<Rightarrow> bool) \<Rightarrow> engine_input \<Rightarrow> bool" where
  "allowed allow i = (case i of InControl c \<Rightarrow> allow c | _ \<Rightarrow> True)"

text \<open>One turn of an engine: an input, a finished pull, a wake-up, a rejection, an abort of everything.\<close>

inductive engine_turn ::
  "'r world \<Rightarrow> (control_request \<Rightarrow> bool) \<Rightarrow> 'r sim_engine \<Rightarrow> 'r sim_engine \<Rightarrow> bool"
  for W allow where
  input: "allowed allow i \<Longrightarrow> engine_turn W allow e (snd (handle_input W clk i e))"
| pull: "engine_turn W allow e (snd (finish_pull W clk rid res e))"
| wake: "step W clk fuel e = Some (outs, e') \<Longrightarrow> engine_turn W allow e e'"
| reject: "engine_turn W allow e (snd (reject_request clk request e))"
| abort_all: "engine_turn W allow e (snd (abort_all_requests W clk e))"

inductive engine_reach ::
  "'r world \<Rightarrow> (control_request \<Rightarrow> bool) \<Rightarrow> 'r sim_engine \<Rightarrow> 'r sim_engine \<Rightarrow> bool"
  for W allow e0 where
  start: "engine_reach W allow e0 e0"
| turn: "engine_reach W allow e0 e \<Longrightarrow> engine_turn W allow e e' \<Longrightarrow> engine_reach W allow e0 e'"

lemma maybe_fail_state: "\<exists>rng. snd (maybe_fail W request e) = e\<lparr>e_failure_rng := rng\<rparr>"
proof -
  have same: "\<exists>rng. e = e\<lparr>e_failure_rng := rng\<rparr>" by (rule exI [of _ "e_failure_rng e"]) simp
  have new: "\<exists>rng. e\<lparr>e_failure_rng := x\<rparr> = e\<lparr>e_failure_rng := rng\<rparr>" for x by (rule exI) (rule refl)
  show ?thesis by (simp add: maybe_fail_def Let_def split_beta same new)
qed

lemma next_waiting_length: "next_waiting e = Some (q, rest) \<Longrightarrow> length rest < length (e_waiting e)"
  by (auto simp: next_waiting_def bind_eq_Some_conv dest: vd_remove_length)

text \<open>What holds before and survives every single admission holds after scheduling.\<close>

lemma schedule_rule:
  assumes "P e"
    and "\<And>e q rest. P e \<Longrightarrow> has_room e \<Longrightarrow> next_waiting e = Some (q, rest) \<Longrightarrow>
      P (snd (admit W clk q (e\<lparr>e_waiting := rest\<rparr>)))"
  shows "P (snd (schedule W clk e))"
  using assms(1)
proof (induction "length (e_waiting e)" arbitrary: e rule: less_induct)
  case less
  show ?case
  proof (cases "has_room e \<and> next_waiting e \<noteq> None")
    case True
    then obtain q rest where q: "next_waiting e = Some (q, rest)" by auto
    let ?e = "snd (admit W clk q (e\<lparr>e_waiting := rest\<rparr>))"
    have "P ?e" using assms(2) less.prems True q by blast
    then have "P (snd (schedule W clk ?e))" using less.hyps next_waiting_length [OF q] by simp
    moreover have "snd (schedule W clk e) = snd (schedule W clk ?e)"
      using True q by (subst schedule.simps) (simp add: split_beta Let_def)
    ultimately show ?thesis by simp
  next
    case False
    then have "schedule W clk e = ([], e)" by (subst schedule.simps) (auto split: option.splits)
    then show ?thesis using less.prems by simp
  qed
qed

text \<open>What the work on requests already in the engine has to keep.\<close>

locale engine_batch =
  fixes W :: "'r world"
    and inv :: "'r sim_engine \<Rightarrow> bool"
  assumes admit_pres: "inv e \<Longrightarrow> has_room e \<Longrightarrow> next_waiting e = Some (q, rest) \<Longrightarrow>
      inv (snd (admit W clk q (e\<lparr>e_waiting := rest\<rparr>)))"
    and compose_pres: "inv e \<Longrightarrow> e_step e = None \<Longrightarrow> inv (compose_step W t e)"
    and take_step_pres: "inv e \<Longrightarrow> inv (e\<lparr>e_step := None\<rparr>)"
    and decoder_pres: "inv e \<Longrightarrow> inv (run_decoder W t d e)"
    and chunk_pres: "inv e \<Longrightarrow> inv (run_chunk W t n c e)"
    and spec_pres: "inv e \<Longrightarrow> inv (e\<lparr>e_pending_spec := s\<rparr>)"
    and flush_pres: "inv e \<Longrightarrow> inv (snd (snd (flush_due t e)))"
    and stats_pres: "inv e \<Longrightarrow> inv (snd (scheduler_stats e))"
    and abort_pres: "inv e \<Longrightarrow> inv (fst (abort_one rid (e, m)))"
    and pull_pres: "inv e \<Longrightarrow> bt_get (e_pending e) rid = Some pp \<Longrightarrow>
      inv (snd (admit_direct W clk rid (pp_client pp) (pp_queued pp) (pp_block_ids pp) (pp_num_local_cached pp)
        (e\<lparr>e_pending := bt_remove rid (e_pending e)\<rparr>)))"
begin

lemma schedule_pres: "inv e \<Longrightarrow> inv (snd (schedule W clk e))"
  by (rule schedule_rule) (auto intro: admit_pres)

lemma ensure_step_pres: "inv e \<Longrightarrow> inv (ensure_step W t e)"
  by (simp add: ensure_step_def compose_pres)

lemma fold_pres: "inv e \<Longrightarrow> (\<And>x e. inv e \<Longrightarrow> inv (f x e)) \<Longrightarrow> inv (fold f xs e)"
  by (induction xs arbitrary: e) auto

lemma complete_step_pres: "inv e \<Longrightarrow> inv (snd (complete_step W clk stp e))"
proof -
  assume e: "inv e"
  let ?e1 = "fold (run_decoder W (es_end stp)) (es_decoders stp) e"
  have "inv ?e1" using e by (rule fold_pres) (rule decoder_pres)
  then have "inv (fold_spec_stats (es_decoders stp) ?e1)"
    by (auto simp: fold_spec_stats_def intro: spec_pres split: option.splits)
  then have "inv (fold (run_chunk W (es_end stp) (num_in_batch e)) (es_chunks stp)
      (fold_spec_stats (es_decoders stp) ?e1))" by (rule fold_pres) (rule chunk_pres)
  then show ?thesis
    by (simp add: complete_step_def Let_def split_beta schedule_pres ensure_step_pres)
qed

lemma catch_up_pres: "inv e \<Longrightarrow> catch_up W clk fuel e = Some (outs, e') \<Longrightarrow> inv e'"
proof (induction fuel arbitrary: e outs)
  case 0
  then show ?case by (subst (asm) catch_up.simps) (auto split: option.splits)
next
  case (Suc n)
  show ?case
  proof (cases "step_due (clk_now clk) e")
    case None
    then show ?thesis using Suc.prems by (subst (asm) catch_up.simps) simp
  next
    case (Some stp)
    let ?e = "snd (complete_step W clk stp (e\<lparr>e_step := None\<rparr>))"
    have "inv ?e" using Suc.prems(1) by (intro complete_step_pres take_step_pres)
    moreover obtain outs' where "catch_up W clk n ?e = Some (outs', e')"
      using Suc.prems(2) Some by (subst (asm) catch_up.simps) (auto simp: split_beta)
    ultimately show ?thesis by (rule Suc.IH)
  qed
qed

lemma emit_phase_pres: "inv e \<Longrightarrow> inv (snd (emit_phase W clk outs e))"
  by (simp add: emit_phase_def Let_def split_beta stats_pres ensure_step_pres schedule_pres flush_pres)

lemma step_pres: "inv e \<Longrightarrow> step W clk fuel e = Some (outs, e') \<Longrightarrow> inv e'"
proof -
  assume e: "inv e" and s: "step W clk fuel e = Some (outs, e')"
  then obtain o1 e1 where c: "catch_up W clk fuel (e\<lparr>e_pending_spec := None\<rparr>) = Some (o1, e1)"
    and e': "e' = snd (emit_phase W clk o1 e1)"
    by (auto simp: step_def split: option.splits)
  have "inv e1" using spec_pres [OF e] c by (rule catch_up_pres)
  then show ?thesis unfolding e' by (rule emit_phase_pres)
qed

lemma abort_fold_pres: "inv (fst s) \<Longrightarrow> inv (fst (fold abort_one rids s))"
proof (induction rids arbitrary: s)
  case (Cons rid rids)
  then have "inv (fst (abort_one rid s))" using abort_pres [of "fst s" rid "snd s"] by simp
  then show ?case using Cons.IH by simp
qed simp

lemma abort_requests_pres: "inv e \<Longrightarrow> inv (snd (abort_requests W clk rids e))"
  using abort_fold_pres [of "(e, [])" rids]
  by (simp add: abort_requests_def Let_def split_beta ensure_step_pres stats_pres schedule_pres)

lemma finish_pull_pres: "inv e \<Longrightarrow> inv (snd (finish_pull W clk rid res e))"
  by (auto simp: finish_pull_def Let_def split_beta split: option.splits
      intro!: ensure_step_pres schedule_pres pull_pres)

end

text \<open>What an invariant of the engine has to keep in addition: arrivals, utilities and control calls.\<close>

locale engine_invariant = engine_batch W inv
  for W :: "'r world" and inv :: "'r sim_engine \<Rightarrow> bool" +
  fixes allow :: "control_request \<Rightarrow> bool"
  assumes enqueue_pres: "inv e \<Longrightarrow> \<not> known_id (req_id (q_request q)) e \<Longrightarrow>
      inv ((count_received e)\<lparr>e_failure_rng := rng, e_waiting := e_waiting e @ [q]\<rparr>)"
    and refuse_pres: "inv e \<Longrightarrow> inv (count_failed ((count_received e)\<lparr>e_failure_rng := rng\<rparr>))"
    and reject_pres: "inv e \<Longrightarrow> inv (count_aborted (count_received e))"
    and reset_cache_pres: "inv e \<Longrightarrow> inv (snd (reset_prefix_cache_outputs clk u e))"
    and lora_pres: "inv e \<Longrightarrow> max_loras reg = max_loras (e_loras e) \<Longrightarrow> inv (e\<lparr>e_loras := reg\<rparr>)"
    and patch_pres: "allow (PatchConfig p) \<Longrightarrow> inv e \<Longrightarrow>
      inv (e\<lparr>e_latency := lat, e_opt := patch_opt p (e_opt e)\<rparr>)"
    and reset_stats_pres: "allow ResetStats \<Longrightarrow> inv e \<Longrightarrow> inv (e\<lparr>e_stats := default_stats\<rparr>)"
    and reply_pres: "inv e \<Longrightarrow> inv (e\<lparr>e_replies := rs\<rparr>)"
begin

lemma patch_opt_pres: "allow (PatchConfig p) \<Longrightarrow> inv e \<Longrightarrow> inv (e\<lparr>e_opt := patch_opt p (e_opt e)\<rparr>)"
  using patch_pres [of p e "e_latency e"] by simp

lemma apply_patch_pres: "allow (PatchConfig p) \<Longrightarrow> inv e \<Longrightarrow> inv (snd (apply_patch W clk p e))"
  by (auto simp: apply_patch_def Let_def split_beta split: sum.splits if_splits
      intro!: ensure_step_pres schedule_pres patch_pres patch_opt_pres)

lemma handle_control_pres:
  assumes "allow c" "inv e"
  shows "inv (snd (snd (handle_control W clk c e)))"
proof (cases c)
  case (PatchConfig p)
  then show ?thesis
    using apply_patch_pres [of p e clk] assms by (cases "apply_patch W clk p e") (auto split: sum.splits)
qed (use assms reset_stats_pres in \<open>auto simp: Let_def\<close>)

lemma handle_request_pres:
  assumes "inv e"
  shows "inv (snd (handle_request W clk request e))"
proof -
  obtain rng where m: "snd (maybe_fail W request (count_received e)) = (count_received e)\<lparr>e_failure_rng := rng\<rparr>"
    using maybe_fail_state [of W request "count_received e"] by auto
  have known: "known_id rid (count_received e) = known_id rid e" for rid
    by (simp add: known_id_def count_received_def)
  have "count_received e = (count_received e)\<lparr>e_failure_rng := e_failure_rng e\<rparr>"
    by (simp add: count_received_def)
  then have r1: "inv (count_failed (count_received e))" using refuse_pres [OF assms] by metis
  have r2: "inv (count_failed ((count_received e)\<lparr>e_failure_rng := rng\<rparr>))" using refuse_pres [OF assms] .
  have w: "e_waiting (count_received e) = e_waiting e" by (simp add: count_received_def)
  have "inv (ensure_step W t (snd (schedule W clk ((count_received e)\<lparr>e_failure_rng := rng,
      e_waiting := e_waiting e @ [\<lparr>q_request = request, q_queued_at = clk_monotonic clk\<rparr>]\<rparr>))))"
    if "\<not> known_id (req_id request) e" for t
    using that by (intro ensure_step_pres schedule_pres enqueue_pres assms) simp
  with m r1 r2 w show ?thesis
    by (cases "maybe_fail W request (count_received e)")
      (auto simp: handle_request_def Let_def known split_beta split: option.splits)
qed

lemma handle_utility_pres: "inv e \<Longrightarrow> inv (snd (handle_utility clk u e))"
proof -
  assume e: "inv e"
  let ?e = "snd (reset_prefix_cache_outputs clk u e)"
  have e1: "inv ?e" using e by (rule reset_cache_pres)
  then have "inv (snd (lora_utility_outputs clk u ?e))"
    by (auto simp: lora_utility_outputs_def lora_add_def lora_remove_def Let_def split: sum.splits
        intro!: lora_pres)
  with e1 show ?thesis
    by (auto simp: handle_utility_def Let_def split: prod.splits option.splits sum.splits)
qed

lemma handle_input_pres: "allowed allow i \<Longrightarrow> inv e \<Longrightarrow> inv (snd (handle_input W clk i e))"
  using handle_request_pres abort_requests_pres handle_utility_pres handle_control_pres
  by (cases i) (auto simp: allowed_def split_beta intro: reply_pres)

lemma turn_pres: "engine_turn W allow e e' \<Longrightarrow> inv e \<Longrightarrow> inv e'"
  by (cases rule: engine_turn.cases)
    (auto simp: reject_request_def abort_all_requests_def Let_def
      intro: handle_input_pres finish_pull_pres step_pres reject_pres abort_requests_pres)

lemma reach_pres: "engine_reach W allow e0 e \<Longrightarrow> inv e0 \<Longrightarrow> inv e"
  by (induction rule: engine_reach.induct) (auto intro: turn_pres)

end

end
