(* ===== verification/Engine_Inv.thy ===== *)
theory Engine_Inv
  imports Engine_Frame
begin

text \<open>
  The engine's core invariant: every request id is in exactly one place, the token accounting
  of every running request adds up, and every slot a request was given carries a pin for it.
  It interprets the frame of the previous theory, so it holds in every reachable state.
\<close>

section \<open>The invariant\<close>

definition request_base :: "string \<Rightarrow> 'r active_request \<Rightarrow> bool" where
  "request_base rid r \<longleftrightarrow>
     a_id r = rid \<and> 0 < a_max_tokens r \<and> a_generated r \<le> a_max_tokens r \<and>
     a_emitted r + sum_list (map (\<lambda>m. length (pe_tokens m)) (a_pending_emits r)) = a_generated r \<and>
     (\<forall>m \<in> set (a_pending_emits r). pe_tokens m \<noteq> []) \<and>
     (\<forall>n. a_phase r = Prefill n \<longrightarrow> 0 < n)"

definition holds :: "nat \<Rightarrow> nat list \<Rightarrow> nat" where
  "holds i ids = (if i \<in> set ids then 1 else 0)"

text \<open>How many running or pulling requests were given slot \<open>i\<close>.\<close>

definition held :: "'r sim_engine \<Rightarrow> nat \<Rightarrow> nat" where
  "held e i =
     sum_list (map (\<lambda>x. holds i (a_block_ids (snd x))) (e_active e)) +
     sum_list (map (\<lambda>x. holds i (pp_block_ids (snd x))) (e_pending e))"

definition all_ids :: "'r sim_engine \<Rightarrow> string list" where
  "all_ids e = bt_keys (e_active e) @ bt_keys (e_pending e) @ map (\<lambda>q. req_id (q_request q)) (e_waiting e)"

definition base_inv :: "'r sim_engine \<Rightarrow> bool" where
  "base_inv e \<longleftrightarrow>
     bt_inv (e_active e) \<and> bt_inv (e_pending e) \<and> pool_inv (e_pool e) \<and> source_ok (e_tokens e) \<and>
     (\<forall>s. e_step_source e = Some s \<longrightarrow> step_source_ok s) \<and>
     (\<forall>rid r. bt_get (e_active e) rid = Some r \<longrightarrow> request_base rid r) \<and>
     (\<forall>rid p. bt_get (e_pending e) rid = Some p \<longrightarrow> req_id (q_request (pp_queued p)) = rid) \<and>
     distinct (all_ids e) \<and> (\<forall>i. held e i \<le> refs (e_pool e) i)"

definition unfinished :: "'r sim_engine \<Rightarrow> bool" where
  "unfinished e \<longleftrightarrow> (\<forall>rid r. bt_get (e_active e) rid = Some r \<longrightarrow> a_emitted r < a_max_tokens r)"

definition core_inv :: "'r sim_engine \<Rightarrow> bool" where
  "core_inv e \<longleftrightarrow> base_inv e \<and> unfinished e"

lemma core_base [dest]: "core_inv e \<Longrightarrow> base_inv e"
  by (simp add: core_inv_def)

text \<open>Fields the invariant does not read.\<close>

lemma core_frame [simp]:
  "base_inv (e\<lparr>e_step := x1\<rparr>) = base_inv e" "unfinished (e\<lparr>e_step := x1\<rparr>) = unfinished e"
  "base_inv (e\<lparr>e_pending_spec := x2\<rparr>) = base_inv e" "unfinished (e\<lparr>e_pending_spec := x2\<rparr>) = unfinished e"
  "base_inv (e\<lparr>e_loras := x3\<rparr>) = base_inv e" "unfinished (e\<lparr>e_loras := x3\<rparr>) = unfinished e"
  "base_inv (e\<lparr>e_stats := x4\<rparr>) = base_inv e" "unfinished (e\<lparr>e_stats := x4\<rparr>) = unfinished e"
  "base_inv (e\<lparr>e_replies := x5\<rparr>) = base_inv e" "unfinished (e\<lparr>e_replies := x5\<rparr>) = unfinished e"
  "base_inv (e\<lparr>e_latency := x6\<rparr>) = base_inv e" "unfinished (e\<lparr>e_latency := x6\<rparr>) = unfinished e"
  "base_inv (e\<lparr>e_opt := x7\<rparr>) = base_inv e" "unfinished (e\<lparr>e_opt := x7\<rparr>) = unfinished e"
  "base_inv (e\<lparr>e_failure_rng := x8\<rparr>) = base_inv e" "unfinished (e\<lparr>e_failure_rng := x8\<rparr>) = unfinished e"
  "base_inv (e\<lparr>e_prefill_order := x9\<rparr>) = base_inv e" "unfinished (e\<lparr>e_prefill_order := x9\<rparr>) = unfinished e"
  "base_inv (e\<lparr>e_emit_seq := y1\<rparr>) = base_inv e" "unfinished (e\<lparr>e_emit_seq := y1\<rparr>) = unfinished e"
  "base_inv (e\<lparr>e_recent_big := y2\<rparr>) = base_inv e" "unfinished (e\<lparr>e_recent_big := y2\<rparr>) = unfinished e"
  "base_inv (e\<lparr>e_published := y3\<rparr>) = base_inv e" "unfinished (e\<lparr>e_published := y3\<rparr>) = unfinished e"
  "base_inv (e\<lparr>e_pulls := y4\<rparr>) = base_inv e" "unfinished (e\<lparr>e_pulls := y4\<rparr>) = unfinished e"
  by (simp_all add: base_inv_def unfinished_def all_ids_def held_def)

lemma core_frame' [simp]:
  "base_inv (publish evs e) = base_inv e" "unfinished (publish evs e) = unfinished e"
  "base_inv (count_received e) = base_inv e" "unfinished (count_received e) = unfinished e"
  "base_inv (count_failed e) = base_inv e" "unfinished (count_failed e) = unfinished e"
  "base_inv (count_aborted e) = base_inv e" "unfinished (count_aborted e) = unfinished e"
  "base_inv (count_completed n e) = base_inv e" "unfinished (count_completed n e) = unfinished e"
  by (simp_all add: publish_def count_received_def count_failed_def count_aborted_def count_completed_def)

lemma core_frame_core [simp]:
  "core_inv (e\<lparr>e_step := x1\<rparr>) = core_inv e" "core_inv (e\<lparr>e_pending_spec := x2\<rparr>) = core_inv e"
  "core_inv (e\<lparr>e_prefill_order := x9\<rparr>) = core_inv e" "core_inv (count_completed n e) = core_inv e"
  "core_inv (count_failed e) = core_inv e" "core_inv (count_received e) = core_inv e"
  "core_inv (count_aborted e) = core_inv e" "core_inv (e\<lparr>e_failure_rng := x3\<rparr>) = core_inv e"
  "core_inv (e\<lparr>e_loras := x4\<rparr>) = core_inv e" "core_inv (e\<lparr>e_opt := x5\<rparr>) = core_inv e"
  "core_inv (e\<lparr>e_latency := x6\<rparr>) = core_inv e" "core_inv (e\<lparr>e_stats := x7\<rparr>) = core_inv e"
  "core_inv (e\<lparr>e_replies := x8\<rparr>) = core_inv e" "core_inv (publish evs e) = core_inv e"
  by (simp_all add: core_inv_def)

section \<open>Maps of requests\<close>

lemma mset_keys_insert:
  assumes "bt_inv m" "bt_get m k = None"
  shows "mset (bt_keys (bt_insert k v m)) = add_mset k (mset (bt_keys m))"
proof -
  have "mset (bt_keys (bt_insert k v m)) = image_mset fst (mset (bt_insert k v m))" by simp
  also have "\<dots> = add_mset k (mset (bt_keys m))" unfolding bt.mset_elems_ins [OF assms] by simp
  finally show ?thesis .
qed

lemma mset_keys_remove:
  assumes "bt_inv m" "bt_get m k = Some v"
  shows "mset (bt_keys m) = add_mset k (mset (bt_keys (bt_remove k m)))"
proof -
  have "mset (bt_keys m) = image_mset fst (mset m)" by simp
  also have "\<dots> = add_mset k (mset (bt_keys (bt_remove k m)))" unfolding bt.mset_elems_del [OF assms] by simp
  finally show ?thesis .
qed

lemma bt_length_insert:
  "bt_inv m \<Longrightarrow> bt_get m k = None \<Longrightarrow> length (bt_insert k v m) = Suc (length m)"
  using bt_sum_insert [of m k "\<lambda>_. 1" v] by (simp add: sum_list_triv)

lemma bt_length_remove:
  "bt_inv m \<Longrightarrow> bt_get m k = Some v \<Longrightarrow> length m = Suc (length (bt_remove k m))"
  using bt_sum_remove [of m k v "\<lambda>_. 1"] by (simp add: sum_list_triv)

lemma distinct_ids_swap: "mset xs = mset ys \<Longrightarrow> distinct xs \<Longrightarrow> distinct ys"
  by (metis mset_eq_imp_distinct_iff)

lemma known_id_iff: "known_id rid e \<longleftrightarrow> rid \<in> set (all_ids e)"
  by (auto simp: known_id_def all_ids_def bt_get_None_iff simp del: not_None_eq)

lemma base_invD:
  assumes "base_inv e"
  shows "bt_inv (e_active e)" "bt_inv (e_pending e)" "pool_inv (e_pool e)" "source_ok (e_tokens e)"
    "e_step_source e = Some s \<Longrightarrow> step_source_ok s"
    "bt_get (e_active e) rid = Some r \<Longrightarrow> request_base rid r"
    "bt_get (e_pending e) rid = Some p \<Longrightarrow> req_id (q_request (pp_queued p)) = rid"
    "distinct (all_ids e)" "held e i \<le> refs (e_pool e) i"
  using assms by (auto simp: base_inv_def)

section \<open>New requests\<close>

definition fresh_request :: "string \<Rightarrow> nat list \<Rightarrow> string option \<Rightarrow> 'r active_request \<Rightarrow> bool" where
  "fresh_request rid ids lora r \<longleftrightarrow>
     a_id r = rid \<and> 0 < a_max_tokens r \<and> a_generated r = 0 \<and> a_emitted r = 0 \<and>
     a_pending_emits r = [] \<and> a_block_ids r = ids \<and> a_lora r = lora \<and>
     (\<forall>n. a_phase r = Prefill n \<longrightarrow> 0 < n)"

lemma fresh_base: "fresh_request rid ids lora r \<Longrightarrow> request_base rid r \<and> a_emitted r < a_max_tokens r"
  by (simp add: fresh_request_def request_base_def)

lemma eos_capped_pos: "0 < sp_max_tokens sp \<Longrightarrow> 0 < fst (eos_capped W cfg lat n sp rng)"
  by (auto simp: eos_capped_def Let_def split: prod.splits option.splits)

lemma active_new_fresh:
  assumes "active_new W clk idx request cfg lat adm = Inr r"
  shows "fresh_request (req_id request) (ad_block_ids adm) (request_lora_name request) r"
proof -
  obtain sp where sp: "req_sampling request = Some sp" "0 < sp_max_tokens sp"
    using assms by (auto simp: active_new_def Let_def split: option.splits if_splits)
  show ?thesis
    using assms sp eos_capped_pos [OF sp(2), of W cfg lat "length (prompt_of request)"
        "seed_from_u64 (w_rng W) (request_seed W (o_seed cfg) idx (req_id request))"]
    by (auto simp: active_new_def fresh_request_def Let_def split_beta split: if_splits)
qed

lemma pin_stream_fresh:
  assumes "fresh_request rid ids lora r" "source_ok (e_tokens e)"
  shows "fresh_request rid ids lora (fst (pin_stream r e))" "source_ok (e_tokens (snd (pin_stream r e)))"
    "\<exists>src. snd (pin_stream r e) = e\<lparr>e_tokens := src\<rparr>"
  using assms source.added_ok [OF assms(2), of "a_id r" "a_prompt r"]
    source.added_pos [OF assms(2), of "a_id r" "a_prompt r"]
  by (auto simp: pin_stream_def split_beta fresh_request_def split: option.splits)

lemma pin_schedule_fresh:
  assumes "fresh_request rid ids lora r" "\<And>s. e_step_source e = Some s \<Longrightarrow> step_source_ok s"
  shows "fresh_request rid ids lora (fst (pin_schedule r e))"
    "e_step_source (snd (pin_schedule r e)) = Some s \<Longrightarrow> step_source_ok s"
    "\<exists>st. snd (pin_schedule r e) = e\<lparr>e_step_source := st\<rparr>"
proof -
  have "\<exists>st. e = e\<lparr>e_step_source := st\<rparr>" by (rule exI [of _ "e_step_source e"]) simp
  then show "\<exists>st. snd (pin_schedule r e) = e\<lparr>e_step_source := st\<rparr>"
    by (auto simp: pin_schedule_def split_beta split: option.splits)
  show "fresh_request rid ids lora (fst (pin_schedule r e))"
  proof (cases "e_step_source e")
    case (Some s)
    have "0 < min (a_max_tokens r) (output_tokens sd)"
      if "fst (take_schedule s (a_id r) (a_prompt r)) = Some sd" for sd
      using steps.clamp_pos [OF assms(2) [OF Some] that, of "a_max_tokens r"] assms(1) by (simp add: fresh_request_def)
    with Some assms(1) show ?thesis
      by (auto simp: pin_schedule_def split_beta fresh_request_def split: option.splits)
  qed (use assms(1) in \<open>simp add: pin_schedule_def\<close>)
  show "e_step_source (snd (pin_schedule r e)) = Some s \<Longrightarrow> step_source_ok s"
    using assms(2) steps.take_ok by (auto simp: pin_schedule_def split_beta split: option.splits)
qed

lemma insert_active_fields:
  "e_active (insert_active t rid r e) = bt_insert rid r (e_active e)"
  "e_pending (insert_active t rid r e) = e_pending e" "e_pool (insert_active t rid r e) = e_pool e"
  "e_tokens (insert_active t rid r e) = e_tokens e" "e_step_source (insert_active t rid r e) = e_step_source e"
  "e_opt (insert_active t rid r e) = e_opt e" "e_loras (insert_active t rid r e) = e_loras e"
  "e_stats (insert_active t rid r e) = e_stats e" "e_published (insert_active t rid r e) = e_published e"
  "e_events_on (insert_active t rid r e) = e_events_on e"
  by (simp_all add: insert_active_def Let_def split: req_phase.splits)

text \<open>An admission either puts one fresh request into the batch or fails it and gives its pins back.\<close>

lemma admit_direct_shape:
  assumes "source_ok (e_tokens e)" "\<And>s. e_step_source e = Some s \<Longrightarrow> step_source_ok s"
    and res_def: "res = admit_direct W clk rid client q ids n e"
  shows "e_pending (snd res) = e_pending e \<and> e_waiting (snd res) = e_waiting e \<and> e_opt (snd res) = e_opt e \<and>
    e_loras (snd res) = e_loras e \<and> e_published (snd res) = e_published e \<and> e_events_on (snd res) = e_events_on e \<and>
    source_ok (e_tokens (snd res)) \<and> (\<forall>s. e_step_source (snd res) = Some s \<longrightarrow> step_source_ok s) \<and>
    ((fst res = None \<and> e_pool (snd res) = e_pool e \<and> e_stats (snd res) = e_stats e \<and>
       (\<exists>r. fresh_request (req_id (q_request q)) ids (request_lora_name (q_request q)) r \<and>
          e_active (snd res) = bt_insert rid r (e_active e))) \<or>
     (fst res \<noteq> None \<and> e_pool (snd res) = unpin ids (e_pool e) \<and> e_stats (snd res) = e_stats (count_failed e) \<and>
       e_active (snd res) = e_active e))"
proof -
  let ?p = "prune_big (clk_now clk) e"
  let ?adm = "\<lparr>ad_num_running = num_in_batch e + 1, ad_num_local_cached = n, ad_block_ids = ids,
      ad_churn = (if e_recent_big ?p = [] then Calm else BigChunk), ad_queued_at = q_queued_at q\<rparr>"
  let ?new = "active_new W clk (e_index ?p) (q_request q) (e_opt ?p) (e_latency ?p) ?adm"
  have prune: "\<exists>x. ?p = e\<lparr>e_recent_big := x\<rparr>" by (auto simp: prune_big_def)
  show ?thesis
  proof (cases ?new)
    case (Inl reason)
    then show ?thesis using prune assms(1,2)
      by (auto simp: res_def admit_direct_def Let_def count_failed_def)
  next
    case (Inr r)
    have f: "fresh_request (req_id (q_request q)) ids (request_lora_name (q_request q)) r"
      using active_new_fresh [OF Inr] by simp
    have ps: "source_ok (e_tokens ?p)" "\<And>s. e_step_source ?p = Some s \<Longrightarrow> step_source_ok s"
      using prune assms(1,2) by auto
    obtain src where s1: "snd (pin_stream r ?p) = ?p\<lparr>e_tokens := src\<rparr>" using pin_stream_fresh(3) [OF f ps(1)] by blast
    let ?r1 = "fst (pin_stream r ?p)" and ?e1 = "snd (pin_stream r ?p)"
    have f1: "fresh_request (req_id (q_request q)) ids (request_lora_name (q_request q)) ?r1"
      "source_ok (e_tokens ?e1)" using pin_stream_fresh(1,2) [OF f ps(1)] by simp_all
    have st1: "\<And>s. e_step_source ?e1 = Some s \<Longrightarrow> step_source_ok s" using ps(2) s1 by simp
    obtain st where s2: "snd (pin_schedule ?r1 ?e1) = ?e1\<lparr>e_step_source := st\<rparr>"
      using pin_schedule_fresh(3) [OF f1(1) st1] by blast
    let ?r2 = "fst (pin_schedule ?r1 ?e1)" and ?e2 = "snd (pin_schedule ?r1 ?e1)"
    have f2: "fresh_request (req_id (q_request q)) ids (request_lora_name (q_request q)) ?r2"
      "\<And>s. e_step_source ?e2 = Some s \<Longrightarrow> step_source_ok s"
      using pin_schedule_fresh(1,2) [OF f1(1) st1] by simp_all
    have "res = (None, insert_active (clk_now clk) rid ?r2 ?e2)"
      using Inr by (simp add: res_def admit_direct_def Let_def split_beta)
    moreover have "source_ok (e_tokens ?e2)" using f1(2) s2 by simp
    ultimately show ?thesis using f2 s1 s2 prune by (auto simp: insert_active_fields)
  qed
qed

section \<open>Admission\<close>

text \<open>A request that left its place holds pins of its own beyond those the others hold.\<close>

definition reserved :: "string \<Rightarrow> nat list \<Rightarrow> 'r sim_engine \<Rightarrow> bool" where
  "reserved rid ids e \<longleftrightarrow>
     base_inv e \<and> rid \<notin> set (all_ids e) \<and> (\<forall>i. held e i + holds i ids \<le> refs (e_pool e) i)"

lemma held_insert_active:
  assumes "bt_inv (e_active e)" "bt_get (e_active e) rid = None"
  shows "held (e\<lparr>e_active := bt_insert rid r (e_active e)\<rparr>) i = held e i + holds i (a_block_ids r)"
  using bt_sum_insert [OF assms, of "\<lambda>x. holds i (a_block_ids (snd x))" r] by (simp add: held_def)

lemma held_insert_pending:
  assumes "bt_inv (e_pending e)" "bt_get (e_pending e) rid = None"
  shows "held (e\<lparr>e_pending := bt_insert rid p (e_pending e)\<rparr>) i = held e i + holds i (pp_block_ids p)"
  using bt_sum_insert [OF assms, of "\<lambda>x. holds i (pp_block_ids (snd x))" p] by (simp add: held_def)

lemma held_remove_active:
  assumes "bt_inv (e_active e)" "bt_get (e_active e) rid = Some r"
  shows "held e i = holds i (a_block_ids r) + held (e\<lparr>e_active := bt_remove rid (e_active e)\<rparr>) i"
  using bt_sum_remove [OF assms, of "\<lambda>x. holds i (a_block_ids (snd x))"] by (simp add: held_def)

lemma held_remove_pending:
  assumes "bt_inv (e_pending e)" "bt_get (e_pending e) rid = Some p"
  shows "held e i = holds i (pp_block_ids p) + held (e\<lparr>e_pending := bt_remove rid (e_pending e)\<rparr>) i"
  using bt_sum_remove [OF assms, of "\<lambda>x. holds i (pp_block_ids (snd x))"] by (simp add: held_def)

lemma held_frame [simp]:
  "held (e\<lparr>e_pool := x1\<rparr>) i = held e i" "held (e\<lparr>e_waiting := x2\<rparr>) i = held e i"
  "held (e\<lparr>e_tokens := x3\<rparr>) i = held e i" "held (e\<lparr>e_published := x4\<rparr>) i = held e i"
  by (simp_all add: held_def)

lemma publish_fields [simp]:
  "e_active (publish evs e) = e_active e" "e_pending (publish evs e) = e_pending e"
  "e_pool (publish evs e) = e_pool e" "e_tokens (publish evs e) = e_tokens e"
  "e_step_source (publish evs e) = e_step_source e" "e_opt (publish evs e) = e_opt e"
  "e_loras (publish evs e) = e_loras e" "e_stats (publish evs e) = e_stats e"
  "e_events_on (publish evs e) = e_events_on e" "held (publish evs e) i = held e i"
  by (simp_all add: publish_def)

lemma reserved_get:
  "reserved rid ids e \<Longrightarrow> bt_get (e_active e) rid = None \<and> bt_get (e_pending e) rid = None"
  by (auto simp: reserved_def all_ids_def bt_get_None_iff)

lemma holds_count: "holds i ids \<le> count_list ids i"
  using count_list_0_iff [of ids i] by (auto simp: holds_def)

lemma reserved_after_caching:
  assumes "base_inv e" "next_waiting e = Some (q, rest)"
    "cache_prompt (e_pool e) toks lora salt = (out, pool)"
  shows "reserved (req_id (q_request q)) (block_ids out) (publish evs (e\<lparr>e_waiting := rest, e_pool := pool\<rparr>))"
proof -
  note I = base_invD [OF assms(1)]
  have "mset (e_waiting e) = add_mset q (mset rest)"
    using assms(2) by (auto simp: next_waiting_def bind_eq_Some_conv dest: vd_remove_mset)
  then have "image_mset (\<lambda>q. req_id (q_request q)) (mset (e_waiting e)) =
      image_mset (\<lambda>q. req_id (q_request q)) (add_mset q (mset rest))" by simp
  then have "mset (all_ids e) = mset (req_id (q_request q) # all_ids (e\<lparr>e_waiting := rest\<rparr>))"
    by (simp add: all_ids_def)
  then have d: "distinct (req_id (q_request q) # all_ids (e\<lparr>e_waiting := rest\<rparr>))"
    using I(8) by (rule distinct_ids_swap)
  have pool: "pool_inv pool" using cache_prompt_inv [OF I(3), of toks lora salt] assms(3) by simp
  have pins: "held e i + holds i (block_ids out) \<le> refs pool i" for i
    using I(9) [of i] prompt_pins_aux(1) [OF I(3) assms(3), of i] holds_count [of i "block_ids out"] by simp
  then have "held e i \<le> refs pool i" for i using add_leD1 by blast
  with d pool pins assms(1) show ?thesis
    by (simp add: reserved_def base_inv_def all_ids_def)
qed

lemma reserved_pulled:
  assumes "base_inv e" "bt_get (e_pending e) rid = Some p"
  shows "reserved rid (pp_block_ids p) (e\<lparr>e_pending := bt_remove rid (e_pending e)\<rparr>)"
proof -
  note I = base_invD [OF assms(1)]
  let ?e = "e\<lparr>e_pending := bt_remove rid (e_pending e)\<rparr>"
  have "mset (all_ids e) = mset (rid # all_ids ?e)"
    using mset_keys_remove [OF I(2) assms(2)] by (simp add: all_ids_def)
  then have d: "distinct (rid # all_ids ?e)" using I(8) by (rule distinct_ids_swap)
  have h: "held ?e i + holds i (pp_block_ids p) \<le> refs (e_pool e) i" for i
    using held_remove_pending [OF I(2) assms(2), of i] I(9) [of i] by simp
  then have "held ?e i \<le> refs (e_pool e) i" for i using add_leD1 by blast
  with d h assms(1) show ?thesis
    by (simp add: reserved_def base_inv_def bt_inv_remove bt_simps)
qed

lemma base_insert_active:
  assumes "reserved rid ids e" "fresh_request rid ids lora r"
  shows "base_inv (e\<lparr>e_active := bt_insert rid r (e_active e)\<rparr>)"
proof -
  have b: "base_inv e" and none: "bt_get (e_active e) rid = None" and h: "\<And>i. held e i + holds i ids \<le> refs (e_pool e) i"
    using assms(1) reserved_get [OF assms(1)] by (auto simp: reserved_def)
  note I = base_invD [OF b]
  let ?e = "e\<lparr>e_active := bt_insert rid r (e_active e)\<rparr>"
  have "mset (rid # all_ids e) = mset (all_ids ?e)"
    using mset_keys_insert [OF I(1) none, of r] by (simp add: all_ids_def)
  moreover have "distinct (rid # all_ids e)" using assms(1) I(8) by (simp add: reserved_def)
  ultimately have "distinct (all_ids ?e)" by (rule distinct_ids_swap)
  moreover have "held ?e i \<le> refs (e_pool e) i" for i
    using held_insert_active [OF I(1) none, of r i] h [of i] assms(2) by (simp add: fresh_request_def)
  ultimately show ?thesis
    using b fresh_base [OF assms(2)] by (auto simp: base_inv_def bt_inv_insert bt_simps)
qed

lemma base_insert_pending:
  assumes "reserved rid ids e" "pp_block_ids p = ids" "req_id (q_request (pp_queued p)) = rid"
  shows "base_inv (e\<lparr>e_pending := bt_insert rid p (e_pending e)\<rparr>)"
proof -
  have b: "base_inv e" and none: "bt_get (e_pending e) rid = None" and h: "\<And>i. held e i + holds i ids \<le> refs (e_pool e) i"
    using assms(1) reserved_get [OF assms(1)] by (auto simp: reserved_def)
  note I = base_invD [OF b]
  let ?e = "e\<lparr>e_pending := bt_insert rid p (e_pending e)\<rparr>"
  have "mset (rid # all_ids e) = mset (all_ids ?e)"
    using mset_keys_insert [OF I(2) none, of p] by (simp add: all_ids_def)
  moreover have "distinct (rid # all_ids e)" using assms(1) I(8) by (simp add: reserved_def)
  ultimately have "distinct (all_ids ?e)" by (rule distinct_ids_swap)
  moreover have "held ?e i \<le> refs (e_pool e) i" for i
    using held_insert_pending [OF I(2) none, of p i] h [of i] assms(2) by simp
  ultimately show ?thesis
    using b assms(3) by (auto simp: base_inv_def bt_inv_insert bt_simps)
qed

lemma base_release:
  assumes "reserved rid ids e"
  shows "base_inv (e\<lparr>e_pool := unpin ids (e_pool e)\<rparr>)"
proof -
  have b: "base_inv e" and h: "\<And>i. held e i + holds i ids \<le> refs (e_pool e) i"
    using assms by (auto simp: reserved_def)
  have "held e i \<le> refs (unpin ids (e_pool e)) i" for i
    using h [of i] unpin_refs [OF base_invD(3) [OF b], of ids i] by (simp add: holds_def split: if_splits)
  with b show ?thesis by (simp add: base_inv_def unpin_inv all_ids_def)
qed

text \<open>The invariant reads six fields only.\<close>

lemma base_inv_cong:
  assumes "base_inv e" "e_active e' = e_active e" "e_pending e' = e_pending e" "e_waiting e' = e_waiting e"
    "e_pool e' = e_pool e" "source_ok (e_tokens e')" "\<forall>s. e_step_source e' = Some s \<longrightarrow> step_source_ok s"
  shows "base_inv e'"
  using assms by (simp add: base_inv_def all_ids_def held_def)

lemma admit_direct_core:
  assumes "reserved rid ids e" "unfinished e" "req_id (q_request q) = rid"
  shows "core_inv (snd (admit_direct W clk rid client q ids n e))"
proof -
  have b: "base_inv e" using assms(1) by (simp add: reserved_def)
  note I = base_invD [OF b]
  define e' where "e' = snd (admit_direct W clk rid client q ids n e)"
  note S = admit_direct_shape [OF I(4,5) refl, of W clk rid client q ids n, folded e'_def]
  have fields: "e_pending e' = e_pending e" "e_waiting e' = e_waiting e" "source_ok (e_tokens e')"
    "\<forall>s. e_step_source e' = Some s \<longrightarrow> step_source_ok s" using S by blast+
  from S consider (run) r where "fresh_request rid ids (request_lora_name (q_request q)) r"
      "e_active e' = bt_insert rid r (e_active e)" "e_pool e' = e_pool e"
    | (fail) "e_pool e' = unpin ids (e_pool e)" "e_active e' = e_active e"
    using assms(3) by blast
  then have "core_inv e'"
  proof cases
    case run
    have "base_inv e'"
      by (rule base_inv_cong [OF base_insert_active [OF assms(1) run(1)]]) (use run fields in simp_all)
    moreover have "unfinished e'"
      using assms(2) run fresh_base [OF run(1)] by (auto simp: unfinished_def bt_simps)
    ultimately show ?thesis by (simp add: core_inv_def)
  next
    case fail
    have "base_inv e'"
      by (rule base_inv_cong [OF base_release [OF assms(1)]]) (use fail fields in simp_all)
    with assms(2) fail show ?thesis by (simp add: core_inv_def unfinished_def)
  qed
  then show ?thesis by (simp add: e'_def)
qed

lemma admit_core:
  assumes "core_inv e" "next_waiting e = Some (q, rest)"
  shows "core_inv (snd (admit W clk q (e\<lparr>e_waiting := rest\<rparr>)))"
proof -
  let ?req = "q_request q"
  obtain out pool where c: "cache_prompt (e_pool e) (prompt_of ?req) (request_lora_name ?req) (req_cache_salt ?req) = (out, pool)"
    by (cases "cache_prompt (e_pool e) (prompt_of ?req) (request_lora_name ?req) (req_cache_salt ?req)")
  let ?e1 = "publish (events out) (e\<lparr>e_waiting := rest, e_pool := pool\<rparr>)"
  have r: "reserved (req_id ?req) (block_ids out) ?e1"
    using reserved_after_caching [OF core_base [OF assms(1)] assms(2) c] .
  have u: "unfinished ?e1" using assms(1) by (simp add: core_inv_def unfinished_def)
  show ?thesis
  proof (cases "remote_of ?req")
    case None
    with c show ?thesis
      using admit_direct_core [OF r u refl, of W clk "req_client ?req" "num_cached_tokens out"]
      by (simp add: admit_def Let_def)
  next
    case (Some remote)
    with c u show ?thesis
      using base_insert_pending [OF r, of "\<lparr>pp_queued = q, pp_block_ids = block_ids out,
          pp_num_local_cached = num_cached_tokens out, pp_client = req_client ?req, pp_lora = request_lora_name ?req\<rparr>"]
      by (simp add: admit_def Let_def core_inv_def unfinished_def)
  qed
qed

lemma pull_core:
  assumes "core_inv e" "bt_get (e_pending e) rid = Some p"
  shows "core_inv (snd (admit_direct W clk rid (pp_client p) (pp_queued p) (pp_block_ids p) (pp_num_local_cached p)
    (e\<lparr>e_pending := bt_remove rid (e_pending e)\<rparr>)))"
proof (rule admit_direct_core)
  show "reserved rid (pp_block_ids p) (e\<lparr>e_pending := bt_remove rid (e_pending e)\<rparr>)"
    using reserved_pulled [OF core_base [OF assms(1)] assms(2)] .
  show "unfinished (e\<lparr>e_pending := bt_remove rid (e_pending e)\<rparr>)"
    using assms(1) by (simp add: core_inv_def unfinished_def)
  show "req_id (q_request (pp_queued p)) = rid" using base_invD(7) [OF core_base [OF assms(1)] assms(2)] .
qed

section \<open>Requests advance in place\<close>

text \<open>What an advance of a request never changes, and that generation only grows.\<close>

definition advances :: "'r active_request \<Rightarrow> 'r active_request \<Rightarrow> bool" where
  "advances r r' \<longleftrightarrow>
     a_id r' = a_id r \<and> a_client r' = a_client r \<and> a_max_tokens r' = a_max_tokens r \<and>
     a_block_ids r' = a_block_ids r \<and> a_lora r' = a_lora r \<and> a_emitted r' = a_emitted r \<and>
     a_generated r \<le> a_generated r' \<and> (\<forall>rid. request_base rid r \<longrightarrow> request_base rid r')"

lemma advances_refl [simp]: "advances r r"
  by (simp add: advances_def)

lemma advances_trans: "advances r s \<Longrightarrow> advances s t \<Longrightarrow> advances r t"
  by (auto simp: advances_def)

lemma base_modify_active:
  assumes "base_inv e" "bt_get (e_active e) rid = Some r" "advances r r'"
  shows "base_inv (e\<lparr>e_active := bt_modify rid (\<lambda>_. r') (e_active e)\<rparr>)"
proof -
  note I = base_invD [OF assms(1)]
  let ?e = "e\<lparr>e_active := bt_modify rid (\<lambda>_. r') (e_active e)\<rparr>"
  have "held ?e i = held e i" for i
    using bt_sum_modify [OF I(1) assms(2), of "\<lambda>x. holds i (a_block_ids (snd x))" "\<lambda>_. r'"] assms(3)
    by (simp add: held_def advances_def)
  moreover have "request_base rid r'" using I(6) [OF assms(2)] assms(3) by (simp add: advances_def)
  moreover have "all_ids ?e = all_ids e" unfolding all_ids_def by simp
  ultimately show ?thesis
    using assms(1,2) by (auto simp: base_inv_def bt_inv_modify bt_simps split: if_splits)
qed

lemma core_modify_active:
  assumes "core_inv e" "bt_get (e_active e) rid = Some r" "advances r r'"
  shows "core_inv (e\<lparr>e_active := bt_modify rid (\<lambda>_. r') (e_active e)\<rparr>)"
proof -
  have "a_emitted r' < a_max_tokens r'"
    using assms by (auto simp: core_inv_def unfinished_def advances_def)
  then show ?thesis
    using assms base_modify_active [OF core_base [OF assms(1)] assms(2,3)]
    by (auto simp: core_inv_def unfinished_def bt_simps split: if_splits)
qed

lemma generate_advances:
  assumes "source_ok src" "generate W src t c sc sq r = (src', r')"
  shows "advances r r'" "source_ok src'" "a_generated r' = a_generated r + chunk_len r c"
    "a_phase r' = a_phase r"
proof -
  let ?ctx = "\<lparr>tc_request_id = a_id r, tc_prompt = a_prompt r, tc_num_generated = a_generated r\<rparr>"
  let ?n = "next_tokens (w_rng W) src ?ctx (chunk_len r c) (a_rng r)"
  have len: "length (fst ?n) = chunk_len r c" by (rule source.draw_length)
  have ok: "source_ok (fst (snd ?n))" using assms(1) by (rule source.draw_ok)
  have le: "chunk_len r c \<le> a_max_tokens r - a_generated r" by (simp add: chunk_len_def)
  show "advances r r'" "source_ok src'" "a_generated r' = a_generated r + chunk_len r c" "a_phase r' = a_phase r"
    using assms len ok le
    by (auto simp: generate_def Let_def split_beta advances_def request_base_def split: if_splits)
qed

lemma draw_step_advances: "advances r (snd (draw_step W lat n r))"
  by (auto simp: draw_step_def split_beta advances_def request_base_def split: option.splits)

lemma draw_step_fields:
  "a_phase (snd (draw_step W lat n r)) = a_phase r" "a_generated (snd (draw_step W lat n r)) = a_generated r"
  by (simp_all add: draw_step_def split_beta split: option.splits)

text \<open>Composition only advances requests without generating, and sets the step and the prefill order.\<close>

lemma draw_decoders_rule:
  assumes "P e"
    and "\<And>e rid r. P e \<Longrightarrow> bt_get (e_active e) rid = Some r \<Longrightarrow>
      P (e\<lparr>e_active := bt_modify rid (\<lambda>_. snd (draw_step W (e_latency e) n r)) (e_active e)\<rparr>)"
  shows "P (snd (snd (draw_decoders W n pacer i base rids e)))"
  using assms(1)
proof (induction rids arbitrary: i base e)
  case (Cons rid rids)
  show ?case
  proof (cases "bt_get (e_active e) rid")
    case None
    then show ?thesis using Cons by simp
  next
    case (Some r)
    then have "P (e\<lparr>e_active := bt_modify rid (\<lambda>_. snd (draw_step W (e_latency e) n r)) (e_active e)\<rparr>)"
      using assms(2) Cons.prems by blast
    from Cons.IH [OF this] Some show ?thesis by (simp add: split_beta Let_def)
  qed
qed simp

lemma compose_step_rule:
  assumes "P e"
    and "\<And>e n rid r. P e \<Longrightarrow> bt_get (e_active e) rid = Some r \<Longrightarrow>
      P (e\<lparr>e_active := bt_modify rid (\<lambda>_. snd (draw_step W (e_latency e) n r)) (e_active e)\<rparr>)"
    and "\<And>e x. P e \<Longrightarrow> P (e\<lparr>e_prefill_order := x\<rparr>)" "\<And>e x. P e \<Longrightarrow> P (e\<lparr>e_step := x\<rparr>)"
  shows "P (compose_step W t e)"
proof -
  let ?d = "draw_decoders W (num_in_batch e) (pacer_scan (e_active e) None 0 0 (decoder_ids e)) 0 0 (decoder_ids e) e"
  have "P (snd (snd ?d))" using assms(1,2) by (rule draw_decoders_rule)
  then have "P ((snd (snd ?d))\<lparr>e_prefill_order := x\<rparr>)" for x by (rule assms(3))
  then show ?thesis using assms(4) by (simp add: compose_step_def Let_def split_beta)
qed

lemma compose_core: "core_inv e \<Longrightarrow> core_inv (compose_step W t e)"
  by (rule compose_step_rule) (auto intro: core_modify_active draw_step_advances)

lemma core_tokens: "core_inv e \<Longrightarrow> source_ok src \<Longrightarrow> core_inv (e\<lparr>e_tokens := src\<rparr>)"
  by (simp add: core_inv_def base_inv_def unfinished_def all_ids_def)

lemma generate_for_core:
  assumes "core_inv e" "bt_get (e_active e) rid = Some r0" "advances r0 r"
  shows "core_inv (generate_for W t c rid r e)"
proof -
  obtain src r' where g: "generate W (e_tokens e) t c (time_scale e) (e_emit_seq e) r = (src, r')"
    by (cases "generate W (e_tokens e) t c (time_scale e) (e_emit_seq e) r")
  note A = generate_advances [OF base_invD(4) [OF core_base [OF assms(1)]] g]
  have "advances r0 r'" using assms(3) A(1) by (rule advances_trans)
  then have "core_inv (e\<lparr>e_tokens := src, e_active := bt_modify rid (\<lambda>_. r') (e_active e)\<rparr>)"
    using core_modify_active [OF core_tokens [OF assms(1) A(2)]] assms(2) by simp
  with g show ?thesis by (simp add: generate_for_def core_inv_def)
qed

lemma decoder_core: "core_inv e \<Longrightarrow> core_inv (run_decoder W t d e)"
  by (auto simp: run_decoder_def intro: generate_for_core split: option.splits)

lemma chunk_core:
  assumes "core_inv e"
  shows "core_inv (run_chunk W t n c e)"
proof (cases "bt_get (e_active e) (fst c)")
  case (Some r)
  show ?thesis
  proof (cases "a_phase r")
    case (Prefill rem)
    have "0 < rem - snd c \<Longrightarrow> advances r (r\<lparr>a_phase := Prefill (rem - snd c)\<rparr>)"
      by (auto simp: advances_def request_base_def)
    moreover have "advances r (r\<lparr>a_rng := x, a_emit_offset := y, a_phase := Decode\<rparr>)" for x y
      by (auto simp: advances_def request_base_def)
    ultimately show ?thesis
      using assms Some Prefill core_modify_active [OF assms Some] generate_for_core [OF assms Some]
      by (auto simp: run_chunk_def split_beta Let_def)
  qed (use assms Some in \<open>simp add: run_chunk_def\<close>)
qed (use assms in \<open>simp add: run_chunk_def\<close>)

section \<open>Retirement\<close>

lemma base_finish:
  assumes "base_inv e"
  shows "base_inv (finish_request rid e)"
proof (cases "bt_get (e_active e) rid")
  case (Some r)
  note I = base_invD [OF assms]
  let ?e = "e\<lparr>e_active := bt_remove rid (e_active e)\<rparr>"
  have "mset (all_ids e) = mset (rid # all_ids ?e)"
    using mset_keys_remove [OF I(1) Some] by (simp add: all_ids_def)
  then have d: "distinct (rid # all_ids ?e)" using I(8) by (rule distinct_ids_swap)
  have h: "held ?e i + holds i (a_block_ids r) \<le> refs (e_pool e) i" for i
    using held_remove_active [OF I(1) Some, of i] I(9) [of i] by simp
  then have "held ?e i \<le> refs (e_pool e) i" for i using add_leD1 by blast
  with d h assms have "reserved rid (a_block_ids r) ?e"
    by (simp add: reserved_def base_inv_def bt_inv_remove bt_simps)
  from base_release [OF this] have "base_inv (?e\<lparr>e_pool := unpin (a_block_ids r) (e_pool e)\<rparr>)" by simp
  then show ?thesis
    by (rule base_inv_cong) (use Some I(4,5) source.finished_ok in \<open>auto simp: finish_request_def\<close>)
qed (use assms in \<open>simp add: finish_request_def\<close>)

lemma finish_fold_base: "base_inv e \<Longrightarrow> base_inv (fold finish_request rids e)"
  by (induction rids arbitrary: e) (auto intro: base_finish)

lemma finish_get:
  "bt_get (e_active (finish_request rid e)) k = (if k = rid then None else bt_get (e_active e) k)"
  by (auto simp: finish_request_def bt_simps split: option.splits)

lemma finish_fold_get:
  "bt_get (e_active (fold finish_request rids e)) k = (if k \<in> set rids then None else bt_get (e_active e) k)"
  by (induction rids arbitrary: e) (auto simp: finish_get)

section \<open>Emission\<close>

definition emit_len :: "pending_emit list \<Rightarrow> nat" where
  "emit_len ms = sum_list (map (\<lambda>m. length (pe_tokens m)) ms)"

lemma emit_len_simps [simp]: "emit_len [] = 0" "emit_len (m # ms) = length (pe_tokens m) + emit_len ms"
  by (simp_all add: emit_len_def)

lemma emit_len_0: "emit_len ms = 0 \<Longrightarrow> \<forall>m \<in> set ms. pe_tokens m \<noteq> [] \<Longrightarrow> ms = []"
  by (cases ms) auto

lemma emit_one_fields:
  "a_emitted (snd (emit_one src r m)) = a_emitted r + length (pe_tokens m)"
  "a_id (snd (emit_one src r m)) = a_id r" "a_client (snd (emit_one src r m)) = a_client r"
  "a_max_tokens (snd (emit_one src r m)) = a_max_tokens r" "a_generated (snd (emit_one src r m)) = a_generated r"
  "a_block_ids (snd (emit_one src r m)) = a_block_ids r" "a_lora (snd (emit_one src r m)) = a_lora r"
  "a_phase (snd (emit_one src r m)) = a_phase r"
  "de_finished (fst (emit_one src r m)) \<longleftrightarrow> a_max_tokens r \<le> a_emitted r + length (pe_tokens m)"
  "out_finish (de_output (fst (emit_one src r m))) =
     (if de_finished (fst (emit_one src r m))
      then Some (case source_finish_reason src (a_id r) of None \<Rightarrow> FLength | Some f \<Rightarrow> f) else None)"
  "out_id (de_output (fst (emit_one src r m))) = a_id r" "de_client (fst (emit_one src r m)) = a_client r"
  "out_tokens (de_output (fst (emit_one src r m))) = pe_tokens m"
  by (simp_all add: emit_one_def Let_def request_output_def)

text \<open>
  Draining a request delivers a prefix of its queued chunks in order, keeps the token
  account, and produces at most one finishing output, as the last one, exactly when the
  delivered tokens reach the request's length.
\<close>

lemma emit_due_spec:
  assumes "a_emitted r < a_max_tokens r" "a_emitted r + emit_len ms \<le> a_max_tokens r"
    "\<forall>m \<in> set ms. pe_tokens m \<noteq> []" "emit_due src now r ms = (os, r')"
  shows "a_id r' = a_id r \<and> a_client r' = a_client r \<and> a_max_tokens r' = a_max_tokens r \<and>
      a_generated r' = a_generated r \<and> a_block_ids r' = a_block_ids r \<and> a_lora r' = a_lora r \<and>
      a_phase r' = a_phase r"
    and "a_emitted r' + emit_len (a_pending_emits r') = a_emitted r + emit_len ms"
    and "set (a_pending_emits r') \<subseteq> set ms"
    and "length (filter de_finished os) = (if a_max_tokens r \<le> a_emitted r' then 1 else 0)"
    and "\<forall>d \<in> set os. out_id (de_output d) = a_id r \<and> de_client d = a_client r"
    and "concat (map (\<lambda>d. out_tokens (de_output d)) os) @ concat (map pe_tokens (a_pending_emits r')) =
      concat (map pe_tokens ms)"
    and "a_max_tokens r \<le> a_emitted r' \<Longrightarrow> os \<noteq> [] \<and> de_finished (last os) \<and>
      out_finish (de_output (last os)) = Some (case source_finish_reason src (a_id r) of None \<Rightarrow> FLength | Some f \<Rightarrow> f)"
    and "\<forall>d \<in> set os. out_finish (de_output d) \<noteq> None \<longleftrightarrow> de_finished d"
proof -
  have "(a_id r' = a_id r \<and> a_client r' = a_client r \<and> a_max_tokens r' = a_max_tokens r \<and>
      a_generated r' = a_generated r \<and> a_block_ids r' = a_block_ids r \<and> a_lora r' = a_lora r \<and>
      a_phase r' = a_phase r) \<and>
    a_emitted r' + emit_len (a_pending_emits r') = a_emitted r + emit_len ms \<and>
    set (a_pending_emits r') \<subseteq> set ms \<and>
    length (filter de_finished os) = (if a_max_tokens r \<le> a_emitted r' then 1 else 0) \<and>
    (\<forall>d \<in> set os. out_id (de_output d) = a_id r \<and> de_client d = a_client r) \<and>
    concat (map (\<lambda>d. out_tokens (de_output d)) os) @ concat (map pe_tokens (a_pending_emits r')) =
      concat (map pe_tokens ms) \<and>
    (a_max_tokens r \<le> a_emitted r' \<longrightarrow> os \<noteq> [] \<and> de_finished (last os) \<and>
      out_finish (de_output (last os)) = Some (case source_finish_reason src (a_id r) of None \<Rightarrow> FLength | Some f \<Rightarrow> f)) \<and>
    (\<forall>d \<in> set os. out_finish (de_output d) \<noteq> None \<longleftrightarrow> de_finished d)"
    using assms
  proof (induction ms arbitrary: r os r')
    case Nil
    then show ?case by auto
  next
    case (Cons m ms)
    show ?case
    proof (cases "pe_due m \<le> now")
      case False
      with Cons.prems show ?thesis by auto
    next
      case True
      let ?o = "fst (emit_one src r m)" and ?r = "snd (emit_one src r m)"
      obtain os1 where os1: "emit_due src now ?r ms = (os1, r')" "os = ?o # os1"
        using Cons.prems(4) True by (auto simp: split_beta prod_eq_iff)
      note F = emit_one_fields [of src r m]
      show ?thesis
      proof (cases "a_max_tokens r \<le> a_emitted r + length (pe_tokens m)")
        case full: True
        then have "ms = []" using Cons.prems(2,3) by (intro emit_len_0) auto
        then have "os1 = []" "r' = ?r\<lparr>a_pending_emits := []\<rparr>" using os1(1) by auto
        with full \<open>ms = []\<close> os1(2) F show ?thesis by auto
      next
        case False
        have "a_emitted ?r < a_max_tokens ?r" "a_emitted ?r + emit_len ms \<le> a_max_tokens ?r"
          "\<forall>m \<in> set ms. pe_tokens m \<noteq> []" using False Cons.prems F by auto
        from Cons.IH [OF this os1(1)] False os1(2) F show ?thesis by auto
      qed
    qed
  qed
  then show "a_id r' = a_id r \<and> a_client r' = a_client r \<and> a_max_tokens r' = a_max_tokens r \<and>
      a_generated r' = a_generated r \<and> a_block_ids r' = a_block_ids r \<and> a_lora r' = a_lora r \<and>
      a_phase r' = a_phase r"
    "a_emitted r' + emit_len (a_pending_emits r') = a_emitted r + emit_len ms"
    "set (a_pending_emits r') \<subseteq> set ms"
    "length (filter de_finished os) = (if a_max_tokens r \<le> a_emitted r' then 1 else 0)"
    "\<forall>d \<in> set os. out_id (de_output d) = a_id r \<and> de_client d = a_client r"
    "concat (map (\<lambda>d. out_tokens (de_output d)) os) @ concat (map pe_tokens (a_pending_emits r')) =
      concat (map pe_tokens ms)"
    "a_max_tokens r \<le> a_emitted r' \<Longrightarrow> os \<noteq> [] \<and> de_finished (last os) \<and>
      out_finish (de_output (last os)) = Some (case source_finish_reason src (a_id r) of None \<Rightarrow> FLength | Some f \<Rightarrow> f)"
    "\<forall>d \<in> set os. out_finish (de_output d) \<noteq> None \<longleftrightarrow> de_finished d"
    by blast+
qed

lemma drain_spec:
  assumes "request_base rid r" "a_emitted r < a_max_tokens r" "drain_request src now r = (os, r')"
  shows "request_base rid r'" "a_block_ids r' = a_block_ids r" "a_lora r' = a_lora r"
    "a_max_tokens r' = a_max_tokens r" "a_generated r' = a_generated r"
    "length (filter de_finished os) = (if a_max_tokens r \<le> a_emitted r' then 1 else 0)"
    "\<forall>d \<in> set os. out_id (de_output d) = rid \<and> de_client d = a_client r"
proof -
  have pre: "a_emitted r + emit_len (a_pending_emits r) \<le> a_max_tokens r"
    "\<forall>m \<in> set (a_pending_emits r). pe_tokens m \<noteq> []"
    using assms(1) by (auto simp: request_base_def emit_len_def)
  note S = emit_due_spec [OF assms(2) pre assms(3) [unfolded drain_request_def]]
  show "request_base rid r'"
    using assms(1) S(1-3) by (auto simp: request_base_def emit_len_def subset_iff)
  show "a_block_ids r' = a_block_ids r" "a_lora r' = a_lora r" "a_max_tokens r' = a_max_tokens r"
    "a_generated r' = a_generated r"
    "length (filter de_finished os) = (if a_max_tokens r \<le> a_emitted r' then 1 else 0)"
    "\<forall>d \<in> set os. out_id (de_output d) = rid \<and> de_client d = a_client r"
    using S(1,4,5) assms(1) by (auto simp: request_base_def)
qed

definition drained :: "instant \<Rightarrow> 'r sim_engine \<Rightarrow> 'r active_request \<Rightarrow> 'r active_request" where
  "drained now e r = snd (drain_request (e_tokens e) now r)"

lemma drain_all_eq:
  "drain_all now e =
     (concat (map (\<lambda>x. fst (drain_request (e_tokens e) now (snd x))) (e_active e)),
      e\<lparr>e_active := map (\<lambda>x. (fst x, drained now e (snd x))) (e_active e)\<rparr>)"
  by (simp add: drain_all_def Let_def split_beta comp_def drained_def)

lemma map_snd_get: "bt_get (map (\<lambda>x. (fst x, f (snd x))) m) k = map_option f (bt_get m k)"
  by (induction m) (auto simp: bt_get_def)

lemma map_snd_inv: "bt_inv (map (\<lambda>x. (fst x, f (snd x))) m) = bt_inv m"
  by (simp add: bt_inv_def comp_def)

lemma set_btset_insert [simp]: "set (btset_insert x xs) = insert x (set xs)"
  by (auto simp: btset_insert_def set_insort_key)

lemma finishing_set: "set (finishing emits) = {out_id (de_output d) | d. d \<in> set emits \<and> de_finished d}"
proof -
  have "set (fold (\<lambda>d ids. if de_finished d then btset_insert (out_id (de_output d)) ids else ids) emits acc) =
      set acc \<union> {out_id (de_output d) | d. d \<in> set emits \<and> de_finished d}" for acc
    by (induction emits arbitrary: acc) auto
  then show ?thesis by (simp add: finishing_def)
qed

text \<open>The ids that retire in a flush are those of the requests whose delivered tokens reached their length.\<close>

definition complete_at :: "instant \<Rightarrow> 'r sim_engine \<Rightarrow> 'r active_request \<Rightarrow> bool" where
  "complete_at now e r \<longleftrightarrow> a_max_tokens r \<le> a_emitted (drained now e r)"

lemma core_request:
  assumes "core_inv e" "(rid, r) \<in> set (e_active e)"
  shows "request_base rid r" "a_emitted r < a_max_tokens r"
proof -
  have "bt_get (e_active e) rid = Some r"
    using bt.elems_get [OF base_invD(1) [OF core_base [OF assms(1)]]] assms(2) by simp
  then show "request_base rid r" "a_emitted r < a_max_tokens r"
    using assms(1) by (auto simp: core_inv_def base_inv_def unfinished_def)
qed

lemma drain_core_request:
  assumes "core_inv e" "(rid, r) \<in> set (e_active e)"
  shows "request_base rid (drained now e r)" "a_block_ids (drained now e r) = a_block_ids r"
    "a_lora (drained now e r) = a_lora r" "a_max_tokens (drained now e r) = a_max_tokens r"
    "a_generated (drained now e r) = a_generated r"
    "length (filter de_finished (fst (drain_request (e_tokens e) now r))) = (if complete_at now e r then 1 else 0)"
    "\<forall>d \<in> set (fst (drain_request (e_tokens e) now r)). out_id (de_output d) = rid"
proof -
  have d: "drain_request (e_tokens e) now r = (fst (drain_request (e_tokens e) now r), drained now e r)"
    by (simp add: drained_def)
  note D = drain_spec [OF core_request [OF assms] d]
  from D show "request_base rid (drained now e r)" "a_block_ids (drained now e r) = a_block_ids r"
    "a_lora (drained now e r) = a_lora r" "a_max_tokens (drained now e r) = a_max_tokens r"
    "a_generated (drained now e r) = a_generated r"
    "length (filter de_finished (fst (drain_request (e_tokens e) now r))) = (if complete_at now e r then 1 else 0)"
    "\<forall>d \<in> set (fst (drain_request (e_tokens e) now r)). out_id (de_output d) = rid"
    by (simp_all add: complete_at_def)
qed

lemma finishing_ids:
  assumes "core_inv e"
  shows "rid \<in> set (finishing (fst (drain_all now e))) \<longleftrightarrow>
    (\<exists>r. bt_get (e_active e) rid = Some r \<and> complete_at now e r)"
proof -
  have inv: "bt_inv (e_active e)" using base_invD(1) [OF core_base [OF assms]] .
  have "rid \<in> set (finishing (fst (drain_all now e))) \<longleftrightarrow>
      (\<exists>x \<in> set (e_active e). \<exists>d \<in> set (fst (drain_request (e_tokens e) now (snd x))).
         de_finished d \<and> out_id (de_output d) = rid)"
    by (auto simp: finishing_set drain_all_eq)
  also have "\<dots> \<longleftrightarrow> (\<exists>r. (rid, r) \<in> set (e_active e) \<and> complete_at now e r)"
  proof
    assume "\<exists>x \<in> set (e_active e). \<exists>d \<in> set (fst (drain_request (e_tokens e) now (snd x))).
         de_finished d \<and> out_id (de_output d) = rid"
    then obtain k r d where x: "(k, r) \<in> set (e_active e)" "d \<in> set (fst (drain_request (e_tokens e) now r))"
      "de_finished d" "out_id (de_output d) = rid" by auto
    then have "filter de_finished (fst (drain_request (e_tokens e) now r)) \<noteq> []" by (auto simp: filter_empty_conv)
    then have "complete_at now e r" using drain_core_request(6) [OF assms x(1), of now] by (auto split: if_splits)
    moreover have "k = rid" using drain_core_request(7) [OF assms x(1), of now] x(2,4) by auto
    ultimately show "\<exists>r. (rid, r) \<in> set (e_active e) \<and> complete_at now e r" using x(1) by blast
  next
    assume "\<exists>r. (rid, r) \<in> set (e_active e) \<and> complete_at now e r"
    then obtain r where r: "(rid, r) \<in> set (e_active e)" "complete_at now e r" by blast
    then have "filter de_finished (fst (drain_request (e_tokens e) now r)) \<noteq> []"
      using drain_core_request(6) [OF assms r(1), of now] by auto
    then obtain d where "d \<in> set (fst (drain_request (e_tokens e) now r))" "de_finished d"
      by (auto simp: filter_empty_conv)
    then show "\<exists>x \<in> set (e_active e). \<exists>d \<in> set (fst (drain_request (e_tokens e) now (snd x))).
         de_finished d \<and> out_id (de_output d) = rid"
      using r(1) drain_core_request(7) [OF assms r(1), of now] by force
  qed
  finally show ?thesis using bt.elems_get [OF inv] by simp
qed

lemma drain_base:
  assumes "core_inv e"
  shows "base_inv (snd (drain_all now e))"
proof -
  let ?act = "map (\<lambda>x. (fst x, drained now e (snd x))) (e_active e)"
  note b = core_base [OF assms]
  note D = drain_core_request [OF assms]
  have sums: "(\<Sum>x\<leftarrow>e_active e. holds i (a_block_ids (drained now e (snd x)))) =
      (\<Sum>x\<leftarrow>e_active e. holds i (a_block_ids (snd x)))" for i
    using D(2) by (intro arg_cong [where f = sum_list] map_cong) auto
  have "held (snd (drain_all now e)) i = held e i" for i by (simp add: held_def drain_all_eq comp_def sums)
  moreover have "all_ids (snd (drain_all now e)) = all_ids e" by (simp add: all_ids_def drain_all_eq comp_def)
  moreover have "request_base rid r" if "bt_get ?act rid = Some r" for rid r
    using that D(1) bt.elems_get [OF base_invD(1) [OF b]] by (auto simp: map_snd_get)
  moreover have "bt_inv ?act" using base_invD(1) [OF b] by (simp only: map_snd_inv)
  ultimately show ?thesis
    using b unfolding base_inv_def by (simp add: drain_all_eq)
qed

lemma flush_eq:
  "snd (snd (flush_due now e)) =
     fold finish_request (finishing (fst (drain_all now e)))
       (count_completed (length (filter de_finished (fst (drain_all now e)))) (snd (drain_all now e)))"
  by (simp add: flush_due_def Let_def split_beta)

lemma flush_get:
  assumes "core_inv e"
  shows "bt_get (e_active (snd (snd (flush_due now e)))) rid =
    (case bt_get (e_active e) rid of
       None \<Rightarrow> None
     | Some r \<Rightarrow> if complete_at now e r then None else Some (drained now e r))"
  using finishing_ids [OF assms, of rid now]
  by (auto simp: flush_eq finish_fold_get count_completed_def drain_all_eq map_snd_get split: option.splits)

lemma flush_core:
  assumes "core_inv e"
  shows "core_inv (snd (snd (flush_due now e)))"
proof -
  have "base_inv (snd (snd (flush_due now e)))"
    unfolding flush_eq using drain_base [OF assms] by (intro finish_fold_base) simp
  moreover have "unfinished (snd (snd (flush_due now e)))"
    unfolding unfinished_def flush_get [OF assms]
    using drain_core_request(4) [OF assms bt_get_Some_mem]
    by (auto simp: complete_at_def not_le split: option.splits if_splits)
  ultimately show ?thesis by (simp add: core_inv_def)
qed

section \<open>Withdrawals, arrivals and utilities\<close>

lemma stats_core: "core_inv e \<Longrightarrow> core_inv (snd (scheduler_stats e))"
proof -
  assume e: "core_inv e"
  have "pool_inv (snd (take_stats (e_pool e)))" using base_invD(3) [OF core_base [OF e]] by (rule take_stats_inv)
  moreover have "refs (snd (take_stats (e_pool e))) i = refs (e_pool e) i" for i
    by (simp add: refs_def take_stats_def)
  ultimately show ?thesis
    using e by (simp add: scheduler_stats_def Let_def split_beta core_inv_def base_inv_def unfinished_def all_ids_def)
qed

lemma withdraw_core:
  assumes "core_inv e"
  shows "core_inv (snd (withdraw rid e))"
proof (cases "bt_get (e_active e) rid")
  case (Some r)
  then show ?thesis
    using assms base_finish [OF core_base [OF assms], of rid]
    by (auto simp: withdraw_def core_inv_def unfinished_def finish_get split: if_splits)
next
  case none: None
  show ?thesis
  proof (cases "bt_get (e_pending e) rid")
    case (Some p)
    then show ?thesis
      using none assms base_release [OF reserved_pulled [OF core_base [OF assms] Some]]
      by (simp add: withdraw_def core_inv_def unfinished_def)
  next
    case None
    show ?thesis
    proof (cases "Option.bind (waiting_position rid e) (\<lambda>i. vd_remove i (e_waiting e))")
      case w: None
      then show ?thesis using none None assms by (simp add: withdraw_def)
    next
      case (Some qr)
      obtain q rest where qr: "qr = (q, rest)" by (cases qr)
      have "mset (e_waiting e) = add_mset q (mset rest)"
        using Some qr by (auto simp: bind_eq_Some_conv dest: vd_remove_mset)
      then have "image_mset (\<lambda>q. req_id (q_request q)) (mset (e_waiting e)) =
          image_mset (\<lambda>q. req_id (q_request q)) (add_mset q (mset rest))" by simp
      then have "mset (all_ids e) = mset (req_id (q_request q) # all_ids (e\<lparr>e_waiting := rest\<rparr>))"
        by (simp add: all_ids_def)
      then have "distinct (all_ids (e\<lparr>e_waiting := rest\<rparr>))"
        using base_invD(8) [OF core_base [OF assms]] distinct_ids_swap by (metis distinct.simps(2))
      then show ?thesis
        using none None Some qr assms by (simp add: withdraw_def core_inv_def base_inv_def unfinished_def)
    qed
  qed
qed

lemma abort_core: "core_inv e \<Longrightarrow> core_inv (fst (abort_one rid (e, m)))"
  using withdraw_core [of e rid]
  by (auto simp: abort_one_def core_inv_def split: prod.splits option.splits)

lemma enqueue_core:
  assumes "core_inv e" "\<not> known_id (req_id (q_request q)) e"
  shows "core_inv ((count_received e)\<lparr>e_failure_rng := x, e_waiting := e_waiting e @ [q]\<rparr>)"
proof -
  have "distinct (all_ids (e\<lparr>e_waiting := e_waiting e @ [q]\<rparr>))"
    using base_invD(8) [OF core_base [OF assms(1)]] assms(2) unfolding known_id_iff
    by (auto simp: all_ids_def)
  then show ?thesis
    using assms(1) by (simp add: count_received_def core_inv_def base_inv_def unfinished_def all_ids_def held_def)
qed

lemma reset_cache_core: "core_inv e \<Longrightarrow> core_inv (snd (reset_prefix_cache_outputs clk u e))"
proof -
  assume e: "core_inv e"
  have "pool_inv (snd (reset_pool (e_pool e)))" using base_invD(3) [OF core_base [OF e]] by (rule reset_pool_inv)
  then have "core_inv (e\<lparr>e_pool := snd (reset_pool (e_pool e))\<rparr>)" if "e_active e = []" "e_pending e = []"
    using e that by (simp add: core_inv_def base_inv_def unfinished_def all_ids_def held_def)
  with e show ?thesis
    by (auto simp: reset_prefix_cache_outputs_def Let_def split_beta core_inv_def split: option.splits)
qed

interpretation core: engine_invariant W core_inv "\<lambda>_. True"
proof
  show "core_inv e \<Longrightarrow> next_waiting e = Some (q, rest) \<Longrightarrow>
      core_inv (snd (admit W clk q (e\<lparr>e_waiting := rest\<rparr>)))" for e q rest clk
    by (rule admit_core)
qed (auto intro: compose_core decoder_core chunk_core flush_core stats_core abort_core pull_core
  enqueue_core reset_cache_core)

end
