(* ===== verification/Engine_Shape.thy ===== *)
theory Engine_Shape
  imports Engine_Inv
begin

text \<open>
  What each primitive of the engine does to the batch, the pulls, the queue and the counters,
  stated once so that the invariants of the following theory only have to look at the shapes.
\<close>

section \<open>Lists under maps and filters\<close>

definition pairwise_advances ::
  "(string, 'r active_request) btree \<Rightarrow> (string, 'r active_request) btree \<Rightarrow> bool" where
  "pairwise_advances = list_all2 (\<lambda>x y. fst y = fst x \<and> advances (snd x) (snd y))"

lemma pairwise_refl [simp]: "pairwise_advances m m"
  unfolding pairwise_advances_def by (rule list_all2_refl) simp

lemma pairwise_trans:
  assumes "pairwise_advances a b" "pairwise_advances b c"
  shows "pairwise_advances a c"
  unfolding pairwise_advances_def
  by (rule list_all2_trans [OF _ assms [unfolded pairwise_advances_def]]) (auto intro: advances_trans)

lemma pairwise_modify:
  assumes "bt_inv m" "bt_get m rid = Some r" "advances r r'"
  shows "pairwise_advances m (bt_modify rid (\<lambda>_. r') m)"
proof -
  have "snd x = r" if "x \<in> set m" "fst x = rid" for x
    using that assms(2) bt.elems_get [OF assms(1), of "fst x" "snd x"] by (metis option.inject prod.collapse)
  then show ?thesis
    using assms(3) unfolding pairwise_advances_def bt_modify_def
    by (auto simp: list_all2_conv_all_nth)
qed

lemma pairwise_lists:
  assumes "pairwise_advances m m'"
  shows "length m' = length m" "bt_keys m' = bt_keys m"
    "List.map_filter a_lora (bt_values m') = List.map_filter a_lora (bt_values m)"
    "length (filter is_generating (bt_values m')) \<le> length (filter is_generating (bt_values m))"
  using assms unfolding pairwise_advances_def
proof (induction rule: list_all2_induct)
  case (Cons x xs y ys)
  { case 1 then show ?case using Cons by simp }
  { case 2 then show ?case using Cons by simp }
  { case 3 then show ?case using Cons by (simp add: advances_def map_filter_simps split: option.splits) }
  { case 4 then show ?case using Cons by (auto simp: advances_def is_generating_def) }
qed simp_all

section \<open>Evolution without arrivals or departures\<close>

definition evolves :: "'r sim_engine \<Rightarrow> 'r sim_engine \<Rightarrow> bool" where
  "evolves e e' \<longleftrightarrow>
     e_pending e' = e_pending e \<and> e_waiting e' = e_waiting e \<and> e_opt e' = e_opt e \<and> e_loras e' = e_loras e \<and>
     e_pool e' = e_pool e \<and> e_stats e' = e_stats e \<and> e_published e' = e_published e \<and>
     e_events_on e' = e_events_on e \<and> pairwise_advances (e_active e) (e_active e')"

lemma evolves_refl [simp]: "evolves e e"
  by (simp add: evolves_def)

lemma evolves_trans: "evolves a b \<Longrightarrow> evolves b c \<Longrightarrow> evolves a c"
  by (auto simp: evolves_def intro: pairwise_trans)

lemma evolves_modify:
  assumes "core_inv e" "bt_get (e_active e) rid = Some r" "advances r r'"
  shows "evolves e (e\<lparr>e_active := bt_modify rid (\<lambda>_. r') (e_active e)\<rparr>)"
  using pairwise_modify [OF base_invD(1) [OF core_base [OF assms(1)]] assms(2,3)] by (simp add: evolves_def)

lemma compose_evolves:
  assumes "core_inv e"
  shows "evolves e (compose_step W t e)"
proof -
  have "core_inv (compose_step W t e) \<and> evolves e (compose_step W t e)"
  proof (rule compose_step_rule)
    show "core_inv e \<and> evolves e e" using assms by simp
    show "core_inv x \<and> evolves e x \<Longrightarrow> bt_get (e_active x) rid = Some r \<Longrightarrow>
        core_inv (x\<lparr>e_active := bt_modify rid (\<lambda>_. snd (draw_step W (e_latency x) n r)) (e_active x)\<rparr>) \<and>
        evolves e (x\<lparr>e_active := bt_modify rid (\<lambda>_. snd (draw_step W (e_latency x) n r)) (e_active x)\<rparr>)"
      for x n rid r
    proof -
      assume x: "core_inv x \<and> evolves e x" and r: "bt_get (e_active x) rid = Some r"
      have a: "advances r (snd (draw_step W (e_latency x) n r))" by (rule draw_step_advances)
      show ?thesis
        using core_modify_active [OF _ r a] evolves_trans [OF _ evolves_modify [OF _ r a]] x by blast
    qed
    show "core_inv x \<and> evolves e x \<Longrightarrow> core_inv (x\<lparr>e_prefill_order := y\<rparr>) \<and> evolves e (x\<lparr>e_prefill_order := y\<rparr>)" for x y
      by (simp add: evolves_def)
    show "core_inv x \<and> evolves e x \<Longrightarrow> core_inv (x\<lparr>e_step := y\<rparr>) \<and> evolves e (x\<lparr>e_step := y\<rparr>)" for x y
      by (simp add: evolves_def)
  qed
  then show ?thesis by simp
qed

lemma generate_for_evolves:
  assumes "core_inv e" "bt_get (e_active e) rid = Some r0" "advances r0 r"
  shows "evolves e (generate_for W t c rid r e)"
proof -
  obtain src r' where g: "generate W (e_tokens e) t c (time_scale e) (e_emit_seq e) r = (src, r')"
    by (cases "generate W (e_tokens e) t c (time_scale e) (e_emit_seq e) r")
  have "advances r0 r'"
    using assms(3) generate_advances(1) [OF base_invD(4) [OF core_base [OF assms(1)]] g] by (rule advances_trans)
  from evolves_modify [OF assms(1,2) this] g show ?thesis by (simp add: generate_for_def evolves_def)
qed

lemma decoder_evolves: "core_inv e \<Longrightarrow> evolves e (run_decoder W t d e)"
  by (auto simp: run_decoder_def intro: generate_for_evolves split: option.splits)

lemma chunk_evolves:
  assumes "core_inv e"
  shows "evolves e (run_chunk W t n c e)"
proof (cases "bt_get (e_active e) (fst c)")
  case (Some r)
  show ?thesis
  proof (cases "a_phase r")
    case (Prefill rem)
    have "0 < rem - snd c \<Longrightarrow> advances r (r\<lparr>a_phase := Prefill (rem - snd c)\<rparr>)"
      by (auto simp: advances_def request_base_def)
    moreover have "advances r (r\<lparr>a_rng := x, a_emit_offset := y, a_phase := Decode\<rparr>)" for x y
      by (auto simp: advances_def request_base_def)
    ultimately show ?thesis
      using assms Some Prefill evolves_modify [OF assms Some] generate_for_evolves [OF assms Some]
      by (auto simp: run_chunk_def split_beta Let_def)
  qed (use assms Some in \<open>simp add: run_chunk_def\<close>)
qed (use assms in \<open>simp add: run_chunk_def\<close>)

section \<open>Admission\<close>

definition same_settings :: "'r sim_engine \<Rightarrow> 'r sim_engine \<Rightarrow> bool" where
  "same_settings e e' \<longleftrightarrow> e_opt e' = e_opt e \<and> e_loras e' = e_loras e \<and> e_events_on e' = e_events_on e"

definition joins :: "engine_request \<Rightarrow> 'r sim_engine \<Rightarrow> 'r sim_engine \<Rightarrow> bool" where
  "joins request e e' \<longleftrightarrow>
     bt_get (e_active e) (req_id request) = None \<and>
     (\<exists>r. 0 < a_max_tokens r \<and> a_generated r = 0 \<and> a_lora r = request_lora_name request \<and>
        e_active e' = bt_insert (req_id request) r (e_active e)) \<and>
     e_pending e' = e_pending e \<and> e_stats e' = e_stats e"

definition parks :: "engine_request \<Rightarrow> 'r sim_engine \<Rightarrow> 'r sim_engine \<Rightarrow> bool" where
  "parks request e e' \<longleftrightarrow>
     bt_get (e_pending e) (req_id request) = None \<and>
     (\<exists>p. pp_lora p = request_lora_name request \<and> q_request (pp_queued p) = request \<and> e_pending e' = bt_insert (req_id request) p (e_pending e)) \<and>
     e_active e' = e_active e \<and> e_stats e' = e_stats e"

definition fails :: "'r sim_engine \<Rightarrow> 'r sim_engine \<Rightarrow> bool" where
  "fails e e' \<longleftrightarrow> e_active e' = e_active e \<and> e_pending e' = e_pending e \<and> e_stats e' = e_stats (count_failed e)"

lemma unpin_refl_keys: "keys (e_pool e') = keys (e_pool e) \<Longrightarrow> keys (unpin ids (e_pool e')) = keys (e_pool e)"
  by simp

lemma direct_shape:
  assumes "reserved rid ids e" "req_id (q_request q) = rid"
    and e'_def: "e' = snd (admit_direct W clk rid client q ids n e)"
  shows "same_settings e e' \<and> e_waiting e' = e_waiting e \<and> e_published e' = e_published e \<and>
    keys (e_pool e') = keys (e_pool e) \<and> (joins (q_request q) e e' \<or> fails e e')"
proof -
  have b: "base_inv e" using assms(1) by (simp add: reserved_def)
  note S = admit_direct_shape [OF base_invD(4,5) [OF b] refl, of W clk rid client q ids n, folded e'_def]
  have f: "same_settings e e'" "e_waiting e' = e_waiting e" "e_published e' = e_published e"
    "keys (e_pool e') = keys (e_pool e)" "e_pending e' = e_pending e"
    using S unfolding same_settings_def by (blast, blast, blast, auto)
  from S consider (run) r where "fresh_request rid ids (request_lora_name (q_request q)) r"
      "e_active e' = bt_insert rid r (e_active e)" "e_stats e' = e_stats e"
    | (fail) "e_stats e' = e_stats (count_failed e)" "e_active e' = e_active e"
    using assms(2) by blast
  then have "joins (q_request q) e e' \<or> fails e e'"
  proof cases
    case run
    then have "joins (q_request q) e e'"
      using f(5) reserved_get [OF assms(1)] assms(2) unfolding joins_def fresh_request_def by auto
    then show ?thesis ..
  next
    case fail
    then show ?thesis using f(5) by (simp add: fails_def)
  qed
  with f show ?thesis by blast
qed

lemma admit_shape:
  assumes "base_inv e" "next_waiting e = Some (q, rest)"
    "cache_prompt (e_pool e) (prompt_of (q_request q)) (request_lora_name (q_request q))
       (req_cache_salt (q_request q)) = (out, pool)"
    and e'_def: "e' = snd (admit W clk q (e\<lparr>e_waiting := rest\<rparr>))"
  shows "same_settings e e' \<and> e_waiting e' = rest \<and> keys (e_pool e') = keys pool \<and>
    e_published e' = (if e_events_on e then e_published e @ events out else e_published e) \<and>
    (joins (q_request q) e e' \<or> parks (q_request q) e e' \<or> fails e e')"
proof -
  let ?e1 = "publish (events out) (e\<lparr>e_waiting := rest, e_pool := pool\<rparr>)"
  have r: "reserved (req_id (q_request q)) (block_ids out) ?e1"
    using reserved_after_caching [OF assms(1-3)] .
  have pub: "e_published ?e1 = (if e_events_on e then e_published e @ events out else e_published e)"
    by (simp add: publish_def)
  show ?thesis
  proof (cases "remote_of (q_request q)")
    case None
    then have e': "e' = snd (admit_direct W clk (req_id (q_request q)) (req_client (q_request q)) q
        (block_ids out) (num_cached_tokens out) ?e1)"
      using assms(3) by (simp add: e'_def admit_def Let_def)
    have "joins x ?e1 e' = joins x e e'" "fails ?e1 e' = fails e e'" "same_settings ?e1 e' = same_settings e e'" for x
      by (simp_all add: joins_def fails_def same_settings_def count_failed_def)
    then show ?thesis
      using direct_shape [OF r refl e'] pub by auto
  next
    case (Some remote)
    let ?p = "\<lparr>pp_queued = q, pp_block_ids = block_ids out, pp_num_local_cached = num_cached_tokens out,
        pp_client = req_client (q_request q), pp_lora = request_lora_name (q_request q)\<rparr>"
    have "e_pending e' = bt_insert (req_id (q_request q)) ?p (e_pending e)" "pp_lora ?p = request_lora_name (q_request q)"
      "q_request (pp_queued ?p) = q_request q"
      "e_active e' = e_active e" "e_stats e' = e_stats e" "same_settings e e'" "e_waiting e' = rest" "e_pool e' = pool"
      "e_published e' = e_published ?e1"
      using Some assms(3) by (simp_all add: e'_def admit_def Let_def same_settings_def)
    moreover have "bt_get (e_pending e) (req_id (q_request q)) = None" using reserved_get [OF r] by simp
    ultimately show ?thesis using pub unfolding parks_def by metis
  qed
qed

section \<open>Retirement\<close>

lemma finish_active: "e_active (finish_request rid e) = filter (\<lambda>x. fst x \<noteq> rid) (e_active e)"
  by (auto simp: finish_request_def bt_remove_absent [unfolded bt_remove_def] bt_remove_def split: option.splits)

lemma finish_fields:
  "e_pending (finish_request rid e) = e_pending e" "e_waiting (finish_request rid e) = e_waiting e"
  "e_opt (finish_request rid e) = e_opt e" "e_loras (finish_request rid e) = e_loras e"
  "e_stats (finish_request rid e) = e_stats e" "e_published (finish_request rid e) = e_published e"
  "e_events_on (finish_request rid e) = e_events_on e" "keys (e_pool (finish_request rid e)) = keys (e_pool e)"
  by (simp_all add: finish_request_def split: option.splits)

lemma finish_fold_fields:
  "e_active (fold finish_request rids e) = filter (\<lambda>x. fst x \<notin> set rids) (e_active e)"
  "e_pending (fold finish_request rids e) = e_pending e" "e_waiting (fold finish_request rids e) = e_waiting e"
  "e_opt (fold finish_request rids e) = e_opt e" "e_loras (fold finish_request rids e) = e_loras e"
  "e_stats (fold finish_request rids e) = e_stats e" "e_published (fold finish_request rids e) = e_published e"
  "e_events_on (fold finish_request rids e) = e_events_on e"
  "keys (e_pool (fold finish_request rids e)) = keys (e_pool e)"
proof -
  show "e_active (fold finish_request rids e) = filter (\<lambda>x. fst x \<notin> set rids) (e_active e)"
    by (induction rids arbitrary: e) (auto simp: finish_active conj_commute intro!: filter_cong)
  show "e_pending (fold finish_request rids e) = e_pending e" "e_waiting (fold finish_request rids e) = e_waiting e"
    "e_opt (fold finish_request rids e) = e_opt e" "e_loras (fold finish_request rids e) = e_loras e"
    "e_stats (fold finish_request rids e) = e_stats e" "e_published (fold finish_request rids e) = e_published e"
    "e_events_on (fold finish_request rids e) = e_events_on e"
    "keys (e_pool (fold finish_request rids e)) = keys (e_pool e)"
    by (induction rids arbitrary: e) (simp_all add: finish_fields)
qed

lemma flush_shape:
  assumes "core_inv e"
    and e'_def: "e' = snd (snd (flush_due now e))"
    and kept_def: "kept = filter (\<lambda>x. \<not> complete_at now e (snd x)) (e_active e)"
  shows "e_active e' = map (\<lambda>x. (fst x, drained now e (snd x))) kept"
    "e_pending e' = e_pending e" "e_waiting e' = e_waiting e" "same_settings e e'"
    "e_published e' = e_published e" "keys (e_pool e') = keys (e_pool e)"
    "e_stats e' = (e_stats e)\<lparr>requests_completed := requests_completed (e_stats e) + (length (e_active e) - length kept)\<rparr>"
proof -
  have inv: "bt_inv (e_active e)" using base_invD(1) [OF core_base [OF assms(1)]] .
  define ids where "ids = set (finishing (fst (drain_all now e)))"
  have mem: "fst x \<in> ids \<longleftrightarrow> complete_at now e (snd x)" if "x \<in> set (e_active e)" for x
    using that finishing_ids [OF assms(1), of "fst x" now] bt.elems_get [OF inv, of "fst x" "snd x"]
    by (auto simp: ids_def)
  have "filter (\<lambda>x. fst x \<notin> ids) (e_active e) = kept"
    unfolding kept_def using mem by (intro filter_cong) auto
  then show "e_active e' = map (\<lambda>x. (fst x, drained now e (snd x))) kept"
    unfolding e'_def flush_eq finish_fold_fields ids_def [symmetric]
    by (simp add: count_completed_def drain_all_eq filter_map comp_def)
  have "length (filter de_finished (fst (drain_all now e))) =
      sum_list (map (\<lambda>x. if complete_at now e (snd x) then 1 else 0) (e_active e))"
  proof -
    have "length (filter de_finished (concat (map f xs))) = sum_list (map (\<lambda>x. length (filter de_finished (f x))) xs)"
      for f :: "string \<times> 'a active_request \<Rightarrow> due_emit list" and xs by (induction xs) auto
    moreover have "(\<Sum>x\<leftarrow>e_active e. length (filter de_finished (fst (drain_request (e_tokens e) now (snd x))))) =
        (\<Sum>x\<leftarrow>e_active e. if complete_at now e (snd x) then 1 else 0)"
      using drain_core_request(6) [OF assms(1)]
      by (intro arg_cong [where f = sum_list] map_cong refl) (metis prod.collapse)
    ultimately show ?thesis by (simp only: drain_all_eq fst_conv)
  qed
  also have "\<dots> = length (e_active e) - length kept"
  proof -
    have "sum_list (map (\<lambda>x. if P x then 1 else 0) xs) = length xs - length (filter (\<lambda>x. \<not> P x) xs)"
      for P and xs :: "(string \<times> 'a active_request) list"
      by (induction xs) (auto simp: Suc_diff_le)
    then show ?thesis by (simp add: kept_def)
  qed
  finally show "e_stats e' = (e_stats e)\<lparr>requests_completed := requests_completed (e_stats e) +
      (length (e_active e) - length kept)\<rparr>"
    by (simp add: e'_def flush_eq finish_fold_fields count_completed_def drain_all_eq)
  show "e_pending e' = e_pending e" "e_waiting e' = e_waiting e" "same_settings e e'"
    "e_published e' = e_published e" "keys (e_pool e') = keys (e_pool e)"
    by (simp_all add: e'_def flush_eq finish_fold_fields count_completed_def drain_all_eq same_settings_def)
qed

section \<open>Withdrawal\<close>

definition leaves_active :: "string \<Rightarrow> 'r sim_engine \<Rightarrow> 'r sim_engine \<Rightarrow> bool" where
  "leaves_active rid e e' \<longleftrightarrow> (\<exists>r. bt_get (e_active e) rid = Some r) \<and>
     e_active e' = bt_remove rid (e_active e) \<and> e_pending e' = e_pending e \<and> e_waiting e' = e_waiting e"

definition leaves_pending :: "string \<Rightarrow> 'r sim_engine \<Rightarrow> 'r sim_engine \<Rightarrow> bool" where
  "leaves_pending rid e e' \<longleftrightarrow> (\<exists>p. bt_get (e_pending e) rid = Some p) \<and>
     e_pending e' = bt_remove rid (e_pending e) \<and> e_active e' = e_active e \<and> e_waiting e' = e_waiting e"

definition leaves_waiting :: "string \<Rightarrow> 'r sim_engine \<Rightarrow> 'r sim_engine \<Rightarrow> bool" where
  "leaves_waiting rid e e' \<longleftrightarrow>
     (\<exists>q. req_id (q_request q) = rid \<and> mset (e_waiting e) = add_mset q (mset (e_waiting e'))) \<and>
     e_active e' = e_active e \<and> e_pending e' = e_pending e"

lemma withdraw_fields:
  "same_settings e (snd (withdraw rid e))" "e_published (snd (withdraw rid e)) = e_published e"
  "e_stats (snd (withdraw rid e)) = e_stats e" "keys (e_pool (snd (withdraw rid e))) = keys (e_pool e)"
  by (auto simp: withdraw_def same_settings_def finish_fields split: option.splits)

lemma withdraw_shape:
  "(fst (withdraw rid e) = None \<and> snd (withdraw rid e) = e \<and> \<not> known_id rid e) \<or>
   (fst (withdraw rid e) \<noteq> None \<and>
     (leaves_active rid e (snd (withdraw rid e)) \<or> leaves_pending rid e (snd (withdraw rid e)) \<or>
      leaves_waiting rid e (snd (withdraw rid e))))"
proof (cases "bt_get (e_active e) rid")
  case (Some r)
  then show ?thesis by (simp add: withdraw_def leaves_active_def finish_request_def)
next
  case none: None
  show ?thesis
  proof (cases "bt_get (e_pending e) rid")
    case (Some p)
    then show ?thesis using none by (simp add: withdraw_def leaves_pending_def)
  next
    case None
    show ?thesis
    proof (cases "waiting_position rid e")
      case w: None
      then have "\<not> known_id rid e"
        using none None by (auto simp: waiting_position_def position_None known_id_def)
      then show ?thesis using none None w by (simp add: withdraw_def)
    next
      case (Some i)
      then have i: "i < length (e_waiting e)" "req_id (q_request (e_waiting e ! i)) = rid"
        unfolding waiting_position_def by (auto dest: position_Some)
      then obtain rest where v: "vd_remove i (e_waiting e) = Some (e_waiting e ! i, rest)" by (simp add: vd_remove_def)
      then show ?thesis
        using none None Some i(2) vd_remove_mset [OF v] by (auto simp: withdraw_def leaves_waiting_def)
    qed
  qed
qed

lemma abort_one_eq:
  "fst (abort_one rid (e, m)) =
     (if fst (withdraw rid e) = None then snd (withdraw rid e) else count_aborted (snd (withdraw rid e)))"
  by (auto simp: abort_one_def split: prod.splits option.splits)

end
