(* ===== verification/Engine_Caps.thy ===== *)
theory Engine_Caps
  imports Engine_Shape
begin

text \<open>
  The interface of a further invariant of the engine on top of the core one, and its first two
  instances: the sequence cap and the LoRA slot cap of admission.
\<close>

section \<open>Extensions of the core invariant\<close>

text \<open>
  What a further invariant has to survive, given the core invariant and the shapes of the
  primitives; the sublocale turns it into an invariant of the engine.
\<close>

locale engine_extension =
  fixes W :: "'r world"
    and ext :: "'r sim_engine \<Rightarrow> bool"
    and allow :: "control_request \<Rightarrow> bool"
  assumes ext_evolves: "core_inv e \<Longrightarrow> ext e \<Longrightarrow> evolves e e' \<Longrightarrow> ext e'"
    and ext_admit: "core_inv e \<Longrightarrow> ext e \<Longrightarrow> has_room e \<Longrightarrow> next_waiting e = Some (q, rest) \<Longrightarrow>
      ext (snd (admit W clk q (e\<lparr>e_waiting := rest\<rparr>)))"
    and ext_pull: "core_inv e \<Longrightarrow> ext e \<Longrightarrow> bt_get (e_pending e) rid = Some pp \<Longrightarrow>
      ext (snd (admit_direct W clk rid (pp_client pp) (pp_queued pp) (pp_block_ids pp) (pp_num_local_cached pp)
        (e\<lparr>e_pending := bt_remove rid (e_pending e)\<rparr>)))"
    and ext_flush: "core_inv e \<Longrightarrow> ext e \<Longrightarrow> ext (snd (snd (flush_due t e)))"
    and ext_stats: "core_inv e \<Longrightarrow> ext e \<Longrightarrow> ext (snd (scheduler_stats e))"
    and ext_abort: "core_inv e \<Longrightarrow> ext e \<Longrightarrow> fst (withdraw rid e) \<noteq> None \<Longrightarrow>
      ext (count_aborted (snd (withdraw rid e)))"
    and ext_enqueue: "core_inv e \<Longrightarrow> ext e \<Longrightarrow> \<not> known_id (req_id (q_request q)) e \<Longrightarrow>
      ext ((count_received e)\<lparr>e_failure_rng := rng, e_waiting := e_waiting e @ [q]\<rparr>)"
    and ext_refuse: "core_inv e \<Longrightarrow> ext e \<Longrightarrow> ext (count_failed ((count_received e)\<lparr>e_failure_rng := rng\<rparr>))"
    and ext_reject: "core_inv e \<Longrightarrow> ext e \<Longrightarrow> ext (count_aborted (count_received e))"
    and ext_reset_cache: "core_inv e \<Longrightarrow> ext e \<Longrightarrow> ext (snd (reset_prefix_cache_outputs clk u e))"
    and ext_lora: "core_inv e \<Longrightarrow> ext e \<Longrightarrow> max_loras reg = max_loras (e_loras e) \<Longrightarrow> ext (e\<lparr>e_loras := reg\<rparr>)"
    and ext_patch: "allow (PatchConfig p) \<Longrightarrow> core_inv e \<Longrightarrow> ext e \<Longrightarrow>
      ext (e\<lparr>e_latency := lat, e_opt := patch_opt p (e_opt e)\<rparr>)"
    and ext_reset_stats: "allow ResetStats \<Longrightarrow> core_inv e \<Longrightarrow> ext e \<Longrightarrow> ext (e\<lparr>e_stats := default_stats\<rparr>)"

lemma evolves_frame:
  "evolves e (e\<lparr>e_step := x1\<rparr>)" "evolves e (e\<lparr>e_pending_spec := x2\<rparr>)" "evolves e (e\<lparr>e_replies := x3\<rparr>)"
  by (simp_all add: evolves_def)

sublocale engine_extension \<subseteq> extended: engine_invariant W "\<lambda>e. core_inv e \<and> ext e" allow
proof
  show "core_inv e \<and> ext e \<Longrightarrow> core_inv (fst (abort_one rid (e, m))) \<and> ext (fst (abort_one rid (e, m)))" for e rid m
    using abort_core [of e rid m] ext_abort [of e rid] withdraw_shape [of rid e] by (auto simp: abort_one_eq)
  show "core_inv e \<and> ext e \<Longrightarrow> core_inv (run_decoder W t d e) \<and> ext (run_decoder W t d e)" for e t d
    using decoder_core decoder_evolves ext_evolves by blast
  show "core_inv e \<and> ext e \<Longrightarrow> core_inv (run_chunk W t n c e) \<and> ext (run_chunk W t n c e)" for e t n c
    using chunk_core chunk_evolves ext_evolves by blast
  show "core_inv e \<and> ext e \<Longrightarrow> core_inv (compose_step W t e) \<and> ext (compose_step W t e)" for e t
    using compose_core compose_evolves ext_evolves by blast
  show "core_inv e \<and> ext e \<Longrightarrow> core_inv (e\<lparr>e_step := None\<rparr>) \<and> ext (e\<lparr>e_step := None\<rparr>)" for e
    using ext_evolves [OF _ _ evolves_frame(1)] by auto
  show "core_inv e \<and> ext e \<Longrightarrow> core_inv (e\<lparr>e_pending_spec := s\<rparr>) \<and> ext (e\<lparr>e_pending_spec := s\<rparr>)" for e s
    using ext_evolves [OF _ _ evolves_frame(2)] by auto
  show "core_inv e \<and> ext e \<Longrightarrow> core_inv (e\<lparr>e_replies := rs\<rparr>) \<and> ext (e\<lparr>e_replies := rs\<rparr>)" for e rs
    using ext_evolves [OF _ _ evolves_frame(3)] by auto
qed (use admit_core pull_core flush_core stats_core enqueue_core reset_cache_core ext_admit ext_pull ext_flush
  ext_stats ext_enqueue ext_refuse ext_reject ext_reset_cache ext_lora ext_patch ext_reset_stats in auto)

section \<open>Lists of a map after an insertion or a removal\<close>

lemma bt_insert_mset_values:
  assumes "bt_inv m" "bt_get m k = None"
  shows "mset (bt_values (bt_insert k v m)) = add_mset v (mset (bt_values m))"
proof -
  have "mset (bt_values (bt_insert k v m)) = image_mset snd (mset (bt_insert k v m))" by simp
  also have "\<dots> = add_mset v (mset (bt_values m))" unfolding bt.mset_elems_ins [OF assms] by simp
  finally show ?thesis .
qed

lemma filter_length_mset: "mset xs = mset ys \<Longrightarrow> length (filter P xs) = length (filter P ys)"
  by (metis mset_filter size_mset)

lemma map_filter_set_mset: "mset xs = mset ys \<Longrightarrow> set (List.map_filter f xs) = set (List.map_filter f ys)"
  by (metis map_filter_def mset_eq_setD mset_filter mset_map)

lemma map_filter_set: "set (List.map_filter f xs) = {y. \<exists>x \<in> set xs. f x = Some y}"
  by (force simp: List.map_filter_def)

lemma num_generating_insert:
  assumes "bt_inv m" "bt_get m k = None"
  shows "length (filter is_generating (bt_values (bt_insert k r m))) =
    (if is_generating r then 1 else 0) + length (filter is_generating (bt_values m))"
  using filter_length_mset [of "bt_values (bt_insert k r m)" "r # bt_values m" is_generating]
    bt_insert_mset_values [OF assms, of r] by simp

lemma num_generating_remove:
  "length (filter is_generating (bt_values (bt_remove k m))) \<le> length (filter is_generating (bt_values m))"
proof -
  have "length (filter P (map snd (filter Q m))) \<le> length (filter P (map snd m))" for P Q by (induction m) auto
  then show ?thesis by (simp only: bt_remove_def)
qed

section \<open>The sequence cap\<close>

definition seq_cap :: "'r sim_engine \<Rightarrow> bool" where
  "seq_cap e \<longleftrightarrow> num_generating e + length (e_pending e) \<le> running_capacity e"

definition keeps_capacity :: "control_request \<Rightarrow> bool" where
  "keeps_capacity c \<longleftrightarrow> (case c of PatchConfig p \<Rightarrow> p_max_num_seqs p = None | _ \<Rightarrow> True)"

lemma seq_joins:
  assumes "bt_inv (e_active e)" "joins request e e'"
  shows "num_generating e' + length (e_pending e') = Suc (num_generating e + length (e_pending e))"
proof -
  obtain r where r: "is_generating r" "e_active e' = bt_insert (req_id request) r (e_active e)"
    and none: "bt_get (e_active e) (req_id request) = None" and p: "e_pending e' = e_pending e"
    using assms(2) unfolding joins_def is_generating_def by metis
  show ?thesis unfolding num_generating_def r(2) p num_generating_insert [OF assms(1) none] using r(1) by simp
qed

lemma seq_parks:
  assumes "bt_inv (e_pending e)" "parks request e e'"
  shows "num_generating e' + length (e_pending e') = Suc (num_generating e + length (e_pending e))"
  using assms by (auto simp: parks_def num_generating_def bt_length_insert)

lemma seq_fails: "fails e e' \<Longrightarrow> num_generating e' + length (e_pending e') = num_generating e + length (e_pending e)"
  by (simp add: fails_def num_generating_def)

lemma capacity_settings: "same_settings e e' \<Longrightarrow> running_capacity e' = running_capacity e"
  by (simp add: same_settings_def running_capacity_def)

lemma seq_admit:
  assumes "core_inv e" "has_room e" "next_waiting e = Some (q, rest)"
  shows "seq_cap (snd (admit W clk q (e\<lparr>e_waiting := rest\<rparr>)))"
proof -
  define e' where "e' = snd (admit W clk q (e\<lparr>e_waiting := rest\<rparr>))"
  obtain out pool where c: "cache_prompt (e_pool e) (prompt_of (q_request q)) (request_lora_name (q_request q))
      (req_cache_salt (q_request q)) = (out, pool)" by fastforce
  note I = base_invD [OF core_base [OF assms(1)]]
  have S: "same_settings e e'" "joins (q_request q) e e' \<or> parks (q_request q) e e' \<or> fails e e'"
    using admit_shape [OF core_base [OF assms(1)] assms(3) c e'_def] by auto
  have "num_generating e' + length (e_pending e') \<le> Suc (num_generating e + length (e_pending e))"
    using S(2) seq_joins [OF I(1)] seq_parks [OF I(2)] seq_fails by fastforce
  then show ?thesis
    using assms(2) capacity_settings [OF S(1)] by (simp add: seq_cap_def has_room_def e'_def)
qed

lemma seq_pull:
  assumes "core_inv e" "seq_cap e" "bt_get (e_pending e) rid = Some p"
  shows "seq_cap (snd (admit_direct W clk rid (pp_client p) (pp_queued p) (pp_block_ids p) (pp_num_local_cached p)
    (e\<lparr>e_pending := bt_remove rid (e_pending e)\<rparr>)))"
proof -
  let ?e1 = "e\<lparr>e_pending := bt_remove rid (e_pending e)\<rparr>"
  define e' where "e' = snd (admit_direct W clk rid (pp_client p) (pp_queued p) (pp_block_ids p) (pp_num_local_cached p) ?e1)"
  note I = base_invD [OF core_base [OF assms(1)]]
  have S: "same_settings ?e1 e'" "joins (q_request (pp_queued p)) ?e1 e' \<or> fails ?e1 e'"
    using direct_shape [OF reserved_pulled [OF core_base [OF assms(1)] assms(3)] I(7) [OF assms(3)] e'_def] by auto
  have "num_generating e' + length (e_pending e') \<le> Suc (num_generating ?e1 + length (e_pending ?e1))"
    using S(2) seq_joins [of ?e1] I(1) seq_fails by fastforce
  also have "\<dots> = num_generating e + length (e_pending e)"
    using bt_length_remove [OF I(2) assms(3)] by (simp add: num_generating_def)
  finally show ?thesis
    using assms(2) capacity_settings [OF S(1)] by (simp add: seq_cap_def running_capacity_def e'_def)
qed

lemma seq_flush:
  assumes "core_inv e" "seq_cap e"
  shows "seq_cap (snd (snd (flush_due t e)))"
proof -
  note S = flush_shape [OF assms(1) refl refl, of t]
  have "is_generating (drained t e (snd x)) = is_generating (snd x)" if "x \<in> set (e_active e)" for x
    using drain_core_request(4,5) [OF assms(1), of "fst x" "snd x" t] that by (simp add: is_generating_def)
  then have "length (filter is_generating (bt_values (map (\<lambda>x. (fst x, drained t e (snd x)))
      (filter (\<lambda>x. \<not> complete_at t e (snd x)) xs)))) \<le> length (filter is_generating (bt_values xs))"
    if "set xs \<subseteq> set (e_active e)" for xs using that by (induction xs) auto
  from this [of "e_active e"] show ?thesis
    using assms(2) capacity_settings [OF S(4)] S(2)
    by (simp add: seq_cap_def num_generating_def S(1))
qed

lemma seq_withdraw:
  assumes "seq_cap e"
  shows "seq_cap (count_aborted (snd (withdraw rid e)))"
proof -
  let ?e = "snd (withdraw rid e)"
  have "length (bt_remove rid m) \<le> length m" for m :: "(string, pending_pull) btree" by (simp add: bt_remove_def)
  then have "num_generating ?e + length (e_pending ?e) \<le> num_generating e + length (e_pending e)"
    using withdraw_shape [of rid e] num_generating_remove [of rid "e_active e"]
    by (auto simp: leaves_active_def leaves_pending_def leaves_waiting_def num_generating_def)
  then show ?thesis
    using assms capacity_settings [OF withdraw_fields(1), of rid e]
    by (simp add: seq_cap_def count_aborted_def num_generating_def running_capacity_def)
qed

interpretation seq: engine_extension W seq_cap keeps_capacity for W :: "'r world"
proof
  show "core_inv e \<Longrightarrow> seq_cap e \<Longrightarrow> evolves e e' \<Longrightarrow> seq_cap e'" for e e' :: "'r sim_engine"
    using pairwise_lists(4) [of "e_active e" "e_active e'"]
    by (simp add: evolves_def seq_cap_def num_generating_def running_capacity_def)
  show "seq_cap (snd (admit W clk q (e\<lparr>e_waiting := rest\<rparr>)))"
    if "core_inv e" "seq_cap e" "has_room e" "next_waiting e = Some (q, rest)" for e :: "'r sim_engine" and clk q rest
    using that by (blast intro: seq_admit)
  show "seq_cap (snd (admit_direct W clk rid (pp_client p) (pp_queued p) (pp_block_ids p) (pp_num_local_cached p)
      (e\<lparr>e_pending := bt_remove rid (e_pending e)\<rparr>)))"
    if "core_inv e" "seq_cap e" "bt_get (e_pending e) rid = Some p" for e :: "'r sim_engine" and clk rid p
    using that by (rule seq_pull)
  show "seq_cap (snd (snd (flush_due t e)))" if "core_inv e" "seq_cap e" for e :: "'r sim_engine" and t
    using that by (rule seq_flush)
  show "seq_cap (count_aborted (snd (withdraw rid e)))"
    if "core_inv e" "seq_cap e" "fst (withdraw rid e) \<noteq> None" for e :: "'r sim_engine" and rid
    using that(2) by (rule seq_withdraw)
  show "core_inv e \<Longrightarrow> seq_cap e \<Longrightarrow> seq_cap (snd (reset_prefix_cache_outputs clk u e))" for e :: "'r sim_engine" and clk u
    by (auto simp: reset_prefix_cache_outputs_def Let_def split_beta seq_cap_def num_generating_def
        running_capacity_def split: option.splits)
qed (auto simp: seq_cap_def num_generating_def running_capacity_def keeps_capacity_def patch_opt_def patched_def
  count_received_def count_failed_def count_aborted_def scheduler_stats_def Let_def split_beta)


section \<open>The LoRA slot cap\<close>

definition lora_cap :: "'r sim_engine \<Rightarrow> bool" where
  "lora_cap e \<longleftrightarrow>
     (0 < max_loras (e_loras e) \<longrightarrow> card (set (resident_loras e)) \<le> max_loras (e_loras e)) \<and>
     (\<forall>rid p. bt_get (e_pending e) rid = Some p \<longrightarrow> pp_lora p = request_lora_name (q_request (pp_queued p)))"

lemma lora_cap_mono:
  assumes "lora_cap e" "set (resident_loras e') \<subseteq> set (resident_loras e)" "max_loras (e_loras e') = max_loras (e_loras e)"
    "\<And>rid p. bt_get (e_pending e') rid = Some p \<Longrightarrow> bt_get (e_pending e) rid = Some p"
  shows "lora_cap e'"
  using assms card_mono [OF finite_set assms(2)] by (fastforce simp: lora_cap_def)

lemma lora_cap_frame:
  assumes "lora_cap e" "e_active e' = e_active e" "e_pending e' = e_pending e" "max_loras (e_loras e') = max_loras (e_loras e)"
  shows "lora_cap e'"
  by (rule lora_cap_mono [OF assms(1)]) (simp_all add: resident_loras_def assms)

lemma map_filter_insert:
  assumes "bt_inv m" "bt_get m k = None"
  shows "set (List.map_filter f (bt_values (bt_insert k v m))) =
    set_option (f v) \<union> set (List.map_filter f (bt_values m))"
proof -
  have "set (List.map_filter f (bt_values (bt_insert k v m))) = set (List.map_filter f (v # bt_values m))"
    by (rule map_filter_set_mset) (simp only: bt_insert_mset_values [OF assms] mset.simps)
  then show ?thesis by (auto simp: map_filter_simps split: option.splits)
qed

lemma map_filter_remove: "set (List.map_filter f (bt_values (bt_remove k m))) \<subseteq> set (List.map_filter f (bt_values m))"
  unfolding map_filter_set bt_remove_def by force

lemma loras_joins:
  assumes "bt_inv (e_active e)" "joins request e e'"
  shows "set (resident_loras e') = set_option (request_lora_name request) \<union> set (resident_loras e)"
proof -
  obtain r where r: "a_lora r = request_lora_name request" "e_active e' = bt_insert (req_id request) r (e_active e)"
    and none: "bt_get (e_active e) (req_id request) = None" and p: "e_pending e' = e_pending e"
    using assms(2) unfolding joins_def by metis
  show ?thesis unfolding resident_loras_def r(2) p set_append map_filter_insert [OF assms(1) none] r(1) by auto
qed

lemma loras_parks:
  assumes "bt_inv (e_pending e)" "parks request e e'"
  shows "set (resident_loras e') = set_option (request_lora_name request) \<union> set (resident_loras e)"
proof -
  obtain q where q: "pp_lora q = request_lora_name request" "e_pending e' = bt_insert (req_id request) q (e_pending e)"
    and none: "bt_get (e_pending e) (req_id request) = None" and p: "e_active e' = e_active e"
    using assms(2) unfolding parks_def by metis
  show ?thesis unfolding resident_loras_def q(2) p set_append map_filter_insert [OF assms(1) none] q(1) by auto
qed

lemma loras_fails: "fails e e' \<Longrightarrow> set (resident_loras e') = set (resident_loras e)"
  by (simp add: fails_def resident_loras_def)

lemma next_waiting_admits: "next_waiting e = Some (q, rest) \<Longrightarrow> lora_admits e (q_request q)"
  by (auto simp: next_waiting_def next_admissible_index_def bind_eq_Some_conv vd_remove_def
      dest!: policy.pick_sound split: if_splits)

lemma lora_admits_fits:
  assumes "lora_admits e request" "0 < max_loras (e_loras e)" "card (set (resident_loras e)) \<le> max_loras (e_loras e)"
  shows "card (set_option (request_lora_name request) \<union> set (resident_loras e)) \<le> max_loras (e_loras e)"
  using assms admits_cap [OF assms(2)] by (cases "request_lora_name request") (auto simp: lora_admits_def)

lemma pulls_parks:
  assumes "bt_inv (e_pending e)" "parks request e e'" "bt_get (e_pending e') rid = Some p"
  shows "bt_get (e_pending e) rid = Some p \<or> pp_lora p = request_lora_name (q_request (pp_queued p))"
  using assms by (auto simp: parks_def bt_simps split: if_splits)

lemma lora_cap_admit:
  assumes "core_inv e" "lora_cap e" "next_waiting e = Some (q, rest)"
  shows "lora_cap (snd (admit W clk q (e\<lparr>e_waiting := rest\<rparr>)))"
proof -
  define e' where "e' = snd (admit W clk q (e\<lparr>e_waiting := rest\<rparr>))"
  obtain out pool where c: "cache_prompt (e_pool e) (prompt_of (q_request q)) (request_lora_name (q_request q))
      (req_cache_salt (q_request q)) = (out, pool)" by fastforce
  note I = base_invD [OF core_base [OF assms(1)]]
  have S: "same_settings e e'" "joins (q_request q) e e' \<or> parks (q_request q) e e' \<or> fails e e'"
    using admit_shape [OF core_base [OF assms(1)] assms(3) c e'_def] by auto
  have m: "max_loras (e_loras e') = max_loras (e_loras e)" using S(1) by (simp add: same_settings_def)
  have "set (resident_loras e') = set_option (request_lora_name (q_request q)) \<union> set (resident_loras e) \<or>
      set (resident_loras e') = set (resident_loras e)"
    using S(2) loras_joins [OF I(1)] loras_parks [OF I(2)] loras_fails by blast
  moreover have "pp_lora p = request_lora_name (q_request (pp_queued p))" if "bt_get (e_pending e') rid = Some p" for rid p
    using S(2) that assms(2) pulls_parks [OF I(2)] unfolding lora_cap_def joins_def fails_def by metis
  ultimately show ?thesis
    using assms(2) lora_admits_fits [OF next_waiting_admits [OF assms(3)]] m unfolding lora_cap_def e'_def by metis
qed

lemma lora_cap_pull:
  assumes "core_inv e" "lora_cap e" "bt_get (e_pending e) rid = Some p"
  shows "lora_cap (snd (admit_direct W clk rid (pp_client p) (pp_queued p) (pp_block_ids p) (pp_num_local_cached p)
    (e\<lparr>e_pending := bt_remove rid (e_pending e)\<rparr>)))"
proof -
  let ?e1 = "e\<lparr>e_pending := bt_remove rid (e_pending e)\<rparr>"
  define e' where "e' = snd (admit_direct W clk rid (pp_client p) (pp_queued p) (pp_block_ids p) (pp_num_local_cached p) ?e1)"
  note I = base_invD [OF core_base [OF assms(1)]]
  have S: "same_settings ?e1 e'" "joins (q_request (pp_queued p)) ?e1 e' \<or> fails ?e1 e'"
    using direct_shape [OF reserved_pulled [OF core_base [OF assms(1)] assms(3)] I(7) [OF assms(3)] e'_def] by auto
  have "p \<in> set (bt_values (e_pending e))"
    using assms(3) bt.elems_get [OF I(2), of rid p] by force
  then have "set_option (pp_lora p) \<subseteq> set (List.map_filter pp_lora (bt_values (e_pending e)))"
    unfolding map_filter_set by auto
  then have "set_option (request_lora_name (q_request (pp_queued p))) \<union> set (resident_loras ?e1) \<subseteq> set (resident_loras e)"
    using assms(2,3) map_filter_remove [of pp_lora rid "e_pending e"]
    by (auto simp: lora_cap_def resident_loras_def)
  then have "set (resident_loras e') \<subseteq> set (resident_loras e)"
    using S(2) loras_joins [of ?e1 "q_request (pp_queued p)" e'] I(1) by (auto simp: fails_def resident_loras_def)
  moreover have "e_pending e' = bt_remove rid (e_pending e)" "max_loras (e_loras e') = max_loras (e_loras e)"
    using S by (auto simp: joins_def fails_def same_settings_def)
  ultimately show ?thesis
    unfolding e'_def [symmetric] by (intro lora_cap_mono [OF assms(2)]) (auto simp: bt_simps split: if_splits)
qed

lemma lora_cap_flush:
  assumes "core_inv e" "lora_cap e"
  shows "lora_cap (snd (snd (flush_due t e)))"
proof -
  note S = flush_shape [OF assms(1) refl refl, of t]
  have "a_lora (drained t e (snd x)) = a_lora (snd x)" if "x \<in> set (e_active e)" for x
    using drain_core_request [OF assms(1), of "fst x" "snd x" t] that by simp
  then have "set (List.map_filter a_lora (bt_values (e_active (snd (snd (flush_due t e)))))) \<subseteq>
      set (List.map_filter a_lora (bt_values (e_active e)))"
    unfolding map_filter_set S(1) by force
  then show ?thesis
    using S(2,4) by (intro lora_cap_mono [OF assms(2)]) (auto simp: resident_loras_def same_settings_def)
qed

lemma lora_cap_withdraw:
  assumes "lora_cap e"
  shows "lora_cap (count_aborted (snd (withdraw rid e)))"
proof -
  let ?e = "snd (withdraw rid e)"
  have "set (resident_loras ?e) \<subseteq> set (resident_loras e)"
    using withdraw_shape [of rid e] map_filter_remove [of a_lora rid "e_active e"]
      map_filter_remove [of pp_lora rid "e_pending e"]
    by (auto simp: leaves_active_def leaves_pending_def leaves_waiting_def resident_loras_def)
  moreover have "bt_get (e_pending ?e) i = Some p \<Longrightarrow> bt_get (e_pending e) i = Some p" for i p
    using withdraw_shape [of rid e]
    by (auto simp: leaves_active_def leaves_pending_def leaves_waiting_def bt_simps split: if_splits)
  moreover have "max_loras (e_loras ?e) = max_loras (e_loras e)"
    using withdraw_fields(1) [of e rid] by (simp add: same_settings_def)
  ultimately have "lora_cap ?e" by (intro lora_cap_mono [OF assms])
  then show ?thesis by (rule lora_cap_frame) (simp_all add: count_aborted_def)
qed

lemma reset_frame:
  "e_active (snd (reset_prefix_cache_outputs clk u e)) = e_active e"
  "e_pending (snd (reset_prefix_cache_outputs clk u e)) = e_pending e"
  "e_waiting (snd (reset_prefix_cache_outputs clk u e)) = e_waiting e"
  "e_loras (snd (reset_prefix_cache_outputs clk u e)) = e_loras e"
  "e_opt (snd (reset_prefix_cache_outputs clk u e)) = e_opt e"
  "e_stats (snd (reset_prefix_cache_outputs clk u e)) = e_stats e"
  "e_events_on (snd (reset_prefix_cache_outputs clk u e)) = e_events_on e"
  by (auto simp: reset_prefix_cache_outputs_def Let_def split_beta split: option.splits)

interpretation lora: engine_extension W lora_cap "\<lambda>_. True" for W :: "'r world"
proof
  show "lora_cap e'" if "core_inv e" "lora_cap e" "evolves e e'" for e e' :: "'r sim_engine"
    using that(3) by (intro lora_cap_mono [OF that(2)])
      (auto simp: evolves_def resident_loras_def pairwise_lists(3))
  show "lora_cap (snd (admit W clk q (e\<lparr>e_waiting := rest\<rparr>)))"
    if "core_inv e" "lora_cap e" "has_room e" "next_waiting e = Some (q, rest)" for e :: "'r sim_engine" and clk q rest
    using that by (blast intro: lora_cap_admit)
  show "lora_cap (snd (admit_direct W clk rid (pp_client p) (pp_queued p) (pp_block_ids p) (pp_num_local_cached p)
      (e\<lparr>e_pending := bt_remove rid (e_pending e)\<rparr>)))"
    if "core_inv e" "lora_cap e" "bt_get (e_pending e) rid = Some p" for e :: "'r sim_engine" and clk rid p
    using that by (rule lora_cap_pull)
  show "lora_cap (snd (snd (flush_due t e)))" if "core_inv e" "lora_cap e" for e :: "'r sim_engine" and t
    using that by (rule lora_cap_flush)
  show "lora_cap (count_aborted (snd (withdraw rid e)))"
    if "core_inv e" "lora_cap e" "fst (withdraw rid e) \<noteq> None" for e :: "'r sim_engine" and rid
    using that(2) by (rule lora_cap_withdraw)
qed (auto simp: count_received_def count_failed_def count_aborted_def scheduler_stats_def Let_def split_beta
  reset_frame elim: lora_cap_frame)

end
