(* ===== verification/Engine_Ledger.thy ===== *)
theory Engine_Ledger
  imports Engine_Caps
begin

text \<open>
  Two more invariants of the engine through the same interface: the counters of the control
  plane account for every request, and the KV events the engine published describe the blocks
  it caches. The last section builds the initial state of an engine.
\<close>

section \<open>Every request is accounted for\<close>

definition conserved :: "'r sim_engine \<Rightarrow> bool" where
  "conserved e \<longleftrightarrow>
     requests_received (e_stats e) =
       requests_completed (e_stats e) + requests_failed (e_stats e) + requests_aborted (e_stats e) +
       num_unfinished_requests e"

definition keeps_stats :: "control_request \<Rightarrow> bool" where
  "keeps_stats c \<longleftrightarrow> c \<noteq> ResetStats"

lemma unfinished_joins:
  "bt_inv (e_active e) \<Longrightarrow> joins request e e' \<Longrightarrow>
    length (e_active e') + length (e_pending e') = Suc (length (e_active e) + length (e_pending e)) \<and>
    e_stats e' = e_stats e"
  by (auto simp: joins_def bt_length_insert)

lemma unfinished_parks:
  "bt_inv (e_pending e) \<Longrightarrow> parks request e e' \<Longrightarrow>
    length (e_active e') + length (e_pending e') = Suc (length (e_active e) + length (e_pending e)) \<and>
    e_stats e' = e_stats e"
  by (auto simp: parks_def bt_length_insert)

lemma conserved_admit:
  assumes "core_inv e" "conserved e" "next_waiting e = Some (q, rest)"
  shows "conserved (snd (admit W clk q (e\<lparr>e_waiting := rest\<rparr>)))"
proof -
  define e' where "e' = snd (admit W clk q (e\<lparr>e_waiting := rest\<rparr>))"
  obtain out pool where c: "cache_prompt (e_pool e) (prompt_of (q_request q)) (request_lora_name (q_request q))
      (req_cache_salt (q_request q)) = (out, pool)" by fastforce
  note I = base_invD [OF core_base [OF assms(1)]]
  have S: "e_waiting e' = rest" "joins (q_request q) e e' \<or> parks (q_request q) e e' \<or> fails e e'"
    using admit_shape [OF core_base [OF assms(1)] assms(3) c e'_def] by auto
  have "length (e_waiting e) = Suc (length rest)"
    using assms(3) by (auto simp: next_waiting_def bind_eq_Some_conv dest: vd_remove_length)
  then have "conserved e'"
    using S assms(2) unfinished_joins [OF I(1)] unfinished_parks [OF I(2)]
    by (fastforce simp: conserved_def num_unfinished_requests_def fails_def count_failed_def)
  then show ?thesis by (simp add: e'_def)
qed

lemma conserved_pull:
  assumes "core_inv e" "conserved e" "bt_get (e_pending e) rid = Some p"
  shows "conserved (snd (admit_direct W clk rid (pp_client p) (pp_queued p) (pp_block_ids p) (pp_num_local_cached p)
    (e\<lparr>e_pending := bt_remove rid (e_pending e)\<rparr>)))"
proof -
  let ?e1 = "e\<lparr>e_pending := bt_remove rid (e_pending e)\<rparr>"
  define e' where "e' = snd (admit_direct W clk rid (pp_client p) (pp_queued p) (pp_block_ids p) (pp_num_local_cached p) ?e1)"
  note I = base_invD [OF core_base [OF assms(1)]]
  have S: "e_waiting e' = e_waiting e" "joins (q_request (pp_queued p)) ?e1 e' \<or> fails ?e1 e'"
    using direct_shape [OF reserved_pulled [OF core_base [OF assms(1)] assms(3)] I(7) [OF assms(3)] e'_def] by auto
  have "length (e_pending e) = Suc (length (e_pending ?e1))" using bt_length_remove [OF I(2) assms(3)] by simp
  then have "conserved e'"
    using S assms(2) unfinished_joins [of ?e1] I(1)
    by (fastforce simp: conserved_def num_unfinished_requests_def fails_def count_failed_def)
  then show ?thesis by (simp add: e'_def)
qed

lemma conserved_flush:
  assumes "core_inv e" "conserved e"
  shows "conserved (snd (snd (flush_due t e)))"
proof -
  note S = flush_shape [OF assms(1) refl refl, of t]
  obtain k where "length (e_active e) = length (filter (\<lambda>x. \<not> complete_at t e (snd x)) (e_active e)) + k"
    using length_filter_le le_Suc_ex by blast
  then show ?thesis
    using assms(2) S(2,3) by (simp add: conserved_def num_unfinished_requests_def S(1,7))
qed

lemma conserved_withdraw:
  assumes "core_inv e" "conserved e" "fst (withdraw rid e) \<noteq> None"
  shows "conserved (count_aborted (snd (withdraw rid e)))"
proof -
  let ?e = "snd (withdraw rid e)"
  note I = base_invD [OF core_base [OF assms(1)]]
  have "num_unfinished_requests e = Suc (num_unfinished_requests ?e)"
    using withdraw_shape [of rid e] assms(3) bt_length_remove [OF I(1)] bt_length_remove [OF I(2)]
    unfolding num_unfinished_requests_def leaves_active_def leaves_pending_def leaves_waiting_def
    by (metis add_Suc add_Suc_right size_add_mset size_mset)
  then show ?thesis
    using assms(2) withdraw_fields(3) [of rid e]
    by (simp add: conserved_def count_aborted_def num_unfinished_requests_def)
qed

interpretation ledger: engine_extension W conserved keeps_stats for W :: "'r world"
proof
  show "conserved e'" if "core_inv e" "conserved e" "evolves e e'" for e e' :: "'r sim_engine"
    using that pairwise_lists(1) [of "e_active e" "e_active e'"]
    by (simp add: evolves_def conserved_def num_unfinished_requests_def)
  show "conserved (snd (admit W clk q (e\<lparr>e_waiting := rest\<rparr>)))"
    if "core_inv e" "conserved e" "has_room e" "next_waiting e = Some (q, rest)" for e :: "'r sim_engine" and clk q rest
    using that by (blast intro: conserved_admit)
  show "conserved (snd (admit_direct W clk rid (pp_client p) (pp_queued p) (pp_block_ids p) (pp_num_local_cached p)
      (e\<lparr>e_pending := bt_remove rid (e_pending e)\<rparr>)))"
    if "core_inv e" "conserved e" "bt_get (e_pending e) rid = Some p" for e :: "'r sim_engine" and clk rid p
    using that by (rule conserved_pull)
  show "conserved (snd (snd (flush_due t e)))" if "core_inv e" "conserved e" for e :: "'r sim_engine" and t
    using that by (rule conserved_flush)
  show "conserved (count_aborted (snd (withdraw rid e)))"
    if "core_inv e" "conserved e" "fst (withdraw rid e) \<noteq> None" for e :: "'r sim_engine" and rid
    using that by (rule conserved_withdraw)
qed (auto simp: conserved_def num_unfinished_requests_def keeps_stats_def count_received_def count_failed_def
  count_aborted_def scheduler_stats_def Let_def split_beta reset_frame)

section \<open>The published events\<close>

definition mirrored :: "'r sim_engine \<Rightarrow> bool" where
  "mirrored e \<longleftrightarrow> (e_events_on e \<longrightarrow> apply_events {} (e_published e) = keys (e_pool e))"

lemma apply_events_append: "apply_events S (evs @ evs') = apply_events (apply_events S evs) evs'"
  by (simp add: apply_events_def)

lemma mirrored_frame:
  assumes "mirrored e" "e_events_on e' = e_events_on e" "e_published e' = e_published e"
    "keys (e_pool e') = keys (e_pool e)"
  shows "mirrored e'"
  using assms by (simp add: mirrored_def)

lemma mirrored_admit:
  assumes "core_inv e" "mirrored e" "next_waiting e = Some (q, rest)"
  shows "mirrored (snd (admit W clk q (e\<lparr>e_waiting := rest\<rparr>)))"
proof -
  define e' where "e' = snd (admit W clk q (e\<lparr>e_waiting := rest\<rparr>))"
  obtain out pool where c: "cache_prompt (e_pool e) (prompt_of (q_request q)) (request_lora_name (q_request q))
      (req_cache_salt (q_request q)) = (out, pool)" by fastforce
  have "apply_events (keys (e_pool e)) (events out) = keys pool"
    using cache_prompt_mirror [OF base_invD(3) [OF core_base [OF assms(1)]], of "prompt_of (q_request q)"] c by (metis fst_conv snd_conv)
  then have "mirrored e'"
    using admit_shape [OF core_base [OF assms(1)] assms(3) c e'_def] assms(2)
    by (auto simp: mirrored_def same_settings_def apply_events_append)
  then show ?thesis by (simp add: e'_def)
qed

lemma mirrored_reset:
  assumes "mirrored e"
  shows "mirrored (snd (reset_prefix_cache_outputs clk u e))"
  using assms reset_mirror [of "e_pool e"]
  by (auto simp: mirrored_def reset_prefix_cache_outputs_def Let_def split_beta publish_def apply_events_append
      split: option.splits)

interpretation mirror: engine_extension W mirrored "\<lambda>_. True" for W :: "'r world"
proof
  show "mirrored e'" if "core_inv e" "mirrored e" "evolves e e'" for e e' :: "'r sim_engine"
    using that by (auto simp: evolves_def intro: mirrored_frame)
  show "mirrored (snd (admit W clk q (e\<lparr>e_waiting := rest\<rparr>)))"
    if "core_inv e" "mirrored e" "has_room e" "next_waiting e = Some (q, rest)" for e :: "'r sim_engine" and clk q rest
    using that by (blast intro: mirrored_admit)
  show "mirrored (snd (admit_direct W clk rid (pp_client p) (pp_queued p) (pp_block_ids p) (pp_num_local_cached p)
      (e\<lparr>e_pending := bt_remove rid (e_pending e)\<rparr>)))"
    if "core_inv e" "mirrored e" "bt_get (e_pending e) rid = Some p" for e :: "'r sim_engine" and clk rid p
    using that direct_shape [OF reserved_pulled [OF core_base [OF that(1)] that(3)]
        base_invD(7) [OF core_base [OF that(1)] that(3)] refl, of W clk "pp_client p" "pp_num_local_cached p"]
    by (auto simp: same_settings_def intro!: mirrored_frame [OF that(2)])
  show "mirrored (snd (snd (flush_due t e)))" if "core_inv e" "mirrored e" for e :: "'r sim_engine" and t
    using flush_shape(4,5,6) [OF that(1) refl refl, of t]
    by (intro mirrored_frame [OF that(2)]) (auto simp: same_settings_def)
  show "mirrored (count_aborted (snd (withdraw rid e)))"
    if "core_inv e" "mirrored e" "fst (withdraw rid e) \<noteq> None" for e :: "'r sim_engine" and rid
    using withdraw_fields(1) [of e rid] withdraw_fields(2-4) [of rid e]
    by (intro mirrored_frame [OF that(2)]) (auto simp: same_settings_def count_aborted_def)
qed (auto simp: count_received_def count_failed_def count_aborted_def scheduler_stats_def Let_def split_beta
  take_stats_def keys_def intro: mirrored_reset elim: mirrored_frame)

end
