(* ===== verification/Engine_Compose.thy ===== *)
theory Engine_Compose
  imports Engine_Ledger
begin

text \<open>
  The contents of a composed step: which requests decode in it, which prefill chunks it takes
  and how both share the token budget.
\<close>

section \<open>What scheduling decisions read of the batch\<close>

definition summary :: "'r active_request \<Rightarrow> string \<times> req_phase \<times> nat \<times> nat \<times> string option" where
  "summary r = (a_id r, a_phase r, a_generated r, a_max_tokens r, a_lora r)"

definition same_load :: "'r sim_engine \<Rightarrow> 'r sim_engine \<Rightarrow> bool" where
  "same_load e e' \<longleftrightarrow>
     map (\<lambda>x. (fst x, summary (snd x))) (e_active e') = map (\<lambda>x. (fst x, summary (snd x))) (e_active e) \<and>
     e_pending e' = e_pending e \<and> e_waiting e' = e_waiting e \<and> e_opt e' = e_opt e \<and>
     max_loras (e_loras e') = max_loras (e_loras e) \<and> e_policy e' = e_policy e"

lemma same_load_refl [simp]: "same_load e e"
  by (simp add: same_load_def)

lemma same_load_trans: "same_load a b \<Longrightarrow> same_load b c \<Longrightarrow> same_load a c"
  by (simp add: same_load_def)

lemma same_load_frame [simp]:
  "same_load e (e\<lparr>e_prefill_order := x1\<rparr>)" "same_load e (e\<lparr>e_step := x2\<rparr>)" "same_load e (e\<lparr>e_pool := x3\<rparr>)"
  "same_load e (e\<lparr>e_pending_spec := x4\<rparr>)" "same_load e (e\<lparr>e_stats := x5\<rparr>)"
  "same_load e (e\<lparr>e_replies := x6\<rparr>)" "same_load e (e\<lparr>e_failure_rng := x7\<rparr>)"
  by (simp_all add: same_load_def)

lemma same_load_lists:
  assumes "map (\<lambda>x. (fst x, summary (snd x))) m' = map (\<lambda>x. (fst x, summary (snd x))) m"
  shows "length (filter is_generating (bt_values m')) = length (filter is_generating (bt_values m))"
    "map token_demand (bt_values m') = map token_demand (bt_values m)"
    "List.map_filter a_lora (bt_values m') = List.map_filter a_lora (bt_values m)"
    "map_option summary (bt_get m' rid) = map_option summary (bt_get m rid)"
proof -
  have "list_all2 (=) (map (\<lambda>x. (fst x, summary (snd x))) m) (map (\<lambda>x. (fst x, summary (snd x))) m')"
    using assms by (simp add: list.rel_eq)
  then have "list_all2 (\<lambda>x y. fst y = fst x \<and> summary (snd y) = summary (snd x)) m m'"
    unfolding list.rel_map by (rule list_all2_mono) auto
  then show "length (filter is_generating (bt_values m')) = length (filter is_generating (bt_values m))"
    "map token_demand (bt_values m') = map token_demand (bt_values m)"
    "List.map_filter a_lora (bt_values m') = List.map_filter a_lora (bt_values m)"
    "map_option summary (bt_get m' rid) = map_option summary (bt_get m rid)"
  proof (induction rule: list_all2_induct)
    case (Cons x xs y ys)
    have s: "is_generating (snd y) = is_generating (snd x)" "token_demand (snd y) = token_demand (snd x)"
      "a_lora (snd y) = a_lora (snd x)"
      using Cons.hyps by (auto simp: summary_def is_generating_def token_demand_def)
    { case 1 then show ?case using Cons s by simp }
    { case 2 then show ?case using Cons s by simp }
    { case 3 then show ?case using Cons s by (simp add: map_filter_simps split: option.split) }
    { case 4 then show ?case using Cons by (cases x; cases y) (auto simp: bt_get_def) }
  qed simp_all
qed

lemma same_load_queries:
  assumes "same_load e e'"
  shows "has_room e' = has_room e" "next_waiting e' = next_waiting e" "token_budget e' = token_budget e"
    "map_option summary (bt_get (e_active e') rid) = map_option summary (bt_get (e_active e) rid)"
proof -
  have v: "map (\<lambda>x. (fst x, summary (snd x))) (e_active e') = map (\<lambda>x. (fst x, summary (snd x))) (e_active e)"
    using assms by (simp add: same_load_def)
  note L = same_load_lists [OF v]
  have f: "e_pending e' = e_pending e" "e_waiting e' = e_waiting e" "e_opt e' = e_opt e"
    "max_loras (e_loras e') = max_loras (e_loras e)" "e_policy e' = e_policy e" using assms by (simp_all add: same_load_def)
  show "has_room e' = has_room e"
    unfolding has_room_def num_generating_def step_token_backlog_def running_capacity_def token_budget_def
    by (simp only: L(1,2) f)
  have "lora_admits e' = lora_admits e"
    unfolding lora_admits_def admits_def resident_loras_def fun_eq_iff by (simp only: L(3) f simp_thms)
  then show "next_waiting e' = next_waiting e"
    unfolding next_waiting_def next_admissible_index_def by (simp only: f)
  show "token_budget e' = token_budget e" unfolding token_budget_def by (simp only: f)
  show "map_option summary (bt_get (e_active e') rid) = map_option summary (bt_get (e_active e) rid)" by (rule L(4))
qed

lemma same_load_get:
  assumes "same_load e e'" "bt_get (e_active e') rid = Some r'"
  obtains r where "bt_get (e_active e) rid = Some r" "summary r' = summary r"
  using same_load_queries(4) [OF assms(1), of rid] assms(2) that by (cases "bt_get (e_active e) rid") auto

section \<open>The contents of a composed step\<close>

lemma draw_step_summary: "summary (snd (draw_step W lat n r)) = summary r"
  by (auto simp: draw_step_def split_beta summary_def split: option.splits)

lemma modify_summary:
  assumes "bt_inv m" "bt_get m rid = Some r" "summary r' = summary r"
  shows "map (\<lambda>x. (fst x, summary (snd x))) (bt_modify rid (\<lambda>_. r') m) = map (\<lambda>x. (fst x, summary (snd x))) m"
proof -
  have "snd x = r" if "x \<in> set m" "fst x = rid" for x
    using that assms(2) bt.elems_get [OF assms(1), of "fst x" "snd x"] by (metis option.inject prod.collapse)
  then show ?thesis using assms(3) by (auto simp: bt_modify_def)
qed

definition composing :: "'r sim_engine \<Rightarrow> 'r sim_engine \<Rightarrow> bool" where
  "composing e x \<longleftrightarrow> bt_inv (e_active x) \<and> same_load e x \<and> e_prefill_order x = e_prefill_order e \<and> e_step x = e_step e"

lemma draw_decoders_composing:
  assumes "bt_inv (e_active e)"
  shows "composing e (snd (snd (draw_decoders W n pacer i base rids e)))"
proof (rule draw_decoders_rule)
  show "composing e e" using assms by (simp add: composing_def)
  show "composing e (x\<lparr>e_active := bt_modify rid (\<lambda>_. snd (draw_step W (e_latency x) n r)) (e_active x)\<rparr>)"
    if "composing e x" "bt_get (e_active x) rid = Some r" for x rid r
    using that modify_summary [OF _ that(2) draw_step_summary [of W "e_latency x" n r]]
    by (simp add: composing_def same_load_def bt_inv_modify)
qed

lemma draw_decoders_ids:
  "map fst (fst (draw_decoders W n pacer i base rids e)) = filter (\<lambda>rid. bt_get (e_active e) rid \<noteq> None) rids"
proof (induction rids arbitrary: i base e)
  case (Cons rid rids)
  have "filter (\<lambda>k. bt_get (bt_modify rid f m) k \<noteq> None) ks = filter (\<lambda>k. bt_get m k \<noteq> None) ks"
    for f ks and m :: "(string, 'a active_request) btree"
    by (intro filter_cong) (auto simp: bt_simps)
  then show ?case using Cons.IH by (cases "bt_get (e_active e) rid") (auto simp: split_beta Let_def)
qed simp

definition plannable :: "(string, 'r active_request) btree \<Rightarrow> string \<Rightarrow> bool" where
  "plannable act rid \<longleftrightarrow> (\<exists>r n. bt_get act rid = Some r \<and> a_phase r = Prefill n \<and> 0 < n)"

lemma plan_chunks_spec:
  assumes "\<And>rid. rid \<in> set rids \<Longrightarrow> plannable act rid" "plan_chunks lat threshold act budget rids = (cs, rest, cost)"
  shows "sum_list (map snd cs) + rest = budget"
    "\<And>c. c \<in> set cs \<Longrightarrow> \<exists>r n. bt_get act (fst c) = Some r \<and> a_phase r = Prefill n \<and> 0 < snd c \<and> snd c \<le> n \<and>
       (0 < threshold \<longrightarrow> snd c \<le> threshold)"
    "\<exists>k. map fst cs = take k rids \<and> (k < length rids \<longrightarrow> rest = 0)"
    "cs = [] \<Longrightarrow> 0 < budget \<Longrightarrow> rids = []"
proof -
  have "sum_list (map snd cs) + rest = budget \<and>
    (\<forall>c \<in> set cs. \<exists>r n. bt_get act (fst c) = Some r \<and> a_phase r = Prefill n \<and> 0 < snd c \<and> snd c \<le> n \<and>
       (0 < threshold \<longrightarrow> snd c \<le> threshold)) \<and>
    (\<exists>k. map fst cs = take k rids \<and> (k < length rids \<longrightarrow> rest = 0)) \<and>
    (cs = [] \<longrightarrow> 0 < budget \<longrightarrow> rids = [])"
    using assms
  proof (induction rids arbitrary: budget cs cost)
    case (Cons rid rids)
    show ?case
    proof (cases "budget = 0")
      case True
      then show ?thesis using Cons.prems by (auto intro: exI [of _ 0])
    next
      case False
      obtain r n where r: "bt_get act rid = Some r" "a_phase r = Prefill n" "0 < n"
        using Cons.prems(1) [of rid] by (auto simp: plannable_def)
      define k where "k = (if threshold > 0 then min (min n budget) threshold else min n budget)"
      obtain cs1 cost1 where p: "plan_chunks lat threshold act (budget - k) rids = (cs1, rest, cost1)"
        and cs: "cs = (rid, k) # cs1"
        using Cons.prems(2) r False by (auto simp: k_def Let_def split: prod.splits)
      have k: "0 < k" "k \<le> n" "k \<le> budget" "0 < threshold \<longrightarrow> k \<le> threshold" using False r(3) by (auto simp: k_def)
      note IH = Cons.IH [OF Cons.prems(1) p]
      obtain j where "map fst cs1 = take j rids" "j < length rids \<longrightarrow> rest = 0" using IH by auto
      then have "map fst cs = take (Suc j) (rid # rids) \<and> (Suc j < length (rid # rids) \<longrightarrow> rest = 0)" using cs by simp
      then show ?thesis using IH k r cs by (auto intro!: exI [of _ "Suc j"])
    qed
  qed auto
  then show "sum_list (map snd cs) + rest = budget"
    "\<And>c. c \<in> set cs \<Longrightarrow> \<exists>r n. bt_get act (fst c) = Some r \<and> a_phase r = Prefill n \<and> 0 < snd c \<and> snd c \<le> n \<and>
       (0 < threshold \<longrightarrow> snd c \<le> threshold)"
    "\<exists>k. map fst cs = take k rids \<and> (k < length rids \<longrightarrow> rest = 0)"
    "cs = [] \<Longrightarrow> 0 < budget \<Longrightarrow> rids = []"
    by blast+
qed


text \<open>
  A composed step holds every decoding request that still generates, each running decoder
  first claiming its tokens from the budget, and as many prefill chunks in admission order
  as the rest of the budget allows.
\<close>

definition runnable :: "'r sim_engine \<Rightarrow> engine_step \<Rightarrow> bool" where
  "runnable e stp \<longleftrightarrow>
     (es_decoders stp \<noteq> [] \<or> es_chunks stp \<noteq> []) \<and>
     (\<forall>d \<in> set (es_decoders stp). \<exists>r. bt_get (e_active e) (fst d) = Some r \<and> is_generating r) \<and>
     (\<forall>c \<in> set (es_chunks stp). 0 < snd c \<and>
        (\<exists>r n. bt_get (e_active e) (fst c) = Some r \<and> a_phase r = Prefill n \<and> snd c \<le> n))"

definition decode_claim :: "engine_step \<Rightarrow> nat" where
  "decode_claim stp = sum_list (map (\<lambda>d. max (snd d) 1) (es_decoders stp))"

lemma decoder_ids_active:
  assumes "base_inv e" "rid \<in> set (decoder_ids e)"
  obtains r where "bt_get (e_active e) rid = Some r" "a_phase r = Decode" "is_generating r"
proof -
  obtain x where x: "x \<in> set (e_active e)" "rid = a_id (snd x)" "a_phase (snd x) = Decode" "is_generating (snd x)"
    using assms(2) by (auto simp: decoder_ids_def)
  have g: "bt_get (e_active e) (fst x) = Some (snd x)"
    using bt.elems_get [OF base_invD(1) [OF assms(1)], of "fst x" "snd x"] x(1) by simp
  then have "rid = fst x" using base_invD(6) [OF assms(1) g] x(2) by (simp add: request_base_def)
  with g x show thesis using that [of "snd x"] by simp
qed

lemma same_load_runs:
  assumes "same_load e e'" "bt_get (e_active e) rid = Some r"
  obtains r' where "bt_get (e_active e') rid = Some r'" "a_phase r' = a_phase r" "is_generating r' = is_generating r"
proof -
  obtain r' where "bt_get (e_active e') rid = Some r'" "summary r' = summary r"
    using same_load_queries(4) [OF assms(1), of rid] assms(2) by (cases "bt_get (e_active e') rid") auto
  then show thesis using that by (auto simp: summary_def is_generating_def)
qed

lemma compose_composes:
  assumes "core_inv e" "e_step e = None"
    and e'_def: "e' = compose_step W t e"
  shows "same_load e e'"
    "set (e_prefill_order e') = {rid \<in> set (e_prefill_order e). prefilling (e_active e) rid}"
    "e_step e' = None \<Longrightarrow> decoder_ids e = [] \<and> e_prefill_order e' = []"
    "e_step e' = Some stp \<Longrightarrow> runnable e' stp \<and> map fst (es_decoders stp) = decoder_ids e \<and>
       sum_list (map snd (es_chunks stp)) \<le> token_budget e - decode_claim stp \<and>
       (\<exists>k. map fst (es_chunks stp) = take k (e_prefill_order e') \<and>
         (k < length (e_prefill_order e') \<longrightarrow>
           sum_list (map snd (es_chunks stp)) = token_budget e - decode_claim stp))"
proof -
  note b = core_base [OF assms(1)]
  define pacer where "pacer = pacer_scan (e_active e) None 0 0 (decoder_ids e)"
  obtain ds base x where d: "draw_decoders W (num_in_batch e) pacer 0 0 (decoder_ids e) e = (ds, base, x)"
    using prod_cases3 by blast
  have x: "bt_inv (e_active x)" "same_load e x" "e_prefill_order x = e_prefill_order e" "e_step x = None"
    using draw_decoders_composing [OF base_invD(1) [OF b], of W "num_in_batch e" pacer 0 0 "decoder_ids e"] d assms(2)
    by (simp_all add: composing_def)
  have "map fst ds = filter (\<lambda>rid. bt_get (e_active e) rid \<noteq> None) (decoder_ids e)"
    using draw_decoders_ids [of W "num_in_batch e" pacer 0 0 "decoder_ids e" e] d by simp
  then have ids: "map fst ds = decoder_ids e"
    using decoder_ids_active [OF b] by (simp add: filter_id_conv) (metis option.distinct(1))
  define order where "order = filter (prefilling (e_active x)) (e_prefill_order e)"
  define claim where "claim = sum_list (map (\<lambda>d. max (snd d) 1) ds)"
  obtain cs left cost where p: "plan_chunks (e_latency x) (o_long_prefill_token_threshold (e_opt x)) (e_active x)
      (token_budget x - claim) order = (cs, left, cost)" using prod_cases3 by blast
  have e': "e' = (if ds = [] \<and> cs = [] then x\<lparr>e_prefill_order := order\<rparr>
      else x\<lparr>e_prefill_order := order, e_step := Some
        \<lparr>es_end = t + div_f64 (max base (if left = 0 \<and> cs \<noteq> [] then max cost (budget_full_chunk_floor (e_latency x)) else cost))
           (time_scale (x\<lparr>e_prefill_order := order\<rparr>)), es_decoders = ds, es_chunks = cs\<rparr>\<rparr>)"
    using d p x(3) unfolding e'_def compose_step_def
    by (simp add: pacer_def [symmetric] order_def claim_def Let_def token_budget_def)
  show load: "same_load e e'" unfolding e' using x(2) by (auto simp: same_load_def)
  have act: "e_active e' = e_active x" and ord: "e_prefill_order e' = order" unfolding e' by auto
  have pre: "prefilling (e_active x) rid = prefilling (e_active e) rid" for rid
    using same_load_queries(4) [OF x(2), of rid]
    by (auto simp: prefilling_def summary_def split: option.splits)
  show "set (e_prefill_order e') = {rid \<in> set (e_prefill_order e). prefilling (e_active e) rid}"
    unfolding ord order_def by (auto simp: pre)
  have plannable: "plannable (e_active x) rid" if o: "rid \<in> set order" for rid
  proof -
    obtain r where r: "bt_get (e_active x) rid = Some r" "a_phase r \<noteq> Decode"
      using o by (auto simp: order_def prefilling_def split: option.splits)
    obtain r0 where r0: "bt_get (e_active e) rid = Some r0" "summary r = summary r0"
      using same_load_get [OF x(2) r(1)] .
    obtain n where "a_phase r = Prefill n" using r(2) by (cases "a_phase r") auto
    moreover have "a_phase r0 = a_phase r" using r0(2) by (simp add: summary_def)
    ultimately show ?thesis
      using r(1) base_invD(6) [OF b r0(1)] by (auto simp: plannable_def request_base_def)
  qed
  note P = plan_chunks_spec [OF plannable p]
  have budget: "token_budget x = token_budget e" using same_load_queries(3) [OF x(2)] .
  have pos: "0 < token_budget e" by (simp add: token_budget_def)
  show "e_step e' = None \<Longrightarrow> decoder_ids e = [] \<and> e_prefill_order e' = []"
    using P(4) x(4) ids pos by (auto simp: e' claim_def budget split: if_splits)
  assume "e_step e' = Some stp"
  then have stp: "es_decoders stp = ds" "es_chunks stp = cs" "\<not> (ds = [] \<and> cs = [])"
    using x(4) unfolding e' by (auto split: if_splits)
  have dec: "\<exists>r. bt_get (e_active e') (fst d) = Some r \<and> is_generating r" if "d \<in> set ds" for d
  proof -
    have "fst d \<in> set (decoder_ids e)" using that ids by (metis image_eqI set_map)
    then obtain r where "bt_get (e_active e) (fst d) = Some r" "is_generating r"
      using decoder_ids_active [OF b] by metis
    then show ?thesis using same_load_runs [OF load] by metis
  qed
  have "runnable e' stp"
    unfolding runnable_def stp(1,2) act [symmetric] using stp(3) dec P(2) act by metis
  moreover have "token_budget x - claim = token_budget e - decode_claim stp"
    by (simp add: decode_claim_def stp claim_def budget)
  ultimately show "runnable e' stp \<and> map fst (es_decoders stp) = decoder_ids e \<and>
       sum_list (map snd (es_chunks stp)) \<le> token_budget e - decode_claim stp \<and>
       (\<exists>k. map fst (es_chunks stp) = take k (e_prefill_order e') \<and>
         (k < length (e_prefill_order e') \<longrightarrow>
           sum_list (map snd (es_chunks stp)) = token_budget e - decode_claim stp))"
    using P(1,3) ids stp(1,2) ord by auto
qed

end
