(* ===== verification/Engine_Progress.thy ===== *)
theory Engine_Progress
  imports Engine_Compose
begin

text \<open>
  Progress of the engine: no handler leaves admissible or runnable work behind without a step
  in flight or an emission due, and catching up with due steps terminates.
\<close>

section \<open>Prefilling requests are in the prefill order\<close>

definition listed :: "'r sim_engine \<Rightarrow> bool" where
  "listed e \<longleftrightarrow> (\<forall>rid r. bt_get (e_active e) rid = Some r \<longrightarrow> a_phase r \<noteq> Decode \<longrightarrow> rid \<in> set (e_prefill_order e))"

lemma listed_mono:
  assumes "listed e" "set (e_prefill_order e) \<subseteq> set (e_prefill_order e')"
    "\<And>rid r'. bt_get (e_active e') rid = Some r' \<Longrightarrow> a_phase r' \<noteq> Decode \<Longrightarrow>
      \<exists>r. bt_get (e_active e) rid = Some r \<and> a_phase r \<noteq> Decode"
  shows "listed e'"
  using assms by (fastforce simp: listed_def)

lemma listed_frame:
  assumes "listed e" "e_active e' = e_active e" "e_prefill_order e' = e_prefill_order e"
  shows "listed e'"
  using assms by (simp add: listed_def)

lemma listed_fields [simp]:
  "listed (e\<lparr>e_waiting := x1\<rparr>) = listed e" "listed (e\<lparr>e_pending := x2\<rparr>) = listed e"
  "listed (e\<lparr>e_pool := x3\<rparr>) = listed e" "listed (e\<lparr>e_stats := x4\<rparr>) = listed e"
  "listed (e\<lparr>e_step := x5\<rparr>) = listed e" "listed (e\<lparr>e_pending_spec := x6\<rparr>) = listed e"
  "listed (e\<lparr>e_pulls := x7\<rparr>) = listed e" "listed (e\<lparr>e_failure_rng := x8\<rparr>) = listed e"
  "listed (e\<lparr>e_recent_big := x9\<rparr>) = listed e" "listed (e\<lparr>e_replies := y1\<rparr>) = listed e"
  "listed (e\<lparr>e_loras := y2\<rparr>) = listed e" "listed (e\<lparr>e_opt := y3\<rparr>) = listed e"
  "listed (e\<lparr>e_latency := y4\<rparr>) = listed e" "listed (publish evs e) = listed e"
  "listed (count_failed e) = listed e" "listed (count_received e) = listed e" "listed (count_aborted e) = listed e"
  by (simp_all add: listed_def publish_def count_failed_def count_received_def count_aborted_def)

lemma insert_active_listed: "listed e \<Longrightarrow> listed (insert_active t rid r e)"
  by (auto simp: insert_active_def Let_def listed_def bt_simps split: req_phase.splits if_splits)

lemma pin_stream_listed: "listed e \<Longrightarrow> listed (snd (pin_stream r e))"
  by (erule listed_frame) (simp_all add: pin_stream_def split_beta)

lemma pin_schedule_listed: "listed e \<Longrightarrow> listed (snd (pin_schedule r e))"
  by (erule listed_frame) (simp_all add: pin_schedule_def split_beta split: option.splits)

lemma admit_direct_listed: "listed e \<Longrightarrow> listed (snd (admit_direct W clk rid client q ids n e))"
  by (auto simp: admit_direct_def Let_def split_beta prune_big_def
      intro!: insert_active_listed pin_schedule_listed pin_stream_listed split: sum.splits)

lemma admit_listed: "listed e \<Longrightarrow> listed (snd (admit W clk q e))"
  by (auto simp: admit_def Let_def split_beta intro!: admit_direct_listed split: option.splits)

lemma modify_listed:
  assumes "listed e" "bt_get (e_active e) rid = Some r" "a_phase r' = Decode \<or> a_phase r \<noteq> Decode"
  shows "listed (e\<lparr>e_active := bt_modify rid (\<lambda>_. r') (e_active e)\<rparr>)"
  using assms by (auto simp: listed_def bt_simps split: if_splits)

lemma generate_phase: "a_phase (snd (generate W src t c ts sq r)) = a_phase r"
  by (simp add: generate_def Let_def split_beta)

lemma generate_for_listed:
  assumes "listed e" "bt_get (e_active e) rid = Some r0" "a_phase r = Decode \<or> a_phase r0 \<noteq> Decode"
  shows "listed (generate_for W t c rid r e)"
proof -
  define g where "g = generate W (e_tokens e) t c (time_scale e) (e_emit_seq e) r"
  have "a_phase (snd g) = Decode \<or> a_phase r0 \<noteq> Decode"
    using assms(3) by (simp add: g_def generate_phase)
  from modify_listed [OF assms(1,2) this]
  have "listed (e\<lparr>e_active := bt_modify rid (\<lambda>_. snd g) (e_active e)\<rparr>)" .
  then show ?thesis by (rule listed_frame) (simp_all add: generate_for_def split_beta g_def)
qed

lemma decoder_listed: "listed e \<Longrightarrow> listed (run_decoder W t d e)"
  by (auto simp: run_decoder_def intro: generate_for_listed split: option.splits)

lemma chunk_listed: "listed e \<Longrightarrow> listed (run_chunk W t n c e)"
  by (auto simp: run_chunk_def split_beta Let_def intro!: generate_for_listed modify_listed
      split: option.splits req_phase.splits)

lemma compose_listed:
  assumes "core_inv e" "listed e" "e_step e = None"
  shows "listed (compose_step W t e)"
  unfolding listed_def
proof (intro allI impI)
  fix rid r assume r: "bt_get (e_active (compose_step W t e)) rid = Some r" "a_phase r \<noteq> Decode"
  note C = compose_composes [OF assms(1,3) refl, of W t]
  obtain r0 where "bt_get (e_active e) rid = Some r0" "summary r = summary r0" using same_load_get [OF C(1) r(1)] .
  moreover from this have "a_phase r0 \<noteq> Decode" using r(2) by (simp add: summary_def)
  ultimately show "rid \<in> set (e_prefill_order (compose_step W t e))"
    using assms(2) by (auto simp: C(2) listed_def prefilling_def)
qed

lemma drained_phase:
  assumes "core_inv e" "(rid, r) \<in> set (e_active e)"
  shows "a_phase (drained now e r) = a_phase r"
proof -
  note R = core_request [OF assms]
  have pre: "a_emitted r + emit_len (a_pending_emits r) \<le> a_max_tokens r" "\<forall>m \<in> set (a_pending_emits r). pe_tokens m \<noteq> []"
    using R(1) by (auto simp: request_base_def emit_len_def)
  have "emit_due (e_tokens e) now r (a_pending_emits r) =
      (fst (drain_request (e_tokens e) now r), drained now e r)"
    by (simp add: drained_def drain_request_def)
  from emit_due_spec(1) [OF R(2) pre this] show ?thesis by simp
qed

lemma finish_order: "e_prefill_order (fold finish_request rids e) = e_prefill_order e"
  by (induction rids arbitrary: e) (simp_all add: finish_request_def split: option.splits)

lemma flush_order: "e_prefill_order (snd (snd (flush_due t e))) = e_prefill_order e"
  by (simp add: flush_eq finish_order count_completed_def drain_all_eq)

lemma flush_listed:
  assumes "core_inv e" "listed e"
  shows "listed (snd (snd (flush_due t e)))"
proof (rule listed_mono [OF assms(2)])
  fix rid r' assume r: "bt_get (e_active (snd (snd (flush_due t e)))) rid = Some r'" "a_phase r' \<noteq> Decode"
  then obtain r0 where "bt_get (e_active e) rid = Some r0" "r' = drained t e r0"
    unfolding flush_get [OF assms(1)] by (auto split: option.splits if_splits)
  then show "\<exists>r. bt_get (e_active e) rid = Some r \<and> a_phase r \<noteq> Decode"
    using r(2) drained_phase [OF assms(1) bt_get_Some_mem] by auto
qed (simp add: flush_order)

lemma withdraw_listed:
  assumes "listed e"
  shows "listed (snd (withdraw rid e))"
proof (rule listed_mono [OF assms])
  show "set (e_prefill_order e) \<subseteq> set (e_prefill_order (snd (withdraw rid e)))"
    by (auto simp: withdraw_def finish_request_def split: option.splits)
  show "\<exists>r. bt_get (e_active e) k = Some r \<and> a_phase r \<noteq> Decode"
    if "bt_get (e_active (snd (withdraw rid e))) k = Some r'" "a_phase r' \<noteq> Decode" for k r'
    using that by (auto simp: withdraw_def finish_request_def bt_simps split: option.splits if_splits)
qed

lemma abort_listed: "listed e \<Longrightarrow> listed (fst (abort_one rid (e, m)))"
  using withdraw_listed [of e rid] by (simp add: abort_one_eq)

lemma reset_listed: "listed e \<Longrightarrow> listed (snd (reset_prefix_cache_outputs clk u e))"
  by (auto simp: reset_prefix_cache_outputs_def Let_def split_beta split: option.splits)

lemma stats_listed [simp]: "listed (snd (scheduler_stats e)) = listed e"
  by (simp add: scheduler_stats_def Let_def split_beta)

interpretation order: engine_invariant W "\<lambda>e. core_inv e \<and> listed e" "\<lambda>_. True" for W :: "'r world"
proof
  show "core_inv (snd (admit W clk q (e\<lparr>e_waiting := rest\<rparr>))) \<and> listed (snd (admit W clk q (e\<lparr>e_waiting := rest\<rparr>)))"
    if "core_inv e \<and> listed e" "has_room e" "next_waiting e = Some (q, rest)" for e :: "'r sim_engine" and clk q rest
    using that admit_core admit_listed [of "e\<lparr>e_waiting := rest\<rparr>"] by auto
  show "core_inv e \<and> listed e \<Longrightarrow> bt_get (e_pending e) rid = Some p \<Longrightarrow>
      core_inv (snd (admit_direct W clk rid (pp_client p) (pp_queued p) (pp_block_ids p) (pp_num_local_cached p)
        (e\<lparr>e_pending := bt_remove rid (e_pending e)\<rparr>))) \<and>
      listed (snd (admit_direct W clk rid (pp_client p) (pp_queued p) (pp_block_ids p) (pp_num_local_cached p)
        (e\<lparr>e_pending := bt_remove rid (e_pending e)\<rparr>)))" for e :: "'r sim_engine" and clk rid p
    by (auto intro!: pull_core admit_direct_listed)
qed (auto simp: compose_core decoder_core chunk_core flush_core stats_core abort_core reset_cache_core
  compose_listed decoder_listed chunk_listed flush_listed abort_listed reset_listed
  enqueue_core stats_listed)


section \<open>No work is left without a deadline\<close>

text \<open>
  A settled engine has admitted whatever its caps allow, and with no step in flight it has
  nothing to decode and nothing to prefill.
\<close>

definition idle_clock :: "'r sim_engine \<Rightarrow> bool" where
  "idle_clock e \<longleftrightarrow> (\<forall>rid r. bt_get (e_active e) rid = Some r \<longrightarrow> a_phase r = Decode \<and> \<not> is_generating r)"

definition settled :: "'r sim_engine \<Rightarrow> bool" where
  "settled e \<longleftrightarrow> (has_room e \<longrightarrow> next_waiting e = None) \<and> (e_step e = None \<longrightarrow> idle_clock e)"

lemma schedule_exhausts: "has_room (snd (schedule W clk e)) \<Longrightarrow> next_waiting (snd (schedule W clk e)) = None"
proof (induction "length (e_waiting e)" arbitrary: e rule: less_induct)
  case less
  show ?case
  proof (cases "has_room e \<and> next_waiting e \<noteq> None")
    case True
    then obtain q rest where q: "next_waiting e = Some (q, rest)" by auto
    let ?e = "snd (admit W clk q (e\<lparr>e_waiting := rest\<rparr>))"
    have s: "snd (schedule W clk e) = snd (schedule W clk ?e)"
      using True q by (subst schedule.simps) (simp add: split_beta Let_def)
    have "length (e_waiting ?e) < length (e_waiting e)" using next_waiting_length [OF q] by simp
    from less.hyps [OF this] less.prems show ?thesis by (simp only: s)
  next
    case False
    then have "schedule W clk e = ([], e)" by (subst schedule.simps) (auto split: option.splits)
    then show ?thesis using False less.prems by (cases "next_waiting e") auto
  qed
qed

lemma idle_clock_load:
  assumes "same_load e e'" "idle_clock e"
  shows "idle_clock e'"
  unfolding idle_clock_def
proof (intro allI impI)
  fix rid r assume "bt_get (e_active e') rid = Some r"
  then obtain r0 where r0: "bt_get (e_active e) rid = Some r0" "summary r = summary r0"
    using same_load_get [OF assms(1)] by metis
  then have "a_phase r0 = Decode \<and> \<not> is_generating r0" using assms(2) by (auto simp: idle_clock_def)
  with r0(2) show "a_phase r = Decode \<and> \<not> is_generating r" by (simp add: summary_def is_generating_def)
qed

lemma settled_load:
  assumes "same_load e e'" "settled e" "e_step e' = e_step e"
  shows "settled e'"
  using assms same_load_queries(1,2) [OF assms(1)] idle_clock_load [OF assms(1)] by (simp add: settled_def)

lemma ensure_step_settles:
  assumes "core_inv e" "listed e" "has_room e \<longrightarrow> next_waiting e = None"
  shows "settled (ensure_step W t e)"
proof (cases "e_step e")
  case (Some stp)
  then show ?thesis using assms(3) by (simp add: ensure_step_def settled_def)
next
  case None
  define e' where "e' = compose_step W t e"
  note C = compose_composes [OF assms(1) None e'_def]
  have "idle_clock e" if n: "e_step e' = None"
    unfolding idle_clock_def
  proof (intro allI impI)
    fix rid r assume r: "bt_get (e_active e) rid = Some r"
    have "\<not> prefilling (e_active e) rid \<or> rid \<notin> set (e_prefill_order e)" using C(2,3) n by auto
    then have d: "a_phase r = Decode" using r assms(2) by (auto simp: prefilling_def listed_def)
    have "r \<in> set (bt_values (e_active e))" using bt_get_Some_mem [OF r] by force
    moreover have "filter (\<lambda>r. a_phase r = Decode \<and> is_generating r) (bt_values (e_active e)) = []"
      using C(3) [OF n] by (simp add: decoder_ids_def)
    ultimately show "a_phase r = Decode \<and> \<not> is_generating r" using d by (auto simp: filter_empty_conv)
  qed
  then show ?thesis
    using None assms(3) same_load_queries(1,2) [OF C(1)] idle_clock_load [OF C(1)]
    by (simp add: ensure_step_def settled_def e'_def)
qed

lemma schedule_settles:
  fixes e :: "'r sim_engine"
  assumes "core_inv e" "listed e"
  shows "settled (ensure_step W t (snd (schedule W clk e)))"
  using order.schedule_pres [of e W clk] assms schedule_exhausts [of W clk e]
  by (intro ensure_step_settles) auto

lemma stats_load [simp]: "same_load e (snd (scheduler_stats e))" "e_step (snd (scheduler_stats e)) = e_step e"
  by (simp_all add: scheduler_stats_def Let_def split_beta)

lemma settled_stats: "settled e \<Longrightarrow> settled (snd (scheduler_stats e))"
  by (rule settled_load [OF stats_load(1)]) simp_all

definition live :: "'r sim_engine \<Rightarrow> bool" where
  "live e \<longleftrightarrow> core_inv e \<and> listed e \<and> settled e"

lemma settled_abort:
  fixes e :: "'r sim_engine"
  assumes "core_inv e" "listed e"
  shows "settled (snd (abort_requests W clk rids e))"
proof -
  let ?e1 = "fst (fold abort_one rids (e, []))"
  let ?e2 = "snd (schedule W clk ?e1)"
  let ?e3 = "snd (scheduler_stats ?e2)"
  have "core_inv ?e1 \<and> listed ?e1" using order.abort_fold_pres [of "(e, [])" rids] assms by simp
  then have "core_inv ?e3 \<and> listed ?e3" by (intro order.stats_pres order.schedule_pres)
  moreover have "has_room ?e3 \<longrightarrow> next_waiting ?e3 = None"
    using same_load_queries(1,2) [OF stats_load(1), of ?e2] schedule_exhausts [of W clk ?e1] by simp
  ultimately show ?thesis
    by (simp add: abort_requests_def Let_def split_beta ensure_step_settles)
qed

lemma settled_pull:
  fixes e :: "'r sim_engine"
  assumes "live e"
  shows "settled (snd (finish_pull W clk rid res e))"
proof (cases "bt_get (e_pending e) rid")
  case (Some p)
  have "core_inv e \<and> listed e" using assms by (simp add: live_def)
  from order.pull_pres [OF this Some, of W clk] show ?thesis
    using Some by (auto simp: finish_pull_def Let_def split_beta intro: schedule_settles)
qed (use assms in \<open>simp add: finish_pull_def live_def\<close>)

lemma settled_step:
  fixes e :: "'r sim_engine"
  assumes "core_inv e" "listed e" "step W clk fuel e = Some (outs, e')"
  shows "settled e'"
proof -
  obtain o1 e1 where c: "catch_up W clk fuel (e\<lparr>e_pending_spec := None\<rparr>) = Some (o1, e1)"
    and e': "e' = snd (emit_phase W clk o1 e1)"
    using assms(3) by (auto simp: step_def split: option.splits)
  have "core_inv e1 \<and> listed e1" using order.catch_up_pres [OF _ c] assms(1,2) by simp
  then have "core_inv (snd (snd (flush_due (clk_now clk) e1))) \<and> listed (snd (snd (flush_due (clk_now clk) e1)))"
    by (rule order.flush_pres)
  then show ?thesis
    unfolding e' by (simp add: emit_phase_def Let_def split_beta settled_stats schedule_settles)
qed

lemma settled_frame:
  assumes "settled e"
  shows "settled (count_received e)" "settled (count_failed e)" "settled (count_aborted e)"
    "settled (e\<lparr>e_failure_rng := x1\<rparr>)" "settled (e\<lparr>e_replies := x2\<rparr>)" "settled (e\<lparr>e_stats := x3\<rparr>)"
    "max_loras reg = max_loras (e_loras e) \<Longrightarrow> settled (e\<lparr>e_loras := reg\<rparr>)"
  by (rule settled_load [OF _ assms];
      simp add: count_received_def count_failed_def count_aborted_def same_load_def)+

lemma settled_reset: "settled e \<Longrightarrow> settled (snd (reset_prefix_cache_outputs clk u e))"
  by (erule settled_load [rotated])
    (auto simp: same_load_def reset_prefix_cache_outputs_def Let_def split_beta publish_def split: option.splits)

lemma settled_utility: "settled e \<Longrightarrow> settled (snd (handle_utility clk u e))"
proof -
  assume e: "settled e"
  let ?e = "snd (reset_prefix_cache_outputs clk u e)"
  have e1: "settled ?e" using e by (rule settled_reset)
  then have "settled (snd (lora_utility_outputs clk u ?e))"
    by (auto simp: lora_utility_outputs_def lora_add_def lora_remove_def Let_def split: sum.splits
        intro!: settled_frame(7))
  with e1 show ?thesis
    by (auto simp: handle_utility_def Let_def split: prod.splits option.splits sum.splits)
qed

lemma settled_patch:
  fixes e :: "'r sim_engine"
  assumes "live e"
  shows "settled (snd (apply_patch W clk p e))"
  using assms
  by (auto simp: live_def apply_patch_def Let_def split_beta intro!: schedule_settles split: sum.splits)

lemma settled_control:
  fixes e :: "'r sim_engine"
  assumes "live e"
  shows "settled (snd (snd (handle_control W clk c e)))"
proof (cases c)
  case (PatchConfig p)
  then show ?thesis
    using settled_patch [OF assms, of W clk p] by (cases "apply_patch W clk p e") (auto split: sum.splits)
qed (use assms in \<open>auto simp: live_def Let_def intro: settled_frame\<close>)

lemma settled_request:
  fixes e :: "'r sim_engine"
  assumes "live e"
  shows "settled (snd (handle_request W clk request e))"
proof -
  obtain rng where m: "snd (maybe_fail W request (count_received e)) = (count_received e)\<lparr>e_failure_rng := rng\<rparr>"
    using maybe_fail_state [of W request "count_received e"] by auto
  have known: "known_id rid (count_received e) = known_id rid e" for rid
    by (simp add: known_id_def count_received_def)
  have c: "core_inv e" "listed e" "settled e" using assms by (simp_all add: live_def)
  have "settled (ensure_step W t (snd (schedule W clk ((count_received e)\<lparr>e_failure_rng := rng,
      e_waiting := e_waiting e @ [\<lparr>q_request = request, q_queued_at = clk_monotonic clk\<rparr>]\<rparr>))))"
    if "\<not> known_id (req_id request) e" for t
    using that c order.enqueue_pres [of e "\<lparr>q_request = request, q_queued_at = clk_monotonic clk\<rparr>" rng]
    by (intro schedule_settles) auto
  moreover have "e_waiting (count_received e) = e_waiting e" by (simp add: count_received_def)
  ultimately show ?thesis
    using m c(3) by (cases "maybe_fail W request (count_received e)")
      (auto simp: handle_request_def Let_def known split_beta settled_frame split: option.splits)
qed

lemma settled_input:
  fixes e :: "'r sim_engine"
  assumes "live e"
  shows "settled (snd (handle_input W clk i e))"
  using assms settled_request [OF assms, of W clk] settled_utility [of e clk] settled_control [OF assms, of W clk]
    settled_abort [of e W clk]
  by (cases i) (auto simp: live_def split_beta settled_frame)

lemma live_turn:
  fixes e :: "'r sim_engine"
  assumes "engine_turn W (\<lambda>_. True) e e'" "live e"
  shows "live e'"
proof -
  have c: "core_inv e" "listed e" "settled e" using assms(2) by (simp_all add: live_def)
  have "settled e'"
    using assms(1)
    by (cases rule: engine_turn.cases)
      (auto simp: reject_request_def abort_all_requests_def Let_def c settled_frame
        intro: settled_input settled_pull settled_abort settled_step [OF c(1,2)] assms(2))
  moreover have "core_inv e' \<and> listed e'" using order.turn_pres [OF assms(1)] c by simp
  ultimately show ?thesis by (simp add: live_def)
qed

lemma live_reach:
  fixes e :: "'r sim_engine"
  assumes "engine_reach W (\<lambda>_. True) e0 e" "live e0"
  shows "live e"
  using assms by (induction rule: engine_reach.induct) (auto intro: live_turn)

text \<open>A live engine with unfinished requests has a deadline to wake up for or a pull in flight.\<close>

lemma live_wakes:
  assumes "live e" "num_unfinished_requests e \<noteq> 0"
  shows "earliest_deadline e \<noteq> None \<or> e_pending e \<noteq> []"
proof (rule ccontr)
  assume n: "\<not> ?thesis"
  then have st: "e_step e = None" and fd: "front_dues e = []" and p: "e_pending e = []"
    by (auto simp: earliest_deadline_def option_min_def split: option.splits if_splits)
  have idle: "idle_clock e" using assms(1) st by (simp add: live_def settled_def)
  have "e_active e = []"
  proof (rule ccontr)
    assume "e_active e \<noteq> []"
    then obtain rid r where m: "(rid, r) \<in> set (e_active e)" by (cases "e_active e") auto
    have c: "core_inv e" using assms(1) by (simp add: live_def)
    note R = core_request [OF c m]
    have "bt_get (e_active e) rid = Some r"
      using bt.elems_get [OF base_invD(1) [OF core_base [OF c]]] m by simp
    then have "a_max_tokens r \<le> a_generated r" using idle by (meson idle_clock_def is_generating_def not_less)
    then have "a_pending_emits r \<noteq> []" using R by (auto simp: request_base_def)
    then have "pe_due (hd (a_pending_emits r)) \<in> set (front_dues e)"
      using m unfolding front_dues_def map_filter_set by (force split: list.splits)
    then show False using fd by simp
  qed
  then have "has_room e" "lora_admits e x" for x
    using p by (auto simp: has_room_def num_generating_def step_token_backlog_def running_capacity_def
        token_budget_def lora_admits_def admits_def resident_loras_def map_filter_simps split: option.splits)
  moreover have "next_waiting e = None" using assms(1) \<open>has_room e\<close> by (simp add: live_def settled_def)
  ultimately have "e_waiting e = []"
    using policy.pick_None_iff [of "e_policy e" "e_waiting e" "lora_admits e"]
      policy.pick_sound [of "e_policy e" "e_waiting e" "lora_admits e"]
    by (cases "next_admissible_index e")
      (auto simp: next_waiting_def next_admissible_index_def vd_remove_def filter_empty_conv)
  with \<open>e_active e = []\<close> p assms(2) show False by (simp add: num_unfinished_requests_def)
qed

end
