(* ===== verification/Engine_Term.thy ===== *)
theory Engine_Term
  imports Engine_Progress
begin

text \<open>
  Termination of the catch-up loop: every composed step makes progress on the batch, so with a
  positive chunk size a wake-up completes finitely many due steps, whatever the latencies are.
\<close>

section \<open>The work left in the batch\<close>

definition work :: "'r active_request \<Rightarrow> nat" where
  "work r = (a_max_tokens r - a_generated r) + (case a_phase r of Prefill n \<Rightarrow> n | Decode \<Rightarrow> 0)"

definition batch_work :: "'r sim_engine \<Rightarrow> nat" where
  "batch_work e = sum_list (map (\<lambda>x. work (snd x)) (e_active e))"

lemma work_summary: "summary r = summary r' \<Longrightarrow> work r = work r'"
  by (auto simp: summary_def work_def)

lemma batch_work_load: "same_load e e' \<Longrightarrow> batch_work e' = batch_work e"
proof -
  define f :: "string \<times> string \<times> req_phase \<times> nat \<times> nat \<times> string option \<Rightarrow> nat" where
    "f = (\<lambda>(k, i, ph, g, m, l). (m - g) + (case ph of Prefill n \<Rightarrow> n | Decode \<Rightarrow> 0))"
  have w: "map (\<lambda>x. work (snd x)) m = map f (map (\<lambda>x. (fst x, summary (snd x))) m)"
    for m :: "(string \<times> 'a active_request) list"
    by (simp add: f_def summary_def work_def)
  assume "same_load e e'"
  then have "map (\<lambda>x. (fst x, summary (snd x))) (e_active e') = map (\<lambda>x. (fst x, summary (snd x))) (e_active e)"
    by (simp add: same_load_def)
  then show ?thesis unfolding batch_work_def w by simp
qed

lemma batch_work_modify:
  assumes "core_inv e" "bt_get (e_active e) rid = Some r"
  shows "batch_work (e\<lparr>e_active := bt_modify rid (\<lambda>_. r') (e_active e)\<rparr>) + work r = batch_work e + work r'"
  using bt_sum_modify [OF base_invD(1) [OF core_base [OF assms(1)]] assms(2), of "\<lambda>x. work (snd x)" "\<lambda>_. r'"]
  by (simp add: batch_work_def)

section \<open>Progress of one step\<close>

lemma generate_for_work:
  assumes "core_inv e" "bt_get (e_active e) rid = Some r0" "work r \<le> work r0"
  shows "batch_work (generate_for W t c rid r e) \<le> batch_work e"
    "work r < work r0 \<or> 0 < chunk_len r c \<Longrightarrow> batch_work (generate_for W t c rid r e) < batch_work e"
proof -
  obtain src r' where g: "generate W (e_tokens e) t c (time_scale e) (e_emit_seq e) r = (src, r')"
    by (cases "generate W (e_tokens e) t c (time_scale e) (e_emit_seq e) r")
  note A = generate_advances [OF base_invD(4) [OF core_base [OF assms(1)]] g]
  have "a_max_tokens r' = a_max_tokens r" using A(1) by (simp add: advances_def)
  then have w: "work r' + chunk_len r c = work r" using A(3,4) by (auto simp: work_def chunk_len_def)
  have "batch_work (generate_for W t c rid r e) + work r0 = batch_work e + work r'"
    using batch_work_modify [OF assms(1,2), of r'] g by (simp add: generate_for_def batch_work_def)
  then show "batch_work (generate_for W t c rid r e) \<le> batch_work e"
    "work r < work r0 \<or> 0 < chunk_len r c \<Longrightarrow> batch_work (generate_for W t c rid r e) < batch_work e"
    using w assms(3) by auto
qed

lemma decoder_work:
  assumes "core_inv e"
  shows "batch_work (run_decoder W t d e) \<le> batch_work e"
    "bt_get (e_active e) (fst d) = Some r \<Longrightarrow> is_generating r \<Longrightarrow> 0 < o_output_token_chunk_size (e_opt e) \<Longrightarrow>
       batch_work (run_decoder W t d e) < batch_work e"
proof -
  show "batch_work (run_decoder W t d e) \<le> batch_work e"
    using generate_for_work(1) [OF assms] by (auto simp: run_decoder_def split: option.splits)
  assume r: "bt_get (e_active e) (fst d) = Some r" "is_generating r" "0 < o_output_token_chunk_size (e_opt e)"
  then have "0 < chunk_len r (if snd d > 1 then snd d else o_output_token_chunk_size (e_opt e))"
    by (auto simp: chunk_len_def is_generating_def)
  then show "batch_work (run_decoder W t d e) < batch_work e"
    using generate_for_work(2) [OF assms r(1) order_refl] r(1) by (simp add: run_decoder_def)
qed

lemma chunk_work:
  assumes "core_inv e"
  shows "batch_work (run_chunk W t n c e) \<le> batch_work e"
    "bt_get (e_active e) (fst c) = Some r \<Longrightarrow> a_phase r \<noteq> Decode \<Longrightarrow> 0 < snd c \<Longrightarrow>
       batch_work (run_chunk W t n c e) < batch_work e"
proof -
  have both: "batch_work (run_chunk W t n c e) \<le> batch_work e \<and>
      (0 < snd c \<longrightarrow> batch_work (run_chunk W t n c e) < batch_work e)"
    if r: "bt_get (e_active e) (fst c) = Some r" and p: "a_phase r = Prefill rem" for r rem
  proof -
    have "0 < rem" using base_invD(6) [OF core_base [OF assms] r] p by (simp add: request_base_def)
    show ?thesis
    proof (cases "rem - snd c > 0")
      case True
      let ?r = "r\<lparr>a_phase := Prefill (rem - snd c)\<rparr>"
      have "work ?r + snd c = work r" using True p by (simp add: work_def)
      then show ?thesis
        using batch_work_modify [OF assms r, of ?r] r p True by (auto simp: run_chunk_def)
    next
      case False
      have "work (r\<lparr>a_rng := x, a_emit_offset := y, a_phase := Decode\<rparr>) < work r" for x y
        using p \<open>0 < rem\<close> by (simp add: work_def)
      then have "batch_work (generate_for W t k (fst c) (r\<lparr>a_rng := x, a_emit_offset := y, a_phase := Decode\<rparr>) e)
          < batch_work e" for k x y
        using generate_for_work(2) [OF assms r] less_imp_le by blast
      then show ?thesis
        using r p False by (simp add: run_chunk_def split_beta Let_def less_imp_le)
    qed
  qed
  have "run_chunk W t n c e = e \<or> (\<exists>r rem. bt_get (e_active e) (fst c) = Some r \<and> a_phase r = Prefill rem)"
    by (auto simp: run_chunk_def split: option.splits req_phase.splits)
  then show "batch_work (run_chunk W t n c e) \<le> batch_work e" using both by auto
  show "bt_get (e_active e) (fst c) = Some r \<Longrightarrow> a_phase r \<noteq> Decode \<Longrightarrow> 0 < snd c \<Longrightarrow>
       batch_work (run_chunk W t n c e) < batch_work e"
    using both by (cases "a_phase r") auto
qed

text \<open>The fields a step leaves alone.\<close>

definition stays :: "'r sim_engine \<Rightarrow> 'r sim_engine \<Rightarrow> bool" where
  "stays e e' \<longleftrightarrow> e_opt e' = e_opt e \<and> e_waiting e' = e_waiting e \<and> e_step e' = e_step e"

lemma stays_refl [simp]: "stays e e" by (simp add: stays_def)

lemma stays_trans: "stays a b \<Longrightarrow> stays b c \<Longrightarrow> stays a c" by (simp add: stays_def)

lemma generate_for_stays [simp]: "stays e (generate_for W t c rid r e)"
  by (simp add: generate_for_def split_beta stays_def)

lemma decoder_stays [simp]: "stays e (run_decoder W t d e)"
  by (simp add: run_decoder_def split: option.splits)

lemma chunk_stays [simp]: "stays e (run_chunk W t n c e)"
proof -
  have "stays e (e\<lparr>e_active := x\<rparr>)" for x by (simp add: stays_def)
  then show ?thesis by (simp add: run_chunk_def Let_def split_beta split: option.splits req_phase.splits)
qed

lemma fold_weak:
  fixes e :: "'r sim_engine"
  assumes "core_inv e"
    and f: "\<And>x e. core_inv e \<Longrightarrow> core_inv (f x e)" "\<And>x e. core_inv e \<Longrightarrow> batch_work (f x e) \<le> batch_work e"
      "\<And>x e. stays e (f x e)"
  shows "core_inv (fold f xs e) \<and> batch_work (fold f xs e) \<le> batch_work e \<and> stays e (fold f xs e)"
  using assms(1)
proof (induction xs arbitrary: e)
  case (Cons x xs)
  have "core_inv (f x e)" using f(1) Cons.prems .
  from Cons.IH [OF this] f(2) [OF Cons.prems, of x] stays_trans [OF f(3), of x e] show ?case by fastforce
qed simp

lemma run_decoders:
  assumes "core_inv e"
  shows "core_inv (fold (run_decoder W t) ds e) \<and> batch_work (fold (run_decoder W t) ds e) \<le> batch_work e \<and>
    stays e (fold (run_decoder W t) ds e)"
  by (rule fold_weak [OF assms]) (simp_all add: decoder_core decoder_work(1))

lemma run_chunks:
  assumes "core_inv e"
  shows "core_inv (fold (run_chunk W t n) cs e) \<and> batch_work (fold (run_chunk W t n) cs e) \<le> batch_work e \<and>
    stays e (fold (run_chunk W t n) cs e)"
  by (rule fold_weak [OF assms]) (simp_all add: chunk_core chunk_work(1))


lemma spec_stats_stays: "core_inv e \<Longrightarrow> core_inv (fold_spec_stats ds e) \<and>
    batch_work (fold_spec_stats ds e) = batch_work e \<and> stays e (fold_spec_stats ds e) \<and> e_active (fold_spec_stats ds e) = e_active e"
  by (auto simp: fold_spec_stats_def stays_def batch_work_def split: option.splits)

text \<open>The generation part of a completed step, before admission.\<close>

definition run_step :: "'r world \<Rightarrow> engine_step \<Rightarrow> 'r sim_engine \<Rightarrow> 'r sim_engine" where
  "run_step W stp e =
     fold (run_chunk W (es_end stp) (num_in_batch e)) (es_chunks stp)
       (fold_spec_stats (es_decoders stp) (fold (run_decoder W (es_end stp)) (es_decoders stp) e))"

lemma complete_step_eq:
  "snd (complete_step W clk stp e) = ensure_step W (es_end stp) (snd (schedule W clk (run_step W stp e)))"
  by (simp add: complete_step_def run_step_def Let_def split_beta)

lemma run_step_weak:
  assumes "core_inv e"
  shows "core_inv (run_step W stp e) \<and> batch_work (run_step W stp e) \<le> batch_work e \<and> stays e (run_step W stp e)"
proof -
  let ?e1 = "fold (run_decoder W (es_end stp)) (es_decoders stp) e"
  have 1: "core_inv ?e1" "batch_work ?e1 \<le> batch_work e" "stays e ?e1"
    using run_decoders [OF assms, of W "es_end stp" "es_decoders stp"] by auto
  note 2 = spec_stats_stays [OF 1(1), of "es_decoders stp"]
  note 3 = run_chunks [OF conjunct1 [OF 2], of W "es_end stp" "num_in_batch e" "es_chunks stp"]
  have "stays e (run_step W stp e)"
    unfolding run_step_def using 1(3) 2 3 by (blast intro: stays_trans)
  then show ?thesis unfolding run_step_def using 1(2) 2 3 by auto
qed

lemma run_step_strict:
  assumes "core_inv e" "runnable e stp" "0 < o_output_token_chunk_size (e_opt e)"
  shows "batch_work (run_step W stp e) < batch_work e"
proof -
  let ?e1 = "fold (run_decoder W (es_end stp)) (es_decoders stp) e"
  let ?e2 = "fold_spec_stats (es_decoders stp) ?e1"
  have 1: "core_inv ?e1" "batch_work ?e1 \<le> batch_work e"
    using run_decoders [OF assms(1), of W "es_end stp" "es_decoders stp"] by auto
  note 2 = spec_stats_stays [OF 1(1), of "es_decoders stp"]
  have 3: "batch_work (run_step W stp e) \<le> batch_work ?e1"
    using run_chunks [OF conjunct1 [OF 2], of W "es_end stp" "num_in_batch e" "es_chunks stp"] 2
    by (simp add: run_step_def)
  show ?thesis
  proof (cases "es_decoders stp")
    case (Cons d ds)
    obtain r where r: "bt_get (e_active e) (fst d) = Some r" "is_generating r"
      using assms(2) Cons by (auto simp: runnable_def)
    have "batch_work ?e1 \<le> batch_work (run_decoder W (es_end stp) d e)"
      using run_decoders [OF decoder_core [OF assms(1)], of W "es_end stp" ds W "es_end stp" d] Cons by simp
    also have "\<dots> < batch_work e" using decoder_work(2) [OF assms(1) r assms(3)] .
    finally show ?thesis using 3 by simp
  next
    case Nil
    then obtain c cs where c: "es_chunks stp = c # cs" using assms(2) by (cases "es_chunks stp") (auto simp: runnable_def)
    then obtain r n where r: "bt_get (e_active e) (fst c) = Some r" "a_phase r = Prefill n" "0 < snd c"
      using assms(2) by (auto simp: runnable_def)
    have e2: "core_inv ?e2" "bt_get (e_active ?e2) (fst c) = Some r" "batch_work ?e2 = batch_work e"
      using 2 Nil r(1) by auto
    have "batch_work (run_step W stp e) \<le> batch_work (run_chunk W (es_end stp) (num_in_batch e) c ?e2)"
      using run_chunks [OF chunk_core [OF e2(1)], of W "es_end stp" "num_in_batch e" cs W "es_end stp" "num_in_batch e" c]
      by (simp add: run_step_def c)
    also have "\<dots> < batch_work e" using chunk_work(2) [OF e2(1,2)] r(2,3) e2(3) by simp
    finally show ?thesis .
  qed
qed

section \<open>Enough fuel\<close>

lemma pins_step:
  "e_step (snd (pin_stream r e)) = e_step e" "e_step (snd (pin_schedule r e)) = e_step e"
  "e_step (insert_active t rid r e) = e_step e" "e_step (prune_big t e) = e_step e" "e_step (publish evs e) = e_step e"
  by (simp_all add: pin_stream_def pin_schedule_def insert_active_def prune_big_def publish_def Let_def split_beta
      split: option.split req_phase.split)

lemma admit_direct_step: "e_step (snd (admit_direct W clk rid client q ids n e)) = e_step e"
  by (simp add: admit_direct_def Let_def split_beta pins_step count_failed_def split: sum.split)

lemma admit_step: "e_step (snd (admit W clk q e)) = e_step e"
  by (simp add: admit_def Let_def split_beta admit_direct_step pins_step split: option.split)

lemma schedule_keeps:
  fixes e :: "'r sim_engine"
  assumes "core_inv e"
  shows "core_inv (snd (schedule W clk e)) \<and> e_step (snd (schedule W clk e)) = e_step e \<and>
    e_opt (snd (schedule W clk e)) = e_opt e"
proof (rule schedule_rule)
  show "core_inv e \<and> e_step e = e_step e \<and> e_opt e = e_opt e" using assms by simp
  fix x :: "'r sim_engine" and q rest
  assume x: "core_inv x \<and> e_step x = e_step e \<and> e_opt x = e_opt e" "next_waiting x = Some (q, rest)"
  obtain out pool where c: "cache_prompt (e_pool x) (prompt_of (q_request q)) (request_lora_name (q_request q))
      (req_cache_salt (q_request q)) = (out, pool)" by fastforce
  have "same_settings x (snd (admit W clk q (x\<lparr>e_waiting := rest\<rparr>)))"
    using admit_shape [OF core_base x(2) c refl] x(1) by blast
  then show "core_inv (snd (admit W clk q (x\<lparr>e_waiting := rest\<rparr>))) \<and>
      e_step (snd (admit W clk q (x\<lparr>e_waiting := rest\<rparr>))) = e_step e \<and>
      e_opt (snd (admit W clk q (x\<lparr>e_waiting := rest\<rparr>))) = e_opt e"
    using x admit_core by (auto simp: admit_step same_settings_def)
qed

lemma schedule_admits_or_stays:
  "length (e_waiting (snd (schedule W clk e))) < length (e_waiting e) \<or> snd (schedule W clk e) = e"
proof (cases "has_room e \<and> next_waiting e \<noteq> None")
  case True
  then obtain q rest where q: "next_waiting e = Some (q, rest)" by auto
  let ?e = "snd (admit W clk q (e\<lparr>e_waiting := rest\<rparr>))"
  have s: "snd (schedule W clk e) = snd (schedule W clk ?e)"
    using True q by (subst schedule.simps) (simp add: split_beta Let_def)
  have "length (e_waiting (snd (schedule W clk x))) \<le> length (e_waiting x)" for x
    by (rule schedule_rule [where P = "\<lambda>y. length (e_waiting y) \<le> length (e_waiting x)"])
      (auto dest: next_waiting_length)
  from this [of ?e] have "length (e_waiting (snd (schedule W clk ?e))) < length (e_waiting e)"
    using next_waiting_length [OF q] by simp
  then show ?thesis unfolding s by simp
next
  case False
  then have "schedule W clk e = ([], e)" by (subst schedule.simps) (auto split: option.splits)
  then show ?thesis by simp
qed

definition fresh_step :: "'r sim_engine \<Rightarrow> bool" where
  "fresh_step e \<longleftrightarrow> (\<forall>stp. e_step e = Some stp \<longrightarrow> runnable e stp)"

lemma complete_step_fresh:
  fixes e :: "'r sim_engine"
  assumes "core_inv e" "e_step e = None"
    and e'_def: "e' = snd (complete_step W clk stp e)"
  shows "core_inv e' \<and> fresh_step e' \<and> e_opt e' = e_opt e \<and>
    (length (e_waiting e') < length (e_waiting e) \<or>
     length (e_waiting e') = length (e_waiting e) \<and> batch_work e' = batch_work (run_step W stp e))"
proof -
  let ?r = "run_step W stp e"
  let ?s = "snd (schedule W clk ?r)"
  have r: "core_inv ?r" "stays e ?r" using run_step_weak [OF assms(1), of W stp] by auto
  have s: "core_inv ?s" "e_step ?s = None" "e_opt ?s = e_opt e"
    using schedule_keeps [OF r(1), of W clk] r(2) assms(2) by (auto simp: stays_def)
  have e': "e' = compose_step W (es_end stp) ?s"
    unfolding e'_def complete_step_eq using s(2) by (simp add: ensure_step_def)
  note C = compose_composes [OF s(1,2) e']
  have "core_inv e'" unfolding e' by (rule compose_core [OF s(1)])
  moreover have "fresh_step e'" using C(4) by (auto simp: fresh_step_def)
  moreover have "e_opt e' = e_opt e" "e_waiting e' = e_waiting ?s" using C(1) s(3) by (simp_all add: same_load_def)
  moreover have "batch_work e' = batch_work ?s" using batch_work_load [OF C(1)] .
  moreover have "length (e_waiting ?s) < length (e_waiting e) \<or> ?s = ?r"
    using schedule_admits_or_stays [of W clk ?r] r(2) by (auto simp: stays_def)
  ultimately show ?thesis using r(2) by (auto simp: stays_def)
qed

lemma catch_up_unfold:
  "step_due (clk_now clk) e = None \<Longrightarrow> catch_up W clk fuel e = Some ([], e)"
  "step_due (clk_now clk) e = Some stp \<Longrightarrow> catch_up W clk (Suc n) e =
     map_option (\<lambda>(outs', e'). (fst (complete_step W clk stp (e\<lparr>e_step := None\<rparr>)) @ outs', e'))
       (catch_up W clk n (snd (complete_step W clk stp (e\<lparr>e_step := None\<rparr>))))"
  by (simp_all add: catch_up.simps [of W clk fuel e] catch_up.simps [of W clk "Suc n" e] split_beta)

lemma catch_up_fresh:
  fixes e :: "'r sim_engine"
  assumes "core_inv e" "fresh_step e" "0 < o_output_token_chunk_size (e_opt e)"
  shows "\<exists>n. catch_up W clk n e \<noteq> None"
  using assms
proof (induction "(length (e_waiting e), batch_work e)" arbitrary: e rule: less_induct)
  case less
  show ?case
  proof (cases "step_due (clk_now clk) e")
    case None
    then show ?thesis by (auto simp: catch_up_unfold(1))
  next
    case (Some stp)
    then have stp: "e_step e = Some stp" by (auto simp: step_due_def split: option.splits if_splits)
    let ?start = "e\<lparr>e_step := None\<rparr>"
    let ?e = "snd (complete_step W clk stp ?start)"
    have c0: "core_inv ?start" "e_step ?start = None" using less.prems(1) by simp_all
    note C = complete_step_fresh [OF c0 refl, of W clk stp]
    have "runnable ?start stp" using less.prems(2) stp by (auto simp: fresh_step_def runnable_def)
    from run_step_strict [OF c0(1) this, of W] less.prems(3)
    have "batch_work (run_step W stp ?start) < batch_work e" by (simp add: batch_work_def)
    then have "(length (e_waiting ?e), batch_work ?e) < (length (e_waiting e), batch_work e)"
      using C by (auto simp: less_prod_def)
    moreover have "core_inv ?e" "fresh_step ?e" "0 < o_output_token_chunk_size (e_opt ?e)" using C less.prems(3) by auto
    ultimately obtain n where "catch_up W clk n ?e \<noteq> None" using less.hyps by blast
    then have "catch_up W clk (Suc n) e \<noteq> None" using Some by (simp add: catch_up_unfold(2))
    then show ?thesis ..
  qed
qed

lemma catch_up_mono: "catch_up W clk n e \<noteq> None \<Longrightarrow> n \<le> m \<Longrightarrow> catch_up W clk m e = catch_up W clk n e"
proof (induction n arbitrary: m e)
  case 0
  then show ?case
    by (cases "step_due (clk_now clk) e") (simp_all add: catch_up.simps [of W clk _ e])
next
  case (Suc n)
  show ?case
  proof (cases "step_due (clk_now clk) e")
    case None
    then show ?thesis by (simp add: catch_up_unfold(1))
  next
    case (Some stp)
    obtain k where k: "m = Suc k" "n \<le> k" using Suc.prems(2) by (cases m) auto
    have "catch_up W clk n (snd (complete_step W clk stp (e\<lparr>e_step := None\<rparr>))) \<noteq> None"
      using Suc.prems(1) Some by (simp add: catch_up_unfold(2))
    from Suc.IH [OF this k(2)] show ?thesis using Some k(1) by (simp add: catch_up_unfold(2))
  qed
qed

lemma catch_up_total:
  fixes e :: "'r sim_engine"
  assumes "core_inv e" "0 < o_output_token_chunk_size (e_opt e)"
  shows "\<exists>n. \<forall>m \<ge> n. catch_up W clk m e \<noteq> None"
proof -
  have "\<exists>n. catch_up W clk n e \<noteq> None"
  proof (cases "step_due (clk_now clk) e")
    case None
    then show ?thesis by (auto simp: catch_up_unfold(1))
  next
    case (Some stp)
    let ?e = "snd (complete_step W clk stp (e\<lparr>e_step := None\<rparr>))"
    have "core_inv (e\<lparr>e_step := None\<rparr>)" "e_step (e\<lparr>e_step := None\<rparr>) = None" using assms(1) by simp_all
    from complete_step_fresh [OF this refl, of W clk stp] assms(2)
    obtain n where "catch_up W clk n ?e \<noteq> None" using catch_up_fresh [of ?e W clk] by auto
    then have "catch_up W clk (Suc n) e \<noteq> None" using Some by (simp add: catch_up_unfold(2))
    then show ?thesis ..
  qed
  then show ?thesis using catch_up_mono by metis
qed

lemma step_total:
  fixes e :: "'r sim_engine"
  assumes "core_inv e" "0 < o_output_token_chunk_size (e_opt e)"
  shows "\<exists>n. \<forall>m \<ge> n. \<exists>outs e'. step W clk m e = Some (outs, e')"
proof -
  obtain n where n: "\<forall>m \<ge> n. catch_up W clk m (e\<lparr>e_pending_spec := None\<rparr>) \<noteq> None"
    using catch_up_total [of "e\<lparr>e_pending_spec := None\<rparr>" W clk] assms by auto
  have "\<exists>outs e'. step W clk m e = Some (outs, e')" if "n \<le> m" for m
  proof -
    obtain o1 e1 where "catch_up W clk m (e\<lparr>e_pending_spec := None\<rparr>) = Some (o1, e1)"
      using n \<open>n \<le> m\<close> by fastforce
    then show ?thesis by (cases "emit_phase W clk o1 e1") (simp add: step_def)
  qed
  then show ?thesis by blast
qed

end
