(* ===== verification/Engine_Aborts.thy ===== *)
theory Engine_Aborts
  imports Engine_Term
begin

text \<open>
  Batches of outputs per client, and what an abort does to the requests it names: each of them
  leaves the engine and its client gets one output for it.
\<close>

section \<open>Batches\<close>

definition batch_outs :: "client_batches \<Rightarrow> engine_core_output list" where
  "batch_outs m = concat (map (\<lambda>x. fst (snd x)) m)"

lemma batch_insert_outs:
  assumes "bt_inv m" "fst b = (case bt_get m k of None \<Rightarrow> [] | Some b \<Rightarrow> fst b) @ [out]"
  shows "mset (batch_outs (bt_insert k b m)) = add_mset out (mset (batch_outs m))"
  using assms
proof (induction m)
  case (Cons x m)
  have inv: "bt_inv m" and lt: "\<forall>y \<in> set (bt_keys m). fst x < y" using Cons.prems(1) by (auto simp: bt_inv_def)
  show ?case
  proof (cases "k = fst x")
    case True
    then show ?thesis using Cons.prems(2) by (cases x) (auto simp: batch_outs_def bt_get_def)
  next
    case ne: False
    then have get: "bt_get (x # m) k = bt_get m k" by (cases x) (auto simp: bt_get_def)
    show ?thesis
    proof (cases "k < fst x")
      case True
      then have "k \<notin> set (bt_keys m)" using lt by (auto dest: less_trans)
      then have "bt_get m k = None" by (simp add: bt_get_None_iff)
      then show ?thesis using True ne Cons.prems(2) get by (simp add: batch_outs_def)
    next
      case False
      then show ?thesis using ne Cons.IH [OF inv] Cons.prems(2) get by (simp add: batch_outs_def)
    qed
  qed
qed (simp add: batch_outs_def bt_get_def)

lemma batch_push_outs:
  assumes "bt_inv m"
  shows "mset (batch_outs (batch_push client fin out m)) = add_mset out (mset (batch_outs m))"
    "bt_inv (batch_push client fin out m)"
proof -
  define b where "b = ((case bt_get m client of None \<Rightarrow> [] | Some b \<Rightarrow> fst b) @ [out],
    if fin then btset_insert (out_id out) (case bt_get m client of None \<Rightarrow> [] | Some b \<Rightarrow> snd b)
    else (case bt_get m client of None \<Rightarrow> [] | Some b \<Rightarrow> snd b))"
  have "batch_push client fin out m = bt_insert client b m"
    by (auto simp: batch_push_def b_def split_beta split: option.splits)
  then show "mset (batch_outs (batch_push client fin out m)) = add_mset out (mset (batch_outs m))"
    "bt_inv (batch_push client fin out m)"
    using batch_insert_outs [OF assms, of b client out] assms by (simp_all add: b_def bt_inv_insert)
qed

lemma attach_stats_outs: "concat (map (\<lambda>o1. request_outputs (eo_env o1)) (attach_stats clk idx st m)) = batch_outs m"
  by (induction m arbitrary: st) (simp_all add: batch_outs_def)

section \<open>Withdrawals\<close>

lemma withdraw_ids:
  assumes "core_inv e"
  shows "if rid \<in> set (all_ids e) then mset (all_ids e) = add_mset rid (mset (all_ids (snd (withdraw rid e))))
    else snd (withdraw rid e) = e \<and> fst (withdraw rid e) = None"
    "fst (withdraw rid e) = None \<longleftrightarrow> rid \<notin> set (all_ids e)"
proof -
  note I = base_invD [OF core_base [OF assms]]
  let ?e = "snd (withdraw rid e)"
  have in_out: "mset (all_ids e) = add_mset rid (mset (all_ids ?e))"
    if "leaves_active rid e ?e \<or> leaves_pending rid e ?e \<or> leaves_waiting rid e ?e"
    using that
  proof (elim disjE)
    assume "leaves_active rid e ?e"
    then show ?thesis using mset_keys_remove [OF I(1), of rid] by (auto simp: leaves_active_def all_ids_def)
  next
    assume "leaves_pending rid e ?e"
    then show ?thesis using mset_keys_remove [OF I(2), of rid] by (auto simp: leaves_pending_def all_ids_def)
  next
    assume l: "leaves_waiting rid e ?e"
    then obtain q where q: "req_id (q_request q) = rid" "mset (e_waiting e) = add_mset q (mset (e_waiting ?e))"
      by (auto simp: leaves_waiting_def)
    have "image_mset (\<lambda>q. req_id (q_request q)) (mset (e_waiting e)) =
        image_mset (\<lambda>q. req_id (q_request q)) (add_mset q (mset (e_waiting ?e)))" using q(2) by simp
    then show ?thesis using l q(1) by (simp add: leaves_waiting_def all_ids_def)
  qed
  have mem: "rid \<in> set (all_ids e)" if "mset (all_ids e) = add_mset rid (mset (all_ids ?e))"
    using arg_cong [OF that, of set_mset] by simp
  show "fst (withdraw rid e) = None \<longleftrightarrow> rid \<notin> set (all_ids e)"
    using withdraw_shape [of rid e] in_out mem by (auto simp: known_id_iff)
  then show "if rid \<in> set (all_ids e) then mset (all_ids e) = add_mset rid (mset (all_ids ?e))
    else ?e = e \<and> fst (withdraw rid e) = None"
    using withdraw_shape [of rid e] in_out by auto
qed

text \<open>An abort of a list of ids: the ids that were known leave, each with one output.\<close>

definition abort_outs :: "client_batches \<Rightarrow> string multiset" where
  "abort_outs m = image_mset out_id (mset (batch_outs m))"

lemma abort_one_ids:
  assumes "core_inv e" "bt_inv m" "rid \<in> set (all_ids e)"
    and res: "abort_one rid (e, m) = (e', m')"
  shows "core_inv e' \<and> bt_inv m' \<and> mset (all_ids e) = add_mset rid (mset (all_ids e')) \<and>
    (\<exists>out. mset (batch_outs m') = add_mset out (mset (batch_outs m)) \<and> out_id out = rid \<and> out_finish out = Some FAbort) \<and>
    requests_aborted (e_stats e') = Suc (requests_aborted (e_stats e)) \<and> e_index e' = e_index e"
proof -
  obtain client x where w: "withdraw rid e = (Some client, x)"
    using withdraw_ids(2) [OF assms(1), of rid] assms(3) by (cases "withdraw rid e") auto
  let ?o = "request_output rid [] (Some FAbort)"
  have e': "e' = count_aborted x" and m': "m' = batch_push client True ?o m"
    using res w by (auto simp: abort_one_def)
  have "core_inv e'" using abort_core [OF assms(1), of rid m] res by simp
  moreover have "mset (all_ids e) = add_mset rid (mset (all_ids e'))"
    using withdraw_ids(1) [OF assms(1), of rid] assms(3) w e' by (simp add: all_ids_def count_aborted_def)
  moreover have "requests_aborted (e_stats e') = Suc (requests_aborted (e_stats e))"
    using withdraw_fields(3) [of rid e] w e' by (simp add: count_aborted_def)
  moreover have "e_index e' = e_index e"
    using w e' by (auto simp: withdraw_def finish_request_def count_aborted_def split: option.splits)
  ultimately show ?thesis
    using batch_push_outs [OF assms(2), of client True ?o] m'
    by (intro conjI exI [of _ ?o]) (simp_all add: request_output_def)
qed

lemma abort_fold_all:
  assumes "core_inv e" "bt_inv m" "mset rids = mset (all_ids e)" "fold abort_one rids (e, m) = (e', m')"
  shows "all_ids e' = [] \<and> core_inv e' \<and>
    image_mset out_id (mset (batch_outs m')) = image_mset out_id (mset (batch_outs m)) + mset rids \<and>
    (\<forall>out \<in> set (batch_outs m'). out \<in> set (batch_outs m) \<or> out_finish out = Some FAbort) \<and>
    requests_aborted (e_stats e') = requests_aborted (e_stats e) + length rids"
  using assms
proof (induction rids arbitrary: e m)
  case (Cons rid rids)
  obtain e1 m1 where o1: "abort_one rid (e, m) = (e1, m1)" by (cases "abort_one rid (e, m)")
  have "rid \<in> set (all_ids e)" using arg_cong [OF Cons.prems(3), of set_mset] by auto
  note A = abort_one_ids [OF Cons.prems(1,2) this o1]
  have "mset rids = mset (all_ids e1)" using A Cons.prems(3) by simp
  from Cons.IH [OF _ _ this] A Cons.prems(4) o1
  have IH: "all_ids e' = [] \<and> core_inv e' \<and>
    image_mset out_id (mset (batch_outs m')) = image_mset out_id (mset (batch_outs m1)) + mset rids \<and>
    (\<forall>out \<in> set (batch_outs m'). out \<in> set (batch_outs m1) \<or> out_finish out = Some FAbort) \<and>
    requests_aborted (e_stats e') = requests_aborted (e_stats e1) + length rids" by auto
  obtain out where out: "mset (batch_outs m1) = add_mset out (mset (batch_outs m))" "out_id out = rid"
    "out_finish out = Some FAbort" using A by blast
  have "set (batch_outs m1) = insert out (set (batch_outs m))" using arg_cong [OF out(1), of set_mset] by simp
  with IH A out show ?case by auto
qed (simp add: all_ids_def)

lemma schedule_empty: "e_waiting e = [] \<Longrightarrow> schedule W clk e = ([], e)"
  using policy.pick_sound [of "e_policy e" "[]" "lora_admits e"]
  by (subst schedule.simps)
    (auto simp: next_waiting_def next_admissible_index_def bind_eq_Some_conv split: option.splits)

end
