(* ===== verification/Engine_Replay.thy ===== *)
theory Engine_Replay
  imports Engine_Aborts
begin

text \<open>
  Verbatim replay through the whole engine: with a source of recorded outputs, what is queued
  for a request is the recorded stream from the point the client has received. An instance of
  the frame of \<open>Engine_Frame\<close>.
\<close>

section \<open>Streams of a source\<close>

text \<open>The recorded ids a request's stream is served from, for the two sources of recorded outputs.\<close>

fun recorded_stream :: "Tokens.token_source \<Rightarrow> string \<Rightarrow> u32 list option" where
  "recorded_stream (ReplayTokens s) rid = map_option ro_token_ids (rt_record s rid)"
| "recorded_stream (PrefixMatchTokens s) rid = map_option ro_token_ids (pt_record s rid)"
| "recorded_stream src rid = None"

text \<open>\<open>toks\<close> agrees with the stream \<open>ids\<close> from position \<open>k\<close> on, as far as the stream goes.\<close>

definition agrees :: "u32 list \<Rightarrow> nat \<Rightarrow> u32 list \<Rightarrow> bool" where
  "agrees ids k toks \<longleftrightarrow> (\<forall>i < length toks. k + i < length ids \<longrightarrow> toks ! i = ids ! (k + i))"

lemma agrees_Nil [simp]: "agrees ids k []"
  by (simp add: agrees_def)

lemma agrees_append: "agrees ids k (xs @ ys) \<longleftrightarrow> agrees ids k xs \<and> agrees ids (k + length xs) ys"
proof
  assume l: "agrees ids k (xs @ ys)"
  have "ys ! i = ids ! (k + length xs + i)" if "i < length ys" "k + length xs + i < length ids" for i
    using l that by (auto simp: agrees_def nth_append add.assoc dest!: spec [of _ "length xs + i"])
  moreover have "xs ! i = ids ! (k + i)" if "i < length xs" "k + i < length ids" for i
    using l that by (auto simp: agrees_def nth_append dest!: spec [of _ i])
  ultimately show "agrees ids k xs \<and> agrees ids (k + length xs) ys" by (simp add: agrees_def)
next
  assume r: "agrees ids k xs \<and> agrees ids (k + length xs) ys"
  show "agrees ids k (xs @ ys)"
    unfolding agrees_def
  proof (intro allI impI)
    fix i
    assume i: "i < length (xs @ ys)" "k + i < length ids"
    show "(xs @ ys) ! i = ids ! (k + i)"
    proof (cases "i < length xs")
      case False
      with r i show ?thesis by (auto simp: agrees_def nth_append dest!: conjunct2 spec [of _ "i - length xs"])
    qed (use r i in \<open>auto simp: agrees_def nth_append\<close>)
  qed
qed

lemma agrees_take:
  assumes "agrees ids k toks" "k + length toks \<le> length ids"
  shows "toks = take (length toks) (drop k ids)"
  using assms by (intro nth_equalityI) (auto simp: agrees_def)

lemma serve_recorded_agrees:
  "agrees (ro_token_ids r) (tc_num_generated ctx) (fst (serve_recorded ops vocab (Some r) ctx n rng))"
  by (auto simp: agrees_def serve_recorded_def Let_def split_beta nth_append min_def)

lemma next_tokens_stream:
  "recorded_stream (fst (snd (next_tokens ops src ctx n rng))) = recorded_stream src"
  "recorded_stream src (tc_request_id ctx) = Some ids \<Longrightarrow>
     agrees ids (tc_num_generated ctx) (fst (next_tokens ops src ctx n rng))"
  by (cases src; auto simp: split_beta serve_recorded_agrees fun_eq_iff)+

lemma added_stream: "rid \<noteq> rid' \<Longrightarrow> recorded_stream (snd (on_request_added src rid' p)) rid = recorded_stream src rid"
  by (cases src) (auto simp: split_beta pt_on_request_added_def pt_record_def bt_simps split: option.splits)

lemma finished_stream: "rid \<noteq> rid' \<Longrightarrow> recorded_stream (on_request_finished rid' src) rid = recorded_stream src rid"
  by (cases src) (auto simp: pt_record_def bt_simps split: option.splits)

section \<open>The invariant\<close>

definition faithful :: "Tokens.token_source \<Rightarrow> 'r active_request \<Rightarrow> bool" where
  "faithful src r \<longleftrightarrow>
     (\<forall>ids. recorded_stream src (a_id r) = Some ids \<longrightarrow>
        agrees ids (a_emitted r) (concat (map pe_tokens (a_pending_emits r))))"

definition replaying :: "'r sim_engine \<Rightarrow> bool" where
  "replaying e \<longleftrightarrow> (\<forall>rid r. bt_get (e_active e) rid = Some r \<longrightarrow> faithful (e_tokens e) r)"

lemma replaying_cong: "e_active e' = e_active e \<Longrightarrow> e_tokens e' = e_tokens e \<Longrightarrow> replaying e' = replaying e"
  by (simp add: replaying_def)

lemma replaying_frame [simp]:
  "replaying (e\<lparr>e_step := x1\<rparr>) = replaying e" "replaying (e\<lparr>e_pending_spec := x2\<rparr>) = replaying e"
  "replaying (e\<lparr>e_prefill_order := x3\<rparr>) = replaying e" "replaying (e\<lparr>e_replies := x4\<rparr>) = replaying e"
  "replaying (count_failed e) = replaying e" "replaying (count_received e) = replaying e"
  "replaying (count_aborted e) = replaying e" "replaying (count_completed n e) = replaying e"
  "replaying (e\<lparr>e_failure_rng := x5\<rparr>) = replaying e" "replaying (e\<lparr>e_waiting := x6\<rparr>) = replaying e"
  "replaying (e\<lparr>e_loras := x7\<rparr>) = replaying e" "replaying (e\<lparr>e_opt := x8\<rparr>) = replaying e"
  "replaying (e\<lparr>e_latency := x9\<rparr>) = replaying e" "replaying (e\<lparr>e_stats := y1\<rparr>) = replaying e"
  "replaying (e\<lparr>e_pool := y2\<rparr>) = replaying e" "replaying (e\<lparr>e_pending := y3\<rparr>) = replaying e"
  "replaying (e\<lparr>e_pulls := y4\<rparr>) = replaying e" "replaying (publish evs e) = replaying e"
  "replaying (e\<lparr>e_emit_seq := y5\<rparr>) = replaying e"
  by (simp_all add: replaying_def count_failed_def count_received_def count_aborted_def count_completed_def publish_def)

text \<open>Replacing one request keeps the invariant when the new value is faithful.\<close>

lemma replaying_modify:
  assumes "replaying e" "bt_inv (e_active e)" "faithful (e_tokens e) r"
  shows "replaying (e\<lparr>e_active := bt_modify rid (\<lambda>_. r) (e_active e)\<rparr>)"
  using assms by (auto simp: replaying_def bt_simps split: if_splits)

lemma draw_step_faithful: "faithful src (snd (draw_step W lat n r)) = faithful src r"
  by (simp add: faithful_def draw_step_def split_beta split: option.splits)

lemma compose_replaying:
  assumes "core_inv e" "replaying e"
  shows "replaying (compose_step W t e)"
proof -
  have "core_inv (compose_step W t e) \<and> replaying (compose_step W t e)"
  proof (rule compose_step_rule)
    fix e :: "'a sim_engine" and n rid r
    assume P: "core_inv e \<and> replaying e" "bt_get (e_active e) rid = Some r"
    then have "faithful (e_tokens e) (snd (draw_step W (e_latency e) n r))"
      by (auto simp: replaying_def draw_step_faithful)
    with P show "core_inv (e\<lparr>e_active := bt_modify rid (\<lambda>_. snd (draw_step W (e_latency e) n r)) (e_active e)\<rparr>) \<and>
        replaying (e\<lparr>e_active := bt_modify rid (\<lambda>_. snd (draw_step W (e_latency e) n r)) (e_active e)\<rparr>)"
      using core_modify_active [OF _ P(2) draw_step_advances] replaying_modify base_invD(1) by blast
  qed (use assms in auto)
  then show ?thesis by simp
qed

lemma generate_faithful:
  assumes "request_base rid r" "faithful src r" "generate W src t c sc sq r = (src', r')"
  shows "faithful src' r'" "recorded_stream src' = recorded_stream src"
proof -
  let ?ctx = "\<lparr>tc_request_id = a_id r, tc_prompt = a_prompt r, tc_num_generated = a_generated r\<rparr>"
  let ?n = "next_tokens (w_rng W) src ?ctx (chunk_len r c) (a_rng r)"
  note N = next_tokens_stream(1) [of "w_rng W" src ?ctx "chunk_len r c" "a_rng r"]
    next_tokens_stream(2) [of src ?ctx _ "w_rng W" "chunk_len r c" "a_rng r"]
  show "recorded_stream src' = recorded_stream src"
    using assms(3) N(1) by (auto simp: generate_def Let_def split_beta split: if_splits)
  then have stream: "recorded_stream src' (a_id r) = recorded_stream src (a_id r)" by simp
  have len: "a_emitted r + length (concat (map pe_tokens (a_pending_emits r))) = a_generated r"
    using assms(1) by (simp add: request_base_def length_concat comp_def)
  show "faithful src' r'"
  proof (cases "chunk_len r c = 0")
    case False
    then have r': "a_id r' = a_id r" "a_emitted r' = a_emitted r"
      "concat (map pe_tokens (a_pending_emits r')) = concat (map pe_tokens (a_pending_emits r)) @ fst ?n"
      using assms(3) by (auto simp: generate_def Let_def split_beta)
    show ?thesis
      unfolding faithful_def r' stream agrees_append len
      using assms(2) N(2) by (simp add: faithful_def)
  qed (use assms in \<open>simp add: generate_def\<close>)
qed

lemma generate_for_replaying:
  assumes "core_inv e" "replaying e" "request_base rid r" "faithful (e_tokens e) r"
  shows "replaying (generate_for W t c rid r e)"
proof -
  obtain src r' where g: "generate W (e_tokens e) t c (time_scale e) (e_emit_seq e) r = (src, r')"
    by (cases "generate W (e_tokens e) t c (time_scale e) (e_emit_seq e) r")
  note G = generate_faithful [OF assms(3,4) g]
  have "replaying (e\<lparr>e_tokens := src\<rparr>)" using assms(2) G(2) by (simp add: replaying_def faithful_def)
  from replaying_modify [OF this, of r' rid] G(1) base_invD(1) [OF core_base [OF assms(1)]] g
  show ?thesis by (simp add: generate_for_def replaying_def)
qed

lemma active_faithful:
  "core_inv e \<Longrightarrow> replaying e \<Longrightarrow> bt_get (e_active e) rid = Some r \<Longrightarrow> request_base rid r \<and> faithful (e_tokens e) r"
  using base_invD(6) [OF core_base] by (auto simp: replaying_def)

lemma decoder_replaying: "core_inv e \<Longrightarrow> replaying e \<Longrightarrow> replaying (run_decoder W t d e)"
  by (auto simp: run_decoder_def active_faithful intro: generate_for_replaying split: option.splits)

lemma chunk_replaying:
  assumes "core_inv e" "replaying e"
  shows "replaying (run_chunk W t n c e)"
proof (cases "bt_get (e_active e) (fst c)")
  case (Some r)
  note r = active_faithful [OF assms Some]
  have inv: "bt_inv (e_active e)" using base_invD(1) [OF core_base [OF assms(1)]] .
  have same: "faithful (e_tokens e) (r\<lparr>a_phase := ph\<rparr>)"
    "faithful (e_tokens e) (r\<lparr>a_rng := x, a_emit_offset := y, a_phase := ph\<rparr>)" for ph x y
    using r by (simp_all add: faithful_def)
  have "request_base (fst c) (r\<lparr>a_rng := x, a_emit_offset := y, a_phase := Decode\<rparr>)" for x y
    using r by (simp add: request_base_def)
  with same show ?thesis
    using Some assms replaying_modify [OF assms(2) inv]
    by (auto simp: run_chunk_def split_beta Let_def intro!: generate_for_replaying split: req_phase.splits)
qed (use assms in \<open>simp add: run_chunk_def\<close>)

section \<open>Admission and retirement\<close>

lemma admit_direct_tokens:
  "e_tokens (snd (admit_direct W clk rid client q ids n e)) = e_tokens e \<or>
   (\<exists>p. e_tokens (snd (admit_direct W clk rid client q ids n e)) =
     snd (on_request_added (e_tokens e) (req_id (q_request q)) p))"
proof -
  let ?p = "prune_big (clk_now clk) e"
  have pr: "e_tokens ?p = e_tokens e" by (simp add: prune_big_def)
  show ?thesis
  proof (cases "active_new W clk (e_index ?p) (q_request q) (e_opt ?p) (e_latency ?p)
      \<lparr>ad_num_running = num_in_batch e + 1, ad_num_local_cached = n, ad_block_ids = ids,
       ad_churn = (if e_recent_big ?p = [] then Calm else BigChunk), ad_queued_at = q_queued_at q\<rparr>")
    case (Inr r)
    then have "a_id r = req_id (q_request q)" using active_new_fresh [OF Inr] by (simp add: fresh_request_def)
    then have "e_tokens (snd (pin_schedule r' (snd (pin_stream r ?p)))) =
        snd (on_request_added (e_tokens e) (req_id (q_request q)) (a_prompt r))" for r'
      by (simp add: pin_stream_def pin_schedule_def split_beta pr split: option.splits)
    then show ?thesis using Inr by (auto simp: admit_direct_def Let_def split_beta insert_active_fields)
  qed (simp add: admit_direct_def Let_def pr count_failed_def)
qed

lemma admit_direct_replaying:
  assumes "source_ok (e_tokens e)" "\<And>s. e_step_source e = Some s \<Longrightarrow> step_source_ok s" "replaying e"
    "\<And>rid r. bt_get (e_active e) rid = Some r \<Longrightarrow> a_id r = rid"
    "bt_get (e_active e) rid = None" "req_id (q_request q) = rid"
  shows "replaying (snd (admit_direct W clk rid client q ids n e))"
proof -
  let ?e = "snd (admit_direct W clk rid client q ids n e)"
  have other: "recorded_stream (e_tokens ?e) k = recorded_stream (e_tokens e) k" if "k \<noteq> rid" for k
    using admit_direct_tokens [of W clk rid client q ids n e] added_stream [OF that] assms(6) by auto
  have "faithful (e_tokens ?e) r" if "bt_get (e_active e) k = Some r" for k r
  proof -
    have "a_id r \<noteq> rid" using that assms(4) [OF that] assms(5) by auto
    then show ?thesis using other assms(3) that by (simp add: replaying_def faithful_def)
  qed
  moreover have "faithful (e_tokens ?e) r" if "fresh_request rid ids lora r" for r lora
    using that by (simp add: faithful_def fresh_request_def)
  ultimately show ?thesis
    using admit_direct_shape [OF assms(1,2) refl, of W clk rid client q ids n] assms(6)
    by (auto simp: replaying_def bt_simps split: if_splits)
qed

lemma core_ids: "core_inv e \<Longrightarrow> bt_get (e_active e) rid = Some r \<Longrightarrow> a_id r = rid"
  using base_invD(6) [OF core_base] by (auto simp: request_base_def)

lemma admit_replaying:
  assumes "core_inv e" "replaying e" "next_waiting e = Some (q, rest)"
  shows "replaying (snd (admit W clk q (e\<lparr>e_waiting := rest\<rparr>)))"
proof -
  note I = base_invD [OF core_base [OF assms(1)]]
  obtain out pool where c: "cache_prompt (e_pool e) (prompt_of (q_request q)) (request_lora_name (q_request q))
      (req_cache_salt (q_request q)) = (out, pool)" by fastforce
  have none: "bt_get (e_active e) (req_id (q_request q)) = None"
    using reserved_get [OF reserved_after_caching [OF core_base [OF assms(1)] assms(3) c, of "[]"]]
    by simp
  let ?e = "publish (events out) (e\<lparr>e_waiting := rest, e_pool := pool\<rparr>)"
  have "replaying (snd (admit_direct W clk (req_id (q_request q)) client q ids n ?e))" for client ids n
    by (rule admit_direct_replaying) (use I(4,5) assms(2) none core_ids [OF assms(1)] in simp_all)
  then show ?thesis using assms(2) c by (auto simp: admit_def Let_def split: option.splits)
qed

lemma pull_replaying:
  assumes "core_inv e" "replaying e" "bt_get (e_pending e) rid = Some p"
  shows "replaying (snd (admit_direct W clk rid (pp_client p) (pp_queued p) (pp_block_ids p) (pp_num_local_cached p)
    (e\<lparr>e_pending := bt_remove rid (e_pending e)\<rparr>)))"
proof -
  note I = base_invD [OF core_base [OF assms(1)]]
  have "bt_get (e_active e) rid = None"
    using reserved_get [OF reserved_pulled [OF core_base [OF assms(1)] assms(3)]] by simp
  then show ?thesis
    by (intro admit_direct_replaying) (use I(4,5,7) assms(2,3) core_ids [OF assms(1)] in simp_all)
qed

lemma finish_replaying:
  assumes "replaying e" "\<And>rid r. bt_get (e_active e) rid = Some r \<Longrightarrow> a_id r = rid"
  shows "replaying (finish_request rid e)"
proof (cases "bt_get (e_active e) rid")
  case (Some r)
  have "a_id r = rid" using assms(2) Some .
  then show ?thesis
    using assms finished_stream [of _ rid "e_tokens e"] Some
    by (auto simp: replaying_def finish_get faithful_def finish_request_def bt_simps split: if_splits)
qed (use assms(1) in \<open>simp add: finish_request_def\<close>)

lemma finish_fold_replaying:
  assumes "replaying e" "\<And>rid r. bt_get (e_active e) rid = Some r \<Longrightarrow> a_id r = rid"
  shows "replaying (fold finish_request rids e)"
  using assms
proof (induction rids arbitrary: e)
  case (Cons rid rids)
  show ?case
    unfolding fold_Cons comp_apply
    by (rule Cons.IH) (use finish_replaying [OF Cons.prems] Cons.prems(2) in \<open>auto simp: finish_get split: if_splits\<close>)
qed simp

lemma drain_faithful:
  assumes "request_base rid r" "a_emitted r < a_max_tokens r" "faithful src r"
  shows "faithful src (snd (drain_request src now r))" "a_id (snd (drain_request src now r)) = rid"
proof -
  obtain os r' where d: "drain_request src now r = (os, r')" by fastforce
  have pre: "a_emitted r + emit_len (a_pending_emits r) \<le> a_max_tokens r"
    "\<forall>m \<in> set (a_pending_emits r). pe_tokens m \<noteq> []"
    using assms(1) by (auto simp: request_base_def emit_len_def)
  note S = emit_due_spec [OF assms(2) pre d [unfolded drain_request_def]]
  have len: "length (concat (map pe_tokens ms)) = emit_len ms" for ms
    by (simp add: emit_len_def length_concat comp_def)
  let ?out = "concat (map (\<lambda>d. out_tokens (de_output d)) os)"
  have "length ?out + emit_len (a_pending_emits r') = emit_len (a_pending_emits r)"
    using arg_cong [OF S(6), of length] len by simp
  then have "a_emitted r' = a_emitted r + length ?out" using S(2) by simp
  moreover have "agrees ids (a_emitted r) (?out @ concat (map pe_tokens (a_pending_emits r')))"
    if "recorded_stream src (a_id r) = Some ids" for ids
    using assms(3) that S(6) by (simp add: faithful_def)
  ultimately show "faithful src (snd (drain_request src now r))" "a_id (snd (drain_request src now r)) = rid"
    using S(1) d assms(1) by (auto simp: faithful_def agrees_append request_base_def)
qed

lemma flush_replaying:
  assumes "core_inv e" "replaying e"
  shows "replaying (snd (snd (flush_due now e)))"
proof -
  have "faithful (e_tokens e) (drained now e r) \<and> a_id (drained now e r) = rid"
    if "bt_get (e_active e) rid = Some r" for rid r
  proof -
    have "a_emitted r < a_max_tokens r" using that assms(1) by (simp add: core_inv_def unfinished_def)
    then show ?thesis
      using drain_faithful [of rid r "e_tokens e" now] active_faithful [OF assms that] by (simp add: drained_def)
  qed
  then show ?thesis
    unfolding flush_eq drain_all_eq
    by (intro finish_fold_replaying) (auto simp: replaying_def map_snd_get count_completed_def)
qed

lemma withdraw_replaying:
  assumes "core_inv e" "replaying e"
  shows "replaying (snd (withdraw rid e))"
  using assms finish_replaying [OF assms(2) core_ids [OF assms(1)]]
  by (auto simp: withdraw_def split: option.splits)

lemma abort_replaying: "core_inv e \<Longrightarrow> replaying e \<Longrightarrow> replaying (fst (abort_one rid (e, m)))"
  using withdraw_replaying [of e rid] by (auto simp: abort_one_def split: prod.splits option.splits)

lemma reset_replaying: "replaying e \<Longrightarrow> replaying (snd (reset_prefix_cache_outputs clk u e))"
  by (auto simp: reset_prefix_cache_outputs_def Let_def split_beta split: option.splits)

interpretation replay: engine_invariant W "\<lambda>e. core_inv e \<and> replaying e" "\<lambda>_. True" for W :: "'r world"
proof
  show "core_inv e \<and> replaying e \<Longrightarrow> core_inv (snd (scheduler_stats e)) \<and> replaying (snd (scheduler_stats e))"
    for e :: "'r sim_engine"
    using stats_core [of e] by (simp add: scheduler_stats_def Let_def split_beta)
qed (use admit_core pull_core flush_core enqueue_core reset_cache_core decoder_core chunk_core compose_core abort_core
  admit_replaying pull_replaying flush_replaying reset_replaying decoder_replaying chunk_replaying compose_replaying
  abort_replaying in auto)

end
