(* ===== verification/Engine_Run.thy ===== *)
theory Engine_Run
  imports Engine_Replay
begin

text \<open>
  The runs of an engine: its initial state, the states it reaches from there by any sequence of
  inputs, wake-ups, pull completions and aborts, and a concrete world with a counter for the
  random generator, on which the witnesses run.
\<close>

section \<open>The initial state\<close>

definition steps_fit :: "opt \<Rightarrow> bool" where
  "steps_fit cfg = (case o_replay_steps cfg of None \<Rightarrow> True | Some (b, records) \<Rightarrow> lengths_ok records)"

text \<open>An engine that was started from options and has taken any number of turns.\<close>

definition engine_run :: "'r world \<Rightarrow> (control_request \<Rightarrow> bool) \<Rightarrow> opt \<Rightarrow> 'r sim_engine \<Rightarrow> bool" where
  "engine_run W allow cfg e \<longleftrightarrow>
     (\<exists>idx ev e0. new_engine W idx cfg ev = Inr e0 \<and> steps_fit cfg \<and> engine_reach W allow e0 e)"

lemma new_engine_start:
  fixes e0 :: "'r sim_engine"
  assumes "new_engine W idx cfg ev = Inr e0" "steps_fit cfg"
  shows "live e0" "seq_cap e0" "lora_cap e0" "conserved e0" "mirrored e0" "replaying e0" "e_opt e0 = cfg"
proof -
  from assms(1) obtain lat src steps where
    src: "build_token_source cfg = Inr src" and st: "build_step_source cfg = Inr steps"
    and f: "e_active e0 = []" "e_waiting e0 = []" "e_pending e0 = []" "e_tokens e0 = src" "e_step_source e0 = steps"
      "e_pool e0 = new_pool (o_tokens_per_block cfg) (o_kv_cache_size cfg) (o_kv_cache_none_seed cfg)"
      "e_published e0 = []" "e_stats e0 = default_stats" "e_step e0 = None" "e_opt e0 = cfg"
    by (auto simp: new_engine_def bind_result_Inr)
  have "step_source_ok s" if "steps = Some s" for s
    using build_step_source_ok [of cfg s] st assms(2) that by (auto simp: steps_fit_def split: option.splits)
  then have "core_inv e0"
    using f src build_token_source_ok new_pool_inv
    by (simp add: core_inv_def base_inv_def unfinished_def all_ids_def held_def bt_inv_def bt_get_def)
  moreover have "next_waiting e0 = None"
    using policy.pick_sound [of "e_policy e0" "[]" "lora_admits e0"] f
    by (cases "next_admissible_index e0") (auto simp: next_waiting_def next_admissible_index_def)
  ultimately show "live e0"
    using f by (simp add: live_def listed_def settled_def idle_clock_def bt_get_def)
  show "seq_cap e0" "lora_cap e0" "conserved e0"
    using f by (simp_all add: seq_cap_def num_generating_def lora_cap_def resident_loras_def map_filter_simps
        bt_get_def conserved_def num_unfinished_requests_def default_stats_def)
  show "mirrored e0" using f by (simp add: mirrored_def keys_def new_pool_def Let_def)
  show "replaying e0" using f by (simp add: replaying_def bt_get_def)
  show "e_opt e0 = cfg" using f by simp
qed

lemma allowed_any: "allowed (\<lambda>_. True) i"
  by (simp add: allowed_def split: engine_input.split)

lemma turn_any: "engine_turn W allow e e' \<Longrightarrow> engine_turn W (\<lambda>_. True) e e'"
  by (induction rule: engine_turn.induct) (blast intro: engine_turn.intros allowed_any)+

lemma reach_any: "engine_reach W allow e0 e \<Longrightarrow> engine_reach W (\<lambda>_. True) e0 e"
  by (induction rule: engine_reach.induct) (blast intro: engine_reach.intros turn_any)+

lemma engine_run_live:
  assumes "engine_run W allow cfg e"
  shows "live e"
  using assms live_reach [OF reach_any] new_engine_start(1) unfolding engine_run_def by metis

lemma engine_run_core: "engine_run W allow cfg e \<Longrightarrow> core_inv e"
  using engine_run_live by (auto simp: live_def)

section \<open>The example world\<close>

definition demo_world :: "nat world" where
  "demo_world = \<lparr>w_rng = counter_rng, w_request_hash = (\<lambda>seed idx rid. seed), w_advertise = (\<lambda>kv. Inl ''no data plane'')\<rparr>"

definition demo_record :: trace_record where
  "demo_record = default_record\<lparr>tr_arrival_ms := Some 0, tr_output_token_ids := Some [5, 6, 7]\<rparr>"

definition demo_opt :: opt where
  "demo_opt = \<lparr>o_engine_id = ''vcr'', o_pd_role = RoleBoth, o_output_token_chunk_size = 1, o_vocab_size = 100,
     o_replay_tokens = Some (TraceInput None [demo_record]), o_replay_steps = None, o_replay_match = MatchIndex, o_seed = 0, o_kv_block_bytes = 64,
     o_tokens_per_block = 2, o_side_channel_host = [], o_side_channel_port = 0, o_log_requests = False,
     o_latency_trace = None, o_time_to_first_token = 5, o_time_to_first_token_std_dev = 0,
     o_inter_token_latency = 7, o_inter_token_latency_std_dev = 0, o_prefill_overhead = 0,
     o_prefill_time_per_token = 0, o_prefill_time_std_dev = 0, o_kv_cache_transfer_latency = 0,
     o_kv_cache_transfer_latency_std_dev = 0, o_kv_cache_transfer_time_per_token = 0,
     o_kv_cache_transfer_time_std_dev = 0, o_time_factor_under_load = 1, o_max_num_seqs = 2,
     o_max_num_batched_tokens = 8, o_long_prefill_token_threshold = 0, o_scheduling_policy = Fcfs,
     o_kv_cache_size = 4, o_max_loras = 1, o_enable_kv_cache_events = True, o_kv_events_endpoint = [],
     o_kv_events_topic = [], o_model_name = ''m'', o_kv_cache_none_seed = 0, o_max_model_len = 0,
     o_failure_injection_rate = 0, o_time_scale = 1, o_failure_types = []\<rparr>"

definition demo_engine :: "nat sim_engine" where
  "demo_engine = (case new_engine demo_world 0 demo_opt True of Inr e \<Rightarrow> e)"

definition demo_clock :: clock where
  "demo_clock = \<lparr>clk_now = 0, clk_monotonic = 0\<rparr>"

definition demo_request :: "string \<Rightarrow> nat \<Rightarrow> engine_request" where
  "demo_request rid n =
     \<lparr>req_id = rid, req_client = 0, req_prompt = Some [1, 2, 3],
      req_sampling = Some \<lparr>sp_max_tokens = n, sp_min_tokens = 0, sp_eos_token_id = None, sp_extra_args = None\<rparr>,
      req_lora = None, req_cache_salt = None, req_priority = 0, req_arrival = Fin 0, req_mm_hashes = None\<rparr>"

definition demo_busy :: "nat sim_engine" where
  "demo_busy = snd (handle_input demo_world demo_clock (InRequest (demo_request ''a-0'' 3)) demo_engine)"

lemma demo_record_fields:
  "tr_arrival_ms demo_record = Some 0" "tr_output_token_ids demo_record = Some [5, 6, 7]"
  by (simp_all add: demo_record_def)

lemma demo_start: "new_engine demo_world 0 demo_opt True = Inr demo_engine"
proof -
  have "\<exists>e. new_engine demo_world 0 demo_opt True = Inr e"
    by (simp add: new_engine_def build_latency_def build_token_source_def
      replay_subset_def demo_record_fields build_step_source_def demo_opt_def bind_result_def)
  then show ?thesis by (auto simp: demo_engine_def)
qed

lemma demo_fits: "steps_fit demo_opt"
  by (simp add: steps_fit_def demo_opt_def)

lemma demo_busy_run: "engine_run demo_world allow demo_opt demo_busy"
proof -
  have "engine_turn demo_world allow demo_engine demo_busy"
    unfolding demo_busy_def by (rule engine_turn.input) (simp add: allowed_def)
  then have "engine_reach demo_world allow demo_engine demo_busy" by (rule engine_reach.turn [OF engine_reach.start])
  then show ?thesis using demo_start demo_fits unfolding engine_run_def by blast
qed


section \<open>The example evaluated\<close>

lemma demo_engine_eq: "demo_engine =
   \<lparr>e_index = 0, e_opt = demo_opt, e_latency = KnobLatency (latency_model_of demo_opt), e_tokens = ReplayTokens (replay_from_records [demo_record] 100),
    e_step_source = None, e_spec_tokens = None, e_policy = Fcfs, e_pool = new_pool 2 4 0, e_events_on = True,
    e_published = [], e_pulls = [], e_replies = [], e_failure_rng = 0, e_loras = new_registry 1, e_active = [],
    e_waiting = [], e_pending = [], e_step = None, e_prefill_order = [], e_emit_seq = 0, e_recent_big = [],
    e_pending_spec = None, e_stats = default_stats\<rparr>"
  unfolding demo_engine_def
  by (simp add: new_engine_def build_latency_def build_token_source_def
      replay_subset_def demo_record_fields build_step_source_def demo_opt_def
      bind_result_def demo_world_def counter_rng_def)

lemma demo_cache: "cache_prompt (new_pool 2 4 0) [1, 2, 3] None None =
  (\<lparr>num_cached_tokens = 0, block_ids = [0], events = [Stored [12185246084821128038] None [1, 2] 2 None]\<rparr>,
   \<lparr>block_size = 2, capacity = 4, none_seed = 0,
    cached = [(12185246084821128038, \<lparr>block_id = 0, refcnt = 1, last_used = 1\<rparr>)],
    free_slots = [3, 2, 1], tick = 1, queries = 1, hits = 0, requests = 1\<rparr>)"
  by code_simp

definition demo_queued :: "nat sim_engine" where
  "demo_queued = (count_received demo_engine)\<lparr>e_waiting := [\<lparr>q_request = demo_request ''a-0'' 3, q_queued_at = 0\<rparr>]\<rparr>"

definition demo_active :: "nat active_request" where
  "demo_active =
     \<lparr>a_id = ''a-0'', a_client = 0, a_prompt_len = 3, a_prompt = [1, 2, 3], a_max_tokens = 3, a_generated = 0,
      a_rng = 0, a_pacing = for_prompt 3 Calm, a_prefill_advertise = False, a_remote_prefill = False,
      a_num_local_cached = 0, a_block_ids = [0], a_lora = None, a_phase = Prefill 3, a_emitted = 0,
      a_emit_offset = 0, a_pending_emits = [],
      a_pending_events = [\<lparr>ev_type = EQueued, ev_timestamp = 0\<rparr>, \<lparr>ev_type = EScheduled, ev_timestamp = 0\<rparr>],
      a_scripted = None\<rparr>"

definition demo_admitted :: "nat sim_engine" where
  "demo_admitted = (count_received demo_engine)\<lparr>e_pool := snd (cache_prompt (new_pool 2 4 0) [1, 2, 3] None None),
      e_published := [Stored [12185246084821128038] None [1, 2] 2 None],
      e_prefill_order := [''a-0''], e_active := [(''a-0'', demo_active)]\<rparr>"

lemma demo_request_fields:
  "remote_of (demo_request rid n) = None" "request_lora_name (demo_request rid n) = None"
  "prompt_of (demo_request rid n) = [1, 2, 3]" "req_id (demo_request rid n) = rid"
  "req_cache_salt (demo_request rid n) = None" "req_client (demo_request rid n) = 0"
  by (simp_all add: remote_of_def demo_request_def extract_kv_params_def request_lora_name_def prompt_of_def)

lemma demo_new: "active_new demo_world demo_clock 0 (demo_request ''a-0'' 3) demo_opt lat
    \<lparr>ad_num_running = Suc 0, ad_num_local_cached = 0, ad_block_ids = [0], ad_churn = Calm, ad_queued_at = 0\<rparr> =
  Inr demo_active"
  by (simp add: active_new_def demo_request_def prompt_of_def kv_request_flag_def extract_kv_params_def eos_capped_def
      demo_opt_def demo_world_def counter_rng_def request_seed_def demo_active_def request_lora_name_def
      demo_clock_def DEFAULT_MOCK_MAX_MODEL_LEN_def numeral_3_eq_3)

lemma demo_admit:
  "admit demo_world demo_clock \<lparr>q_request = demo_request ''a-0'' 3, q_queued_at = 0\<rparr> (demo_queued\<lparr>e_waiting := []\<rparr>) =
     (None, demo_admitted)"
  by (simp add: admit_def demo_queued_def count_received_def demo_engine_eq demo_cache publish_def admit_direct_def
      prune_big_def num_in_batch_def demo_new Let_def pin_stream_def pin_schedule_def insert_active_def
      BIG_CHUNK_TOKENS_def demo_active_def demo_request_fields demo_admitted_def)

lemma demo_schedule: "schedule demo_world demo_clock demo_queued = ([], demo_admitted)"
proof -
  have "has_room demo_queued"
    by (simp add: has_room_def num_generating_def step_token_backlog_def running_capacity_def token_budget_def
        demo_queued_def count_received_def demo_engine_eq demo_opt_def)
  moreover have "next_waiting demo_queued = Some (\<lparr>q_request = demo_request ''a-0'' 3, q_queued_at = 0\<rparr>, [])"
    by (simp add: next_waiting_def next_admissible_index_def demo_queued_def count_received_def demo_engine_eq
        next_admissible_def fcfs_next_def vd_remove_def lora_admits_def demo_request_fields admits_def)
  moreover have "e_waiting demo_admitted = []"
    by (simp add: demo_admitted_def demo_engine_eq count_received_def)
  ultimately show ?thesis
    by (subst schedule.simps) (simp add: demo_admit schedule_empty)
qed

lemma demo_handle: "demo_busy = ensure_step demo_world 0 demo_admitted"
proof -
  have "maybe_fail demo_world (demo_request ''a-0'' 3) (count_received demo_engine) = (None, count_received demo_engine)"
    by (simp add: maybe_fail_def Let_def demo_engine_eq demo_opt_def count_received_def)
  moreover have "\<not> known_id ''a-0'' (count_received demo_engine)" "e_waiting (count_received demo_engine) = []"
    by (simp_all add: known_id_def demo_engine_eq count_received_def bt_get_def)
  ultimately show ?thesis
    using demo_schedule
    by (simp add: demo_busy_def handle_request_def Let_def demo_request_fields demo_queued_def demo_clock_def)
qed

text \<open>Composing a step without decoders changes the step and the prefill order only.\<close>

lemma compose_no_decoders:
  assumes "decoder_ids e = []"
  shows "compose_step W t e =
    e\<lparr>e_prefill_order := e_prefill_order (compose_step W t e), e_step := e_step (compose_step W t e)\<rparr>"
  using assms by (simp add: compose_step_def Let_def split_beta)

lemma demo_busy_fields:
  "e_active demo_busy = [(''a-0'', demo_active)]" "e_pending demo_busy = []" "e_waiting demo_busy = []"
  "e_loras demo_busy = new_registry 1" "e_events_on demo_busy" "e_opt demo_busy = demo_opt"
  "bt_get (e_active demo_busy) ''a-0'' = Some demo_active" "num_unfinished_requests demo_busy = 1" "e_tokens demo_busy = ReplayTokens (replay_from_records [demo_record] 100)"
proof -
  have "decoder_ids demo_admitted = []" by (simp add: demo_admitted_def decoder_ids_def demo_active_def)
  then obtain stp order where b: "demo_busy = demo_admitted\<lparr>e_prefill_order := order, e_step := stp\<rparr>"
    using compose_no_decoders [of demo_admitted demo_world 0] that unfolding demo_handle ensure_step_def
    by (simp add: demo_admitted_def demo_engine_eq count_received_def)
  show "e_active demo_busy = [(''a-0'', demo_active)]" "e_pending demo_busy = []" "e_waiting demo_busy = []"
    "e_loras demo_busy = new_registry 1" "e_events_on demo_busy" "e_opt demo_busy = demo_opt"
    "bt_get (e_active demo_busy) ''a-0'' = Some demo_active" "num_unfinished_requests demo_busy = 1" "e_tokens demo_busy = ReplayTokens (replay_from_records [demo_record] 100)"
    by (simp_all add: b demo_admitted_def demo_engine_eq count_received_def bt_get_def num_unfinished_requests_def)
qed

lemma demo_blocks: "a_block_ids demo_active = [0]"
  by (simp add: demo_active_def)

text \<open>The state after the wake-up that completes the prefill: the first token is queued.\<close>

lemma demo_admitted_fields:
  "e_active demo_admitted = [(''a-0'', demo_active)]" "e_prefill_order demo_admitted = [''a-0'']"
  "e_step demo_admitted = None" "e_opt demo_admitted = demo_opt" "e_pending demo_admitted = []"
  "e_waiting demo_admitted = []" "e_latency demo_admitted = KnobLatency (latency_model_of demo_opt)"
  "e_tokens demo_admitted = ReplayTokens (replay_from_records [demo_record] 100)" "e_spec_tokens demo_admitted = None"
  "demo_admitted\<lparr>e_prefill_order := [''a-0'']\<rparr> = demo_admitted" "e_emit_seq demo_admitted = 0"
  by (simp_all add: demo_admitted_def demo_engine_eq count_received_def)

lemma demo_opt_fields:
  "o_max_num_batched_tokens demo_opt = 8" "o_long_prefill_token_threshold demo_opt = 0" "o_time_scale demo_opt = 1"
  "o_output_token_chunk_size demo_opt = 1"
  by (simp_all add: demo_opt_def)

lemma demo_active_fields:
  "a_id demo_active = ''a-0''" "a_phase demo_active = Prefill 3" "a_prompt_len demo_active = 3"
  "a_num_local_cached demo_active = 0" "a_scripted demo_active = None" "a_generated demo_active = 0"
  "a_max_tokens demo_active = 3" "a_rng demo_active = 0" "a_pending_emits demo_active = []" "a_emitted demo_active = 0"
  "a_client demo_active = 0"
  by (simp_all add: demo_active_def)

definition demo_step :: engine_step where
  "demo_step = \<lparr>es_end = 0, es_decoders = [], es_chunks = [(''a-0'', 3)]\<rparr>"

lemma div_zero [simp]: "div_f64 0 x = 0"
  by (simp add: div_f64_def from_secs_f64_def round_half_even_def)

lemma demo_busy_eq: "demo_busy = demo_admitted\<lparr>e_step := Some demo_step\<rparr>"
proof -
  have "decoder_ids demo_admitted = []" by (simp add: demo_admitted_fields decoder_ids_def demo_active_fields)
  then show ?thesis
    unfolding demo_handle ensure_step_def compose_step_def
    by (simp add: demo_admitted_fields Let_def token_budget_def demo_opt_fields demo_active_fields prefilling_def
        bt_get_def demo_step_def)
qed

lemma demo_stream: "rt_record (replay_from_records [demo_record] 100) ''a-0'' =
    Some \<lparr>ro_token_ids = [5, 6, 7], ro_finish_reason = None\<rparr>"
proof -
  have "record_index ''a-0'' = Some 0"
    using record_index_printed [of 0 "''a''"] by (simp add: nat_str.simps char_of_def bit_Suc_0_iff)
  then show ?thesis
    by (simp add: rt_record_def replay_from_records_def recorded_of_def demo_record_def default_record_def)
qed

lemma div_one: "div_f64 d 1 = d"
  by (simp add: div_f64_def from_secs_f64_def round_half_even_def)

definition demo_decoding :: "nat active_request" where
  "demo_decoding = demo_active\<lparr>a_phase := Decode, a_generated := 1, a_emit_offset := from_millis 5,
     a_pending_emits := [\<lparr>pe_due = from_millis 5, pe_seq = 0, pe_tokens = [5]\<rparr>]\<rparr>"

lemma demo_offset: "knob_first_token_delay (w_rng demo_world) (latency_model_of demo_opt) rng
    \<lparr>ft_num_prompt_tokens = 3, ft_num_cached_tokens = 0, ft_do_remote_prefill = False, ft_num_running = n\<rparr> = (from_millis 5, rng)"
  by (simp add: latency_model_of_def knob_first_token_delay_def demo_opt_def random_norm_truncated_def
      random_norm_def load_factor_def scale_def f64_as_u64_def f64_clamp_def)

lemma demo_pace: "knob_inter_token_delay (w_rng demo_world) (latency_model_of demo_opt) rng n = (from_millis 7, rng)"
  by (simp add: latency_model_of_def knob_inter_token_delay_def demo_opt_def random_norm_truncated_def
      random_norm_def load_factor_def scale_def f64_as_u64_def f64_clamp_def)

definition demo_prefilled :: "nat sim_engine" where
  "demo_prefilled = demo_admitted\<lparr>e_active := [(''a-0'', demo_decoding)], e_emit_seq := 1\<rparr>"

lemma demo_chunk: "run_chunk demo_world 0 1 (''a-0'', 3) demo_admitted = demo_prefilled"
proof -
  have "demo_active\<lparr>a_emit_offset := x, a_phase := Decode, a_rng := 0, a_generated := k, a_pending_emits := ms\<rparr> =
      demo_active\<lparr>a_phase := Decode, a_generated := k, a_emit_offset := x, a_pending_emits := ms\<rparr>" for x k ms
    by (simp add: demo_active_def)
  moreover have "demo_admitted\<lparr>e_tokens := ReplayTokens (replay_from_records [demo_record] 100), e_active := a, e_emit_seq := k\<rparr> =
      demo_admitted\<lparr>e_active := a, e_emit_seq := k\<rparr>" for a k
    by (simp add: demo_admitted_def demo_engine_eq count_received_def)
  ultimately show ?thesis
    by (simp add: run_chunk_def demo_admitted_fields demo_active_fields demo_offset demo_opt_fields generate_for_def
        generate_def Let_def chunk_len_def time_scale_def div_one bt_get_def demo_stream serve_recorded_def
        demo_decoding_def demo_prefilled_def bt_modify_def)
qed

lemma demo_decoding_fields:
  "a_id demo_decoding = ''a-0''" "a_phase demo_decoding = Decode" "a_scripted demo_decoding = None"
  "a_generated demo_decoding = 1" "a_max_tokens demo_decoding = 3" "a_emitted demo_decoding = 0"
  "a_pending_emits demo_decoding = [\<lparr>pe_due = 5000000, pe_seq = 0, pe_tokens = [5]\<rparr>]" "a_client demo_decoding = 0"
  by (simp_all add: demo_decoding_def demo_active_def from_millis_def)

definition demo_woken :: "nat sim_engine" where
  "demo_woken = snd (the (step demo_world demo_clock 1 demo_busy))"

lemma demo_draw: "snd (draw_step demo_world (KnobLatency (latency_model_of demo_opt)) n demo_decoding) = demo_decoding"
  "fst (draw_step demo_world (KnobLatency (latency_model_of demo_opt)) n demo_decoding) =
     \<lparr>sd_delay = from_millis 7, sd_tokens = 1\<rparr>"
  by (simp_all add: draw_step_def demo_decoding_fields demo_pace)

lemma demo_compose:
  "compose_step demo_world 0 demo_prefilled =
     demo_prefilled\<lparr>e_prefill_order := [], e_step := Some \<lparr>es_end = 7000000, es_decoders = [(''a-0'', 1)], es_chunks = []\<rparr>\<rparr>"
proof -
  have f: "e_active demo_prefilled = [(''a-0'', demo_decoding)]" "e_latency demo_prefilled = KnobLatency (latency_model_of demo_opt)"
    "e_opt demo_prefilled = demo_opt" "e_prefill_order demo_prefilled = [''a-0'']"
    "demo_prefilled\<lparr>e_active := [(''a-0'', demo_decoding)]\<rparr> = demo_prefilled"
    by (simp_all add: demo_prefilled_def demo_admitted_fields)
  have d: "decoder_ids demo_prefilled = [''a-0'']"
    by (simp add: decoder_ids_def f demo_decoding_fields is_generating_def)
  show ?thesis
    unfolding compose_step_def d
    by (simp add: f Let_def split_beta bt_get_def bt_modify_def demo_draw demo_opt_fields prefilling_def
        demo_decoding_fields token_budget_def time_scale_def div_one from_millis_def)
qed

lemma demo_step_eq: "step demo_world demo_clock 1 demo_busy = Some ([], demo_woken)"
  "e_active demo_woken = [(''a-0'', demo_decoding)]" "e_tokens demo_woken = e_tokens demo_busy"
proof -
  let ?s = "Some \<lparr>es_end = 7000000, es_decoders = [(''a-0'', 1)], es_chunks = []\<rparr>"
  define e1 where "e1 = demo_prefilled\<lparr>e_pending_spec := None, e_prefill_order := [], e_step := ?s\<rparr>"
  have e1: "e_step e1 = ?s" "e_active e1 = [(''a-0'', demo_decoding)]" "e_tokens e1 = e_tokens demo_busy"
    "e_waiting e1 = []"
    by (simp_all add: e1_def demo_prefilled_def demo_admitted_fields demo_busy_eq)
  have spec: "demo_admitted\<lparr>e_pending_spec := None\<rparr> = demo_admitted" "demo_admitted\<lparr>e_step := None\<rparr> = demo_admitted"
    "demo_prefilled\<lparr>e_pending_spec := None\<rparr> = demo_prefilled"
    by (simp_all add: demo_prefilled_def demo_admitted_def demo_engine_eq count_received_def)
  have "e_waiting demo_prefilled = []" "e_step demo_prefilled = None"
    by (simp_all add: demo_prefilled_def demo_admitted_fields)
  then have c: "complete_step demo_world demo_clock demo_step demo_admitted = ([], e1)"
    using demo_chunk schedule_empty [of demo_prefilled demo_world demo_clock]
    by (simp add: complete_step_def demo_step_def num_in_batch_def demo_admitted_fields fold_spec_stats_def
        ensure_step_def demo_compose e1_def spec)
  have stop: "catch_up demo_world demo_clock n e1 = Some ([], e1)" for n
    by (subst catch_up.simps) (simp add: step_due_def e1 demo_clock_def)
  have up: "catch_up demo_world demo_clock 1 (demo_busy\<lparr>e_pending_spec := None\<rparr>) = Some ([], e1)"
    by (subst catch_up.simps)
      (simp add: step_due_def demo_clock_def [THEN arg_cong [of _ _ clk_now]] demo_step_def [THEN arg_cong [of _ _ es_end]]
        demo_busy_eq spec c stop)
  have keep: "demo_decoding\<lparr>a_pending_emits := [\<lparr>pe_due = 5000000, pe_seq = 0, pe_tokens = [5]\<rparr>]\<rparr> = demo_decoding"
    by (simp add: demo_decoding_def from_millis_def)
  have "drain_request src 0 demo_decoding = ([], demo_decoding)" for src
    by (simp add: drain_request_def demo_decoding_fields keep)
  then have flush: "flush_due 0 e1 = ([], [], e1)"
    by (simp add: flush_due_def drain_all_def e1 to_advertise_def finishing_def count_completed_def map_filter_simps)
  have ph: "emit_phase demo_world demo_clock [] e1 = ([], snd (scheduler_stats e1))"
    using schedule_empty [OF e1(4), of demo_world demo_clock]
    by (simp add: emit_phase_def demo_clock_def [THEN arg_cong [of _ _ clk_now]] flush split_beta Let_def ensure_step_def e1)
  show st: "step demo_world demo_clock 1 demo_busy = Some ([], demo_woken)"
    by (simp add: demo_woken_def step_def up [simplified] ph)
  show "e_active demo_woken = [(''a-0'', demo_decoding)]" "e_tokens demo_woken = e_tokens demo_busy"
    by (simp_all add: demo_woken_def step_def up [simplified] ph scheduler_stats_def split_beta Let_def e1)
qed

lemma demo_woken_run: "engine_run demo_world allow demo_opt demo_woken"
proof -
  obtain idx ev e0 where "new_engine demo_world idx demo_opt ev = Inr e0" "steps_fit demo_opt"
    "engine_reach demo_world allow e0 demo_busy"
    using demo_busy_run [of allow] by (auto simp: engine_run_def)
  then show ?thesis
    using engine_reach.turn [OF _ engine_turn.wake [OF demo_step_eq(1)]] unfolding engine_run_def by blast
qed

lemma demo_woken_fields:
  "bt_get (e_active demo_woken) ''a-0'' = Some demo_decoding"
  "e_tokens demo_woken = ReplayTokens (replay_from_records [demo_record] 100)"
  using demo_step_eq(2,3) by (simp_all add: bt_get_def demo_busy_fields)

end
