(* ===== verification/Engine_Props.thy ===== *)
theory Engine_Props
  imports Engine_Run
begin

text \<open>
  The properties of the engine: what holds in every state it can reach, and what single
  handlers do.
\<close>

section \<open>Every reachable state\<close>

text \<open>C1: In every state the engine can reach, request ids are unique across the running batch, the
  pending pulls and the queue; a running request is filed under its own id; and its tokens
  are accounted for: what was emitted plus what is queued for emission is what was generated,
  never more than the request's length, and a request that emitted its whole length is gone.\<close>

theorem reachable_requests_sound:
  assumes "engine_run W allow cfg e"
  shows "distinct (all_ids e) \<and>
    (\<forall>rid r. bt_get (e_active e) rid = Some r \<longrightarrow>
       a_id r = rid \<and> a_emitted r + sum_list (map (\<lambda>m. length (pe_tokens m)) (a_pending_emits r)) = a_generated r \<and>
       a_generated r \<le> a_max_tokens r \<and> a_emitted r < a_max_tokens r)"
  using engine_run_core [OF assms]
  by (auto simp: core_inv_def base_inv_def unfinished_def request_base_def)

theorem reachable_requests_sound_witness:
  "distinct (all_ids demo_busy) \<and> bt_get (e_active demo_busy) ''a-0'' = Some demo_active \<and>
   a_id demo_active = ''a-0'' \<and> a_emitted demo_active < a_max_tokens demo_active"
  using reachable_requests_sound [OF demo_busy_run] demo_busy_fields(7) by blast

lemma pinned_slot:
  assumes "pool_inv p" "0 < refs p i"
  obtains h s where "bt_get (cached p) h = Some s" "block_id s = i" "0 < refcnt s"
proof -
  have "\<exists>x \<in> set (cached p). 0 < pins_at i x"
  proof (rule ccontr)
    assume "\<not> ?thesis"
    then have "refs p i = 0" by (simp add: refs_def)
    with assms(2) show False by simp
  qed
  then obtain h s where "(h, s) \<in> set (cached p)" "block_id s = i" "0 < refcnt s"
    by (auto simp: pins_at_def split: if_splits)
  then show thesis using that bt.elems_get [of "cached p" h s] assms(1) by (auto simp: pool_inv_def)
qed

text \<open>C2: The KV blocks of a running or pulling request stay where they are: in every reachable state
  each slot such a request was given carries at least as many pins as requests hold it, backs a cached
  block, and caching any further prompt leaves that block in that slot.\<close>

theorem held_blocks_stay_cached:
  assumes "engine_run W allow cfg e"
    "(\<exists>r. bt_get (e_active e) rid = Some r \<and> i \<in> set (a_block_ids r)) \<or>
     (\<exists>p. bt_get (e_pending e) rid = Some p \<and> i \<in> set (pp_block_ids p))"
  shows "0 < held e i \<and> held e i \<le> refs (e_pool e) i \<and>
    (\<exists>h s s'. bt_get (cached (e_pool e)) h = Some s \<and> block_id s = i \<and> 0 < refcnt s \<and>
       bt_get (cached (snd (cache_prompt (e_pool e) toks lora salt))) h = Some s' \<and> block_id s' = i \<and> 0 < refcnt s')"
proof -
  note I = base_invD [OF core_base [OF engine_run_core [OF assms(1)]]]
  have pos: "0 < held e i"
    using assms(2)
  proof
    assume "\<exists>r. bt_get (e_active e) rid = Some r \<and> i \<in> set (a_block_ids r)"
    then show ?thesis using held_remove_active [OF I(1), of rid] by (auto simp: holds_def)
  next
    assume "\<exists>p. bt_get (e_pending e) rid = Some p \<and> i \<in> set (pp_block_ids p)"
    then show ?thesis using held_remove_pending [OF I(2), of rid] by (auto simp: holds_def)
  qed
  then have "0 < refs (e_pool e) i" using I(9) [of i] by simp
  from pinned_slot [OF I(3) this] obtain h s where
    s: "bt_get (cached (e_pool e)) h = Some s" "block_id s = i" "0 < refcnt s" .
  have "keeps_pins (e_pool e) (snd (cache_prompt (e_pool e) toks lora salt))"
    using prompt_pins_aux(2) [OF I(3)] by (metis prod.collapse)
  from keeps_pinsD [OF this s(1,3)] s(2) obtain s' where
    "bt_get (cached (snd (cache_prompt (e_pool e) toks lora salt))) h = Some s'" "block_id s' = i" "0 < refcnt s'"
    by metis
  with s pos I(9) [of i] show ?thesis by blast
qed

theorem held_blocks_stay_cached_witness:
  "0 < held demo_busy 0 \<and> held demo_busy 0 \<le> refs (e_pool demo_busy) 0 \<and>
    (\<exists>h s. bt_get (cached (snd (cache_prompt (e_pool demo_busy) [7, 8] None None))) h = Some s \<and> block_id s = 0)"
  using held_blocks_stay_cached [OF demo_busy_run, of "''a-0''" 0 "[7, 8]" None None]
  by (auto simp: demo_busy_fields(7) demo_blocks)

text \<open>C6: The sequence cap holds in every reachable state: the requests that still generate and the
  pulls in flight never exceed \<^verbatim>\<open>max-num-seqs\<close> (at least one), as long as the cap itself is not
  lowered by a control call.\<close>

theorem sequence_cap_respected:
  assumes "engine_run W keeps_capacity cfg e"
  shows "num_generating e + length (e_pending e) \<le> running_capacity e"
proof -
  obtain idx ev e0 where e0: "new_engine W idx cfg ev = Inr e0" "steps_fit cfg" "engine_reach W keeps_capacity e0 e"
    using assms by (auto simp: engine_run_def)
  have "core_inv e \<and> seq_cap e"
    using seq.extended.reach_pres [OF e0(3)] new_engine_start(1,2) [OF e0(1,2)] by (simp add: live_def)
  then show ?thesis by (simp add: seq_cap_def)
qed

theorem sequence_cap_respected_witness:
  "num_generating demo_busy + length (e_pending demo_busy) \<le> running_capacity demo_busy"
  by (rule sequence_cap_respected [OF demo_busy_run])

text \<open>C7: With a LoRA slot cap configured, the running and pulling requests of every reachable state
  use at most that many distinct adapters.\<close>

theorem lora_cap_respected:
  assumes "engine_run W allow cfg e" "0 < max_loras (e_loras e)"
  shows "card (set (resident_loras e)) \<le> max_loras (e_loras e)"
proof -
  obtain idx ev e0 where e0: "new_engine W idx cfg ev = Inr e0" "steps_fit cfg" "engine_reach W allow e0 e"
    using assms by (auto simp: engine_run_def)
  have "core_inv e \<and> lora_cap e"
    using lora.extended.reach_pres [OF reach_any [OF e0(3)]] new_engine_start(1,3) [OF e0(1,2)] by (simp add: live_def)
  then show ?thesis using assms(2) by (simp add: lora_cap_def)
qed

theorem lora_cap_respected_witness: "card (set (resident_loras demo_busy)) \<le> 1"
  using lora_cap_respected [OF demo_busy_run] by (simp add: demo_busy_fields(4) new_registry_def)

text \<open>C8: The control plane's counters account for every request, as long as they are not reset: received
  requests are those completed, failed or aborted plus those the engine still holds.\<close>

theorem stats_conserved:
  assumes "engine_run W keeps_stats cfg e"
  shows "requests_received (e_stats e) = requests_completed (e_stats e) + requests_failed (e_stats e) +
    requests_aborted (e_stats e) + num_unfinished_requests e"
proof -
  obtain idx ev e0 where e0: "new_engine W idx cfg ev = Inr e0" "steps_fit cfg" "engine_reach W keeps_stats e0 e"
    using assms by (auto simp: engine_run_def)
  have "core_inv e \<and> conserved e"
    using ledger.extended.reach_pres [OF e0(3)] new_engine_start(1,4) [OF e0(1,2)] by (simp add: live_def)
  then show ?thesis by (simp add: conserved_def)
qed

theorem stats_conserved_witness:
  "requests_received (e_stats demo_busy) = requests_completed (e_stats demo_busy) +
     requests_failed (e_stats demo_busy) + requests_aborted (e_stats demo_busy) + num_unfinished_requests demo_busy"
  by (rule stats_conserved [OF demo_busy_run])

lemma run_mirrored:
  assumes "engine_run W allow cfg e" "e_events_on e"
  shows "apply_events {} (e_published e) = keys (e_pool e)"
proof -
  obtain idx ev e0 where e0: "new_engine W idx cfg ev = Inr e0" "steps_fit cfg" "engine_reach W allow e0 e"
    using assms by (auto simp: engine_run_def)
  have "core_inv e \<and> mirrored e"
    using mirror.extended.reach_pres [OF reach_any [OF e0(3)]] new_engine_start(1,5) [OF e0(1,2)] by (simp add: live_def)
  then show ?thesis using assms(2) by (simp add: mirrored_def)
qed

text \<open>C3: A router that applies all KV events the engine ever published, in order, to an empty view holds
  exactly the block hashes the engine caches, in every reachable state of an engine with events enabled.\<close>

theorem published_events_mirror_cache:
  assumes "engine_run W allow cfg e" "e_events_on e"
  shows "apply_events {} (e_published e) = keys (e_pool e)"
  by (rule run_mirrored [OF assms])

theorem published_events_mirror_cache_witness: "apply_events {} (e_published demo_busy) = keys (e_pool demo_busy)"
  using published_events_mirror_cache [OF demo_busy_run] by (simp add: demo_busy_fields)

text \<open>C4: The engine never stalls: in every reachable state with an unfinished request there is a deadline
  to wake up for (a step in flight or a queued emission) or a pull whose completion is awaited.\<close>

theorem engine_never_stalls:
  assumes "engine_run W allow cfg e" "num_unfinished_requests e \<noteq> 0"
  shows "earliest_deadline e \<noteq> None \<or> e_pending e \<noteq> []"
  using live_wakes [OF engine_run_live [OF assms(1)] assms(2)] .

theorem engine_never_stalls_witness: "earliest_deadline demo_busy \<noteq> None"
  using engine_never_stalls [OF demo_busy_run] by (simp add: demo_busy_fields)

text \<open>C5: A wake-up always returns: with a positive output chunk size the catch-up loop of \<^verbatim>\<open>step\<close> ends in
  every reachable state, whatever the clock reads, even when every latency is zero.\<close>

theorem wake_up_returns:
  assumes "engine_run W allow cfg e" "0 < o_output_token_chunk_size (e_opt e)"
  shows "\<exists>n. \<forall>fuel \<ge> n. \<exists>outs e'. step W clk fuel e = Some (outs, e')"
  by (rule step_total [OF engine_run_core [OF assms(1)] assms(2)])


theorem wake_up_returns_witness:
  "\<exists>n. \<forall>fuel \<ge> n. \<exists>outs e'. step demo_world demo_clock fuel demo_busy = Some (outs, e')"
  using wake_up_returns [OF demo_busy_run] by (simp add: demo_busy_fields demo_opt_def)

end
