(* ===== verification/Engine_Handlers.thy ===== *)
theory Engine_Handlers
  imports Engine_Run
begin

text \<open>
  Properties of single handlers of the engine in any state it can reach: delivery of tokens,
  verbatim replay, the contents of a composed step, aborts, refusals, cache resets and
  configuration patches.
\<close>

section \<open>Delivery\<close>

lemma emit_due_split:
  assumes "emit_due src now r ms = (os, r')"
  shows "map (\<lambda>d. out_tokens (de_output d)) os = map pe_tokens (takeWhile (\<lambda>m. pe_due m \<le> now) ms)"
    "map de_due os = map pe_due (takeWhile (\<lambda>m. pe_due m \<le> now) ms)"
    "a_pending_emits r' = dropWhile (\<lambda>m. pe_due m \<le> now) ms"
proof -
  have "map (\<lambda>d. out_tokens (de_output d)) os = map pe_tokens (takeWhile (\<lambda>m. pe_due m \<le> now) ms) \<and>
    map de_due os = map pe_due (takeWhile (\<lambda>m. pe_due m \<le> now) ms) \<and>
    a_pending_emits r' = dropWhile (\<lambda>m. pe_due m \<le> now) ms"
    using assms
  proof (induction ms arbitrary: r os)
    case (Cons m ms)
    show ?case
    proof (cases "pe_due m \<le> now")
      case True
      then obtain os1 where "emit_due src now (snd (emit_one src r m)) ms = (os1, r')" "os = fst (emit_one src r m) # os1"
        using Cons.prems by (auto simp: split_beta prod_eq_iff)
      moreover have "de_due (fst (emit_one src r m)) = pe_due m" by (simp add: emit_one_def Let_def)
      ultimately show ?thesis using True Cons.IH by (auto simp: emit_one_fields)
    qed (use Cons.prems in auto)
  qed auto
  then show "map (\<lambda>d. out_tokens (de_output d)) os = map pe_tokens (takeWhile (\<lambda>m. pe_due m \<le> now) ms)"
    "map de_due os = map pe_due (takeWhile (\<lambda>m. pe_due m \<le> now) ms)"
    "a_pending_emits r' = dropWhile (\<lambda>m. pe_due m \<le> now) ms" by blast+
qed

lemma run_request:
  assumes "engine_run W allow cfg e" "bt_get (e_active e) rid = Some r"
  shows "request_base rid r" "a_emitted r < a_max_tokens r" "a_emitted r + emit_len (a_pending_emits r) = a_generated r"
    "a_emitted r + emit_len (a_pending_emits r) \<le> a_max_tokens r" "\<forall>m \<in> set (a_pending_emits r). pe_tokens m \<noteq> []"
  using engine_run_core [OF assms(1)] assms(2)
  by (auto simp: core_inv_def base_inv_def unfinished_def request_base_def emit_len_def)

text \<open>C30: Draining a running request delivers exactly the leading queued chunks that are due, in
  order and each in its own output for that request's client; the rest stays queued. Exactly one
  output finishes the request, the last one, when and only when its length is reached, with the
  source's finish reason or \<^verbatim>\<open>length\<close>; otherwise no output carries a finish reason.\<close>

theorem drain_delivers:
  assumes "engine_run W allow cfg e" "bt_get (e_active e) rid = Some r"
    "drain_request (e_tokens e) now r = (os, r')"
  shows "map (\<lambda>d. out_tokens (de_output d)) os = map pe_tokens (takeWhile (\<lambda>m. pe_due m \<le> now) (a_pending_emits r)) \<and>
    a_pending_emits r' = dropWhile (\<lambda>m. pe_due m \<le> now) (a_pending_emits r) \<and>
    a_emitted r' = a_emitted r + sum_list (map (\<lambda>d. length (out_tokens (de_output d))) os) \<and>
    (\<forall>d \<in> set os. out_id (de_output d) = rid \<and> de_client d = a_client r) \<and>
    map (\<lambda>d. out_finish (de_output d)) os =
      (if a_emitted r' = a_max_tokens r
       then replicate (length os - 1) None @ [Some (case source_finish_reason (e_tokens e) rid of None \<Rightarrow> FLength | Some f \<Rightarrow> f)]
       else replicate (length os) None)"
proof -
  note R = run_request [OF assms(1,2)]
  have id: "a_id r = rid" using R(1) by (simp add: request_base_def)
  note D = assms(3) [unfolded drain_request_def]
  note S = emit_due_spec [OF R(2,4,5) D] and T = emit_due_split [OF D]
  let ?sent = "sum_list (map (\<lambda>d. length (out_tokens (de_output d))) os)"
  let ?late = "concat (map pe_tokens (a_pending_emits r'))"
  have "?sent + length ?late = emit_len (a_pending_emits r)"
    using arg_cong [OF S(6), of length] by (simp add: emit_len_def length_concat comp_def)
  moreover have "length ?late = emit_len (a_pending_emits r')" by (simp add: emit_len_def length_concat comp_def)
  ultimately have em: "a_emitted r' = a_emitted r + ?sent" using S(2) by simp
  have le: "a_emitted r' \<le> a_max_tokens r" using S(2) R(4) by simp
  have fins: "map (\<lambda>d. out_finish (de_output d)) os =
      (if a_emitted r' = a_max_tokens r
       then replicate (length os - 1) None @ [Some (case source_finish_reason (e_tokens e) rid of None \<Rightarrow> FLength | Some f \<Rightarrow> f)]
       else replicate (length os) None)"
  proof (cases "a_max_tokens r \<le> a_emitted r'")
    case True
    with S(7) have L: "os \<noteq> []" "de_finished (last os)"
      "out_finish (de_output (last os)) = Some (case source_finish_reason (e_tokens e) rid of None \<Rightarrow> FLength | Some f \<Rightarrow> f)"
      using id by auto
    then obtain xs x where os: "os = xs @ [x]" by (metis append_butlast_last_id)
    with S(4) True L(2) have "filter de_finished xs = []" by simp
    then have "\<forall>d \<in> set xs. out_finish (de_output d) = None" using S(8) os by (auto simp: filter_empty_conv)
    then have "map (\<lambda>d. out_finish (de_output d)) xs = replicate (length xs) None" by (simp add: map_replicate_const cong: map_cong)
    with os L(3) True le show ?thesis by simp
  next
    case False
    then have "filter de_finished os = []" using S(4) by simp
    then have "\<forall>d \<in> set os. out_finish (de_output d) = None" using S(8) by (auto simp: filter_empty_conv)
    with False show ?thesis by (simp add: map_replicate_const cong: map_cong)
  qed
  show ?thesis using T(1,3) S(5) em fins id by simp
qed

lemma demo_drain:
  obtains os r' where "drain_request (e_tokens demo_woken) 6000000 demo_decoding = (os, r')"
  by fastforce

theorem drain_delivers_witness:
  "map (\<lambda>d. out_tokens (de_output d)) (fst (drain_request (e_tokens demo_woken) 6000000 demo_decoding)) = [[5]] \<and>
   map (\<lambda>d. out_finish (de_output d)) (fst (drain_request (e_tokens demo_woken) 6000000 demo_decoding)) = [None] \<and>
   a_emitted (snd (drain_request (e_tokens demo_woken) 6000000 demo_decoding)) = 1"
proof -
  obtain os r' where d: "drain_request (e_tokens demo_woken) 6000000 demo_decoding = (os, r')" by (rule demo_drain)
  note D = drain_delivers [OF demo_woken_run demo_woken_fields(1) d]
  then have toks: "map (\<lambda>d. out_tokens (de_output d)) os = [[5]]" by (simp add: demo_decoding_fields)
  then obtain x where x: "os = [x]" "out_tokens (de_output x) = [5]" by auto
  with D d show ?thesis by (simp add: demo_decoding_fields)
qed

text \<open>What a wake-up delivers and leaves queued is the recorded stream.\<close>

lemma run_verbatim:
  assumes "engine_run W allow cfg e" "bt_get (e_active e) rid = Some r"
    "recorded_stream (e_tokens e) rid = Some ids" "a_max_tokens r \<le> length ids"
    "drain_request (e_tokens e) now r = (os, r')"
  shows "concat (map (\<lambda>d. out_tokens (de_output d)) os) @ concat (map pe_tokens (a_pending_emits r')) =
    take (a_generated r - a_emitted r) (drop (a_emitted r) ids)"
proof -
  obtain idx ev e0 where e0: "new_engine W idx cfg ev = Inr e0" "steps_fit cfg" "engine_reach W allow e0 e"
    using assms(1) by (auto simp: engine_run_def)
  have "core_inv e \<and> replaying e"
    using replay.reach_pres [OF reach_any [OF e0(3)]] new_engine_start(1,6) [OF e0(1,2)] by (simp add: live_def)
  then have f: "faithful (e_tokens e) r" using assms(2) by (auto simp: replaying_def)
  note R = run_request [OF assms(1,2)]
  let ?q = "concat (map pe_tokens (a_pending_emits r))"
  have len: "length ?q = a_generated r - a_emitted r" "a_emitted r + length ?q \<le> length ids"
    using R(3,4) assms(4) by (auto simp: emit_len_def length_concat comp_def)
  have "agrees ids (a_emitted r) ?q" using f assms(3) R(1) by (simp add: faithful_def request_base_def)
  from agrees_take [OF this len(2)] len(1)
  show ?thesis using emit_due_spec(6) [OF R(2,4,5) assms(5) [unfolded drain_request_def]] by simp
qed

text \<open>C9: Verbatim replay end to end. In every reachable state of an engine that serves recorded
  outputs, for a running request whose stream is recorded up to its length, what a wake-up
  delivers followed by what stays queued is the recorded stream, from the point the client has
  received up to what was generated: no token is lost, repeated, reordered or invented.\<close>

theorem verbatim_replay:
  assumes "engine_run W allow cfg e" "bt_get (e_active e) rid = Some r"
    "recorded_stream (e_tokens e) rid = Some ids" "a_max_tokens r \<le> length ids"
    "drain_request (e_tokens e) now r = (os, r')"
  shows "concat (map (\<lambda>d. out_tokens (de_output d)) os) @ concat (map pe_tokens (a_pending_emits r')) =
    take (a_generated r - a_emitted r) (drop (a_emitted r) ids)"
  by (rule run_verbatim [OF assms])

theorem verbatim_replay_witness:
  "recorded_stream (e_tokens demo_woken) ''a-0'' = Some [5, 6, 7] \<and>
   concat (map (\<lambda>d. out_tokens (de_output d)) (fst (drain_request (e_tokens demo_woken) 6000000 demo_decoding))) @
   concat (map pe_tokens (a_pending_emits (snd (drain_request (e_tokens demo_woken) 6000000 demo_decoding)))) = [5]"
proof -
  obtain os r' where d: "drain_request (e_tokens demo_woken) 6000000 demo_decoding = (os, r')" by (rule demo_drain)
  have s: "recorded_stream (e_tokens demo_woken) ''a-0'' = Some [5, 6, 7]"
    by (simp add: demo_woken_fields demo_stream)
  from verbatim_replay [OF demo_woken_run demo_woken_fields(1) s _ d] d s show ?thesis
    by (simp add: demo_decoding_fields)
qed

section \<open>Steps\<close>

text \<open>C31: A composed step runs every request that decodes and gives the rest of the token budget to
  prefills in arrival order: its chunks are a prefix of the prefill queue, each takes at least one
  token and no more than the request still needs, together they fit in what the decoders leave of
  the budget, and a prefill is left out only when that is used up.\<close>

theorem composed_step_in_budget:
  assumes "engine_run W allow cfg e" "e' = compose_step W t (e\<lparr>e_step := None\<rparr>)" "e_step e' = Some stp"
  shows "map fst (es_decoders stp) = decoder_ids e \<and> (es_decoders stp \<noteq> [] \<or> es_chunks stp \<noteq> []) \<and>
    sum_list (map snd (es_chunks stp)) \<le> token_budget e - decode_claim stp \<and>
    (\<forall>(rid, n) \<in> set (es_chunks stp). 0 < n \<and>
       (\<exists>r m. bt_get (e_active e') rid = Some r \<and> a_phase r = Prefill m \<and> n \<le> m)) \<and>
    (\<exists>k. map fst (es_chunks stp) = take k (e_prefill_order e') \<and>
       (k < length (e_prefill_order e') \<longrightarrow>
          sum_list (map snd (es_chunks stp)) = token_budget e - decode_claim stp))"
proof -
  have c: "core_inv (e\<lparr>e_step := None\<rparr>)" using engine_run_core [OF assms(1)] by simp
  have q: "decoder_ids (e\<lparr>e_step := None\<rparr>) = decoder_ids e" "token_budget (e\<lparr>e_step := None\<rparr>) = token_budget e"
    by (simp_all add: decoder_ids_def token_budget_def)
  note C = compose_composes(4) [OF c _ assms(2,3), unfolded q]
  from C have "\<forall>x \<in> set (es_chunks stp). 0 < snd x \<and>
      (\<exists>r m. bt_get (e_active e') (fst x) = Some r \<and> a_phase r = Prefill m \<and> snd x \<le> m)"
    "es_decoders stp \<noteq> [] \<or> es_chunks stp \<noteq> []" by (simp_all add: runnable_def)
  with C show ?thesis by (simp add: split_beta)
qed

theorem composed_step_in_budget_witness:
  "e_step (compose_step demo_world 0 (demo_busy\<lparr>e_step := None\<rparr>)) = Some demo_step \<and>
   sum_list (map snd (es_chunks demo_step)) \<le> token_budget demo_busy - decode_claim demo_step"
proof -
  have a: "demo_busy\<lparr>e_step := None\<rparr> = demo_admitted"
    unfolding demo_busy_eq by (simp add: demo_admitted_def demo_engine_eq count_received_def)
  have "compose_step demo_world 0 demo_admitted = demo_busy"
    using demo_handle demo_admitted_fields(3) by (simp add: ensure_step_def)
  then have s: "e_step (compose_step demo_world 0 (demo_busy\<lparr>e_step := None\<rparr>)) = Some demo_step"
    unfolding a by (simp add: demo_busy_eq)
  from composed_step_in_budget [OF demo_busy_run refl s] s show ?thesis by blast
qed

section \<open>Aborts and refusals\<close>

text \<open>The core outputs of a list of envelopes, in order.\<close>

definition all_outputs :: "engine_output list \<Rightarrow> engine_core_output list" where
  "all_outputs outs = concat (map (\<lambda>x. request_outputs (eo_env x)) outs)"

lemma compose_idle:
  assumes "e_active e = []"
  shows "all_ids (ensure_step W t e) = all_ids e"
  using assms
  by (simp add: ensure_step_def compose_step_def decoder_ids_def Let_def split_beta all_ids_def)

text \<open>C13: Aborting everything, as shutdown does, leaves the engine without any request. Each running,
  pulling or queued request gets exactly one output, with finish reason \<^verbatim>\<open>abort\<close> and no tokens lost to
  another finish reason, and is counted as aborted.\<close>

theorem abort_all_reports:
  assumes "engine_run W allow cfg e" "abort_all_requests W clk e = (outs, e')"
  shows "num_unfinished_requests e' = 0 \<and> mset (map out_id (all_outputs outs)) = mset (all_ids e) \<and>
    (\<forall>out \<in> set (all_outputs outs). out_finish out = Some FAbort) \<and>
    requests_aborted (e_stats e') = requests_aborted (e_stats e) + num_unfinished_requests e"
proof -
  obtain e1 m where f: "fold abort_one (all_ids e) (e, []) = (e1, m)" by fastforce
  note A = abort_fold_all [OF engine_run_core [OF assms(1)] _ refl f]
  have ids1: "all_ids e1 = []" and aborted: "requests_aborted (e_stats e1) = requests_aborted (e_stats e) + length (all_ids e)"
    using A by (simp_all add: bt_inv_def)
  obtain st e2 where st: "scheduler_stats e1 = (st, e2)" by fastforce
  have e2: "e_active e2 = []" "e_pending e2 = []" "e_waiting e2 = []" "e_stats e2 = e_stats e1"
    using st ids1 by (auto simp: scheduler_stats_def Let_def split_beta all_ids_def)
  have "schedule W clk e1 = ([], e1)" using ids1 by (intro schedule_empty) (simp add: all_ids_def)
  then have r: "outs = attach_stats clk (e_index (ensure_step W (clk_now clk) e2)) (Some st) m"
    "e' = ensure_step W (clk_now clk) e2"
    using assms(2) f st by (auto simp: abort_all_requests_def abort_requests_def all_ids_def [symmetric] Let_def)
  have outs: "all_outputs outs = batch_outs m" unfolding r(1) all_outputs_def by (rule attach_stats_outs)
  have "all_ids e' = []" using e2 compose_idle [of e2 W] unfolding r(2) by (simp add: all_ids_def)
  moreover have "e_stats e' = e_stats e1"
    using e2 unfolding r(2) by (simp add: ensure_step_def compose_step_def decoder_ids_def Let_def split_beta)
  moreover have "num_unfinished_requests x = length (all_ids x)" for x :: "'a sim_engine"
    by (simp add: num_unfinished_requests_def all_ids_def)
  ultimately show ?thesis using A outs aborted by (simp add: bt_inv_def batch_outs_def)
qed

theorem abort_all_reports_witness:
  "num_unfinished_requests (snd (abort_all_requests demo_world demo_clock demo_busy)) = 0 \<and>
   mset (map out_id (all_outputs (fst (abort_all_requests demo_world demo_clock demo_busy)))) = {#''a-0''#}"
  using abort_all_reports [OF demo_busy_run, of demo_clock]
  by (cases "abort_all_requests demo_world demo_clock demo_busy") (simp add: all_ids_def demo_busy_fields)

text \<open>A request that reuses the id of a running, pulling or queued request is refused on the spot: one
  output with finish reason \<^verbatim>\<open>error\<close> goes to its own client, the request of that id is untouched, and
  only the counters of received and failed requests move.\<close>

theorem duplicate_request_refused:
  assumes "req_id request \<in> set (all_ids e)"
  shows "handle_input W clk (InRequest request) e =
    (Inr [\<lparr>eo_client = req_client request,
           eo_env = RequestBatch (e_index e) [request_output (req_id request) [] (Some FError)] None
             (clk_monotonic clk) (Some [req_id request])\<rparr>],
     e\<lparr>e_stats := (e_stats e)\<lparr>requests_received := requests_received (e_stats e) + 1,
                              requests_failed := requests_failed (e_stats e) + 1\<rparr>\<rparr>)"
proof -
  have "known_id (req_id request) (count_received e)"
    using assms by (simp add: known_id_iff count_received_def all_ids_def)
  then show ?thesis
    by (simp add: handle_request_def Let_def empty_finish_outputs_def count_received_def count_failed_def)
qed

theorem duplicate_request_refused_witness:
  "e_active (snd (handle_input demo_world demo_clock (InRequest (demo_request ''a-0'' 9)) demo_busy)) =
     [(''a-0'', demo_active)]"
proof -
  have "req_id (demo_request ''a-0'' 9) \<in> set (all_ids demo_busy)"
    by (simp add: demo_request_def all_ids_def demo_busy_fields)
  from duplicate_request_refused [OF this, of demo_world demo_clock] show ?thesis by (simp add: demo_busy_fields)
qed

section \<open>Cache resets and patches\<close>

text \<open>Resetting the prefix cache is refused while any request runs or pulls, leaving the engine as it
  is; otherwise it forgets every cached block, frees every slot and answers true.\<close>

theorem prefix_cache_reset:
  assumes "engine_run W allow cfg e" "u_method u = ''reset_prefix_cache''"
  shows "\<exists>reply. fst (handle_input W clk (InUtility u) e) =
      Inr [\<lparr>eo_client = u_client u, eo_env = UtilityCall (e_index e) (clk_monotonic clk) (u_call_id u) (MBool reply)\<rparr>] \<and>
    reply = (e_active e = [] \<and> e_pending e = []) \<and>
    (if reply then cached (e_pool (snd (handle_input W clk (InUtility u) e))) = [] \<and>
        set (free_slots (e_pool (snd (handle_input W clk (InUtility u) e)))) = {0..<capacity (e_pool e)}
     else snd (handle_input W clk (InUtility u) e) = e)"
proof (cases "e_active e = [] \<and> e_pending e = []")
  case False
  then show ?thesis
    using assms(2) by (auto simp: handle_utility_def reset_prefix_cache_outputs_def Let_def utility_result_outputs_def)
next
  case True
  have "pool_inv (e_pool e)" using base_invD(3) [OF core_base [OF engine_run_core [OF assms(1)]]] .
  then have "set (free_slots (e_pool e)) = {0..<capacity (e_pool e)}" if "cached (e_pool e) = []"
    using that by (metis (no_types, lifting) add_0 cached_ids_def list.map(1) mset.simps(1) mset_eq_setD pool_inv_def set_upt)
  with True show ?thesis
    using assms(2)
    by (auto simp: handle_utility_def reset_prefix_cache_outputs_def Let_def utility_result_outputs_def reset_pool_def
        publish_def split: option.splits)
qed

theorem prefix_cache_reset_witness:
  "snd (handle_input demo_world demo_clock
      (InUtility \<lparr>u_client = 0, u_call_id = 1, u_method = ''reset_prefix_cache'', u_args = MNil\<rparr>) demo_busy) = demo_busy"
  using prefix_cache_reset [OF demo_busy_run,
      of "\<lparr>u_client = 0, u_call_id = 1, u_method = ''reset_prefix_cache'', u_args = MNil\<rparr>" demo_clock]
  by (auto simp: demo_busy_fields)

lemma pin_opt: "e_opt (snd (pin_stream r e)) = e_opt e" "e_opt (snd (pin_schedule r e)) = e_opt e"
  by (simp_all add: pin_stream_def pin_schedule_def split_beta split: option.splits)

lemma admit_direct_opt: "e_opt (snd (admit_direct W clk rid client q ids n e)) = e_opt e"
  by (simp add: admit_direct_def Let_def split_beta pin_opt insert_active_fields prune_big_def count_failed_def
      split: sum.splits)

lemma admit_opt: "e_opt (snd (admit W clk q e)) = e_opt e"
  by (simp add: admit_def Let_def split_beta admit_direct_opt split: option.splits)

lemma schedule_opt: "e_opt (snd (schedule W clk e)) = e_opt e"
  by (rule schedule_rule [where P = "\<lambda>x. e_opt x = e_opt e"]) (simp_all add: admit_opt)

lemma ensure_step_opt: "e_opt (ensure_step W t e) = e_opt e"
  unfolding ensure_step_def
  using compose_step_rule [where P = "\<lambda>x. e_opt x = e_opt e" and e = e and W = W and t = t] by simp

text \<open>The configuration that a patch asks for, field by field.\<close>

definition config_after :: "config_patch \<Rightarrow> config \<Rightarrow> config" where
  "config_after p c =
     \<lparr>c_time_to_first_token = patched (p_time_to_first_token p) (c_time_to_first_token c),
      c_time_to_first_token_std_dev = patched (p_time_to_first_token_std_dev p) (c_time_to_first_token_std_dev c),
      c_inter_token_latency = patched (p_inter_token_latency p) (c_inter_token_latency c),
      c_inter_token_latency_std_dev = patched (p_inter_token_latency_std_dev p) (c_inter_token_latency_std_dev c),
      c_prefill_overhead = patched (p_prefill_overhead p) (c_prefill_overhead c),
      c_prefill_time_per_token = patched (p_prefill_time_per_token p) (c_prefill_time_per_token c),
      c_prefill_time_std_dev = patched (p_prefill_time_std_dev p) (c_prefill_time_std_dev c),
      c_time_factor_under_load = patched (p_time_factor_under_load p) (c_time_factor_under_load c),
      c_max_num_seqs = patched (p_max_num_seqs p) (c_max_num_seqs c),
      c_max_num_batched_tokens = patched (p_max_num_batched_tokens p) (c_max_num_batched_tokens c),
      c_max_model_len = patched (p_max_model_len p) (c_max_model_len c),
      c_failure_injection_rate = patched (p_failure_injection_rate p) (c_failure_injection_rate c),
      c_failure_types = patched (p_failure_types p) (c_failure_types c),
      c_log_requests = patched (p_log_requests p) (c_log_requests c)\<rparr>"

definition demo_patch :: config_patch where
  "demo_patch = \<lparr>p_time_to_first_token = None, p_time_to_first_token_std_dev = None, p_inter_token_latency = None, p_inter_token_latency_std_dev = None,
     p_prefill_overhead = None, p_prefill_time_per_token = None, p_prefill_time_std_dev = None, p_time_factor_under_load = None,
     p_max_num_seqs = None, p_max_num_batched_tokens = None, p_max_model_len = Some 9,
     p_failure_injection_rate = None, p_failure_types = None, p_log_requests = None\<rparr>"

text \<open>A configuration patch is all or nothing. When it is refused (a latency knob under a latency trace,
  or a latency model that cannot be rebuilt) the engine is unchanged and nothing is sent. When it is
  accepted, exactly the given fields take their new values, and the reply and every later query
  report the configuration in force.\<close>

theorem patch_all_or_nothing:
  "handle_control W clk (PatchConfig p) e = (reply, outs, e') \<Longrightarrow>
    (case reply of
       Inl err \<Rightarrow> e' = e \<and> outs = []
     | Inr rep \<Rightarrow> rep = ReplyConfig (config_after p (config_of e)) \<and> config_of e' = config_after p (config_of e) \<and>
         handle_control W clk GetConfig e' = (Inr rep, [], e'))"
proof -
  assume h: "handle_control W clk (PatchConfig p) e = (reply, outs, e')"
  show ?thesis
  proof (cases reply)
    case (Inl err)
    then show ?thesis using h by (auto simp: apply_patch_def Let_def split_beta split: sum.splits prod.splits if_splits)
  next
    case (Inr rep)
    then have rep: "rep = ReplyConfig (config_of e')" and ap: "apply_patch W clk p e = (Inr outs, e')"
      using h by (auto split: sum.splits prod.splits)
    from ap have opt: "e_opt e' = patch_opt p (e_opt e)"
      by (auto simp: apply_patch_def Let_def split_beta schedule_opt ensure_step_opt split: sum.splits if_splits)
    then have "config_of e' = config_after p (config_of e)"
      by (simp add: config_of_def config_after_def Let_def patch_opt_def)
    then show ?thesis using Inr rep by simp
  qed
qed

theorem patch_all_or_nothing_witness:
  "config_of (snd (snd (handle_control demo_world demo_clock (PatchConfig demo_patch) demo_busy))) =
     config_after demo_patch (config_of demo_busy)"
proof -
  obtain reply outs e' where h: "handle_control demo_world demo_clock (PatchConfig demo_patch) demo_busy = (reply, outs, e')"
    using prod_cases3 by blast
  have "\<not> changes_latency demo_patch" by (simp add: changes_latency_def demo_patch_def)
  then have "fst (handle_control demo_world demo_clock (PatchConfig demo_patch) demo_busy) \<noteq> Inl err" for err
    by (simp add: apply_patch_def Let_def split_beta)
  then obtain rep where "reply = Inr rep" using h by (cases reply) auto
  with patch_all_or_nothing [OF h] h show ?thesis by simp
qed

end
