(* ===== verification/Engine_Core.thy ===== *)
theory Engine_Core
  imports Engine_Handlers
begin

text \<open>
  The generic engine loop (\<^verbatim>\<open>src/src/engine_core.rs\<close>): the trait an engine implements, the biased
  choice between shutdown, drain deadline, inputs, internal events and wake-ups, and the
  graceful shutdown. The trait is a record of operations, so the loop is generic as in the
  code; a locale states the contract the loop relies on, and the engine of \<open>Engine\<close> meets it.
\<close>

section \<open>The trait\<close>

text \<open>
  The operations of \<^verbatim>\<open>EngineCore\<close>. Each takes the clock reading of its call; \<open>ec_step\<close> takes the
  fuel of the engine's catch-up loop and is \<^const>\<open>None\<close> when that is not enough.
\<close>

record ('e, 'i) engine_core =
  ec_handle_input :: "clock \<Rightarrow> engine_input \<Rightarrow> 'e \<Rightarrow> engine_output list result \<times> 'e"
  ec_on_internal :: "clock \<Rightarrow> 'i \<Rightarrow> 'e \<Rightarrow> engine_output list \<times> 'e"
  ec_earliest_deadline :: "'e \<Rightarrow> instant option"
  ec_step :: "nat \<Rightarrow> clock \<Rightarrow> 'e \<Rightarrow> (engine_output list \<times> 'e) option"
  ec_num_unfinished :: "'e \<Rightarrow> nat"
  ec_abort_all :: "clock \<Rightarrow> 'e \<Rightarrow> engine_output list \<times> 'e"
  ec_reject :: "clock \<Rightarrow> engine_request \<Rightarrow> 'e \<Rightarrow> engine_output \<times> 'e"

text \<open>The implementation of the trait by the simulated engine; its internal events are finished pulls.\<close>

definition sim_core :: "'r world \<Rightarrow> ('r sim_engine, string \<times> nat result) engine_core" where
  "sim_core W =
     \<lparr>ec_handle_input = handle_input W,
      ec_on_internal = (\<lambda>clk (rid, res). finish_pull W clk rid res),
      ec_earliest_deadline = earliest_deadline,
      ec_step = (\<lambda>fuel clk. step W clk fuel),
      ec_num_unfinished = num_unfinished_requests,
      ec_abort_all = abort_all_requests W,
      ec_reject = reject_request\<rparr>"

lemma sim_core_fields [simp]:
  "ec_handle_input (sim_core W) = handle_input W"
  "ec_on_internal (sim_core W) clk ev = finish_pull W clk (fst ev) (snd ev)"
  "ec_earliest_deadline (sim_core W) = earliest_deadline" "ec_step (sim_core W) fuel clk = step W clk fuel"
  "ec_num_unfinished (sim_core W) = num_unfinished_requests" "ec_abort_all (sim_core W) = abort_all_requests W"
  "ec_reject (sim_core W) = reject_request"
  by (simp_all add: sim_core_def split_beta)

section \<open>The loop\<close>

text \<open>
  What the loop finds when it polls its futures: the clock, whether shutdown was requested, the
  input channel (nothing yet, closed, or a message), an internal event, and whether the output
  channel still has a receiver.
\<close>

record 'i polled =
  po_clock :: clock
  po_cancelled :: bool
  po_input :: "engine_input option option"
  po_internal :: "'i option"
  po_output_open :: bool

datatype 'i branch =
    ShutdownRequested
  | DrainTimedOut
  | InputReceived "engine_input option"
  | InternalEvent 'i
  | DeadlineReached

text \<open>The biased choice: the first branch, in this order, that is enabled and ready.\<close>

definition select_branch :: "instant option \<Rightarrow> instant option \<Rightarrow> 'i polled \<Rightarrow> 'i branch option" where
  "select_branch drain_deadline next_deadline p =
     (if drain_deadline = None \<and> po_cancelled p then Some ShutdownRequested
      else if (case drain_deadline of None \<Rightarrow> False | Some d \<Rightarrow> d \<le> clk_now (po_clock p)) then Some DrainTimedOut
      else case po_input p of
             Some i \<Rightarrow> Some (InputReceived i)
           | None \<Rightarrow>
               (case po_internal p of
                  Some ev \<Rightarrow> Some (InternalEvent ev)
                | None \<Rightarrow>
                    (case next_deadline of
                       Some d \<Rightarrow> if d \<le> clk_now (po_clock p) then Some DeadlineReached else None
                     | None \<Rightarrow> None)))"

record 'e engine_loop =
  lp_engine :: 'e
  lp_drain_deadline :: "instant option"
  lp_sent :: "engine_output list"

datatype loop_status = Running | Finished | Failed string

definition send_outputs :: "'i polled \<Rightarrow> engine_output list \<Rightarrow> loop_status \<Rightarrow> 'e engine_loop \<Rightarrow> loop_status \<times> 'e engine_loop" where
  "send_outputs p outs st l =
     (if outs = [] then (st, l)
      else if po_output_open p then (st, l\<lparr>lp_sent := lp_sent l @ outs\<rparr>)
      else (Failed ''engine IO task shut down'', l))"

definition abort_and_leave ::
  "('e, 'i) engine_core \<Rightarrow> 'i polled \<Rightarrow> 'e engine_loop \<Rightarrow> loop_status \<times> 'e engine_loop" where
  "abort_and_leave core p l =
     (let (outs, e) = ec_abort_all core (po_clock p) (lp_engine l)
      in send_outputs p outs Finished (l\<lparr>lp_engine := e\<rparr>))"

definition on_input ::
  "('e, 'i) engine_core \<Rightarrow> 'i polled \<Rightarrow> engine_input \<Rightarrow> 'e engine_loop \<Rightarrow> loop_status \<times> 'e engine_loop" where
  "on_input core p i l =
     (let drained =
        (case i of
           InRequest request \<Rightarrow>
             if lp_drain_deadline l \<noteq> None
             then (let (out, e) = ec_reject core (po_clock p) request (lp_engine l) in (Inr [out], e))
             else ec_handle_input core (po_clock p) i (lp_engine l)
         | _ \<Rightarrow> ec_handle_input core (po_clock p) i (lp_engine l))
      in case drained of
           (Inl err, e) \<Rightarrow> (Failed err, l\<lparr>lp_engine := e\<rparr>)
         | (Inr outs, e) \<Rightarrow> send_outputs p outs Running (l\<lparr>lp_engine := e\<rparr>))"

definition run_branch ::
  "('e, 'i) engine_core \<Rightarrow> duration \<Rightarrow> nat \<Rightarrow> 'i polled \<Rightarrow> 'i branch \<Rightarrow> 'e engine_loop \<Rightarrow>
   (loop_status \<times> 'e engine_loop) option" where
  "run_branch core shutdown_timeout fuel p b l =
     (case b of
        ShutdownRequested \<Rightarrow>
          Some (if shutdown_timeout = 0 then abort_and_leave core p l
                else (Running, l\<lparr>lp_drain_deadline := Some (clk_now (po_clock p) + shutdown_timeout)\<rparr>))
      | DrainTimedOut \<Rightarrow> Some (abort_and_leave core p l)
      | InputReceived None \<Rightarrow> Some (Failed ''engine input channel closed'', l)
      | InputReceived (Some i) \<Rightarrow> Some (on_input core p i l)
      | InternalEvent ev \<Rightarrow>
          (let (outs, e) = ec_on_internal core (po_clock p) ev (lp_engine l)
           in Some (send_outputs p outs Running (l\<lparr>lp_engine := e\<rparr>)))
      | DeadlineReached \<Rightarrow>
          map_option (\<lambda>(outs, e). send_outputs p outs Running (l\<lparr>lp_engine := e\<rparr>))
            (ec_step core fuel (po_clock p) (lp_engine l)))"

text \<open>One round of the loop: the exit test, then the chosen branch. With no branch ready it keeps waiting.\<close>

definition loop_round ::
  "('e, 'i) engine_core \<Rightarrow> duration \<Rightarrow> nat \<Rightarrow> 'i polled \<Rightarrow> 'e engine_loop \<Rightarrow> (loop_status \<times> 'e engine_loop) option" where
  "loop_round core shutdown_timeout fuel p l =
     (if lp_drain_deadline l \<noteq> None \<and> ec_num_unfinished core (lp_engine l) = 0 then Some (Finished, l)
      else case select_branch (lp_drain_deadline l) (ec_earliest_deadline core (lp_engine l)) p of
             None \<Rightarrow> Some (Running, l)
           | Some b \<Rightarrow> run_branch core shutdown_timeout fuel p b l)"

fun run_rounds ::
  "('e, 'i) engine_core \<Rightarrow> duration \<Rightarrow> nat \<Rightarrow> 'i polled list \<Rightarrow> 'e engine_loop \<Rightarrow> (loop_status \<times> 'e engine_loop) option" where
  "run_rounds core shutdown_timeout fuel [] l = Some (Running, l)"
| "run_rounds core shutdown_timeout fuel (p # ps) l =
     (case loop_round core shutdown_timeout fuel p l of
        Some (Running, l) \<Rightarrow> run_rounds core shutdown_timeout fuel ps l
      | res \<Rightarrow> res)"

definition run_loop ::
  "('e, 'i) engine_core \<Rightarrow> duration \<Rightarrow> nat \<Rightarrow> 'i polled list \<Rightarrow> 'e \<Rightarrow> (loop_status \<times> 'e engine_loop) option" where
  "run_loop core shutdown_timeout fuel ps engine =
     run_rounds core shutdown_timeout fuel ps \<lparr>lp_engine = engine, lp_drain_deadline = None, lp_sent = []\<rparr>"

end
