(* ===== verification/Engine_Loop.thy ===== *)
theory Engine_Loop
  imports Engine_Core
begin

text \<open>
  The engine loop is correct for every engine that keeps the trait's contract, and the simulated
  engine keeps it: the loop only exits without unfinished requests, a drain never takes new work,
  shutdown ends, and every round returns.
\<close>

section \<open>The contract\<close>

locale engine_core_contract =
  fixes core :: "('e, 'i) engine_core"
    and inv :: "'e \<Rightarrow> bool"
    and ids :: "'e \<Rightarrow> string set"
  assumes input_inv: "inv e \<Longrightarrow> inv (snd (ec_handle_input core clk i e))"
    and internal_inv: "inv e \<Longrightarrow> inv (snd (ec_on_internal core clk ev e))"
    and step_inv: "inv e \<Longrightarrow> ec_step core fuel clk e = Some (outs, e') \<Longrightarrow> inv e'"
    and abort_inv: "inv e \<Longrightarrow> inv (snd (ec_abort_all core clk e))"
    and reject_inv: "inv e \<Longrightarrow> inv (snd (ec_reject core clk request e))"
    and unfinished_ids: "inv e \<Longrightarrow> ec_num_unfinished core e = 0 \<longleftrightarrow> ids e = {}"
    and abort_ids: "inv e \<Longrightarrow> ids (snd (ec_abort_all core clk e)) = {}"
    and reject_ids: "inv e \<Longrightarrow> ids (snd (ec_reject core clk request e)) = ids e"
    and input_ids: "inv e \<Longrightarrow> \<forall>request. i \<noteq> InRequest request \<Longrightarrow> ids (snd (ec_handle_input core clk i e)) \<subseteq> ids e"
    and internal_ids: "inv e \<Longrightarrow> ids (snd (ec_on_internal core clk ev e)) \<subseteq> ids e"
    and step_ids: "inv e \<Longrightarrow> ec_step core fuel clk e = Some (outs, e') \<Longrightarrow> ids e' \<subseteq> ids e"
    and step_mono: "ec_step core fuel clk e = Some x \<Longrightarrow> fuel \<le> fuel' \<Longrightarrow> ec_step core fuel' clk e = Some x"
    and step_returns: "inv e \<Longrightarrow> \<exists>fuel x. ec_step core fuel clk e = Some x"
begin

lemma send_engine: "send_outputs p outs st l = (st', l') \<Longrightarrow> lp_engine l' = lp_engine l \<and> lp_drain_deadline l' = lp_drain_deadline l"
  by (auto simp: send_outputs_def split: if_splits)

lemma send_status: "send_outputs p outs st l = (st', l') \<Longrightarrow> st' = st \<or> (\<exists>msg. st' = Failed msg)"
  by (auto simp: send_outputs_def split: if_splits)

text \<open>Leaving by an abort: nothing is unfinished, and the loop does not run on.\<close>

lemma leave_spec:
  assumes "inv (lp_engine l)" "abort_and_leave core p l = (st, l')"
  shows "inv (lp_engine l')" "ids (lp_engine l') = {}" "st \<noteq> Running" "lp_drain_deadline l' = lp_drain_deadline l"
proof -
  obtain outs e where a: "ec_abort_all core (po_clock p) (lp_engine l) = (outs, e)" by fastforce
  then have s: "send_outputs p outs Finished (l\<lparr>lp_engine := e\<rparr>) = (st, l')" using assms(2) by (simp add: abort_and_leave_def)
  show "inv (lp_engine l')" "ids (lp_engine l') = {}" "lp_drain_deadline l' = lp_drain_deadline l"
    using send_engine [OF s] abort_inv [OF assms(1), of "po_clock p"] abort_ids [OF assms(1), of "po_clock p"] a by simp_all
  show "st \<noteq> Running" using send_status [OF s] by auto
qed

lemma input_spec:
  assumes "inv (lp_engine l)" "on_input core p i l = (st, l')"
  shows "inv (lp_engine l')" "st \<noteq> Finished" "lp_drain_deadline l' = lp_drain_deadline l"
    "lp_drain_deadline l \<noteq> None \<Longrightarrow> ids (lp_engine l') \<subseteq> ids (lp_engine l)"
proof -
  define res where "res = (case i of
      InRequest request \<Rightarrow>
        if lp_drain_deadline l \<noteq> None
        then (let (out, e) = ec_reject core (po_clock p) request (lp_engine l) in (Inr [out], e))
        else ec_handle_input core (po_clock p) i (lp_engine l)
    | _ \<Rightarrow> ec_handle_input core (po_clock p) i (lp_engine l))"
  have inv: "inv (snd res)"
    using assms(1) unfolding res_def
    by (auto simp: split_beta input_inv reject_inv Let_def split: engine_input.splits)
  have ids: "ids (snd res) \<subseteq> ids (lp_engine l)" if "lp_drain_deadline l \<noteq> None"
    using assms(1) that input_ids [OF assms(1), of i "po_clock p"] unfolding res_def
    by (cases i) (auto simp: split_beta reject_ids Let_def)
  have out: "(case res of (Inl err, e) \<Rightarrow> (Failed err, l\<lparr>lp_engine := e\<rparr>)
      | (Inr outs, e) \<Rightarrow> send_outputs p outs Running (l\<lparr>lp_engine := e\<rparr>)) = (st, l')"
    using assms(2) by (simp add: on_input_def res_def [symmetric] Let_def)
  have eng: "lp_engine l' = snd res" "lp_drain_deadline l' = lp_drain_deadline l"
    using out by (auto split: prod.splits sum.splits dest!: send_engine)
  have "st \<noteq> Finished" using out by (auto split: prod.splits sum.splits dest!: send_status)
  show "inv (lp_engine l')" "st \<noteq> Finished" "lp_drain_deadline l' = lp_drain_deadline l"
    "lp_drain_deadline l \<noteq> None \<Longrightarrow> ids (lp_engine l') \<subseteq> ids (lp_engine l)"
    using inv ids eng \<open>st \<noteq> Finished\<close> by simp_all
qed

text \<open>One round: the invariant is kept, the drain deadline only ever set once, and a drain takes no new work.\<close>

lemma branch_spec:
  assumes "inv (lp_engine l)" "run_branch core timeout fuel p b l = Some (st, l')"
  shows "inv (lp_engine l')" "st = Finished \<Longrightarrow> ids (lp_engine l') = {}"
    "b \<noteq> ShutdownRequested \<Longrightarrow> lp_drain_deadline l' = lp_drain_deadline l"
    "lp_drain_deadline l \<noteq> None \<Longrightarrow> ids (lp_engine l') \<subseteq> ids (lp_engine l)"
    "b = DrainTimedOut \<Longrightarrow> st \<noteq> Running"
    "b = ShutdownRequested \<Longrightarrow> st \<noteq> Running \<or> lp_drain_deadline l' = Some (clk_now (po_clock p) + timeout)"
proof -
  have "inv (lp_engine l') \<and> (st = Finished \<longrightarrow> ids (lp_engine l') = {}) \<and>
    (b \<noteq> ShutdownRequested \<longrightarrow> lp_drain_deadline l' = lp_drain_deadline l) \<and>
    (lp_drain_deadline l \<noteq> None \<longrightarrow> ids (lp_engine l') \<subseteq> ids (lp_engine l)) \<and>
    (b = DrainTimedOut \<longrightarrow> st \<noteq> Running) \<and>
    (b = ShutdownRequested \<longrightarrow> st \<noteq> Running \<or> lp_drain_deadline l' = Some (clk_now (po_clock p) + timeout))"
  proof (cases b)
    case ShutdownRequested
    then show ?thesis
      using assms leave_spec [of l p st l'] by (cases "timeout = 0") (auto simp: run_branch_def)
  next
    case DrainTimedOut
    then show ?thesis using assms leave_spec [of l p st l'] by (auto simp: run_branch_def)
  next
    case (InputReceived i)
    then show ?thesis
      using assms input_spec [of l p _ st l'] by (cases i) (auto simp: run_branch_def)
  next
    case (InternalEvent ev)
    obtain outs e where i: "ec_on_internal core (po_clock p) ev (lp_engine l) = (outs, e)" by fastforce
    then have s: "send_outputs p outs Running (l\<lparr>lp_engine := e\<rparr>) = (st, l')"
      using assms(2) InternalEvent by (simp add: run_branch_def)
    show ?thesis
      using send_engine [OF s] send_status [OF s] internal_inv [OF assms(1), of "po_clock p" ev]
        internal_ids [OF assms(1), of "po_clock p" ev] i InternalEvent by auto
  next
    case DeadlineReached
    then obtain outs e where i: "ec_step core fuel (po_clock p) (lp_engine l) = Some (outs, e)"
      and s: "send_outputs p outs Running (l\<lparr>lp_engine := e\<rparr>) = (st, l')"
      using assms(2) by (auto simp: run_branch_def)
    show ?thesis
      using send_engine [OF s] send_status [OF s] step_inv [OF assms(1) i] step_ids [OF assms(1) i] DeadlineReached by auto
  qed
  then show "inv (lp_engine l')" "st = Finished \<Longrightarrow> ids (lp_engine l') = {}"
    "b \<noteq> ShutdownRequested \<Longrightarrow> lp_drain_deadline l' = lp_drain_deadline l"
    "lp_drain_deadline l \<noteq> None \<Longrightarrow> ids (lp_engine l') \<subseteq> ids (lp_engine l)"
    "b = DrainTimedOut \<Longrightarrow> st \<noteq> Running"
    "b = ShutdownRequested \<Longrightarrow> st \<noteq> Running \<or> lp_drain_deadline l' = Some (clk_now (po_clock p) + timeout)"
    by blast+
qed

lemma select_shutdown: "select_branch d next_deadline p = Some ShutdownRequested \<longleftrightarrow> d = None \<and> po_cancelled p"
  by (auto simp: select_branch_def split: option.splits)

lemma select_drain:
  "select_branch (Some d) next_deadline p = Some DrainTimedOut \<longleftrightarrow> d \<le> clk_now (po_clock p)"
  by (auto simp: select_branch_def split: option.splits)

definition drained_out :: "'e engine_loop \<Rightarrow> bool" where
  "drained_out l \<longleftrightarrow> lp_drain_deadline l \<noteq> None \<and> ec_num_unfinished core (lp_engine l) = 0"

lemma round_eq:
  "loop_round core timeout fuel p l =
     (if drained_out l then Some (Finished, l)
      else case select_branch (lp_drain_deadline l) (ec_earliest_deadline core (lp_engine l)) p of
             None \<Rightarrow> Some (Running, l)
           | Some b \<Rightarrow> run_branch core timeout fuel p b l)"
  unfolding loop_round_def drained_out_def ..

lemma round_spec:
  assumes "inv (lp_engine l)" "loop_round core timeout fuel p l = Some (st, l')"
  shows "inv (lp_engine l')" "st = Finished \<Longrightarrow> ids (lp_engine l') = {}"
    "lp_drain_deadline l = Some d \<Longrightarrow> lp_drain_deadline l' = Some d \<and> ids (lp_engine l') \<subseteq> ids (lp_engine l)"
    "lp_drain_deadline l = Some d \<Longrightarrow> d \<le> clk_now (po_clock p) \<Longrightarrow> st \<noteq> Running"
    "lp_drain_deadline l = None \<Longrightarrow> po_cancelled p \<Longrightarrow>
       st \<noteq> Running \<or> lp_drain_deadline l' = Some (clk_now (po_clock p) + timeout)"
    "lp_drain_deadline l = None \<Longrightarrow> lp_drain_deadline l' = None \<or> st \<noteq> Running \<or>
       lp_drain_deadline l' = Some (clk_now (po_clock p) + timeout)"
proof -
  let ?b = "select_branch (lp_drain_deadline l) (ec_earliest_deadline core (lp_engine l)) p"
  consider (exit) "drained_out l" "st = Finished" "l' = l"
    | (wait) "?b = None" "st = Running" "l' = l"
    | (branch) b where "?b = Some b" "run_branch core timeout fuel p b l = Some (st, l')"
    using assms(2) unfolding round_eq by (cases ?b; cases "drained_out l") auto
  then have "inv (lp_engine l') \<and> (st = Finished \<longrightarrow> ids (lp_engine l') = {}) \<and>
    (lp_drain_deadline l = Some d \<longrightarrow> lp_drain_deadline l' = Some d \<and> ids (lp_engine l') \<subseteq> ids (lp_engine l)) \<and>
    (lp_drain_deadline l = Some d \<and> d \<le> clk_now (po_clock p) \<longrightarrow> st \<noteq> Running) \<and>
    (lp_drain_deadline l = None \<and> po_cancelled p \<longrightarrow>
       st \<noteq> Running \<or> lp_drain_deadline l' = Some (clk_now (po_clock p) + timeout)) \<and>
    (lp_drain_deadline l = None \<longrightarrow> lp_drain_deadline l' = None \<or> st \<noteq> Running \<or>
       lp_drain_deadline l' = Some (clk_now (po_clock p) + timeout))"
  proof cases
    case exit
    then show ?thesis using assms(1) unfinished_ids [OF assms(1)] by (auto simp: drained_out_def)
  next
    case wait
    then show ?thesis using assms(1) by (auto simp: select_branch_def split: if_splits option.splits)
  next
    case branch
    note B = branch_spec [OF assms(1) branch(2)]
    have sh: "b = ShutdownRequested \<longleftrightarrow> lp_drain_deadline l = None \<and> po_cancelled p"
      using branch(1) select_shutdown by (metis option.inject)
    have dr: "lp_drain_deadline l = Some d \<Longrightarrow> b = DrainTimedOut \<longleftrightarrow> d \<le> clk_now (po_clock p)" for d
      using branch(1) select_drain by (metis option.inject)
    show ?thesis using B sh dr by (cases "b = ShutdownRequested") auto
  qed
  then show "inv (lp_engine l')" "st = Finished \<Longrightarrow> ids (lp_engine l') = {}"
    "lp_drain_deadline l = Some d \<Longrightarrow> lp_drain_deadline l' = Some d \<and> ids (lp_engine l') \<subseteq> ids (lp_engine l)"
    "lp_drain_deadline l = Some d \<Longrightarrow> d \<le> clk_now (po_clock p) \<Longrightarrow> st \<noteq> Running"
    "lp_drain_deadline l = None \<Longrightarrow> po_cancelled p \<Longrightarrow>
       st \<noteq> Running \<or> lp_drain_deadline l' = Some (clk_now (po_clock p) + timeout)"
    "lp_drain_deadline l = None \<Longrightarrow> lp_drain_deadline l' = None \<or> st \<noteq> Running \<or>
       lp_drain_deadline l' = Some (clk_now (po_clock p) + timeout)"
    by blast+
qed

lemma rounds_split:
  assumes "run_rounds core timeout fuel (p # ps) l = Some (st, l')"
  obtains "loop_round core timeout fuel p l = Some (st, l')" "st \<noteq> Running"
    | l1 where "loop_round core timeout fuel p l = Some (Running, l1)" "run_rounds core timeout fuel ps l1 = Some (st, l')"
  using assms by (auto split: option.splits prod.splits loop_status.splits)

lemma rounds_exit:
  assumes "inv (lp_engine l)" "run_rounds core timeout fuel ps l = Some (st, l')"
  shows "inv (lp_engine l') \<and> (st = Finished \<longrightarrow> ids (lp_engine l') = {})"
  using assms
proof (induction ps arbitrary: l)
  case (Cons p ps)
  from Cons.prems(2) show ?case
  proof (cases rule: rounds_split)
    case 1
    then show ?thesis using round_spec(1,2) [OF Cons.prems(1)] by blast
  next
    case (2 l1)
    then show ?thesis using Cons.IH round_spec(1) [OF Cons.prems(1) 2(1)] by blast
  qed
qed auto

lemma rounds_drain:
  assumes "inv (lp_engine l)" "lp_drain_deadline l = Some d" "run_rounds core timeout fuel ps l = Some (st, l')"
  shows "lp_drain_deadline l' = Some d \<and> ids (lp_engine l') \<subseteq> ids (lp_engine l) \<and>
    ((\<exists>p \<in> set ps. d \<le> clk_now (po_clock p)) \<longrightarrow> st \<noteq> Running)"
  using assms
proof (induction ps arbitrary: l)
  case (Cons p ps)
  from Cons.prems(3) show ?case
  proof (cases rule: rounds_split)
    case 1
    then show ?thesis using round_spec(3) [OF Cons.prems(1)] Cons.prems(2) by blast
  next
    case (2 l1)
    note R = round_spec(1,3,4) [OF Cons.prems(1) 2(1)]
    have "\<not> d \<le> clk_now (po_clock p)" using R(3) [OF Cons.prems(2)] by blast
    moreover have "lp_drain_deadline l' = Some d \<and> ids (lp_engine l') \<subseteq> ids (lp_engine l1) \<and>
        ((\<exists>p \<in> set ps. d \<le> clk_now (po_clock p)) \<longrightarrow> st \<noteq> Running)"
      using Cons.IH [OF R(1) _ 2(2)] R(2) [OF Cons.prems(2)] by simp
    ultimately show ?thesis using R(2) [OF Cons.prems(2)] by auto
  qed
qed auto

text \<open>Shutdown ends: once cancelled, the loop is over when a round is polled past the timeout.\<close>

lemma rounds_shutdown:
  assumes "inv (lp_engine l)" "lp_drain_deadline l = None" "run_rounds core timeout fuel ps l = Some (st, l')"
    "sorted (map (\<lambda>p. clk_now (po_clock p)) ps)" "i < j" "j < length ps" "po_cancelled (ps ! i)"
    "clk_now (po_clock (ps ! i)) + timeout \<le> clk_now (po_clock (ps ! j))"
  shows "st \<noteq> Running"
  using assms
proof (induction ps arbitrary: l i j)
  case (Cons p ps)
  from Cons.prems(3) show ?case
  proof (cases rule: rounds_split)
    case (2 l1)
    note R = round_spec(1,5,6) [OF Cons.prems(1) 2(1)]
    obtain j' where j': "j = Suc j'" "j' < length ps" using Cons.prems(5,6) by (cases j) auto
    have first: "clk_now (po_clock p) \<le> clk_now (po_clock ((p # ps) ! i))"
      using Cons.prems(4,5,6) by (cases i) auto
    show ?thesis
    proof (cases "lp_drain_deadline l1")
      case None
      then have "i \<noteq> 0" using R(2) [OF Cons.prems(2)] Cons.prems(7) by (cases i) auto
      then obtain i' where "i = Suc i'" by (cases i) auto
      with j' None Cons.prems Cons.IH [OF R(1) None 2(2), of i' j'] show ?thesis by simp
    next
      case (Some d)
      then have d: "d = clk_now (po_clock p) + timeout" using R(3) [OF Cons.prems(2)] by simp
      then have "d \<le> clk_now (po_clock (ps ! j'))" using Cons.prems(8) first j' by simp
      then have "\<exists>q \<in> set ps. d \<le> clk_now (po_clock q)" using j'(2) nth_mem by blast
      then show ?thesis using rounds_drain [OF R(1) Some 2(2)] by blast
    qed
  qed
qed auto

text \<open>Every run returns with enough fuel, and more fuel does not change the result.\<close>

lemma round_mono:
  assumes "loop_round core timeout fuel p l = Some x" "fuel \<le> fuel'"
  shows "loop_round core timeout fuel' p l = Some x"
proof -
  have b: "run_branch core timeout fuel' p b l = Some x" if "run_branch core timeout fuel p b l = Some x" for b
  proof (cases b)
    case DeadlineReached
    then show ?thesis
      using that step_mono [of fuel "po_clock p" "lp_engine l" _ fuel'] assms(2) by (auto simp: run_branch_def)
  qed (use that in \<open>simp_all add: run_branch_def\<close>)
  show ?thesis
    using assms(1) b unfolding round_eq
    by (cases "select_branch (lp_drain_deadline l) (ec_earliest_deadline core (lp_engine l)) p"; cases "drained_out l") simp_all
qed

lemma round_returns:
  assumes "inv (lp_engine l)"
  shows "\<exists>fuel x. loop_round core timeout fuel p l = Some x"
proof -
  obtain fuel x where "ec_step core fuel (po_clock p) (lp_engine l) = Some x" using step_returns [OF assms] by blast
  then have "loop_round core timeout fuel p l \<noteq> None"
    by (auto simp: loop_round_def run_branch_def split_beta split: option.splits branch.splits)
  then show ?thesis by blast
qed

lemma rounds_mono:
  assumes "run_rounds core timeout fuel ps l = Some x" "fuel \<le> fuel'"
  shows "run_rounds core timeout fuel' ps l = Some x"
  using assms(1)
proof (induction ps arbitrary: l)
  case (Cons p ps)
  then obtain st l1 where r: "loop_round core timeout fuel p l = Some (st, l1)"
    by (auto split: option.splits)
  then show ?case using Cons round_mono [OF r assms(2)] by (cases st) auto
qed auto

lemma rounds_return:
  assumes "inv (lp_engine l)"
  shows "\<exists>fuel x. run_rounds core timeout fuel ps l = Some x"
  using assms
proof (induction ps arbitrary: l)
  case (Cons p ps)
  obtain f1 st l1 where r: "loop_round core timeout f1 p l = Some (st, l1)"
    using round_returns [OF Cons.prems, of timeout p] by auto
  obtain f2 x where r2: "run_rounds core timeout f2 ps l1 = Some x"
    using Cons.IH [OF round_spec(1) [OF Cons.prems r]] by blast
  have "loop_round core timeout (max f1 f2) p l = Some (st, l1)" using round_mono [OF r] by simp
  moreover have "run_rounds core timeout (max f1 f2) ps l1 = Some x" using rounds_mono [OF r2] by simp
  ultimately have "\<exists>x. run_rounds core timeout (max f1 f2) (p # ps) l = Some x" by (cases st) auto
  then show ?case by blast
qed auto

end

section \<open>The simulated engine keeps the contract\<close>

subsection \<open>No new requests without a request input\<close>

lemma queue_ids:
  assumes "next_waiting e = Some (q, rest)"
  shows "set (map (\<lambda>q. req_id (q_request q)) (e_waiting e)) =
    insert (req_id (q_request q)) (set (map (\<lambda>q. req_id (q_request q)) rest))"
proof -
  have "mset (e_waiting e) = add_mset q (mset rest)"
    using assms by (auto simp: next_waiting_def bind_eq_Some_conv dest: vd_remove_mset)
  from arg_cong [OF this, of set_mset] show ?thesis by simp
qed

lemma ids_set:
  "set (all_ids e) = set (bt_keys (e_active e)) \<union> set (bt_keys (e_pending e)) \<union>
     set (map (\<lambda>q. req_id (q_request q)) (e_waiting e))"
  unfolding all_ids_def set_append by (rule Un_assoc [symmetric])

lemma joins_keys:
  "joins request e e' \<Longrightarrow> set (bt_keys (e_active e')) = insert (req_id request) (set (bt_keys (e_active e))) \<and>
     e_pending e' = e_pending e"
  using bt_keys_insert [of "req_id request" _ "e_active e"] unfolding joins_def by metis

lemma parks_keys:
  "parks request e e' \<Longrightarrow> set (bt_keys (e_pending e')) = insert (req_id request) (set (bt_keys (e_pending e))) \<and>
     e_active e' = e_active e"
  using bt_keys_insert [of "req_id request" _ "e_pending e"] unfolding parks_def by metis

lemma admit_ids:
  assumes "core_inv e" "next_waiting e = Some (q, rest)"
  shows "set (all_ids (snd (admit W clk q (e\<lparr>e_waiting := rest\<rparr>)))) \<subseteq> set (all_ids e)"
proof -
  define e' where "e' = snd (admit W clk q (e\<lparr>e_waiting := rest\<rparr>))"
  obtain out pool where c: "cache_prompt (e_pool e) (prompt_of (q_request q)) (request_lora_name (q_request q))
      (req_cache_salt (q_request q)) = (out, pool)" by fastforce
  have S: "e_waiting e' = rest" "joins (q_request q) e e' \<or> parks (q_request q) e e' \<or> fails e e'"
    using admit_shape [OF core_base [OF assms(1)] assms(2) c e'_def] by auto
  from S(2) show ?thesis
    unfolding e'_def [symmetric] ids_set S(1) queue_ids [OF assms(2)]
    by (elim disjE) (use joins_keys [of "q_request q" e e'] parks_keys [of "q_request q" e e'] in \<open>auto simp: fails_def simp del: set_map\<close>)
qed

lemma pull_ids:
  assumes "core_inv e" "bt_get (e_pending e) rid = Some p"
  shows "set (all_ids (snd (admit_direct W clk rid (pp_client p) (pp_queued p) (pp_block_ids p) (pp_num_local_cached p)
    (e\<lparr>e_pending := bt_remove rid (e_pending e)\<rparr>)))) \<subseteq> set (all_ids e)"
proof -
  let ?e = "e\<lparr>e_pending := bt_remove rid (e_pending e)\<rparr>"
  define e' where "e' = snd (admit_direct W clk rid (pp_client p) (pp_queued p) (pp_block_ids p) (pp_num_local_cached p) ?e)"
  have q: "req_id (q_request (pp_queued p)) = rid" using base_invD(7) [OF core_base [OF assms(1)] assms(2)] .
  have S: "e_waiting e' = e_waiting ?e" "joins (q_request (pp_queued p)) ?e e' \<or> fails ?e e'"
    using direct_shape [OF reserved_pulled [OF core_base [OF assms(1)] assms(2)] q e'_def] by auto
  have "rid \<in> set (bt_keys (e_pending e))" using assms(2) bt_get_None_iff [of "e_pending e" rid] by auto
  moreover have "set (bt_keys (bt_remove rid (e_pending e))) \<subseteq> set (bt_keys (e_pending e))" by (auto simp: bt_remove_def)
  ultimately show ?thesis
    using S(2) joins_keys [of "q_request (pp_queued p)" ?e e'] q unfolding e'_def [symmetric] ids_set S(1)
    by (elim disjE) (auto simp: fails_def simp del: set_map)
qed

lemma evolves_ids: "evolves e e' \<Longrightarrow> all_ids e' = all_ids e"
  using pairwise_lists(2) [of "e_active e" "e_active e'"] by (simp add: evolves_def all_ids_def)

lemma flush_ids: "core_inv e \<Longrightarrow> set (all_ids (snd (snd (flush_due t e)))) \<subseteq> set (all_ids e)"
  using flush_shape(1-3) [OF _ refl refl, of e t] by (auto simp: all_ids_def)

lemma withdraw_subset: "core_inv e \<Longrightarrow> set (all_ids (snd (withdraw rid e))) \<subseteq> set (all_ids e)"
  using withdraw_ids(1) [of e rid] arg_cong [of "mset (all_ids e)" _ set_mset] by (fastforce split: if_splits)

lemma stats_ids: "all_ids (snd (scheduler_stats e)) = all_ids e"
  by (simp add: scheduler_stats_def Let_def split_beta all_ids_def)

lemma ids_frame [simp]:
  "all_ids (e\<lparr>e_step := x1\<rparr>) = all_ids e" "all_ids (e\<lparr>e_pending_spec := x2\<rparr>) = all_ids e"
  "all_ids (count_aborted e) = all_ids e" "all_ids (e\<lparr>e_opt := x3\<rparr>) = all_ids e"
  "all_ids (e\<lparr>e_latency := x4\<rparr>) = all_ids e" "all_ids (e\<lparr>e_replies := x5\<rparr>) = all_ids e"
  "all_ids (e\<lparr>e_stats := x6\<rparr>) = all_ids e" "all_ids (e\<lparr>e_loras := x7\<rparr>) = all_ids e"
  "all_ids (count_received e) = all_ids e"
  by (simp_all add: all_ids_def count_aborted_def count_received_def)

interpretation within: engine_batch W "\<lambda>e. core_inv e \<and> set (all_ids e) \<subseteq> S" for W :: "'r world" and S
proof
  fix e :: "'r sim_engine" and t d c n rid m clk q rest p s
  assume e: "core_inv e \<and> set (all_ids e) \<subseteq> S"
  then show "core_inv (compose_step W t e) \<and> set (all_ids (compose_step W t e)) \<subseteq> S"
    using compose_core [of e W t] evolves_ids [OF compose_evolves, of e W t] by simp
  show "core_inv (run_decoder W t d e) \<and> set (all_ids (run_decoder W t d e)) \<subseteq> S"
    using e decoder_core [of e W t d] evolves_ids [OF decoder_evolves, of e W t d] by simp
  show "core_inv (run_chunk W t n c e) \<and> set (all_ids (run_chunk W t n c e)) \<subseteq> S"
    using e chunk_core [of e W t n c] evolves_ids [OF chunk_evolves, of e W t n c] by simp
  show "core_inv (snd (snd (flush_due t e))) \<and> set (all_ids (snd (snd (flush_due t e)))) \<subseteq> S"
    using e flush_core [of e t] flush_ids [of e t] by auto
  show "core_inv (fst (abort_one rid (e, m))) \<and> set (all_ids (fst (abort_one rid (e, m)))) \<subseteq> S"
    using e abort_core [of e rid m] withdraw_subset [of e rid] by (auto simp: abort_one_eq)
next
  show "core_inv (snd (admit W clk q (e\<lparr>e_waiting := rest\<rparr>))) \<and> set (all_ids (snd (admit W clk q (e\<lparr>e_waiting := rest\<rparr>)))) \<subseteq> S"
    if "core_inv e \<and> set (all_ids e) \<subseteq> S" "next_waiting e = Some (q, rest)" for e :: "'r sim_engine" and clk q rest
    using that admit_core [of e q rest W clk] admit_ids [of e q rest W clk] by auto
  show "core_inv (snd (admit_direct W clk rid (pp_client p) (pp_queued p) (pp_block_ids p) (pp_num_local_cached p)
      (e\<lparr>e_pending := bt_remove rid (e_pending e)\<rparr>))) \<and>
    set (all_ids (snd (admit_direct W clk rid (pp_client p) (pp_queued p) (pp_block_ids p) (pp_num_local_cached p)
      (e\<lparr>e_pending := bt_remove rid (e_pending e)\<rparr>)))) \<subseteq> S"
    if "core_inv e \<and> set (all_ids e) \<subseteq> S" "bt_get (e_pending e) rid = Some p" for e :: "'r sim_engine" and clk rid p
    using that pull_core [of e rid p W clk] pull_ids [of e rid p W clk] by auto
qed (auto simp: stats_core stats_ids)

lemma utility_ids: "all_ids (snd (handle_utility clk u e)) = all_ids e"
proof -
  have r: "all_ids (snd (reset_prefix_cache_outputs clk u e)) = all_ids e"
    by (simp add: all_ids_def reset_frame)
  have l: "all_ids (snd (lora_utility_outputs clk u x)) = all_ids x" for x
    by (auto simp: lora_utility_outputs_def Let_def split_beta split: sum.splits)
  show ?thesis
    using r l [of "snd (reset_prefix_cache_outputs clk u e)"]
    by (auto simp: handle_utility_def Let_def split: prod.splits option.splits sum.splits)
qed

lemma patch_ids:
  assumes "core_inv e"
  shows "set (all_ids (snd (apply_patch W clk p e))) \<subseteq> set (all_ids e)"
proof -
  let ?P = "\<lambda>x. core_inv x \<and> set (all_ids x) \<subseteq> set (all_ids e)"
  have P: "?P (ensure_step W (clk_now clk) (snd (schedule W clk (e\<lparr>e_latency := lat, e_opt := o1\<rparr>))))" for lat o1
    by (intro within.ensure_step_pres within.schedule_pres) (simp add: assms)
  then have "set (all_ids (ensure_step W (clk_now clk) (snd (schedule W clk (e\<lparr>e_latency := lat, e_opt := o1\<rparr>))))) \<subseteq>
      set (all_ids e)" for lat o1 by blast
  then show ?thesis
    unfolding apply_patch_def Let_def
    by (cases "if changes_latency p then build_latency (patch_opt p (e_opt e)) else Inr (e_latency e)")
      (simp_all add: split_beta)
qed

lemma control_ids: "core_inv e \<Longrightarrow> set (all_ids (snd (snd (handle_control W clk c e)))) \<subseteq> set (all_ids e)"
proof (cases c)
  case (PatchConfig p)
  then show "core_inv e \<Longrightarrow> ?thesis"
    using patch_ids [of e W clk p] by (cases "apply_patch W clk p e") (auto split: sum.splits)
qed (simp_all add: Let_def)

lemma sim_input_ids:
  fixes e :: "'r sim_engine"
  assumes "core_inv e" "\<forall>request. i \<noteq> InRequest request"
  shows "set (all_ids (snd (handle_input W clk i e))) \<subseteq> set (all_ids e)"
proof (cases i)
  case (InAbort rids)
  then show ?thesis
    using within.abort_requests_pres [of e "set (all_ids e)" W clk rids] assms(1) by (simp add: split_beta)
next
  case (InControl c)
  then show ?thesis using control_ids [OF assms(1), of W clk c] by (simp add: split_beta)
qed (use assms(2) in \<open>auto simp: utility_ids\<close>)

subsection \<open>Fuel\<close>

lemma sim_step_mono: "step W clk fuel e = Some x \<Longrightarrow> fuel \<le> fuel' \<Longrightarrow> step W clk fuel' e = Some x"
  using catch_up_mono [of W clk fuel "e\<lparr>e_pending_spec := None\<rparr>" fuel']
  by (cases "catch_up W clk fuel (e\<lparr>e_pending_spec := None\<rparr>)") (simp_all add: step_def)

subsection \<open>The output chunk size\<close>

definition chunked :: "'r sim_engine \<Rightarrow> bool" where
  "chunked e \<longleftrightarrow> 0 < o_output_token_chunk_size (e_opt e)"

lemma chunked_cong: "e_opt e' = e_opt e \<Longrightarrow> chunked e' = chunked e"
  by (simp add: chunked_def)

interpretation chunk: engine_extension W chunked "\<lambda>_. True" for W :: "'r world"
proof
  fix e :: "'r sim_engine" and clk q rest rid p t e' u
  assume e: "core_inv e" "chunked e"
  show "chunked (snd (admit W clk q (e\<lparr>e_waiting := rest\<rparr>)))" using e(2) by (simp add: chunked_def admit_opt)
  show "chunked (snd (admit_direct W clk rid (pp_client p) (pp_queued p) (pp_block_ids p) (pp_num_local_cached p)
      (e\<lparr>e_pending := bt_remove rid (e_pending e)\<rparr>)))" using e(2) by (simp add: chunked_def admit_direct_opt)
  show "chunked (snd (snd (flush_due t e)))"
    using e flush_shape(4) [OF e(1) refl refl] by (simp add: chunked_def same_settings_def)
  show "chunked (count_aborted (snd (withdraw rid e)))"
    using e withdraw_fields(1) [of e rid] by (simp add: chunked_def same_settings_def count_aborted_def)
  show "chunked e'" if "evolves e e'" using e(2) that by (simp add: chunked_def evolves_def)
qed (auto simp: chunked_def count_received_def count_failed_def count_aborted_def scheduler_stats_def Let_def split_beta
  reset_frame patch_opt_def)

subsection \<open>The interpretation\<close>

definition loop_inv :: "'r sim_engine \<Rightarrow> bool" where
  "loop_inv e \<longleftrightarrow> core_inv e \<and> chunked e"

lemma loop_turn:
  fixes e :: "'r sim_engine"
  shows "engine_turn W (\<lambda>_. True) e e' \<Longrightarrow> loop_inv e \<Longrightarrow> loop_inv e'"
  unfolding loop_inv_def by (rule chunk.extended.turn_pres)

lemma abort_all_ids: "core_inv e \<Longrightarrow> all_ids (snd (abort_all_requests W clk e)) = []"
proof -
  assume e: "core_inv e"
  obtain e1 m where f: "fold abort_one (all_ids e) (e, []) = (e1, m)" by fastforce
  have ids1: "all_ids e1 = []" using abort_fold_all [OF e _ refl f] by (simp add: bt_inv_def)
  have "schedule W clk e1 = ([], e1)" using ids1 by (intro schedule_empty) (simp add: all_ids_def)
  moreover have "all_ids (ensure_step W t (snd (scheduler_stats e1))) = []" for t
    using compose_idle [of "snd (scheduler_stats e1)" W t] ids1 stats_ids [of e1] by (simp add: all_ids_def)
  ultimately show ?thesis
    using f by (simp add: abort_all_requests_def abort_requests_def all_ids_def [symmetric] Let_def split_beta)
qed

interpretation sim: engine_core_contract "sim_core W" loop_inv "\<lambda>e. set (all_ids e)" for W :: "'r world"
proof
  fix e e' :: "'r sim_engine" and clk i ev fuel outs request fuel' x
  assume e: "loop_inv e"
  then have c: "core_inv e" "chunked e" by (simp_all add: loop_inv_def)
  show "loop_inv (snd (ec_handle_input (sim_core W) clk i e))"
    using loop_turn [OF engine_turn.input [OF allowed_any, of W e clk i] e] by simp
  show "loop_inv (snd (ec_on_internal (sim_core W) clk ev e))"
    using loop_turn [OF engine_turn.pull [of W "\<lambda>_. True" e clk "fst ev" "snd ev"] e] by (simp add: split_beta)
  show "loop_inv (snd (ec_abort_all (sim_core W) clk e))"
    using loop_turn [OF engine_turn.abort_all [of W "\<lambda>_. True" e clk] e] by simp
  show "loop_inv (snd (ec_reject (sim_core W) clk request e))"
    using loop_turn [OF engine_turn.reject [of W "\<lambda>_. True" e clk request] e] by simp
  show "ec_num_unfinished (sim_core W) e = 0 \<longleftrightarrow> set (all_ids e) = {}"
    by (auto simp: num_unfinished_requests_def all_ids_def)
  show "set (all_ids (snd (ec_abort_all (sim_core W) clk e))) = {}"
    using abort_all_ids [OF c(1)] by simp
  show "set (all_ids (snd (ec_reject (sim_core W) clk request e))) = set (all_ids e)"
    by (simp add: reject_request_def Let_def)
  show "set (all_ids (snd (ec_on_internal (sim_core W) clk ev e))) \<subseteq> set (all_ids e)"
    using within.finish_pull_pres [of e "set (all_ids e)" W clk "fst ev" "snd ev"] c(1)
    by (simp add: split_beta)
  show "\<exists>fuel x. ec_step (sim_core W) fuel clk e = Some x"
  proof -
    obtain n where "\<forall>m \<ge> n. \<exists>outs e'. step W clk m e = Some (outs, e')"
      using step_total [OF c(1) c(2) [unfolded chunked_def], of W clk] by blast
    then obtain outs e' where "step W clk n e = Some (outs, e')" by blast
    then show ?thesis by auto
  qed
  show "set (all_ids (snd (ec_handle_input (sim_core W) clk i e))) \<subseteq> set (all_ids e)"
    if "\<forall>request. i \<noteq> InRequest request"
    using sim_input_ids [OF c(1) that] by simp
  show "loop_inv e'" if "ec_step (sim_core W) fuel clk e = Some (outs, e')"
  proof -
    have "step W clk fuel e = Some (outs, e')" using that by simp
    from loop_turn [OF engine_turn.wake [OF this] e] show ?thesis .
  qed
  show "set (all_ids e') \<subseteq> set (all_ids e)" if "ec_step (sim_core W) fuel clk e = Some (outs, e')"
    using that c(1) within.step_pres [of e "set (all_ids e)" W clk fuel outs e'] by simp
next
  show "ec_step (sim_core W) fuel' clk e = Some x" if "ec_step (sim_core W) fuel clk e = Some x" "fuel \<le> fuel'"
    for fuel fuel' clk x and e :: "'r sim_engine"
    using that sim_step_mono [of W clk fuel e x fuel'] by simp
qed

section \<open>Properties of the loop\<close>

lemma run_loop_inv: "engine_run W allow cfg e \<Longrightarrow> 0 < o_output_token_chunk_size (e_opt e) \<Longrightarrow> loop_inv e"
  using engine_run_core by (auto simp: loop_inv_def chunked_def)

definition demo_poll :: "nat \<Rightarrow> bool \<Rightarrow> engine_input option option \<Rightarrow> (string \<times> nat result) polled" where
  "demo_poll t cancelled i =
     \<lparr>po_clock = \<lparr>clk_now = t, clk_monotonic = 0\<rparr>, po_cancelled = cancelled, po_input = i, po_internal = None,
      po_output_open = True\<rparr>"

lemma demo_poll_fields [simp]:
  "clk_now (po_clock (demo_poll t c i)) = t" "po_cancelled (demo_poll t c i) = c" "po_input (demo_poll t c i) = i"
  "po_internal (demo_poll t c i) = None" "po_output_open (demo_poll t c i)"
  by (simp_all add: demo_poll_def)

lemma demo_leave:
  obtains l' where "abort_and_leave core (demo_poll t c i) l = (Finished, l')"
proof (cases "ec_abort_all core (po_clock (demo_poll t c i)) (lp_engine l)")
  case (Pair outs e)
  then show ?thesis using that by (cases "outs = []") (simp_all add: abort_and_leave_def send_outputs_def)
qed

text \<open>C14: The loop never drops work silently: however its rounds are polled, when it finishes without an
  error the engine has no running, pulling or queued request left.\<close>

theorem loop_exit_clean:
  assumes "engine_run W allow cfg e" "0 < o_output_token_chunk_size (e_opt e)"
    "run_loop (sim_core W) shutdown_timeout fuel ps e = Some (Finished, l)"
  shows "num_unfinished_requests (lp_engine l) = 0"
proof -
  have "loop_inv (lp_engine l) \<and> set (all_ids (lp_engine l)) = {}"
    using sim.rounds_exit [OF _ assms(3) [unfolded run_loop_def]] run_loop_inv [OF assms(1,2)] by simp
  then show ?thesis by (simp add: num_unfinished_requests_def all_ids_def)
qed

theorem loop_exit_clean_witness:
  "\<exists>l. run_loop (sim_core demo_world) 0 0 [demo_poll 0 True None] demo_busy = Some (Finished, l) \<and>
     num_unfinished_requests demo_busy = 1 \<and> num_unfinished_requests (lp_engine l) = 0"
proof -
  obtain l where l: "run_loop (sim_core demo_world) 0 0 [demo_poll 0 True None] demo_busy = Some (Finished, l)"
  proof -
    obtain l' where "abort_and_leave (sim_core demo_world) (demo_poll 0 True None)
        \<lparr>lp_engine = demo_busy, lp_drain_deadline = None, lp_sent = []\<rparr> = (Finished, l')" by (rule demo_leave)
    then show ?thesis using that by (simp add: run_loop_def loop_round_def select_branch_def run_branch_def)
  qed
  from loop_exit_clean [OF demo_busy_run _ l] l show ?thesis by (simp add: demo_busy_fields demo_opt_fields)
qed

text \<open>C15: A draining loop takes no new work. In a drain every round leaves the deadline alone and never adds
  a request to the engine; a request that arrives before the deadline is answered at once by one
  output with finish reason \<^verbatim>\<open>abort\<close> to its client, and the requests in flight stay as they are.\<close>

theorem drain_takes_no_work:
  assumes "engine_run W allow cfg (lp_engine l)" "0 < o_output_token_chunk_size (e_opt (lp_engine l))"
    "lp_drain_deadline l = Some d" "loop_round (sim_core W) shutdown_timeout fuel p l = Some (st, l')"
  shows "lp_drain_deadline l' = Some d \<and> set (all_ids (lp_engine l')) \<subseteq> set (all_ids (lp_engine l)) \<and>
    (\<forall>request. num_unfinished_requests (lp_engine l) \<noteq> 0 \<and> clk_now (po_clock p) < d \<and>
        po_input p = Some (Some (InRequest request)) \<and> po_output_open p \<longrightarrow>
      st = Running \<and> all_ids (lp_engine l') = all_ids (lp_engine l) \<and>
      lp_sent l' = lp_sent l @ [\<lparr>eo_client = req_client request,
        eo_env = RequestBatch (e_index (lp_engine l)) [request_output (req_id request) [] (Some FAbort)] None
          (clk_monotonic (po_clock p)) (Some [req_id request])\<rparr>])"
proof -
  have "lp_drain_deadline l' = Some d \<and> set (all_ids (lp_engine l')) \<subseteq> set (all_ids (lp_engine l))"
    by (rule sim.round_spec(3) [OF run_loop_inv [OF assms(1,2)] assms(4,3)])
  moreover have "st = Running \<and> all_ids (lp_engine l') = all_ids (lp_engine l) \<and>
      lp_sent l' = lp_sent l @ [\<lparr>eo_client = req_client request,
        eo_env = RequestBatch (e_index (lp_engine l)) [request_output (req_id request) [] (Some FAbort)] None
          (clk_monotonic (po_clock p)) (Some [req_id request])\<rparr>]"
    if "num_unfinished_requests (lp_engine l) \<noteq> 0" "clk_now (po_clock p) < d"
      "po_input p = Some (Some (InRequest request))" "po_output_open p" for request
    using assms(3,4) that
    by (auto simp: loop_round_def select_branch_def run_branch_def on_input_def send_outputs_def
        reject_request_def empty_finish_outputs_def count_received_def count_aborted_def Let_def)
  ultimately show ?thesis by blast
qed

theorem drain_takes_no_work_witness:
  "\<exists>l'. loop_round (sim_core demo_world) 9 0 (demo_poll 3 False (Some (Some (InRequest (demo_request ''b'' 1)))))
      \<lparr>lp_engine = demo_busy, lp_drain_deadline = Some 9, lp_sent = []\<rparr> = Some (Running, l') \<and>
    all_ids (lp_engine l') = [''a-0''] \<and> length (lp_sent l') = 1"
proof -
  let ?p = "demo_poll 3 False (Some (Some (InRequest (demo_request ''b'' 1))))"
  let ?l = "\<lparr>lp_engine = demo_busy, lp_drain_deadline = Some 9, lp_sent = []\<rparr>"
  obtain st l' where r: "loop_round (sim_core demo_world) 9 0 ?p ?l = Some (st, l')"
    by (cases "loop_round (sim_core demo_world) 9 0 ?p ?l")
      (auto simp: loop_round_def select_branch_def run_branch_def split: if_splits)
  have "clk_now (po_clock ?p) < 9" "po_input ?p = Some (Some (InRequest (demo_request ''b'' 1)))" "po_output_open ?p"
    by simp_all
  with drain_takes_no_work [OF _ _ _ r, of "\<lambda>_. True" demo_opt 9] demo_busy_run r show ?thesis
    by (auto simp: demo_busy_fields demo_opt_fields all_ids_def)
qed

text \<open>C16: Shutdown ends. With a clock that does not run backwards, once a round sees the shutdown request the
  loop is over, finished or failed, by any round polled at least the shutdown timeout later, whatever
  arrives meanwhile.\<close>

theorem shutdown_ends:
  assumes "engine_run W allow cfg e" "0 < o_output_token_chunk_size (e_opt e)"
    "run_loop (sim_core W) shutdown_timeout fuel ps e = Some (st, l)"
    "sorted (map (\<lambda>p. clk_now (po_clock p)) ps)" "i < j" "j < length ps" "po_cancelled (ps ! i)"
    "clk_now (po_clock (ps ! i)) + shutdown_timeout \<le> clk_now (po_clock (ps ! j))"
  shows "st \<noteq> Running"
  using sim.rounds_shutdown [OF _ _ assms(3) [unfolded run_loop_def] assms(4-8)] run_loop_inv [OF assms(1,2)] by simp



theorem shutdown_ends_witness:
  "\<exists>fuel st l. run_loop (sim_core demo_world) 5 fuel [demo_poll 0 True None, demo_poll 5 False None] demo_busy =
     Some (st, l) \<and> st \<noteq> Running"
proof -
  obtain st l where r: "run_loop (sim_core demo_world) 5 0 [demo_poll 0 True None, demo_poll 5 False None] demo_busy =
      Some (st, l)"
  proof -
    obtain l' where "abort_and_leave (sim_core demo_world) (demo_poll 5 False None)
        \<lparr>lp_engine = demo_busy, lp_drain_deadline = Some 5, lp_sent = []\<rparr> = (Finished, l')" by (rule demo_leave)
    then show ?thesis
      using that by (simp add: run_loop_def loop_round_def select_branch_def run_branch_def demo_busy_fields)
  qed
  have "st \<noteq> Running"
    by (rule shutdown_ends [OF demo_busy_run _ r, of 0 1]) (simp_all add: demo_busy_fields demo_opt_fields)
  with r show ?thesis by blast
qed

end
