(* ===== verification/Cache_Examples.thy ===== *)
theory Cache_Examples
  imports Cache_Prompt
begin

text \<open>
  Concrete block pools: the witnesses of the properties of \<^verbatim>\<open>Cache_Prompt\<close>, evaluated on a
  pool of four one-token blocks, and a run of ordinary calls that reaches a miss-hit-miss
  pattern.
\<close>

section \<open>Witnesses\<close>

text \<open>A request on a pool of four one-token blocks.\<close>

definition pool_ex :: block_pool where
  "pool_ex = snd (cache_prompt (new_pool 1 4 0) [7, 8] None None)"

lemma pool_ex_inv: "pool_inv pool_ex"
  unfolding pool_ex_def by (rule cache_prompt_inv [OF new_pool_inv])

theorem pool_slots_conserved_witness: "used_blocks pool_ex + length (free_slots pool_ex) = max 4 1"
  unfolding pool_ex_def
  using pool_slots_conserved [OF pool_reachable.step [OF pool_reachable.start pool_step.cache],
      of 1 4 0 "[7, 8]" None None] by blast

theorem cache_prompt_pins_witness:
  "\<exists>out p'. cache_prompt pool_ex [7, 9] None None = (out, p') \<and> keeps_pins pool_ex p'"
proof -
  obtain out p' where e: "cache_prompt pool_ex [7, 9] None None = (out, p')" by fastforce
  show ?thesis using e cache_prompt_pins [OF pool_ex_inv e] by blast
qed

lemma chain_ex: "prompt_chain (new_pool 1 4 0) [7, 8] None None 0 \<noteq> prompt_chain (new_pool 1 4 0) [7, 8] None None 1"
  by code_simp

theorem cache_then_unpin_witness:
  "\<exists>out p'. cache_prompt (new_pool 1 4 0) [7, 8] None None = (out, p') \<and>
     refs (unpin (block_ids out) p') 0 = refs (new_pool 1 4 0) 0"
proof -
  obtain out p' where e: "cache_prompt (new_pool 1 4 0) [7, 8] None None = (out, p')" by fastforce
  have n: "n_blocks (new_pool 1 4 0) [7, 8] = 2" by code_simp
  have "inj_on (prompt_chain (new_pool 1 4 0) [7, 8] None None) {0..<n_blocks (new_pool 1 4 0) [7, 8]}"
    unfolding n using chain_ex by (auto simp: inj_on_def less_2_cases_iff)
  then show ?thesis using e cache_then_unpin [OF new_pool_inv e] by blast
qed

theorem cache_prompt_prefix_hit_witness:
  "num_cached_tokens (fst (cache_prompt pool_ex [7, 9] None None)) =
     prefix_len (keys pool_ex) (prompt_chain pool_ex [7, 9] None None) (n_blocks pool_ex [7, 9]) *
     block_size pool_ex"
  by (rule cache_prompt_prefix_hit [OF pool_ex_inv])

theorem cache_prompt_again_hits_witness:
  "\<exists>out p' out2 p2. cache_prompt (new_pool 1 4 0) [7, 8] None None = (out, p') \<and>
     cache_prompt (unpin (block_ids out) p') [7, 8] None None = (out2, p2) \<and> events out2 = []"
proof -
  obtain out p' where e: "cache_prompt (new_pool 1 4 0) [7, 8] None None = (out, p')" by fastforce
  obtain out2 p2 where e2: "cache_prompt (unpin (block_ids out) p') [7, 8] None None = (out2, p2)"
    by fastforce
  have "length (block_ids (fst (cache_prompt (new_pool 1 4 0) [7, 8] None None))) =
      n_blocks (new_pool 1 4 0) [7, 8]" by code_simp
  then have "length (block_ids out) = n_blocks (new_pool 1 4 0) [7, 8]" using e by simp
  then show ?thesis using e e2 cache_prompt_again_hits [OF new_pool_inv e _ e2] by blast
qed

theorem events_mirror_cache_witness:
  "apply_events (keys pool_ex) (events (fst (cache_prompt pool_ex [7, 9] None None))) =
     keys (snd (cache_prompt pool_ex [7, 9] None None))"
  using events_mirror_cache [OF pool_ex_inv] by blast

theorem cache_prompt_event_shape_witness:
  "\<exists>e \<in> set (events (fst (cache_prompt (new_pool 1 4 0) [7, 8] None None))).
     (\<exists>v. e = Removed [v]) \<or> (\<exists>a b. a < b \<and> b \<le> n_blocks (new_pool 1 4 0) [7, 8])"
proof -
  have "length (events (fst (cache_prompt (new_pool 1 4 0) [7, 8] None None))) = 1" by code_simp
  then obtain e where e: "e \<in> set (events (fst (cache_prompt (new_pool 1 4 0) [7, 8] None None)))"
    by (metis length_pos_if_in_set list.set_intros(1) neq_Nil_conv nat_neq_iff zero_less_one length_0_conv zero_neq_one)
  then show ?thesis using cache_prompt_event_shape [OF new_pool_inv e] by blast
qed

theorem allocate_slot_evicts_lru_witness:
  "allocate_slot pool_ex = None \<longleftrightarrow>
     free_slots pool_ex = [] \<and> (\<forall>h s. bt_get (cached pool_ex) h = Some s \<longrightarrow> 0 < refcnt s)"
  using allocate_slot_evicts_lru [OF pool_ex_inv] by blast

section \<open>A hole in the middle of a chain\<close>

text \<open>
  The comment in \<^verbatim>\<open>cache_prompt\<close> calls a miss-hit-miss pattern likely unreachable under
  global LRU eviction. It is reachable when a block older than the whole chain is pinned while
  the chain's head and tail are evicted, and is released before the prompt returns.
\<close>

definition hole_pool :: block_pool where
  "hole_pool =
     (let p = snd (cache_prompt (new_pool 1 4 0) [1] None None);
          p = unpin [1, 2, 3] (snd (cache_prompt p [10, 11, 12] None None));
          p = unpin [1, 2] (snd (cache_prompt p [10, 11] None None));
          p = snd (cache_prompt p [20] None None);
          p = snd (cache_prompt p [21] None None)
      in unpin [3] (unpin [0] p))"

lemma hole_pool_reachable: "pool_reachable 1 4 0 hole_pool"
  unfolding hole_pool_def Let_def
  by (intro pool_reachable.step [OF _ pool_step.unpin] pool_reachable.step [OF _ pool_step.cache]
      pool_reachable.start)

text \<open>A miss-hit-miss pattern is reachable with the code's own eviction policy: from a new pool,
  ordinary calls lead to a state in which one prompt of three blocks misses, hits and misses,
  and \<^verbatim>\<open>cache_prompt\<close> emits two separate stored runs for it.\<close>

theorem mid_chain_hole_reachable:
  "\<exists>p. pool_reachable 1 4 0 p \<and>
     length (filter is_Stored (events (fst (cache_prompt p [10, 11, 12] None None)))) = 2"
proof -
  have "length (filter is_Stored (events (fst (cache_prompt hole_pool [10, 11, 12] None None)))) = 2"
    by code_simp
  then show ?thesis using hole_pool_reachable by blast
qed

end
