(* ===== verification/Latency_Props.thy ===== *)
theory Latency_Props
  imports Latency
begin

text \<open>
  Properties of the latency models: buckets partition their domain, sampled delays stay inside
  the documented bounds, draws interpolate between recorded samples, and the nearest-cell
  search is exact.
\<close>

section \<open>Buckets\<close>

lemma bucket_scan_spec:
  assumes "sorted_wrt (<) (pre @ edges)" "pre \<noteq> []" "last pre \<le> v" "i = length pre"
    "bucket = length pre - 1"
  shows "bucket_scan v bucket i edges < length (pre @ edges) \<and>
    (pre @ edges) ! bucket_scan v bucket i edges \<le> v \<and>
    (Suc (bucket_scan v bucket i edges) < length (pre @ edges) \<longrightarrow>
      v < (pre @ edges) ! Suc (bucket_scan v bucket i edges))"
  using assms
proof (induction edges arbitrary: pre i bucket)
  case Nil
  then show ?case by (cases pre rule: rev_cases) (auto simp: nth_append)
next
  case (Cons e es)
  show ?case
  proof (cases "v \<ge> e")
    case True
    then show ?thesis
      using Cons.IH [of "pre @ [e]" "Suc i" i] Cons.prems by simp
  next
    case False
    then show ?thesis using Cons.prems
      by (cases pre rule: rev_cases) (auto simp: nth_append)
  qed
qed

text \<open>A prompt length falls into the bucket whose edge it reaches and whose successor's edge it
  does not reach; the last bucket is uncapped.\<close>

theorem prompt_bucket_edges:
  "prompt_bucket v < NUM_PROMPT_BUCKETS \<and> PROMPT_EDGES ! prompt_bucket v \<le> v \<and>
   (Suc (prompt_bucket v) < NUM_PROMPT_BUCKETS \<longrightarrow> v < PROMPT_EDGES ! Suc (prompt_bucket v))"
  using bucket_scan_spec [of "[0]" "tl PROMPT_EDGES" v 1 0]
  by (simp add: prompt_bucket_def PROMPT_EDGES_def NUM_PROMPT_BUCKETS_def)

theorem prompt_bucket_edges_witness: "prompt_bucket 100 = 1 \<and> 100 < PROMPT_EDGES ! 2"
  using prompt_bucket_edges [of 100] by (simp add: prompt_bucket_def PROMPT_EDGES_def NUM_PROMPT_BUCKETS_def)

lemma concurrency_bucket_less: "concurrency_bucket c < NUM_CONCURRENCY_BUCKETS"
proof (cases "position (\<lambda>(lo, hi). lo \<le> c \<and> c \<le> hi) CONCURRENCY_RANGES")
  case (Some i)
  then show ?thesis using position_Some [OF Some]
    by (simp add: concurrency_bucket_def NUM_CONCURRENCY_BUCKETS_def CONCURRENCY_RANGES_def)
qed (simp add: concurrency_bucket_def NUM_CONCURRENCY_BUCKETS_def)

text \<open>Every positive 64-bit concurrency lies in the range of its bucket, and in no other range.\<close>

theorem concurrency_bucket_range:
  assumes "1 \<le> c" "c < 2 ^ 64" "i < length CONCURRENCY_RANGES"
  shows "(fst (CONCURRENCY_RANGES ! i) \<le> c \<and> c \<le> snd (CONCURRENCY_RANGES ! i)) \<longleftrightarrow> i = concurrency_bucket c"
proof -
  have "i \<in> {0, 1, 2, 3, 4, 5, 6, 7}" using assms(3) by (simp add: CONCURRENCY_RANGES_def) arith
  then show ?thesis
    using assms(1,2) by (auto simp: CONCURRENCY_RANGES_def concurrency_bucket_def NUM_CONCURRENCY_BUCKETS_def
        split: if_splits)
qed

theorem concurrency_bucket_range_witness: "concurrency_bucket 6 = 2"
  using concurrency_bucket_range [of 6 2] by (simp add: CONCURRENCY_RANGES_def)

section \<open>The knob model\<close>

lemma f64_as_u64_mono: "x \<le> y \<Longrightarrow> f64_as_u64 x \<le> f64_as_u64 y"
  unfolding f64_as_u64_def by (intro min.mono nat_mono floor_mono) auto

lemma f64_as_u64_nat [simp]: "n < 2 ^ 64 \<Longrightarrow> f64_as_u64 (real n) = n"
  by (simp add: f64_as_u64_def)

lemma f64_clamp_bounds: "lo \<le> hi \<Longrightarrow> lo \<le> f64_clamp x lo hi \<and> f64_clamp x lo hi \<le> hi"
  by (auto simp: f64_clamp_def)

lemma f64_clamp_id: "lo \<le> x \<Longrightarrow> x \<le> hi \<Longrightarrow> f64_clamp x lo hi = x"
  by (simp add: f64_clamp_def)

lemma truncated_bounds:
  "f64_as_u64 (3 / 10 * real mean) \<le> fst (random_norm_truncated ops rng mean sd) \<and>
   fst (random_norm_truncated ops rng mean sd) \<le> f64_as_u64 (17 / 10 * real mean)"
  using f64_clamp_bounds [of "3 / 10 * real mean" "17 / 10 * real mean"]
  by (simp add: random_norm_truncated_def split_beta f64_as_u64_mono)

lemma truncated_exact:
  "mean < 2 ^ 64 \<Longrightarrow> random_norm_truncated ops rng mean 0 = (mean, rng)"
  by (simp add: random_norm_truncated_def random_norm_def f64_clamp_id)

text \<open>The inter-token delay of the knob model is within 30 and 170 percent of the load-scaled
  mean whatever the generator returns, and with no deviation it is the mean exactly and the
  generator is not touched; with no load effect the mean is the configured latency.\<close>

theorem knob_inter_token_bounds:
  fixes k :: knob_latency and ops :: "'r rng_ops"
  defines "mean n \<equiv> scale (kl_inter_token_latency k) (load_factor k n)"
  shows "from_millis (f64_as_u64 (3 / 10 * real (mean n))) \<le> fst (knob_inter_token_delay ops k rng n) \<and>
    fst (knob_inter_token_delay ops k rng n) \<le> from_millis (f64_as_u64 (17 / 10 * real (mean n))) \<and>
    (kl_inter_token_latency_std_dev k = 0 \<longrightarrow>
       knob_inter_token_delay ops k rng n = (from_millis (mean n), rng)) \<and>
    (kl_time_factor_under_load k = 1 \<and> kl_inter_token_latency k < 2 ^ 64 \<longrightarrow>
       mean n = kl_inter_token_latency k)"
proof -
  have lt: "mean n < 2 ^ 64" by (simp add: mean_def scale_def f64_as_u64_def min_less_iff_disj)
  show ?thesis
    using truncated_bounds [of "mean n" ops rng "kl_inter_token_latency_std_dev k"]
      truncated_exact [OF lt, of ops rng]
    by (auto simp: knob_inter_token_delay_def Let_def split_beta from_millis_def mean_def
        scale_def load_factor_def)
qed

definition example_knobs :: knob_latency where
  "example_knobs = \<lparr>kl_time_to_first_token = 0, kl_time_to_first_token_std_dev = 0,
     kl_inter_token_latency = 20, kl_inter_token_latency_std_dev = 0, kl_prefill_overhead = 5,
     kl_prefill_time_per_token = 1, kl_prefill_time_std_dev = 0, kl_kv_cache_transfer_latency = 0,
     kl_kv_cache_transfer_latency_std_dev = 0, kl_kv_cache_transfer_time_per_token = 0,
     kl_kv_cache_transfer_time_std_dev = 0, kl_time_factor_under_load = 1, kl_max_num_seqs = 4\<rparr>"

theorem knob_inter_token_bounds_witness:
  "knob_inter_token_delay counter_rng example_knobs 0 3 = (20000000, 0)"
  using knob_inter_token_bounds [of example_knobs 3 counter_rng 0]
  by (simp add: example_knobs_def from_millis_def)

text \<open>Inside the configured concurrency the load factor lies between one and the configured
  factor, and it reaches that factor at the configured concurrency.\<close>

theorem load_factor_range:
  assumes "1 \<le> kl_time_factor_under_load k" "n \<le> kl_max_num_seqs k"
  shows "1 \<le> load_factor k n \<and> load_factor k n \<le> kl_time_factor_under_load k \<and>
    (1 < kl_max_num_seqs k \<and> n = kl_max_num_seqs k \<longrightarrow> load_factor k n = kl_time_factor_under_load k)"
proof (cases "kl_max_num_seqs k \<le> 1")
  case False
  let ?f = "kl_time_factor_under_load k - 1" and ?q = "real (n - 1) / real (kl_max_num_seqs k - 1)"
  have e: "load_factor k n = 1 + ?f * ?q" using False by (simp add: load_factor_def)
  have q: "0 \<le> ?q" "?q \<le> 1" using False assms(2) by (auto simp: divide_le_eq)
  have "0 \<le> ?f * ?q" using assms(1) q(1) by (intro mult_nonneg_nonneg) simp_all
  moreover have "?f * ?q \<le> ?f" using assms(1) q(2) by (intro mult_left_le) simp_all
  moreover have "?q = 1" if "n = kl_max_num_seqs k" using False that by simp
  ultimately show ?thesis unfolding e by auto
qed (use assms in \<open>simp add: load_factor_def\<close>)

theorem load_factor_range_witness:
  "load_factor (example_knobs\<lparr>kl_time_factor_under_load := 3\<rparr>) 4 = 3"
  using load_factor_range [of "example_knobs\<lparr>kl_time_factor_under_load := 3\<rparr>" 4] by (simp add: example_knobs_def)

text \<open>The load factor is not capped at the configured factor: with more requests in flight than
  the configured concurrency (requests that only drain emissions still count as running) it exceeds it.\<close>

theorem load_factor_exceeds:
  assumes "1 < kl_time_factor_under_load k" "1 < kl_max_num_seqs k" "kl_max_num_seqs k < n"
  shows "kl_time_factor_under_load k < load_factor k n"
proof -
  have "1 < real (n - 1) / real (kl_max_num_seqs k - 1)" using assms by (simp add: less_divide_eq)
  then have "(kl_time_factor_under_load k - 1) * 1 <
      (kl_time_factor_under_load k - 1) * (real (n - 1) / real (kl_max_num_seqs k - 1))"
    using assms(1) by (intro mult_strict_left_mono) auto
  then show ?thesis using assms(2) by (simp add: load_factor_def)
qed

theorem load_factor_exceeds_witness:
  "3 < load_factor (example_knobs\<lparr>kl_time_factor_under_load := 3\<rparr>) 5"
  using load_factor_exceeds [of "example_knobs\<lparr>kl_time_factor_under_load := 3\<rparr>" 5] by (simp add: example_knobs_def)

section \<open>Draws from recorded samples\<close>

text \<open>What \<^verbatim>\<open>rng.random::<f64>()\<close> documents: values in the half-open unit interval.\<close>

definition unit_draws :: "'r rng_ops \<Rightarrow> bool" where
  "unit_draws ops \<longleftrightarrow> (\<forall>rng. 0 \<le> fst (rnd_f64 ops rng) \<and> fst (rnd_f64 ops rng) < 1)"

lemma counter_unit_draws: "unit_draws counter_rng"
  by (simp add: unit_draws_def counter_rng_def)

lemma cdf_position:
  fixes n :: nat
  assumes "0 \<le> u" "u < 1" "1 < n"
  defines "pos \<equiv> u * real (n - 1)"
  shows "nat \<lfloor>pos\<rfloor> + 1 < n \<and> 0 \<le> pos - real (nat \<lfloor>pos\<rfloor>) \<and> pos - real (nat \<lfloor>pos\<rfloor>) < 1"
proof -
  have pos: "0 \<le> pos" "pos < real (n - 1)" using assms by (auto simp: pos_def mult_less_cancel_right1)
  then have "\<lfloor>pos\<rfloor> < int (n - 1)" by (simp add: floor_less_iff)
  then have "nat \<lfloor>pos\<rfloor> < n - 1" using pos(1) by linarith
  moreover have "real (nat \<lfloor>pos\<rfloor>) = of_int \<lfloor>pos\<rfloor>" using pos(1) by simp
  ultimately show ?thesis using floor_correct [of pos] by linarith
qed

lemma interpolation_bounds:
  fixes a b t :: real
  assumes "lo \<le> a" "lo \<le> b" "a \<le> hi" "b \<le> hi" "0 \<le> t" "t \<le> 1"
  shows "lo \<le> a * (1 - t) + b * t \<and> a * (1 - t) + b * t \<le> hi"
proof -
  have "lo * (1 - t) + lo * t \<le> a * (1 - t) + b * t"
    using assms by (intro add_mono mult_right_mono) auto
  moreover have "a * (1 - t) + b * t \<le> hi * (1 - t) + hi * t"
    using assms by (intro add_mono mult_right_mono) auto
  ultimately show ?thesis by (simp add: algebra_simps)
qed

lemma inverse_cdf_bounds:
  assumes "unit_draws ops" "samples \<noteq> []" "\<forall>x \<in> set samples. lo \<le> x \<and> x \<le> hi"
  shows "lo \<le> fst (sample_inverse_cdf ops rng samples) \<and> fst (sample_inverse_cdf ops rng samples) \<le> hi"
proof (cases "length samples = 1")
  case True
  then show ?thesis using assms(2,3) by (simp add: sample_inverse_cdf_def)
next
  case False
  then have n: "1 < length samples" using assms(2) by (cases samples) auto
  define pos where "pos = fst (rnd_f64 ops rng) * real (length samples - 1)"
  define i where "i = nat \<lfloor>pos\<rfloor>"
  have p: "i + 1 < length samples" "0 \<le> pos - real i" "pos - real i < 1"
    using cdf_position [of "fst (rnd_f64 ops rng)" "length samples"] assms(1) n
    unfolding unit_draws_def pos_def [symmetric] i_def [symmetric] by auto
  have "fst (sample_inverse_cdf ops rng samples) =
      samples ! i * (1 - (pos - real i)) + samples ! (i + 1) * (pos - real i)"
    using False p(1) min_absorb1 [of "i + 1" "length samples - 1"]
    unfolding sample_inverse_cdf_def Let_def split_beta pos_def [symmetric] i_def [symmetric]
    by simp
  then show ?thesis
    using interpolation_bounds [of lo "samples ! i" "samples ! (i + 1)" hi "pos - real i"] p assms(3)
    by simp
qed

text \<open>A decode step drawn from a donor has a gap between the donor's smallest and largest
  recorded gap, and delivers a chunk size the donor actually recorded.\<close>

theorem step_draw_recorded:
  assumes "unit_draws ops" "steps \<noteq> []" "\<forall>x \<in> set steps. lo \<le> fst x \<and> fst x \<le> hi"
  shows "lo \<le> fst (fst (sample_step_inverse_cdf ops rng steps)) \<and>
    fst (fst (sample_step_inverse_cdf ops rng steps)) \<le> hi \<and>
    snd (fst (sample_step_inverse_cdf ops rng steps)) \<in> snd ` set steps"
proof (cases "length steps = 1")
  case True
  then show ?thesis using assms(2,3) by (simp add: sample_step_inverse_cdf_def)
next
  case False
  then have n: "1 < length steps" using assms(2) by (cases steps) auto
  define pos where "pos = fst (rnd_f64 ops rng) * real (length steps - 1)"
  define i where "i = nat \<lfloor>pos\<rfloor>"
  let ?t = "pos - real i"
  have p: "i + 1 < length steps" "0 \<le> ?t" "?t < 1"
    using cdf_position [of "fst (rnd_f64 ops rng)" "length steps"] assms(1) n
    unfolding unit_draws_def pos_def [symmetric] i_def [symmetric] by auto
  have mem: "steps ! i \<in> set steps" "steps ! (i + 1) \<in> set steps" using p(1) by simp_all
  have "fst (sample_step_inverse_cdf ops rng steps) =
      (fst (steps ! i) * (1 - ?t) + fst (steps ! (i + 1)) * ?t,
       if ?t < 1 / 2 then snd (steps ! i) else snd (steps ! (i + 1)))"
    using False p(1) min_absorb1 [of "i + 1" "length steps - 1"]
    unfolding sample_step_inverse_cdf_def Let_def split_beta pos_def [symmetric] i_def [symmetric]
    by simp
  then show ?thesis
    using interpolation_bounds [of lo "fst (steps ! i)" "fst (steps ! (i + 1))" hi ?t] p mem assms(3)
    by auto
qed

theorem step_draw_recorded_witness:
  "snd (fst (sample_step_inverse_cdf counter_rng 0 [(3, 1), (5, 4)])) \<in> {1, 4}"
  using step_draw_recorded [OF counter_unit_draws, of "[(3, 1), (5, 4)]" 3 5 0] by simp

section \<open>Nearest cells\<close>

text \<open>The rank of a cell: its distance, ties broken by the distance of its prompt bucket.\<close>

definition cell_rank :: "nat \<Rightarrow> nat \<Rightarrow> nat \<times> nat \<times> 'a \<Rightarrow> nat \<times> nat" where
  "cell_rank pb cb c =
     (abs_diff (fst c) pb + abs_diff (fst (snd c)) cb, abs_diff (fst c) pb)"

definition rank_le :: "nat \<times> nat \<Rightarrow> nat \<times> nat \<Rightarrow> bool" where
  "rank_le a b \<longleftrightarrow> fst a < fst b \<or> (fst a = fst b \<and> snd a \<le> snd b)"

lemma rank_le_trans: "rank_le a b \<Longrightarrow> rank_le b c \<Longrightarrow> rank_le a c"
  by (auto simp: rank_le_def)

lemma rank_le_refl [simp]: "rank_le a a"
  by (simp add: rank_le_def)

definition scan_cell :: "nat \<Rightarrow> nat \<Rightarrow> ('a \<Rightarrow> bool) \<Rightarrow> nat \<times> nat \<times> 'a \<Rightarrow>
    (nat \<times> nat \<times> 'a) option \<Rightarrow> (nat \<times> nat \<times> 'a) option" where
  "scan_cell pb cb has_data = (\<lambda>(pr, ci, cell) best.
     if \<not> has_data cell then best
     else closer best (abs_diff pr pb + abs_diff ci cb) (abs_diff pr pb) cell)"

lemma scan_cell_fold:
  assumes "case best of None \<Rightarrow> True | Some (d, p, cell) \<Rightarrow>
      \<exists>c \<in> set seen. has_data (snd (snd c)) \<and> cell = snd (snd c) \<and> (d, p) = cell_rank pb cb c \<and>
        (\<forall>c' \<in> set seen. has_data (snd (snd c')) \<longrightarrow> rank_le (d, p) (cell_rank pb cb c'))"
    and "best = None \<Longrightarrow> \<forall>c \<in> set seen. \<not> has_data (snd (snd c))"
  shows "case fold (scan_cell pb cb has_data) cs best of
      None \<Rightarrow> \<forall>c \<in> set (seen @ cs). \<not> has_data (snd (snd c))
    | Some (d, p, cell) \<Rightarrow>
        \<exists>c \<in> set (seen @ cs). has_data (snd (snd c)) \<and> cell = snd (snd c) \<and> (d, p) = cell_rank pb cb c \<and>
          (\<forall>c' \<in> set (seen @ cs). has_data (snd (snd c')) \<longrightarrow> rank_le (d, p) (cell_rank pb cb c'))"
  using assms
proof (induction cs arbitrary: best seen)
  case Nil
  then show ?case by (auto split: option.splits)
next
  case (Cons c cs)
  let ?b = "scan_cell pb cb has_data c best"
  have b: "case ?b of None \<Rightarrow> True | Some (d, p, cell) \<Rightarrow>
      \<exists>x \<in> set (seen @ [c]). has_data (snd (snd x)) \<and> cell = snd (snd x) \<and> (d, p) = cell_rank pb cb x \<and>
        (\<forall>c' \<in> set (seen @ [c]). has_data (snd (snd c')) \<longrightarrow> rank_le (d, p) (cell_rank pb cb c'))"
  proof (cases "has_data (snd (snd c))")
    case False
    then have "?b = best" by (simp add: scan_cell_def split_beta)
    with False Cons.prems(1) show ?thesis by (auto split: option.splits)
  next
    case True
    show ?thesis
    proof (cases best)
      case None
      with True Cons.prems(2) show ?thesis
        by (auto simp: scan_cell_def closer_def split_beta cell_rank_def)
    next
      case (Some e)
      obtain d p cell where e: "e = (d, p, cell)" by (cases e)
      from Cons.prems(1) Some e obtain x where x: "x \<in> set seen" "has_data (snd (snd x))" "cell = snd (snd x)"
        "(d, p) = cell_rank pb cb x" "\<forall>c' \<in> set seen. has_data (snd (snd c')) \<longrightarrow> rank_le (d, p) (cell_rank pb cb c')"
        by auto
      show ?thesis
      proof (cases "rank_le (d, p) (cell_rank pb cb c)")
        case True
        then have "?b = best" using Some e
          by (auto simp: scan_cell_def closer_def split_beta cell_rank_def rank_le_def)
        with Some e x True show ?thesis by auto
      next
        case False
        then have l: "rank_le (cell_rank pb cb c) (d, p)" by (auto simp: rank_le_def)
        from False have "?b = Some (fst (cell_rank pb cb c), snd (cell_rank pb cb c), snd (snd c))" using Some e True
          by (auto simp: scan_cell_def closer_def split_beta cell_rank_def rank_le_def)
        with x(5) l True show ?thesis by (auto intro: rank_le_trans)
      qed
    qed
  qed
  have none: "?b = None \<Longrightarrow> \<forall>x \<in> set (seen @ [c]). \<not> has_data (snd (snd x))"
    using Cons.prems(2) by (auto simp: scan_cell_def closer_def split_beta split: if_splits option.splits)
  have "(seen @ [c]) @ cs = seen @ c # cs" "fold (scan_cell pb cb has_data) (c # cs) best =
      fold (scan_cell pb cb has_data) cs ?b" by simp_all
  with Cons.IH [OF b none] show ?case by (simp only:)
qed

lemma grid_cells_mem:
  "(pr, ci, cell) \<in> set (grid_cells grid) \<longleftrightarrow> pr < length grid \<and> ci < length (grid ! pr) \<and> cell = grid ! pr ! ci"
  by (force simp: grid_cells_def in_set_enumerate_eq)

text \<open>The nearest-cell search returns a cell with data at the least Manhattan distance, preferring
  the closer prompt bucket on ties, and returns nothing only when no cell has data.\<close>

theorem nearest_grid_cell_exact:
  "case nearest_grid_cell grid pb cb has_data of
     None \<Rightarrow> \<forall>pr < length grid. \<forall>ci < length (grid ! pr). \<not> has_data (grid ! pr ! ci)
   | Some cell \<Rightarrow> \<exists>pr < length grid. \<exists>ci < length (grid ! pr). cell = grid ! pr ! ci \<and> has_data cell \<and>
       (\<forall>pr' < length grid. \<forall>ci' < length (grid ! pr'). has_data (grid ! pr' ! ci') \<longrightarrow>
          rank_le (cell_rank pb cb (pr, ci, cell)) (cell_rank pb cb (pr', ci', grid ! pr' ! ci')))"
proof (cases "pb < length grid \<and> cb < length (grid ! pb) \<and> has_data (grid ! pb ! cb)")
  case True
  have "rank_le (cell_rank pb cb (pb, cb, grid ! pb ! cb)) r" for r
    by (cases "fst r") (simp_all add: cell_rank_def abs_diff_def rank_le_def)
  with True show ?thesis by (simp add: nearest_grid_cell_def) blast
next
  case False
  let ?r = "fold (scan_cell pb cb has_data) (grid_cells grid) None"
  have n: "nearest_grid_cell grid pb cb has_data = map_option (\<lambda>(_, _, cell). cell) ?r"
    using False unfolding nearest_grid_cell_def scan_cell_def by auto
  have s: "case ?r of None \<Rightarrow> \<forall>c \<in> set (grid_cells grid). \<not> has_data (snd (snd c))
    | Some (d, p, cell) \<Rightarrow>
        \<exists>c \<in> set (grid_cells grid). has_data (snd (snd c)) \<and> cell = snd (snd c) \<and> (d, p) = cell_rank pb cb c \<and>
          (\<forall>c' \<in> set (grid_cells grid). has_data (snd (snd c')) \<longrightarrow> rank_le (d, p) (cell_rank pb cb c'))"
    using scan_cell_fold [where best = None and seen = "[]" and cs = "grid_cells grid" and pb = pb and cb = cb
        and has_data = has_data, unfolded append_Nil] by simp
  show ?thesis
  proof (cases ?r)
    case None
    with s have "\<not> has_data x" if "(pr, ci, x) \<in> set (grid_cells grid)" for pr ci x using that by fastforce
    then show ?thesis using None n by (simp add: grid_cells_mem)
  next
    case (Some e)
    with s obtain c where c: "c \<in> set (grid_cells grid)" "has_data (snd (snd c))" "snd (snd e) = snd (snd c)"
      "\<forall>c' \<in> set (grid_cells grid). has_data (snd (snd c')) \<longrightarrow> rank_le (cell_rank pb cb c) (cell_rank pb cb c')"
      by (cases e) auto
    have cell: "nearest_grid_cell grid pb cb has_data = Some (snd (snd c))"
      using n Some c(3) by (simp add: split_beta)
    obtain pr ci x where p: "c = (pr, ci, x)" by (cases c)
    then have g: "pr < length grid" "ci < length (grid ! pr)" "x = grid ! pr ! ci"
      using c(1) grid_cells_mem [of pr ci x grid] by simp_all
    have "\<forall>pr' < length grid. \<forall>ci' < length (grid ! pr'). has_data (grid ! pr' ! ci') \<longrightarrow>
          rank_le (cell_rank pb cb (pr, ci, x)) (cell_rank pb cb (pr', ci', grid ! pr' ! ci'))"
      using c(4) p grid_cells_mem by fastforce
    then show ?thesis using g c(2) p unfolding cell by auto
  qed
qed

theorem nearest_grid_cell_exact_witness:
  "nearest_grid_cell [[False, True], [False, False]] 1 0 (\<lambda>x. x) = Some True"
  using nearest_grid_cell_exact [where grid = "[[False, True], [False, False]]" and pb = 1 and cb = 0 and has_data = "\<lambda>x. x"]
  by (auto simp: nearest_grid_cell_def grid_cells_def closer_def)

end
