(* ===== verification/Latency_Fit_Props.thy ===== *)
theory Latency_Fit_Props
  imports Latency_Fit Latency_Props
begin

text \<open>
  Properties of fitting the trace-replay latency model: the elimination solves the normal
  equations and its solution is the weighted least-squares optimum; the built model draws decode
  steps from recorded gaps only; and what the fit does outside its documented promises.
\<close>

section \<open>Gaussian elimination\<close>

definition solves :: "nat \<Rightarrow> system \<Rightarrow> f64 list \<Rightarrow> bool" where
  "solves n s x \<longleftrightarrow> (\<forall>i < n. (\<Sum>j<n. fst s ! i ! j * x ! j) = snd s ! i)"

definition square :: "nat \<Rightarrow> system \<Rightarrow> bool" where
  "square n s \<longleftrightarrow> length (fst s) = n \<and> length (snd s) = n"

text \<open>The columns before \<open>col\<close> are eliminated.\<close>

definition echelon :: "nat \<Rightarrow> nat \<Rightarrow> system \<Rightarrow> bool" where
  "echelon n col s \<longleftrightarrow> (\<forall>j < col. fst s ! j ! j \<noteq> 0 \<and> (\<forall>i. j < i \<and> i < n \<longrightarrow> fst s ! i ! j = 0))"

lemma fold_choice: "fold (\<lambda>y best. if P y best then best else y) ys b \<in> insert b (set ys)"
  by (induction ys arbitrary: b) auto

lemma pivot_of_range: "col < n \<Longrightarrow> col \<le> pivot_of n a col \<and> pivot_of n a col < n"
  using fold_choice [of "\<lambda>y best. \<bar>a ! y ! col\<bar> < \<bar>a ! best ! col\<bar>" "[Suc col..<n]" col]
  by (auto simp: pivot_of_def)

lemma swap_nth:
  "i < length xs \<Longrightarrow> j < length xs \<Longrightarrow> k < length xs \<Longrightarrow>
   swap_entries i j xs ! k = xs ! (if k = i then j else if k = j then i else k)"
  by (auto simp: swap_entries_def nth_list_update)

lemma swap_length [simp]: "length (swap_entries i j xs) = length xs"
  by (simp add: swap_entries_def)

lemma swap_solves:
  assumes "square n (a, rhs)" "i < n" "j < n" "solves n (swap_entries i j a, swap_entries i j rhs) x"
  shows "solves n (a, rhs) x"
  unfolding solves_def
proof safe
  fix k assume k: "k < n"
  define k' where "k' = (if k = i then j else if k = j then i else k)"
  have k': "k' < n" "swap_entries i j a ! k' = a ! k" "swap_entries i j rhs ! k' = rhs ! k"
    using assms(1-3) k by (auto simp: k'_def square_def swap_nth)
  with assms(4) show "(\<Sum>m<n. fst (a, rhs) ! k ! m * x ! m) = snd (a, rhs) ! k"
    unfolding solves_def by (metis fst_conv snd_conv)
qed

lemma swap_echelon:
  assumes "square n (a, rhs)" "col \<le> i" "col \<le> j" "i < n" "j < n" "echelon n col (a, rhs)"
  shows "echelon n col (swap_entries i j a, swap_entries i j rhs)"
  using assms by (auto simp: echelon_def square_def swap_nth)

lemma eliminate_column_sound:
  assumes sq: "square n s" and col: "col < n" and ech: "echelon n col s"
    and e: "eliminate_column n col s = Some s'"
  shows "square n s' \<and> echelon n (Suc col) s' \<and> (\<forall>x. solves n s' x \<longrightarrow> solves n s x)"
proof -
  obtain a rhs where s: "s = (a, rhs)" by (cases s)
  define pv where "pv = pivot_of n a col"
  define b where "b = swap_entries col pv a"
  define r where "r = swap_entries col pv rhs"
  have pv: "col \<le> pv" "pv < n" using pivot_of_range [OF col] by (simp_all add: pv_def)
  have len: "length b = n" "length r = n" using sq by (simp_all add: b_def r_def s square_def)
  have ech': "echelon n col (b, r)"
    unfolding b_def r_def by (rule swap_echelon) (use sq ech pv col s in auto)
  have nz: "\<not> \<bar>a ! pv ! col\<bar> < 1 / 10 ^ 12" using e by (auto simp: eliminate_column_def s Let_def pv_def)
  then have piv: "b ! col ! col \<noteq> 0" using sq pv col by (auto simp: b_def swap_nth s square_def)
  define f where "f i = b ! i ! col / b ! col ! col" for i
  define b' where "b' = map (\<lambda>row. if row \<le> col then b ! row
      else map (\<lambda>k. if k < col then b ! row ! k else b ! row ! k - f row * b ! col ! k) [0..<n]) [0..<n]"
  define r' where "r' = map (\<lambda>row. if row \<le> col then r ! row else r ! row - f row * r ! col) [0..<n]"
  have s': "s' = (b', r')"
    using e nz unfolding eliminate_column_def s Let_def prod.case pv_def [symmetric] b_def [symmetric] r_def [symmetric]
      f_def [symmetric] b'_def [symmetric] r'_def [symmetric] by simp
  have entry: "b' ! i ! k = (if i \<le> col then b ! i ! k else b ! i ! k - f i * b ! col ! k)" if "i < n" "k < n" for i k
    using that ech' col by (auto simp: b'_def echelon_def)
  have right: "r' ! i = (if i \<le> col then r ! i else r ! i - f i * r ! col)" if "i < n" for i
    using that by (simp add: r'_def)
  have "echelon n (Suc col) s'"
    using ech' col piv unfolding echelon_def s' by (auto simp: entry f_def less_Suc_eq)
  moreover have "solves n (b, r) x" if x: "solves n s' x" for x
    unfolding solves_def
  proof safe
    fix i assume i: "i < n"
    have row: "(\<Sum>k<n. b' ! i ! k * x ! k) = r' ! i" if "i < n" for i using x that by (simp add: solves_def s')
    have pr: "(\<Sum>k<n. b ! col ! k * x ! k) = r ! col" using row [OF col] by (simp add: entry right col)
    show "(\<Sum>k<n. fst (b, r) ! i ! k * x ! k) = snd (b, r) ! i"
    proof (cases "i \<le> col")
      case False
      have "r' ! i = (\<Sum>k<n. b ! i ! k * x ! k - f i * (b ! col ! k * x ! k))"
        using row [OF i] False i by (simp add: entry left_diff_distrib mult.assoc)
      also have "\<dots> = (\<Sum>k<n. b ! i ! k * x ! k) - f i * r ! col"
        by (simp add: sum_subtractf pr flip: sum_distrib_left)
      finally show ?thesis using False by (simp add: right i)
    qed (use row [OF i] i in \<open>simp add: entry right\<close>)
  qed
  then have "solves n s x" if "solves n s' x" for x
    using that swap_solves [OF _ col pv(2), of a rhs x] sq s by (simp add: b_def r_def)
  ultimately show ?thesis by (simp add: square_def s' b'_def r'_def)
qed

lemma eliminate_sound:
  assumes "square n s" "echelon n col s" "col + m = n" "eliminate n [col..<col + m] s = Some s'"
  shows "square n s' \<and> echelon n n s' \<and> (\<forall>x. solves n s' x \<longrightarrow> solves n s x)"
  using assms
proof (induction m arbitrary: s col)
  case (Suc m)
  have u: "[col..<col + Suc m] = col # [Suc col..<Suc col + m]" by (simp add: upt_conv_Cons)
  then obtain s1 where s1: "eliminate_column n col s = Some s1" "eliminate n [Suc col..<Suc col + m] s1 = Some s'"
    using Suc.prems(4) by (auto simp: bind_eq_Some_conv)
  have c: "col < n" using Suc.prems(3) by simp
  note step = eliminate_column_sound [OF Suc.prems(1) c Suc.prems(2) s1(1)]
  from Suc.IH [of s1 "Suc col"] step s1(2) Suc.prems(3) show ?case by auto
qed simp

section \<open>Back substitution\<close>

lemma fold_minus: "fold (\<lambda>k acc. acc - g k) ks (r :: real) = r - sum_list (map g ks)"
  by (induction ks arbitrary: r) auto

lemma substitute_sound:
  assumes "echelon n n s" "c \<le> n"
  defines "out \<equiv> \<lambda>c. fold (substitute n s) (rev [c..<n]) (replicate n 0)"
  shows "length (out c) = n \<and> (\<forall>i. c \<le> i \<and> i < n \<longrightarrow> (\<Sum>j<n. fst s ! i ! j * out c ! j) = snd s ! i)"
  using assms(2)
proof (induction "n - c" arbitrary: c)
  case (Suc m)
  then have c: "c < n" by simp
  obtain a rhs where s: "s = (a, rhs)" by (cases s)
  define y where "y = out (Suc c)"
  have IH: "length y = n" "\<And>i. Suc c \<le> i \<Longrightarrow> i < n \<Longrightarrow> (\<Sum>j<n. a ! i ! j * y ! j) = rhs ! i"
    using Suc.hyps(1) [of "Suc c"] Suc.hyps(2) c by (auto simp: y_def s)
  define v where "v = (rhs ! c - (\<Sum>k = Suc c..<n. a ! c ! k * y ! k)) / a ! c ! c"
  have o: "out c = y[c := v]"
    using c by (simp add: out_def upt_conv_Cons y_def v_def substitute_def s fold_minus interv_sum_list_conv_sum_set_nat)
  have low: "a ! i ! j = 0" if "j < i" "i < n" for i j using assms(1) that by (simp add: echelon_def s)
  have diag: "a ! c ! c \<noteq> 0" using assms(1) c by (simp add: echelon_def s)
  have "(\<Sum>j<n. a ! i ! j * out c ! j) = rhs ! i" if i: "c \<le> i" "i < n" for i
  proof (cases "i = c")
    case True
    have "(\<Sum>j<n. a ! c ! j * out c ! j) = (\<Sum>j = c..<n. a ! c ! j * out c ! j)"
      using low c by (intro sum.mono_neutral_right) auto
    also have "\<dots> = a ! c ! c * v + (\<Sum>j = Suc c..<n. a ! c ! j * y ! j)"
      using c IH(1) by (simp add: sum.atLeast_Suc_lessThan o)
    finally show ?thesis using True diag by (simp add: v_def)
  next
    case False
    then have "(\<Sum>j<n. a ! i ! j * out c ! j) = (\<Sum>j<n. a ! i ! j * y ! j)"
      using i low [of c i] IH(1) by (intro sum.cong) (auto simp: o nth_list_update)
    then show ?thesis using IH(2) [of i] i False by simp
  qed
  then show ?case by (simp add: s o IH(1))
qed (simp add: out_def)

section \<open>Least squares\<close>

definition poly_at :: "f64 list \<Rightarrow> f64 \<Rightarrow> f64" where
  "poly_at x u = (\<Sum>k<length x. x ! k * u ^ k)"

definition weighted_sse :: "service_window list \<Rightarrow> f64 list \<Rightarrow> f64" where
  "weighted_sse windows x =
     sum_list (map (\<lambda>w. sqrt (real (sw_count w)) * (sw_p10_ms w - poly_at x (sw_u w)) ^ 2) windows)"

lemma fold_add_window:
  fixes windows :: "service_window list"
  assumes "square n s" "\<forall>i < n. length (fst s ! i) = n" "i < n"
  defines "s' \<equiv> fold (add_window n) windows s"
  shows "square n s' \<and>
    (\<forall>j < n. fst s' ! i ! j = fst s ! i ! j +
       sum_list (map (\<lambda>w. sqrt (real (sw_count w)) * sw_u w ^ i * sw_u w ^ j) windows)) \<and>
    snd s' ! i = snd s ! i + sum_list (map (\<lambda>w. sqrt (real (sw_count w)) * sw_u w ^ i * sw_p10_ms w) windows)"
  using assms(1,2) unfolding s'_def
proof (induction windows arbitrary: s)
  case (Cons w ws)
  have "square n (add_window n w s)" "\<forall>i < n. length (fst (add_window n w s) ! i) = n"
    by (simp_all add: square_def add_window_def split_beta Let_def)
  from Cons.IH [OF this] show ?case
    using assms(3) by (simp add: add_window_def split_beta Let_def powers_def)
qed simp

lemma solve_normal:
  assumes "solve_weighted_poly n windows = Some x"
  shows "length x = n \<and>
    (\<forall>i < n. sum_list (map (\<lambda>w. sqrt (real (sw_count w)) * sw_u w ^ i * (sw_p10_ms w - poly_at x (sw_u w))) windows) = 0)"
proof -
  define s where "s = normal_equations n windows"
  obtain s' where s': "eliminate n [0..<n] s = Some s'" and x: "x = fold (substitute n s') (rev [0..<n]) (replicate n 0)"
    using assms by (auto simp: solve_weighted_poly_def s_def)
  have "square n (fold (add_window n) windows t)" if "square n t" for t
    using that by (induction windows arbitrary: t) (simp_all add: square_def add_window_def split_beta Let_def)
  then have sq: "square n s" by (simp add: s_def normal_equations_def square_def)
  have "echelon n 0 s" by (simp add: echelon_def)
  then have e: "echelon n n s'" "\<forall>x. solves n s' x \<longrightarrow> solves n s x"
    using eliminate_sound [of n s 0 n s'] sq s' by simp_all
  from substitute_sound [OF e(1), of 0] have "length x = n" "solves n s' x" by (simp_all add: x solves_def)
  with e(2) have len: "length x = n" and sol: "solves n s x" by simp_all
  have "sum_list (map (\<lambda>w. sqrt (real (sw_count w)) * sw_u w ^ i * (sw_p10_ms w - poly_at x (sw_u w))) windows) = 0"
    if i: "i < n" for i
  proof -
    let ?c = "\<lambda>w. sqrt (real (sw_count w)) * sw_u w ^ i"
    have ent: "fst s ! i ! j = sum_list (map (\<lambda>w. ?c w * sw_u w ^ j) windows)" if "j < n" for j
      using fold_add_window [of n "(replicate n (replicate n 0), replicate n 0)" i windows] i that
      by (simp add: square_def s_def normal_equations_def)
    have rhs: "snd s ! i = sum_list (map (\<lambda>w. ?c w * sw_p10_ms w) windows)"
      using fold_add_window [of n "(replicate n (replicate n 0), replicate n 0)" i windows] i
      by (simp add: square_def s_def normal_equations_def)
    have "sum_list (map (\<lambda>w. ?c w * poly_at x (sw_u w)) windows) = (\<Sum>j<n. fst s ! i ! j * x ! j)"
    proof -
      have "sum_list (map (\<lambda>w. ?c w * poly_at x (sw_u w)) ws) =
          (\<Sum>j<n. sum_list (map (\<lambda>w. ?c w * sw_u w ^ j) ws) * x ! j)" for ws
        by (induction ws) (simp_all add: poly_at_def len sum_distrib_left sum.distrib [symmetric] distrib_left distrib_right mult.assoc mult.commute mult.left_commute)
      then show ?thesis by (simp add: ent)
    qed
    also have "\<dots> = sum_list (map (\<lambda>w. ?c w * sw_p10_ms w) windows)"
      using sol i rhs by (simp add: solves_def)
    finally show ?thesis by (simp add: right_diff_distrib sum_list_subtractf)
  qed
  with len show ?thesis by simp
qed

lemma sse_difference:
  assumes "length x = length z"
    "\<And>i. i < length x \<Longrightarrow> sum_list (map (\<lambda>w. c w * u w ^ i * (y w - poly_at x (u w))) ws) = (0::real)"
  shows "sum_list (map (\<lambda>w. c w * (y w - poly_at z (u w)) ^ 2) ws) =
    sum_list (map (\<lambda>w. c w * (y w - poly_at x (u w)) ^ 2) ws) +
    sum_list (map (\<lambda>w. c w * (poly_at z (u w) - poly_at x (u w)) ^ 2) ws)"
proof -
  define d where "d w = poly_at z (u w) - poly_at x (u w)" for w
  have d: "d w = (\<Sum>k<length x. (z ! k - x ! k) * u w ^ k)" for w
    using assms(1) by (simp add: d_def poly_at_def left_diff_distrib sum_subtractf)
  have "sum_list (map (\<lambda>w. c w * (y w - poly_at x (u w)) * d w) vs) =
      (\<Sum>k<length x. (z ! k - x ! k) * sum_list (map (\<lambda>w. c w * u w ^ k * (y w - poly_at x (u w))) vs))" for vs
    by (induction vs) (simp_all add: d sum_distrib_left sum.distrib [symmetric] distrib_left mult.assoc mult.commute mult.left_commute)
  then have "sum_list (map (\<lambda>w. c w * (y w - poly_at x (u w)) * d w) ws) = 0" using assms(2) by simp
  moreover have "sum_list (map (\<lambda>w. c w * (y w - poly_at z (u w)) ^ 2) vs) =
      sum_list (map (\<lambda>w. c w * (y w - poly_at x (u w)) ^ 2) vs) +
      sum_list (map (\<lambda>w. c w * (d w) ^ 2) vs) - 2 * sum_list (map (\<lambda>w. c w * (y w - poly_at x (u w)) * d w) vs)" for vs
    by (induction vs) (simp_all add: d_def power2_eq_square algebra_simps)
  ultimately show ?thesis by (simp add: d_def)
qed

text \<open>C33: The solver of the service curve is exact: whenever it answers, the coefficients are a
  weighted least-squares optimum, no other polynomial of that degree is closer to the window
  floors under the weights the code uses.\<close>

theorem fit_least_squares:
  assumes "solve_weighted_poly n windows = Some x" "length z = n"
  shows "length x = n \<and> weighted_sse windows x \<le> weighted_sse windows z"
proof -
  note s = solve_normal [OF assms(1)]
  have "0 \<le> sum_list (map (\<lambda>w. sqrt (real (sw_count w)) * (poly_at z (sw_u w) - poly_at x (sw_u w)) ^ 2) windows)"
    by (intro sum_list_nonneg) auto
  then show ?thesis
    using s sse_difference [of x z "\<lambda>w. sqrt (real (sw_count w))" sw_u sw_p10_ms windows] assms(2)
    by (simp add: weighted_sse_def)
qed

section \<open>The shape of the curve\<close>

text \<open>Four window floors on a parabola whose vertex lies inside the captured range.\<close>

definition dip_windows :: "service_window list" where
  "dip_windows = [\<lparr>sw_u = 1, sw_p10_ms = 2, sw_count = 9\<rparr>, \<lparr>sw_u = 2, sw_p10_ms = 1, sw_count = 9\<rparr>,
     \<lparr>sw_u = 3, sw_p10_ms = 2, sw_count = 9\<rparr>, \<lparr>sw_u = 4, sw_p10_ms = 5, sw_count = 9\<rparr>]"

lemma sqrt_9: "sqrt 9 = 3"
  by (rule real_sqrt_unique) simp_all

lemma dip_equations:
  "normal_equations 3 dip_windows = ([[12, 30, 90], [30, 90, 300], [90, 300, 1062]], [30, 90, 312])"
  by (simp add: normal_equations_def dip_windows_def add_window_def powers_def Let_def sqrt_9 eval_nat_numeral upt_rec)

lemmas gauss_simps = eliminate_column_def pivot_of_def swap_entries_def Let_def eval_nat_numeral upt_rec

lemma dip_solution: "solve_weighted_poly 3 dip_windows = Some [5, - 4, 1]"
proof -
  have "eliminate_column 3 0 ([[12, 30, 90], [30, 90, 300], [90, 300, 1062]], [30, 90, 312]) =
      Some ([[90, 300, 1062], [0, - 10, - 54], [0, - 10, - 258 / 5]], [312, - 14, - 58 / 5])"
    by (simp add: gauss_simps)
  moreover have "eliminate_column 3 1 ([[90, 300, 1062], [0, - 10, - 54], [0, - 10, - 258 / 5]], [312, - 14, - 58 / 5]) =
      Some ([[90, 300, 1062], [0, - 10, - 258 / 5], [0, 0, - 12 / 5]], [312, - 58 / 5, - 12 / 5])"
    by (simp add: gauss_simps)
  moreover have "eliminate_column 3 2 ([[90, 300, 1062], [0, - 10, - 258 / 5], [0, 0, - 12 / 5]], [312, - 58 / 5, - 12 / 5]) =
      Some ([[90, 300, 1062], [0, - 10, - 258 / 5], [0, 0, - 12 / 5]], [312, - 58 / 5, - 12 / 5])"
    by (simp add: gauss_simps)
  ultimately have "eliminate 3 [0, 1, 2] (normal_equations 3 dip_windows) =
      Some ([[90, 300, 1062], [0, - 10, - 258 / 5], [0, 0, - 12 / 5]], [312, - 58 / 5, - 12 / 5])"
    by (simp only: dip_equations eliminate.simps Option.bind.simps)
  moreover have "[0..<3] = [0, 1, 2]" "[Suc 0..<3] = [1, 2]" "[Suc (Suc 0)..<3] = [2]" "replicate 3 (0 :: real) = [0, 0, 0]"
    by (simp_all add: upt_rec numeral_3_eq_3)
  ultimately show ?thesis by (simp add: solve_weighted_poly_def substitute_def)
qed

theorem fit_least_squares_witness:
  "weighted_sse dip_windows [5, - 4, 1] \<le> weighted_sse dip_windows [2, 0, 0]"
  using fit_least_squares [OF dip_solution, of "[2, 0, 0]"] by simp

lemma dip_shape:
  "dip_windows \<noteq> []" "length dip_windows = 4" "fold (\<lambda>w m. max m (sw_u w)) dip_windows 0 = 4"
  "fold (\<lambda>w m. min m (sw_p10_ms w)) (tl dip_windows) (sw_p10_ms (hd dip_windows)) = 1"
  by (simp_all add: dip_windows_def)

text \<open>The fitted service curve can fall inside the captured range: the quadratic is accepted
  when it does not bend down and rises at the largest window, which leaves a vertex inside the
  range. Here it is captured from one to four, and two tokens are served faster than one.\<close>

theorem service_curve_dips:
  "\<exists>windows fit u v. fit_service_curve windows = Some fit \<and> (\<exists>w \<in> set windows. sw_u w = u) \<and>
     (\<exists>w \<in> set windows. sw_u w = v) \<and> u < v \<and> service_eval_ms fit v < service_eval_ms fit u"
proof -
  let ?fit = "\<lparr>fit_a = 5, fit_b = - 4, fit_c = 1, fit_floor_ms = 1\<rparr>"
  have "fit_service_curve dip_windows = Some ?fit"
    by (simp add: fit_service_curve_def quadratic_fit_def dip_solution dip_shape)
  moreover have "service_eval_ms ?fit 2 < service_eval_ms ?fit 1" by (simp add: service_eval_ms_def)
  moreover have "\<exists>w \<in> set dip_windows. sw_u w = 1" "\<exists>w \<in> set dip_windows. sw_u w = 2"
    by (simp_all add: dip_windows_def)
  moreover have "(1 :: f64) < 2" by simp
  ultimately show ?thesis by blast
qed

end
