(* ===== verification/Latency_Fit_Model.thy ===== *)
theory Latency_Fit_Model
  imports Latency_Fit_Props
begin

text \<open>
  Properties of the model built from a latency trace: which traces are accepted, that its decode
  steps stay within the recorded gaps over a whole request, and how far its nearest-cell
  fallback may reach.
\<close>

section \<open>Grids\<close>

definition grid_shape :: "nat \<Rightarrow> 'a list list \<Rightarrow> bool" where
  "grid_shape rows grid \<longleftrightarrow> length grid = rows \<and> (\<forall>i < rows. length (grid ! i) = NUM_CONCURRENCY_BUCKETS)"

abbreviation grid_all :: "('a \<Rightarrow> bool) \<Rightarrow> 'a list list \<Rightarrow> bool" where
  "grid_all P grid \<equiv> \<forall>row \<in> set grid. \<forall>cell \<in> set row. P cell"

lemma grid_shape_update [simp]: "grid_shape rows (update_cell i j f grid) = grid_shape rows grid"
proof (cases "i < length grid")
  case True
  then show ?thesis by (auto simp: grid_shape_def update_cell_def nth_list_update split: if_splits)
qed (simp add: update_cell_def list_update_beyond)

lemma grid_shape_nth: "grid_shape rows grid \<Longrightarrow> i < rows \<Longrightarrow> length (grid ! i) = NUM_CONCURRENCY_BUCKETS"
  by (simp add: grid_shape_def)

lemma update_cell_nth:
  assumes "grid_shape rows grid" "i < rows" "j < NUM_CONCURRENCY_BUCKETS" "k < rows" "l < NUM_CONCURRENCY_BUCKETS"
  shows "update_cell i j f grid ! k ! l = (if k = i \<and> l = j then f (grid ! i ! j) else grid ! k ! l)"
  using assms grid_shape_nth [OF assms(1,2)] by (auto simp: update_cell_def grid_shape_def nth_list_update)

lemma ball_update: "\<forall>x \<in> set xs. P x \<Longrightarrow> P v \<Longrightarrow> \<forall>x \<in> set (xs[i := v]). P x"
  using set_update_subset_insert [of xs i v] by blast

lemma grid_all_update:
  assumes "grid_shape rows grid" "i < rows" "j < NUM_CONCURRENCY_BUCKETS" "grid_all P grid"
    "P (grid ! i ! j) \<Longrightarrow> P (f (grid ! i ! j))"
  shows "grid_all P (update_cell i j f grid)"
proof -
  have i: "grid ! i \<in> set grid" using assms(1,2) by (simp add: grid_shape_def)
  have "grid ! i ! j \<in> set (grid ! i)" using grid_shape_nth [OF assms(1,2)] assms(3) by simp
  then have "P (f (grid ! i ! j))" using assms(4,5) i by blast
  then show ?thesis
    unfolding update_cell_def using assms(4) i by (intro ball_update) blast+
qed

lemma bucket_ranges [simp]:
  "prompt_bucket n < NUM_PROMPT_BUCKETS" "concurrency_bucket n < NUM_CONCURRENCY_BUCKETS"
  "prompt_bucket n + cell_offset ch < 2 * NUM_PROMPT_BUCKETS"
proof -
  show p: "prompt_bucket n < NUM_PROMPT_BUCKETS" using prompt_bucket_edges [of n] by blast
  show "concurrency_bucket n < NUM_CONCURRENCY_BUCKETS" by (rule concurrency_bucket_less)
  show "prompt_bucket n + cell_offset ch < 2 * NUM_PROMPT_BUCKETS" using p by (cases ch) simp_all
qed

section \<open>What the accumulated state holds\<close>

text \<open>The gaps a record contributes.\<close>

definition record_gaps :: "trace_record \<Rightarrow> f64 list" where
  "record_gaps r =
     (case tr_itl_ms r of
        Some itls \<Rightarrow> itls
      | None \<Rightarrow> (case tr_itl_summary r of None \<Rightarrow> [] | Some s \<Rightarrow> replicate (itl_count s) (mean_ms s)))"

definition donor_ok :: "f64 set \<Rightarrow> donor_bucket \<Rightarrow> bool" where
  "donor_ok G b \<longleftrightarrow> (\<forall>d \<in> set (db_donors b). dn_steps d \<noteq> [] \<and> fst ` set (dn_steps d) \<subseteq> G)"

definition fit_ok :: "f64 set \<Rightarrow> fit_state \<Rightarrow> bool" where
  "fit_ok G st \<longleftrightarrow>
     grid_shape (2 * NUM_PROMPT_BUCKETS) (fs_donors st) \<and> grid_shape NUM_PROMPT_BUCKETS (fs_stalls st) \<and>
     length (fs_itls st) = NUM_CONCURRENCY_BUCKETS \<and>
     grid_all (donor_ok G) (fs_donors st) \<and> grid_all (\<lambda>c. set c \<subseteq> G) (fs_stalls st) \<and>
     (\<forall>samples \<in> set (fs_itls st). set samples \<subseteq> G)"

lemma empty_fit_ok: "fit_ok G empty_fit"
  by (auto simp: fit_ok_def empty_fit_def grid_shape_def donor_ok_def default_bucket_def)

lemma fit_ok_itls:
  assumes "fit_ok G st" "set gaps \<subseteq> G"
  shows "fit_ok G (st\<lparr>fs_itls := (fs_itls st)[cb := fs_itls st ! cb @ gaps]\<rparr>)"
proof (cases "cb < length (fs_itls st)")
  case True
  then have "set (fs_itls st ! cb) \<subseteq> G" using assms(1) by (simp add: fit_ok_def)
  then have "\<forall>samples \<in> set ((fs_itls st)[cb := fs_itls st ! cb @ gaps]). set samples \<subseteq> G"
    using assms by (auto simp: fit_ok_def dest!: set_update_subset_insert [THEN subsetD])
  then show ?thesis using assms(1) by (simp add: fit_ok_def)
qed (use assms in \<open>simp add: list_update_beyond\<close>)

lemma fit_ok_push:
  assumes "fit_ok G st" "pb < 2 * NUM_PROMPT_BUCKETS" "cb < NUM_CONCURRENCY_BUCKETS" "steps \<noteq> []" "fst ` set steps \<subseteq> G"
  shows "fit_ok G (st\<lparr>fs_donors := update_cell pb cb (db_push \<lparr>dn_steps = steps\<rparr> weight) (fs_donors st)\<rparr>)"
proof -
  have g: "grid_shape (2 * NUM_PROMPT_BUCKETS) (fs_donors st)" "grid_all (donor_ok G) (fs_donors st)"
    using assms(1) by (simp_all add: fit_ok_def)
  have "grid_all (donor_ok G) (update_cell pb cb (db_push \<lparr>dn_steps = steps\<rparr> weight) (fs_donors st))"
    using assms(4,5) by (intro grid_all_update [OF g(1) assms(2,3) g(2)]) (simp add: donor_ok_def db_push_def)
  then show ?thesis using assms(1) g(1) by (simp add: fit_ok_def)
qed

lemma fit_ok_donate:
  assumes "fit_ok G st" "pb < 2 * NUM_PROMPT_BUCKETS" "cb < NUM_CONCURRENCY_BUCKETS" "fst ` set steps \<subseteq> G"
  shows "fit_ok G (donate pb cb steps st)"
proof (cases "steps = []")
  case False
  then show ?thesis using fit_ok_push [OF assms(1-3) False assms(4)] assms(1) by (simp add: donate_def Let_def)
qed (use assms in \<open>simp add: donate_def\<close>)

lemma cut_steps_subset: "set (cut_steps b steps) \<subseteq> set steps"
  by (auto simp: cut_steps_def Let_def dest: in_set_takeD)

lemma fit_ok_stall:
  assumes "fit_ok G st" "pb < NUM_PROMPT_BUCKETS" "cb < NUM_CONCURRENCY_BUCKETS" "g \<in> G"
  shows "fit_ok G (st\<lparr>fs_stalls := update_cell pb cb (\<lambda>c. c @ [g]) (fs_stalls st)\<rparr>)"
proof -
  have s: "grid_shape NUM_PROMPT_BUCKETS (fs_stalls st)" "grid_all (\<lambda>c. set c \<subseteq> G) (fs_stalls st)"
    using assms(1) by (simp_all add: fit_ok_def)
  have "grid_all (\<lambda>c. set c \<subseteq> G) (update_cell pb cb (\<lambda>c. c @ [g]) (fs_stalls st))"
    using assms(4) by (intro grid_all_update [OF s(1) assms(2,3) s(2)]) simp
  then show ?thesis using assms(1) s(1) by (simp add: fit_ok_def)
qed

lemma fit_ok_stalls:
  assumes "fit_ok G st" "cb < NUM_CONCURRENCY_BUCKETS" "\<forall>i \<in> set idx. itls ! i \<in> G"
  shows "fit_ok G (fold (note_stall cb itls marks) idx st)"
  using assms by (induction idx arbitrary: st) (simp_all add: fit_ok_stall note_stall_def)

lemma add_gaps_ok:
  assumes "fit_ok G st" "pb < 2 * NUM_PROMPT_BUCKETS" "cb < NUM_CONCURRENCY_BUCKETS" "set itls \<subseteq> G"
    "add_gaps r pb cb itls st = Inr st'"
  shows "fit_ok G st'"
proof -
  define st1 where "st1 = st\<lparr>fs_itls := (fs_itls st)[cb := fs_itls st ! cb @ itls]\<rparr>"
  have st1: "fit_ok G st1" unfolding st1_def by (rule fit_ok_itls [OF assms(1,4)])
  show ?thesis
  proof (cases "tr_itl_ctx r")
    case None
    let ?steps = "map (\<lambda>(i, gap). (gap, chunk_tokens r i)) (enumerate 0 itls)"
    have "fst ` set ?steps \<subseteq> G"
      using assms(4) by (force simp: in_set_enumerate_eq)
    then have "fst ` set (cut_steps False ?steps) \<subseteq> G" using cut_steps_subset [of False ?steps] by blast
    then show ?thesis
      using fit_ok_donate [OF st1 assms(2,3)] assms(5) None by (simp add: add_gaps_def Let_def flip: st1_def) metis
  next
    case (Some ctx)
    define marks where "marks = ctx_prefill_tokens ctx"
    define st2 where "st2 = fold (note_stall cb itls marks)
      (filter (\<lambda>i. marks ! i > 0) [0..<length itls]) st1"
    define steps where "steps = map (\<lambda>i. (itls ! i, chunk_tokens r i)) (filter (\<lambda>i. marks ! i = 0) [0..<length itls])"
    have st2: "fit_ok G st2" unfolding st2_def
      by (rule fit_ok_stalls [OF st1 assms(3)]) (use assms(4) in \<open>auto dest!: nth_mem\<close>)
    have "fst ` set steps \<subseteq> G" using assms(4) by (auto simp: steps_def dest!: nth_mem)
    then have "fst ` set (cut_steps True steps) \<subseteq> G" using cut_steps_subset [of True steps] by blast
    from fit_ok_donate [OF st2 assms(2,3) this] st2 assms(5) Some show ?thesis
      unfolding add_gaps_def Let_def st1_def [symmetric]
      by (auto simp: steps_def [symmetric] st2_def [symmetric] marks_def [symmetric] split: if_splits)
  qed
qed

lemma add_record_ok:
  assumes "fit_ok G st" "set (record_gaps r) \<subseteq> G" "add_record r st = Inr st'"
  shows "fit_ok G st'"
proof -
  have st1: "fit_ok G (note_ttft r st)" using assms(1) by (simp add: note_ttft_def Let_def fit_ok_def)
  show ?thesis
  proof (cases "tr_itl_ms r")
    case (Some itls)
    then have "set itls \<subseteq> G" using assms(2) by (simp add: record_gaps_def)
    then show ?thesis
      using add_gaps_ok [OF st1 bucket_ranges(3,2) _] assms(3) Some st1
      by (auto simp: add_record_def Let_def split: if_splits)
  next
    case None
    show ?thesis
    proof (cases "tr_itl_summary r")
      case (Some sm)
      show ?thesis
      proof (cases "itl_count sm = 0")
        case False
        then have m: "mean_ms sm \<in> G" using assms(2) None Some by (simp add: record_gaps_def)
        let ?cb = "concurrency_bucket (tr_concurrency r)"
        have "fit_ok G ((note_ttft r st)\<lparr>fs_itls := (fs_itls (note_ttft r st))[?cb := fs_itls (note_ttft r st) ! ?cb @ replicate (itl_count sm) (mean_ms sm)]\<rparr>)"
          using m by (intro fit_ok_itls [OF st1]) auto
        from fit_ok_push [OF this bucket_ranges(3,2), of "[(mean_ms sm, 1)]"] m
        show ?thesis using assms(3) None Some False
          by (auto simp: add_record_def Let_def)
      qed (use assms(3) None Some st1 in \<open>simp add: add_record_def Let_def\<close>)
    qed (use assms(3) None st1 in \<open>simp add: add_record_def Let_def\<close>)
  qed
qed

lemma add_records_ok:
  assumes "fit_ok G st" "\<forall>r \<in> set rs. set (record_gaps r) \<subseteq> G" "add_records rs st = Inr st'"
  shows "fit_ok G st'"
  using assms by (induction rs arbitrary: st) (auto simp: bind_result_Inr dest: add_record_ok)

text \<open>Where no data goes missing: the pooled gaps are empty only when no record has any.\<close>

lemma add_gaps_itls:
  assumes "add_gaps r pb cb itls st = Inr st'"
  shows "fs_itls st' = (fs_itls st)[cb := fs_itls st ! cb @ itls]"
proof -
  have d: "fs_itls (donate pb cb steps st) = fs_itls st" for steps st by (simp add: donate_def Let_def)
  have f: "fs_itls (fold (note_stall cb itls marks) idx st) = fs_itls st" for marks idx st
    by (induction idx arbitrary: st) (simp_all add: note_stall_def)
  show ?thesis using assms by (auto simp: add_gaps_def Let_def d f split: option.splits if_splits)
qed

lemma add_record_itls:
  assumes "add_record r st = Inr st'" "length (fs_itls st) = NUM_CONCURRENCY_BUCKETS"
  shows "concat (fs_itls st') = [] \<longleftrightarrow> concat (fs_itls st) = [] \<and> record_gaps r = []"
proof -
  let ?cb = "concurrency_bucket (tr_concurrency r)"
  have cb: "?cb < length (fs_itls st)" using assms(2) by simp
  have e: "fs_itls st' = (fs_itls st)[?cb := fs_itls st ! ?cb @ record_gaps r]"
    using assms(1) by (auto simp: add_record_def Let_def record_gaps_def note_ttft_def dest: add_gaps_itls split: option.splits if_splits)
  have "concat ((xs :: f64 list list)[i := xs ! i @ ys]) = [] \<longleftrightarrow> concat xs = [] \<and> ys = []" if "i < length xs" for xs i ys
    using that by (induction xs arbitrary: i) (auto split: nat.splits)
  from this [OF cb] e show ?thesis by simp
qed

lemma add_records_itls:
  assumes "add_records rs st = Inr st'" "fit_ok UNIV st"
  shows "concat (fs_itls st') = [] \<longleftrightarrow> concat (fs_itls st) = [] \<and> (\<forall>r \<in> set rs. record_gaps r = [])"
  using assms
proof (induction rs arbitrary: st)
  case (Cons r rs)
  from Cons.prems(1) obtain st1 where s: "add_record r st = Inr st1" "add_records rs st1 = Inr st'"
    by (auto simp: bind_result_Inr)
  have "fit_ok UNIV st1" using add_record_ok [OF Cons.prems(2) _ s(1)] by simp
  with Cons.IH [OF s(2)] add_record_itls [OF s(1)] Cons.prems(2) show ?case by (auto simp: fit_ok_def)
qed simp

lemma valid_record_added:
  assumes "validate_record r = Inr ()"
  shows "\<exists>st'. add_record r st = Inr st'"
proof -
  have "length (ctx_prefill_tokens ctx) = length itls" if "tr_itl_ms r = Some itls" "tr_itl_ctx r = Some ctx" for itls ctx
    using assms that by (auto simp: validate_record_def Let_def split: if_splits)
  then have "\<exists>st'. add_gaps r pb cb itls st = Inr st'" if "tr_itl_ms r = Some itls" for pb cb itls st
    using that by (auto simp: add_gaps_def Let_def split: option.splits)
  then show ?thesis by (auto simp: add_record_def Let_def split: option.splits)
qed

lemma valid_records_added: "\<forall>r \<in> set rs. validate_record r = Inr () \<Longrightarrow> \<exists>st'. add_records rs st = Inr st'"
proof (induction rs arbitrary: st)
  case (Cons r rs)
  obtain st1 where "add_record r st = Inr st1" using valid_record_added Cons.prems by force
  then show ?case using Cons by (simp add: bind_result_def)
qed simp

section \<open>Building the model\<close>

lemma from_records_Inr:
  "trace_latency_from_records records kv b = Inr m \<Longrightarrow>
   \<exists>st. records \<noteq> [] \<and> add_records records empty_fit = Inr st \<and> concat (fs_itls st) \<noteq> [] \<and>
     tl_donors_grid m = fs_donors st \<and> tl_stalls_grid m = map (map sort) (fs_stalls st) \<and>
     tl_itl_by_concurrency m = map sort (fs_itls st)"
  by (auto simp: trace_latency_from_records_def Let_def bind_result_Inr split: if_splits)

lemma from_records_accepts:
  assumes "records \<noteq> []" "add_records records empty_fit = Inr st" "concat (fs_itls st) \<noteq> []"
  shows "\<exists>m. trace_latency_from_records records kv b = Inr m"
  using assms by (auto simp: trace_latency_from_records_def Let_def bind_result_def)

text \<open>A trace of validated records is turned into a latency model, without a panic, exactly
  when some record carries an inter-token gap or a summary that counts at least one; a trace with
  no record or without such data is refused.\<close>

theorem trace_accepted:
  assumes "\<forall>r \<in> set records. validate_record r = Inr ()"
  shows "(\<exists>m. trace_latency_from_records records kv b = Inr m) \<longleftrightarrow> (\<exists>r \<in> set records. record_gaps r \<noteq> [])"
proof -
  obtain st where st: "add_records records empty_fit = Inr st" using valid_records_added [OF assms] by blast
  have e: "concat (fs_itls st) = [] \<longleftrightarrow> (\<forall>r \<in> set records. record_gaps r = [])"
    using add_records_itls [OF st empty_fit_ok] by (simp add: empty_fit_def)
  show ?thesis
  proof
    assume "\<exists>m. trace_latency_from_records records kv b = Inr m"
    then show "\<exists>r \<in> set records. record_gaps r \<noteq> []" using from_records_Inr st e by fastforce
  next
    assume g: "\<exists>r \<in> set records. record_gaps r \<noteq> []"
    then have "records \<noteq> []" by auto
    then show "\<exists>m. trace_latency_from_records records kv b = Inr m" using from_records_accepts [OF _ st] e g by blast
  qed
qed

section \<open>Drawing from the model\<close>

text \<open>What sampling relies on: the cells hold recorded gaps only.\<close>

definition model_ok :: "f64 set \<Rightarrow> trace_latency \<Rightarrow> bool" where
  "model_ok G m \<longleftrightarrow>
     grid_all (donor_ok G) (tl_donors_grid m) \<and> grid_all (\<lambda>c. set c \<subseteq> G) (tl_stalls_grid m) \<and>
     (\<forall>samples \<in> set (tl_itl_by_concurrency m). set samples \<subseteq> G) \<and>
     length (tl_itl_by_concurrency m) = NUM_CONCURRENCY_BUCKETS \<and>
     (\<exists>samples \<in> set (tl_itl_by_concurrency m). samples \<noteq> [])"

lemma from_records_model_ok:
  assumes "trace_latency_from_records records kv b = Inr m" "\<forall>r \<in> set records. set (record_gaps r) \<subseteq> G"
  shows "model_ok G m"
proof -
  obtain st where st: "add_records records empty_fit = Inr st" "concat (fs_itls st) \<noteq> []"
    "tl_donors_grid m = fs_donors st" "tl_stalls_grid m = map (map sort) (fs_stalls st)"
    "tl_itl_by_concurrency m = map sort (fs_itls st)"
    using from_records_Inr [OF assms(1)] by blast
  have "fit_ok G st" by (rule add_records_ok [OF empty_fit_ok assms(2) st(1)])
  moreover have "sort xs = [] \<longleftrightarrow> xs = []" for xs :: "f64 list" by (metis length_0_conv length_sort)
  ultimately show ?thesis using st(2) by (auto simp: model_ok_def fit_ok_def st(3-5))
qed

definition cell_of :: "trace_latency \<Rightarrow> decode_pacing \<Rightarrow> nat \<Rightarrow> donor_bucket option" where
  "cell_of m p cb =
     nearest_grid_cell (tl_donors_grid m) (dp_context_bucket p + cell_offset (dp_churn p)) cb (\<lambda>b. db_donors b \<noteq> [])"

text \<open>A remembered donor is one of the cell it was picked from.\<close>

definition pacing_ok :: "trace_latency \<Rightarrow> decode_pacing \<Rightarrow> bool" where
  "pacing_ok m p \<longleftrightarrow> length (dp_donors p) = NUM_CONCURRENCY_BUCKETS \<and>
     (\<forall>cb i bucket. cb < NUM_CONCURRENCY_BUCKETS \<longrightarrow> dp_donors p ! cb = Some i \<longrightarrow> cell_of m p cb = Some bucket \<longrightarrow>
        i < length (db_donors bucket))"

lemma nearest_cell_mem:
  assumes "nearest_grid_cell grid pb cb P = Some cell"
  shows "P cell \<and> (\<exists>row \<in> set grid. cell \<in> set row)"
proof -
  obtain pr ci where "pr < length grid" "ci < length (grid ! pr)" "cell = grid ! pr ! ci" "P cell"
    using nearest_grid_cell_exact [where grid = grid and pb = pb and cb = cb and has_data = P] assms by auto
  then show ?thesis by (meson nth_mem)
qed

lemma nearest_itl_mem:
  assumes "nearest_itl itl cb = Some samples" "cb < length itl"
  shows "samples \<noteq> [] \<and> samples \<in> set itl"
proof (cases "itl ! cb = []")
  case True
  define scan where "scan = (\<lambda>(ci, samples :: f64 list) best.
     if samples = [] then best
     else case best of None \<Rightarrow> Some (abs_diff ci cb, ci)
          | Some (bd, _) \<Rightarrow> if abs_diff ci cb < bd then Some (abs_diff ci cb, ci) else (best :: (nat \<times> nat) option))"
  have "\<forall>d ci. fold scan (enumerate k xs) best = Some (d, ci) \<longrightarrow> best = Some (d, ci) \<or> (k \<le> ci \<and> ci < k + length xs \<and> xs ! (ci - k) \<noteq> [])"
    for xs :: "f64 list list" and k best
  proof (induction xs arbitrary: k best)
    case (Cons x xs)
    show ?case
    proof (intro allI impI)
      fix d ci assume "fold scan (enumerate k (x # xs)) best = Some (d, ci)"
      then have "fold scan (enumerate (Suc k) xs) (scan (k, x) best) = Some (d, ci)" by simp
      with Cons.IH [of "Suc k" "scan (k, x) best"] consider "scan (k, x) best = Some (d, ci)"
        | "Suc k \<le> ci" "ci < Suc k + length xs" "xs ! (ci - Suc k) \<noteq> []" by blast
      then show "best = Some (d, ci) \<or> (k \<le> ci \<and> ci < k + length (x # xs) \<and> (x # xs) ! (ci - k) \<noteq> [])"
      proof cases
        case 1
        then show ?thesis by (auto simp: scan_def split: if_splits option.splits prod.splits)
      next
        case 2
        then have "ci - k = Suc (ci - Suc k)" by simp
        with 2 show ?thesis by simp
      qed
    qed
  qed simp
  from this [of 0 itl None] show ?thesis
    using assms True by (auto simp: nearest_itl_def scan_def [symmetric])
qed (use assms in \<open>auto simp: nearest_itl_def\<close>)

definition within_gaps :: "f64 \<Rightarrow> f64 \<Rightarrow> duration \<Rightarrow> bool" where
  "within_gaps lo hi d \<longleftrightarrow> from_secs_f64 (lo / 1000) \<le> d \<and> d \<le> from_secs_f64 (hi / 1000)"

lemma round_half_even_mono:
  assumes "x \<le> y"
  shows "round_half_even x \<le> round_half_even y"
proof (cases "\<lfloor>x\<rfloor> = \<lfloor>y\<rfloor>")
  case True
  then show ?thesis using assms by (auto simp: round_half_even_def Let_def)
next
  case False
  then have "\<lfloor>x\<rfloor> + 1 \<le> \<lfloor>y\<rfloor>" using floor_mono [OF assms] by simp
  then show ?thesis by (auto simp: round_half_even_def Let_def)
qed

lemma from_secs_f64_mono: "x \<le> y \<Longrightarrow> from_secs_f64 x \<le> from_secs_f64 y"
  by (auto simp: from_secs_f64_def intro!: nat_mono round_half_even_mono)

lemma within_gapsI: "lo \<le> ms \<Longrightarrow> ms \<le> hi \<Longrightarrow> within_gaps lo hi (from_secs_f64 (ms / 1000))"
  by (simp add: within_gaps_def from_secs_f64_mono)

lemma inter_token_within:
  assumes "model_ok G m" "unit_draws ops" "G \<subseteq> {lo..hi}"
  shows "within_gaps lo hi (fst (trace_inter_token_delay ops m rng n))"
proof -
  let ?itl = "tl_itl_by_concurrency m" and ?cb = "concurrency_bucket n"
  have cb: "?cb < length ?itl" using assms(1) by (simp add: model_ok_def)
  obtain samples where s: "nearest_itl ?itl ?cb = Some samples"
  proof (cases "nearest_itl ?itl ?cb")
    case None
    have "fold (\<lambda>(ci, samples) best. if samples = [] then best
        else case best of None \<Rightarrow> Some (abs_diff ci ?cb, ci)
          | Some (bd, _) \<Rightarrow> if abs_diff ci ?cb < bd then Some (abs_diff ci ?cb, ci) else (best :: (nat \<times> nat) option))
        (enumerate k xs) best \<noteq> None" if "best \<noteq> None \<or> (\<exists>x \<in> set xs. x \<noteq> [])" for xs :: "f64 list list" and k best
      using that by (induction xs arbitrary: k best) (auto split: option.splits)
    from this [of None ?itl 0] None assms(1) show ?thesis
      by (auto simp: nearest_itl_def model_ok_def split: if_splits)
  qed blast
  then have m: "samples \<noteq> []" "samples \<in> set ?itl" using nearest_itl_mem [OF s cb] by simp_all
  then have "set samples \<subseteq> {lo..hi}" using assms(1,3) unfolding model_ok_def by blast
  then have "lo \<le> fst (sample_inverse_cdf ops rng samples) \<and> fst (sample_inverse_cdf ops rng samples) \<le> hi"
    by (intro inverse_cdf_bounds [OF assms(2) m(1)]) auto
  then show ?thesis by (simp add: trace_inter_token_delay_def s split_beta within_gapsI)
qed

lemma db_pick_less: "db_donors b \<noteq> [] \<Longrightarrow> fst (db_pick ops b rng) < length (db_donors b)"
  by (simp add: db_pick_def Let_def split_beta min_less_iff_disj)

lemma donor_draw_within:
  assumes "donor_ok G b" "i < length (db_donors b)" "unit_draws ops" "G \<subseteq> {lo..hi}"
  shows "within_gaps lo hi (from_secs_f64 (fst (fst (sample_step_inverse_cdf ops rng (dn_steps (db_donors b ! i)))) / 1000))"
proof -
  let ?steps = "dn_steps (db_donors b ! i)"
  have s: "?steps \<noteq> []" "fst ` set ?steps \<subseteq> {lo..hi}"
    using assms(1,4) nth_mem [OF assms(2)] unfolding donor_ok_def by blast+
  then have "\<forall>x \<in> set ?steps. lo \<le> fst x \<and> fst x \<le> hi" by auto
  from step_draw_recorded [OF assms(3) s(1) this, of rng] show ?thesis by (simp add: within_gapsI)
qed

lemma donor_step_within:
  assumes m: "model_ok G m" and p: "pacing_ok m p" and u: "unit_draws ops" and g: "G \<subseteq> {lo..hi}"
  shows "within_gaps lo hi (sd_delay (fst (donor_step ops m rng n p))) \<and> pacing_ok m (snd (snd (donor_step ops m rng n p)))"
proof -
  let ?cb = "concurrency_bucket n"
  have cb: "?cb < NUM_CONCURRENCY_BUCKETS" by simp
  show ?thesis
  proof (cases "cell_of m p ?cb")
    case None
    then show ?thesis
      using inter_token_within [OF m u g] p by (simp add: donor_step_def Let_def split_beta flip: cell_of_def)
  next
    case (Some b)
    then have b: "db_donors b \<noteq> []" "donor_ok G b"
      using nearest_cell_mem [OF Some [unfolded cell_of_def]] m by (auto simp: model_ok_def)
    show ?thesis
    proof (cases "dp_donors p ! ?cb")
      case (Some i)
      then have "i < length (db_donors b)" using p \<open>cell_of m p ?cb = Some b\<close> cb unfolding pacing_ok_def by blast
      from donor_draw_within [OF b(2) this u g] show ?thesis
        using p Some \<open>cell_of m p ?cb = Some b\<close> by (simp add: donor_step_def Let_def split_beta flip: cell_of_def)
    next
      case None
      define i where "i = fst (db_pick ops b rng)"
      have i: "i < length (db_donors b)" unfolding i_def by (rule db_pick_less [OF b(1)])
      have "cell_of m (p\<lparr>dp_donors := ds\<rparr>) cb = cell_of m p cb" for ds cb by (simp add: cell_of_def)
      then have "pacing_ok m (p\<lparr>dp_donors := (dp_donors p)[?cb := Some i]\<rparr>)"
        using p i \<open>cell_of m p ?cb = Some b\<close> by (auto simp: pacing_ok_def nth_list_update)
      with donor_draw_within [OF b(2) i u g] show ?thesis
        using None \<open>cell_of m p ?cb = Some b\<close>
        by (simp add: donor_step_def Let_def split_beta i_def flip: cell_of_def)
    qed
  qed
qed

lemma paced_step_within:
  assumes m: "model_ok G m" and p: "pacing_ok m p" and u: "unit_draws ops" and g: "G \<subseteq> {lo..hi}"
  shows "within_gaps lo hi (sd_delay (fst (trace_paced_step ops m rng n p))) \<and>
    pacing_ok m (snd (snd (trace_paced_step ops m rng n p)))"
proof -
  have p': "pacing_ok m (p\<lparr>dp_pending_stall := None\<rparr>)" using p by (simp add: pacing_ok_def cell_of_def)
  show ?thesis
  proof (cases "Option.bind (dp_pending_stall p)
      (\<lambda>t. nearest_grid_cell (tl_stalls_grid m) (prompt_bucket t) (concurrency_bucket n) (\<lambda>c. c \<noteq> []))")
    case None
    then show ?thesis using donor_step_within [OF m p' u g] by (simp add: trace_paced_step_def Let_def)
  next
    case (Some stalls)
    then obtain t where
      "nearest_grid_cell (tl_stalls_grid m) (prompt_bucket t) (concurrency_bucket n) (\<lambda>c. c \<noteq> []) = Some stalls"
      by (auto simp: bind_eq_Some_conv)
    from nearest_cell_mem [OF this] have s: "stalls \<noteq> []" "set stalls \<subseteq> G"
      using m unfolding model_ok_def by blast+
    then have "\<forall>x \<in> set stalls. lo \<le> x \<and> x \<le> hi" using g by auto
    from inverse_cdf_bounds [OF u s(1) this, of rng] show ?thesis
      using p' Some by (simp add: trace_paced_step_def Let_def split_beta within_gapsI)
  qed
qed

text \<open>The decode steps of one request: before each, the engine may note an admitted prefill.\<close>

fun paced_run :: "'r rng_ops \<Rightarrow> trace_latency \<Rightarrow> (nat option \<times> nat) list \<Rightarrow> 'r \<Rightarrow> decode_pacing \<Rightarrow> step_draw list" where
  "paced_run ops m [] rng p = []"
| "paced_run ops m ((note, n) # evs) rng p =
     (let p = (case note of None \<Rightarrow> p | Some t \<Rightarrow> note_prefill t p);
          (d, rng, p) = trace_paced_step ops m rng n p
      in d # paced_run ops m evs rng p)"

lemma paced_run_within:
  assumes "model_ok G m" "pacing_ok m p" "unit_draws ops" "G \<subseteq> {lo..hi}"
  shows "\<forall>d \<in> set (paced_run ops m evs rng p). within_gaps lo hi (sd_delay d)"
  using assms(2)
proof (induction evs arbitrary: rng p)
  case (Cons ev evs)
  obtain note_t n where ev: "ev = (note_t, n)" by (cases ev)
  define p1 where "p1 = (case note_t of None \<Rightarrow> p | Some t \<Rightarrow> note_prefill t p)"
  have "pacing_ok m p1"
    using Cons.prems by (cases note_t) (simp_all add: p1_def note_prefill_def pacing_ok_def cell_of_def)
  note step = paced_step_within [OF assms(1) this assms(3,4), of rng n]
  with Cons.IH [OF conjunct2 [OF step]] show ?case by (simp add: ev p1_def [symmetric] Let_def split_beta)
qed simp

text \<open>C34: The decode steps a replayed latency trace gives a request, whatever the concurrency, the
  prefills noted on the way and the generator's draws, last at least as long as the smallest and at most as long as
  the largest gap in the trace.\<close>

theorem replayed_gaps_recorded:
  assumes "trace_latency_from_records records kv b = Inr m" "unit_draws ops" "0 \<le> lo"
    "\<forall>r \<in> set records. \<forall>g \<in> set (record_gaps r). lo \<le> g \<and> g \<le> hi" "d \<in> set (paced_run ops m evs rng (for_prompt n ch))"
  shows "from_secs_f64 (lo / 1000) \<le> sd_delay d \<and> sd_delay d \<le> from_secs_f64 (hi / 1000)"
proof -
  have "model_ok {lo..hi} m" using assms(4) by (intro from_records_model_ok [OF assms(1)]) auto
  moreover have "pacing_ok m (for_prompt n ch)" by (simp add: pacing_ok_def for_prompt_def)
  ultimately show ?thesis using paced_run_within [of "{lo..hi}" m _ ops lo hi] assms(2,5) by (force simp: within_gaps_def)
qed

section \<open>The reach of the fallback\<close>

text \<open>Two captures of short prompts, one calm and one decoding beside large prefills.\<close>

definition calm_record :: trace_record where
  "calm_record = default_record\<lparr>tr_prompt_tokens := 3, tr_output_tokens := 2, tr_itl_ms := Some [10]\<rparr>"

definition churn_record :: trace_record where
  "churn_record = default_record\<lparr>tr_prompt_tokens := 3, tr_output_tokens := 3, tr_itl_ms := Some [90, 500],
     tr_itl_ctx := Some \<lparr>ctx_num_running = [1, 1], ctx_prefill_tokens = [0, 5000]\<rparr>\<rparr>"

lemma demo_records_valid: "validate_record calm_record = Inr ()" "validate_record churn_record = Inr ()"
  by (simp_all add: validate_record_def calm_record_def churn_record_def default_record_def)

lemma demo_gaps: "record_gaps calm_record = [10]" "record_gaps churn_record = [90, 500]"
  by (simp_all add: record_gaps_def calm_record_def churn_record_def default_record_def)

lemma demo_buckets:
  "prompt_bucket 3 = 0" "prompt_bucket 40000 = 10" "concurrency_bucket (Suc 0) = 0" "NUM_PROMPT_BUCKETS = 11"
  "record_churn calm_record = Calm" "record_churn churn_record = BigChunk"
  by (simp_all add: prompt_bucket_def PROMPT_EDGES_def concurrency_bucket_def CONCURRENCY_RANGES_def
      NUM_PROMPT_BUCKETS_def record_churn_def calm_record_def churn_record_def default_record_def BIG_CHUNK_TOKENS_def)

abbreviation one_donor :: "f64 \<Rightarrow> donor_bucket \<Rightarrow> donor_bucket" where
  "one_donor gap \<equiv> db_push \<lparr>dn_steps = [(gap, 1)]\<rparr> 1"

lemma calm_added:
  "\<exists>st'. add_record calm_record st = Inr st' \<and> fs_donors st' = update_cell 0 0 (one_donor 10) (fs_donors st)"
proof -
  have "tr_itl_ms calm_record = Some [10]" "tr_prompt_tokens calm_record = 3" "tr_concurrency calm_record = 1"
    "tr_itl_ctx calm_record = None" "chunk_tokens calm_record 0 = 1"
    by (simp_all add: calm_record_def default_record_def default_concurrency_def chunk_tokens_def)
  then show ?thesis
    by (simp add: add_record_def demo_buckets add_gaps_def cut_steps_def donate_def note_ttft_def Let_def)
qed

lemma churn_added:
  "\<exists>st'. add_record churn_record st = Inr st' \<and> fs_donors st' = update_cell 11 0 (one_donor 90) (fs_donors st)"
proof -
  have "tr_itl_ms churn_record = Some [90, 500]" "tr_prompt_tokens churn_record = 3" "tr_concurrency churn_record = 1"
    "tr_itl_ctx churn_record = Some \<lparr>ctx_num_running = [1, 1], ctx_prefill_tokens = [0, 5000]\<rparr>" "chunk_tokens churn_record 0 = 1"
    by (simp_all add: churn_record_def default_record_def default_concurrency_def chunk_tokens_def)
  then show ?thesis
    by (simp add: add_record_def demo_buckets add_gaps_def cut_steps_def donate_def note_ttft_def note_stall_def
        partition_point_def upt_rec Let_def)
qed

text \<open>The only cells with data are those of the two records; the churning one is nearer.\<close>

lemma crossing_cell:
  fixes grid :: "donor_bucket list list"
  defines "grid \<equiv> update_cell 11 0 (one_donor 90) (update_cell 0 0 (one_donor 10)
    (replicate 22 (replicate NUM_CONCURRENCY_BUCKETS default_bucket)))"
  shows "db_donors (grid ! 0 ! 0) = [\<lparr>dn_steps = [(10, 1)]\<rparr>] \<and> db_donors (grid ! 11 ! 0) = [\<lparr>dn_steps = [(90, 1)]\<rparr>] \<and>
    nearest_grid_cell grid 10 0 (\<lambda>b. db_donors b \<noteq> []) = Some (grid ! 11 ! 0)"
proof -
  let ?base = "replicate 22 (replicate NUM_CONCURRENCY_BUCKETS default_bucket)"
  have sh: "grid_shape 22 ?base" by (simp add: grid_shape_def)
  then have sh': "grid_shape 22 grid" by (simp add: grid_def)
  have cell: "grid ! k ! l = (if k = 11 \<and> l = 0 then one_donor 90 default_bucket
      else if k = 0 \<and> l = 0 then one_donor 10 default_bucket else default_bucket)"
    if "k < 22" "l < NUM_CONCURRENCY_BUCKETS" for k l
    unfolding grid_def using that sh
    by (simp add: update_cell_nth [where rows = 22] NUM_CONCURRENCY_BUCKETS_def)
  have n: "0 < NUM_CONCURRENCY_BUCKETS" by (simp add: NUM_CONCURRENCY_BUCKETS_def)
  have data: "db_donors (grid ! 11 ! 0) = [\<lparr>dn_steps = [(90, 1)]\<rparr>]" "db_donors (grid ! 0 ! 0) = [\<lparr>dn_steps = [(10, 1)]\<rparr>]"
    using n by (simp_all add: cell db_push_def default_bucket_def)
  have len: "length grid = 22" "\<And>k. k < 22 \<Longrightarrow> length (grid ! k) = NUM_CONCURRENCY_BUCKETS"
    using sh' by (simp_all add: grid_shape_def)
  note near = nearest_grid_cell_exact [where grid = grid and pb = 10 and cb = 0 and has_data = "\<lambda>b. db_donors b \<noteq> []"]
  have "nearest_grid_cell grid 10 0 (\<lambda>b. db_donors b \<noteq> []) = Some (grid ! 11 ! 0)"
  proof (cases "nearest_grid_cell grid 10 0 (\<lambda>b. db_donors b \<noteq> [])")
    case None
    with near have "\<not> db_donors (grid ! 11 ! 0) \<noteq> []" using len n by auto
    with data show ?thesis by simp
  next
    case (Some c)
    with near obtain pr ci where c: "pr < 22" "ci < NUM_CONCURRENCY_BUCKETS" "c = grid ! pr ! ci" "db_donors c \<noteq> []"
      and best: "\<And>pr' ci'. pr' < 22 \<Longrightarrow> ci' < NUM_CONCURRENCY_BUCKETS \<Longrightarrow> db_donors (grid ! pr' ! ci') \<noteq> [] \<Longrightarrow>
        rank_le (cell_rank 10 0 (pr, ci, c)) (cell_rank 10 0 (pr', ci', grid ! pr' ! ci'))"
      using len by auto
    have "rank_le (cell_rank 10 0 (pr, ci, c)) (cell_rank 10 0 (11, 0, grid ! 11 ! 0))"
      using best [of 11 0] data n by simp
    then have "abs_diff pr 10 + abs_diff ci 0 \<le> 1" by (auto simp: rank_le_def cell_rank_def abs_diff_def)
    moreover have "(pr = 11 \<and> ci = 0) \<or> (pr = 0 \<and> ci = 0)"
      using c by (auto simp: cell default_bucket_def split: if_splits)
    ultimately show ?thesis using Some c(3) by (auto simp: abs_diff_def)
  qed
  with data show ?thesis by simp
qed

text \<open>The nearest-cell fallback can leave the half of the grid a request belongs to although that
  half has data: with one calm and one churning capture of short prompts, a calm request with a long
  context draws its decode steps from the churning one.\<close>

theorem donor_crosses_halves:
  "\<exists>records m calm churning. list_all (\<lambda>r. validate_record r = Inr ()) records \<and>
     trace_latency_from_records records kv b = Inr m \<and>
     calm < NUM_PROMPT_BUCKETS \<and> db_donors (tl_donors_grid m ! calm ! 0) \<noteq> [] \<and>
     NUM_PROMPT_BUCKETS \<le> churning \<and>
     cell_of m (for_prompt 40000 Calm) (concurrency_bucket 1) = Some (tl_donors_grid m ! churning ! 0) \<and>
     tl_donors_grid m ! churning ! 0 \<noteq> tl_donors_grid m ! calm ! 0"
proof -
  obtain st1 where st1: "add_record calm_record empty_fit = Inr st1"
    "fs_donors st1 = update_cell 0 0 (one_donor 10) (fs_donors empty_fit)" using calm_added by blast
  obtain st where st: "add_record churn_record st1 = Inr st" "fs_donors st = update_cell 11 0 (one_donor 90) (fs_donors st1)"
    using churn_added by blast
  have a: "add_records [calm_record, churn_record] empty_fit = Inr st" using st1 st by (simp add: bind_result_def)
  have "concat (fs_itls st) \<noteq> []" using add_records_itls [OF a empty_fit_ok] by (simp add: demo_gaps)
  then obtain m where m: "trace_latency_from_records [calm_record, churn_record] kv b = Inr m"
    using from_records_accepts [OF _ a] by blast
  have g: "tl_donors_grid m = update_cell 11 0 (one_donor 90) (update_cell 0 0 (one_donor 10)
      (replicate 22 (replicate NUM_CONCURRENCY_BUCKETS default_bucket)))"
    using from_records_Inr [OF m] a st1(2) st(2) by (auto simp: empty_fit_def demo_buckets)
  have c: "cell_of m (for_prompt 40000 Calm) (concurrency_bucket 1) =
      nearest_grid_cell (tl_donors_grid m) 10 0 (\<lambda>b. db_donors b \<noteq> [])"
    by (simp add: cell_of_def for_prompt_def demo_buckets)
  show ?thesis
    using crossing_cell [folded g] m c demo_records_valid
    by (intro exI [of _ "[calm_record, churn_record]"] exI [of _ m] exI [of _ 0] exI [of _ 11]) (auto simp: demo_buckets)
qed

section \<open>Witnesses\<close>

theorem trace_accepted_witness: "\<exists>m. trace_latency_from_records [calm_record] example_knobs 8 = Inr m"
  using trace_accepted [of "[calm_record]" example_knobs 8] by (simp add: demo_records_valid demo_gaps)

theorem replayed_gaps_recorded_witness:
  "\<exists>m. trace_latency_from_records [calm_record] example_knobs 8 = Inr m \<and>
     sd_delay (hd (paced_run counter_rng m [(Some 100, 1)] 0 (for_prompt 3 Calm))) = 10000000"
proof -
  obtain st where st: "add_records [calm_record] empty_fit = Inr st"
    using valid_records_added [of "[calm_record]"] demo_records_valid by auto
  have "concat (fs_itls st) \<noteq> []" using add_records_itls [OF st empty_fit_ok] by (simp add: demo_gaps)
  then obtain m where m: "trace_latency_from_records [calm_record] example_knobs 8 = Inr m"
    using from_records_accepts [OF _ st] by blast
  let ?run = "paced_run counter_rng m [(Some 100, 1)] 0 (for_prompt 3 Calm)"
  have "hd ?run \<in> set ?run" by (simp add: Let_def split_beta)
  from replayed_gaps_recorded [OF m counter_unit_draws, of 10 10, OF _ _ this] have "sd_delay (hd ?run) = 10000000"
    by (simp add: demo_gaps from_secs_f64_def round_half_even_def)
  with m show ?thesis by blast
qed

end
