(* ===== verification/Tap.thy ===== *)
theory Tap
  imports Replay_Steps
begin

text \<open>
  The recording tap (\<^verbatim>\<open>crates/sim-tap/src/tap.rs\<close>): a proxy between a frontend and an engine that
  forwards frames verbatim and folds what it observes into trace records. Msgpack decoding is
  library code and a parameter of the observation. The trace and step-stats writers are lists of
  what was appended; a failed write only leaves a log line in the code and is not modelled.
\<close>

section \<open>Per-request observation\<close>

record gap_sample =
  gs_gap_ms :: f64
  gs_tokens :: nat
  gs_running :: nat
  gs_prefill_tokens :: nat

record request_state =
  rs_arrival :: instant
  rs_prompt_tokens :: nat
  rs_block_hashes :: "u64 list option"
  rs_mm_hashes :: "string list option"
  rs_remote_prefill :: bool
  rs_last_output :: "instant option"
  rs_output_tokens :: nat
  rs_ttft_ms :: "f64 option"
  rs_gaps :: "gap_sample list"
  rs_cached_tokens :: nat
  rs_concurrency :: nat
  rs_output_token_ids :: "u32 list"

datatype token_recording = RecordOff | RecordOn

text \<open>\<^verbatim>\<open>Instant::duration_since\<close> saturates at zero.\<close>

definition ms_between :: "instant \<Rightarrow> instant \<Rightarrow> f64" where
  "ms_between from to = real (to - from) / 10 ^ 9 * 1000"

definition as_u32 :: "nat \<Rightarrow> nat" where
  "as_u32 n = n mod 2 ^ 32"

definition request_state_new :: "engine_request \<Rightarrow> instant \<Rightarrow> nat \<Rightarrow> nat \<Rightarrow> request_state" where
  "request_state_new req arrival bs concurrency =
     (let remote_prefill =
        (case extract_kv_params req of None \<Rightarrow> False | Some kv \<Rightarrow> kv_flag kv ''do_remote_prefill'');
          mm_hashes =
        (case req_mm_hashes req of
           None \<Rightarrow> None
         | Some features \<Rightarrow>
             (let hashes = List.map_filter (\<lambda>f. f) features in if hashes = [] then None else Some hashes))
      in \<lparr>rs_arrival = arrival,
          rs_prompt_tokens = (case req_prompt req of None \<Rightarrow> 0 | Some p \<Rightarrow> length p),
          rs_block_hashes = Option.bind (req_prompt req) (\<lambda>tokens. prompt_block_hashes tokens bs),
          rs_mm_hashes = mm_hashes, rs_remote_prefill = remote_prefill, rs_last_output = None,
          rs_output_tokens = 0, rs_ttft_ms = None, rs_gaps = [], rs_cached_tokens = 0,
          rs_concurrency = concurrency, rs_output_token_ids = []\<rparr>)"

definition awaiting_first_token :: "request_state \<Rightarrow> bool" where
  "awaiting_first_token s \<longleftrightarrow> rs_last_output s = None"

definition record_chunk :: "instant \<Rightarrow> nat \<Rightarrow> nat \<Rightarrow> nat \<Rightarrow> request_state \<Rightarrow> request_state" where
  "record_chunk arrival num_new_tokens step_running step_prefill_tokens s =
     (let s = (case rs_last_output s of
          None \<Rightarrow> s\<lparr>rs_ttft_ms := Some (ms_between (rs_arrival s) arrival)\<rparr>
        | Some prev \<Rightarrow>
            s\<lparr>rs_gaps := rs_gaps s @
               [\<lparr>gs_gap_ms = ms_between prev arrival, gs_tokens = as_u32 num_new_tokens,
                 gs_running = max step_running 1, gs_prefill_tokens = step_prefill_tokens\<rparr>]\<rparr>)
      in s\<lparr>rs_output_tokens := rs_output_tokens s + num_new_tokens, rs_last_output := Some arrival\<rparr>)"

definition into_record :: "instant \<Rightarrow> finish_reason \<Rightarrow> token_recording \<Rightarrow> request_state \<Rightarrow> trace_record" where
  "into_record capture_start reason record_tokens s =
     (let (itl_ms, itl_tokens, itl_ctx) =
        (if rs_gaps s = [] then (None, None, None)
         else
           let tokens = map gs_tokens (rs_gaps s)
           in (Some (map gs_gap_ms (rs_gaps s)),
               if \<exists>t \<in> set tokens. t > 1 then Some tokens else None,
               Some \<lparr>ctx_num_running = map gs_running (rs_gaps s),
                     ctx_prefill_tokens = map gs_prefill_tokens (rs_gaps s)\<rparr>))
      in \<lparr>tr_prompt_tokens = rs_prompt_tokens s, tr_cached_tokens = rs_cached_tokens s,
          tr_output_tokens = rs_output_tokens s,
          tr_ttft_ms = (case rs_ttft_ms s of None \<Rightarrow> 0 | Some t \<Rightarrow> t),
          tr_itl_ms = itl_ms, tr_itl_tokens = itl_tokens, tr_itl_summary = None,
          tr_concurrency = rs_concurrency s,
          tr_arrival_ms = Some (ms_between capture_start (rs_arrival s)), tr_itl_ctx = itl_ctx,
          tr_block_hashes = rs_block_hashes s, tr_mm_hashes = rs_mm_hashes s,
          tr_output_token_ids = (if record_tokens = RecordOn then Some (rs_output_token_ids s) else None),
          tr_finish_reason = Some (trace_finish_reason_of reason)\<rparr>)"

section \<open>Observing frames\<close>

type_synonym frame = "u8 list"

text \<open>The msgpack decoders the tap calls.\<close>

record codec =
  cd_request :: "frame \<Rightarrow> engine_request result"
  cd_ids :: "frame \<Rightarrow> string list result"
  cd_outputs :: "frame list \<Rightarrow> envelope result"

type_synonym tracked = "(string, request_state) btree"

definition observe_request :: "codec \<Rightarrow> frame list \<Rightarrow> instant \<Rightarrow> nat \<Rightarrow> tracked \<Rightarrow> tracked" where
  "observe_request cd frames arrival bs reqs =
     (case frames of
        f0 # f1 # _ \<Rightarrow>
          (case request_type_from_frame f0 of
             Some RAdd \<Rightarrow>
               (case cd_request cd f1 of
                  Inr req \<Rightarrow>
                    bt_insert (req_id req) (request_state_new req arrival bs (length reqs + 1)) reqs
                | Inl err \<Rightarrow> reqs)
           | Some RAbort \<Rightarrow>
               (case cd_ids cd f1 of
                  Inr ids \<Rightarrow> fold bt_remove ids reqs
                | Inl err \<Rightarrow> reqs)
           | _ \<Rightarrow> reqs)
      | _ \<Rightarrow> reqs)"

definition step_running_of :: "envelope \<Rightarrow> tracked \<Rightarrow> nat" where
  "step_running_of outputs reqs =
     (case scheduler_stats_of outputs of
        Some s \<Rightarrow> as_u32 (ss_num_running s)
      | None \<Rightarrow> as_u32 (length reqs))"

definition step_prefill_tokens_of :: "envelope \<Rightarrow> tracked \<Rightarrow> nat" where
  "step_prefill_tokens_of outputs reqs =
     as_u32 (sum_list (map (\<lambda>s. as_u32 (rs_prompt_tokens s))
       (filter (\<lambda>s. awaiting_first_token s \<and> \<not> rs_remote_prefill s)
         (List.map_filter (\<lambda>out. bt_get reqs (out_id out))
           (filter (\<lambda>out. out_tokens out \<noteq> []) (request_outputs outputs))))))"

text \<open>One output of a message: the body of the loop of \<^verbatim>\<open>observe_output\<close>.\<close>

definition fold_output ::
  "instant \<Rightarrow> nat \<Rightarrow> nat \<Rightarrow> token_recording \<Rightarrow> engine_core_output \<Rightarrow> request_state \<Rightarrow> request_state" where
  "fold_output arrival step_running step_prefill_tokens record_tokens out s =
     (let s = (if record_tokens = RecordOn
               then s\<lparr>rs_output_token_ids := rs_output_token_ids s @ out_tokens out\<rparr> else s);
          s = (case out_prefill_stats out of
                 None \<Rightarrow> s
               | Some st \<Rightarrow>
                   s\<lparr>rs_cached_tokens := ps_num_local_cached_tokens st + ps_num_external_cached_tokens st\<rparr>)
      in if out_tokens out \<noteq> []
         then record_chunk arrival (length (out_tokens out)) step_running step_prefill_tokens s
         else s)"

definition observe_one ::
  "instant \<Rightarrow> instant \<Rightarrow> nat \<Rightarrow> nat \<Rightarrow> token_recording \<Rightarrow> engine_core_output \<Rightarrow>
   tracked \<times> trace_record list \<Rightarrow> tracked \<times> trace_record list" where
  "observe_one arrival capture_start step_running step_prefill_tokens record_tokens out st =
     (let (reqs, written) = st; rid = out_id out
      in case bt_get reqs rid of
           None \<Rightarrow> (reqs, written)
         | Some s \<Rightarrow>
             if out_finish out = Some FAbort then (bt_remove rid reqs, written)
             else
               let s = fold_output arrival step_running step_prefill_tokens record_tokens out s
               in case out_finish out of
                    None \<Rightarrow> (bt_modify rid (\<lambda>_. s) reqs, written)
                  | Some reason \<Rightarrow>
                      (bt_remove rid reqs, written @ [into_record capture_start reason record_tokens s]))"

record step_stats_record =
  sr_ts_ms :: f64
  sr_scheduler :: scheduler_stats

section \<open>The proxy\<close>

record tap_config =
  tap_block_size :: nat
  tap_record_tokens :: token_recording
  tap_step_stats_on :: bool
  tap_capture_start :: instant
  tap_engine_identity :: frame

record tap =
  tp_requests :: tracked
  tp_trace :: "trace_record list"
  tp_step_stats :: "step_stats_record list"
  tp_upstream :: "frame list list"
  tp_downstream :: "frame list list"

definition observe_output :: "codec \<Rightarrow> tap_config \<Rightarrow> frame list \<Rightarrow> instant \<Rightarrow> tap \<Rightarrow> tap" where
  "observe_output cd cfg frames arrival t =
     (case cd_outputs cd frames of
        Inl err \<Rightarrow> t
      | Inr outputs \<Rightarrow>
          (let t = (case scheduler_stats_of outputs of
               Some stats \<Rightarrow>
                 if tap_step_stats_on cfg
                 then t\<lparr>tp_step_stats := tp_step_stats t @
                        [\<lparr>sr_ts_ms = ms_between (tap_capture_start cfg) arrival, sr_scheduler = stats\<rparr>]\<rparr>
                 else t
             | None \<Rightarrow> t);
               step_running = step_running_of outputs (tp_requests t);
               step_prefill_tokens = step_prefill_tokens_of outputs (tp_requests t);
               (reqs, written) =
                 fold (observe_one arrival (tap_capture_start cfg) step_running step_prefill_tokens (tap_record_tokens cfg))
                   (request_outputs outputs) (tp_requests t, tp_trace t)
           in t\<lparr>tp_requests := reqs, tp_trace := written\<rparr>))"

text \<open>
  What the proxy loop receives: shutdown, a message of either side with its arrival and whether the
  forwarding send succeeds, or the end of a drain task.
\<close>

datatype tap_event =
    TapShutdown
  | FromFrontend instant "frame list" bool
  | FrontendGone
  | FromEngine instant "frame list" bool
  | EngineGone

datatype tap_status = TapRunning | TapStopped | TapFailed string

fun proxy_event :: "codec \<Rightarrow> tap_config \<Rightarrow> tap_event \<Rightarrow> tap \<Rightarrow> tap_status \<times> tap" where
  "proxy_event cd cfg TapShutdown t = (TapStopped, t)"
| "proxy_event cd cfg FrontendGone t = (TapFailed ''request drain task ended (frontend disconnected)'', t)"
| "proxy_event cd cfg (FromFrontend arrival frames sent) t =
     (if sent
      then (TapRunning,
            t\<lparr>tp_upstream := tp_upstream t @ [tap_engine_identity cfg # frames],
              tp_requests := observe_request cd frames arrival (tap_block_size cfg) (tp_requests t)\<rparr>)
      else (TapFailed ''forwarding request to engine'', t))"
| "proxy_event cd cfg EngineGone t = (TapFailed ''output drain task ended (engine disconnected)'', t)"
| "proxy_event cd cfg (FromEngine arrival frames sent) t =
     (if frames = [] then (TapFailed ''building push forward message'', t)
      else if sent
      then (TapRunning, observe_output cd cfg frames arrival (t\<lparr>tp_downstream := tp_downstream t @ [frames]\<rparr>))
      else (TapFailed ''forwarding output to frontend'', t))"

fun run_proxy :: "codec \<Rightarrow> tap_config \<Rightarrow> tap_event list \<Rightarrow> tap \<Rightarrow> tap_status \<times> tap" where
  "run_proxy cd cfg [] t = (TapRunning, t)"
| "run_proxy cd cfg (ev # evs) t =
     (case proxy_event cd cfg ev t of
        (TapRunning, t) \<Rightarrow> run_proxy cd cfg evs t
      | res \<Rightarrow> res)"

definition new_tap :: tap where
  "new_tap = \<lparr>tp_requests = [], tp_trace = [], tp_step_stats = [], tp_upstream = [], tp_downstream = []\<rparr>"

end
