(* ===== verification/Tap_Props.thy ===== *)
theory Tap_Props
  imports Tap
begin

text \<open>
  Properties of the recording tap: the proxy changes nothing it forwards, its observation refines
  an abstract capture of (arrival, tokens) chunks per request, and a captured request's record
  replays the captured schedule.
\<close>

section \<open>The chunks of a request\<close>

type_synonym chunks = "(instant \<times> u32 list) list"

abbreviation chunk_total :: "chunks \<Rightarrow> nat" where
  "chunk_total cs \<equiv> length (concat (map snd cs))"

text \<open>Neighbouring chunks, and the chunks one output delivers.\<close>

definition steps_of :: "chunks \<Rightarrow> ((instant \<times> u32 list) \<times> (instant \<times> u32 list)) list" where
  "steps_of cs = zip cs (tl cs)"

definition delivered :: "instant \<Rightarrow> engine_core_output \<Rightarrow> chunks" where
  "delivered t out = (if out_tokens out = [] then [] else [(t, out_tokens out)])"

lemma steps_of_Nil [simp]: "steps_of [] = []"
  by (simp add: steps_of_def)

lemma steps_of_snoc: "steps_of (cs @ [x]) = (if cs = [] then [] else steps_of cs @ [(last cs, x)])"
proof (induction cs)
  case (Cons c cs)
  then show ?case by (cases cs) (auto simp: steps_of_def)
qed (simp add: steps_of_def)

lemma steps_of_Cons: "map (\<lambda>(a, b). f b) (steps_of (c # cs)) = map f cs"
  by (induction cs arbitrary: c) (auto simp: steps_of_def)

lemma steps_of_empty: "steps_of cs = [] \<longleftrightarrow> length cs < 2"
  by (cases cs; cases "tl cs") (auto simp: steps_of_def)

text \<open>The state of a request \<open>req\<close> that arrived at \<open>t0\<close> and delivered the chunks \<open>cs\<close> so far.\<close>

definition follows ::
  "tap_config \<Rightarrow> engine_request \<Rightarrow> instant \<Rightarrow> chunks \<Rightarrow> request_state \<Rightarrow> bool" where
  "follows cfg req t0 cs s \<longleftrightarrow>
     rs_arrival s = t0 \<and> rs_prompt_tokens s = (case req_prompt req of None \<Rightarrow> 0 | Some p \<Rightarrow> length p) \<and>
     rs_block_hashes s = Option.bind (req_prompt req) (\<lambda>p. prompt_block_hashes p (tap_block_size cfg)) \<and>
     rs_output_tokens s = chunk_total cs \<and>
     (tap_record_tokens cfg = RecordOn \<longrightarrow> rs_output_token_ids s = concat (map snd cs)) \<and>
     rs_last_output s = (if cs = [] then None else Some (fst (last cs))) \<and>
     rs_ttft_ms s = (if cs = [] then None else Some (ms_between t0 (fst (hd cs)))) \<and>
     map gs_gap_ms (rs_gaps s) = map (\<lambda>(a, b). ms_between (fst a) (fst b)) (steps_of cs) \<and>
     map gs_tokens (rs_gaps s) = map (\<lambda>(a, b). as_u32 (length (snd b))) (steps_of cs) \<and>
     (\<forall>c \<in> set cs. snd c \<noteq> [])"

lemma new_follows: "follows cfg req t0 [] (request_state_new req t0 (tap_block_size cfg) n)"
  by (simp add: follows_def request_state_new_def Let_def)

text \<open>The token ids and the cached-token count of a state are folded apart from its timing.\<close>

lemma record_chunk_ids:
  "record_chunk t n run pre (s\<lparr>rs_output_token_ids := ids\<rparr>) =
   (record_chunk t n run pre s)\<lparr>rs_output_token_ids := ids\<rparr>"
  by (cases "rs_last_output s") (simp_all add: record_chunk_def Let_def)

lemma record_chunk_follows:
  assumes f: "follows cfg req t0 cs s" and toks: "toks \<noteq> []"
    and ids: "tap_record_tokens cfg = RecordOn \<longrightarrow> ids = rs_output_token_ids s @ toks"
  shows "follows cfg req t0 (cs @ [(t, toks)])
    ((record_chunk t (length toks) run pre s)\<lparr>rs_output_token_ids := ids\<rparr>)"
proof (cases "cs = []")
  case True
  then have "rs_gaps s = []" "rs_last_output s = None" using f by (simp_all add: follows_def)
  then show ?thesis
    using f toks ids True steps_of_snoc [of "[]"] by (simp add: follows_def record_chunk_def Let_def)
next
  case False
  then have l: "rs_last_output s = Some (fst (last cs))" using f by (simp add: follows_def)
  show ?thesis
    using f toks ids False l by (simp add: follows_def record_chunk_def Let_def steps_of_snoc hd_append)
qed

lemma fold_output_follows:
  assumes f: "follows cfg req t0 cs s"
  shows "follows cfg req t0 (cs @ delivered t out) (fold_output t run pre (tap_record_tokens cfg) out s)"
proof -
  define s1 where "s1 = (case out_prefill_stats out of None \<Rightarrow> s
    | Some st \<Rightarrow> s\<lparr>rs_cached_tokens := ps_num_local_cached_tokens st + ps_num_external_cached_tokens st\<rparr>)"
  define ids where "ids = (if tap_record_tokens cfg = RecordOn then rs_output_token_ids s @ out_tokens out
    else rs_output_token_ids s)"
  have s1: "follows cfg req t0 cs s1" "rs_output_token_ids s1 = rs_output_token_ids s"
    using f unfolding s1_def by (cases "out_prefill_stats out"; simp add: follows_def)+
  have eq: "fold_output t run pre (tap_record_tokens cfg) out s =
      (if out_tokens out = [] then s1\<lparr>rs_output_token_ids := ids\<rparr>
       else (record_chunk t (length (out_tokens out)) run pre s1)\<lparr>rs_output_token_ids := ids\<rparr>)"
  proof -
    have sw: "s\<lparr>rs_output_token_ids := i, rs_cached_tokens := c\<rparr> = s\<lparr>rs_cached_tokens := c, rs_output_token_ids := i\<rparr>" for i c
      by simp
    show ?thesis
      by (cases "tap_record_tokens cfg"; cases "out_prefill_stats out")
        (simp_all only: fold_output_def s1_def ids_def Let_def sw record_chunk_ids
          option.case token_recording.distinct if_True if_False refl not_True_eq_False, auto simp: record_chunk_def Let_def split: option.splits)
  qed
  show ?thesis
  proof (cases "out_tokens out = []")
    case True
    then show ?thesis using s1 by (simp add: eq delivered_def follows_def ids_def)
  next
    case False
    then show ?thesis
      using record_chunk_follows [OF s1(1) False, of ids t run pre] s1(2)
      by (simp add: eq delivered_def ids_def)
  qed
qed

section \<open>The record of a request\<close>

text \<open>What the record of a captured request says of it.\<close>

definition captured ::
  "tap_config \<Rightarrow> engine_request \<times> instant \<times> chunks \<times> finish_reason \<Rightarrow> trace_record \<Rightarrow> bool" where
  "captured cfg = (\<lambda>(req, t0, cs, reason) r.
     tr_prompt_tokens r = (case req_prompt req of None \<Rightarrow> 0 | Some p \<Rightarrow> length p) \<and>
     tr_block_hashes r = Option.bind (req_prompt req) (\<lambda>p. prompt_block_hashes p (tap_block_size cfg)) \<and>
     tr_output_tokens r = chunk_total cs \<and>
     tr_output_token_ids r = (if tap_record_tokens cfg = RecordOn then Some (concat (map snd cs)) else None) \<and>
     tr_ttft_ms r = (if cs = [] then 0 else ms_between t0 (fst (hd cs))) \<and>
     tr_itl_ms r = (if length cs < 2 then None else Some (map (\<lambda>(a, b). ms_between (fst a) (fst b)) (steps_of cs))) \<and>
     tr_itl_tokens r =
       (let toks = map (\<lambda>(a, b). as_u32 (length (snd b))) (steps_of cs)
        in if \<exists>t \<in> set toks. 1 < t then Some toks else None) \<and>
     tr_itl_summary r = None \<and>
     (case tr_itl_ctx r of
        None \<Rightarrow> length cs < 2
      | Some ctx \<Rightarrow> length (ctx_num_running ctx) = length cs - 1 \<and>
                     length (ctx_prefill_tokens ctx) = length cs - 1 \<and> 2 \<le> length cs) \<and>
     tr_arrival_ms r = Some (ms_between (tap_capture_start cfg) t0) \<and>
     tr_finish_reason r = Some (trace_finish_reason_of reason) \<and>
     (\<forall>c \<in> set cs. snd c \<noteq> []))"

lemma into_record_captured:
  assumes f: "follows cfg req t0 cs s"
  shows "captured cfg (req, t0, cs, reason) (into_record (tap_capture_start cfg) reason (tap_record_tokens cfg) s)"
proof -
  have l: "length (rs_gaps s) = length cs - 1"
  proof -
    have "length (map gs_tokens (rs_gaps s)) = length (steps_of cs)" using f by (simp add: follows_def)
    then show ?thesis by (simp add: steps_of_def)
  qed
  have g: "map gs_gap_ms (rs_gaps s) = map (\<lambda>(a, b). ms_between (fst a) (fst b)) (steps_of cs)"
    "map gs_tokens (rs_gaps s) = map (\<lambda>(a, b). as_u32 (length (snd b))) (steps_of cs)"
    using f by (simp_all add: follows_def)
  show ?thesis
  proof (cases "rs_gaps s = []")
    case True
    then have "length cs < 2" "steps_of cs = []" using l g by (simp_all add: steps_of_empty)
    then show ?thesis using f True by (simp add: captured_def into_record_def follows_def Let_def)
  next
    case False
    then have "2 \<le> length cs" using l g by (cases cs; cases "tl cs") auto
    then show ?thesis
      using f False l unfolding captured_def into_record_def Let_def
      by (simp add: g) (simp add: follows_def)
  qed
qed

section \<open>The abstract capture\<close>

text \<open>
  A capture is the open requests with the chunks they delivered, and the finished ones in the
  order they finished. Aborts, of either side, drop a request.
\<close>

type_synonym capture =
  "(string \<rightharpoonup> engine_request \<times> instant \<times> chunks) \<times> (engine_request \<times> instant \<times> chunks \<times> finish_reason) list"

definition capture_output :: "instant \<Rightarrow> engine_core_output \<Rightarrow> capture \<Rightarrow> capture" where
  "capture_output t out = (\<lambda>(opened, ended).
     case opened (out_id out) of
       None \<Rightarrow> (opened, ended)
     | Some (req, t0, cs) \<Rightarrow>
         (case out_finish out of
            None \<Rightarrow> (opened(out_id out \<mapsto> (req, t0, cs @ delivered t out)), ended)
          | Some reason \<Rightarrow>
              (opened(out_id out := None),
               if reason = FAbort then ended else ended @ [(req, t0, cs @ delivered t out, reason)])))"

fun capture_event :: "codec \<Rightarrow> tap_event \<Rightarrow> capture \<Rightarrow> capture" where
  "capture_event cd (FromFrontend t (f0 # f1 # _) _) (opened, ended) =
     (case (request_type_from_frame f0, cd_request cd f1, cd_ids cd f1) of
        (Some RAdd, Inr req, _) \<Rightarrow> (opened(req_id req \<mapsto> (req, t, [])), ended)
      | (Some RAbort, _, Inr ids) \<Rightarrow> (opened |` (- set ids), ended)
      | _ \<Rightarrow> (opened, ended))"
| "capture_event cd (FromEngine t frames _) c =
     (case cd_outputs cd frames of
        Inl err \<Rightarrow> c
      | Inr outputs \<Rightarrow> fold (capture_output t) (request_outputs outputs) c)"
| "capture_event cd _ c = c"

text \<open>The messages the proxy handles are those up to the first end, failed or empty one.\<close>

fun passes :: "tap_event \<Rightarrow> bool" where
  "passes (FromFrontend _ _ sent) = sent"
| "passes (FromEngine _ frames sent) = (frames \<noteq> [] \<and> sent)"
| "passes _ = False"

definition captures :: "codec \<Rightarrow> tap_event list \<Rightarrow> (engine_request \<times> instant \<times> chunks \<times> finish_reason) list" where
  "captures cd evs = snd (fold (capture_event cd) (takeWhile passes evs) (Map.empty, []))"

text \<open>The simulation relation.\<close>

definition observes :: "tap_config \<Rightarrow> capture \<Rightarrow> tracked \<times> trace_record list \<Rightarrow> bool" where
  "observes cfg c st \<longleftrightarrow>
     (\<forall>rid. rel_option (\<lambda>(req, t0, cs) s. follows cfg req t0 cs s) (fst c rid) (bt_get (fst st) rid)) \<and>
     list_all2 (captured cfg) (snd c) (snd st)"

lemma observesD:
  assumes "observes cfg c st"
  obtains "fst c rid = None" "bt_get (fst st) rid = None"
  | req t0 cs s where "fst c rid = Some (req, t0, cs)" "bt_get (fst st) rid = Some s" "follows cfg req t0 cs s"
proof -
  have "rel_option (\<lambda>(req, t0, cs) s. follows cfg req t0 cs s) (fst c rid) (bt_get (fst st) rid)"
    using assms by (simp add: observes_def)
  then show thesis by (cases rule: option.rel_cases) (use that in auto)
qed

lemma observesI:
  assumes "observes cfg c st" "list_all2 (captured cfg) ended written"
    and "\<And>rid. rid \<noteq> k \<Longrightarrow> opened rid = fst c rid \<and> bt_get reqs rid = bt_get (fst st) rid"
    and "rel_option (\<lambda>(req, t0, cs) s. follows cfg req t0 cs s) (opened k) (bt_get reqs k)"
  shows "observes cfg (opened, ended) (reqs, written)"
  unfolding observes_def
proof safe
  fix rid
  show "rel_option (\<lambda>(req, t0, cs) s. follows cfg req t0 cs s) (fst (opened, ended) rid) (bt_get (fst (reqs, written)) rid)"
    using assms by (cases "rid = k") (auto simp: observes_def)
qed (use assms in simp)

lemma observe_one_observes:
  assumes o: "observes cfg c st"
  shows "observes cfg (capture_output t out c)
    (observe_one t (tap_capture_start cfg) run pre (tap_record_tokens cfg) out st)"
proof -
  obtain opened ended where c [simp]: "c = (opened, ended)" by (cases c)
  obtain reqs written where st [simp]: "st = (reqs, written)" by (cases st)
  have w: "list_all2 (captured cfg) ended written" using o by (simp add: observes_def)
  show ?thesis
  proof (cases rule: observesD [OF o, of "out_id out"])
    case 1
    then show ?thesis using o by (simp add: capture_output_def observe_one_def)
  next
    case (2 req t0 cs s)
    define s' where "s' = fold_output t run pre (tap_record_tokens cfg) out s"
    have f: "follows cfg req t0 (cs @ delivered t out) s'"
      unfolding s'_def by (rule fold_output_follows [OF 2(3)])
    show ?thesis
    proof (cases "out_finish out")
      case None
      have "observes cfg (opened(out_id out \<mapsto> (req, t0, cs @ delivered t out)), ended)
          (bt_modify (out_id out) (\<lambda>_. s') reqs, written)"
        by (rule observesI [OF o w, of "out_id out"]) (use 2 f in \<open>auto simp: bt_simps\<close>)
      then show ?thesis using 2 None by (simp add: capture_output_def observe_one_def s'_def)
    next
      case (Some reason)
      define r where "r = into_record (tap_capture_start cfg) reason (tap_record_tokens cfg) s'"
      have "list_all2 (captured cfg) (ended @ [(req, t0, cs @ delivered t out, reason)]) (written @ [r])"
        using w into_record_captured [OF f] by (simp add: r_def list_all2_appendI)
      then have "observes cfg (opened(out_id out := None), ended @ [(req, t0, cs @ delivered t out, reason)])
          (bt_remove (out_id out) reqs, written @ [r])"
        by (rule observesI [OF o, of _ _ "out_id out"]) (auto simp: bt_simps)
      moreover have "observes cfg (opened(out_id out := None), ended) (bt_remove (out_id out) reqs, written)"
        by (rule observesI [OF o w, of "out_id out"]) (auto simp: bt_simps)
      ultimately show ?thesis using 2 Some by (simp add: capture_output_def observe_one_def s'_def r_def)
    qed
  qed
qed

lemma observe_fold_observes:
  "observes cfg c st \<Longrightarrow>
   observes cfg (fold (capture_output t) outs c)
     (fold (observe_one t (tap_capture_start cfg) run pre (tap_record_tokens cfg)) outs st)"
  by (induction outs arbitrary: c st) (simp_all add: observe_one_observes)

lemma bt_get_removes: "bt_get (fold bt_remove ids m) k = (if k \<in> set ids then None else bt_get m k)"
  by (induction ids arbitrary: m) (auto simp: bt_simps)

lemma observe_request_observes:
  assumes o: "observes cfg c (reqs, written)"
  shows "observes cfg (capture_event cd (FromFrontend t frames sent) c)
    (observe_request cd frames t (tap_block_size cfg) reqs, written)"
proof (cases "\<exists>f0 f1 rest. frames = f0 # f1 # rest")
  case False
  then show ?thesis
    using o by (cases frames; cases "tl frames"; cases c) (auto simp: observe_request_def)
next
  case True
  then obtain f0 f1 rest where fr: "frames = f0 # f1 # rest" by blast
  obtain opened ended where c [simp]: "c = (opened, ended)" by (cases c)
  have w: "list_all2 (captured cfg) ended written" using o by (simp add: observes_def)
  consider req where "request_type_from_frame f0 = Some RAdd" "cd_request cd f1 = Inr req"
    | ids where "request_type_from_frame f0 = Some RAbort" "cd_ids cd f1 = Inr ids"
    | "capture_event cd (FromFrontend t frames sent) c = c" "observe_request cd frames t (tap_block_size cfg) reqs = reqs"
  proof (cases "request_type_from_frame f0")
    case (Some ty)
    then show thesis
      using that by (cases ty; cases "cd_request cd f1"; cases "cd_ids cd f1") (auto simp: observe_request_def fr)
  qed (use that in \<open>simp add: observe_request_def fr\<close>)
  then show ?thesis
  proof cases
    case (1 req)
    have "observes cfg (opened(req_id req \<mapsto> (req, t, [])), ended)
        (bt_insert (req_id req) (request_state_new req t (tap_block_size cfg) (length reqs + 1)) reqs, written)"
      by (rule observesI [OF o w, of "req_id req"]) (auto simp: bt_simps new_follows)
    then show ?thesis using 1 by (simp add: fr observe_request_def)
  next
    case (2 ids)
    have "rel_option (\<lambda>(req, t0, cs) s. follows cfg req t0 cs s) ((opened |` (- set ids)) rid)
        (bt_get (fold bt_remove ids reqs) rid)" for rid
      using o by (auto simp: observes_def bt_get_removes restrict_map_def)
    then have "observes cfg (opened |` (- set ids), ended) (fold bt_remove ids reqs, written)"
      using w by (simp add: observes_def)
    then show ?thesis using 2 by (simp add: fr observe_request_def split: sum.splits)
  next
    case 3
    then show ?thesis using o by simp
  qed
qed

lemma observe_output_fields:
  "(tp_requests (observe_output cd cfg frames t x), tp_trace (observe_output cd cfg frames t x)) =
     (case cd_outputs cd frames of
        Inl err \<Rightarrow> (tp_requests x, tp_trace x)
      | Inr outputs \<Rightarrow>
          fold (observe_one t (tap_capture_start cfg) (step_running_of outputs (tp_requests x))
              (step_prefill_tokens_of outputs (tp_requests x)) (tap_record_tokens cfg))
            (request_outputs outputs) (tp_requests x, tp_trace x))"
  "tp_upstream (observe_output cd cfg frames t x) = tp_upstream x"
  "tp_downstream (observe_output cd cfg frames t x) = tp_downstream x"
  by (auto simp: observe_output_def Let_def split_beta split: sum.splits option.splits)

text \<open>Simulation of one handled message, and the end of the loop at any other.\<close>

lemma proxy_event_observes:
  assumes "observes cfg c (tp_requests x, tp_trace x)" "passes ev" "proxy_event cd cfg ev x = (st, x')"
  shows "st = TapRunning \<and> observes cfg (capture_event cd ev c) (tp_requests x', tp_trace x')"
proof (cases ev)
  case (FromFrontend t frames sent)
  then show ?thesis using assms observe_request_observes [OF assms(1), of cd t frames sent] by auto
next
  case (FromEngine t frames sent)
  then have x': "x' = observe_output cd cfg frames t (x\<lparr>tp_downstream := tp_downstream x @ [frames]\<rparr>)" "st = TapRunning"
    using assms by auto
  show ?thesis
    using assms(1) FromEngine x' observe_fold_observes [OF assms(1)]
    by (simp add: observe_output_fields split: sum.splits)
qed (use assms in auto)

lemma proxy_event_stops: "\<not> passes ev \<Longrightarrow> \<exists>st. proxy_event cd cfg ev x = (st, x) \<and> st \<noteq> TapRunning"
  by (cases ev) auto

lemma run_proxy_observes:
  assumes "observes cfg c (tp_requests x, tp_trace x)" "run_proxy cd cfg evs x = (st, x')"
  shows "observes cfg (fold (capture_event cd) (takeWhile passes evs) c) (tp_requests x', tp_trace x')"
  using assms
proof (induction evs arbitrary: c x)
  case (Cons ev evs)
  show ?case
  proof (cases "passes ev")
    case True
    obtain s1 x1 where e: "proxy_event cd cfg ev x = (s1, x1)" by fastforce
    note proxy_event_observes [OF Cons.prems(1) True e]
    then have o1: "observes cfg (capture_event cd ev c) (tp_requests x1, tp_trace x1)" and s1: "s1 = TapRunning"
      by blast+
    have "run_proxy cd cfg evs x1 = (st, x')" using Cons.prems(2) e s1 by simp
    from Cons.IH [OF o1 this] True show ?thesis by simp
  next
    case False
    then obtain s1 where "proxy_event cd cfg ev x = (s1, x)" "s1 \<noteq> TapRunning"
      using proxy_event_stops by blast
    with Cons.prems False show ?thesis by (cases s1) auto
  qed
qed simp

lemma captures_captured: "list_all2 (captured cfg) (captures cd evs) (tp_trace (snd (run_proxy cd cfg evs new_tap)))"
proof -
  obtain st x' where r: "run_proxy cd cfg evs new_tap = (st, x')" by fastforce
  have "observes cfg (Map.empty, []) (tp_requests new_tap, tp_trace new_tap)"
    by (simp add: observes_def new_tap_def)
  from run_proxy_observes [OF this r] r show ?thesis by (simp add: captures_def observes_def)
qed

section \<open>Loading and replaying a captured record\<close>

lemma captured_sizes:
  assumes c: "captured cfg (req, t0, cs, reason) r" and le: "\<forall>c \<in> set cs. length (snd c) < 2 ^ 32"
  shows "tr_itl_tokens r =
    (if \<exists>t \<in> set (map (length \<circ> snd) (tl cs)). 1 < t then Some (map (length \<circ> snd) (tl cs)) else None)"
    "chunk_total cs = (if cs = [] then 0 else length (snd (hd cs)) + sum_list (map (length \<circ> snd) (tl cs)))"
    "\<forall>n \<in> set (map (length \<circ> snd) (tl cs)). 0 < n"
    "cs \<noteq> [] \<Longrightarrow> 0 < length (snd (hd cs))"
proof -
  have "map (\<lambda>(a, b). as_u32 (length (snd b))) (steps_of cs) = map (\<lambda>b. as_u32 (length (snd b))) (tl cs)"
    by (cases cs) (simp_all add: steps_of_Cons)
  also have "\<dots> = map (length \<circ> snd) (tl cs)"
    using le by (cases cs) (auto simp: as_u32_def)
  finally have e: "map (\<lambda>(a, b). as_u32 (length (snd b))) (steps_of cs) = map (length \<circ> snd) (tl cs)" .
  show "tr_itl_tokens r =
    (if \<exists>t \<in> set (map (length \<circ> snd) (tl cs)). 1 < t then Some (map (length \<circ> snd) (tl cs)) else None)"
    using c unfolding captured_def Let_def prod.case e by (elim conjE)
  show "chunk_total cs = (if cs = [] then 0 else length (snd (hd cs)) + sum_list (map (length \<circ> snd) (tl cs)))"
    by (cases cs) (simp_all add: length_concat comp_def)
  have ne: "\<forall>c \<in> set cs. snd c \<noteq> []" using c by (simp add: captured_def)
  then show "\<forall>n \<in> set (map (length \<circ> snd) (tl cs)). 0 < n" by (cases cs) auto
  show "cs \<noteq> [] \<Longrightarrow> 0 < length (snd (hd cs))" using ne by (cases cs) auto
qed

lemma positive_list: "\<not> (\<exists>t \<in> set ns. 1 < t) \<Longrightarrow> \<forall>n \<in> set ns. (0::nat) < n \<Longrightarrow> replicate (length ns) 1 = ns"
  by (induction ns) force+

lemma from_secs_ms_between: "from_secs_f64 (max (ms_between a b / 1000) 0) = b - a"
  by (simp add: from_secs_f64_def ms_between_def round_half_even_def)

text \<open>The schedule of the chunks themselves: their sizes, and the time from each to the next.\<close>

definition schedule_of_chunks :: "chunks \<Rightarrow> scripted_decode" where
  "schedule_of_chunks cs =
     \<lparr>sc_first_chunk_tokens = length (snd (hd cs)),
      sc_steps = map (\<lambda>(a, b). \<lparr>sd_delay = fst b - fst a, sd_tokens = length (snd b)\<rparr>) (steps_of cs)\<rparr>"

lemma captured_loads:
  assumes c: "captured cfg (req, t0, cs, reason) r" and le: "\<forall>c \<in> set cs. length (snd c) < 2 ^ 32"
  shows "validate_record r =
    (if length cs < 2 \<and> 1 < chunk_total cs then Inl ''neither itl_ms nor itl_summary is present'' else Inr ())"
proof -
  note z = captured_sizes [OF c le]
  define ns where "ns = map (length \<circ> snd) (tl cs)"
  have t: "tr_itl_tokens r = (if \<exists>t \<in> set ns. 1 < t then Some ns else None)"
    using z(1) by (simp only: ns_def)
  have l: "length ns = length cs - 1" by (simp add: ns_def)
  have s: "ns \<noteq> [] \<Longrightarrow> sum_list ns < chunk_total cs" using z(2,4) by (cases cs) (auto simp: ns_def)
  have p: "0 \<notin> set ns" using z(3) by (force simp: ns_def)
  show ?thesis
  proof (cases "length cs < 2")
    case True
    then have "ns = []" using l by simp
    then show ?thesis using c True t by (auto simp: validate_record_def captured_def Let_def split: option.splits)
  next
    case False
    then have "ns \<noteq> []" using l by auto
    then have "\<not> chunk_total cs \<le> sum_list ns" using s by simp
    moreover have "length (steps_of cs) = length cs - 1" by (simp add: steps_of_def)
    ultimately show ?thesis
      using c False l p unfolding validate_record_def t
      by (auto simp: captured_def Let_def split: option.splits)
  qed
qed

lemma captured_replays:
  assumes c: "captured cfg (req, t0, cs, reason) r" and two: "2 \<le> length cs" and le: "chunk_total cs < 2 ^ 32"
  shows "schedule_from_record r = Some (schedule_of_chunks cs)"
proof -
  have "\<forall>c \<in> set cs. length (snd c) < 2 ^ 32"
  proof
    fix c assume "c \<in> set cs"
    then have "length (snd c) \<le> chunk_total cs"
      by (simp add: length_concat member_le_sum_list comp_def)
    with le show "length (snd c) < 2 ^ 32" by simp
  qed
  note z = captured_sizes [OF c this]
  define ns where "ns = map (length \<circ> snd) (tl cs)"
  have t: "tr_itl_tokens r = (if \<exists>t \<in> set ns. 1 < t then Some ns else None)"
    using z(1) by (simp only: ns_def)
  have l: "length ns = length (steps_of cs)" by (simp add: ns_def steps_of_def)
  have g: "tr_itl_ms r = Some (map (\<lambda>(a, b). ms_between (fst a) (fst b)) (steps_of cs))" "tr_output_tokens r = chunk_total cs"
    using c two by (simp_all add: captured_def)
  have tok: "(case tr_itl_tokens r of Some t \<Rightarrow> if length t = length (steps_of cs) then Some t else None
      | None \<Rightarrow> Some (replicate (length (steps_of cs)) 1)) = Some ns"
    using t l positive_list [of ns] z(3) by (simp add: ns_def)
  have ne: "cs \<noteq> []" using two by auto
  have hd: "chunk_total cs - sum_list ns = length (snd (hd cs))" "0 < length (snd (hd cs))"
    using z(2) z(4) [OF ne] ne by (simp_all add: ns_def)
  have steps: "zip (map (\<lambda>(a, b). ms_between (fst a) (fst b)) (steps_of cs)) ns =
      map (\<lambda>(a, b). (ms_between (fst a) (fst b), length (snd b))) (steps_of cs)"
  proof -
    have "ns = map (\<lambda>(a, b). length (snd b)) (steps_of cs)"
      using two by (cases cs) (simp_all add: ns_def steps_of_Cons comp_def)
    then show ?thesis by (simp add: zip_map_map zip_same_conv_map case_prod_beta comp_def)
  qed
  have pos: "max (length (snd b)) 1 = length (snd b)" if "(a, b) \<in> set (steps_of cs)" for a b
  proof -
    have "b \<in> set cs" using that set_zip_rightD [of a b cs "tl cs"] list.set_sel(2) [OF ne] by (auto simp: steps_of_def)
    moreover have "\<forall>c \<in> set cs. snd c \<noteq> []" using c by (simp add: captured_def)
    ultimately have "1 \<le> length (snd b)" by (simp add: Suc_le_eq)
    then show ?thesis by (rule max_absorb1)
  qed
  have first: "max (chunk_total cs - sum_list ns) 1 mod 2 ^ 32 = length (snd (hd cs))"
  proof -
    have "length (snd (hd cs)) < 2 ^ 32" using diff_le_self [of "chunk_total cs" "sum_list ns"] hd(1) le by linarith
    moreover have "max (length (snd (hd cs))) 1 = length (snd (hd cs))" using hd(2) by (intro max_absorb1) linarith
    ultimately show ?thesis by (simp only: hd(1) mod_less)
  qed
  have later: "map (\<lambda>(ms, t). \<lparr>sd_delay = from_secs_f64 (max (ms / 1000) 0), sd_tokens = max t 1\<rparr>)
        (map (\<lambda>(a, b). (ms_between (fst a) (fst b), length (snd b))) (steps_of cs)) = sc_steps (schedule_of_chunks cs)"
    using pos unfolding schedule_of_chunks_def by (auto simp: from_secs_ms_between simp del: One_nat_def)
  show ?thesis
    unfolding schedule_from_record_def g option.case length_map tok Let_def steps first later
    by (simp add: schedule_of_chunks_def)
qed

section \<open>The proxy as a whole\<close>

fun from_frontend :: "tap_event \<Rightarrow> frame list option" where
  "from_frontend (FromFrontend _ frames _) = Some frames"
| "from_frontend _ = None"

fun from_engine :: "tap_event \<Rightarrow> frame list option" where
  "from_engine (FromEngine _ frames _) = Some frames"
| "from_engine _ = None"

lemma run_proxy_forwards:
  assumes "run_proxy cd cfg evs x = (st, x')"
  shows "tp_upstream x' = tp_upstream x @
      map ((#) (tap_engine_identity cfg)) (List.map_filter from_frontend (takeWhile passes evs)) \<and>
    tp_downstream x' = tp_downstream x @ List.map_filter from_engine (takeWhile passes evs)"
  using assms
proof (induction evs arbitrary: x)
  case (Cons ev evs)
  show ?case
  proof (cases "passes ev")
    case True
    then obtain x1 where e: "proxy_event cd cfg ev x = (TapRunning, x1)"
      and f: "tp_upstream x1 = tp_upstream x @ (case from_frontend ev of None \<Rightarrow> [] | Some fs \<Rightarrow> [tap_engine_identity cfg # fs])"
        "tp_downstream x1 = tp_downstream x @ (case from_engine ev of None \<Rightarrow> [] | Some fs \<Rightarrow> [fs])"
      by (cases ev) (auto simp: observe_output_fields)
    have "run_proxy cd cfg evs x1 = (st, x')" using Cons.prems e by simp
    from Cons.IH [OF this] True f show ?thesis by (simp add: map_filter_simps split: option.splits)
  next
    case False
    then obtain s1 where "proxy_event cd cfg ev x = (s1, x)" "s1 \<noteq> TapRunning"
      using proxy_event_stops by blast
    with Cons.prems False show ?thesis by (cases s1) (auto simp: map_filter_simps)
  qed
qed (simp add: map_filter_simps)

text \<open>C25: The tap is transparent: whatever the observation makes of a message, and whether or not it
  decodes, every message the proxy handles is forwarded exactly once, unchanged and in order; what
  goes to the engine is only prefixed with the engine's socket identity.
\<close>

theorem tap_transparent:
  "tp_upstream (snd (run_proxy cd cfg evs new_tap)) =
     map ((#) (tap_engine_identity cfg)) (List.map_filter from_frontend (takeWhile passes evs)) \<and>
   tp_downstream (snd (run_proxy cd cfg evs new_tap)) = List.map_filter from_engine (takeWhile passes evs)"
proof -
  obtain st x' where "run_proxy cd cfg evs new_tap = (st, x')" by fastforce
  from run_proxy_forwards [OF this] this show ?thesis by (simp add: new_tap_def)
qed

text \<open>C20: The trace refines the abstract capture: the records written are, in order, those of the
  requests that finished without an abort, each with the request's prompt fingerprint, the time to
  its first chunk, one gap per later chunk, and, when tokens are recorded, exactly the ids
  delivered.
\<close>

theorem tap_captures:
  "list_all2 (captured cfg) (captures cd evs) (tp_trace (snd (run_proxy cd cfg evs new_tap)))"
  by (rule captures_captured)

text \<open>Capture and replay are inverse: the schedule replayed from the record of a request that
  delivered at least two chunks, and fewer than \<open>2 ^ 32\<close> tokens, has the captured chunk
  sizes and the captured time between chunks.
\<close>

theorem capture_replays:
  assumes "i < length (captures cd evs)" "captures cd evs ! i = (req, t0, cs, reason)"
    and "2 \<le> length cs" "chunk_total cs < 2 ^ 32"
  shows "schedule_from_record (tp_trace (snd (run_proxy cd cfg evs new_tap)) ! i) = Some (schedule_of_chunks cs)"
proof -
  have "captured cfg (captures cd evs ! i) (tp_trace (snd (run_proxy cd cfg evs new_tap)) ! i)"
    by (rule list_all2_nthD [OF captures_captured assms(1)])
  with assms(2) have "captured cfg (req, t0, cs, reason) (tp_trace (snd (run_proxy cd cfg evs new_tap)) ! i)"
    by simp
  from captured_replays [OF this assms(3,4)] show ?thesis .
qed

text \<open>C29: A captured record passes the validation of the trace loader exactly when its request
  delivered at least two chunks or at most one token. A request whose whole output of several
  tokens arrived in a single chunk leaves a line the loader refuses.
\<close>

theorem capture_loads:
  assumes "i < length (captures cd evs)" "captures cd evs ! i = (req, t0, cs, reason)"
    and "\<forall>c \<in> set cs. length (snd c) < 2 ^ 32"
  shows "validate_record (tp_trace (snd (run_proxy cd cfg evs new_tap)) ! i) =
    (if length cs < 2 \<and> 1 < chunk_total cs then Inl ''neither itl_ms nor itl_summary is present'' else Inr ())"
proof -
  have "captured cfg (captures cd evs ! i) (tp_trace (snd (run_proxy cd cfg evs new_tap)) ! i)"
    by (rule list_all2_nthD [OF captures_captured assms(1)])
  with assms(2) have "captured cfg (req, t0, cs, reason) (tp_trace (snd (run_proxy cd cfg evs new_tap)) ! i)"
    by simp
  from captured_loads [OF this assms(3)] show ?thesis .
qed

section \<open>Witnesses\<close>

text \<open>One request; the engine's messages deliver two tokens, then three, or two in a single chunk.\<close>

definition tap_request :: engine_request where
  "tap_request =
     \<lparr>req_id = ''r'', req_client = 0, req_prompt = Some [1, 2, 3], req_sampling = None, req_lora = None,
      req_cache_salt = None, req_priority = 0, req_arrival = Fin 0, req_mm_hashes = None\<rparr>"

definition tap_message :: "u32 list \<Rightarrow> finish_reason option \<Rightarrow> envelope" where
  "tap_message toks finish =
     RequestBatch 0 [\<lparr>out_id = ''r'', out_tokens = toks, out_finish = finish, out_prefill_stats = None,
       out_lifecycle = None, out_kv_params = None\<rparr>] None 0 None"

definition tap_codec :: codec where
  "tap_codec =
     \<lparr>cd_request = \<lambda>_. Inr tap_request, cd_ids = \<lambda>_. Inl ''not a list'',
      cd_outputs = \<lambda>frames.
        if frames = [[1]] then Inr (tap_message [5, 6] None)
        else if frames = [[2]] then Inr (tap_message [7, 8, 9] (Some FStop))
        else if frames = [[3]] then Inr (tap_message [5, 6] (Some FStop))
        else Inl ''malformed''\<rparr>"

definition tap_setup :: tap_config where
  "tap_setup =
     \<lparr>tap_block_size = 2, tap_record_tokens = RecordOn, tap_step_stats_on = False, tap_capture_start = 0,
      tap_engine_identity = [0]\<rparr>"

lemmas tap_demo = tap_codec_def tap_message_def tap_request_def captures_def capture_output_def delivered_def

abbreviation two_chunks :: "tap_event list" where
  "two_chunks \<equiv> [FromFrontend 10 [[0], []] True, FromEngine 20 [[1]] True, FromEngine 32 [[2]] True, TapShutdown]"

abbreviation one_chunk :: "tap_event list" where
  "one_chunk \<equiv> [FromFrontend 10 [[0], []] True, FromEngine 20 [[3]] True, TapShutdown]"

lemma two_chunks_captures:
  "captures tap_codec two_chunks = [(tap_request, 10, [(20, [5, 6]), (32, [7, 8, 9])], FStop)]"
  by (simp add: tap_demo)

lemma one_chunk_captures: "captures tap_codec one_chunk = [(tap_request, 10, [(20, [5, 6])], FStop)]"
  by (simp add: tap_demo)

theorem capture_replays_witness:
  "schedule_from_record (tp_trace (snd (run_proxy tap_codec tap_setup two_chunks new_tap)) ! 0) =
     Some \<lparr>sc_first_chunk_tokens = 2, sc_steps = [\<lparr>sd_delay = 12, sd_tokens = 3\<rparr>]\<rparr>"
  using capture_replays [of 0 tap_codec two_chunks tap_request 10 "[(20, [5, 6]), (32, [7, 8, 9])]" FStop tap_setup]
  by (simp add: two_chunks_captures schedule_of_chunks_def steps_of_def)

theorem capture_loads_witness:
  "validate_record (tp_trace (snd (run_proxy tap_codec tap_setup one_chunk new_tap)) ! 0) =
     Inl ''neither itl_ms nor itl_summary is present''"
  using capture_loads [of 0 tap_codec one_chunk tap_request 10 "[(20, [5, 6])]" FStop tap_setup]
  by (simp add: one_chunk_captures)

end
