(* ===== verification/Trace_File.thy ===== *)
theory Trace_File
  imports Trace Tokens
begin

text \<open>
  Trace files (\<^verbatim>\<open>crates/sim-trace/src/trace.rs\<close>): the meta header, the JSON form of a record as
  its serde attributes give it, and the readers and the writer of the JSONL stream. The JSON text
  parser and printer (\<^verbatim>\<open>serde_json\<close>) are the two fields of a \<open>json_codec\<close>; what the reader
  relies on is that parsing a printed value gives the value back and that printed values carry no
  surrounding white space. Objects have distinct keys. A stream is the list of what its line
  iterator yields: a line, the unexpected end of an unfinished gzip stream, or an I/O error.
\<close>

section \<open>The meta header\<close>

record trace_meta =
  tm_model :: "string option"
  tm_gpu :: "string option"
  tm_tp :: "nat option"
  tm_max_num_seqs :: "nat option"
  tm_source :: "string option"
  tm_block_size :: "nat option"
  tm_config_hash :: "string option"
  tm_vllm_version :: "string option"
  tm_ready_response_hex :: "string option"
  tm_extra :: "(string \<times> json) list"

definition default_meta :: trace_meta where
  "default_meta = \<lparr>tm_model = None, tm_gpu = None, tm_tp = None, tm_max_num_seqs = None,
     tm_source = None, tm_block_size = None, tm_config_hash = None, tm_vllm_version = None,
     tm_ready_response_hex = None, tm_extra = []\<rparr>"

section \<open>Fields of a JSON object\<close>

definition opt_field :: "string \<Rightarrow> ('a \<Rightarrow> json) \<Rightarrow> 'a option \<Rightarrow> (string \<times> json) list" where
  "opt_field k enc x = (case x of None \<Rightarrow> [] | Some v \<Rightarrow> [(k, enc v)])"

definition of_option :: "'a option \<Rightarrow> 'a result" where
  "of_option x = (case x of None \<Rightarrow> Inl ''invalid type'' | Some v \<Rightarrow> Inr v)"

text \<open>A required field, a field with a default for its absence, an optional field (absent or null).\<close>

definition req_field :: "string \<Rightarrow> (json \<Rightarrow> 'a option) \<Rightarrow> json \<Rightarrow> 'a result" where
  "req_field k dec j = (case json_get k j of None \<Rightarrow> Inl (''missing field '' @ k) | Some v \<Rightarrow> of_option (dec v))"

definition default_field :: "string \<Rightarrow> 'a \<Rightarrow> (json \<Rightarrow> 'a option) \<Rightarrow> json \<Rightarrow> 'a result" where
  "default_field k d dec j = (case json_get k j of None \<Rightarrow> Inr d | Some v \<Rightarrow> of_option (dec v))"

definition option_field :: "string \<Rightarrow> (json \<Rightarrow> 'a option) \<Rightarrow> json \<Rightarrow> 'a option result" where
  "option_field k dec j =
     (case json_get k j of
        None \<Rightarrow> Inr None
      | Some v \<Rightarrow> if v = JNull then Inr None else of_option (map_option Some (dec v)))"

definition json_nat :: "nat \<Rightarrow> json" where
  "json_nat n = JInt (int n)"

definition json_word :: "'w::len word \<Rightarrow> json" where
  "json_word w = JInt (uint w)"

definition json_list :: "('a \<Rightarrow> json) \<Rightarrow> 'a list \<Rightarrow> json" where
  "json_list enc xs = JArray (map enc xs)"

fun json_as_f64 :: "json \<Rightarrow> f64 option" where
  "json_as_f64 (JFloat x) = Some x"
| "json_as_f64 (JInt i) = Some (of_int i)"
| "json_as_f64 _ = None"

definition json_as_nat32 :: "json \<Rightarrow> nat option" where
  "json_as_nat32 j =
     (case json_as_u64 j of None \<Rightarrow> None | Some n \<Rightarrow> if n < 2 ^ 32 then Some n else None)"

definition json_as_word32 :: "json \<Rightarrow> u32 option" where
  "json_as_word32 j = map_option of_nat (json_as_nat32 j)"

definition json_as_word64 :: "json \<Rightarrow> u64 option" where
  "json_as_word64 j = map_option of_nat (json_as_u64 j)"

fun traverse_option :: "('a \<Rightarrow> 'b option) \<Rightarrow> 'a list \<Rightarrow> 'b list option" where
  "traverse_option f [] = Some []"
| "traverse_option f (x # xs) =
     (case f x of
        None \<Rightarrow> None
      | Some y \<Rightarrow> map_option (\<lambda>ys. y # ys) (traverse_option f xs))"

definition json_as_list :: "(json \<Rightarrow> 'a option) \<Rightarrow> json \<Rightarrow> 'a list option" where
  "json_as_list dec j = (case json_as_array j of None \<Rightarrow> None | Some xs \<Rightarrow> traverse_option dec xs)"

section \<open>The JSON form of the meta header\<close>

definition meta_known_keys :: "string list" where
  "meta_known_keys = [''model'', ''gpu'', ''tp'', ''max_num_seqs'', ''source'', ''block_size'',
     ''config_hash'', ''vllm_version'', ''ready_response_hex'']"

text \<open>\<^verbatim>\<open>MetaWrapper\<close> around the struct; the freeform entries are flattened beside the fields.\<close>

definition meta_to_json :: "trace_meta \<Rightarrow> json" where
  "meta_to_json m = JObject [(''meta'', JObject
     (opt_field ''model'' JString (tm_model m) @
      opt_field ''gpu'' JString (tm_gpu m) @
      opt_field ''tp'' json_nat (tm_tp m) @
      opt_field ''max_num_seqs'' json_nat (tm_max_num_seqs m) @
      opt_field ''source'' JString (tm_source m) @
      opt_field ''block_size'' json_nat (tm_block_size m) @
      opt_field ''config_hash'' JString (tm_config_hash m) @
      opt_field ''vllm_version'' JString (tm_vllm_version m) @
      opt_field ''ready_response_hex'' JString (tm_ready_response_hex m) @
      tm_extra m))]"

fun json_entries :: "json \<Rightarrow> (string \<times> json) list result" where
  "json_entries (JObject kvs) = Inr kvs"
| "json_entries _ = Inl ''invalid type: expected a map''"

definition meta_of_json :: "json \<Rightarrow> trace_meta result" where
  "meta_of_json w =
     (case json_get ''meta'' w of None \<Rightarrow> Inl ''missing field meta'' | Some j \<Rightarrow>
      bind_result (json_entries j) (\<lambda>kvs.
      bind_result (option_field ''model'' json_as_str j) (\<lambda>model.
      bind_result (option_field ''gpu'' json_as_str j) (\<lambda>gpu.
      bind_result (option_field ''tp'' json_as_nat32 j) (\<lambda>tp.
      bind_result (option_field ''max_num_seqs'' json_as_u64 j) (\<lambda>max_num_seqs.
      bind_result (option_field ''source'' json_as_str j) (\<lambda>source.
      bind_result (option_field ''block_size'' json_as_u64 j) (\<lambda>bsz.
      bind_result (option_field ''config_hash'' json_as_str j) (\<lambda>config_hash.
      bind_result (option_field ''vllm_version'' json_as_str j) (\<lambda>vllm_version.
      bind_result (option_field ''ready_response_hex'' json_as_str j) (\<lambda>ready_hex.
        Inr \<lparr>tm_model = model, tm_gpu = gpu, tm_tp = tp, tm_max_num_seqs = max_num_seqs,
             tm_source = source, tm_block_size = bsz, tm_config_hash = config_hash,
             tm_vllm_version = vllm_version, tm_ready_response_hex = ready_hex,
             tm_extra = filter (\<lambda>kv. fst kv \<notin> set meta_known_keys) kvs\<rparr>)))))))))))"

section \<open>The JSON form of a record\<close>

fun finish_reason_str :: "trace_finish_reason \<Rightarrow> string" where
  "finish_reason_str TStop = ''stop''"
| "finish_reason_str TLength = ''length''"
| "finish_reason_str TAbort = ''abort''"
| "finish_reason_str TError = ''error''"
| "finish_reason_str TRepetition = ''repetition''"

definition finish_reason_json :: "trace_finish_reason \<Rightarrow> json" where
  "finish_reason_json r = JString (finish_reason_str r)"

definition json_as_finish_reason :: "json \<Rightarrow> trace_finish_reason option" where
  "json_as_finish_reason j =
     (case json_as_str j of None \<Rightarrow> None | Some s \<Rightarrow>
        if s = ''stop'' then Some TStop
        else if s = ''length'' then Some TLength
        else if s = ''abort'' then Some TAbort
        else if s = ''error'' then Some TError
        else if s = ''repetition'' then Some TRepetition
        else None)"

definition summary_to_json :: "itl_summary \<Rightarrow> json" where
  "summary_to_json s = JObject [(''mean_ms'', JFloat (mean_ms s)), (''count'', json_nat (itl_count s))]"

definition json_as_summary :: "json \<Rightarrow> itl_summary option" where
  "json_as_summary j =
     (case (req_field ''mean_ms'' json_as_f64 j, req_field ''count'' json_as_u64 j) of
        (Inr mean, Inr n) \<Rightarrow> Some \<lparr>mean_ms = mean, itl_count = n\<rparr>
      | _ \<Rightarrow> None)"

definition context_to_json :: "itl_context \<Rightarrow> json" where
  "context_to_json c = JObject
     [(''num_running'', json_list json_nat (ctx_num_running c)),
      (''prefill_tokens'', json_list json_nat (ctx_prefill_tokens c))]"

definition json_as_context :: "json \<Rightarrow> itl_context option" where
  "json_as_context j =
     (case (req_field ''num_running'' (json_as_list json_as_nat32) j,
            req_field ''prefill_tokens'' (json_as_list json_as_nat32) j) of
        (Inr running, Inr prefill) \<Rightarrow> Some \<lparr>ctx_num_running = running, ctx_prefill_tokens = prefill\<rparr>
      | _ \<Rightarrow> None)"

definition record_to_json :: "trace_record \<Rightarrow> json" where
  "record_to_json r = JObject
     ([(''prompt_tokens'', json_nat (tr_prompt_tokens r)),
       (''cached_tokens'', json_nat (tr_cached_tokens r)),
       (''output_tokens'', json_nat (tr_output_tokens r)),
       (''ttft_ms'', JFloat (tr_ttft_ms r))] @
      opt_field ''itl_ms'' (json_list JFloat) (tr_itl_ms r) @
      opt_field ''itl_tokens'' (json_list json_nat) (tr_itl_tokens r) @
      opt_field ''itl_summary'' summary_to_json (tr_itl_summary r) @
      [(''concurrency'', json_nat (tr_concurrency r))] @
      opt_field ''arrival_ms'' JFloat (tr_arrival_ms r) @
      opt_field ''itl_ctx'' context_to_json (tr_itl_ctx r) @
      opt_field ''block_hashes'' (json_list json_word) (tr_block_hashes r) @
      opt_field ''mm_hashes'' (json_list JString) (tr_mm_hashes r) @
      opt_field ''output_token_ids'' (json_list json_word) (tr_output_token_ids r) @
      opt_field ''finish_reason'' finish_reason_json (tr_finish_reason r))"

definition record_of_json :: "json \<Rightarrow> trace_record result" where
  "record_of_json j =
     bind_result (json_entries j) (\<lambda>_.
     bind_result (req_field ''prompt_tokens'' json_as_u64 j) (\<lambda>prompt_tokens.
     bind_result (default_field ''cached_tokens'' 0 json_as_u64 j) (\<lambda>cached_tokens.
     bind_result (req_field ''output_tokens'' json_as_u64 j) (\<lambda>output_tokens.
     bind_result (req_field ''ttft_ms'' json_as_f64 j) (\<lambda>ttft_ms.
     bind_result (option_field ''itl_ms'' (json_as_list json_as_f64) j) (\<lambda>itl_ms.
     bind_result (option_field ''itl_tokens'' (json_as_list json_as_nat32) j) (\<lambda>itl_tokens.
     bind_result (option_field ''itl_summary'' json_as_summary j) (\<lambda>summary.
     bind_result (default_field ''concurrency'' default_concurrency json_as_u64 j) (\<lambda>concurrency.
     bind_result (option_field ''arrival_ms'' json_as_f64 j) (\<lambda>arrival_ms.
     bind_result (option_field ''itl_ctx'' json_as_context j) (\<lambda>ctx.
     bind_result (option_field ''block_hashes'' (json_as_list json_as_word64) j) (\<lambda>block_hashes.
     bind_result (option_field ''mm_hashes'' (json_as_list json_as_str) j) (\<lambda>mm_hashes.
     bind_result (option_field ''output_token_ids'' (json_as_list json_as_word32) j) (\<lambda>ids.
     bind_result (option_field ''finish_reason'' json_as_finish_reason j) (\<lambda>reason.
       Inr \<lparr>tr_prompt_tokens = prompt_tokens, tr_cached_tokens = cached_tokens,
            tr_output_tokens = output_tokens, tr_ttft_ms = ttft_ms, tr_itl_ms = itl_ms,
            tr_itl_tokens = itl_tokens, tr_itl_summary = summary, tr_concurrency = concurrency,
            tr_arrival_ms = arrival_ms, tr_itl_ctx = ctx, tr_block_hashes = block_hashes,
            tr_mm_hashes = mm_hashes, tr_output_token_ids = ids,
            tr_finish_reason = reason\<rparr>)))))))))))))))"

section \<open>Streams\<close>

record json_codec =
  jc_parse :: "string \<Rightarrow> json result"
  jc_print :: "json \<Rightarrow> string"

datatype line_item = Line string | LineEof | LineErr string

definition is_space :: "char \<Rightarrow> bool" where
  "is_space c \<longleftrightarrow> (of_char c :: nat) \<in> {9, 10, 11, 12, 13, 32, 133, 160}"

definition trim :: "string \<Rightarrow> string" where
  "trim s = rev (dropWhile is_space (rev (dropWhile is_space s)))"

text \<open>\<^verbatim>\<open>str::contains\<close> and \<^verbatim>\<open>str::starts_with\<close>.\<close>

definition str_starts_with :: "string \<Rightarrow> string \<Rightarrow> bool" where
  "str_starts_with needle s \<longleftrightarrow> take (length needle) s = needle"

definition str_contains :: "string \<Rightarrow> string \<Rightarrow> bool" where
  "str_contains needle s \<longleftrightarrow> list_ex (\<lambda>i. str_starts_with needle (drop i s)) [0..<Suc (length s)]"

text \<open>\<^verbatim>\<open>with_context\<close>: the context is what the error then displays.\<close>

definition err_context :: "string \<Rightarrow> 'a result \<Rightarrow> 'a result" where
  "err_context msg r = (case r of Inl _ \<Rightarrow> Inl msg | Inr v \<Rightarrow> Inr v)"

definition line_msg :: "nat \<Rightarrow> string \<Rightarrow> string" where
  "line_msg n s = ''line '' @ nat_str n @ '': '' @ s"

definition check_line :: "nat \<Rightarrow> trace_record \<Rightarrow> trace_record result" where
  "check_line n r = (case validate_record r of Inl e \<Rightarrow> Inl (line_msg n e) | Inr _ \<Rightarrow> Inr r)"

definition parse_record_line :: "json_codec \<Rightarrow> nat \<Rightarrow> string \<Rightarrow> trace_record result" where
  "parse_record_line C n t =
     bind_result (err_context (line_msg n ''invalid trace record'')
       (bind_result (jc_parse C t) record_of_json)) (check_line n)"

fun read_records :: "json_codec \<Rightarrow> nat \<Rightarrow> line_item list \<Rightarrow> trace_record list result" where
  "read_records C n [] = Inr []"
| "read_records C n (LineEof # rest) = Inr []"
| "read_records C n (LineErr e # rest) = Inl (''reading line '' @ nat_str n)"
| "read_records C n (Line l # rest) =
     (let t = trim l
      in if t = [] then read_records C (Suc n) rest
         else bind_result (parse_record_line C n t) (\<lambda>r.
              bind_result (read_records C (Suc n) rest) (\<lambda>rs. Inr (r # rs))))"

text \<open>The first line that is not blank decides whether the stream has a header.\<close>

fun read_trace_from :: "json_codec \<Rightarrow> nat \<Rightarrow> line_item list \<Rightarrow> (trace_meta \<times> trace_record list) result" where
  "read_trace_from C n [] = Inr (default_meta, [])"
| "read_trace_from C n (LineEof # rest) = Inr (default_meta, [])"
| "read_trace_from C n (LineErr e # rest) = Inl (''reading line '' @ nat_str n)"
| "read_trace_from C n (Line l # rest) =
     (let t = trim l
      in if t = [] then read_trace_from C (Suc n) rest
         else bind_result (err_context (line_msg n ''invalid JSON'') (jc_parse C t)) (\<lambda>v.
              if json_get ''meta'' v \<noteq> None
              then bind_result (err_context (line_msg n ''invalid meta object'') (meta_of_json v)) (\<lambda>m.
                   bind_result (read_records C (Suc n) rest) (\<lambda>rs. Inr (m, rs)))
              else bind_result (err_context (line_msg n ''invalid trace record'') (record_of_json v)) (\<lambda>r.
                   bind_result (check_line n r) (\<lambda>r.
                   bind_result (read_records C (Suc n) rest) (\<lambda>rs. Inr (default_meta, r # rs))))))"

definition read_trace :: "json_codec \<Rightarrow> line_item list \<Rightarrow> (trace_meta \<times> trace_record list) result" where
  "read_trace C items = read_trace_from C 1 items"

fun read_meta_from :: "json_codec \<Rightarrow> nat \<Rightarrow> line_item list \<Rightarrow> trace_meta result" where
  "read_meta_from C n [] = Inr default_meta"
| "read_meta_from C n (LineEof # rest) = Inl (''reading line '' @ nat_str n)"
| "read_meta_from C n (LineErr e # rest) = Inl (''reading line '' @ nat_str n)"
| "read_meta_from C n (Line l # rest) =
     (let t = trim l
      in if t = [] then read_meta_from C (Suc n) rest
         else bind_result (err_context (line_msg n ''invalid JSON'') (jc_parse C t)) (\<lambda>v.
              if json_get ''meta'' v \<noteq> None
              then err_context (line_msg n ''invalid meta object'') (meta_of_json v)
              else Inr default_meta))"

definition read_meta :: "json_codec \<Rightarrow> line_item list \<Rightarrow> trace_meta result" where
  "read_meta C items = read_meta_from C 1 items"

text \<open>The writer, as the lines it puts on the stream.\<close>

definition append_record :: "json_codec \<Rightarrow> trace_record \<Rightarrow> string" where
  "append_record C r = jc_print C (record_to_json r)"

definition write_trace :: "json_codec \<Rightarrow> trace_meta \<Rightarrow> trace_record list \<Rightarrow> string list" where
  "write_trace C m rs = jc_print C (meta_to_json m) # map (append_record C) rs"

text \<open>A path names a compressed file when the extension of its last component is \<^verbatim>\<open>gz\<close>; a leading
  dot alone starts no extension.\<close>

definition file_name :: "string \<Rightarrow> string" where
  "file_name path = rev (takeWhile (\<lambda>c. c \<noteq> CHR ''/'') (dropWhile (\<lambda>c. c = CHR ''/'') (rev path)))"

definition is_gz :: "string \<Rightarrow> bool" where
  "is_gz path =
     (let name = file_name path
      in 3 < length name \<and> drop (length name - 3) name = ''.gz'')"

end
