(* ===== verification/Perfetto.thy ===== *)
theory Perfetto
  imports Trace_File Tap "HOL-Library.Product_Lexorder"
begin

text \<open>
  The timeline converter (\<^verbatim>\<open>crates/sim-trace/src/perfetto.rs\<close>): a trace and its sidecar overlays
  become Chrome trace events. Request spans are packed into lanes by greedy interval
  partitioning, counters are sorted sample by sample, and the scheduler steps get a track of
  their own; \<^verbatim>\<open>crates/sim-protocol/src/step_stats.rs\<close> derives the overlays from the recorded
  scheduler statistics. \<open>write_perfetto\<close> returns the events of the document it writes; the JSON
  text and the writer's I/O errors belong to the caller.
\<close>

section \<open>Events\<close>

record trace_event =
  te_phase :: string
  te_pid :: nat
  te_tid :: nat
  te_name :: string
  te_cat :: "string option"
  te_ts :: "f64 option"
  te_dur :: "f64 option"
  te_cname :: "string option"
  te_args :: "json option"

definition PID :: nat where "PID = 1"
definition STEP_PID :: nat where "STEP_PID = 2"

definition COLOR_PREFILL :: string where "COLOR_PREFILL = ''rail_animation''"
definition COLOR_DECODE :: string where "COLOR_DECODE = ''thread_state_running''"
definition COLOR_MIXED :: string where "COLOR_MIXED = ''rail_load''"

record perfetto_options =
  po_process_name :: "string option"
  po_track_per_request :: bool

record counter_series =
  cs_name :: string
  cs_samples :: "(f64 \<times> f64) list"

record step_span =
  span_start_ms :: f64
  span_end_ms :: f64
  span_running :: nat
  span_waiting :: nat
  span_prefill_requests :: nat
  span_prefill_tokens :: nat
  span_kv_usage :: f64
  span_spec :: "(nat \<times> nat) option"

record overlays =
  ov_counters :: "counter_series list"
  ov_steps :: "step_span list"

record perfetto_summary =
  ps_placed :: nat
  ps_dropped :: nat
  ps_events :: nat

definition us :: "f64 \<Rightarrow> f64" where
  "us ms = ms * 1000"

fun json_set :: "string \<Rightarrow> json \<Rightarrow> json \<Rightarrow> json" where
  "json_set k v (JObject m) = JObject (filter (\<lambda>kv. fst kv \<noteq> k) m @ [(k, v)])"
| "json_set k v j = j"

text \<open>A metadata event names a process or a thread.\<close>

definition name_event :: "string \<Rightarrow> nat \<Rightarrow> nat \<Rightarrow> string \<Rightarrow> trace_event" where
  "name_event what pid tid label =
     \<lparr>te_phase = ''M'', te_pid = pid, te_tid = tid, te_name = what, te_cat = None, te_ts = None,
      te_dur = None, te_cname = None, te_args = Some (JObject [(''name'', JString label)])\<rparr>"

section \<open>Requests\<close>

definition first_chunk_tokens :: "trace_record \<Rightarrow> nat" where
  "first_chunk_tokens r =
     (case tr_itl_tokens r of
        Some toks \<Rightarrow> tr_output_tokens r - sum_list toks
      | None \<Rightarrow> min (tr_output_tokens r) 1)"

definition span_duration_ms :: "trace_record \<Rightarrow> f64" where
  "span_duration_ms r =
     tr_ttft_ms r +
     (case tr_itl_ms r of
        Some gaps \<Rightarrow> sum_list gaps
      | None \<Rightarrow> (case tr_itl_summary r of None \<Rightarrow> 0 | Some s \<Rightarrow> mean_ms s * real (itl_count s)))"

definition token_slice :: "trace_record \<Rightarrow> nat \<Rightarrow> nat \<Rightarrow> u32 list option" where
  "token_slice r start len =
     (case tr_output_token_ids r of
        None \<Rightarrow> None
      | Some ids \<Rightarrow>
          let stop = min (start + len) (length ids)
          in if start \<le> stop then Some (take (stop - start) (drop start ids)) else None)"

definition arrival_of :: "trace_record \<Rightarrow> f64" where
  "arrival_of r = (case tr_arrival_ms r of None \<Rightarrow> 0 | Some a \<Rightarrow> a)"

text \<open>What a conversion accumulates: the events and the two per-gap counter series.\<close>

record timeline =
  tl_events :: "trace_event list"
  tl_running :: "(f64 \<times> f64) list"
  tl_prefill :: "(f64 \<times> f64) list"

definition prefill_args :: "trace_record \<Rightarrow> nat \<Rightarrow> json" where
  "prefill_args r index =
     (let first_tokens = first_chunk_tokens r;
          args = JObject
            [(''req'', json_nat index),
             (''prompt_tokens'', json_nat (tr_prompt_tokens r)),
             (''cached_tokens'', json_nat (tr_cached_tokens r)),
             (''output_tokens'', json_nat (tr_output_tokens r)),
             (''ttft_ms'', JFloat (tr_ttft_ms r)),
             (''first_chunk_tokens'', json_nat first_tokens)];
          args = (case tr_finish_reason r of None \<Rightarrow> args
                  | Some reason \<Rightarrow> json_set ''finish_reason'' (finish_reason_json reason) args)
      in case token_slice r 0 first_tokens of None \<Rightarrow> args
         | Some ids \<Rightarrow> json_set ''token_ids'' (json_list json_word ids) args)"

definition prefill_event :: "trace_record \<Rightarrow> nat \<Rightarrow> nat \<Rightarrow> trace_event" where
  "prefill_event r tid index =
     \<lparr>te_phase = ''X'', te_pid = PID, te_tid = tid, te_name = ''req'' @ nat_str index @ '' prefill'',
      te_cat = Some ''prefill'', te_ts = Some (us (arrival_of r)), te_dur = Some (us (tr_ttft_ms r)),
      te_cname = Some COLOR_PREFILL, te_args = Some (prefill_args r index)\<rparr>"

definition chunk_tokens_at :: "trace_record \<Rightarrow> nat \<Rightarrow> nat" where
  "chunk_tokens_at r i =
     (case tr_itl_tokens r of
        None \<Rightarrow> 1
      | Some toks \<Rightarrow> if i < length toks then toks ! i else 1)"

text \<open>A per-gap context value, where the array has one.\<close>

definition ctx_at :: "(itl_context \<Rightarrow> nat list) \<Rightarrow> trace_record \<Rightarrow> nat \<Rightarrow> nat option" where
  "ctx_at sel r i =
     (case tr_itl_ctx r of
        None \<Rightarrow> None
      | Some ctx \<Rightarrow> if i < length (sel ctx) then Some (sel ctx ! i) else None)"

definition decode_args :: "trace_record \<Rightarrow> nat \<Rightarrow> nat \<Rightarrow> f64 \<Rightarrow> nat \<Rightarrow> json" where
  "decode_args r index i gap cursor =
     (let n = chunk_tokens_at r i;
          args = JObject [(''req'', json_nat index), (''gap_ms'', JFloat gap), (''tokens'', json_nat n)];
          args = (case ctx_at ctx_num_running r i of None \<Rightarrow> args
                  | Some v \<Rightarrow> json_set ''num_running'' (json_nat v) args);
          args = (case ctx_at ctx_prefill_tokens r i of None \<Rightarrow> args
                  | Some v \<Rightarrow> json_set ''prefill_tokens'' (json_nat v) args)
      in case token_slice r cursor n of None \<Rightarrow> args
         | Some ids \<Rightarrow> json_set ''token_ids'' (json_list json_word ids) args)"

definition decode_event :: "trace_record \<Rightarrow> nat \<Rightarrow> nat \<Rightarrow> nat \<Rightarrow> f64 \<Rightarrow> nat \<Rightarrow> f64 \<Rightarrow> trace_event" where
  "decode_event r tid index i clock cursor gap =
     (let n = chunk_tokens_at r i
      in \<lparr>te_phase = ''X'', te_pid = PID, te_tid = tid,
          te_name = (if n = 1 then ''decode'' else ''decode x'' @ nat_str n),
          te_cat = Some ''decode'', te_ts = Some (us clock), te_dur = Some (us gap),
          te_cname = Some COLOR_DECODE, te_args = Some (decode_args r index i gap cursor)\<rparr>)"

fun emit_gaps ::
  "trace_record \<Rightarrow> nat \<Rightarrow> nat \<Rightarrow> nat \<Rightarrow> f64 \<Rightarrow> nat \<Rightarrow> f64 list \<Rightarrow> timeline \<Rightarrow> timeline" where
  "emit_gaps r tid index i clock cursor [] line = line"
| "emit_gaps r tid index i clock cursor (gap # gaps) line =
     emit_gaps r tid index (Suc i) (clock + gap) (cursor + chunk_tokens_at r i) gaps
       (line\<lparr>tl_events := tl_events line @ [decode_event r tid index i clock cursor gap],
           tl_running := tl_running line @
             (case ctx_at ctx_num_running r i of None \<Rightarrow> [] | Some n \<Rightarrow> [(clock + gap, real n)]),
           tl_prefill := tl_prefill line @
             (case ctx_at ctx_prefill_tokens r i of None \<Rightarrow> [] | Some p \<Rightarrow> [(clock + gap, real p)])\<rparr>)"

definition emit_request :: "trace_record \<Rightarrow> nat \<Rightarrow> nat \<Rightarrow> timeline \<Rightarrow> timeline" where
  "emit_request r tid index line =
     (let line = line\<lparr>tl_events := tl_events line @ [prefill_event r tid index]\<rparr>
      in case tr_itl_ms r of
           None \<Rightarrow> line
         | Some gaps \<Rightarrow>
             emit_gaps r tid index 0 (arrival_of r + tr_ttft_ms r) (first_chunk_tokens r) gaps line)"

section \<open>Lanes\<close>

definition end_of :: "trace_record \<Rightarrow> f64" where
  "end_of r = arrival_of r + span_duration_ms r"

definition lane_step :: "trace_record \<Rightarrow> f64 list \<times> nat list \<Rightarrow> f64 list \<times> nat list" where
  "lane_step r st =
     (let (lane_end, lane_of) = st
      in case position (\<lambda>e. e \<le> arrival_of r) lane_end of
           Some i \<Rightarrow> (lane_end[i := end_of r], lane_of @ [i])
         | None \<Rightarrow> (lane_end @ [end_of r], lane_of @ [length lane_end]))"

definition assign_lanes :: "trace_record list \<Rightarrow> nat list \<times> nat" where
  "assign_lanes records =
     (let (lane_end, lane_of) = fold lane_step records ([], []) in (lane_of, length lane_end))"

section \<open>Counters\<close>

definition request_deltas :: "trace_record \<Rightarrow> (f64 \<times> int) list" where
  "request_deltas r = [(arrival_of r, 1), (end_of r, - 1)]"

fun running_totals :: "int \<Rightarrow> (f64 \<times> int) list \<Rightarrow> (f64 \<times> f64) list" where
  "running_totals active [] = []"
| "running_totals active ((ms, delta) # rest) =
     (ms, of_int (max (active + delta) 0)) # running_totals (active + delta) rest"

text \<open>The deltas are compared by time, then by sign: exits come before entries.\<close>

definition active_request_counter :: "trace_record list \<Rightarrow> (f64 \<times> f64) list" where
  "active_request_counter records = running_totals 0 (sort (concat (map request_deltas records)))"

definition counter_event :: "string \<Rightarrow> f64 \<times> f64 \<Rightarrow> trace_event" where
  "counter_event name sample =
     \<lparr>te_phase = ''C'', te_pid = PID, te_tid = 0, te_name = name, te_cat = None,
      te_ts = Some (us (fst sample)), te_dur = None, te_cname = None,
      te_args = Some (JObject [(name, JFloat (snd sample))])\<rparr>"

definition emit_counter :: "string \<Rightarrow> (f64 \<times> f64) list \<Rightarrow> trace_event list \<Rightarrow> trace_event list" where
  "emit_counter name samples evs =
     (if samples = [] then evs else evs @ map (counter_event name) (sort_key fst samples))"

section \<open>The step track\<close>

definition step_label :: "step_span \<Rightarrow> string \<times> string \<times> string" where
  "step_label s =
     (let prefilling = (span_prefill_requests s > 0 \<or> span_prefill_tokens s > 0);
          load = '' (+'' @ nat_str (span_prefill_requests s) @ ''r '' @ nat_str (span_prefill_tokens s) @ ''t)''
      in if prefilling \<and> span_running s > 0
         then (''prefill+decode B'' @ nat_str (span_running s) @ load, ''step_prefill'', COLOR_MIXED)
         else if prefilling then (''prefill'' @ load, ''step_prefill'', COLOR_PREFILL)
         else (''decode B'' @ nat_str (span_running s), ''step_decode'', COLOR_DECODE))"

definition step_event :: "step_span \<Rightarrow> trace_event" where
  "step_event s =
     (let dur_ms = max (span_end_ms s - span_start_ms s) 0;
          (name, cat, cname) = step_label s;
          args = JObject
            [(''running'', json_nat (span_running s)), (''waiting'', json_nat (span_waiting s)),
             (''prefill_requests'', json_nat (span_prefill_requests s)),
             (''prefill_tokens'', json_nat (span_prefill_tokens s)),
             (''kv_cache_usage'', JFloat (span_kv_usage s)), (''step_ms'', JFloat dur_ms)];
          args = (case span_spec s of None \<Rightarrow> args
                  | Some (accepted, draft) \<Rightarrow>
                      json_set ''draft'' (json_nat draft) (json_set ''accepted'' (json_nat accepted) args))
      in \<lparr>te_phase = ''X'', te_pid = STEP_PID, te_tid = 1, te_name = name, te_cat = Some cat,
          te_ts = Some (us (span_start_ms s)), te_dur = Some (us dur_ms), te_cname = Some cname,
          te_args = Some args\<rparr>)"

definition emit_step_track :: "step_span list \<Rightarrow> trace_event list \<Rightarrow> trace_event list" where
  "emit_step_track steps evs =
     (if steps = [] then evs
      else evs @ [name_event ''process_name'' STEP_PID 0 ''scheduler steps'',
                     name_event ''thread_name'' STEP_PID 1 ''steps''] @ map step_event steps)"

section \<open>The document\<close>

definition place_records :: "trace_record list \<Rightarrow> trace_record list" where
  "place_records records =
     sort_key (\<lambda>r. the (tr_arrival_ms r)) (filter (\<lambda>r. tr_arrival_ms r \<noteq> None) records)"

definition assign_tracks :: "perfetto_options \<Rightarrow> trace_record list \<Rightarrow> nat list \<times> nat" where
  "assign_tracks opts placed =
     (if po_track_per_request opts then ([0..<length placed], length placed) else assign_lanes placed)"

definition track_labels :: "perfetto_options \<Rightarrow> trace_record list \<Rightarrow> nat \<Rightarrow> string list" where
  "track_labels opts placed track_count =
     (if po_track_per_request opts
      then map (\<lambda>(i, r). ''req '' @ nat_str i @ '' (p'' @ nat_str (tr_prompt_tokens r) @ '' o'' @
                 nat_str (tr_output_tokens r) @ '')'') (enumerate 0 placed)
      else map (\<lambda>lane. ''lane '' @ nat_str lane) [0..<track_count])"

definition process_label :: "trace_meta \<Rightarrow> perfetto_options \<Rightarrow> string" where
  "process_label meta opts =
     (case po_process_name opts of
        Some name \<Rightarrow> name
      | None \<Rightarrow> (case tm_model meta of Some m \<Rightarrow> ''inference trace: '' @ m | None \<Rightarrow> ''inference trace''))"

definition emit_requests :: "trace_record list \<Rightarrow> nat list \<Rightarrow> timeline \<Rightarrow> timeline" where
  "emit_requests placed track_of line =
     fold (\<lambda>(index, r). emit_request r (track_of ! index + 1) index) (enumerate 0 placed) line"

definition write_perfetto ::
  "trace_meta \<Rightarrow> trace_record list \<Rightarrow> overlays \<Rightarrow> perfetto_options \<Rightarrow> trace_event list \<times> perfetto_summary" where
  "write_perfetto meta records ov opts =
     (let placed = place_records records;
          evs = [name_event ''process_name'' PID 0 (process_label meta opts)];
          (track_of, track_count) = assign_tracks opts placed;
          evs = evs @ map (\<lambda>(track, label). name_event ''thread_name'' PID (track + 1) label)
                     (enumerate 0 (track_labels opts placed track_count));
          line = emit_requests placed track_of \<lparr>tl_events = evs, tl_running = [], tl_prefill = []\<rparr>;
          evs = emit_counter ''active_requests'' (active_request_counter placed) (tl_events line);
          evs = emit_counter ''engine_running'' (tl_running line) evs;
          evs = emit_counter ''prefill_tokens'' (tl_prefill line) evs;
          evs = fold (\<lambda>series. emit_counter (cs_name series) (cs_samples series)) (ov_counters ov) evs;
          evs = emit_step_track (ov_steps ov) evs
      in (evs, \<lparr>ps_placed = length placed, ps_dropped = length records - length placed,
                   ps_events = length evs\<rparr>))"

text \<open>The JSON form of the document, absent fields left out.\<close>

definition event_to_json :: "trace_event \<Rightarrow> json" where
  "event_to_json e = JObject
     ([(''ph'', JString (te_phase e)), (''pid'', json_nat (te_pid e)), (''tid'', json_nat (te_tid e)),
       (''name'', JString (te_name e))] @
      opt_field ''cat'' JString (te_cat e) @ opt_field ''ts'' JFloat (te_ts e) @
      opt_field ''dur'' JFloat (te_dur e) @ opt_field ''cname'' JString (te_cname e) @
      opt_field ''args'' id (te_args e))"

definition doc_to_json :: "trace_event list \<Rightarrow> json" where
  "doc_to_json evs = JObject
     [(''traceEvents'', json_list event_to_json evs), (''displayTimeUnit'', JString ''ms'')]"

section \<open>Overlays from the step statistics\<close>

definition accept_sample :: "step_stats_record \<Rightarrow> (f64 \<times> f64) list" where
  "accept_sample sr =
     (case ss_spec (sr_scheduler sr) of
        None \<Rightarrow> []
      | Some sp \<Rightarrow>
          if num_draft_tokens sp > 0
          then [(sr_ts_ms sr, real (num_accepted_tokens sp) / real (num_draft_tokens sp))] else [])"

definition step_stats_counters :: "step_stats_record list \<Rightarrow> counter_series list" where
  "step_stats_counters records =
     map (\<lambda>(name, samples). \<lparr>cs_name = name, cs_samples = samples\<rparr>)
       (filter (\<lambda>(name, samples). samples \<noteq> [])
         [(''sched_running_reqs'', map (\<lambda>sr. (sr_ts_ms sr, real (ss_num_running (sr_scheduler sr)))) records),
          (''sched_waiting_reqs'', map (\<lambda>sr. (sr_ts_ms sr, real (ss_num_waiting (sr_scheduler sr)))) records),
          (''sched_kv_cache_usage'', map (\<lambda>sr. (sr_ts_ms sr, ss_kv_cache_usage (sr_scheduler sr))) records),
          (''sched_accept_rate'', concat (map accept_sample records))])"

definition span_of_pair :: "step_stats_record \<Rightarrow> step_stats_record \<Rightarrow> step_span" where
  "span_of_pair prev cur =
     (let s = sr_scheduler cur
      in \<lparr>span_start_ms = sr_ts_ms prev, span_end_ms = sr_ts_ms cur,
          span_running = as_u32 (ss_num_running s), span_waiting = as_u32 (ss_num_waiting s),
          span_prefill_requests = as_u32 (ss_prefix_requests s),
          span_prefill_tokens = as_u32 (ss_prefix_queries s), span_kv_usage = ss_kv_cache_usage s,
          span_spec = map_option (\<lambda>sp. (as_u32 (num_accepted_tokens sp), as_u32 (num_draft_tokens sp)))
                        (ss_spec s)\<rparr>)"

text \<open>\<^verbatim>\<open>windows(2)\<close>: every record paired with the one after it.\<close>

definition step_spans :: "step_stats_record list \<Rightarrow> step_span list" where
  "step_spans records = map2 span_of_pair records (tl records)"

end
