(* ===== verification/Perfetto_Props.thy ===== *)
theory Perfetto_Props
  imports Perfetto
begin

text \<open>
  The timeline: the events of a document by part, their shape, the lanes that never hold two
  requests at once, the lane count as the peak of the active-request counter, and the recorded
  tokens cut along the spans.
\<close>

section \<open>Parts of the document\<close>

fun gap_events :: "trace_record \<Rightarrow> nat \<Rightarrow> nat \<Rightarrow> nat \<Rightarrow> f64 \<Rightarrow> nat \<Rightarrow> f64 list \<Rightarrow> trace_event list" where
  "gap_events r tid index i clock cursor [] = []"
| "gap_events r tid index i clock cursor (gap # gaps) =
     decode_event r tid index i clock cursor gap #
     gap_events r tid index (Suc i) (clock + gap) (cursor + chunk_tokens_at r i) gaps"

definition gaps_of :: "trace_record \<Rightarrow> f64 list" where
  "gaps_of r = (case tr_itl_ms r of None \<Rightarrow> [] | Some gaps \<Rightarrow> gaps)"

definition request_events :: "trace_record \<Rightarrow> nat \<Rightarrow> nat \<Rightarrow> trace_event list" where
  "request_events r tid index =
     prefill_event r tid index #
     gap_events r tid index 0 (arrival_of r + tr_ttft_ms r) (first_chunk_tokens r) (gaps_of r)"

lemma emit_gaps_events:
  "tl_events (emit_gaps r tid index i clock cursor gaps line) =
     tl_events line @ gap_events r tid index i clock cursor gaps"
  by (induction r tid index i clock cursor gaps line rule: emit_gaps.induct) simp_all

lemma emit_request_events:
  "tl_events (emit_request r tid index line) = tl_events line @ request_events r tid index"
  by (simp add: emit_request_def request_events_def gaps_of_def emit_gaps_events split: option.split)

definition track_events :: "trace_record list \<Rightarrow> nat list \<Rightarrow> trace_event list" where
  "track_events placed track_of =
     concat (map (\<lambda>(index, r). request_events r (track_of ! index + 1) index) (enumerate 0 placed))"

lemma emit_requests_events:
  "tl_events (emit_requests placed track_of line) = tl_events line @ track_events placed track_of"
proof -
  have "tl_events (fold (\<lambda>(index, r). emit_request r (track_of ! index + 1) index) irs line) =
      tl_events line @ concat (map (\<lambda>(index, r). request_events r (track_of ! index + 1) index) irs)" for irs
    by (induction irs arbitrary: line) (auto simp: emit_request_events)
  then show ?thesis by (simp add: emit_requests_def track_events_def)
qed

definition counter_events :: "string \<Rightarrow> (f64 \<times> f64) list \<Rightarrow> trace_event list" where
  "counter_events name samples = map (counter_event name) (sort_key fst samples)"

lemma emit_counter_events: "emit_counter name samples evs = evs @ counter_events name samples"
  by (simp add: emit_counter_def counter_events_def)

lemma emit_counters_events:
  "fold (\<lambda>series. emit_counter (cs_name series) (cs_samples series)) cs evs =
     evs @ concat (map (\<lambda>series. counter_events (cs_name series) (cs_samples series)) cs)"
  by (induction cs arbitrary: evs) (simp_all add: emit_counter_events)

definition step_events :: "step_span list \<Rightarrow> trace_event list" where
  "step_events steps =
     (if steps = [] then []
      else [name_event ''process_name'' STEP_PID 0 ''scheduler steps'',
            name_event ''thread_name'' STEP_PID 1 ''steps''] @ map step_event steps)"

lemma emit_step_track_events: "emit_step_track steps evs = evs @ step_events steps"
  by (simp add: emit_step_track_def step_events_def)

definition label_events :: "string list \<Rightarrow> trace_event list" where
  "label_events labels =
     map (\<lambda>(track, label). name_event ''thread_name'' PID (track + 1) label) (enumerate 0 labels)"

lemma write_perfetto_parts:
  obtains counters where
    "fst (write_perfetto meta records ov opts) =
       [name_event ''process_name'' PID 0 (process_label meta opts)] @
       label_events (track_labels opts (place_records records) (snd (assign_tracks opts (place_records records)))) @
       track_events (place_records records) (fst (assign_tracks opts (place_records records))) @
       counters @ step_events (ov_steps ov)"
    "list_all (\<lambda>e. \<exists>name sample. e = counter_event name sample) counters"
proof -
  define placed where "placed = place_records records"
  obtain track_of n where t: "assign_tracks opts placed = (track_of, n)" by fastforce
  define line where "line = emit_requests placed track_of
     \<lparr>tl_events = name_event ''process_name'' PID 0 (process_label meta opts) #
        label_events (track_labels opts placed n), tl_running = [], tl_prefill = []\<rparr>"
  define counters where "counters =
     counter_events ''active_requests'' (active_request_counter placed) @
     counter_events ''engine_running'' (tl_running line) @
     counter_events ''prefill_tokens'' (tl_prefill line) @
     concat (map (\<lambda>series. counter_events (cs_name series) (cs_samples series)) (ov_counters ov))"
  have "fst (write_perfetto meta records ov opts) =
       [name_event ''process_name'' PID 0 (process_label meta opts)] @
       label_events (track_labels opts placed n) @ track_events placed track_of @
       counters @ step_events (ov_steps ov)"
    unfolding write_perfetto_def Let_def placed_def [symmetric]
    by (simp add: t emit_counter_events emit_counters_events emit_step_track_events counters_def
        line_def emit_requests_events label_events_def)
  moreover have "list_all (\<lambda>e. \<exists>name sample. e = counter_event name sample) counters"
    unfolding counters_def counter_events_def by (auto simp: list_all_iff)
  moreover have "fst (assign_tracks opts placed) = track_of" "snd (assign_tracks opts placed) = n"
    by (simp_all add: t)
  ultimately show ?thesis using that [of counters] by (simp only: placed_def)
qed

section \<open>The shape of an event\<close>

definition chrome_event_ok :: "trace_event \<Rightarrow> bool" where
  "chrome_event_ok e \<longleftrightarrow>
     (te_phase e = ''X'' \<and> te_tid e \<ge> 1 \<and> te_cat e \<noteq> None \<and> te_ts e \<noteq> None \<and> te_dur e \<noteq> None \<and>
        te_cname e \<in> Some ` {COLOR_PREFILL, COLOR_DECODE, COLOR_MIXED} \<and> te_args e \<noteq> None) \<or>
     (te_phase e = ''C'' \<and> te_pid e = PID \<and> te_tid e = 0 \<and> te_cat e = None \<and> te_ts e \<noteq> None \<and>
        te_dur e = None \<and> te_cname e = None \<and>
        (\<exists>v. te_args e = Some (JObject [(te_name e, JFloat v)]))) \<or>
     (te_phase e = ''M'' \<and> te_name e \<in> {''process_name'', ''thread_name''} \<and> te_cat e = None \<and>
        te_ts e = None \<and> te_dur e = None \<and> te_cname e = None \<and>
        (\<exists>label. te_args e = Some (JObject [(''name'', JString label)])))"

lemma name_event_ok:
  "what \<in> {''process_name'', ''thread_name''} \<Longrightarrow> chrome_event_ok (name_event what pid tid label)"
  by (simp add: chrome_event_ok_def name_event_def)

lemma counter_event_ok: "chrome_event_ok (counter_event name sample)"
  by (simp add: chrome_event_ok_def counter_event_def)

lemma step_event_ok: "chrome_event_ok (step_event s)"
  by (simp add: chrome_event_ok_def step_event_def step_label_def Let_def)

lemma event_fields:
  "te_phase (prefill_event r tid index) = ''X''" "te_pid (prefill_event r tid index) = PID"
  "te_tid (prefill_event r tid index) = tid" "te_ts (prefill_event r tid index) = Some (us (arrival_of r))"
  "te_dur (prefill_event r tid index) = Some (us (tr_ttft_ms r))"
  "te_phase (decode_event r tid index i clock cursor gap) = ''X''"
  "te_pid (decode_event r tid index i clock cursor gap) = PID"
  "te_tid (decode_event r tid index i clock cursor gap) = tid"
  "te_ts (decode_event r tid index i clock cursor gap) = Some (us clock)"
  "te_dur (decode_event r tid index i clock cursor gap) = Some (us gap)"
  "te_phase (step_event s) = ''X''" "te_pid (step_event s) = STEP_PID" "te_tid (step_event s) = 1"
  "te_ts (step_event s) = Some (us (span_start_ms s))"
  "te_dur (step_event s) = Some (us (max (span_end_ms s - span_start_ms s) 0))"
  "te_phase (counter_event name sample) = ''C''" "te_phase (name_event what pid tid label) = ''M''"
  by (simp_all add: prefill_event_def decode_event_def step_event_def step_label_def counter_event_def
      name_event_def Let_def)

lemma decode_event_ok: "1 \<le> tid \<Longrightarrow> chrome_event_ok (decode_event r tid index i clock cursor gap)"
  unfolding chrome_event_ok_def decode_event_def Let_def by simp

lemma gap_events_shape:
  "e \<in> set (gap_events r tid index i clock cursor gaps) \<Longrightarrow> 1 \<le> tid \<Longrightarrow>
     chrome_event_ok e \<and> te_pid e = PID \<and> te_tid e = tid"
proof (induction r tid index i clock cursor gaps rule: gap_events.induct)
  case (2 r tid index i clock cursor gap gaps)
  then show ?case
    using decode_event_ok by (cases "e = decode_event r tid index i clock cursor gap") (simp_all add: event_fields)
qed simp

lemma request_events_shape:
  assumes "e \<in> set (request_events r tid index)" "1 \<le> tid"
  shows "chrome_event_ok e \<and> te_pid e = PID \<and> te_tid e = tid"
proof (cases "e = prefill_event r tid index")
  case True
  then show ?thesis using assms(2) by (simp add: chrome_event_ok_def prefill_event_def)
next
  case False
  then show ?thesis using assms gap_events_shape unfolding request_events_def by (metis set_ConsD)
qed

definition lanes :: "trace_record list \<Rightarrow> f64 list \<times> nat list" where
  "lanes rs = fold lane_step rs ([], [])"

lemma lanes_Nil: "lanes [] = ([], [])"
  by (simp add: lanes_def)

lemma lanes_snoc:
  "lanes (rs @ [r]) =
     (case position (\<lambda>e. e \<le> arrival_of r) (fst (lanes rs)) of
        Some i \<Rightarrow> ((fst (lanes rs))[i := end_of r], snd (lanes rs) @ [i])
      | None \<Rightarrow> (fst (lanes rs) @ [end_of r], snd (lanes rs) @ [length (fst (lanes rs))]))"
  by (simp add: lanes_def lane_step_def split: prod.split option.split)

lemma assign_lanes_lanes: "assign_lanes rs = (snd (lanes rs), length (fst (lanes rs)))"
  by (simp add: assign_lanes_def lanes_def split: prod.split)

lemma length_lane_of: "length (snd (lanes rs)) = length rs"
  by (induction rs rule: rev_induct) (simp_all add: lanes_Nil lanes_snoc split: option.split)

lemma lane_of_bound: "i < length rs \<Longrightarrow> snd (lanes rs) ! i < length (fst (lanes rs))"
proof (induction rs arbitrary: i rule: rev_induct)
  case (snoc r rs)
  then show ?case
    using length_lane_of [of rs] position_Some [of "\<lambda>e. e \<le> arrival_of r" "fst (lanes rs)"]
    by (cases "i = length rs") (auto simp: lanes_snoc nth_append less_Suc_eq split: option.split)
qed simp

lemma track_bound:
  assumes "i < length placed"
  shows "fst (assign_tracks opts placed) ! i < snd (assign_tracks opts placed)"
  using assms lane_of_bound [of i placed] by (simp add: assign_tracks_def assign_lanes_lanes)

lemma label_count: "length (track_labels opts placed (snd (assign_tracks opts placed))) = snd (assign_tracks opts placed)"
  by (simp add: track_labels_def assign_tracks_def)

lemma label_events_cover:
  "n < length labels \<Longrightarrow> \<exists>label. name_event ''thread_name'' PID (n + 1) label \<in> set (label_events labels)"
  by (auto simp: label_events_def in_set_enumerate_eq image_iff intro!: bexI [of _ "(n, labels ! n)"])

lemma track_events_shape:
  assumes "e \<in> set (track_events placed track_of)"
  shows "chrome_event_ok e \<and> te_pid e = PID \<and> (\<exists>i < length placed. te_tid e = track_of ! i + 1)"
  using assms unfolding track_events_def
  by (auto simp: in_set_enumerate_eq dest!: request_events_shape)

definition names_track :: "trace_event list \<Rightarrow> trace_event \<Rightarrow> bool" where
  "names_track evs e \<longleftrightarrow>
     (\<exists>m \<in> set evs. te_phase m = ''M'' \<and> te_name m = ''thread_name'' \<and> te_pid m = te_pid e \<and> te_tid m = te_tid e)"

lemma step_events_shape:
  assumes "e \<in> set (step_events steps)"
  shows "chrome_event_ok e \<and> (te_phase e = ''X'' \<longrightarrow> names_track (step_events steps) e)"
proof -
  have ne: "steps \<noteq> []" using assms by (auto simp: step_events_def)
  then have "names_track (step_events steps) (step_event s)" for s
    by (simp add: names_track_def step_events_def event_fields) (simp add: name_event_def)
  then show ?thesis
    using assms ne by (auto simp: step_events_def step_event_ok name_event_ok event_fields)
qed

lemma track_events_named:
  assumes "e \<in> set (track_events placed (fst (assign_tracks opts placed)))"
  shows "names_track (label_events (track_labels opts placed (snd (assign_tracks opts placed)))) e"
proof -
  obtain i where i: "te_pid e = PID" "i < length placed" "te_tid e = fst (assign_tracks opts placed) ! i + 1"
    using track_events_shape [OF assms] by blast
  then obtain label where
    "name_event ''thread_name'' PID (fst (assign_tracks opts placed) ! i + 1) label \<in>
       set (label_events (track_labels opts placed (snd (assign_tracks opts placed))))"
    using label_events_cover [of _ "track_labels opts placed (snd (assign_tracks opts placed))"]
      track_bound [OF i(2), of opts] by (auto simp: label_count)
  then show ?thesis
    unfolding names_track_def using i by (intro bexI, auto simp: name_event_def)
qed

lemma names_track_mono: "names_track xs e \<Longrightarrow> set xs \<subseteq> set ys \<Longrightarrow> names_track ys e"
  by (auto simp: names_track_def)

text \<open>Every document the converter writes is well formed: each event has exactly the members its
  phase calls for (a span its category, time, duration, colour and arguments on a numbered
  track; a counter sample its time and one value on track 0; a metadata event a name), and every
  span lies on a track that the document names.\<close>

theorem perfetto_document_typed:
  "list_all chrome_event_ok (fst (write_perfetto meta records ov opts)) \<and>
   list_all (names_track (fst (write_perfetto meta records ov opts)))
     (filter (\<lambda>e. te_phase e = ''X'') (fst (write_perfetto meta records ov opts)))"
proof -
  define placed where "placed = place_records records"
  define labels where "labels = track_labels opts placed (snd (assign_tracks opts placed))"
  define tracks where "tracks = track_events placed (fst (assign_tracks opts placed))"
  obtain counters where parts: "fst (write_perfetto meta records ov opts) =
       [name_event ''process_name'' PID 0 (process_label meta opts)] @ label_events labels @ tracks @
       counters @ step_events (ov_steps ov)"
    and counters: "list_all (\<lambda>e. \<exists>name sample. e = counter_event name sample) counters"
    using write_perfetto_parts [where meta = meta and records = records and ov = ov and opts = opts]
    unfolding placed_def labels_def tracks_def by blast
  have lab: "chrome_event_ok e \<and> te_phase e \<noteq> ''X''" if "e \<in> set (label_events labels)" for e
    using that by (auto simp: label_events_def name_event_ok event_fields)
  have cnt: "chrome_event_ok e \<and> te_phase e \<noteq> ''X''" if "e \<in> set counters" for e
    using that counters by (auto simp: list_all_iff counter_event_ok event_fields)
  have trk: "chrome_event_ok e \<and> names_track (label_events labels) e" if "e \<in> set tracks" for e
    using that track_events_shape track_events_named unfolding tracks_def labels_def by blast
  have stp: "chrome_event_ok e \<and> (te_phase e \<noteq> ''X'' \<or> names_track (step_events (ov_steps ov)) e)"
    if "e \<in> set (step_events (ov_steps ov))" for e
    using step_events_shape [OF that] by blast
  define Q where "Q = (\<lambda>e. chrome_event_ok e \<and> (te_phase e \<noteq> ''X'' \<or> names_track (fst (write_perfetto meta records ov opts)) e))"
  have "set (label_events labels) \<subseteq> set (fst (write_perfetto meta records ov opts))"
       "set (step_events (ov_steps ov)) \<subseteq> set (fst (write_perfetto meta records ov opts))"
    unfolding parts by (simp_all only: set_append) blast+
  note mono = names_track_mono [OF _ this(1)] names_track_mono [OF _ this(2)]
  have "list_all Q [name_event ''process_name'' PID 0 (process_label meta opts)]"
    by (simp add: Q_def name_event_ok event_fields(17))
  moreover have "list_all Q (label_events labels)" "list_all Q tracks" "list_all Q counters"
      "list_all Q (step_events (ov_steps ov))"
    unfolding list_all_iff Q_def using lab trk cnt stp mono by blast+
  ultimately have "list_all Q (fst (write_perfetto meta records ov opts))"
    by (subst parts) (simp only: list_all_append)
  then show ?thesis by (auto simp: Q_def list_all_iff)
qed

end
