(* ===== verification/Trace_File_Props.thy ===== *)
theory Trace_File_Props
  imports Trace_File
begin

text \<open>
  Trace files: a record and a header survive the JSON form their serde attributes give them, a
  written trace is read back, a capture cut short reads as the records completed so far, and the
  cheap header read agrees with the full one.
\<close>

section \<open>Fields\<close>

lemma json_as_u64_nat: "n < 2 ^ 64 \<Longrightarrow> json_as_u64 (json_nat n) = Some n"
  by (simp add: json_nat_def)

lemma json_as_nat32_nat: "n < 2 ^ 32 \<Longrightarrow> json_as_nat32 (json_nat n) = Some n"
  by (simp add: json_nat_def json_as_nat32_def)

lemma json_as_word64_word: "json_as_word64 (json_word w) = Some (w :: u64)"
  using uint_lt2p [of w] by (simp add: json_word_def json_as_word64_def)

lemma json_as_word32_word: "json_as_word32 (json_word w) = Some (w :: u32)"
proof -
  have "uint w < 2 ^ 32" "unat w < 2 ^ 32" using uint_lt2p [of w] unsigned_less [of w, where 'a=nat] by simp_all
  then show ?thesis by (simp add: json_word_def json_as_word32_def json_as_nat32_def)
qed

lemma traverse_option_map:
  assumes "\<And>x. x \<in> set xs \<Longrightarrow> dec (enc x) = Some x"
  shows "traverse_option dec (map enc xs) = Some xs"
  using assms by (induction xs) auto

lemma json_as_list_list:
  assumes "\<And>x. x \<in> set xs \<Longrightarrow> dec (enc x) = Some x"
  shows "json_as_list dec (json_list enc xs) = Some xs"
  using traverse_option_map [of xs dec enc] assms by (simp add: json_as_list_def json_list_def)

lemma json_as_summary_summary:
  "itl_count s < 2 ^ 64 \<Longrightarrow> json_as_summary (summary_to_json s) = Some s"
  by (simp add: json_as_summary_def summary_to_json_def req_field_def json_as_u64_nat of_option_def)

lemma json_as_context_context:
  assumes "\<And>n. n \<in> set (ctx_num_running c) \<union> set (ctx_prefill_tokens c) \<Longrightarrow> n < 2 ^ 32"
  shows "json_as_context (context_to_json c) = Some c"
proof -
  have "json_as_list json_as_nat32 (json_list json_nat (ctx_num_running c)) = Some (ctx_num_running c)"
       "json_as_list json_as_nat32 (json_list json_nat (ctx_prefill_tokens c)) = Some (ctx_prefill_tokens c)"
    using assms by (auto intro!: json_as_list_list json_as_nat32_nat)
  then show ?thesis by (simp add: json_as_context_def context_to_json_def req_field_def of_option_def)
qed

lemma json_as_finish_reason_json: "json_as_finish_reason (finish_reason_json r) = Some r"
  by (cases r) (simp_all add: json_as_finish_reason_def finish_reason_json_def)

lemma enc_not_null:
  "json_nat n \<noteq> JNull" "json_word w \<noteq> JNull" "json_list enc xs \<noteq> JNull" "summary_to_json s \<noteq> JNull"
  "context_to_json c \<noteq> JNull" "finish_reason_json r \<noteq> JNull"
  by (simp_all add: json_nat_def json_word_def json_list_def summary_to_json_def context_to_json_def
      finish_reason_json_def)

lemma map_of_opt_field:
  "map_of (opt_field k enc x @ rest) k' =
     (if k = k' \<and> x \<noteq> None then map_option enc x else map_of rest k')"
  "map_of (opt_field k enc x) k' = (if k = k' then map_option enc x else None)"
  by (auto simp: opt_field_def split: option.splits)

lemma option_field_found:
  assumes "json_get k j = map_option enc x" "\<And>v. x = Some v \<Longrightarrow> dec (enc v) = Some v \<and> enc v \<noteq> JNull"
  shows "option_field k dec j = Inr x"
  using assms by (cases x) (simp_all add: option_field_def of_option_def)

lemma req_field_found:
  "json_get k j = Some v \<Longrightarrow> dec v = Some x \<Longrightarrow> req_field k dec j = Inr x"
  by (simp add: req_field_def of_option_def)

lemma default_field_found:
  "json_get k j = Some v \<Longrightarrow> dec v = Some x \<Longrightarrow> default_field k d dec j = Inr x"
  by (simp add: default_field_def of_option_def)

section \<open>Records\<close>

text \<open>The widths of the Rust fields: \<^verbatim>\<open>usize\<close> and \<^verbatim>\<open>u64\<close> counters, \<^verbatim>\<open>u32\<close> chunk sizes.\<close>

definition record_widths :: "trace_record \<Rightarrow> bool" where
  "record_widths r \<longleftrightarrow>
     tr_prompt_tokens r < 2 ^ 64 \<and> tr_cached_tokens r < 2 ^ 64 \<and> tr_output_tokens r < 2 ^ 64 \<and>
     tr_concurrency r < 2 ^ 64 \<and>
     list_all (\<lambda>n. n < 2 ^ 32) (case tr_itl_tokens r of None \<Rightarrow> [] | Some t \<Rightarrow> t) \<and>
     (case tr_itl_summary r of None \<Rightarrow> True | Some s \<Rightarrow> itl_count s < 2 ^ 64) \<and>
     (case tr_itl_ctx r of None \<Rightarrow> True
      | Some c \<Rightarrow> list_all (\<lambda>n. n < 2 ^ 32) (ctx_num_running c @ ctx_prefill_tokens c))"

lemma record_get:
  "json_get ''prompt_tokens'' (record_to_json r) = Some (json_nat (tr_prompt_tokens r))"
  "json_get ''cached_tokens'' (record_to_json r) = Some (json_nat (tr_cached_tokens r))"
  "json_get ''output_tokens'' (record_to_json r) = Some (json_nat (tr_output_tokens r))"
  "json_get ''ttft_ms'' (record_to_json r) = Some (JFloat (tr_ttft_ms r))"
  "json_get ''itl_ms'' (record_to_json r) = map_option (json_list JFloat) (tr_itl_ms r)"
  "json_get ''itl_tokens'' (record_to_json r) = map_option (json_list json_nat) (tr_itl_tokens r)"
  "json_get ''itl_summary'' (record_to_json r) = map_option summary_to_json (tr_itl_summary r)"
  "json_get ''concurrency'' (record_to_json r) = Some (json_nat (tr_concurrency r))"
  "json_get ''arrival_ms'' (record_to_json r) = map_option JFloat (tr_arrival_ms r)"
  "json_get ''itl_ctx'' (record_to_json r) = map_option context_to_json (tr_itl_ctx r)"
  "json_get ''block_hashes'' (record_to_json r) = map_option (json_list json_word) (tr_block_hashes r)"
  "json_get ''mm_hashes'' (record_to_json r) = map_option (json_list JString) (tr_mm_hashes r)"
  "json_get ''output_token_ids'' (record_to_json r) = map_option (json_list json_word) (tr_output_token_ids r)"
  "json_get ''finish_reason'' (record_to_json r) = map_option finish_reason_json (tr_finish_reason r)"
  "json_get ''meta'' (record_to_json r) = None"
  unfolding record_to_json_def by (simp_all add: map_of_opt_field del: map_of_append)

lemma record_fields:
  assumes "record_widths r"
  shows "req_field ''prompt_tokens'' json_as_u64 (record_to_json r) = Inr (tr_prompt_tokens r)"
    "default_field ''cached_tokens'' 0 json_as_u64 (record_to_json r) = Inr (tr_cached_tokens r)"
    "req_field ''output_tokens'' json_as_u64 (record_to_json r) = Inr (tr_output_tokens r)"
    "req_field ''ttft_ms'' json_as_f64 (record_to_json r) = Inr (tr_ttft_ms r)"
    "default_field ''concurrency'' default_concurrency json_as_u64 (record_to_json r) = Inr (tr_concurrency r)"
  using assms
  by (auto simp: record_widths_def intro!: req_field_found default_field_found record_get json_as_u64_nat)

lemma record_option_fields:
  assumes "record_widths r"
  shows "option_field ''itl_ms'' (json_as_list json_as_f64) (record_to_json r) = Inr (tr_itl_ms r)"
    "option_field ''itl_tokens'' (json_as_list json_as_nat32) (record_to_json r) = Inr (tr_itl_tokens r)"
    "option_field ''itl_summary'' json_as_summary (record_to_json r) = Inr (tr_itl_summary r)"
    "option_field ''arrival_ms'' json_as_f64 (record_to_json r) = Inr (tr_arrival_ms r)"
    "option_field ''itl_ctx'' json_as_context (record_to_json r) = Inr (tr_itl_ctx r)"
    "option_field ''block_hashes'' (json_as_list json_as_word64) (record_to_json r) = Inr (tr_block_hashes r)"
    "option_field ''mm_hashes'' (json_as_list json_as_str) (record_to_json r) = Inr (tr_mm_hashes r)"
    "option_field ''output_token_ids'' (json_as_list json_as_word32) (record_to_json r) =
       Inr (tr_output_token_ids r)"
    "option_field ''finish_reason'' json_as_finish_reason (record_to_json r) = Inr (tr_finish_reason r)"
  using assms
  by (auto simp: record_widths_def list_all_iff json_as_finish_reason_json enc_not_null
      intro!: option_field_found [OF record_get(5)] option_field_found [OF record_get(6)]
        option_field_found [OF record_get(7)] option_field_found [OF record_get(9)]
        option_field_found [OF record_get(10)] option_field_found [OF record_get(11)]
        option_field_found [OF record_get(12)] option_field_found [OF record_get(13)]
        option_field_found [OF record_get(14)] json_as_list_list json_as_nat32_nat
        json_as_summary_summary json_as_context_context json_as_word64_word json_as_word32_word)

lemma record_json_round_trip: "record_widths r \<Longrightarrow> record_of_json (record_to_json r) = Inr r"
  by (simp add: record_of_json_def record_fields record_option_fields bind_result_def)
    (simp add: record_to_json_def)

section \<open>The header\<close>

text \<open>The freeform entries have keys of their own.\<close>

definition meta_widths :: "trace_meta \<Rightarrow> bool" where
  "meta_widths m \<longleftrightarrow>
     (case tm_tp m of None \<Rightarrow> True | Some n \<Rightarrow> n < 2 ^ 32) \<and>
     (case tm_max_num_seqs m of None \<Rightarrow> True | Some n \<Rightarrow> n < 2 ^ 64) \<and>
     (case tm_block_size m of None \<Rightarrow> True | Some n \<Rightarrow> n < 2 ^ 64) \<and>
     list_all (\<lambda>kv. fst kv \<notin> set meta_known_keys) (tm_extra m)"

definition meta_body :: "trace_meta \<Rightarrow> json" where
  "meta_body m = (case json_get ''meta'' (meta_to_json m) of None \<Rightarrow> JNull | Some j \<Rightarrow> j)"

lemma extra_get:
  assumes "meta_widths m" "k \<in> set meta_known_keys"
  shows "map_of (tm_extra m) k = None"
  using assms by (auto simp: meta_widths_def list_all_iff map_of_eq_None_iff)

lemma meta_get:
  assumes "meta_widths m"
  shows "json_get ''model'' (meta_body m) = map_option JString (tm_model m)"
    "json_get ''gpu'' (meta_body m) = map_option JString (tm_gpu m)"
    "json_get ''tp'' (meta_body m) = map_option json_nat (tm_tp m)"
    "json_get ''max_num_seqs'' (meta_body m) = map_option json_nat (tm_max_num_seqs m)"
    "json_get ''source'' (meta_body m) = map_option JString (tm_source m)"
    "json_get ''block_size'' (meta_body m) = map_option json_nat (tm_block_size m)"
    "json_get ''config_hash'' (meta_body m) = map_option JString (tm_config_hash m)"
    "json_get ''vllm_version'' (meta_body m) = map_option JString (tm_vllm_version m)"
    "json_get ''ready_response_hex'' (meta_body m) = map_option JString (tm_ready_response_hex m)"
  unfolding meta_body_def meta_to_json_def
  by (simp_all add: map_of_opt_field extra_get [OF assms] meta_known_keys_def del: map_of_append)

lemma meta_option_fields:
  assumes "meta_widths m"
  shows "option_field ''model'' json_as_str (meta_body m) = Inr (tm_model m)"
    "option_field ''gpu'' json_as_str (meta_body m) = Inr (tm_gpu m)"
    "option_field ''tp'' json_as_nat32 (meta_body m) = Inr (tm_tp m)"
    "option_field ''max_num_seqs'' json_as_u64 (meta_body m) = Inr (tm_max_num_seqs m)"
    "option_field ''source'' json_as_str (meta_body m) = Inr (tm_source m)"
    "option_field ''block_size'' json_as_u64 (meta_body m) = Inr (tm_block_size m)"
    "option_field ''config_hash'' json_as_str (meta_body m) = Inr (tm_config_hash m)"
    "option_field ''vllm_version'' json_as_str (meta_body m) = Inr (tm_vllm_version m)"
    "option_field ''ready_response_hex'' json_as_str (meta_body m) = Inr (tm_ready_response_hex m)"
  using assms
  by (auto simp: meta_widths_def enc_not_null json_as_nat32_nat json_as_u64_nat
      intro!: option_field_found [OF meta_get(1) [OF assms]] option_field_found [OF meta_get(2) [OF assms]]
        option_field_found [OF meta_get(3) [OF assms]] option_field_found [OF meta_get(4) [OF assms]]
        option_field_found [OF meta_get(5) [OF assms]] option_field_found [OF meta_get(6) [OF assms]]
        option_field_found [OF meta_get(7) [OF assms]] option_field_found [OF meta_get(8) [OF assms]]
        option_field_found [OF meta_get(9) [OF assms]])

lemma filter_opt_field:
  "k \<in> set meta_known_keys \<Longrightarrow> filter (\<lambda>kv. fst kv \<notin> set meta_known_keys) (opt_field k enc x) = []"
  by (simp add: opt_field_def split: option.splits)

lemma meta_entries:
  assumes "meta_widths m"
  shows "\<exists>kvs. json_entries (meta_body m) = Inr kvs \<and>
    filter (\<lambda>kv. fst kv \<notin> set meta_known_keys) kvs = tm_extra m"
proof -
  have "filter (\<lambda>kv. fst kv \<notin> set meta_known_keys) (tm_extra m) = tm_extra m"
    using assms by (simp add: meta_widths_def list_all_iff)
  moreover have known: "''model'' \<in> set meta_known_keys" "''gpu'' \<in> set meta_known_keys" "''tp'' \<in> set meta_known_keys"
    "''max_num_seqs'' \<in> set meta_known_keys" "''source'' \<in> set meta_known_keys"
    "''block_size'' \<in> set meta_known_keys" "''config_hash'' \<in> set meta_known_keys"
    "''vllm_version'' \<in> set meta_known_keys" "''ready_response_hex'' \<in> set meta_known_keys"
    by (simp_all add: meta_known_keys_def)
  ultimately show ?thesis
    by (simp add: meta_body_def meta_to_json_def filter_opt_field known)
qed

lemma meta_json_round_trip:
  assumes "meta_widths m"
  shows "meta_of_json (meta_to_json m) = Inr m"
proof -
  obtain kvs where kvs: "json_entries (meta_body m) = Inr kvs"
      "filter (\<lambda>kv. fst kv \<notin> set meta_known_keys) kvs = tm_extra m"
    using meta_entries [OF assms] by blast
  have "json_get ''meta'' (meta_to_json m) = Some (meta_body m)"
    by (simp add: meta_body_def meta_to_json_def)
  then show ?thesis
    by (simp add: meta_of_json_def kvs meta_option_fields [OF assms] bind_result_def)
qed

section \<open>Streams\<close>

text \<open>What the reader relies on of the JSON library, at one value.\<close>

definition prints_back :: "json_codec \<Rightarrow> json \<Rightarrow> bool" where
  "prints_back C j \<longleftrightarrow>
     jc_parse C (jc_print C j) = Inr j \<and> trim (jc_print C j) = jc_print C j \<and> jc_print C j \<noteq> []"

definition writable_record :: "json_codec \<Rightarrow> trace_record \<Rightarrow> bool" where
  "writable_record C r \<longleftrightarrow>
     record_widths r \<and> validate_record r = Inr () \<and> prints_back C (record_to_json r)"

lemma parse_record_written:
  assumes "writable_record C r"
  shows "parse_record_line C n (append_record C r) = Inr r"
  using assms
  by (simp add: parse_record_line_def append_record_def writable_record_def prints_back_def
      record_json_round_trip err_context_def bind_result_def check_line_def)

lemma read_records_written:
  assumes "list_all (writable_record C) rs" "tail = [] \<or> (\<exists>rest. tail = LineEof # rest)"
  shows "read_records C n (map (Line \<circ> append_record C) rs @ tail) = Inr rs"
  using assms(1)
proof (induction rs arbitrary: n)
  case Nil
  then show ?case using assms(2) by auto
next
  case (Cons r rs)
  then have "trim (append_record C r) = append_record C r" "append_record C r \<noteq> []"
    by (simp_all add: append_record_def writable_record_def prints_back_def)
  then show ?case using Cons by (simp add: parse_record_written bind_result_def)
qed

lemma read_trace_written:
  assumes "meta_widths m" "prints_back C (meta_to_json m)" "list_all (writable_record C) rs"
    "tail = [] \<or> (\<exists>rest. tail = LineEof # rest)"
  shows "read_trace C (map Line (write_trace C m rs) @ tail) = Inr (m, rs)"
proof -
  have "json_get ''meta'' (meta_to_json m) \<noteq> None" by (simp add: meta_to_json_def)
  moreover have "read_records C n (map (Line \<circ> append_record C) rs @ tail) = Inr rs" for n
    by (rule read_records_written [OF assms(3,4)])
  ultimately show ?thesis
    using assms(1,2)
    by (simp add: read_trace_def write_trace_def prints_back_def err_context_def bind_result_def
        meta_json_round_trip comp_def)
qed

text \<open>A capture is readable while it is still being written: the lines of a written trace, cut
  after any number of complete records by the end of a gzip stream that has no trailer yet, read
  as the header and exactly those records; the whole file reads as the whole trace.\<close>

theorem unfinished_capture_reads:
  assumes "meta_widths m" "prints_back C (meta_to_json m)" "list_all (writable_record C) rs"
  shows "read_trace C (map Line (take (Suc n) (write_trace C m rs)) @ [LineEof]) = Inr (m, take n rs) \<and>
    read_trace C (map Line (write_trace C m rs)) = Inr (m, rs)"
proof -
  have "take (Suc n) (write_trace C m rs) = write_trace C m (take n rs)"
    by (simp add: write_trace_def take_map)
  moreover have "list_all (writable_record C) (take n rs)"
    using assms(3) by (simp add: list_all_iff) (meson in_set_takeD)
  ultimately show ?thesis
    using read_trace_written [OF assms(1,2), of "take n rs" "[LineEof]"]
      read_trace_written [OF assms, of "[]"] by simp
qed

text \<open>A codec over two texts, for concrete runs.\<close>

definition example_codec :: json_codec where
  "example_codec =
     \<lparr>jc_parse = (\<lambda>s. if s = ''m'' then Inr (meta_to_json default_meta)
        else if s = ''r'' then Inr (record_to_json default_record) else Inl ''expected value''),
      jc_print = (\<lambda>j. if j = meta_to_json default_meta then ''m'' else ''r'')\<rparr>"

lemma example_codec_prints:
  "prints_back example_codec (meta_to_json default_meta)"
  "prints_back example_codec (record_to_json default_record)"
proof -
  have "record_to_json default_record \<noteq> meta_to_json default_meta"
    by (simp add: record_to_json_def meta_to_json_def)
  then show "prints_back example_codec (record_to_json default_record)"
    "prints_back example_codec (meta_to_json default_meta)"
    by (simp_all add: prints_back_def example_codec_def trim_def is_space_def)
qed

lemma default_meta_widths: "meta_widths default_meta"
  by (simp add: meta_widths_def default_meta_def)

lemma default_record_writable: "writable_record example_codec default_record"
  using example_codec_prints
  by (simp add: writable_record_def record_widths_def default_record_def validate_record_def
      default_concurrency_def)

theorem unfinished_capture_reads_witness:
  "read_trace example_codec
     (map Line (take 2 (write_trace example_codec default_meta [default_record, default_record])) @ [LineEof]) =
   Inr (default_meta, [default_record])"
  using unfinished_capture_reads [OF default_meta_widths example_codec_prints(1),
      of "[default_record, default_record]" 1] default_record_writable
  by (simp add: numeral_2_eq_2)

text \<open>The header read on its own is the header of the full read: when a trace reads, so does its
  meta, with the same value, whatever the records are; the only exception is a live capture that
  ends before its first line, which the full reader takes as empty and the header reader refuses.\<close>

fun blank_then_eof :: "line_item list \<Rightarrow> bool" where
  "blank_then_eof (Line l # rest) \<longleftrightarrow> trim l = [] \<and> blank_then_eof rest"
| "blank_then_eof (LineEof # rest) \<longleftrightarrow> True"
| "blank_then_eof _ \<longleftrightarrow> False"

lemma read_meta_from_agrees:
  assumes "read_trace_from C n items = Inr (m, rs)"
  shows "(\<exists>e. read_meta_from C n items = Inl e \<and> blank_then_eof items) \<or>
     (read_meta_from C n items = Inr m \<and> \<not> blank_then_eof items)"
  using assms
proof (induction C n items rule: read_trace_from.induct)
  case (4 C n l rest)
  show ?case
  proof (cases "trim l = []")
    case True
    then show ?thesis using 4 by simp
  next
    case False
    then show ?thesis
      using 4(2) by (cases "jc_parse C (trim l)")
        (auto simp: bind_result_Inr err_context_def Let_def bind_result_def split: if_splits sum.splits)
  qed
qed auto

theorem read_meta_agrees:
  assumes "read_trace C items = Inr (m, rs)"
  shows "if blank_then_eof items then \<exists>e. read_meta C items = Inl e else read_meta C items = Inr m"
  using read_meta_from_agrees [OF assms [unfolded read_trace_def]] by (auto simp: read_meta_def)

theorem read_meta_agrees_witness:
  "read_meta example_codec (map Line (write_trace example_codec default_meta [default_record])) = Inr default_meta"
  using read_meta_agrees [OF read_trace_written [OF default_meta_widths example_codec_prints(1),
      of "[default_record]" "[]"]] default_record_writable
  by (simp add: write_trace_def trim_def is_space_def example_codec_def)

end
