(* ===== verification/Perfetto_Peak.thy ===== *)
theory Perfetto_Peak
  imports Perfetto_Lanes Trace_File_Props
begin

text \<open>
  The number of lanes against the active-request counter, and the recorded token ids against the
  spans that carry them.
\<close>

section \<open>Counting the active requests\<close>

definition count_of :: "('a \<Rightarrow> bool) \<Rightarrow> 'a list \<Rightarrow> nat" where
  "count_of P xs = length (filter P xs)"

lemma count_simps:
  "count_of P [] = 0" "count_of P (x # xs) = (if P x then 1 else 0) + count_of P xs"
  "count_of P (xs @ ys) = count_of P xs + count_of P ys"
  by (simp_all add: count_of_def)

lemma count_mono: "(\<And>x. x \<in> set xs \<Longrightarrow> P x \<Longrightarrow> Q x) \<Longrightarrow> count_of P xs \<le> count_of Q xs"
  by (induction xs) (auto simp: count_simps)

lemma count_sort: "count_of P (sort xs) = count_of P xs"
  unfolding count_of_def by (metis mset_filter mset_sort size_mset)

lemma count_card: "count_of P xs = card {i. i < length xs \<and> P (xs ! i)}"
  by (simp add: count_of_def length_filter_conv_card)

lemma count_deltas:
  "count_of P (concat (map request_deltas rs)) =
     count_of (\<lambda>r. P (arrival_of r, 1)) rs + count_of (\<lambda>r. P (end_of r, - 1)) rs"
  by (induction rs) (auto simp: count_simps request_deltas_def)

lemma delta_signs: "d \<in> set (concat (map request_deltas rs)) \<Longrightarrow> snd d = 1 \<or> snd d = - 1"
  by (auto simp: request_deltas_def)

lemma sum_signs:
  "list_all (\<lambda>d. snd d = 1 \<or> snd d = (- 1 :: int)) ds \<Longrightarrow>
     sum_list (map snd ds) = int (count_of (\<lambda>d. snd d = 1) ds) - int (count_of (\<lambda>d. snd d = - 1) ds)"
  by (induction ds) (auto simp: count_simps)

lemma running_totals_nth:
  "k < length ds \<Longrightarrow>
     running_totals a ds ! k = (fst (ds ! k), of_int (max (a + sum_list (map snd (take (Suc k) ds))) 0))"
  by (induction a ds arbitrary: k rule: running_totals.induct) (auto simp: nth_Cons add.assoc split: nat.split)

lemma running_totals_length: "length (running_totals a ds) = length ds"
  by (induction a ds rule: running_totals.induct) simp_all

definition sorted_deltas :: "trace_record list \<Rightarrow> (f64 \<times> int) list" where
  "sorted_deltas rs = sort (concat (map request_deltas rs))"

lemma sorted_deltas_signs: "list_all (\<lambda>d. snd d = 1 \<or> snd d = - 1) (sorted_deltas rs)"
  using delta_signs [of _ rs] by (auto simp: sorted_deltas_def list_all_iff simp del: set_concat)

text \<open>The requests in flight at a time, with and without those that end there.\<close>

definition in_flight :: "trace_record list \<Rightarrow> f64 \<Rightarrow> nat" where
  "in_flight rs t = count_of (\<lambda>r. arrival_of r \<le> t \<and> t < end_of r) rs"

lemma count_difference:
  assumes "\<And>x. x \<in> set xs \<Longrightarrow> Q x \<Longrightarrow> P x"
  shows "int (count_of P xs) - int (count_of Q xs) = int (count_of (\<lambda>x. P x \<and> \<not> Q x) xs)"
  using assms by (induction xs) (auto simp: count_simps)

lemma take_sorted_filter:
  "sorted ds \<Longrightarrow> take (count_of (\<lambda>d. d \<le> x) ds) ds = filter (\<lambda>d. d \<le> x) ds"
proof (induction ds)
  case (Cons d ds)
  show ?case
  proof (cases "d \<le> x")
    case True
    then show ?thesis using Cons by (simp add: count_simps)
  next
    case False
    then have "\<forall>y \<in> set (d # ds). \<not> y \<le> x" using Cons.prems by auto
    then have "filter (\<lambda>d. d \<le> x) (d # ds) = []" by (simp add: filter_empty_conv)
    then show ?thesis by (simp add: count_of_def)
  qed
qed (simp add: count_simps)

section \<open>A sample never exceeds the lanes\<close>

lemma lanes_injective:
  assumes "list_all (\<lambda>r. 0 \<le> span_duration_ms r) rs"
    and "\<And>i j. i < j \<Longrightarrow> j < length rs \<Longrightarrow> P (rs ! i) \<Longrightarrow> P (rs ! j) \<Longrightarrow> arrival_of (rs ! j) < end_of (rs ! i)"
  shows "count_of P rs \<le> length (fst (lanes rs))"
proof -
  let ?S = "{i. i < length rs \<and> P (rs ! i)}"
  have "inj_on (\<lambda>i. snd (lanes rs) ! i) ?S"
  proof (rule inj_onI)
    fix i j assume ij: "i \<in> ?S" "j \<in> ?S" "snd (lanes rs) ! i = snd (lanes rs) ! j"
    show "i = j"
    proof (rule ccontr)
      assume "i \<noteq> j"
      then consider "i < j" | "j < i" by linarith
      then show False
        using ij assms(2) [of i j] assms(2) [of j i] lane_disjoint [OF assms(1), of i j]
          lane_disjoint [OF assms(1), of j i] by cases auto
    qed
  qed
  moreover have "(\<lambda>i. snd (lanes rs) ! i) ` ?S \<subseteq> {..<length (fst (lanes rs))}"
    using lane_of_bound by auto
  ultimately have "card ?S \<le> card {..<length (fst (lanes rs))}" by (intro card_inj_on_le) auto
  then show ?thesis by (simp add: count_card)
qed

lemma later_delta:
  assumes "sorted ds" "k < length ds" "d \<in> set (drop (Suc k) ds)"
  shows "ds ! k \<le> d"
proof -
  obtain i where "i < length (drop (Suc k) ds)" "d = drop (Suc k) ds ! i" using assms(3) by (metis in_set_conv_nth)
  then show ?thesis using assms(1,2) by (simp add: sorted_iff_nth_mono)
qed

lemma count_take_drop: "count_of P ds = count_of P (take n ds) + count_of P (drop n ds)"
  by (metis append_take_drop_id count_simps(3))

lemma count_zero: "(\<And>x. x \<in> set xs \<Longrightarrow> \<not> P x) \<Longrightarrow> count_of P xs = 0"
  by (induction xs) (auto simp: count_simps)

text \<open>A prefix of the deltas that has no entry outside \<open>B\<close> and misses no exit inside it sums to at
  most the number of requests that enter inside \<open>B\<close> and leave outside it.\<close>

lemma prefix_sum_bound:
  assumes ins: "\<And>x. x \<in> set (take n (sorted_deltas rs)) \<Longrightarrow> snd x = 1 \<Longrightarrow> B (fst x)"
    and outs: "\<And>x. x \<in> set (drop n (sorted_deltas rs)) \<Longrightarrow> snd x = - 1 \<Longrightarrow> \<not> B (fst x)"
    and ordered: "\<And>r. r \<in> set rs \<Longrightarrow> B (end_of r) \<Longrightarrow> B (arrival_of r)"
  shows "sum_list (map snd (take n (sorted_deltas rs))) \<le>
    int (count_of (\<lambda>r. B (arrival_of r) \<and> \<not> B (end_of r)) rs)"
proof -
  define ds where "ds = sorted_deltas rs"
  have cnt: "count_of Q ds = count_of (\<lambda>r. Q (arrival_of r, 1)) rs + count_of (\<lambda>r. Q (end_of r, - 1)) rs" for Q
    by (simp add: ds_def sorted_deltas_def count_sort count_deltas)
  have "list_all (\<lambda>d. snd d = 1 \<or> snd d = - 1) (take n ds)"
    using sorted_deltas_signs [of rs] by (auto simp: ds_def list_all_iff dest: in_set_takeD)
  note sum = sum_signs [OF this]
  have "count_of (\<lambda>d. snd d = 1) (take n ds) \<le> count_of (\<lambda>d. snd d = 1 \<and> B (fst d)) (take n ds)"
    using ins by (intro count_mono) (simp add: ds_def)
  also have "\<dots> \<le> count_of (\<lambda>d. snd d = 1 \<and> B (fst d)) ds"
    by (simp add: count_take_drop [of _ ds n])
  finally have i: "count_of (\<lambda>d. snd d = 1) (take n ds) \<le> count_of (\<lambda>r. B (arrival_of r)) rs"
    by (simp add: cnt count_zero)
  have "count_of (\<lambda>d. snd d = - 1 \<and> B (fst d)) (drop n ds) = 0"
    using outs by (intro count_zero) (auto simp: ds_def)
  then have "count_of (\<lambda>d. snd d = - 1 \<and> B (fst d)) ds \<le> count_of (\<lambda>d. snd d = - 1) (take n ds)"
    by (simp add: count_take_drop [of _ ds n]) (intro count_mono, simp)
  then have o: "count_of (\<lambda>r. B (end_of r)) rs \<le> count_of (\<lambda>d. snd d = - 1) (take n ds)"
    by (simp add: cnt count_zero)
  have "int (count_of (\<lambda>r. B (arrival_of r)) rs) - int (count_of (\<lambda>r. B (end_of r)) rs) =
      int (count_of (\<lambda>r. B (arrival_of r) \<and> \<not> B (end_of r)) rs)"
    using ordered by (rule count_difference)
  then show ?thesis using i o sum by (simp add: ds_def)
qed

lemma sample_bound:
  assumes nonneg: "list_all (\<lambda>r. 0 \<le> span_duration_ms r) rs" and k: "k < length (sorted_deltas rs)"
  shows "sum_list (map snd (take (Suc k) (sorted_deltas rs))) \<le> int (length (fst (lanes rs)))"
proof -
  obtain t \<delta> where d: "sorted_deltas rs ! k = (t, \<delta>)" by fastforce
  have srt: "sorted (sorted_deltas rs)" by (simp add: sorted_deltas_def)
  have ordered: "arrival_of r \<le> end_of r" if "r \<in> set rs" for r
    using nonneg that by (auto simp: list_all_iff end_of_def)
  have before: "x \<le> (t, \<delta>)" if x: "x \<in> set (take (Suc k) (sorted_deltas rs))" for x
  proof -
    obtain i where "i < Suc k" "x = sorted_deltas rs ! i" using x by (auto simp: in_set_conv_nth)
    then show ?thesis using sorted_nth_mono [OF srt, of i k] k d by simp
  qed
  have after: "(t, \<delta>) \<le> x" if "x \<in> set (drop (Suc k) (sorted_deltas rs))" for x
    using later_delta [OF srt k that] d by simp
  have "\<delta> = 1 \<or> \<delta> = - 1" using sorted_deltas_signs [of rs] k d by (auto simp: list_all_length dest!: spec [of _ k])
  then show ?thesis
  proof
    assume one: "\<delta> = 1"
    have "sum_list (map snd (take (Suc k) (sorted_deltas rs))) \<le>
        int (count_of (\<lambda>r. arrival_of r \<le> t \<and> \<not> end_of r \<le> t) rs)"
      using before after ordered one
      by (intro prefix_sum_bound [where B = "\<lambda>x. x \<le> t"]) (force simp: less_eq_prod_def)+
    moreover have "count_of (\<lambda>r. arrival_of r \<le> t \<and> \<not> end_of r \<le> t) rs \<le> length (fst (lanes rs))"
      by (intro lanes_injective [OF nonneg]) linarith
    ultimately show ?thesis by linarith
  next
    assume minus: "\<delta> = - 1"
    have "sum_list (map snd (take (Suc k) (sorted_deltas rs))) \<le>
        int (count_of (\<lambda>r. arrival_of r < t \<and> \<not> end_of r < t) rs)"
      using before after ordered minus
      by (intro prefix_sum_bound [where B = "\<lambda>x. x < t"]) (force simp: less_eq_prod_def)+
    moreover have "count_of (\<lambda>r. arrival_of r < t \<and> \<not> end_of r < t) rs \<le> length (fst (lanes rs))"
      by (intro lanes_injective [OF nonneg]) linarith
    ultimately show ?thesis by linarith
  qed
qed

section \<open>Some sample reaches the lanes\<close>

lemma sample_at_entry:
  assumes nonneg: "list_all (\<lambda>r. 0 \<le> span_duration_ms r) rs" and r: "r \<in> set rs"
  shows "\<exists>k < length (sorted_deltas rs).
    sum_list (map snd (take (Suc k) (sorted_deltas rs))) = int (in_flight rs (arrival_of r))"
proof -
  define ds where "ds = sorted_deltas rs"
  define t where "t = arrival_of r"
  define n where "n = count_of (\<lambda>d. d \<le> (t, 1)) ds"
  have weak: "x < t \<or> x \<le> t \<longleftrightarrow> x \<le> t" for x :: real by auto
  have srt: "sorted ds" by (simp add: ds_def sorted_deltas_def)
  have mem: "(t, 1) \<in> set ds" using r by (auto simp: ds_def sorted_deltas_def request_deltas_def t_def)
  then have "0 < n" by (force simp: n_def count_of_def filter_empty_conv)
  then obtain k where k: "n = Suc k" by (cases n) auto
  have len: "k < length ds" using k by (simp add: n_def count_of_def) (metis Suc_le_lessD length_filter_le)
  have tk: "take (Suc k) ds = filter (\<lambda>d. d \<le> (t, 1)) ds"
    using take_sorted_filter [OF srt, of "(t, 1)"] k by (simp add: n_def)
  have sub: "count_of P (filter Q ds) = count_of (\<lambda>d. P d \<and> Q d) ds" for P Q
    by (simp add: count_of_def conj_commute)
  have cnt: "count_of Q ds = count_of (\<lambda>r. Q (arrival_of r, 1)) rs + count_of (\<lambda>r. Q (end_of r, - 1)) rs" for Q
    by (simp add: ds_def sorted_deltas_def count_sort count_deltas)
  have "list_all (\<lambda>d. snd d = 1 \<or> snd d = - 1) (filter (\<lambda>d. d \<le> (t, 1)) ds)"
    using sorted_deltas_signs [of rs] by (auto simp: ds_def list_all_iff)
  from sum_signs [OF this] have "sum_list (map snd (take (Suc k) ds)) =
      int (count_of (\<lambda>r. arrival_of r \<le> t) rs) - int (count_of (\<lambda>r. end_of r \<le> t) rs)"
    unfolding tk by (simp add: sub cnt less_eq_prod_def count_zero weak)
  also have "\<dots> = int (count_of (\<lambda>r. arrival_of r \<le> t \<and> \<not> end_of r \<le> t) rs)"
    using nonneg by (intro count_difference) (fastforce simp: list_all_iff end_of_def)
  also have "\<dots> = int (in_flight rs t)" by (simp add: in_flight_def not_le)
  finally show ?thesis using len by (auto simp: ds_def t_def)
qed

lemma lanes_reached:
  assumes "list_all (\<lambda>r. 0 < span_duration_ms r) rs" "sorted (map arrival_of rs)" "rs \<noteq> []"
  shows "\<exists>r \<in> set rs. length (fst (lanes rs)) \<le> in_flight rs (arrival_of r)"
  using assms
proof (induction rs rule: rev_induct)
  case (snoc r rs)
  have grow: "in_flight rs t \<le> in_flight (rs @ [r]) t" for t by (simp add: in_flight_def count_simps)
  have pos: "list_all (\<lambda>r. 0 < span_duration_ms r) rs" "0 < span_duration_ms r" using snoc.prems(1) by auto
  have srt: "sorted (map arrival_of rs)" using snoc.prems(2) by (simp add: sorted_append)
  have early: "arrival_of x \<le> arrival_of r" if "x \<in> set rs" for x
    using snoc.prems(2) that by (auto simp: sorted_append)
  show ?case
  proof (cases "position (\<lambda>e. e \<le> arrival_of r) (fst (lanes rs))")
    case (Some k)
    then have "rs \<noteq> []" by (auto simp: lanes_Nil)
    then obtain x where "x \<in> set rs" "length (fst (lanes rs)) \<le> in_flight rs (arrival_of x)"
      using snoc.IH pos(1) srt by blast
    then show ?thesis using Some grow [of "arrival_of x"] by (intro bexI [of _ x]) (auto simp: lanes_snoc)
  next
    case None
    let ?t = "arrival_of r" and ?L = "length (fst (lanes rs))"
    let ?S = "{i. i < length rs \<and> arrival_of (rs ! i) \<le> ?t \<and> ?t < end_of (rs ! i)}"
    have "list_all (\<lambda>r. 0 \<le> span_duration_ms r) rs" using pos(1) by (auto simp: list_all_iff)
    then have inv: "lane_inv rs" by (rule lane_inv_all)
    have busy: "?t < fst (lanes rs) ! l" if "l < ?L" for l
      using None that by (auto simp: position_None not_le)
    have "{..<?L} \<subseteq> (\<lambda>i. snd (lanes rs) ! i) ` ?S"
    proof
      fix l assume "l \<in> {..<?L}"
      then have l: "l < ?L" by simp
      then obtain i where "i < length rs" "snd (lanes rs) ! i = l" "end_of (rs ! i) = fst (lanes rs) ! l"
        using inv unfolding lane_inv_def by blast
      then show "l \<in> (\<lambda>i. snd (lanes rs) ! i) ` ?S" using busy [OF l] early by auto
    qed
    then have "card {..<?L} \<le> card ((\<lambda>i. snd (lanes rs) ! i) ` ?S)" by (intro card_mono) auto
    also have "\<dots> \<le> card ?S" by (intro card_image_le) auto
    finally have "?L \<le> in_flight rs ?t" by (simp add: in_flight_def count_card)
    moreover have "in_flight (rs @ [r]) ?t = Suc (in_flight rs ?t)"
      using pos(2) by (simp add: in_flight_def count_simps end_of_def)
    ultimately show ?thesis using None by (intro bexI [of _ r]) (simp_all add: lanes_snoc)
  qed
qed simp

text \<open>C35: The lane count is the counter's peak: when the placed requests are in arrival order and each
  takes some time, the number of lanes the greedy packing opens is the largest value the
  active-request counter shows.\<close>

theorem lane_count_is_peak:
  assumes "list_all (\<lambda>r. 0 < span_duration_ms r) rs" "sorted (map arrival_of rs)" "rs \<noteq> []"
  shows "real (snd (assign_lanes rs)) = Max (snd ` set (active_request_counter rs))"
proof -
  let ?L = "length (fst (lanes rs))"
  have nonneg: "list_all (\<lambda>r. 0 \<le> span_duration_ms r) rs" using assms(1) by (auto simp: list_all_iff)
  have nth: "active_request_counter rs ! k =
      (fst (sorted_deltas rs ! k), of_int (max (sum_list (map snd (take (Suc k) (sorted_deltas rs)))) 0))"
    if "k < length (sorted_deltas rs)" for k
    using running_totals_nth [OF that, of 0] by (simp add: active_request_counter_def sorted_deltas_def)
  have len: "length (active_request_counter rs) = length (sorted_deltas rs)"
    by (simp add: active_request_counter_def sorted_deltas_def running_totals_length)
  have le: "v \<le> real ?L" if v: "v \<in> snd ` set (active_request_counter rs)" for v
  proof -
    obtain k where k: "k < length (sorted_deltas rs)" "v = snd (active_request_counter rs ! k)"
      using v len by (auto simp: in_set_conv_nth)
    have "max (sum_list (map snd (take (Suc k) (sorted_deltas rs)))) 0 \<le> int ?L"
      using sample_bound [OF nonneg k(1)] by simp
    then have "of_int (max (sum_list (map snd (take (Suc k) (sorted_deltas rs)))) 0) \<le> (of_int (int ?L) :: real)"
      by (simp only: of_int_le_iff)
    then show ?thesis using nth [OF k(1)] k(2) by simp
  qed
  obtain r where r: "r \<in> set rs" "?L \<le> in_flight rs (arrival_of r)" using lanes_reached [OF assms] by blast
  obtain k where k: "k < length (sorted_deltas rs)"
      "sum_list (map snd (take (Suc k) (sorted_deltas rs))) = int (in_flight rs (arrival_of r))"
    using sample_at_entry [OF nonneg r(1)] by blast
  have mem: "snd (active_request_counter rs ! k) \<in> snd ` set (active_request_counter rs)"
    using k(1) len by simp
  have "real ?L \<le> snd (active_request_counter rs ! k)" using r(2) nth [OF k(1)] k(2) by simp
  then have "snd (active_request_counter rs ! k) = real ?L" using le [OF mem] by simp
  then have "Max (snd ` set (active_request_counter rs)) = real ?L"
    using mem le by (intro Max_eqI) auto
  then show ?thesis by (simp add: assign_lanes_lanes)
qed

theorem lane_count_is_peak_witness:
  "real (snd (assign_lanes example_timeline)) = Max (snd ` set (active_request_counter example_timeline))"
  by (rule lane_count_is_peak) (simp_all add: example_timeline_def default_record_def span_duration_ms_def arrival_of_def)

text \<open>A request that takes no time breaks the agreement: it occupies a lane, but its exit is
  counted before its entry, so the counter never rises above zero.\<close>

theorem instant_request_hides:
  "snd (assign_lanes [default_record\<lparr>tr_arrival_ms := Some 5\<rparr>]) = 1 \<and>
   list_all (\<lambda>sample. snd sample = 0) (active_request_counter [default_record\<lparr>tr_arrival_ms := Some 5\<rparr>])"
  by (simp add: assign_lanes_def lane_step_def active_request_counter_def request_deltas_def
      arrival_of_def end_of_def span_duration_ms_def default_record_def less_eq_prod_def)

section \<open>The recorded tokens along the spans\<close>

definition event_tokens :: "trace_event \<Rightarrow> u32 list" where
  "event_tokens e =
     (case te_args e of None \<Rightarrow> [] | Some j \<Rightarrow>
      case json_get ''token_ids'' j of None \<Rightarrow> [] | Some v \<Rightarrow>
      case json_as_list json_as_word32 v of None \<Rightarrow> [] | Some ids \<Rightarrow> ids)"

lemma words_back: "json_as_list json_as_word32 (json_list json_word ws) = Some ws"
  by (rule json_as_list_list) (rule json_as_word32_word)

lemma prefill_event_tokens:
  "event_tokens (prefill_event r tid index) =
     (case token_slice r 0 (first_chunk_tokens r) of None \<Rightarrow> [] | Some ids \<Rightarrow> ids)"
  by (simp add: event_tokens_def prefill_event_def prefill_args_def Let_def words_back split: option.split)

lemma decode_event_tokens:
  "event_tokens (decode_event r tid index i clock cursor gap) =
     (case token_slice r cursor (chunk_tokens_at r i) of None \<Rightarrow> [] | Some ids \<Rightarrow> ids)"
  by (simp add: event_tokens_def decode_event_def decode_args_def Let_def words_back split: option.split)

lemma token_slice_inside:
  "tr_output_token_ids r = Some ids \<Longrightarrow> start + len \<le> length ids \<Longrightarrow>
     token_slice r start len = Some (take len (drop start ids))"
  by (simp add: token_slice_def)

lemma gap_events_tokens:
  assumes "tr_output_token_ids r = Some ids"
    "cursor + sum_list (map (chunk_tokens_at r) [i..<i + length gaps]) = length ids"
  shows "concat (map event_tokens (gap_events r tid index i clock cursor gaps)) = drop cursor ids"
  using assms
proof (induction r tid index i clock cursor gaps rule: gap_events.induct)
  case (2 r tid index i clock cursor gap gaps)
  have range: "[i..<i + length (gap # gaps)] = i # [Suc i..<Suc i + length gaps]"
    by (subst upt_conv_Cons) simp_all
  have rest: "cursor + chunk_tokens_at r i + sum_list (map (chunk_tokens_at r) [Suc i..<Suc i + length gaps]) = length ids"
    using 2(3) unfolding range by simp
  then have "token_slice r cursor (chunk_tokens_at r i) = Some (take (chunk_tokens_at r i) (drop cursor ids))"
    by (intro token_slice_inside [OF 2(2)]) linarith
  moreover have "concat (map event_tokens (gap_events r tid index (Suc i) (clock + gap) (cursor + chunk_tokens_at r i) gaps)) =
      drop (cursor + chunk_tokens_at r i) ids"
    using 2(1) [OF 2(2) rest] .
  ultimately show ?case
    by (simp add: decode_event_tokens) (metis append_take_drop_id drop_drop add.commute)
qed simp

lemma chunk_tokens_sum:
  assumes "tr_itl_tokens r = Some toks" "length toks = n"
  shows "map (chunk_tokens_at r) [0..<n] = toks"
  using assms by (auto simp: chunk_tokens_at_def intro: nth_equalityI)

text \<open>The spans of a request carry its recorded output, cut along its chunks: for a valid record
  with token ids, whose gaps account for its tokens one by one when chunk sizes were not recorded,
  the ids attached to the spans, in order, are the recorded ids.\<close>

theorem spans_carry_tokens:
  assumes "validate_record r = Inr ()" "tr_output_token_ids r = Some ids"
    and "tr_itl_tokens r \<noteq> None \<or> tr_output_tokens r = min 1 (tr_output_tokens r) + length (gaps_of r)"
  shows "\<exists>evs. tl_events (emit_request r tid index line) = tl_events line @ evs \<and>
    concat (map event_tokens evs) = ids"
proof -
  have len: "length ids = tr_output_tokens r"
    using assms(1,2) by (auto simp: validate_record_def Let_def split: if_splits)
  have total: "first_chunk_tokens r + sum_list (map (chunk_tokens_at r) [0..<length (gaps_of r)]) = length ids"
  proof (cases "tr_itl_tokens r")
    case None
    have "map (chunk_tokens_at r) [0..<length (gaps_of r)] = map (\<lambda>_. 1) [0..<length (gaps_of r)]"
      by (rule map_cong) (simp_all add: chunk_tokens_at_def None)
    then have "sum_list (map (chunk_tokens_at r) [0..<length (gaps_of r)]) = length (gaps_of r)"
      by (simp only: sum_list_triv) simp
    then show ?thesis
      using assms(3) None len by (simp add: first_chunk_tokens_def min.commute)
  next
    case (Some toks)
    then have "length toks = length (gaps_of r)" "sum_list toks < tr_output_tokens r"
      using assms(1) by (auto simp: validate_record_def gaps_of_def Let_def not_le split: if_splits option.splits)
    then show ?thesis
      using Some len chunk_tokens_sum [OF Some] by (simp add: first_chunk_tokens_def)
  qed
  have "token_slice r 0 (first_chunk_tokens r) = Some (take (first_chunk_tokens r) ids)"
    using token_slice_inside [OF assms(2), of 0 "first_chunk_tokens r"] total by simp
  moreover have "concat (map event_tokens (gap_events r tid index 0 (arrival_of r + tr_ttft_ms r)
      (first_chunk_tokens r) (gaps_of r))) = drop (first_chunk_tokens r) ids"
    using gap_events_tokens [OF assms(2)] total by simp
  ultimately have "concat (map event_tokens (request_events r tid index)) = ids"
    by (simp add: request_events_def prefill_event_tokens)
  then show ?thesis using emit_request_events by blast
qed

theorem spans_carry_tokens_witness:
  "\<exists>evs. tl_events (emit_request (default_record\<lparr>tr_output_tokens := 3, tr_itl_ms := Some [5],
       tr_itl_tokens := Some [2], tr_output_token_ids := Some [7, 8, 9]\<rparr>) 1 0
       \<lparr>tl_events = [], tl_running = [], tl_prefill = []\<rparr>) = evs \<and> concat (map event_tokens evs) = [7, 8, 9]"
  using spans_carry_tokens [of "default_record\<lparr>tr_output_tokens := 3, tr_itl_ms := Some [5],
       tr_itl_tokens := Some [2], tr_output_token_ids := Some [7, 8, 9]\<rparr>" "[7, 8, 9]" 1 0
       "\<lparr>tl_events = [], tl_running = [], tl_prefill = []\<rparr>"]
  by (simp add: validate_record_def default_record_def)

end
