(* ===== verification/Calibrate.thy ===== *)
theory Calibrate
  imports Latency_Fit_Model Trace_File
begin

text \<open>
  Model-level calibration (\<^verbatim>\<open>src/src/calibrate.rs\<close>, first half): nearest-rank quantiles and their
  relative error, the synthetic demo traces, samples by concurrency bucket, the knob fit, and the
  comparison of a trace with draws from the replay and the knob model. Indexing past the end of a
  slice is the error \<open>out_of_bounds\<close>. Seeds are 64-bit words and \<^verbatim>\<open>seed + 1\<close> wraps; the generator
  is the parameter \<open>ops\<close>.
\<close>

section \<open>Quantiles\<close>

definition percentile :: "f64 list \<Rightarrow> f64 \<Rightarrow> f64" where
  "percentile xs pct =
     (if xs = [] then 0
      else let idx = nat \<lceil>(pct / 100) * real (length xs)\<rceil>
           in xs ! min (idx - 1) (length xs - 1))"

record quantiles =
  q_p50 :: f64
  q_p90 :: f64
  q_p99 :: f64

definition quantiles_from_sorted :: "f64 list \<Rightarrow> quantiles" where
  "quantiles_from_sorted xs =
     \<lparr>q_p50 = percentile xs 50, q_p90 = percentile xs 90, q_p99 = percentile xs 99\<rparr>"

definition tail_ratio :: "quantiles \<Rightarrow> f64" where
  "tail_ratio q = (if q_p50 q = 0 then 0 else q_p99 q / q_p50 q)"

definition F64_MIN_POSITIVE :: f64 where
  "F64_MIN_POSITIVE = 1 / 2 ^ 1022"

definition relative_error :: "f64 \<Rightarrow> f64 \<Rightarrow> f64" where
  "relative_error a b = \<bar>a - b\<bar> / max (max a b) F64_MIN_POSITIVE"

definition max_relative_error :: "quantiles \<Rightarrow> quantiles \<Rightarrow> f64" where
  "max_relative_error p q =
     fold (\<lambda>(a, b) max_err. if a = 0 \<and> b = 0 then max_err else max max_err (relative_error a b))
       [(q_p50 p, q_p50 q), (q_p90 p, q_p90 q), (q_p99 p, q_p99 q)] 0"

section \<open>Reports\<close>

record bucket_quantiles =
  bq_label :: string
  bq_count :: nat
  bq_ttft :: quantiles
  bq_itl :: quantiles

record request_total =
  rtot_count :: nat
  rtot_source :: quantiles
  rtot_replay :: quantiles
  rtot_max_error :: f64
  rtot_within_tolerance :: bool

record verdict =
  v_source_ttft_tail_ratio :: f64
  v_source_itl_tail_ratio :: f64
  v_replay_ttft_tail_ratio :: f64
  v_replay_itl_tail_ratio :: f64
  v_knobfit_ttft_tail_ratio :: "f64 option"
  v_knobfit_itl_tail_ratio :: "f64 option"
  v_replay_ttft_max_error :: f64
  v_replay_itl_max_error :: f64
  v_replay_pass :: bool
  v_knobfit_tail_capped :: bool
  v_tolerance :: f64

record calibration_report =
  cr_measured_label :: string
  cr_source :: "bucket_quantiles list"
  cr_replay :: "bucket_quantiles list"
  cr_knobfit :: "bucket_quantiles list option"
  cr_request_total :: "request_total option"
  cr_verdict :: verdict

section \<open>Demo traces\<close>

definition lognormal :: "'r rng_ops \<Rightarrow> 'r \<Rightarrow> f64 \<Rightarrow> f64 \<Rightarrow> f64 \<times> 'r" where
  "lognormal ops rng mu sigma = (let (v, rng) = random_norm ops rng mu sigma in (exp v, rng))"

record demo_group =
  dg_prompt_tokens :: nat
  dg_concurrency :: nat
  dg_ttft_mu :: f64
  dg_ttft_sigma :: f64
  dg_itl_mu :: f64
  dg_itl_sigma :: f64
  dg_output_range :: "nat \<times> nat"

fun gen_gaps :: "'r rng_ops \<Rightarrow> demo_group \<Rightarrow> nat \<Rightarrow> 'r \<Rightarrow> f64 list \<times> 'r" where
  "gen_gaps ops g 0 rng = ([], rng)"
| "gen_gaps ops g (Suc n) rng =
     (let (gap, rng) = lognormal ops rng (dg_itl_mu g) (dg_itl_sigma g);
          (gaps, rng) = gen_gaps ops g n rng
      in (max gap (1 / 2) # gaps, rng))"

definition gen_record :: "'r rng_ops \<Rightarrow> demo_group \<Rightarrow> 'r \<Rightarrow> trace_record \<times> 'r" where
  "gen_record ops g rng =
     (let (ttft, rng) = lognormal ops rng (dg_ttft_mu g) (dg_ttft_sigma g);
          ttft_ms = max ttft 1;
          out_range = snd (dg_output_range g) - fst (dg_output_range g) + 1;
          (draw, rng) = rnd_range ops out_range rng;
          output_tokens = fst (dg_output_range g) + draw;
          (gaps, rng) = gen_gaps ops g (output_tokens - 1) rng
      in (default_record\<lparr>tr_prompt_tokens := dg_prompt_tokens g, tr_cached_tokens := 0,
            tr_output_tokens := output_tokens, tr_ttft_ms := ttft_ms,
            tr_itl_ms := (if gaps = [] then None else Some gaps), tr_itl_summary := None,
            tr_concurrency := dg_concurrency g, tr_arrival_ms := None, tr_itl_ctx := None\<rparr>, rng))"

fun gen_group :: "'r rng_ops \<Rightarrow> demo_group \<Rightarrow> nat \<Rightarrow> 'r \<Rightarrow> trace_record list \<times> 'r" where
  "gen_group ops g 0 rng = ([], rng)"
| "gen_group ops g (Suc n) rng =
     (let (r, rng) = gen_record ops g rng; (rs, rng) = gen_group ops g n rng in (r # rs, rng))"

fun gen_groups :: "'r rng_ops \<Rightarrow> nat \<Rightarrow> nat \<Rightarrow> nat \<Rightarrow> demo_group list \<Rightarrow> 'r \<Rightarrow> trace_record list \<times> 'r" where
  "gen_groups ops per_group remainder gi [] rng = ([], rng)"
| "gen_groups ops per_group remainder gi (g # gs) rng =
     (let n = per_group + (if gi < remainder then 1 else 0);
          (rs, rng) = gen_group ops g n rng;
          (rest, rng) = gen_groups ops per_group remainder (Suc gi) gs rng
      in (rs @ rest, rng))"

definition demo_groups :: "demo_group list" where
  "demo_groups =
     [\<lparr>dg_prompt_tokens = 64, dg_concurrency = 1, dg_ttft_mu = 32 / 10, dg_ttft_sigma = 9 / 10,
       dg_itl_mu = 18 / 10, dg_itl_sigma = 8 / 10, dg_output_range = (8, 24)\<rparr>,
      \<lparr>dg_prompt_tokens = 256, dg_concurrency = 4, dg_ttft_mu = 38 / 10, dg_ttft_sigma = 9 / 10,
       dg_itl_mu = 2, dg_itl_sigma = 8 / 10, dg_output_range = (10, 32)\<rparr>,
      \<lparr>dg_prompt_tokens = 512, dg_concurrency = 4, dg_ttft_mu = 4, dg_ttft_sigma = 85 / 100,
       dg_itl_mu = 22 / 10, dg_itl_sigma = 75 / 100, dg_output_range = (12, 28)\<rparr>,
      \<lparr>dg_prompt_tokens = 1024, dg_concurrency = 16, dg_ttft_mu = 43 / 10, dg_ttft_sigma = 95 / 100,
       dg_itl_mu = 23 / 10, dg_itl_sigma = 8 / 10, dg_output_range = (8, 20)\<rparr>]"

definition demo_groups_fast :: "demo_group list" where
  "demo_groups_fast =
     [\<lparr>dg_prompt_tokens = 32, dg_concurrency = 1, dg_ttft_mu = 27 / 10, dg_ttft_sigma = 5 / 10,
       dg_itl_mu = 11 / 10, dg_itl_sigma = 5 / 10, dg_output_range = (4, 8)\<rparr>,
      \<lparr>dg_prompt_tokens = 64, dg_concurrency = 4, dg_ttft_mu = 3, dg_ttft_sigma = 5 / 10,
       dg_itl_mu = 14 / 10, dg_itl_sigma = 5 / 10, dg_output_range = (4, 8)\<rparr>,
      \<lparr>dg_prompt_tokens = 128, dg_concurrency = 4, dg_ttft_mu = 32 / 10, dg_ttft_sigma = 4 / 10,
       dg_itl_mu = 16 / 10, dg_itl_sigma = 4 / 10, dg_output_range = (4, 8)\<rparr>,
      \<lparr>dg_prompt_tokens = 256, dg_concurrency = 16, dg_ttft_mu = 35 / 10, dg_ttft_sigma = 5 / 10,
       dg_itl_mu = 18 / 10, dg_itl_sigma = 5 / 10, dg_output_range = (4, 8)\<rparr>]"

definition gen_from_groups :: "'r rng_ops \<Rightarrow> demo_group list \<Rightarrow> nat \<Rightarrow> u64 \<Rightarrow> trace_record list" where
  "gen_from_groups ops groups num_records seed =
     fst (gen_groups ops (num_records div length groups) (num_records mod length groups) 0 groups
            (seed_from_u64 ops seed))"

definition gen_demo :: "'r rng_ops \<Rightarrow> nat \<Rightarrow> u64 \<Rightarrow> trace_meta \<times> trace_record list" where
  "gen_demo ops num_records seed =
     (default_meta\<lparr>tm_source := Some ''gen-demo''\<rparr>, gen_from_groups ops demo_groups num_records seed)"

definition gen_demo_fast :: "'r rng_ops \<Rightarrow> nat \<Rightarrow> u64 \<Rightarrow> trace_meta \<times> trace_record list" where
  "gen_demo_fast ops num_records seed =
     (default_meta\<lparr>tm_source := Some ''gen-demo-fast''\<rparr>,
      gen_from_groups ops demo_groups_fast num_records seed)"

section \<open>Samples by bucket\<close>

type_synonym labeled_samples = "string \<times> f64 list \<times> f64 list"

text \<open>The gaps of a record, or its summary's mean repeated.\<close>

definition record_itls :: "trace_record \<Rightarrow> f64 list" where
  "record_itls r =
     (case tr_itl_ms r of
        Some gaps \<Rightarrow> gaps
      | None \<Rightarrow> (case tr_itl_summary r of None \<Rightarrow> [] | Some s \<Rightarrow> replicate (itl_count s) (mean_ms s)))"

definition bucket_push :: "trace_record \<Rightarrow> (f64 list \<times> f64 list) list \<Rightarrow> (f64 list \<times> f64 list) list" where
  "bucket_push r buckets =
     (let cb = concurrency_bucket (tr_concurrency r); (ttfts, itls) = buckets ! cb
      in buckets[cb := (ttfts @ [tr_ttft_ms r], itls @ record_itls r)])"

text \<open>Label and sort the buckets that have a first-token sample.\<close>

definition label_buckets :: "(f64 list \<times> f64 list) list \<Rightarrow> labeled_samples list" where
  "label_buckets buckets =
     map (\<lambda>(i, ttfts, itls). (concurrency_label i, sort ttfts, sort itls))
       (filter (\<lambda>(i, ttfts, itls). ttfts \<noteq> []) (enumerate 0 buckets))"

definition source_samples_by_bucket :: "trace_record list \<Rightarrow> labeled_samples list" where
  "source_samples_by_bucket records =
     label_buckets (fold bucket_push records (replicate NUM_CONCURRENCY_BUCKETS ([], [])))"

definition pool_samples :: "trace_record list \<Rightarrow> f64 list \<times> f64 list" where
  "pool_samples records =
     (sort (map tr_ttft_ms records), sort (concat (map record_itls records)))"

definition bucket_row :: "string \<Rightarrow> f64 list \<Rightarrow> f64 list \<Rightarrow> bucket_quantiles" where
  "bucket_row label ttfts itls =
     \<lparr>bq_label = label, bq_count = length ttfts, bq_ttft = quantiles_from_sorted ttfts,
      bq_itl = quantiles_from_sorted itls\<rparr>"

definition quantiles_from_buckets :: "labeled_samples list \<Rightarrow> f64 list \<Rightarrow> f64 list \<Rightarrow> bucket_quantiles list" where
  "quantiles_from_buckets buckets pooled_ttft pooled_itl =
     map (\<lambda>(label, ttfts, itls). bucket_row label ttfts itls) buckets @
     [bucket_row ''pooled'' pooled_ttft pooled_itl]"

definition buckets_from_measured ::
  "f64 list list \<Rightarrow> f64 list list \<Rightarrow> labeled_samples list \<times> f64 list \<times> f64 list" where
  "buckets_from_measured bucket_ttfts bucket_itls =
     (let kept = filter (\<lambda>(ttfts, itls). ttfts \<noteq> []) (zip bucket_ttfts bucket_itls)
      in (label_buckets (zip bucket_ttfts bucket_itls),
          sort (concat (map fst kept)), sort (concat (map snd kept))))"

section \<open>The two models\<close>

definition std_dev :: "f64 list \<Rightarrow> f64 \<Rightarrow> f64" where
  "std_dev values mean =
     (if length values < 2 then 0
      else sqrt (sum_list (map (\<lambda>v. (v - mean)\<^sup>2) values) / real (length values - 1)))"

definition mean_of :: "f64 list \<Rightarrow> f64" where
  "mean_of values = (if values = [] then 0 else sum_list values / real (length values))"

definition zero_knob :: knob_latency where
  "zero_knob =
     \<lparr>kl_time_to_first_token = 0, kl_time_to_first_token_std_dev = 0, kl_inter_token_latency = 0,
      kl_inter_token_latency_std_dev = 0, kl_prefill_overhead = 0, kl_prefill_time_per_token = 0,
      kl_prefill_time_std_dev = 0, kl_kv_cache_transfer_latency = 0,
      kl_kv_cache_transfer_latency_std_dev = 0, kl_kv_cache_transfer_time_per_token = 0,
      kl_kv_cache_transfer_time_std_dev = 0, kl_time_factor_under_load = 1, kl_max_num_seqs = 128\<rparr>"

definition fit_knob_from_trace :: "trace_record list \<Rightarrow> knob_latency" where
  "fit_knob_from_trace records =
     (let (ttfts, itls) = pool_samples records
      in zero_knob
           \<lparr>kl_time_to_first_token := f64_as_u64 (mean_of ttfts),
            kl_time_to_first_token_std_dev := f64_as_u64 (std_dev ttfts (mean_of ttfts)),
            kl_inter_token_latency := f64_as_u64 (mean_of itls),
            kl_inter_token_latency_std_dev := f64_as_u64 (std_dev itls (mean_of itls))\<rparr>)"

fun first_token_delay :: "'r rng_ops \<Rightarrow> latency_model \<Rightarrow> 'r \<Rightarrow> first_token_ctx \<Rightarrow> duration \<times> 'r" where
  "first_token_delay ops (KnobLatency k) rng ctx = knob_first_token_delay ops k rng ctx"
| "first_token_delay ops (TraceLatency m) rng ctx = trace_first_token_delay ops m rng ctx"

fun inter_token_delay :: "'r rng_ops \<Rightarrow> latency_model \<Rightarrow> 'r \<Rightarrow> nat \<Rightarrow> duration \<times> 'r" where
  "inter_token_delay ops (KnobLatency k) rng num_running = knob_inter_token_delay ops k rng num_running"
| "inter_token_delay ops (TraceLatency m) rng num_running = trace_inter_token_delay ops m rng num_running"

definition duration_ms :: "duration \<Rightarrow> f64" where
  "duration_ms d = real d / 10 ^ 9 * 1000"

fun sample_record ::
  "'r rng_ops \<Rightarrow> latency_model \<Rightarrow> trace_record \<Rightarrow> nat \<Rightarrow> 'r \<Rightarrow> f64 list \<times> f64 list \<times> 'r" where
  "sample_record ops model r 0 rng = ([], [], rng)"
| "sample_record ops model r (Suc n) rng =
     (let ctx = \<lparr>ft_num_prompt_tokens = tr_prompt_tokens r, ft_num_cached_tokens = tr_cached_tokens r,
                 ft_do_remote_prefill = False, ft_num_running = tr_concurrency r\<rparr>;
          (ttft, rng) = first_token_delay ops model rng ctx;
          (itl, rng) = inter_token_delay ops model rng (tr_concurrency r);
          (ttfts, itls, rng) = sample_record ops model r n rng
      in (duration_ms ttft # ttfts, duration_ms itl # itls, rng))"

fun sample_records ::
  "'r rng_ops \<Rightarrow> latency_model \<Rightarrow> nat \<Rightarrow> trace_record list \<Rightarrow> f64 list list \<Rightarrow> f64 list list \<Rightarrow> 'r \<Rightarrow>
   f64 list list \<times> f64 list list" where
  "sample_records ops model per_record [] ttfts itls rng = (ttfts, itls)"
| "sample_records ops model per_record (r # rs) ttfts itls rng =
     (let cb = concurrency_bucket (tr_concurrency r);
          (t, i, rng) = sample_record ops model r per_record rng
      in sample_records ops model per_record rs (ttfts[cb := ttfts ! cb @ t]) (itls[cb := itls ! cb @ i]) rng)"

definition sample_model_to_buckets ::
  "'r rng_ops \<Rightarrow> latency_model \<Rightarrow> trace_record list \<Rightarrow> nat \<Rightarrow> u64 \<Rightarrow>
   labeled_samples list \<times> f64 list \<times> f64 list" where
  "sample_model_to_buckets ops model records per_record seed =
     (let (ttfts, itls) = sample_records ops model per_record records
            (replicate NUM_CONCURRENCY_BUCKETS []) (replicate NUM_CONCURRENCY_BUCKETS [])
            (seed_from_u64 ops seed)
      in buckets_from_measured ttfts itls)"

section \<open>Request totals\<close>

definition source_total :: "trace_record \<Rightarrow> f64 list" where
  "source_total r =
     (case tr_itl_ms r of
        Some gaps \<Rightarrow> if gaps = [] then [] else [sum_list gaps]
      | None \<Rightarrow>
          (case tr_itl_summary r of
             None \<Rightarrow> []
           | Some s \<Rightarrow> if itl_count s > 0 then [mean_ms s * real (itl_count s)] else []))"

definition count_gaps :: "trace_record \<Rightarrow> nat" where
  "count_gaps r =
     (case tr_itl_ms r of
        Some gaps \<Rightarrow> length gaps
      | None \<Rightarrow> (case tr_itl_summary r of None \<Rightarrow> 0 | Some s \<Rightarrow> itl_count s))"

definition out_of_bounds :: string where
  "out_of_bounds = ''index out of bounds''"

text \<open>One assembled total: the recorded prefills of the gap are replayed before each draw, and the
  context array is indexed without a check.\<close>

fun paced_total ::
  "'r rng_ops \<Rightarrow> latency_model \<Rightarrow> trace_record \<Rightarrow> nat list \<Rightarrow> 'r \<Rightarrow> decode_pacing \<Rightarrow> (f64 \<times> 'r) result" where
  "paced_total ops model r [] rng p = Inr (0, rng)"
| "paced_total ops model r (i # gap_ids) rng p =
     bind_result
       (case tr_itl_ctx r of
          None \<Rightarrow> Inr p
        | Some ctx \<Rightarrow>
            if i < length (ctx_prefill_tokens ctx)
            then Inr (if ctx_prefill_tokens ctx ! i > 0 then note_prefill (ctx_prefill_tokens ctx ! i) p else p)
            else Inl out_of_bounds)
       (\<lambda>p. let (draw, rng, p) = paced_step ops model rng (tr_concurrency r) p
            in bind_result (paced_total ops model r gap_ids rng p)
                 (\<lambda>(rest, rng). Inr (duration_ms (sd_delay draw) + rest, rng)))"

fun paced_totals :: "'r rng_ops \<Rightarrow> latency_model \<Rightarrow> trace_record \<Rightarrow> nat \<Rightarrow> 'r \<Rightarrow> (f64 list \<times> 'r) result" where
  "paced_totals ops model r 0 rng = Inr ([], rng)"
| "paced_totals ops model r (Suc n) rng =
     bind_result (paced_total ops model r [0..<count_gaps r] rng (for_prompt (tr_prompt_tokens r) (record_churn r)))
       (\<lambda>(t, rng). bind_result (paced_totals ops model r n rng) (\<lambda>(ts, rng). Inr (t # ts, rng)))"

fun replay_totals :: "'r rng_ops \<Rightarrow> latency_model \<Rightarrow> nat \<Rightarrow> trace_record list \<Rightarrow> 'r \<Rightarrow> f64 list result" where
  "replay_totals ops model reps [] rng = Inr []"
| "replay_totals ops model reps (r # rs) rng =
     (if count_gaps r = 0 then replay_totals ops model reps rs rng
      else bind_result (paced_totals ops model r reps rng)
             (\<lambda>(ts, rng). bind_result (replay_totals ops model reps rs rng) (\<lambda>rest. Inr (ts @ rest))))"

definition total_report :: "f64 list \<Rightarrow> f64 list \<Rightarrow> f64 \<Rightarrow> request_total" where
  "total_report source_totals totals tolerance =
     (let source = quantiles_from_sorted (sort source_totals);
          replay = quantiles_from_sorted (sort totals);
          max_error = max_relative_error source replay
      in \<lparr>rtot_count = length source_totals, rtot_source = source, rtot_replay = replay,
          rtot_max_error = max_error, rtot_within_tolerance = (max_error \<le> tolerance)\<rparr>)"

definition request_total_report ::
  "'r rng_ops \<Rightarrow> trace_record list \<Rightarrow> latency_model \<Rightarrow> nat \<Rightarrow> u64 \<Rightarrow> f64 \<Rightarrow> request_total option result" where
  "request_total_report ops records model samples_per_record seed tolerance =
     (let source_totals = concat (map source_total records)
      in if source_totals = [] then Inr None
         else let reps = max 3 (min samples_per_record 20)
              in bind_result (replay_totals ops model reps records (seed_from_u64 ops (seed + 2)))
                   (\<lambda>totals. Inr (Some (total_report source_totals totals tolerance))))"

section \<open>The calibration\<close>

definition zero_quantiles :: quantiles where
  "zero_quantiles = \<lparr>q_p50 = 0, q_p90 = 0, q_p99 = 0\<rparr>"

text \<open>The pooled row is the last one.\<close>

definition pooled_of :: "bucket_quantiles list \<Rightarrow> quantiles \<times> quantiles" where
  "pooled_of rows =
     (if rows = [] then (zero_quantiles, zero_quantiles) else (bq_ttft (last rows), bq_itl (last rows)))"

definition bucket_table :: "labeled_samples list \<times> f64 list \<times> f64 list \<Rightarrow> bucket_quantiles list" where
  "bucket_table samples =
     (let (buckets, ttft, itl) = samples in quantiles_from_buckets buckets ttft itl)"

definition source_table :: "trace_record list \<Rightarrow> bucket_quantiles list" where
  "source_table records =
     (let (ttft, itl) = pool_samples records
      in quantiles_from_buckets (source_samples_by_bucket records) ttft itl)"

definition samples_per_record :: "nat \<Rightarrow> trace_record list \<Rightarrow> nat" where
  "samples_per_record num_samples records = max (num_samples div length records) 10"

definition calibrate :: "'r rng_ops \<Rightarrow> trace_record list \<Rightarrow> nat \<Rightarrow> u64 \<Rightarrow> f64 \<Rightarrow> calibration_report result" where
  "calibrate ops records num_samples seed tolerance =
     (if records = [] then Inl ''no records in trace''
      else
        let per_record = samples_per_record num_samples records;
            source = source_table records
        in bind_result (err_context ''building TraceLatency for replay''
             (trace_latency_from_records records zero_knob 8192)) (\<lambda>m.
           let replay = bucket_table (sample_model_to_buckets ops (TraceLatency m) records per_record seed)
           in bind_result (request_total_report ops records (TraceLatency m) per_record seed tolerance) (\<lambda>total.
              let knobfit = bucket_table (sample_model_to_buckets ops (KnobLatency (fit_knob_from_trace records))
                              records per_record (seed + 1));
                  (src_ttft, src_itl) = pooled_of source;
                  (rep_ttft, rep_itl) = pooled_of replay;
                  (knb_ttft, knb_itl) = pooled_of knobfit;
                  ttft_err = max_relative_error src_ttft rep_ttft;
                  itl_err = max_relative_error src_itl rep_itl
              in Inr \<lparr>cr_measured_label = ''replay'', cr_source = source, cr_replay = replay,
                   cr_knobfit = Some knobfit, cr_request_total = total,
                   cr_verdict =
                     \<lparr>v_source_ttft_tail_ratio = tail_ratio src_ttft, v_source_itl_tail_ratio = tail_ratio src_itl,
                      v_replay_ttft_tail_ratio = tail_ratio rep_ttft, v_replay_itl_tail_ratio = tail_ratio rep_itl,
                      v_knobfit_ttft_tail_ratio = Some (tail_ratio knb_ttft),
                      v_knobfit_itl_tail_ratio = Some (tail_ratio knb_itl),
                      v_replay_ttft_max_error = ttft_err, v_replay_itl_max_error = itl_err,
                      v_replay_pass = (ttft_err \<le> tolerance \<and> itl_err \<le> tolerance \<and>
                        (case total of None \<Rightarrow> True | Some rt \<Rightarrow> rtot_within_tolerance rt)),
                      v_knobfit_tail_capped = (tail_ratio knb_ttft \<le> 175 / 100 \<and> tail_ratio src_ttft > 175 / 100),
                      v_tolerance = tolerance\<rparr>\<rparr>)))"

record model_samples =
  ms_ttft :: "f64 list"
  ms_itl :: "f64 list"

record sample_dump =
  sdump_source :: model_samples
  sdump_replay :: model_samples
  sdump_knobfit :: model_samples

definition pooled_samples :: "labeled_samples list \<times> f64 list \<times> f64 list \<Rightarrow> model_samples" where
  "pooled_samples samples = \<lparr>ms_ttft = fst (snd samples), ms_itl = snd (snd samples)\<rparr>"

definition dump_samples :: "'r rng_ops \<Rightarrow> trace_record list \<Rightarrow> nat \<Rightarrow> u64 \<Rightarrow> sample_dump result" where
  "dump_samples ops records num_samples seed =
     (if records = [] then Inl ''no records in trace''
      else
        let per_record = samples_per_record num_samples records;
            (source_ttft, source_itl) = pool_samples records
        in bind_result (err_context ''building TraceLatency for replay''
             (trace_latency_from_records records zero_knob 8192)) (\<lambda>m.
           Inr \<lparr>sdump_source = \<lparr>ms_ttft = sort source_ttft, ms_itl = sort source_itl\<rparr>,
                sdump_replay = pooled_samples (sample_model_to_buckets ops (TraceLatency m) records per_record seed),
                sdump_knobfit = pooled_samples (sample_model_to_buckets ops (KnobLatency (fit_knob_from_trace records))
                  records per_record (seed + 1))\<rparr>))"

section \<open>The printed table\<close>

text \<open>
  A line of the printed report: label, count and the source, measured and knob quantiles. Source
  and measured rows are zipped; the knob row is indexed by position.
\<close>

type_synonym report_row = "string \<times> nat \<times> quantiles \<times> quantiles \<times> quantiles option"

definition knob_at :: "(bucket_quantiles \<Rightarrow> quantiles) \<Rightarrow> calibration_report \<Rightarrow> nat \<Rightarrow> quantiles option result" where
  "knob_at sel report i =
     (case cr_knobfit report of
        None \<Rightarrow> Inr None
      | Some kb \<Rightarrow> if i < length kb then Inr (Some (sel (kb ! i))) else Inl out_of_bounds)"

fun table_rows ::
  "(bucket_quantiles \<Rightarrow> quantiles) \<Rightarrow> calibration_report \<Rightarrow> nat \<Rightarrow>
   (bucket_quantiles \<times> bucket_quantiles) list \<Rightarrow> report_row list result" where
  "table_rows sel report i [] = Inr []"
| "table_rows sel report i ((s, r) # rest) =
     bind_result (knob_at sel report i) (\<lambda>k.
     bind_result (table_rows sel report (Suc i) rest) (\<lambda>rows.
       Inr ((bq_label s, bq_count s, sel s, sel r, k) # rows)))"

definition report_table :: "(bucket_quantiles \<Rightarrow> quantiles) \<Rightarrow> calibration_report \<Rightarrow> report_row list result" where
  "report_table sel report = table_rows sel report 0 (zip (cr_source report) (cr_replay report))"

definition write_report :: "calibration_report \<Rightarrow> (report_row list \<times> report_row list) result" where
  "write_report report =
     bind_result (report_table bq_ttft report) (\<lambda>ttft_rows.
     bind_result (report_table bq_itl report) (\<lambda>itl_rows. Inr (ttft_rows, itl_rows)))"

end
