(* ===== verification/Arrivals.thy ===== *)
theory Arrivals
  imports Calibrate Tap
begin

text \<open>
  The wire-level harnesses (\<^verbatim>\<open>src/src/calibrate.rs\<close>, second half, and \<^verbatim>\<open>calibrate_e2e_impl\<close> of
  \<^verbatim>\<open>src/src/inspect.rs\<close>): prompts rebuilt from block hashes, sessions inferred from hash chains, the
  schedule of a replay, the client-side measurement of one request, and the report over what was
  measured. The engine under test and its client are outside: what a call returns is the list of
  items its output stream yields, with the client instant at which each arrived.
\<close>

section \<open>Prompts\<close>

definition GOLDEN_GAMMA :: u64 where
  "GOLDEN_GAMMA = 0x9E3779B97F4A7C15"

definition MIX :: u64 where
  "MIX = 0xBF58476D1CE4E5B9"

definition mix_token :: "u64 \<Rightarrow> u64 \<Rightarrow> u32" where
  "mix_token seed pos =
     (let x = seed * GOLDEN_GAMMA + pos * MIX; x = x XOR drop_bit 33 x in ucast (x mod 31000))"

definition synthetic_prompt :: "nat \<Rightarrow> nat \<Rightarrow> u32 list" where
  "synthetic_prompt request_index len = map (\<lambda>j. mix_token (of_nat request_index) (of_nat j)) [0..<len]"

definition hash_block_tokens :: "nat \<Rightarrow> u64 \<Rightarrow> u32 list" where
  "hash_block_tokens bsz h = map (\<lambda>j. mix_token h (of_nat j)) [0..<bsz]"

definition prompt_from_block_hashes :: "u64 list \<Rightarrow> nat \<Rightarrow> nat \<Rightarrow> nat \<Rightarrow> u32 list" where
  "prompt_from_block_hashes hashes prompt_tokens bsz request_index =
     (let toks = take prompt_tokens (concat (map (hash_block_tokens bsz) hashes))
      in toks @ synthetic_prompt request_index (prompt_tokens - length toks))"

section \<open>Sessions\<close>

datatype sim_driver = TraceReplay | KnobFit
datatype session_pacing = OpenLoop | Chained
datatype prompt_replay = SharedPrefixes | Cold

text \<open>The longest proper prefix of the chain, by its last hash, that some earlier record ended on and
  whose record has exactly that many blocks.\<close>

fun parent_upto :: "trace_record list \<Rightarrow> (u64 \<rightharpoonup> nat) \<Rightarrow> u64 list \<Rightarrow> nat \<Rightarrow> nat option" where
  "parent_upto records by_last chain 0 = None"
| "parent_upto records by_last chain (Suc k) =
     (case by_last (chain ! k) of
        None \<Rightarrow> parent_upto records by_last chain k
      | Some p \<Rightarrow>
          if map_option length (tr_block_hashes (records ! p)) = Some (Suc k) then Some p
          else parent_upto records by_last chain k)"

fun infer_parents ::
  "trace_record list \<Rightarrow> (u64 \<rightharpoonup> nat) \<Rightarrow> nat \<Rightarrow> trace_record list \<Rightarrow> nat option list" where
  "infer_parents records by_last i [] = []"
| "infer_parents records by_last i (r # rest) =
     (case tr_block_hashes r of
        None \<Rightarrow> None # infer_parents records by_last (Suc i) rest
      | Some chain \<Rightarrow>
          parent_upto records by_last chain (length chain - 1) #
          infer_parents records (if chain = [] then by_last else by_last(last chain \<mapsto> i)) (Suc i) rest)"

definition infer_session_parents :: "trace_record list \<Rightarrow> nat option list" where
  "infer_session_parents records = infer_parents records Map.empty 0 records"

text \<open>The decode time of a record: its gaps, or its summary.\<close>

definition source_decode_ms :: "trace_record \<Rightarrow> f64" where
  "source_decode_ms r =
     (case tr_itl_ms r of
        Some gaps \<Rightarrow> sum_list gaps
      | None \<Rightarrow> (case tr_itl_summary r of None \<Rightarrow> 0 | Some s \<Rightarrow> mean_ms s * real (itl_count s)))"

definition arrival_or :: "f64 \<Rightarrow> trace_record \<Rightarrow> f64" where
  "arrival_or d r = (case tr_arrival_ms r of None \<Rightarrow> d | Some a \<Rightarrow> a)"

definition source_completion_ms :: "trace_record \<Rightarrow> f64" where
  "source_completion_ms r = arrival_or 0 r + tr_ttft_ms r + source_decode_ms r"

section \<open>Measuring one request\<close>

datatype stream_item =
    StreamOutput (so_tokens: nat) (so_timestamp: f64) (so_finished: bool) (so_received: instant)
  | StreamError
  | StreamTimeout

text \<open>First-token instant, engine-side stamps and chunk sizes of the messages that carry tokens.
  \<open>None\<close> is an error or the timeout.\<close>

fun consume ::
  "stream_item list \<Rightarrow> instant option \<Rightarrow> f64 list \<Rightarrow> nat list \<Rightarrow> (instant option \<times> f64 list \<times> nat list) option" where
  "consume [] first stamps chunks = Some (first, stamps, chunks)"
| "consume (StreamError # rest) first stamps chunks = None"
| "consume (StreamTimeout # rest) first stamps chunks = None"
| "consume (StreamOutput n ts fin received # rest) first stamps chunks =
     (let first' = (if n = 0 then first else case first of None \<Rightarrow> Some received | Some f \<Rightarrow> Some f);
          stamps' = (if n = 0 then stamps else stamps @ [ts]);
          chunks' = (if n = 0 then chunks else chunks @ [as_u32 n])
      in if fin then Some (first', stamps', chunks') else consume rest first' stamps' chunks')"

definition window_gaps :: "f64 list \<Rightarrow> f64 list" where
  "window_gaps stamps = map2 (\<lambda>a b. (b - a) * 1000) stamps (tl stamps)"

text \<open>A call that fails returns no stream.\<close>

definition measure_one :: "instant \<Rightarrow> stream_item list option \<Rightarrow> f64 option \<times> f64 list \<times> nat list" where
  "measure_one call_start stream =
     (case stream of
        None \<Rightarrow> (None, [], [])
      | Some items \<Rightarrow>
          (case consume items None [] [] of
             None \<Rightarrow> (None, [], [])
           | Some (first, stamps, chunks) \<Rightarrow>
               (map_option (\<lambda>f. duration_ms (f - call_start)) first, window_gaps stamps, chunks)))"

section \<open>The schedule\<close>

record replay_config =
  rc_max_requests :: "nat option"
  rc_tolerance :: f64
  rc_driver :: sim_driver
  rc_extra_sim_args :: "string list"
  rc_pacing :: session_pacing
  rc_prompts :: prompt_replay
  rc_time_scale :: f64

definition replay_time_scale :: "replay_config \<Rightarrow> f64" where
  "replay_time_scale cfg = (if rc_time_scale cfg > 0 then rc_time_scale cfg else 1)"

text \<open>The replayed records; the first one is then indexed.\<close>

definition replay_schedule :: "replay_config \<Rightarrow> trace_record list \<Rightarrow> trace_record list result" where
  "replay_schedule cfg all_records =
     (let kept = replay_subset all_records
      in if kept = [] then Inl ''trace has no records with arrival_ms''
         else let kept = (case rc_max_requests cfg of None \<Rightarrow> kept | Some n \<Rightarrow> take n kept)
              in if kept = [] then Inl out_of_bounds else Inr kept)"

text \<open>When a request fires: at an offset from the start, or a think gap after its parent.\<close>

datatype trigger = AtOffset duration | AfterParent nat f64

definition replay_parents :: "replay_config \<Rightarrow> trace_record list \<Rightarrow> nat option list" where
  "replay_parents cfg kept =
     (if rc_pacing cfg = Chained then infer_session_parents kept else replicate (length kept) None)"

definition think_ms :: "f64 \<Rightarrow> trace_record list \<Rightarrow> nat \<Rightarrow> nat \<Rightarrow> f64" where
  "think_ms time_scale kept i p =
     max (arrival_or 0 (kept ! i) - source_completion_ms (kept ! p)) 0 / time_scale"

definition replay_trigger :: "replay_config \<Rightarrow> trace_record list \<Rightarrow> nat \<Rightarrow> trigger" where
  "replay_trigger cfg kept i =
     (case replay_parents cfg kept ! i of
        Some p \<Rightarrow> AfterParent p (think_ms (replay_time_scale cfg) kept i p)
      | None \<Rightarrow>
          let first_arrival = arrival_or 0 (hd kept);
              offset_ms = max (arrival_or first_arrival (kept ! i) - first_arrival) 0
          in AtOffset (from_secs_f64 (offset_ms / 1000 / replay_time_scale cfg)))"

text \<open>The client crate's default request and test sampling parameters are parameters.\<close>

definition replay_request ::
  "engine_request \<Rightarrow> sampling_params \<Rightarrow> replay_config \<Rightarrow> nat \<Rightarrow> nat \<Rightarrow> trace_record \<Rightarrow> engine_request" where
  "replay_request default_request for_test cfg bsz i rec =
     default_request
       \<lparr>req_id := ''replay-'' @ nat_str i,
        req_prompt := Some
          (case tr_block_hashes rec of
             Some hashes \<Rightarrow>
               if rc_prompts cfg = SharedPrefixes
               then prompt_from_block_hashes hashes (tr_prompt_tokens rec) bsz i
               else synthetic_prompt i (tr_prompt_tokens rec)
           | None \<Rightarrow> synthetic_prompt i (tr_prompt_tokens rec)),
        req_sampling := Some (for_test\<lparr>sp_max_tokens := min (max (tr_output_tokens rec) 1) (2 ^ 32 - 1)\<rparr>)\<rparr>"

definition replay_timeout :: "replay_config \<Rightarrow> trace_record \<Rightarrow> duration" where
  "replay_timeout cfg rec =
     from_secs_f64 (60 + 5 * (tr_ttft_ms rec + source_decode_ms rec) / 1000 / replay_time_scale cfg)"

text \<open>The flags of the simulator under test; \<open>show_f64\<close> prints the time scale, and the latency source
  is the trace path, or the knobs fitted from its records.\<close>

definition replay_sim_args ::
  "(f64 \<Rightarrow> string) \<Rightarrow> replay_config \<Rightarrow> trace_meta \<Rightarrow> string \<Rightarrow> string \<Rightarrow> trace_record list \<Rightarrow> string list" where
  "replay_sim_args show_f64 cfg meta addr latency_path lat_records =
     [''play'', ''--handshake-address'', addr] @
     (if list_ex (str_contains ''--max-num-seqs'') (rc_extra_sim_args cfg) then []
      else [''--max-num-seqs'', nat_str (case tm_max_num_seqs meta of None \<Rightarrow> 64 | Some n \<Rightarrow> n)]) @
     (if rc_driver cfg = KnobFit
      then let knob = fit_knob_from_trace lat_records
           in [''--time-to-first-token'', nat_str (kl_time_to_first_token knob),
               ''--time-to-first-token-std-dev'', nat_str (kl_time_to_first_token_std_dev knob),
               ''--inter-token-latency'', nat_str (kl_inter_token_latency knob),
               ''--inter-token-latency-std-dev'', nat_str (kl_inter_token_latency_std_dev knob)]
      else [''--latency-trace'', latency_path]) @
     (if replay_time_scale cfg \<noteq> 1 then [''--time-scale'', show_f64 (replay_time_scale cfg)] else []) @
     rc_extra_sim_args cfg"

section \<open>The measured run\<close>

record replayed_request =
  rr_index :: nat
  rr_send_lag_ms :: f64
  rr_ttft_ms :: "f64 option"
  rr_gaps_ms :: "f64 list"
  rr_chunk_tokens :: "nat list"

text \<open>One request's task: its send lag when it has a wall-clock target, and what its stream measured,
  scaled back to the source's time.\<close>

definition run_request ::
  "replay_config \<Rightarrow> trace_record list \<Rightarrow> nat \<Rightarrow> duration \<Rightarrow> instant \<Rightarrow> stream_item list option \<Rightarrow> replayed_request" where
  "run_request cfg kept i lag call_start stream =
     (let (ttft, gaps, chunks) = measure_one call_start stream
      in \<lparr>rr_index = i,
          rr_send_lag_ms = (case replay_trigger cfg kept i of AtOffset _ \<Rightarrow> duration_ms lag | AfterParent _ _ \<Rightarrow> 0),
          rr_ttft_ms = map_option (\<lambda>t. t * replay_time_scale cfg) ttft,
          rr_gaps_ms = map (\<lambda>g. g * replay_time_scale cfg) gaps,
          rr_chunk_tokens = chunks\<rparr>)"

definition measured_record :: "trace_record \<Rightarrow> replayed_request \<Rightarrow> f64 \<Rightarrow> trace_record" where
  "measured_record rec m ttft =
     (let itl_tokens =
            (if rr_chunk_tokens m = [] then None
             else if list_ex (\<lambda>c. c > 1) (tl (rr_chunk_tokens m)) then Some (tl (rr_chunk_tokens m)) else None);
          output_tokens =
            (if rr_chunk_tokens m = [] then length (rr_gaps_ms m) + 1 else sum_list (rr_chunk_tokens m))
      in default_record
           \<lparr>tr_prompt_tokens := tr_prompt_tokens rec, tr_cached_tokens := 0,
            tr_output_tokens := output_tokens, tr_ttft_ms := ttft,
            tr_itl_ms := (if rr_gaps_ms m = [] then None else Some (rr_gaps_ms m)),
            tr_itl_tokens := itl_tokens, tr_itl_summary := None,
            tr_concurrency := tr_concurrency rec, tr_arrival_ms := tr_arrival_ms rec,
            tr_itl_ctx := None\<rparr>)"

record measured_run =
  mr_ttfts :: "f64 list list"
  mr_itls :: "f64 list list"
  mr_totals :: "f64 list"
  mr_records :: "trace_record list"
  mr_completed :: nat
  mr_max_send_lag :: f64

definition empty_run :: measured_run where
  "empty_run =
     \<lparr>mr_ttfts = replicate NUM_CONCURRENCY_BUCKETS [], mr_itls = replicate NUM_CONCURRENCY_BUCKETS [],
      mr_totals = [], mr_records = [], mr_completed = 0, mr_max_send_lag = 0\<rparr>"

definition collect_one :: "trace_record list \<Rightarrow> replayed_request \<Rightarrow> measured_run \<Rightarrow> measured_run" where
  "collect_one kept m run =
     (let run = run\<lparr>mr_max_send_lag := max (mr_max_send_lag run) (rr_send_lag_ms m)\<rparr>
      in case rr_ttft_ms m of
           None \<Rightarrow> run
         | Some ttft \<Rightarrow>
             let run = run\<lparr>mr_completed := mr_completed run + 1\<rparr>
             in if rr_index m < length kept
                then let rec = kept ! rr_index m; cb = concurrency_bucket (tr_concurrency rec)
                     in run\<lparr>mr_ttfts := (mr_ttfts run)[cb := mr_ttfts run ! cb @ [ttft]],
                            mr_itls := (mr_itls run)[cb := mr_itls run ! cb @ rr_gaps_ms m],
                            mr_totals := mr_totals run @ (if rr_gaps_ms m = [] then [] else [sum_list (rr_gaps_ms m)]),
                            mr_records := mr_records run @ [measured_record rec m ttft]\<rparr>
                else run)"

record replay_outcome =
  ro_report :: calibration_report
  ro_measured :: "trace_record list"
  ro_requests_replayed :: nat
  ro_requests_completed :: nat
  ro_max_send_lag_ms :: f64

definition driver_label :: "sim_driver \<Rightarrow> string" where
  "driver_label d = (if d = KnobFit then ''knobfit'' else ''replay'')"

text \<open>The report of a wire-level run: one measured model, no knob table.\<close>

definition wire_report ::
  "sim_driver \<Rightarrow> f64 \<Rightarrow> bucket_quantiles list \<Rightarrow> bucket_quantiles list \<Rightarrow> request_total option \<Rightarrow> calibration_report" where
  "wire_report driver tolerance source replay totals_row =
     (let (src_ttft, src_itl) = pooled_of source;
          (rep_ttft, rep_itl) = pooled_of replay;
          ttft_err = max_relative_error src_ttft rep_ttft;
          itl_err = max_relative_error src_itl rep_itl
      in \<lparr>cr_measured_label = driver_label driver, cr_source = source, cr_replay = replay,
          cr_knobfit = None, cr_request_total = totals_row,
          cr_verdict =
            \<lparr>v_source_ttft_tail_ratio = tail_ratio src_ttft, v_source_itl_tail_ratio = tail_ratio src_itl,
             v_replay_ttft_tail_ratio = tail_ratio rep_ttft, v_replay_itl_tail_ratio = tail_ratio rep_itl,
             v_knobfit_ttft_tail_ratio = None, v_knobfit_itl_tail_ratio = None,
             v_replay_ttft_max_error = ttft_err, v_replay_itl_max_error = itl_err,
             v_replay_pass = (ttft_err \<le> tolerance \<and> itl_err \<le> tolerance \<and>
               (case totals_row of None \<Rightarrow> True | Some rt \<Rightarrow> rtot_within_tolerance rt)),
             v_knobfit_tail_capped = False, v_tolerance = tolerance\<rparr>\<rparr>)"

text \<open>The assessment of a finished replay; \<open>finished\<close> are the tasks that joined, in schedule order.\<close>

definition assess_replay :: "replay_config \<Rightarrow> trace_record list \<Rightarrow> replayed_request list \<Rightarrow> replay_outcome" where
  "assess_replay cfg kept finished =
     (let run = fold (collect_one kept) finished empty_run;
          replay = bucket_table (buckets_from_measured (mr_ttfts run) (mr_itls run));
          source = source_table kept;
          source_totals = concat (map source_total kept);
          totals_row = (if source_totals = [] \<or> mr_totals run = [] then None
                   else Some (total_report source_totals (mr_totals run) (rc_tolerance cfg)))
      in \<lparr>ro_report = wire_report (rc_driver cfg) (rc_tolerance cfg) source replay totals_row,
          ro_measured = mr_records run, ro_requests_replayed = length kept,
          ro_requests_completed = mr_completed run, ro_max_send_lag_ms = mr_max_send_lag run\<rparr>)"

text \<open>The whole harness: \<open>serve i request\<close> is what the engine under test answers, with the send lag and
  the client's call instant, or \<open>None\<close> when the task does not join.\<close>

definition replay_arrivals ::
  "engine_request \<Rightarrow> sampling_params \<Rightarrow>
   (nat \<Rightarrow> engine_request \<Rightarrow> (duration \<times> instant \<times> stream_item list option) option) \<Rightarrow>
   replay_config \<Rightarrow> trace_meta \<Rightarrow> trace_record list \<Rightarrow> replay_outcome result" where
  "replay_arrivals default_request for_test serve cfg meta all_records =
     bind_result (replay_schedule cfg all_records) (\<lambda>kept.
       let bsz = (case tm_block_size meta of None \<Rightarrow> 16 | Some b \<Rightarrow> b);
           answers = map (\<lambda>(i, rec). (i, serve i (replay_request default_request for_test cfg bsz i rec)))
                       (enumerate 0 kept);
           finished = concat (map (\<lambda>(i, answer).
                        case answer of None \<Rightarrow> []
                        | Some (lag, call_start, stream) \<Rightarrow> [run_request cfg kept i lag call_start stream]) answers)
       in Inr (assess_replay cfg kept finished))"

section \<open>The sampled harness\<close>

fun pick_records :: "'r rng_ops \<Rightarrow> trace_record list \<Rightarrow> nat \<Rightarrow> 'r \<Rightarrow> trace_record list" where
  "pick_records ops records 0 rng = []"
| "pick_records ops records (Suc n) rng =
     (let (i, rng) = rnd_range ops (length records) rng in (records ! i) # pick_records ops records n rng)"

definition e2e_request :: "engine_request \<Rightarrow> sampling_params \<Rightarrow> nat \<Rightarrow> trace_record \<Rightarrow> engine_request" where
  "e2e_request default_request for_test i rec =
     default_request
       \<lparr>req_id := ''cal-'' @ nat_str i, req_prompt := Some (synthetic_prompt i (tr_prompt_tokens rec)),
        req_sampling := Some (for_test\<lparr>sp_max_tokens := min (tr_output_tokens rec) 32\<rparr>)\<rparr>"

text \<open>Here both the first token and the gaps use the client's clock.\<close>

fun e2e_consume :: "stream_item list \<Rightarrow> instant list \<Rightarrow> instant list option" where
  "e2e_consume [] seen = Some seen"
| "e2e_consume (StreamError # rest) seen = None"
| "e2e_consume (StreamTimeout # rest) seen = None"
| "e2e_consume (StreamOutput n ts fin received # rest) seen =
     (let seen' = (if n = 0 then seen else seen @ [received])
      in if fin then Some seen' else e2e_consume rest seen')"

definition e2e_collect ::
  "nat \<times> instant \<times> stream_item list \<Rightarrow> f64 list list \<times> f64 list list \<Rightarrow> f64 list list \<times> f64 list list" where
  "e2e_collect answer acc =
     (let (cb, call_start, items) = answer; (ttfts, itls) = acc
      in case e2e_consume items [] of
           None \<Rightarrow> (ttfts, itls)
         | Some seen \<Rightarrow>
             ((if seen = [] then ttfts else ttfts[cb := ttfts ! cb @ [duration_ms (hd seen - call_start)]]),
              itls[cb := itls ! cb @ map2 (\<lambda>a b. duration_ms (b - a)) seen (tl seen)]))"

text \<open>The requests go out in batches by concurrency, in the unspecified order of a hash map: \<open>order\<close> is
  that order, as positions of the selected records. \<open>serve\<close> fails with the call.\<close>

fun e2e_answers ::
  "(nat \<Rightarrow> engine_request \<Rightarrow> (instant \<times> stream_item list) result) \<Rightarrow> engine_request \<Rightarrow> sampling_params \<Rightarrow>
   trace_record list \<Rightarrow> nat list \<Rightarrow> (nat \<times> instant \<times> stream_item list) list result" where
  "e2e_answers serve default_request for_test selected [] = Inr []"
| "e2e_answers serve default_request for_test selected (i # order) =
     bind_result (err_context ''call failed'' (serve i (e2e_request default_request for_test i (selected ! i)))) (\<lambda>a.
     bind_result (e2e_answers serve default_request for_test selected order) (\<lambda>rest.
       Inr ((concurrency_bucket (tr_concurrency (selected ! i)), a) # rest)))"

definition calibrate_e2e ::
  "'r rng_ops \<Rightarrow> (trace_record list \<Rightarrow> nat list) \<Rightarrow>
   (nat \<Rightarrow> engine_request \<Rightarrow> (instant \<times> stream_item list) result) \<Rightarrow>
   engine_request \<Rightarrow> sampling_params \<Rightarrow> trace_record list \<Rightarrow> nat \<Rightarrow> u64 \<Rightarrow> sim_driver \<Rightarrow> f64 \<Rightarrow>
   calibration_report result" where
  "calibrate_e2e ops order serve default_request for_test all_records num_requests seed driver tolerance =
     (if all_records = [] then Inl ''trace has no records''
      else let selected = pick_records ops all_records num_requests (seed_from_u64 ops seed)
           in bind_result (e2e_answers serve default_request for_test selected (order selected)) (\<lambda>answers.
              let (ttfts, itls) = fold e2e_collect answers
                    (replicate NUM_CONCURRENCY_BUCKETS [], replicate NUM_CONCURRENCY_BUCKETS []);
                  replay = bucket_table (buckets_from_measured ttfts itls)
              in Inr (wire_report driver tolerance (source_table all_records) replay None)))"

end
