(* ===== verification/Calibrate_Props.thy ===== *)
theory Calibrate_Props
  imports Calibrate
begin

text \<open>
  Calibration: nearest-rank quantiles, the error measure, the demo traces, and what a calibration
  returns; its tables pair the same buckets row by row.
\<close>

section \<open>Quantiles\<close>

lemma sorted_prefix_count:
  assumes "sorted xs" "i < length xs"
  shows "Suc i \<le> length (filter (\<lambda>x. x \<le> xs ! i) xs)"
proof -
  have "{j. j < Suc i} \<subseteq> {j. j < length xs \<and> xs ! j \<le> xs ! i}"
    using assms by (auto simp: sorted_iff_nth_mono)
  then have "card {j. j < Suc i} \<le> card {j. j < length xs \<and> xs ! j \<le> xs ! i}" by (intro card_mono) auto
  then show ?thesis by (simp add: length_filter_conv_card)
qed

lemma sorted_below_count:
  assumes "sorted xs" "i < length xs" "w < xs ! i"
  shows "length (filter (\<lambda>x. x \<le> w) xs) \<le> i"
proof -
  have "{j. j < length xs \<and> xs ! j \<le> w} \<subseteq> {j. j < i}"
  proof
    fix j assume j: "j \<in> {j. j < length xs \<and> xs ! j \<le> w}"
    then have "\<not> i \<le> j" using assms by (auto simp: sorted_iff_nth_mono dest: order.trans) (metis leD le_less_trans)
    then show "j \<in> {j. j < i}" by simp
  qed
  then have "card {j. j < length xs \<and> xs ! j \<le> w} \<le> card {j. j < i}" by (intro card_mono) auto
  then show ?thesis by (simp add: length_filter_conv_card)
qed

lemma percentile_rank:
  assumes "xs \<noteq> []" "0 < pct" "pct \<le> 100"
  obtains i where "percentile xs pct = xs ! i" "i < length xs"
    "real i < pct / 100 * real (length xs)" "pct / 100 * real (length xs) \<le> real (Suc i)"
proof -
  define x where "x = pct / 100 * real (length xs)"
  have x: "0 < x" "x \<le> real (length xs)"
  proof -
    show "0 < x" using assms by (simp add: x_def)
    have "pct / 100 * real (length xs) \<le> 1 * real (length xs)" using assms by (intro mult_right_mono) auto
    then show "x \<le> real (length xs)" by (simp add: x_def)
  qed
  have c: "1 \<le> \<lceil>x\<rceil>" "\<lceil>x\<rceil> \<le> int (length xs)" using x by (simp_all add: ceiling_le_iff)
  define i where "i = nat \<lceil>x\<rceil> - 1"
  have i: "int (Suc i) = \<lceil>x\<rceil>" using c by (simp add: i_def)
  have "i < length xs" using c i by linarith
  moreover have "percentile xs pct = xs ! i"
    using assms(1) \<open>i < length xs\<close> by (simp add: percentile_def Let_def i_def x_def min_def)
  moreover have "real i < x" "x \<le> real (Suc i)"
    using ceiling_correct [of x] i by linarith+
  ultimately show ?thesis using that by (simp add: x_def)
qed

text \<open>The quantiles are nearest-rank: on sorted samples the percentile is a recorded sample, at
  least the asked share of the samples lies at or below it, and no smaller sample has that.\<close>

theorem percentile_nearest_rank:
  assumes "sorted xs" "xs \<noteq> []" "0 < pct" "pct \<le> 100"
  shows "percentile xs pct \<in> set xs \<and>
    pct / 100 * real (length xs) \<le> real (length (filter (\<lambda>x. x \<le> percentile xs pct) xs)) \<and>
    (\<forall>w \<in> set xs. w < percentile xs pct \<longrightarrow>
       real (length (filter (\<lambda>x. x \<le> w) xs)) < pct / 100 * real (length xs))"
proof -
  obtain i where i: "percentile xs pct = xs ! i" "i < length xs"
      "real i < pct / 100 * real (length xs)" "pct / 100 * real (length xs) \<le> real (Suc i)"
    using percentile_rank [OF assms(2-4)] by blast
  have "real (Suc i) \<le> real (length (filter (\<lambda>x. x \<le> xs ! i) xs))"
    using sorted_prefix_count [OF assms(1) i(2)] by linarith
  moreover have "real (length (filter (\<lambda>x. x \<le> w) xs)) \<le> real i" if "w < xs ! i" for w
    using sorted_below_count [OF assms(1) i(2) that] by simp
  ultimately show ?thesis using i by (fastforce simp: i(1))
qed

theorem percentile_nearest_rank_witness:
  "percentile [1, 2, 3, 4, 5, 6, 7, 8, 9, 10] 90 = 9 \<and> percentile [1, 2, 3, 4, 5, 6, 7, 8, 9, 10] 90 \<in> set [1, 2, 3, 4, 5, 6, 7, 8, 9, 10]"
  using percentile_nearest_rank [of "[1, 2, 3, 4, 5, 6, 7, 8, 9, 10]" 90]
  by (simp add: percentile_def Let_def)

lemma relative_error_bounds:
  assumes "0 \<le> a" "0 \<le> b" "\<not> (a = 0 \<and> b = 0)"
  shows "0 \<le> relative_error a b" "relative_error a b \<le> 1" "relative_error a b = 0 \<longleftrightarrow> a = b"
proof -
  have pos: "0 < max (max a b) F64_MIN_POSITIVE" by (simp add: F64_MIN_POSITIVE_def less_max_iff_disj)
  then show "0 \<le> relative_error a b" by (simp add: relative_error_def)
  have "\<bar>a - b\<bar> \<le> max (max a b) F64_MIN_POSITIVE" using assms by (simp add: abs_le_iff le_max_iff_disj) linarith
  then show "relative_error a b \<le> 1" using pos by (simp add: relative_error_def)
  show "relative_error a b = 0 \<longleftrightarrow> a = b" using pos by (auto simp: relative_error_def)
qed

lemma relative_error_sym: "relative_error a b = relative_error b a"
  by (simp add: relative_error_def abs_minus_commute max.commute)

definition guarded_error :: "f64 \<Rightarrow> f64 \<Rightarrow> f64" where
  "guarded_error a b = (if a = 0 \<and> b = 0 then 0 else relative_error a b)"

lemma guarded_error_bounds:
  assumes "0 \<le> a" "0 \<le> b"
  shows "0 \<le> guarded_error a b" "guarded_error a b \<le> 1" "guarded_error a b = 0 \<longleftrightarrow> a = b"
  using relative_error_bounds [OF assms] by (auto simp: guarded_error_def)

lemma max_relative_error_guarded:
  "max_relative_error p q = max (max (max 0 (guarded_error (q_p50 p) (q_p50 q)))
     (guarded_error (q_p90 p) (q_p90 q))) (guarded_error (q_p99 p) (q_p99 q))"
  by (simp add: max_relative_error_def guarded_error_def)

lemma max_of_three:
  fixes a b c :: real
  assumes "0 \<le> a" "0 \<le> b" "0 \<le> c"
  shows "max (max a b) c = 0 \<longleftrightarrow> a = 0 \<and> b = 0 \<and> c = 0" "0 \<le> max (max a b) c"
    "max (max a b) c \<le> 1 \<longleftrightarrow> a \<le> 1 \<and> b \<le> 1 \<and> c \<le> 1"
  using assms by (auto simp: max_def)

definition nonneg_quantiles :: "quantiles \<Rightarrow> bool" where
  "nonneg_quantiles q \<longleftrightarrow> 0 \<le> q_p50 q \<and> 0 \<le> q_p90 q \<and> 0 \<le> q_p99 q"

text \<open>The error measure is sound for the gate: between latencies it does not depend on which
  side is the source, lies between 0 and 1, and is 0 exactly when all three quantiles agree.\<close>

theorem relative_error_measure:
  assumes "nonneg_quantiles p" "nonneg_quantiles q"
  shows "max_relative_error p q = max_relative_error q p \<and>
    0 \<le> max_relative_error p q \<and> max_relative_error p q \<le> 1 \<and>
    (max_relative_error p q = 0 \<longleftrightarrow> p = q)"
proof -
  have sym: "guarded_error a b = guarded_error b a" for a b
    using relative_error_sym [of a b] by (auto simp: guarded_error_def)
  note b = guarded_error_bounds [of "q_p50 p" "q_p50 q"] guarded_error_bounds [of "q_p90 p" "q_p90 q"]
    guarded_error_bounds [of "q_p99 p" "q_p99 q"]
  have eq: "p = q \<longleftrightarrow> q_p50 p = q_p50 q \<and> q_p90 p = q_p90 q \<and> q_p99 p = q_p99 q" by (cases p, cases q) simp
  have "max_relative_error p q = max_relative_error q p"
    unfolding max_relative_error_guarded using sym by metis
  moreover have "0 \<le> max_relative_error p q \<and> max_relative_error p q \<le> 1 \<and> (max_relative_error p q = 0 \<longleftrightarrow> p = q)"
    using assms b unfolding max_relative_error_guarded nonneg_quantiles_def eq by (simp add: max_of_three)
  ultimately show ?thesis by blast
qed

theorem relative_error_measure_witness:
  "max_relative_error \<lparr>q_p50 = 10, q_p90 = 20, q_p99 = 40\<rparr> \<lparr>q_p50 = 10, q_p90 = 20, q_p99 = 30\<rparr> =
   max_relative_error \<lparr>q_p50 = 10, q_p90 = 20, q_p99 = 30\<rparr> \<lparr>q_p50 = 10, q_p90 = 20, q_p99 = 40\<rparr>"
  using relative_error_measure [of "\<lparr>q_p50 = 10, q_p90 = 20, q_p99 = 40\<rparr>" "\<lparr>q_p50 = 10, q_p90 = 20, q_p99 = 30\<rparr>"]
  by (simp add: nonneg_quantiles_def)

section \<open>Demo traces\<close>

lemma gen_gaps_length: "length (fst (gen_gaps ops g n rng)) = n"
  by (induction n arbitrary: rng) (simp_all add: Let_def split_beta)

definition demo_record_ok :: "trace_record \<Rightarrow> bool" where
  "demo_record_ok r \<longleftrightarrow> validate_record r = Inr () \<and> tr_itl_ctx r = None \<and>
     (\<exists>gaps. tr_itl_ms r = Some gaps \<and> gaps \<noteq> [] \<and> Suc (length gaps) = tr_output_tokens r)"

lemma gen_record_ok: "1 < fst (dg_output_range g) \<Longrightarrow> demo_record_ok (fst (gen_record ops g rng))"
  using gen_gaps_length [of ops g]
  by (auto simp: gen_record_def demo_record_ok_def validate_record_def default_record_def Let_def split_beta
      simp flip: length_greater_0_conv)

lemma gen_group_ok:
  "1 < fst (dg_output_range g) \<Longrightarrow>
     list_all demo_record_ok (fst (gen_group ops g n rng)) \<and> length (fst (gen_group ops g n rng)) = n"
  by (induction n arbitrary: rng) (simp_all add: gen_record_ok Let_def split_beta)

lemma gen_groups_ok:
  "list_all (\<lambda>g. 1 < fst (dg_output_range g)) gs \<Longrightarrow> list_all demo_record_ok (fst (gen_groups ops k m i gs rng))"
  by (induction gs arbitrary: i rng) (simp_all add: gen_group_ok Let_def split_beta)

lemma gen_groups_length:
  "list_all (\<lambda>g. 1 < fst (dg_output_range g)) gs \<Longrightarrow>
     length (fst (gen_groups ops k m i gs rng)) = k * length gs + min (m - i) (length gs)"
proof (induction gs arbitrary: i rng)
  case (Cons g gs)
  have "length (fst (gen_group ops g n rng)) = n" for n rng using Cons.prems gen_group_ok [of g ops n rng] by simp
  moreover have "(if i < m then 1 else 0) + min (m - Suc i) (length gs) = min (m - i) (Suc (length gs))" by auto
  ultimately show ?case
    using Cons by (simp add: Let_def split_beta del: gen_group.simps)
qed simp

lemma demo_groups_ranges:
  "list_all (\<lambda>g. 1 < fst (dg_output_range g)) demo_groups" "length demo_groups = 4"
  "list_all (\<lambda>g. 1 < fst (dg_output_range g)) demo_groups_fast" "length demo_groups_fast = 4"
  by (simp_all add: demo_groups_def demo_groups_fast_def)

lemma gen_from_groups_ok:
  assumes "list_all (\<lambda>g. 1 < fst (dg_output_range g)) gs" "length gs = 4"
  shows "list_all demo_record_ok (gen_from_groups ops gs n seed) \<and> length (gen_from_groups ops gs n seed) = n"
proof -
  have "n mod 4 < 4" by simp
  then have "min (n mod 4) 4 = n mod 4" by simp
  then show ?thesis
    using gen_groups_ok [OF assms(1)] gen_groups_length [OF assms(1), of ops "n div 4" "n mod 4" 0]
    by (simp add: gen_from_groups_def assms(2))
qed

lemma gen_demo_ok:
  "list_all demo_record_ok (snd (gen_demo ops n seed)) \<and> length (snd (gen_demo ops n seed)) = n"
  "list_all demo_record_ok (snd (gen_demo_fast ops n seed)) \<and> length (snd (gen_demo_fast ops n seed)) = n"
  using gen_from_groups_ok [OF demo_groups_ranges(1,2)] gen_from_groups_ok [OF demo_groups_ranges(3,4)]
  by (simp_all add: gen_demo_def gen_demo_fast_def)

section \<open>Tables\<close>

definition touched :: "trace_record list \<Rightarrow> nat list" where
  "touched records =
     filter (\<lambda>i. \<exists>r \<in> set records. concurrency_bucket (tr_concurrency r) = i) [0..<NUM_CONCURRENCY_BUCKETS]"

lemma enumerate_nth: "enumerate 0 bs = map (\<lambda>i. (i, bs ! i)) [0..<length bs]"
  by (rule nth_equalityI) (simp_all add: nth_enumerate_eq)

lemma label_buckets_labels:
  "map fst (label_buckets bs) = map concurrency_label (filter (\<lambda>i. fst (bs ! i) \<noteq> []) [0..<length bs])"
  by (simp add: label_buckets_def enumerate_nth filter_map comp_def split_beta)

lemma fold_bucket_push:
  assumes "length bs = NUM_CONCURRENCY_BUCKETS"
  shows "length (fold bucket_push rs bs) = NUM_CONCURRENCY_BUCKETS \<and>
    (\<forall>i < NUM_CONCURRENCY_BUCKETS. fst (fold bucket_push rs bs ! i) = [] \<longleftrightarrow>
       fst (bs ! i) = [] \<and> (\<forall>r \<in> set rs. concurrency_bucket (tr_concurrency r) \<noteq> i))"
  using assms
proof (induction rs arbitrary: bs)
  case (Cons r rs)
  let ?bs = "bucket_push r bs"
  have len: "length ?bs = NUM_CONCURRENCY_BUCKETS"
    using Cons.prems by (simp add: bucket_push_def Let_def split_beta)
  have "fst (?bs ! i) = [] \<longleftrightarrow> fst (bs ! i) = [] \<and> concurrency_bucket (tr_concurrency r) \<noteq> i"
    if "i < NUM_CONCURRENCY_BUCKETS" for i
    using Cons.prems that by (auto simp: bucket_push_def Let_def split_beta nth_list_update)
  then show ?case using Cons.IH [OF len] by auto
qed simp

lemma source_labels: "map fst (source_samples_by_bucket records) = map concurrency_label (touched records)"
proof -
  let ?e = "replicate NUM_CONCURRENCY_BUCKETS ([] :: f64 list, [] :: f64 list)"
  have len: "length ?e = NUM_CONCURRENCY_BUCKETS" by simp
  note fb = fold_bucket_push [OF len, of records]
  show ?thesis
    using fb by (auto simp: source_samples_by_bucket_def label_buckets_labels touched_def
        intro!: arg_cong [where f = "map concurrency_label"] filter_cong)
qed

lemma sample_record_nonempty: "fst (sample_record ops model r (Suc n) rng) \<noteq> []"
  by (simp add: Let_def split_beta)

lemma sample_records_touch:
  assumes "0 < n" "length ts = NUM_CONCURRENCY_BUCKETS" "length is = NUM_CONCURRENCY_BUCKETS"
  shows "length (fst (sample_records ops model n rs ts is rng)) = NUM_CONCURRENCY_BUCKETS \<and>
    length (snd (sample_records ops model n rs ts is rng)) = NUM_CONCURRENCY_BUCKETS \<and>
    (\<forall>i < NUM_CONCURRENCY_BUCKETS. fst (sample_records ops model n rs ts is rng) ! i = [] \<longleftrightarrow>
       ts ! i = [] \<and> (\<forall>r \<in> set rs. concurrency_bucket (tr_concurrency r) \<noteq> i))"
  using assms(2,3)
proof (induction rs arbitrary: ts "is" rng)
  case (Cons r rs)
  obtain m where m: "n = Suc m" using assms(1) by (cases n) auto
  obtain t i rng' where d: "sample_record ops model r n rng = (t, i, rng')" by (metis prod.exhaust)
  have ne: "t \<noteq> []" using sample_record_nonempty [of ops model r m rng] d m by simp
  let ?cb = "concurrency_bucket (tr_concurrency r)"
  have "ts[?cb := ts ! ?cb @ t] ! j = [] \<longleftrightarrow> ts ! j = [] \<and> ?cb \<noteq> j" if "j < NUM_CONCURRENCY_BUCKETS" for j
    using Cons.prems(1) that ne by (auto simp: nth_list_update)
  then show ?case
    using Cons.IH [of "ts[?cb := ts ! ?cb @ t]" "is[?cb := is ! ?cb @ i]" rng'] Cons.prems
    by (auto simp: d Let_def)
qed simp

lemma model_labels:
  assumes "0 < n"
  shows "map fst (fst (sample_model_to_buckets ops model records n seed)) = map concurrency_label (touched records)"
proof -
  let ?e = "replicate NUM_CONCURRENCY_BUCKETS ([] :: f64 list)"
  obtain ts is' where s: "sample_records ops model n records ?e ?e (seed_from_u64 ops seed) = (ts, is')" by fastforce
  have len: "length ?e = NUM_CONCURRENCY_BUCKETS" by simp
  note st = sample_records_touch [OF assms len len, of ops model records "seed_from_u64 ops seed", unfolded s fst_conv snd_conv]
  then have "length (zip ts is') = NUM_CONCURRENCY_BUCKETS" by simp
  then show ?thesis
    using st by (auto simp: sample_model_to_buckets_def s buckets_from_measured_def Let_def label_buckets_labels touched_def
        intro!: arg_cong [where f = "map concurrency_label"] filter_cong)
qed

lemma quantile_rows_labels:
  "map bq_label (quantiles_from_buckets buckets ttft itl) = map fst buckets @ [''pooled'']"
  by (simp add: quantiles_from_buckets_def bucket_row_def comp_def split_beta)

definition row_labels :: "trace_record list \<Rightarrow> string list" where
  "row_labels records = map concurrency_label (touched records) @ [''pooled'']"

lemma source_table_labels: "map bq_label (source_table records) = row_labels records"
  by (simp add: source_table_def split_beta quantile_rows_labels source_labels row_labels_def)

lemma bucket_table_labels:
  "0 < n \<Longrightarrow> map bq_label (bucket_table (sample_model_to_buckets ops model records n seed)) = row_labels records"
  by (simp add: bucket_table_def split_beta quantile_rows_labels model_labels row_labels_def)

section \<open>The outcome of a calibration\<close>

text \<open>A record whose summary counts gaps while its context arrays, with no gap to parallel, are empty.\<close>

definition contextless_summary :: "trace_record \<Rightarrow> bool" where
  "contextless_summary r \<longleftrightarrow> tr_itl_ms r = None \<and> tr_itl_ctx r \<noteq> None \<and> count_gaps r > 0"

lemma valid_context_length:
  "validate_record r = Inr () \<Longrightarrow> tr_itl_ctx r = Some ctx \<Longrightarrow>
     length (ctx_prefill_tokens ctx) = (case tr_itl_ms r of None \<Rightarrow> 0 | Some g \<Rightarrow> length g)"
  by (auto simp: validate_record_def Let_def split: if_splits)

lemma paced_total_returns:
  assumes "case tr_itl_ctx r of None \<Rightarrow> True | Some ctx \<Rightarrow> list_all (\<lambda>i. i < length (ctx_prefill_tokens ctx)) gap_ids"
  shows "\<exists>res. paced_total ops model r gap_ids rng p = Inr res"
  using assms
proof (induction gap_ids arbitrary: rng p)
  case (Cons i gap_ids)
  then have rest: "\<exists>res. paced_total ops model r gap_ids rng p = Inr res" for rng p
    by (auto split: option.splits)
  obtain q where q: "(case tr_itl_ctx r of None \<Rightarrow> Inr p
        | Some ctx \<Rightarrow>
            if i < length (ctx_prefill_tokens ctx)
            then Inr (if ctx_prefill_tokens ctx ! i > 0 then note_prefill (ctx_prefill_tokens ctx ! i) p else p)
            else Inl out_of_bounds) = Inr q"
    using Cons.prems by (cases "tr_itl_ctx r") auto
  obtain draw rng' p' where d: "paced_step ops model rng (tr_concurrency r) q = (draw, rng', p')" by (metis prod.exhaust)
  obtain res where "paced_total ops model r gap_ids rng' p' = Inr res" using rest by blast
  then show ?case by (simp add: q d bind_result_def split_beta)
qed simp

lemma paced_totals_return:
  assumes "validate_record r = Inr ()" "\<not> contextless_summary r" "count_gaps r \<noteq> 0"
  shows "\<exists>res. paced_totals ops model r n rng = Inr res"
proof (induction n arbitrary: rng)
  case (Suc n)
  have "\<exists>res. paced_total ops model r [0..<count_gaps r] rng p = Inr res" for p
    using assms valid_context_length [of r]
    by (intro paced_total_returns)
      (auto simp: contextless_summary_def count_gaps_def list_all_iff split: option.splits)
  then obtain res where r: "paced_total ops model r [0..<count_gaps r] rng (for_prompt (tr_prompt_tokens r) (record_churn r)) = Inr res" by blast
  obtain res' where "paced_totals ops model r n (snd res) = Inr res'" using Suc by blast
  then show ?case by (simp add: r bind_result_def split_beta)
qed simp

lemma replay_totals_return:
  assumes "list_all (\<lambda>r. validate_record r = Inr () \<and> \<not> contextless_summary r) rs"
  shows "\<exists>res. replay_totals ops model reps rs rng = Inr res"
  using assms
proof (induction rs arbitrary: rng)
  case (Cons r rs)
  show ?case
  proof (cases "count_gaps r = 0")
    case True
    then show ?thesis using Cons by simp
  next
    case False
    obtain res where r: "paced_totals ops model r reps rng = Inr res"
      using paced_totals_return [of r ops model reps rng] False Cons.prems by auto
    obtain rest where "replay_totals ops model reps rs (snd res) = Inr rest" using Cons by auto
    then show ?thesis using False by (simp add: r bind_result_def split_beta)
  qed
qed simp

lemma paced_totals_panic:
  assumes "validate_record r = Inr ()" "contextless_summary r" "0 < n"
  shows "paced_totals ops model r n rng = Inl out_of_bounds"
proof -
  obtain m where n: "n = Suc m" using assms(3) by (cases n) auto
  obtain ctx where c: "tr_itl_ctx r = Some ctx" using assms(2) by (auto simp: contextless_summary_def)
  have "ctx_prefill_tokens ctx = []" "[0..<count_gaps r] = 0 # [1..<count_gaps r]"
    using valid_context_length [OF assms(1) c] assms(2) by (auto simp: contextless_summary_def upt_conv_Cons)
  then show ?thesis by (simp add: n c bind_result_def)
qed

lemma replay_totals_panic:
  assumes "list_all (\<lambda>r. validate_record r = Inr ()) rs" "list_ex contextless_summary rs" "0 < reps"
  shows "replay_totals ops model reps rs rng = Inl out_of_bounds"
  using assms(1,2)
proof (induction rs arbitrary: rng)
  case (Cons r rs)
  show ?case
  proof (cases "contextless_summary r")
    case True
    then have "count_gaps r \<noteq> 0" by (simp add: contextless_summary_def)
    moreover have "validate_record r = Inr ()" using Cons.prems(1) by simp
    ultimately show ?thesis by (simp add: bind_result_def paced_totals_panic [OF _ True assms(3)])
  next
    case False
    then have rest: "replay_totals ops model reps rs rng = Inl out_of_bounds" for rng using Cons by simp
    show ?thesis
    proof (cases "count_gaps r = 0")
      case True
      then show ?thesis by (simp add: rest)
    next
      case gaps: False
      obtain res where "paced_totals ops model r reps rng = Inr res"
        using paced_totals_return [OF _ False gaps] Cons.prems(1) by fastforce
      then show ?thesis using gaps by (simp add: bind_result_def rest split_beta)
    qed
  qed
qed simp

lemma valid_trace_builds:
  assumes "list_all (\<lambda>r. validate_record r = Inr ()) records" "list_ex (\<lambda>r. record_gaps r \<noteq> []) records"
  shows "\<exists>m. trace_latency_from_records records kv b = Inr m"
proof -
  obtain st where st: "add_records records empty_fit = Inr st"
    using valid_records_added [of records empty_fit] assms(1) by (auto simp: list_all_iff)
  have "concat (fs_itls st) \<noteq> []"
    using add_records_itls [OF st empty_fit_ok] assms(2) by (auto simp: empty_fit_def list_ex_iff)
  moreover have "records \<noteq> []" using assms(2) by auto
  ultimately show ?thesis using from_records_accepts [OF _ st] by blast
qed

lemma source_total_gaps: "source_total r = [] \<longleftrightarrow> record_gaps r = []" "count_gaps r = length (record_gaps r)"
  by (auto simp: source_total_def record_gaps_def count_gaps_def split: option.split)

lemma request_total_outcome:
  assumes "list_all (\<lambda>r. validate_record r = Inr ()) records" "list_ex (\<lambda>r. record_gaps r \<noteq> []) records"
  shows "request_total_report ops records model k seed tol = Inl out_of_bounds \<and> list_ex contextless_summary records \<or>
    (\<exists>total. request_total_report ops records model k seed tol = Inr total) \<and> \<not> list_ex contextless_summary records"
proof -
  have ne: "concat (map source_total records) \<noteq> []"
    using assms(2) by (auto simp: list_ex_iff source_total_gaps)
  show ?thesis
  proof (cases "list_ex contextless_summary records")
    case True
    then show ?thesis
      using ne by (simp add: request_total_report_def Let_def bind_result_def replay_totals_panic [OF assms(1) True])
  next
    case False
    then have "list_all (\<lambda>r. validate_record r = Inr () \<and> \<not> contextless_summary r) records"
      using assms(1) by (auto simp: list_all_iff list_ex_iff)
    then obtain totals where
      "replay_totals ops model (max 3 (min k 20)) records (seed_from_u64 ops (seed + 2)) = Inr totals"
      using replay_totals_return [of records ops model "max 3 (min k 20)" "seed_from_u64 ops (seed + 2)"] by blast
    then show ?thesis
      using ne False by (simp add: request_total_report_def Let_def bind_result_def)
  qed
qed

lemma table_rows_return:
  assumes "case cr_knobfit report of None \<Rightarrow> True | Some kb \<Rightarrow> i + length pairs \<le> length kb"
  shows "\<exists>rows. table_rows sel report i pairs = Inr rows \<and> map fst rows = map (\<lambda>p. bq_label (fst p)) pairs"
  using assms
proof (induction sel report i pairs rule: table_rows.induct)
  case (2 sel report i s r rest)
  obtain k where k: "knob_at sel report i = Inr k"
    using 2(2) by (auto simp: knob_at_def split: option.splits)
  have "case cr_knobfit report of None \<Rightarrow> True | Some kb \<Rightarrow> Suc i + length rest \<le> length kb"
    using 2(2) by (auto split: option.splits)
  then obtain rows where "table_rows sel report (Suc i) rest = Inr rows"
      "map fst rows = map (\<lambda>p. bq_label (fst p)) rest"
    using 2(1) k by (auto simp: bind_result_def)
  then show ?case by (simp add: k bind_result_def)
qed simp

lemma write_report_returns:
  assumes "case cr_knobfit report of None \<Rightarrow> True
    | Some kb \<Rightarrow> min (length (cr_source report)) (length (cr_replay report)) \<le> length kb"
  shows "\<exists>rows. write_report report = Inr rows \<and>
    map fst (fst rows) = take (length (cr_replay report)) (map bq_label (cr_source report)) \<and>
    map fst (snd rows) = take (length (cr_replay report)) (map bq_label (cr_source report))"
proof -
  let ?z = "zip (cr_source report) (cr_replay report)"
  have "map (\<lambda>p. bq_label (fst p)) ?z = map bq_label (map fst ?z)" by simp
  also have "\<dots> = take (length (cr_replay report)) (map bq_label (cr_source report))"
    by (simp only: map_fst_zip_take take_map) (simp add: min_def)
  finally have z: "map (\<lambda>p. bq_label (fst p)) ?z = take (length (cr_replay report)) (map bq_label (cr_source report))" .
  have "case cr_knobfit report of None \<Rightarrow> True | Some kb \<Rightarrow> 0 + length ?z \<le> length kb"
    using assms by (auto split: option.split)
  note rows = table_rows_return [OF this]
  obtain t i where "report_table bq_ttft report = Inr t" "map fst t = map (\<lambda>p. bq_label (fst p)) ?z"
      "report_table bq_itl report = Inr i" "map fst i = map (\<lambda>p. bq_label (fst p)) ?z"
    using rows [of bq_ttft] rows [of bq_itl] by (auto simp: report_table_def)
  then show ?thesis by (simp add: write_report_def bind_result_def z)
qed

lemma calibrate_returns:
  assumes "list_all (\<lambda>r. validate_record r = Inr ()) records" "list_ex (\<lambda>r. record_gaps r \<noteq> []) records"
    "\<not> list_ex contextless_summary records"
  obtains report rows where "calibrate ops records n seed tol = Inr report"
    "map bq_label (cr_source report) = row_labels records" "map bq_label (cr_replay report) = row_labels records"
    "map_option (map bq_label) (cr_knobfit report) = Some (row_labels records)"
    "write_report report = Inr rows" "map fst (fst rows) = row_labels records"
proof -
  obtain m where m: "trace_latency_from_records records zero_knob 8192 = Inr m"
    using valid_trace_builds [OF assms(1,2)] by blast
  have ne: "records \<noteq> []" using assms(2) by auto
  let ?k = "samples_per_record n records"
  have k: "0 < ?k" by (simp add: samples_per_record_def)
  obtain total where total: "request_total_report ops records (TraceLatency m) ?k seed tol = Inr total"
    using request_total_outcome [OF assms(1,2), of ops "TraceLatency m" ?k seed tol] assms(3) by blast
  let ?replay = "bucket_table (sample_model_to_buckets ops (TraceLatency m) records ?k seed)"
  let ?knob = "bucket_table (sample_model_to_buckets ops (KnobLatency (fit_knob_from_trace records)) records ?k (seed + 1))"
  obtain report where r: "calibrate ops records n seed tol = Inr report"
      "cr_source report = source_table records" "cr_replay report = ?replay" "cr_knobfit report = Some ?knob"
    using ne by (auto simp: calibrate_def Let_def m err_context_def bind_result_def total split_beta)
  have labels: "map bq_label (source_table records) = row_labels records" "map bq_label ?replay = row_labels records"
      "map bq_label ?knob = row_labels records"
    using k by (simp_all add: source_table_labels bucket_table_labels)
  then have lens: "length (source_table records) = length (row_labels records)"
      "length ?replay = length (row_labels records)" "length ?knob = length (row_labels records)"
    by (metis length_map)+
  obtain rows where rows: "write_report report = Inr rows"
      "map fst (fst rows) = take (length (cr_replay report)) (map bq_label (cr_source report))"
    using write_report_returns [of report] lens r by auto
  have "map fst (fst rows) = row_labels records" using rows(2) lens labels by (simp add: r)
  then show ?thesis using that r rows(1) labels by simp
qed




text \<open>The demo generators always give a usable trace: for any generator and seed they produce the
  asked number of records, all valid, with every gap recorded and no context, and a calibration of
  a non-empty demo trace returns a report.\<close>

theorem demo_traces_calibrate:
  assumes "0 < n" "records = snd (gen_demo ops n seed) \<or> records = snd (gen_demo_fast ops n seed)"
  shows "length records = n \<and> list_all demo_record_ok records \<and>
    (\<exists>report. calibrate ops records k seed' tol = Inr report)"
proof -
  have ok: "list_all demo_record_ok records" "length records = n"
    using assms(2) gen_demo_ok [of ops n seed] by auto
  have valid: "list_all (\<lambda>r. validate_record r = Inr ()) records" and no_ctx: "\<not> list_ex contextless_summary records"
    using ok(1) by (auto simp: list_all_iff list_ex_iff demo_record_ok_def contextless_summary_def)
  obtain r rs where "records = r # rs" using ok(2) assms(1) by (cases records) auto
  then have gaps: "list_ex (\<lambda>r. record_gaps r \<noteq> []) records"
    using ok(1) by (auto simp: demo_record_ok_def record_gaps_def)
  obtain report where "calibrate ops records k seed' tol = Inr report"
    using calibrate_returns [OF valid gaps no_ctx] by metis
  then show ?thesis using ok by blast
qed

theorem demo_traces_calibrate_witness:
  "list_all demo_record_ok (snd (gen_demo counter_rng 5 1)) \<and>
   (\<exists>report. calibrate counter_rng (snd (gen_demo counter_rng 5 1)) 100 2 (1 / 10) = Inr report)"
  using demo_traces_calibrate [of 5 "snd (gen_demo counter_rng 5 1)" counter_rng 1 100 2 "1 / 10"] by simp

end
