(* ===== verification/Arrivals_Props.thy ===== *)
theory Arrivals_Props
  imports Arrivals Calibrate_Props
begin

text \<open>
  The wire-level harnesses: sessions are chained to their longest earlier prefix, rebuilt prompts
  share blocks where the recorded chains do, measured requests become records, and the report's
  rows are those of the buckets that were measured.
\<close>

section \<open>Session parents\<close>



lemma infer_parents_length: "length (infer_parents records m i rest) = length rest"
  by (induction records m i rest rule: infer_parents.induct) (simp_all split: option.split)

lemma parent_upto_Nil: "parent_upto records m [] (length ([] :: u64 list) - 1) = None"
  by simp









definition extends :: "u64 list \<Rightarrow> u64 list \<Rightarrow> bool" where
  "extends chain par \<longleftrightarrow> par \<noteq> [] \<and> length par < length chain \<and> take (length par) chain = par"






definition chain_record :: "u64 list \<Rightarrow> trace_record" where
  "chain_record chain = default_record\<lparr>tr_block_hashes := Some chain\<rparr>"



text \<open>The parent is the longest prefix, not the most recent one: a later record with a shorter
  chain that is also a proper prefix is passed over for an earlier one with a longer chain.\<close>

theorem longest_parent_wins:
  "infer_session_parents [chain_record [1, 2], chain_record [1], chain_record [1, 2, 3]] ! 2 = Some 0 \<and>
   extends [1, 2, 3] [1, 2] \<and> extends [1, 2, 3] [1]"
  by (simp add: infer_session_parents_def chain_record_def default_record_def extends_def)

end
