(* ===== verification/Arrivals_Report.thy ===== *)
theory Arrivals_Report
  imports Arrivals_Props
begin

text \<open>
  Rebuilt prompts, the schedule of a replay, what a measured request becomes as a record, and the
  rows of a replay's report.
\<close>

section \<open>Rebuilt prompts\<close>

lemma mix_token_small: "unat (mix_token seed pos) < 31000"
proof -
  define x :: u64 where "x = (let x = seed * GOLDEN_GAMMA + pos * MIX in x XOR drop_bit 33 x)"
  have lt: "unat (x mod 31000) < 31000"
    using unat_mono [OF word_mod_less_divisor [of "31000 :: u64" x]] by (simp add: word_less_nat_alt)
  have "mix_token seed pos = ucast (x mod 31000)" by (simp add: mix_token_def x_def Let_def)
  moreover have "unat (ucast (x mod 31000) :: u32) = unat (x mod 31000)"
    using lt by (simp add: unsigned_ucast_eq take_bit_nat_eq_self)
  ultimately show ?thesis using lt by simp
qed

lemma hash_block_tokens_length: "length (hash_block_tokens bsz h) = bsz"
  by (simp add: hash_block_tokens_def)

lemma concat_blocks_length: "length (concat (map (hash_block_tokens bsz) hs)) = length hs * bsz"
  by (induction hs) (simp_all add: hash_block_tokens_length)

lemma rebuilt_length: "length (prompt_from_block_hashes hs n bsz i) = n"
  by (simp add: prompt_from_block_hashes_def synthetic_prompt_def Let_def)

lemma rebuilt_small: "list_all (\<lambda>t. unat t < 31000) (prompt_from_block_hashes hs n bsz i)"
  by (auto simp: prompt_from_block_hashes_def synthetic_prompt_def hash_block_tokens_def Let_def list_all_iff
      mix_token_small dest!: in_set_takeD)

lemma rebuilt_prefix:
  assumes "k \<le> length hs" "k * bsz \<le> n"
  shows "take (k * bsz) (prompt_from_block_hashes hs n bsz i) = concat (map (hash_block_tokens bsz) (take k hs))"
proof -
  let ?f = "\<lambda>xs. concat (map (hash_block_tokens bsz) xs)"
  have split: "?f hs = ?f (take k hs) @ ?f (drop k hs)"
    by (metis append_take_drop_id concat_append map_append)
  have len: "length (?f (take k hs)) = k * bsz" using assms(1) by (simp add: concat_blocks_length min_def)
  have "k * bsz \<le> length hs * bsz" using assms(1) by simp
  then have "k * bsz \<le> length (take n (?f hs))" using assms(2) by (simp add: concat_blocks_length)
  then have "take (k * bsz) (prompt_from_block_hashes hs n bsz i) = take (k * bsz) (take n (?f hs))"
    by (simp add: prompt_from_block_hashes_def Let_def)
  also have "\<dots> = take (k * bsz) (?f hs)" using assms(2) by (simp add: min_def)
  also have "\<dots> = ?f (take k hs)" unfolding split using len by simp
  finally show ?thesis .
qed

text \<open>C39: A replayed prompt has the recorded length and stays inside the simulated vocabulary, and two
  records whose hash chains agree on their first \<open>k\<close> blocks are replayed with prompts that agree on
  those blocks, so the block hashes the replay engine computes for them agree there as well and
  its prefix cache can hit where the captured one did.\<close>

theorem rebuilt_prompts_share:
  assumes "take k hs = take k hs'" "k \<le> length hs" "k \<le> length hs'" "k * bsz \<le> n" "k * bsz \<le> n'"
  shows "length (prompt_from_block_hashes hs n bsz i) = n \<and>
    list_all (\<lambda>t. unat t < 31000) (prompt_from_block_hashes hs n bsz i) \<and>
    take (k * bsz) (prompt_from_block_hashes hs n bsz i) = take (k * bsz) (prompt_from_block_hashes hs' n' bsz i') \<and>
    (case (prompt_block_hashes (prompt_from_block_hashes hs n bsz i) bsz,
           prompt_block_hashes (prompt_from_block_hashes hs' n' bsz i') bsz) of
       (Some bs, Some bs') \<Rightarrow> take k bs = take k bs' \<and> k \<le> length bs
     | _ \<Rightarrow> bsz = 0 \<or> k = 0)"
proof -
  have pre: "take (k * bsz) (prompt_from_block_hashes hs n bsz i) = take (k * bsz) (prompt_from_block_hashes hs' n' bsz i')"
    using assms by (simp add: rebuilt_prefix)
  have short: "bsz = 0 \<or> k = 0" if "m < bsz" "k * bsz \<le> m" for m
    using that by (cases k) auto
  show ?thesis
    using pre assms(4,5) shared_prefix_shared_hashes [OF _ _ pre]
      short [of n] short [of n'] rebuilt_small
    by (auto simp: rebuilt_length prompt_block_hashes_def split: option.splits)
qed

theorem rebuilt_prompts_share_witness:
  "take 2 (prompt_from_block_hashes [5, 6] 3 1 0) = take 2 (prompt_from_block_hashes [5, 6, 7] 4 1 9)"
  using rebuilt_prompts_share [of 2 "[5, 6]" "[5, 6, 7]" 1 3 4 0 9] by simp

section \<open>The schedule\<close>

text \<open>The schedule of a replay is the arrival-ordered records, cut to the asked number; a trace
  without arrival times is refused, and asking for zero requests stops on an out-of-bounds index
  instead of an empty run.\<close>

theorem replay_schedule_outcome:
  "replay_schedule cfg records =
     (if list_all (\<lambda>r. tr_arrival_ms r = None) records then Inl ''trace has no records with arrival_ms''
      else case rc_max_requests cfg of
             None \<Rightarrow> Inr (replay_subset records)
           | Some n \<Rightarrow> if n = 0 then Inl out_of_bounds else Inr (take n (replay_subset records)))"
proof -
  have "replay_subset records = [] \<longleftrightarrow> filter (\<lambda>r. tr_arrival_ms r \<noteq> None) records = []"
    unfolding replay_subset_def by (metis mset_sort mset_zero_iff)
  then have "replay_subset records = [] \<longleftrightarrow> list_all (\<lambda>r. tr_arrival_ms r = None) records"
    by (simp add: filter_empty_conv list_all_iff)
  then show ?thesis by (auto simp: replay_schedule_def Let_def split: option.split)
qed

section \<open>Measured records\<close>

definition small_messages :: "stream_item list \<Rightarrow> bool" where
  "small_messages items \<longleftrightarrow>
     list_all (\<lambda>it. case it of StreamOutput n _ _ _ \<Rightarrow> n < 2 ^ 32 | _ \<Rightarrow> True) items"

lemma consume_shape:
  assumes "consume items first stamps chunks = Some (first', stamps', chunks')" "small_messages items"
    "length stamps = length chunks" "first = None \<longleftrightarrow> chunks = []" "0 \<notin> set chunks"
  shows "length stamps' = length chunks' \<and> (first' = None \<longleftrightarrow> chunks' = []) \<and> 0 \<notin> set chunks'"
  using assms
proof (induction items first stamps chunks rule: consume.induct)
  case (4 n ts fin received rest first stamps chunks)
  have small: "small_messages rest" "n < 2 ^ 32" using 4(3) by (simp_all add: small_messages_def)
  then have pos: "n \<noteq> 0 \<Longrightarrow> as_u32 n \<noteq> 0" by (simp add: as_u32_def)
  show ?case
  proof (cases fin)
    case True
    then show ?thesis using 4 pos by (auto simp: Let_def split: if_splits option.splits)
  next
    case False
    show ?thesis
      using False 4(2,4-6) pos small
      by (intro 4(1) [OF refl refl refl False])
        (auto simp: Let_def split: option.splits)
  qed
qed simp_all

lemma measure_one_shape:
  assumes "measure_one call_start stream = (Some ttft, gaps, chunks)"
    "case stream of None \<Rightarrow> True | Some items \<Rightarrow> small_messages items"
  obtains c cs where "chunks = c # cs" "length gaps = length cs" "0 \<notin> set chunks"
proof -
  obtain items first stamps where i: "stream = Some items" "consume items None [] [] = Some (first, stamps, chunks)"
      "gaps = window_gaps stamps" "first \<noteq> None"
    using assms(1) by (auto simp: measure_one_def split: option.splits prod.splits)
  then have s: "length stamps = length chunks" "chunks \<noteq> []" "0 \<notin> set chunks"
    using consume_shape [OF i(2)] assms(2) by auto
  then obtain c cs where "chunks = c # cs" by (cases chunks) auto
  moreover have "length gaps = length stamps - 1" by (simp add: i(3) window_gaps_def)
  ultimately show ?thesis using that s by simp
qed

text \<open>A measured request that produced a first token becomes a record the trace reader accepts, unless
  the whole output came as one message of several tokens: then the record has several output
  tokens but no gap data, and the dumped trace is refused when it is read back.\<close>

theorem measured_record_loads:
  assumes "measure_one call_start stream = (Some ttft, gaps, chunks)"
    "case stream of None \<Rightarrow> True | Some items \<Rightarrow> small_messages items"
  shows "validate_record (measured_record rec
      \<lparr>rr_index = i, rr_send_lag_ms = lag, rr_ttft_ms = Some t, rr_gaps_ms = gaps, rr_chunk_tokens = chunks\<rparr> t) =
    (if length chunks = 1 \<and> hd chunks > 1 then Inl ''neither itl_ms nor itl_summary is present'' else Inr ())"
proof -
  obtain c cs where c: "chunks = c # cs" "length gaps = length cs" "0 \<notin> set chunks"
    using measure_one_shape [OF assms] by blast
  have "0 < c" using c by simp
  show ?thesis
  proof (cases "cs = []")
    case True
    then have "gaps = []" using c(2) by simp
    then show ?thesis using True by (simp add: measured_record_def c(1) validate_record_def default_record_def)
  next
    case False
    then have "gaps \<noteq> []" "length chunks \<noteq> 1" using c by auto
    then show ?thesis
      using \<open>0 < c\<close> c by (simp add: measured_record_def c(1) validate_record_def default_record_def Let_def)
  qed
qed

theorem measured_record_loads_witness:
  "validate_record (measured_record default_record
      \<lparr>rr_index = 0, rr_send_lag_ms = 0, rr_ttft_ms = Some 1, rr_gaps_ms = [], rr_chunk_tokens = [4]\<rparr> 1) =
    Inl ''neither itl_ms nor itl_summary is present''"
  using measured_record_loads [of 0 "Some [StreamOutput 4 1 True 1000000]" 1 "[]" "[4]" default_record 0 0 1]
  by (simp add: measure_one_def duration_ms_def window_gaps_def as_u32_def small_messages_def)

section \<open>The rows of a report\<close>

lemma measured_labels:
  assumes "length ts = length is'"
  shows "map fst (fst (buckets_from_measured ts is')) =
    map concurrency_label (filter (\<lambda>i. ts ! i \<noteq> []) [0..<length ts])"
  using assms by (auto simp: buckets_from_measured_def Let_def label_buckets_labels
      intro!: arg_cong [where f = "map concurrency_label"] filter_cong)

text \<open>The buckets some request of which was measured.\<close>

definition answers_in :: "trace_record list \<Rightarrow> nat \<Rightarrow> replayed_request \<Rightarrow> bool" where
  "answers_in kept i m \<longleftrightarrow> rr_ttft_ms m \<noteq> None \<and> rr_index m < length kept \<and>
     concurrency_bucket (tr_concurrency (kept ! rr_index m)) = i"

definition answered :: "trace_record list \<Rightarrow> replayed_request list \<Rightarrow> nat list" where
  "answered kept finished = filter (\<lambda>i. list_ex (answers_in kept i) finished) [0..<NUM_CONCURRENCY_BUCKETS]"

lemma collect_one_ttfts:
  assumes "length (mr_ttfts run) = NUM_CONCURRENCY_BUCKETS" "length (mr_itls run) = NUM_CONCURRENCY_BUCKETS"
  shows "length (mr_ttfts (collect_one kept m run)) = NUM_CONCURRENCY_BUCKETS"
    "length (mr_itls (collect_one kept m run)) = NUM_CONCURRENCY_BUCKETS"
    "i < NUM_CONCURRENCY_BUCKETS \<Longrightarrow>
       mr_ttfts (collect_one kept m run) ! i = [] \<longleftrightarrow> mr_ttfts run ! i = [] \<and> \<not> answers_in kept i m"
  using assms
  by (auto simp: collect_one_def answers_in_def Let_def nth_list_update split: option.splits)

lemma fold_collect_ttfts:
  assumes "length (mr_ttfts run) = NUM_CONCURRENCY_BUCKETS" "length (mr_itls run) = NUM_CONCURRENCY_BUCKETS"
  shows "length (mr_ttfts (fold (collect_one kept) ms run)) = NUM_CONCURRENCY_BUCKETS \<and>
    length (mr_itls (fold (collect_one kept) ms run)) = NUM_CONCURRENCY_BUCKETS \<and>
    (\<forall>i < NUM_CONCURRENCY_BUCKETS. mr_ttfts (fold (collect_one kept) ms run) ! i = [] \<longleftrightarrow>
       mr_ttfts run ! i = [] \<and> \<not> list_ex (answers_in kept i) ms)"
  using assms
proof (induction ms arbitrary: run)
  case (Cons m ms)
  show ?case
    using Cons.IH [OF collect_one_ttfts(1,2) [OF Cons.prems, of kept m]] collect_one_ttfts(3) [OF Cons.prems, of _ kept m]
    by auto
qed simp

lemma wire_report_tables:
  "cr_source (wire_report d tol s r t) = s" "cr_replay (wire_report d tol s r t) = r"
  "cr_knobfit (wire_report d tol s r t) = None"
  by (simp_all add: wire_report_def Let_def split_beta)

lemma replay_labels:
  "map bq_label (cr_source (ro_report (assess_replay cfg kept finished))) = map concurrency_label (touched kept) @ [''pooled'']"
  "map bq_label (cr_replay (ro_report (assess_replay cfg kept finished))) =
     map concurrency_label (answered kept finished) @ [''pooled'']"
  "cr_knobfit (ro_report (assess_replay cfg kept finished)) = None"
proof -
  define run where "run = fold (collect_one kept) finished empty_run"
  have e: "length (mr_ttfts empty_run) = NUM_CONCURRENCY_BUCKETS" "length (mr_itls empty_run) = NUM_CONCURRENCY_BUCKETS"
    by (simp_all add: empty_run_def)
  note fc = fold_collect_ttfts [OF e, of kept finished, folded run_def]
  have "filter (\<lambda>i. mr_ttfts run ! i \<noteq> []) [0..<NUM_CONCURRENCY_BUCKETS] = answered kept finished"
    using fc by (auto simp: answered_def empty_run_def intro!: filter_cong)
  then have "map bq_label (bucket_table (buckets_from_measured (mr_ttfts run) (mr_itls run))) =
      map concurrency_label (answered kept finished) @ [''pooled'']"
    using fc by (simp add: bucket_table_def split_beta quantile_rows_labels measured_labels)
  then show "map bq_label (cr_replay (ro_report (assess_replay cfg kept finished))) =
     map concurrency_label (answered kept finished) @ [''pooled'']"
    by (simp add: assess_replay_def Let_def wire_report_tables run_def)
  show "map bq_label (cr_source (ro_report (assess_replay cfg kept finished))) = map concurrency_label (touched kept) @ [''pooled'']"
    "cr_knobfit (ro_report (assess_replay cfg kept finished)) = None"
    by (simp_all add: assess_replay_def Let_def wire_report_tables source_table_labels row_labels_def)
qed

text \<open>The source table of a replay report has a row for every concurrency bucket of the schedule
  and the measured table one for every bucket in which some request produced a first token, each
  closed by the pooled row. The printed lines carry the source labels, as many as there are
  measured rows: they pair equal buckets when every bucket was measured.\<close>

theorem replay_report_rows:
  "map bq_label (cr_source (ro_report (assess_replay cfg kept finished))) =
     map concurrency_label (touched kept) @ [''pooled''] \<and>
   map bq_label (cr_replay (ro_report (assess_replay cfg kept finished))) =
     map concurrency_label (answered kept finished) @ [''pooled''] \<and>
   (\<exists>rows. write_report (ro_report (assess_replay cfg kept finished)) = Inr rows \<and>
      map fst (fst rows) =
        take (Suc (length (answered kept finished))) (map concurrency_label (touched kept) @ [''pooled'']))"
proof -
  let ?report = "ro_report (assess_replay cfg kept finished)"
  note labels = replay_labels [of cfg kept finished]
  obtain rows where rows: "write_report ?report = Inr rows"
      "map fst (fst rows) = take (length (cr_replay ?report)) (map bq_label (cr_source ?report))"
    using write_report_returns [of ?report] labels(3) by auto
  have "length (cr_replay ?report) = length (answered kept finished) + 1"
    using arg_cong [OF labels(2), of length] by simp
  then show ?thesis using rows labels by auto
qed

text \<open>When every request of a bucket fails, the printed rows slip: with one failed request at
  concurrency 1 and one measured at concurrency 4, the line of the first bucket shows the
  measurement of the second, the line of the second the pooled measurement, and the source's pooled
  line is not printed.\<close>

theorem failed_bucket_shifts_rows:
  "\<exists>kept finished rows. write_report (ro_report (assess_replay cfg kept finished)) = Inr rows \<and>
     map bq_label (cr_replay (ro_report (assess_replay cfg kept finished))) = [''2-4'', ''pooled''] \<and>
     map fst (fst rows) = [''1'', ''2-4''] \<and>
     map bq_label (cr_source (ro_report (assess_replay cfg kept finished))) = [''1'', ''2-4'', ''pooled'']"
proof -
  define kept where "kept = [default_record\<lparr>tr_concurrency := 1\<rparr>, default_record\<lparr>tr_concurrency := 4\<rparr>]"
  define finished where "finished =
    [\<lparr>rr_index = 0, rr_send_lag_ms = 0, rr_ttft_ms = None, rr_gaps_ms = [], rr_chunk_tokens = []\<rparr>,
     \<lparr>rr_index = 1, rr_send_lag_ms = 0, rr_ttft_ms = Some 7, rr_gaps_ms = [], rr_chunk_tokens = [1]\<rparr>]"
  have b: "concurrency_bucket (Suc 0) = 0" "concurrency_bucket 4 = 1"
    by (simp_all add: concurrency_bucket_def CONCURRENCY_RANGES_def)
  have t: "touched kept = [0, 1]" "answered kept finished = [1]"
    by (simp_all add: touched_def answered_def answers_in_def kept_def finished_def b NUM_CONCURRENCY_BUCKETS_def upt_rec)
  have digit_chars: "char_of (49 :: nat) = CHR ''1''" "char_of (50 :: nat) = CHR ''2''" "char_of (52 :: nat) = CHR ''4''"
    by code_simp+
  have l: "concurrency_label 0 = ''1''" "concurrency_label (Suc 0) = ''2-4''"
    using digit_chars by (simp_all add: concurrency_label_def CONCURRENCY_RANGES_def nat_str.simps)
  obtain rows where r: "write_report (ro_report (assess_replay cfg kept finished)) = Inr rows"
      "map fst (fst rows) = take (length (cr_replay (ro_report (assess_replay cfg kept finished))))
         (map bq_label (cr_source (ro_report (assess_replay cfg kept finished))))"
    "map bq_label (cr_source (ro_report (assess_replay cfg kept finished))) = [''1'', ''2-4'', ''pooled'']"
    "map bq_label (cr_replay (ro_report (assess_replay cfg kept finished))) = [''2-4'', ''pooled'']"
    using write_report_returns [of "ro_report (assess_replay cfg kept finished)"] replay_labels [of cfg kept finished]
    by (auto simp: t l One_nat_def)
  have "length (cr_replay (ro_report (assess_replay cfg kept finished))) = 2"
    using arg_cong [OF r(4), of length] by simp
  then have "map fst (fst rows) = [''1'', ''2-4'']" using r(2,3) by (simp add: numeral_2_eq_2)
  then show ?thesis
    using r(1,3,4) by (intro exI [of _ kept] exI [of _ finished] exI [of _ rows] conjI) simp_all
qed

end
