(* ===== verification/Version.thy ===== *)
theory Version
  imports Trace_File "HOL-Library.Product_Lexorder"
begin

text \<open>
  vLLM versions: the release-tag order and the \<^verbatim>\<open>git ls-remote\<close> parser of the release watcher
  (\<^verbatim>\<open>xtask/src/version.rs\<close>), the \<^verbatim>\<open>major.minor\<close> line of a version string
  (\<^verbatim>\<open>crates/sim-compat/src/lib.rs\<close>) and the capability switches derived from it
  (\<^verbatim>\<open>crates/sim-compat/src/capabilities.rs\<close>). The version type is an instance of
  \<^verbatim>\<open>linorder\<close> by the comparison of the code.
\<close>

section \<open>Strings\<close>

definition parse_u32_field :: "string \<Rightarrow> nat option" where
  "parse_u32_field s = (case parse_usize s of None \<Rightarrow> None | Some v \<Rightarrow> if v < 2 ^ 32 then Some v else None)"

fun split_on :: "char \<Rightarrow> string \<Rightarrow> string list" where
  "split_on c [] = [[]]"
| "split_on c (x # xs) =
     (if x = c then [] # split_on c xs
      else case split_on c xs of [] \<Rightarrow> [[x]] | part # parts \<Rightarrow> (x # part) # parts)"

text \<open>\<^verbatim>\<open>split_once\<close>, at a non-empty pattern.\<close>

fun split_once :: "string \<Rightarrow> string \<Rightarrow> (string \<times> string) option" where
  "split_once pat [] = None"
| "split_once pat (x # xs) =
     (if str_starts_with pat (x # xs) then Some ([], drop (length pat) (x # xs))
      else map_option (\<lambda>(a, b). (x # a, b)) (split_once pat xs))"

definition strip_prefix :: "string \<Rightarrow> string \<Rightarrow> string option" where
  "strip_prefix p s = (if str_starts_with p s then Some (drop (length p) s) else None)"

definition strip_suffix :: "string \<Rightarrow> string \<Rightarrow> string option" where
  "strip_suffix p s =
     (if length p \<le> length s \<and> drop (length s - length p) s = p then Some (take (length s - length p) s) else None)"

text \<open>\<^verbatim>\<open>str::lines\<close>: no line after a final line break, a carriage return before the break dropped.\<close>

definition strip_cr :: "string \<Rightarrow> string" where
  "strip_cr s = (case strip_suffix [char_of (13 :: nat)] s of None \<Rightarrow> s | Some t \<Rightarrow> t)"

definition str_lines :: "string \<Rightarrow> string list" where
  "str_lines s =
     (let parts = split_on (char_of (10 :: nat)) s
      in map strip_cr (if last parts = [] then butlast parts else parts))"

section \<open>Release versions\<close>

datatype vllm_version =
  VllmVersion (vv_major: nat) (vv_minor: nat) (vv_patch: nat) (vv_rc: "nat option")

definition parse_version :: "string \<Rightarrow> vllm_version option" where
  "parse_version tag =
     (case split_on (CHR ''.'') (dropWhile (\<lambda>c. c = CHR ''v'') (trim tag)) of
        [major_field, minor_field, patch_field] \<Rightarrow>
          (case (parse_u32_field major_field, parse_u32_field minor_field) of
             (Some major, Some minor) \<Rightarrow>
               (case split_once ''rc'' patch_field of
                  Some (patch_str, n) \<Rightarrow>
                    (case (parse_u32_field n, parse_u32_field patch_str) of
                       (Some rc, Some patch) \<Rightarrow> Some (VllmVersion major minor patch (Some rc))
                     | _ \<Rightarrow> None)
                | None \<Rightarrow>
                    (case parse_u32_field patch_field of
                       Some patch \<Rightarrow> Some (VllmVersion major minor patch None)
                     | None \<Rightarrow> None))
           | _ \<Rightarrow> None)
      | _ \<Rightarrow> None)"

definition vv_minor_line :: "vllm_version \<Rightarrow> string" where
  "vv_minor_line v = nat_str (vv_major v) @ ''.'' @ nat_str (vv_minor v)"

text \<open>\<^verbatim>\<open>Ordering::then_with\<close>.\<close>

definition then_cmp :: "ordering \<Rightarrow> ordering \<Rightarrow> ordering" where
  "then_cmp a b = (if a = Equal then b else a)"

fun cmp_rc :: "nat option \<Rightarrow> nat option \<Rightarrow> ordering" where
  "cmp_rc None None = Equal"
| "cmp_rc None (Some _) = Greater"
| "cmp_rc (Some _) None = Less"
| "cmp_rc (Some a) (Some b) = cmp_of a b"

definition cmp_version :: "vllm_version \<Rightarrow> vllm_version \<Rightarrow> ordering" where
  "cmp_version a b =
     then_cmp (then_cmp (cmp_of (vv_major a) (vv_major b))
                 (then_cmp (cmp_of (vv_minor a) (vv_minor b)) (cmp_of (vv_patch a) (vv_patch b))))
       (cmp_rc (vv_rc a) (vv_rc b))"

section \<open>The version order\<close>

lemma cmp_of_cases: "cmp_of x y = (if x < y then Less else if x = y then Equal else Greater)"
  for x y :: "'a::linorder"
  by (auto simp: cmp_of_def)

text \<open>The comparison is the lexicographic order of this key: a final release ranks above its candidates.\<close>

definition version_key :: "vllm_version \<Rightarrow> nat \<times> nat \<times> nat \<times> nat \<times> nat" where
  "version_key v =
     (vv_major v, vv_minor v, vv_patch v, case vv_rc v of None \<Rightarrow> (1, 0) | Some n \<Rightarrow> (0, n))"

lemma cmp_version_key: "cmp_version a b = cmp_of (version_key a) (version_key b)"
  by (cases "vv_rc a"; cases "vv_rc b")
    (auto simp: cmp_version_def then_cmp_def version_key_def cmp_of_cases)

lemma version_key_inj: "version_key a = version_key b \<longleftrightarrow> a = b"
  by (cases a; cases b; cases "vv_rc a"; cases "vv_rc b") (auto simp: version_key_def)

instantiation vllm_version :: linorder
begin

definition less_eq_vllm_version :: "vllm_version \<Rightarrow> vllm_version \<Rightarrow> bool" where
  "less_eq_vllm_version a b \<longleftrightarrow> cmp_version a b \<noteq> Greater"

definition less_vllm_version :: "vllm_version \<Rightarrow> vllm_version \<Rightarrow> bool" where
  "less_vllm_version a b \<longleftrightarrow> cmp_version a b = Less"

instance
proof
  have le: "a \<le> b \<longleftrightarrow> version_key a \<le> version_key b" for a b :: vllm_version
    by (auto simp: less_eq_vllm_version_def cmp_version_key cmp_of_cases not_less intro: less_imp_le)
  have lt: "a < b \<longleftrightarrow> version_key a < version_key b" for a b :: vllm_version
    by (simp add: less_vllm_version_def cmp_version_key cmp_of_cases)
  fix a b c :: vllm_version
  show "a < b \<longleftrightarrow> a \<le> b \<and> \<not> b \<le> a" by (simp only: le lt less_le_not_le)
  show "a \<le> a" by (simp only: le order_refl)
  show "a \<le> b \<Longrightarrow> b \<le> c \<Longrightarrow> a \<le> c" unfolding le by (rule order_trans)
  show "a \<le> b \<Longrightarrow> b \<le> a \<Longrightarrow> a = b" unfolding le version_key_inj [symmetric] by (rule order_antisym)
  show "a \<le> b \<or> b \<le> a" unfolding le by (rule linear)
qed

end

section \<open>Tags of the upstream repository\<close>

definition insert_tag :: "string \<Rightarrow> (string, string) btree \<Rightarrow> (string, string) btree" where
  "insert_tag line tags =
     (case split_once [char_of (9 :: nat)] line of
        None \<Rightarrow> tags
      | Some (sha, refname) \<Rightarrow>
          (case strip_prefix ''refs/tags/'' (trim refname) of
             None \<Rightarrow> tags
           | Some tag \<Rightarrow>
               (case strip_suffix ''^{}'' tag of
                  Some name \<Rightarrow> bt_insert name (trim sha) tags
                | None \<Rightarrow> if bt_get tags tag = None then bt_insert tag (trim sha) tags else tags)))"

definition parse_ls_remote :: "string \<Rightarrow> (string, string) btree" where
  "parse_ls_remote text = fold insert_tag (str_lines text) []"

text \<open>\<^verbatim>\<open>Iterator::max_by\<close>: the last of the greatest elements.\<close>

fun max_by_key :: "('a \<Rightarrow> 'b::linorder) \<Rightarrow> 'a list \<Rightarrow> 'a option" where
  "max_by_key f [] = None"
| "max_by_key f (x # xs) =
     (case max_by_key f xs of None \<Rightarrow> Some x | Some y \<Rightarrow> if f x > f y then Some x else Some y)"

definition rc_candidates :: "(string, string) btree \<Rightarrow> vllm_version \<Rightarrow> (vllm_version \<times> string \<times> string) list" where
  "rc_candidates tags current =
     filter (\<lambda>(v, _, _). vv_rc v \<noteq> None \<and> v > current)
       (concat (map (\<lambda>(name, sha). case parse_version name of None \<Rightarrow> [] | Some v \<Rightarrow> [(v, name, sha)]) tags))"

definition pick_latest_rc :: "(string, string) btree \<Rightarrow> vllm_version \<Rightarrow> (string \<times> string) option" where
  "pick_latest_rc tags current = map_option (\<lambda>(_, name, sha). (name, sha)) (max_by_key fst (rc_candidates tags current))"

section \<open>Lines\<close>

definition is_ascii_digit :: "char \<Rightarrow> bool" where
  "is_ascii_digit c \<longleftrightarrow> digit_val c \<noteq> None"

definition minor_line :: "string \<Rightarrow> string option" where
  "minor_line version =
     (case split_on (CHR ''.'') (dropWhile (\<lambda>c. c = CHR ''v'') (trim version)) of
        major # minor # _ \<Rightarrow>
          (if major = [] \<or> \<not> list_all is_ascii_digit major then None
           else let digits = takeWhile is_ascii_digit minor
                in if digits = [] then None else Some (major @ ''.'' @ digits))
      | _ \<Rightarrow> None)"

text \<open>The line is split again and its two numbers parsed; what does not parse counts as the newest.\<close>

definition line_at_least :: "string \<Rightarrow> nat \<Rightarrow> nat \<Rightarrow> bool" where
  "line_at_least tag major minor =
     (case minor_line tag of
        None \<Rightarrow> True
      | Some line \<Rightarrow>
          (case split_on (CHR ''.'') line of
             a # b # _ \<Rightarrow>
               (case (parse_u32_field a, parse_u32_field b) of
                  (Some a_major, Some a_minor) \<Rightarrow> major < a_major \<or> (major = a_major \<and> minor \<le> a_minor)
                | _ \<Rightarrow> True)
           | _ \<Rightarrow> True))"

text \<open>The capability switches a build for \<open>tag\<close> turns on.\<close>

definition emit_capabilities :: "string \<Rightarrow> string list" where
  "emit_capabilities tag =
     (if line_at_least tag 0 32 then [''vllm_weight_version''] else []) @
     (if line_at_least tag 0 32 then [''vllm_stream_delivery''] else []) @
     (if \<not> line_at_least tag 0 33 then [''vllm_lora_tensorizer''] else [])"

end
