(* ===== verification/Release.thy ===== *)
theory Release
  imports Version
begin

text \<open>
  The support window: the manifests of \<^verbatim>\<open>crates/sim-compat/src/lib.rs\<close>, the conformance line checks
  of \<^verbatim>\<open>src/src/conformance.rs\<close>, and the release watcher of \<^verbatim>\<open>xtask/src/main.rs\<close>. The \<^verbatim>\<open>[[vllm]]\<close>
  tables of \<^verbatim>\<open>compat.toml\<close> are a list of lines in file order; the TOML text, its comments and
  the writing of files are outside. A watch run returns the tables as it leaves them in the file
  beside its result, since it writes the file before the last checks.
\<close>

section \<open>Manifests\<close>

record vllm_line =
  vl_line :: string
  vl_tag :: string
  vl_protocol_rev :: string
  vl_patch_repo :: "string option"
  vl_patch_rev :: "string option"
  vl_default :: bool

definition NIGHTLY_LINE :: string where "NIGHTLY_LINE = ''nightly''"
definition RC_LINE :: string where "RC_LINE = ''rc''"

definition is_tracker :: "vllm_line \<Rightarrow> bool" where
  "is_tracker l \<longleftrightarrow> vl_line l = NIGHTLY_LINE \<or> vl_line l = RC_LINE"

definition validate_manifest :: "vllm_line list \<Rightarrow> unit result" where
  "validate_manifest ls =
     (if ls = [] then Inl ''compat.toml defines no [[vllm]] lines''
      else if length (filter vl_default ls) \<noteq> 1
      then Inl ''compat.toml must have exactly one line with default = true''
      else if list_ex (\<lambda>l. (vl_patch_repo l = None) \<noteq> (vl_patch_rev l = None)) ls
      then Inl ''compat.toml line sets only one of patch_repo/patch_rev''
      else Inr ())"

definition default_line :: "vllm_line list \<Rightarrow> vllm_line result" where
  "default_line ls =
     (case List.find vl_default ls of None \<Rightarrow> Inl ''compat.toml has no default line'' | Some l \<Rightarrow> Inr l)"

definition manifest_line :: "vllm_line list \<Rightarrow> string \<Rightarrow> vllm_line option" where
  "manifest_line ls minor = List.find (\<lambda>l. vl_line l = minor) ls"

definition supported_tags :: "vllm_line list \<Rightarrow> string set" where
  "supported_tags ls = set (map vl_tag ls)"

datatype golden_role = SchemaGolden | FidelityGolden

record golden_entry =
  ge_line :: string
  ge_bucket_path :: string
  ge_sha256 :: string
  ge_config_hash :: string
  ge_workload :: string
  ge_role :: golden_role

definition MIN_FIDELITY_GOLDENS :: nat where
  "MIN_FIDELITY_GOLDENS = 3"

definition goldens_for_line :: "golden_entry list \<Rightarrow> string \<Rightarrow> golden_entry list" where
  "goldens_for_line goldens line = filter (\<lambda>g. ge_line g = line) goldens"

definition goldens_validate :: "golden_entry list \<Rightarrow> vllm_line \<Rightarrow> bool" where
  "goldens_validate goldens l \<longleftrightarrow>
     \<not> is_tracker l \<and>
     MIN_FIDELITY_GOLDENS \<le> length (filter (\<lambda>g. ge_role g = FidelityGolden) (goldens_for_line goldens (vl_line l)))"

text \<open>The tag a build targets: the environment override when it is set and not empty, else the default line.\<close>

definition target_tag :: "string option \<Rightarrow> vllm_line list \<Rightarrow> string result" where
  "target_tag env_tag ls =
     (case env_tag of
        Some tag \<Rightarrow> if tag \<noteq> [] then Inr tag
                    else bind_result (validate_manifest ls) (\<lambda>_. bind_result (default_line ls) (\<lambda>l. Inr (vl_tag l)))
      | None \<Rightarrow> bind_result (validate_manifest ls) (\<lambda>_. bind_result (default_line ls) (\<lambda>l. Inr (vl_tag l))))"

section \<open>Conformance lines\<close>

definition assert_same_line :: "string \<Rightarrow> string \<Rightarrow> unit result" where
  "assert_same_line build_target captured_version =
     (case minor_line build_target of
        None \<Rightarrow> Inr ()
      | Some want \<Rightarrow>
          (case minor_line captured_version of
             Some got \<Rightarrow> if want = got then Inr () else Inl ''vLLM line mismatch''
           | None \<Rightarrow> Inl ''could not parse a major.minor line''))"

definition compat_line :: "vllm_line list \<Rightarrow> string \<Rightarrow> string" where
  "compat_line ls build_target =
     (case List.find (\<lambda>l. vl_tag l = build_target) ls of
        Some l \<Rightarrow> vl_line l
      | None \<Rightarrow> (case minor_line build_target of Some m \<Rightarrow> m | None \<Rightarrow> build_target))"

text \<open>The schema check, over the keys of the two encoded ready responses.\<close>

definition missing_ready_keys :: "string list \<Rightarrow> string list \<Rightarrow> string list" where
  "missing_ready_keys recorded_keys sim_keys = filter (\<lambda>k. k \<notin> set sim_keys) recorded_keys"

fun ready_response_keys :: "msgpack result \<Rightarrow> string list result" where
  "ready_response_keys (Inl e) = Inl ''decoding ready response msgpack''"
| "ready_response_keys (Inr (MMap kvs)) =
     Inr (concat (map (\<lambda>(k, v). case msgpack_as_str k of None \<Rightarrow> [] | Some s \<Rightarrow> [s]) kvs))"
| "ready_response_keys (Inr _) = Inl ''ready response is not a msgpack map''"

definition assert_ready_response_schema :: "(u8 list \<Rightarrow> msgpack result) \<Rightarrow> u8 list \<Rightarrow> u8 list result \<Rightarrow> unit result" where
  "assert_ready_response_schema decode recorded sim_encoded =
     bind_result (ready_response_keys (decode recorded)) (\<lambda>recorded_keys.
     bind_result sim_encoded (\<lambda>sim_payload.
     bind_result (ready_response_keys (decode sim_payload)) (\<lambda>sim_keys.
       if missing_ready_keys recorded_keys sim_keys \<noteq> [] then Inl ''ready-response schema drift'' else Inr ())))"

section \<open>Editing the tables\<close>

text \<open>The first table of the line gets the tag and the revision that are given; whether one moved.\<close>

definition set_fields :: "string option \<Rightarrow> string option \<Rightarrow> vllm_line \<Rightarrow> vllm_line" where
  "set_fields tag to_rev l =
     l\<lparr>vl_tag := (case tag of None \<Rightarrow> vl_tag l | Some t \<Rightarrow> t),
       vl_protocol_rev := (case to_rev of None \<Rightarrow> vl_protocol_rev l | Some r \<Rightarrow> r)\<rparr>"

definition fields_moved :: "string option \<Rightarrow> string option \<Rightarrow> vllm_line \<Rightarrow> bool" where
  "fields_moved tag to_rev l \<longleftrightarrow>
     (case tag of None \<Rightarrow> False | Some t \<Rightarrow> vl_tag l \<noteq> t) \<or>
     (case to_rev of None \<Rightarrow> False | Some r \<Rightarrow> vl_protocol_rev l \<noteq> r)"

definition apply_set_line ::
  "vllm_line list \<Rightarrow> string \<Rightarrow> string option \<Rightarrow> string option \<Rightarrow> (vllm_line list \<times> bool) result" where
  "apply_set_line ls line tag to_rev =
     (case position (\<lambda>l. vl_line l = line) ls of
        None \<Rightarrow> Inl ''no [[vllm]] entry with that line in compat.toml''
      | Some i \<Rightarrow> Inr (ls[i := set_fields tag to_rev (ls ! i)], fields_moved tag to_rev (ls ! i)))"

definition first_stable_index :: "vllm_line list \<Rightarrow> nat" where
  "first_stable_index ls =
     (case position (\<lambda>l. \<not> is_tracker l) ls of None \<Rightarrow> length ls | Some i \<Rightarrow> i)"

definition stable_indices :: "vllm_line list \<Rightarrow> nat list" where
  "stable_indices ls = map fst (filter (\<lambda>(i, l). \<not> is_tracker l) (enumerate 0 ls))"

definition remove_at :: "nat \<Rightarrow> 'a list \<Rightarrow> 'a list" where
  "remove_at i xs = take i xs @ drop (Suc i) xs"

lemma stable_indices_less: "i \<in> set (stable_indices ls) \<Longrightarrow> i < length ls"
  by (auto simp: stable_indices_def in_set_enumerate_eq)

text \<open>The loop that drops the last stable table until the window fits.\<close>

function trim_stable :: "nat \<Rightarrow> vllm_line list \<Rightarrow> vllm_line list" where
  "trim_stable max_stable ls =
     (if length (stable_indices ls) > max_stable
      then trim_stable max_stable (remove_at (last (stable_indices ls)) ls) else ls)"
  by pat_completeness auto
termination
proof (relation "measure (\<lambda>(m, ls). length ls)")
  fix m ls assume "length (stable_indices ls) > m"
  then have "last (stable_indices ls) \<in> set (stable_indices ls)" by (intro last_in_set) auto
  then have "last (stable_indices ls) < length ls" by (rule stable_indices_less)
  then show "((m, remove_at (last (stable_indices ls)) ls), m, ls) \<in> measure (\<lambda>(m, ls). length ls)"
    by (simp add: remove_at_def)
qed simp

declare trim_stable.simps [simp del]

definition rolled_line :: "string \<Rightarrow> string \<Rightarrow> string \<Rightarrow> vllm_line" where
  "rolled_line minor tag to_rev =
     \<lparr>vl_line = minor, vl_tag = tag, vl_protocol_rev = to_rev, vl_patch_repo = None, vl_patch_rev = None,
      vl_default = True\<rparr>"

definition apply_roll_stable :: "vllm_line list \<Rightarrow> string \<Rightarrow> string \<Rightarrow> string \<Rightarrow> nat \<Rightarrow> vllm_line list" where
  "apply_roll_stable ls minor tag to_rev max_stable =
     (let ls = map (\<lambda>l. l\<lparr>vl_default := False\<rparr>) ls;
          insert_at = first_stable_index ls
      in trim_stable max_stable (take insert_at ls @ [rolled_line minor tag to_rev] @ drop insert_at ls))"

section \<open>The watcher\<close>

datatype watch_outcome = Unchanged | ChangedTransient | ChangedDefault

record watch_summary =
  ws_changed :: bool
  ws_tag :: string
  ws_line :: string
  ws_rev :: string
  ws_is_default :: bool

definition watch_summary_of :: "watch_outcome \<Rightarrow> string \<Rightarrow> string \<Rightarrow> string \<Rightarrow> watch_summary" where
  "watch_summary_of outcome tag line to_rev =
     \<lparr>ws_changed = (outcome \<noteq> Unchanged), ws_tag = tag, ws_line = line, ws_rev = to_rev,
      ws_is_default = (outcome = ChangedDefault)\<rparr>"

text \<open>The tables after the run, and the summary; \<open>None\<close> is a run that prints only \<^verbatim>\<open>changed=false\<close>.\<close>

type_synonym watch_run = "vllm_line list \<times> watch_summary option result"

definition set_nightly_rev :: "vllm_line list \<Rightarrow> string \<Rightarrow> vllm_line list \<times> bool result" where
  "set_nightly_rev ls sha =
     (case apply_set_line ls NIGHTLY_LINE None (Some sha) of
        Inl e \<Rightarrow> (ls, Inl e)
      | Inr (ls', changed) \<Rightarrow> (if changed then ls' else ls, Inr changed))"

definition watch_rc :: "string \<Rightarrow> string \<Rightarrow> vllm_line list \<Rightarrow> watch_run" where
  "watch_rc tags_text latest_stable ls =
     (case parse_version latest_stable of
        None \<Rightarrow> (ls, Inl ''--latest-stable is not a vX.Y.Z release tag'')
      | Some newest \<Rightarrow>
          (case pick_latest_rc (parse_ls_remote tags_text) newest of
             None \<Rightarrow> (ls, Inr None)
           | Some (tag, to_rev) \<Rightarrow>
               (case apply_set_line ls RC_LINE (Some tag) (Some to_rev) of
                  Inl e \<Rightarrow> (ls, Inl e)
                | Inr (ls', changed) \<Rightarrow>
                    (if changed then ls' else ls,
                     Inr (Some (watch_summary_of (if changed then ChangedTransient else Unchanged) tag RC_LINE to_rev))))))"

text \<open>A release on a line of the window moves that line in place.\<close>

definition patch_bump :: "vllm_version \<Rightarrow> string \<Rightarrow> string \<Rightarrow> vllm_line \<Rightarrow> vllm_line list \<Rightarrow> watch_run" where
  "patch_bump newest tag to_rev existing ls =
     (case parse_version (vl_tag existing) of
        None \<Rightarrow> (ls, Inl ''line tag is unparseable'')
      | Some current \<Rightarrow>
          if newest \<le> current then (ls, Inr None)
          else (case apply_set_line ls (vl_line existing) (Some tag) (Some to_rev) of
                  Inl e \<Rightarrow> (ls, Inl e)
                | Inr (ls', _) \<Rightarrow>
                    (ls', bind_result (default_line ls) (\<lambda>d.
                       Inr (Some (watch_summary_of
                         (if vl_line d = vl_line existing then ChangedDefault else ChangedTransient)
                         tag (vl_line existing) to_rev))))))"

text \<open>A newer line becomes the default; the rolled file is then parsed again, which validates it.\<close>

definition roll_window :: "vllm_version \<Rightarrow> string \<Rightarrow> string \<Rightarrow> nat \<Rightarrow> vllm_line list \<Rightarrow> watch_run" where
  "roll_window newest tag to_rev max_stable ls =
     (case default_line ls of
        Inl e \<Rightarrow> (ls, Inl e)
      | Inr d \<Rightarrow>
          (case parse_version (vl_tag d) of
             None \<Rightarrow> (ls, Inl ''current default tag is unparseable'')
           | Some default_v \<Rightarrow>
               if newest \<le> default_v then (ls, Inr None)
               else let ls' = apply_roll_stable ls (vv_minor_line newest) tag to_rev max_stable
                    in (ls', bind_result (validate_manifest ls') (\<lambda>_.
                          Inr (Some (watch_summary_of ChangedDefault tag (vv_minor_line newest) to_rev))))))"

definition watch_stable :: "string \<Rightarrow> string \<Rightarrow> nat \<Rightarrow> vllm_line list \<Rightarrow> watch_run" where
  "watch_stable tags_text latest_stable max_stable ls =
     (case parse_version latest_stable of
        None \<Rightarrow> (ls, Inl ''--latest-stable is not a vX.Y.Z release tag'')
      | Some newest \<Rightarrow>
          if vv_rc newest \<noteq> None then (ls, Inl ''--latest-stable is a pre-release'')
          else (case bt_get (parse_ls_remote tags_text) latest_stable of
                  None \<Rightarrow> (ls, Inl ''tag not found'')
                | Some to_rev \<Rightarrow>
                    (case validate_manifest ls of
                       Inl e \<Rightarrow> (ls, Inl e)
                     | Inr _ \<Rightarrow>
                         (case manifest_line ls (vv_minor_line newest) of
                            Some existing \<Rightarrow> patch_bump newest latest_stable to_rev existing ls
                          | None \<Rightarrow> roll_window newest latest_stable to_rev max_stable ls))))"

text \<open>The lines whose goldens a roll drops from the conformance manifest.\<close>

definition dropped_lines :: "vllm_line list \<Rightarrow> vllm_line list \<Rightarrow> string list" where
  "dropped_lines before rolled =
     map vl_line (filter (\<lambda>l. manifest_line rolled (vl_line l) = None) before)"

section \<open>Goldens blocks\<close>

text \<open>
  The blocks of \<^verbatim>\<open>conformance/manifest.toml\<close> between the markers of a line, as text. Line labels
  are ASCII, so upper case is taken letter by letter.
\<close>

fun find_str :: "string \<Rightarrow> string \<Rightarrow> nat option" where
  "find_str pat [] = (if pat = [] then Some 0 else None)"
| "find_str pat (c # s) =
     (if str_starts_with pat (c # s) then Some 0 else map_option Suc (find_str pat s))"

definition trim_end :: "string \<Rightarrow> string" where
  "trim_end s = rev (dropWhile is_space (rev s))"

definition newline :: char where
  "newline = char_of (10 :: nat)"

definition upper_char :: "char \<Rightarrow> char" where
  "upper_char c =
     (let n = of_char c :: nat in if 97 \<le> n \<and> n \<le> 122 then char_of (n - 32) else c)"

definition begin_marker :: "string \<Rightarrow> string" where
  "begin_marker line = ''# BEGIN '' @ map upper_char line @ '' GOLDENS''"

definition end_marker :: "string \<Rightarrow> string" where
  "end_marker line = ''# END '' @ map upper_char line @ '' GOLDENS''"

text \<open>What stands before and after the block of a line: \<open>None\<close> when there is no block.\<close>

definition goldens_block :: "string \<Rightarrow> string \<Rightarrow> (string \<times> string) option" where
  "goldens_block manifest line =
     (case find_str (begin_marker line) manifest of
        None \<Rightarrow> None
      | Some start_idx \<Rightarrow>
          (case find_str (end_marker line) (drop start_idx manifest) of
             None \<Rightarrow> None
           | Some end_rel \<Rightarrow>
               let end_idx = start_idx + end_rel + length (end_marker line)
               in Some (trim_end (take start_idx manifest),
                        dropWhile (\<lambda>c. c = newline) (drop end_idx manifest))))"

definition replace_goldens_block :: "string \<Rightarrow> string \<Rightarrow> string \<Rightarrow> string" where
  "replace_goldens_block manifest entries line =
     (let block = begin_marker line @ [newline] @ trim entries @ [newline] @ end_marker line
      in case goldens_block manifest line of
           Some (before, after) \<Rightarrow> before @ [newline, newline] @ block @ [newline] @ after
         | None \<Rightarrow> trim_end manifest @ [newline, newline] @ block @ [newline])"

definition remove_goldens_block :: "string \<Rightarrow> string \<Rightarrow> string" where
  "remove_goldens_block manifest line =
     (case goldens_block manifest line of
        None \<Rightarrow> manifest
      | Some (before, after) \<Rightarrow>
          if after = [] then before @ [newline] else before @ [newline, newline] @ after)"

text \<open>The conformance manifest after a roll; \<open>None\<close> is a repository without one.\<close>

definition drop_goldens :: "vllm_line list \<Rightarrow> vllm_line list \<Rightarrow> string option \<Rightarrow> string option" where
  "drop_goldens before rolled manifest =
     map_option (\<lambda>text. foldl remove_goldens_block text (dropped_lines before rolled)) manifest"

text \<open>Whether the run reached the goldens: it rolled the window and the new file validated.\<close>

definition watch_stable_goldens ::
  "string \<Rightarrow> string \<Rightarrow> nat \<Rightarrow> vllm_line list \<Rightarrow> string option \<Rightarrow> string option" where
  "watch_stable_goldens tags_text latest_stable max_stable ls manifest =
     (case watch_stable tags_text latest_stable max_stable ls of
        (ls', Inr (Some summary)) \<Rightarrow>
          if manifest_line ls (ws_line summary) = None then drop_goldens ls ls' manifest else manifest
      | _ \<Rightarrow> manifest)"

section \<open>Build matrices\<close>

record platform =
  pf_runner :: string
  pf_target :: string
  pf_os :: string

definition PLATFORMS :: "platform list" where
  "PLATFORMS =
     [\<lparr>pf_runner = ''ubuntu-latest'', pf_target = ''x86_64-unknown-linux-musl'', pf_os = ''linux''\<rparr>,
      \<lparr>pf_runner = ''ubuntu-24.04-arm'', pf_target = ''aarch64-unknown-linux-musl'', pf_os = ''linux''\<rparr>,
      \<lparr>pf_runner = ''macos-14'', pf_target = ''aarch64-apple-darwin'', pf_os = ''macos''\<rparr>]"

record ci_row =
  ci_line :: vllm_line
  ci_fidelity_validated :: bool
  ci_has_goldens :: bool

definition ci_matrix :: "vllm_line list \<Rightarrow> golden_entry list \<Rightarrow> ci_row list result" where
  "ci_matrix ls goldens =
     bind_result (validate_manifest ls) (\<lambda>_.
       Inr (map (\<lambda>l. \<lparr>ci_line = l, ci_fidelity_validated = goldens_validate goldens l,
                      ci_has_goldens = (goldens_for_line goldens (vl_line l) \<noteq> [])\<rparr>) ls))"

text \<open>The patch columns are empty strings for a line without a fork.\<close>

record docker_row =
  dk_line :: string
  dk_tag :: string
  dk_protocol_rev :: string
  dk_patch_repo :: string
  dk_patch_rev :: string
  dk_default :: bool

definition docker_matrix :: "vllm_line list \<Rightarrow> docker_row list result" where
  "docker_matrix ls =
     bind_result (validate_manifest ls) (\<lambda>_.
       Inr (map (\<lambda>l. \<lparr>dk_line = vl_line l, dk_tag = vl_tag l, dk_protocol_rev = vl_protocol_rev l,
                      dk_patch_repo = (case vl_patch_repo l of None \<Rightarrow> [] | Some repo \<Rightarrow> repo),
                      dk_patch_rev = (case vl_patch_rev l of None \<Rightarrow> [] | Some r \<Rightarrow> r),
                      dk_default = vl_default l\<rparr>) ls))"

definition default_tag :: "vllm_line list \<Rightarrow> string result" where
  "default_tag ls =
     bind_result (validate_manifest ls) (\<lambda>_. bind_result (default_line ls) (\<lambda>l. Inr (vl_tag l)))"

definition release_matrix :: "vllm_line list \<Rightarrow> (vllm_line \<times> platform) list result" where
  "release_matrix ls =
     bind_result (validate_manifest ls) (\<lambda>_.
       Inr (concat (map (\<lambda>l. map (\<lambda>p. (l, p)) PLATFORMS) (filter (\<lambda>l. \<not> is_tracker l) ls))))"

definition VLLM_GIT :: string where
  "VLLM_GIT = ''https://github.com/vllm-project/vllm.git''"

text \<open>Tag, repository and reference of the frontend a line is tested with.\<close>

definition frontend_args :: "vllm_line list \<Rightarrow> string \<Rightarrow> (string \<times> string \<times> string) result" where
  "frontend_args ls line =
     bind_result (validate_manifest ls) (\<lambda>_.
       case manifest_line ls line of
         None \<Rightarrow> Inl ''no compat.toml entry for line''
       | Some l \<Rightarrow>
           Inr (vl_tag l,
                (case vl_patch_repo l of None \<Rightarrow> VLLM_GIT | Some repo \<Rightarrow> repo),
                (case vl_patch_rev l of None \<Rightarrow> vl_protocol_rev l | Some to_rev \<Rightarrow> to_rev)))"

section \<open>The workspace manifest\<close>

text \<open>
  The parts of \<^verbatim>\<open>Cargo.toml\<close> the tools edit: the revision of the client dependency (\<open>None\<close> when it
  is not an inline table), the \<^verbatim>\<open>[patch]\<close> tables by source and crate, and the workspace version.
\<close>

type_synonym patch_table = "(string \<times> (string \<times> string \<times> string) list) list"

record cargo_doc =
  cd_dep_rev :: "string option"
  cd_patch :: "patch_table option"
  cd_version :: "string option"

definition CLIENT_CRATE :: string where
  "CLIENT_CRATE = ''vllm-engine-core-client''"

definition assoc_remove :: "string \<Rightarrow> (string \<times> 'a) list \<Rightarrow> (string \<times> 'a) list" where
  "assoc_remove k m = filter (\<lambda>e. fst e \<noteq> k) m"

text \<open>Replace in place, or append.\<close>

fun assoc_set :: "string \<Rightarrow> 'a \<Rightarrow> (string \<times> 'a) list \<Rightarrow> (string \<times> 'a) list" where
  "assoc_set k v [] = [(k, v)]"
| "assoc_set k v (e # m) = (if fst e = k then (k, v) # m else e # assoc_set k v m)"

definition strip_patch :: "patch_table option \<Rightarrow> patch_table option" where
  "strip_patch patches =
     (case patches of
        None \<Rightarrow> None
      | Some m \<Rightarrow>
          let m = (case map_of m VLLM_GIT of
                     None \<Rightarrow> m
                   | Some src \<Rightarrow>
                       let src = assoc_remove CLIENT_CRATE src
                       in if src = [] then assoc_remove VLLM_GIT m else assoc_set VLLM_GIT src m)
          in if m = [] then None else Some m)"

definition apply_pin :: "cargo_doc \<Rightarrow> string \<Rightarrow> string option \<Rightarrow> string option \<Rightarrow> cargo_doc result" where
  "apply_pin doc to_rev patch_repo patch_rev =
     (case cd_dep_rev doc of
        None \<Rightarrow> Inl ''workspace.dependencies.vllm-engine-core-client must be an inline table''
      | Some _ \<Rightarrow>
          let doc = doc\<lparr>cd_dep_rev := Some to_rev, cd_patch := strip_patch (cd_patch doc)\<rparr>
          in case patch_rev of
               None \<Rightarrow> Inr doc
             | Some fork_rev \<Rightarrow>
                 (case patch_repo of
                    None \<Rightarrow> Inl ''patch_rev without patch_repo in compat.toml''
                  | Some repo \<Rightarrow>
                      let m = (case cd_patch doc of None \<Rightarrow> [] | Some m \<Rightarrow> m);
                          src = (case map_of m VLLM_GIT of None \<Rightarrow> [] | Some src \<Rightarrow> src)
                      in Inr (doc\<lparr>cd_patch := Some (assoc_set VLLM_GIT (assoc_set CLIENT_CRATE (repo, fork_rev) src) m)\<rparr>)))"

definition pin_vllm :: "vllm_line list \<Rightarrow> string \<Rightarrow> string option \<Rightarrow> cargo_doc \<Rightarrow> cargo_doc result" where
  "pin_vllm ls line rev_override doc =
     bind_result (validate_manifest ls) (\<lambda>_.
       case manifest_line ls line of
         None \<Rightarrow> Inl ''no compat.toml entry for line''
       | Some l \<Rightarrow>
           apply_pin doc (case rev_override of None \<Rightarrow> vl_protocol_rev l | Some to_rev \<Rightarrow> to_rev)
             (vl_patch_repo l) (vl_patch_rev l))"

text \<open>The next patch version of a plain \<^verbatim>\<open>X.Y.Z\<close>.\<close>

definition apply_bump_patch :: "cargo_doc \<Rightarrow> (cargo_doc \<times> string) result" where
  "apply_bump_patch doc =
     (case cd_version doc of
        None \<Rightarrow> Inl ''[workspace.package].version is not a string''
      | Some version \<Rightarrow>
          (case split_on (CHR ''.'') version of
             [a, b, c] \<Rightarrow>
               (case (parse_usize a, parse_usize b, parse_usize c) of
                  (Some x, Some y, Some z) \<Rightarrow>
                    if 2 ^ 64 \<le> z + 1 then Inl ''attempt to add with overflow''
                    else let next_version = nat_str x @ ''.'' @ nat_str y @ ''.'' @ nat_str (z + 1)
                         in Inr (doc\<lparr>cd_version := Some next_version\<rparr>, next_version)
                | _ \<Rightarrow> Inl ''version is not a plain X.Y.Z'')
           | _ \<Rightarrow> Inl ''version is not a plain X.Y.Z''))"

end
