(* ===== verification/Transport.thy ===== *)
theory Transport
  imports Engine_Core Cache_Prompt Release
begin

text \<open>
  The transport around the engine: decoding of request messages and the IO loop
  (\<^verbatim>\<open>src/src/io.rs\<close>), the KV event publisher (\<^verbatim>\<open>src/src/kvevents.rs\<close>), the registration of an
  engine with the frontend (\<^verbatim>\<open>crates/sim-protocol/src/frontend_connect.rs\<close>), and the supervision of
  the tasks of a process (\<^verbatim>\<open>src/src/lib.rs\<close>). Sockets are what they were given to send; channels
  are queues; a \<^verbatim>\<open>select!\<close> round is given what has arrived since the last one. The byte encodings
  of msgpack, and the request struct of the client crate, are a record of codecs.
\<close>

section \<open>Request messages\<close>

record wire_codec =
  wc_unpack :: "u8 list \<Rightarrow> msgpack result"
  wc_pack :: "msgpack \<Rightarrow> u8 list result"
  wc_request :: "u8 list \<Rightarrow> engine_request result"
  wc_strings :: "u8 list \<Rightarrow> string list result"
  wc_envelope :: "envelope \<Rightarrow> u8 list result"

text \<open>The utility request is a tuple of client, call id, method and arguments.\<close>

fun utility_of_msgpack :: "msgpack \<Rightarrow> utility_request result" where
  "utility_of_msgpack (MArray [client, call_id, method, args]) =
     (case (msgpack_as_u64 client, msgpack_as_u64 call_id, msgpack_as_str method) of
        (Some c, Some i, Some s) \<Rightarrow>
          if c < 2 ^ 32 then Inr \<lparr>u_client = c, u_call_id = i, u_method = s, u_args = args\<rparr>
          else Inl ''invalid value: expected u32''
      | _ \<Rightarrow> Inl ''invalid type'')"
| "utility_of_msgpack _ = Inl ''invalid type: expected a tuple of 4 elements''"

definition decode_request :: "wire_codec \<Rightarrow> u8 list list \<Rightarrow> engine_input result" where
  "decode_request C frames =
     (if length frames < 2 then Inl ''engine request needs at least 2 frames''
      else case request_type_from_frame (frames ! 0) of
             None \<Rightarrow> Inl ''unknown engine request type''
           | Some RAdd \<Rightarrow> bind_result (wc_request C (frames ! 1)) (\<lambda>r. Inr (InRequest r))
           | Some RAbort \<Rightarrow> bind_result (wc_strings C (frames ! 1)) (\<lambda>ids. Inr (InAbort ids))
           | Some RUtility \<Rightarrow>
               bind_result (bind_result (wc_unpack C (frames ! 1)) utility_of_msgpack) (\<lambda>u. Inr (InUtility u))
           | Some RStartDpWave \<Rightarrow> Inr InStartDpWave)"

text \<open>
  The inputs of one dealer socket: what does not decode is skipped with a warning, a failing
  receive is an item of the stream.
\<close>

fun dealer_inputs :: "wire_codec \<Rightarrow> u8 list list result list \<Rightarrow> engine_input result list" where
  "dealer_inputs C [] = []"
| "dealer_inputs C (Inl e # received) = Inl ''dealer recv failed'' # dealer_inputs C received"
| "dealer_inputs C (Inr frames # received) =
     (case decode_request C frames of
        Inl _ \<Rightarrow> dealer_inputs C received
      | Inr input \<Rightarrow> Inr input # dealer_inputs C received)"

section \<open>The IO loop\<close>

text \<open>
  \<open>io_sent\<close> holds the messages each push socket was given, \<open>io_queue\<close> the outputs not taken yet;
  \<open>io_flushing\<close> is the inner loop after the engine was found gone.
\<close>

record io_state =
  io_queue :: "engine_output list"
  io_closed :: bool
  io_flushing :: bool
  io_sent :: "u8 list list list"
  io_forwarded :: "engine_input list"

text \<open>
  One round: outputs that arrived, whether the engine has dropped its sender, the item the input
  streams have ready (\<open>Some None\<close>: all closed), whether the engine has dropped its receiver.
\<close>

record io_round =
  ir_outputs :: "engine_output list"
  ir_sender_dropped :: bool
  ir_input :: "engine_input result option option"
  ir_receiver_dropped :: bool

datatype io_status = IoRunning | IoExited "unit result"

definition send_engine_outputs_to_client ::
  "wire_codec \<Rightarrow> (nat \<Rightarrow> u8 list \<Rightarrow> unit result) \<Rightarrow> engine_output \<Rightarrow> io_state \<Rightarrow> unit result \<times> io_state" where
  "send_engine_outputs_to_client C send out s =
     (if length (io_sent s) \<le> eo_client out then (Inr (), s)
      else case wc_envelope C (eo_env out) of
             Inl e \<Rightarrow> (Inl e, s)
           | Inr bytes \<Rightarrow>
               (case send (eo_client out) bytes of
                  Inl e \<Rightarrow> (Inl e, s)
                | Inr _ \<Rightarrow>
                    (Inr (), s\<lparr>io_sent := (io_sent s)[eo_client out := io_sent s ! eo_client out @ [bytes]]\<rparr>)))"

definition io_arrive :: "io_round \<Rightarrow> io_state \<Rightarrow> io_state" where
  "io_arrive r s =
     (if io_closed s then s
      else s\<lparr>io_queue := io_queue s @ ir_outputs r, io_closed := ir_sender_dropped r\<rparr>)"

definition io_output ::
  "wire_codec \<Rightarrow> (nat \<Rightarrow> u8 list \<Rightarrow> unit result) \<Rightarrow> engine_output \<Rightarrow> engine_output list \<Rightarrow> io_state \<Rightarrow>
   io_status \<times> io_state" where
  "io_output C send out rest s =
     (case send_engine_outputs_to_client C send out (s\<lparr>io_queue := rest\<rparr>) of
        (Inl e, s') \<Rightarrow> (IoExited (Inl e), s')
      | (Inr _, s') \<Rightarrow> (IoRunning, s'))"

text \<open>Outputs first; an input only when none is queued and the channel is open.\<close>

definition io_choose ::
  "wire_codec \<Rightarrow> (nat \<Rightarrow> u8 list \<Rightarrow> unit result) \<Rightarrow> io_round \<Rightarrow> io_state \<Rightarrow> io_status \<times> io_state" where
  "io_choose C send r s =
     (case io_queue s of
        out # rest \<Rightarrow> io_output C send out rest s
      | [] \<Rightarrow>
          if io_closed s then (IoExited (Inr ()), s)
          else if io_flushing s then (IoRunning, s)
          else (case ir_input r of
                  None \<Rightarrow> (IoRunning, s)
                | Some None \<Rightarrow> (IoExited (Inl ''engine input streams closed''), s)
                | Some (Some (Inl e)) \<Rightarrow> (IoExited (Inl e), s)
                | Some (Some (Inr input)) \<Rightarrow>
                    if ir_receiver_dropped r then (IoRunning, s\<lparr>io_flushing := True\<rparr>)
                    else (IoRunning, s\<lparr>io_forwarded := io_forwarded s @ [input]\<rparr>)))"

definition io_step ::
  "wire_codec \<Rightarrow> (nat \<Rightarrow> u8 list \<Rightarrow> unit result) \<Rightarrow> io_round \<Rightarrow> io_state \<Rightarrow> io_status \<times> io_state" where
  "io_step C send r s = io_choose C send r (io_arrive r s)"

fun run_io_loop ::
  "wire_codec \<Rightarrow> (nat \<Rightarrow> u8 list \<Rightarrow> unit result) \<Rightarrow> io_round list \<Rightarrow> io_state \<Rightarrow> io_status \<times> io_state" where
  "run_io_loop C send [] s = (IoRunning, s)"
| "run_io_loop C send (r # rs) s =
     (case io_step C send r s of
        (IoExited e, s') \<Rightarrow> (IoExited e, s')
      | (IoRunning, s') \<Rightarrow> run_io_loop C send rs s')"

definition io_start :: "nat \<Rightarrow> io_state" where
  "io_start sockets =
     \<lparr>io_queue = [], io_closed = False, io_flushing = False, io_sent = replicate sockets [], io_forwarded = []\<rparr>"

section \<open>KV events\<close>

definition MEDIUM_GPU :: string where
  "MEDIUM_GPU = ''GPU''"

definition should_bind :: "string \<Rightarrow> bool" where
  "should_bind endpoint \<longleftrightarrow>
     str_contains ''*'' endpoint \<or> str_contains ''::'' endpoint \<or>
     str_starts_with ''ipc://'' endpoint \<or> str_starts_with ''inproc://'' endpoint"

text \<open>\<^verbatim>\<open>replacen(pat, to, 1)\<close> at a non-empty pattern.\<close>

definition replace_first :: "string \<Rightarrow> string \<Rightarrow> string \<Rightarrow> string" where
  "replace_first pat new s = (case split_once pat s of None \<Rightarrow> s | Some (a, b) \<Rightarrow> a @ new @ b)"

definition bind_addr :: "string \<Rightarrow> string" where
  "bind_addr endpoint =
     (if str_starts_with ''tcp://'' endpoint then replace_first ''://*:'' ''://0.0.0.0:'' endpoint else endpoint)"

definition be_bytes :: "u64 \<Rightarrow> u8 list" where
  "be_bytes w = rev (u64_to_le_bytes w)"

definition hash_value :: "u64 \<Rightarrow> msgpack" where
  "hash_value hash = MBinary (be_bytes hash)"

definition msgpack_nat :: "nat \<Rightarrow> msgpack" where
  "msgpack_nat n = MInt (int n)"

fun encode_event :: "kv_cache_event \<Rightarrow> msgpack" where
  "encode_event (Stored hashes par tokens bsz lora) =
     MArray [MString ''BlockStored'', MArray (map hash_value hashes),
             (case par of None \<Rightarrow> MNil | Some h \<Rightarrow> hash_value h),
             MArray (map (\<lambda>t. MInt (uint t)) tokens), msgpack_nat bsz, MNil, MString MEDIUM_GPU,
             (case lora of None \<Rightarrow> MNil | Some name \<Rightarrow> MString name)]"
| "encode_event (Removed hashes) =
     MArray [MString ''BlockRemoved'', MArray (map hash_value hashes), MString MEDIUM_GPU]"
| "encode_event AllCleared = MArray [MString ''AllBlocksCleared'']"

definition encode_batch :: "wire_codec \<Rightarrow> f64 \<Rightarrow> kv_cache_event list \<Rightarrow> u8 list result" where
  "encode_batch C now_secs evs =
     err_context ''encode kv-event batch''
       (wc_pack C (MArray [MFloat now_secs, MArray (map encode_event evs), msgpack_nat 0]))"

definition build_message :: "string \<Rightarrow> u64 \<Rightarrow> u8 list \<Rightarrow> u8 list list" where
  "build_message topic sequence payload = [as_bytes topic, be_bytes sequence, payload]"

text \<open>The publisher: its bounded queue, whether the engine still holds a sender, the sequence number
  and the messages the socket took.\<close>

definition KV_QUEUE :: nat where
  "KV_QUEUE = 1024"

record kv_publisher =
  kp_topic :: string
  kp_queue :: "kv_cache_event list list"
  kp_closed :: bool
  kp_seq :: u64
  kp_sent :: "u8 list list list"
  kp_running :: bool

definition kv_spawn :: "kv_events_config \<Rightarrow> kv_publisher option" where
  "kv_spawn cfg =
     (if kc_enabled cfg
      then Some \<lparr>kp_topic = kc_topic cfg, kp_queue = [], kp_closed = False, kp_seq = 0, kp_sent = [], kp_running = True\<rparr>
      else None)"

definition kv_publish :: "kv_cache_event list \<Rightarrow> kv_publisher \<Rightarrow> kv_publisher" where
  "kv_publish evs p =
     (if evs = [] then p
      else if \<not> kp_running p \<or> KV_QUEUE \<le> length (kp_queue p) then p
      else p\<lparr>kp_queue := kp_queue p @ [evs]\<rparr>)"

text \<open>A round of the task, given the time, whether the token is cancelled, and whether a send succeeds.\<close>

record kv_round =
  kr_now :: f64
  kr_cancelled :: bool
  kr_send_ok :: bool

definition kv_send :: "wire_codec \<Rightarrow> kv_round \<Rightarrow> kv_cache_event list \<Rightarrow> kv_publisher \<Rightarrow> kv_publisher" where
  "kv_send C r evs p =
     (case encode_batch C (kr_now r) evs of
        Inl _ \<Rightarrow> p
      | Inr payload \<Rightarrow>
          if \<not> kr_send_ok r then p
          else p\<lparr>kp_sent := kp_sent p @ [build_message (kp_topic p) (kp_seq p) payload],
                 kp_seq := kp_seq p + 1\<rparr>)"

definition kv_step :: "wire_codec \<Rightarrow> kv_round \<Rightarrow> kv_publisher \<Rightarrow> kv_publisher" where
  "kv_step C r p =
     (if \<not> kp_running p then p
      else if kr_cancelled r then p\<lparr>kp_running := False\<rparr>
      else case kp_queue p of
             [] \<Rightarrow> if kp_closed p then p\<lparr>kp_running := False\<rparr> else p
           | evs # rest \<Rightarrow> kv_send C r evs (p\<lparr>kp_queue := rest\<rparr>))"

text \<open>A history of the publisher: batches the engine publishes, rounds of the task, the drop of the
  last sender.\<close>

datatype kv_action = KvPublish "kv_cache_event list" | KvRound kv_round | KvDropSender

fun kv_act :: "wire_codec \<Rightarrow> kv_action \<Rightarrow> kv_publisher \<Rightarrow> kv_publisher" where
  "kv_act C (KvPublish evs) p = kv_publish evs p"
| "kv_act C (KvRound r) p = kv_step C r p"
| "kv_act C KvDropSender p = p\<lparr>kp_closed := True\<rparr>"

definition kv_run :: "wire_codec \<Rightarrow> kv_action list \<Rightarrow> kv_publisher \<Rightarrow> kv_publisher" where
  "kv_run C acts p = fold (kv_act C) acts p"

section \<open>Registration\<close>

record sim_kv_events_config =
  sk_enable_kv_cache_events :: bool
  sk_publisher :: string
  sk_endpoint :: string
  sk_replay_endpoint :: "string option"
  sk_buffer_steps :: nat
  sk_hwm :: nat
  sk_max_queue_size :: nat
  sk_topic :: string

definition kv_events_zmq :: "string \<Rightarrow> string \<Rightarrow> sim_kv_events_config" where
  "kv_events_zmq endpoint topic =
     \<lparr>sk_enable_kv_cache_events = True, sk_publisher = ''zmq'', sk_endpoint = endpoint, sk_replay_endpoint = None,
      sk_buffer_steps = 10000, sk_hwm = 100000, sk_max_queue_size = 100000, sk_topic = topic\<rparr>"

record sim_ready_response =
  sr_max_model_len :: nat
  sr_num_gpu_blocks :: nat
  sr_block_size :: nat
  sr_dp_stats_address :: "string option"
  sr_dtype :: string
  sr_vllm_version :: string
  sr_world_size :: nat
  sr_data_parallel_size :: nat
  sr_kv_cache_size_tokens :: "nat option"
  sr_kv_cache_max_concurrency :: "f64 option"
  sr_tensor_parallel_size :: nat
  sr_pipeline_parallel_size :: nat
  sr_decode_context_parallel_size :: nat
  sr_data_parallel_rank :: nat
  sr_max_num_seqs :: nat
  sr_max_num_batched_tokens :: nat
  sr_instance_id :: string
  sr_supports_lora :: bool
  sr_max_loras :: nat
  sr_kv_events_config :: "sim_kv_events_config option"
  sr_weight_transfer_backend :: "string option"
  sr_enable_sleep_mode :: bool
  sr_supports_draft_weight_updates :: bool

definition msgpack_option :: "('a \<Rightarrow> msgpack) \<Rightarrow> 'a option \<Rightarrow> msgpack" where
  "msgpack_option enc x = (case x of None \<Rightarrow> MNil | Some v \<Rightarrow> enc v)"

definition kv_config_msgpack :: "sim_kv_events_config \<Rightarrow> msgpack" where
  "kv_config_msgpack k = MMap
     [(MString ''enable_kv_cache_events'', MBool (sk_enable_kv_cache_events k)),
      (MString ''publisher'', MString (sk_publisher k)),
      (MString ''endpoint'', MString (sk_endpoint k)),
      (MString ''replay_endpoint'', msgpack_option MString (sk_replay_endpoint k)),
      (MString ''buffer_steps'', msgpack_nat (sk_buffer_steps k)),
      (MString ''hwm'', msgpack_nat (sk_hwm k)),
      (MString ''max_queue_size'', msgpack_nat (sk_max_queue_size k)),
      (MString ''topic'', MString (sk_topic k))]"

definition ready_entries :: "sim_ready_response \<Rightarrow> (string \<times> msgpack) list" where
  "ready_entries r =
     [(''max_model_len'', msgpack_nat (sr_max_model_len r)),
      (''num_gpu_blocks'', msgpack_nat (sr_num_gpu_blocks r)),
      (''block_size'', msgpack_nat (sr_block_size r)),
      (''dp_stats_address'', msgpack_option MString (sr_dp_stats_address r)),
      (''dtype'', MString (sr_dtype r)),
      (''vllm_version'', MString (sr_vllm_version r)),
      (''world_size'', msgpack_nat (sr_world_size r)),
      (''data_parallel_size'', msgpack_nat (sr_data_parallel_size r)),
      (''kv_cache_size_tokens'', msgpack_option msgpack_nat (sr_kv_cache_size_tokens r)),
      (''kv_cache_max_concurrency'', msgpack_option MFloat (sr_kv_cache_max_concurrency r)),
      (''tensor_parallel_size'', msgpack_nat (sr_tensor_parallel_size r)),
      (''pipeline_parallel_size'', msgpack_nat (sr_pipeline_parallel_size r)),
      (''decode_context_parallel_size'', msgpack_nat (sr_decode_context_parallel_size r)),
      (''data_parallel_rank'', msgpack_nat (sr_data_parallel_rank r)),
      (''max_num_seqs'', msgpack_nat (sr_max_num_seqs r)),
      (''max_num_batched_tokens'', msgpack_nat (sr_max_num_batched_tokens r)),
      (''instance_id'', MString (sr_instance_id r)),
      (''supports_lora'', MBool (sr_supports_lora r)),
      (''max_loras'', msgpack_nat (sr_max_loras r)),
      (''kv_events_config'', msgpack_option kv_config_msgpack (sr_kv_events_config r)),
      (''weight_transfer_backend'', msgpack_option MString (sr_weight_transfer_backend r)),
      (''enable_sleep_mode'', MBool (sr_enable_sleep_mode r)),
      (''supports_draft_weight_updates'', MBool (sr_supports_draft_weight_updates r))]"

definition ready_msgpack :: "sim_ready_response \<Rightarrow> msgpack" where
  "ready_msgpack r = MMap (map (\<lambda>(k, v). (MString k, v)) (ready_entries r))"

definition ready_encode :: "wire_codec \<Rightarrow> sim_ready_response \<Rightarrow> u8 list result" where
  "ready_encode C r = err_context ''encoding ready response'' (wc_pack C (ready_msgpack r))"

text \<open>What an engine advertises of its options; the version override and the number of engines are
  options of the process, the target version is stamped in by the build.\<close>

definition target_vllm_version :: "string \<Rightarrow> string \<Rightarrow> string" where
  "target_vllm_version override build_target = (if override = [] then build_target else override)"

definition ready_response_of :: "opt \<Rightarrow> string \<Rightarrow> nat \<Rightarrow> nat \<Rightarrow> sim_ready_response" where
  "ready_response_of cfg version engine_count engine_index =
     (let max_model_len = (if 0 < o_max_model_len cfg then o_max_model_len cfg else DEFAULT_MOCK_MAX_MODEL_LEN);
          tokens = o_kv_cache_size cfg * o_tokens_per_block cfg;
          kv = kv_events_config_of cfg engine_index
      in \<lparr>sr_max_model_len = max_model_len, sr_num_gpu_blocks = o_kv_cache_size cfg,
          sr_block_size = o_tokens_per_block cfg, sr_dp_stats_address = None, sr_dtype = ''float32'',
          sr_vllm_version = version, sr_world_size = 1, sr_data_parallel_size = engine_count,
          sr_kv_cache_size_tokens = Some tokens,
          sr_kv_cache_max_concurrency = Some (real tokens / real max_model_len),
          sr_tensor_parallel_size = 1, sr_pipeline_parallel_size = 1, sr_decode_context_parallel_size = 1,
          sr_data_parallel_rank = engine_index, sr_max_num_seqs = o_max_num_seqs cfg,
          sr_max_num_batched_tokens = o_max_num_batched_tokens cfg, sr_instance_id = pod_id cfg engine_index,
          sr_supports_lora = (0 < o_max_loras cfg), sr_max_loras = o_max_loras cfg,
          sr_kv_events_config =
            (if kc_enabled kv then Some (kv_events_zmq (kc_endpoint kv) (kc_topic kv)) else None),
          sr_weight_transfer_backend = None, sr_enable_sleep_mode = False,
          sr_supports_draft_weight_updates = False\<rparr>)"

text \<open>The addresses of the frontend's INIT, and the sends and connects the handshake makes of them.\<close>

record init_addresses =
  ia_inputs :: "string list"
  ia_outputs :: "string list"
  ia_coordinator_input :: "string option"
  ia_coordinator_output :: "string option"

datatype handshake_action =
    SendHello
  | ConnectInput string
  | Register string
  | ConnectOutput string
  | SubscribeCoordinator string
  | AwaitCoordinatorReady string
  | ConnectCoordinator string
  | SendReady

definition data_socket_actions :: "string \<Rightarrow> string \<Rightarrow> handshake_action list" where
  "data_socket_actions input_address output_address =
     [ConnectInput input_address, Register input_address, ConnectOutput output_address]"

definition coordinator_actions :: "init_addresses \<Rightarrow> handshake_action list result" where
  "coordinator_actions init =
     (case (ia_coordinator_input init, ia_coordinator_output init) of
        (Some i, Some u) \<Rightarrow> Inr [SubscribeCoordinator i, ConnectCoordinator u, AwaitCoordinatorReady i]
      | (None, None) \<Rightarrow> Inr []
      | _ \<Rightarrow> Inl ''coordinator handshake addresses must be both present or both absent'')"

text \<open>The actions up to the end or the failing check, the failure with them. The coordinator's answer is
  its READY marker or not.\<close>

definition connect_to_frontend :: "init_addresses result list \<Rightarrow> bool \<Rightarrow> handshake_action list \<times> unit result" where
  "connect_to_frontend init_frames ready_marker =
     (case init_frames of
        [Inl e] \<Rightarrow> ([SendHello], Inl ''decoding INIT'')
      | [Inr init] \<Rightarrow>
          if ia_inputs init = [] then ([SendHello], Inl ''frontend INIT did not include an input address'')
          else if length (ia_inputs init) \<noteq> length (ia_outputs init)
          then ([SendHello], Inl ''frontend INIT input/output address count mismatch'')
          else let data = concat (map (\<lambda>(i, u). data_socket_actions i u) (zip (ia_inputs init) (ia_outputs init)))
               in (case coordinator_actions init of
                     Inl e \<Rightarrow> (SendHello # data, Inl e)
                   | Inr coordinator \<Rightarrow>
                       if coordinator \<noteq> [] \<and> \<not> ready_marker
                       then (SendHello # data @ coordinator, Inl ''expected coordinator READY marker'')
                       else (SendHello # data @ coordinator @ [SendReady], Inr ()))
      | _ \<Rightarrow> ([SendHello], Inl ''expected one INIT frame from frontend''))"

section \<open>Supervision\<close>

text \<open>
  The end of \<^verbatim>\<open>run\<close>: the finished tasks in the order they are joined, each with its result and
  whether the shutdown was requested by then; a join failure is an error result.
\<close>

fun supervise :: "(unit result \<times> bool) list \<Rightarrow> unit result" where
  "supervise [] = Inr ()"
| "supervise ((Inr _, shutdown_requested) # joined) =
     (if shutdown_requested then supervise joined else Inl ''engine exited unexpectedly'')"
| "supervise ((Inl e, _) # joined) = Inl e"

text \<open>The end of \<^verbatim>\<open>run_engine\<close>: which of its two loops ends first, and what becomes of the other.\<close>

datatype flush_outcome = Flushed "unit result" | FlushTimeout

datatype first_exit =
    EngineLoopExit "unit result" flush_outcome
  | IoLoopExit "unit result"

definition run_engine_result :: "bool \<Rightarrow> unit result \<Rightarrow> unit result \<Rightarrow> first_exit \<Rightarrow> unit result" where
  "run_engine_result shutdown_before_connect connect_result constructed first =
     (if shutdown_before_connect then Inr ()
      else case connect_result of
             Inl e \<Rightarrow> Inl ''engine failed to connect to frontend''
           | Inr _ \<Rightarrow> bind_result constructed (\<lambda>_.
               case first of
                  EngineLoopExit r _ \<Rightarrow> r
                | IoLoopExit r \<Rightarrow> r))"

end
