(* ===== verification/Transport_Props.thy ===== *)
theory Transport_Props
  imports Transport Engine_Run "HOL-Library.Sublist"
begin

text \<open>
  The transport: the IO loop delivers every output of the engine in order before it ends, and ends;
  the KV feed carries the published batches, numbered, and its encoding loses nothing; the
  registration carries every key of the schema and is confirmed only when all sockets are up.
\<close>

section \<open>The IO loop\<close>

text \<open>What the engine puts on the output channel before it drops its sender.\<close>

fun arrivals :: "io_round list \<Rightarrow> engine_output list" where
  "arrivals [] = []"
| "arrivals (r # rs) = ir_outputs r @ (if ir_sender_dropped r then [] else arrivals rs)"

text \<open>The messages of one client among some outputs.\<close>

definition payloads :: "wire_codec \<Rightarrow> nat \<Rightarrow> engine_output list \<Rightarrow> u8 list list" where
  "payloads C k outs =
     concat (map (\<lambda>out. if eo_client out = k
                        then (case wc_envelope C (eo_env out) of Inl _ \<Rightarrow> [] | Inr b \<Rightarrow> [b]) else []) outs)"

lemma payloads_snoc:
  "payloads C k (outs @ [out]) =
     payloads C k outs @
     (if eo_client out = k then (case wc_envelope C (eo_env out) of Inl _ \<Rightarrow> [] | Inr b \<Rightarrow> [b]) else [])"
  by (simp add: payloads_def)

definition sent_outputs :: "wire_codec \<Rightarrow> io_state \<Rightarrow> engine_output list \<Rightarrow> bool" where
  "sent_outputs C s taken \<longleftrightarrow> (\<forall>k < length (io_sent s). io_sent s ! k = payloads C k taken)"

lemma send_ok:
  assumes "send_engine_outputs_to_client C send out s = (Inr u, s')" "sent_outputs C s taken"
  shows "sent_outputs C s' (taken @ [out])" "length (io_sent s') = length (io_sent s)"
    "io_queue s' = io_queue s" "io_closed s' = io_closed s"
  using assms
  by (auto simp: send_engine_outputs_to_client_def sent_outputs_def payloads_snoc nth_list_update
      split: if_splits sum.splits)

lemma send_failed:
  "send_engine_outputs_to_client C send out s = (Inl e, s') \<Longrightarrow> s' = s"
  by (auto simp: send_engine_outputs_to_client_def split: if_splits sum.splits)

text \<open>What is still to come for the loop: its queue and the arrivals of the rounds ahead.\<close>

definition ahead :: "io_state \<Rightarrow> io_round list \<Rightarrow> engine_output list" where
  "ahead s rs = io_queue s @ (if io_closed s then [] else arrivals rs)"

lemma arrive_ahead: "ahead (io_arrive r s) rs = ahead s (r # rs)"
  by (simp add: ahead_def io_arrive_def)

lemma arrive_sent [simp]: "io_sent (io_arrive r s) = io_sent s"
  by (simp add: io_arrive_def)

text \<open>One choice of the loop: it takes the head of the queue, or nothing.\<close>

lemma choose_cases:
  assumes "io_choose C send r s = (status, s')" "sent_outputs C s taken"
  obtains (sent) out rest where "io_queue s = out # rest" "status = IoRunning" "io_queue s' = rest"
      "io_closed s' = io_closed s" "sent_outputs C s' (taken @ [out])" "length (io_sent s') = length (io_sent s)"
    | (failed) e where "status = IoExited (Inl e)" "io_sent s' = io_sent s"
    | (ended) "status = IoExited (Inr ())" "io_queue s = []" "io_closed s" "s' = s"
    | (kept) "status = IoRunning" "io_queue s = []" "\<not> io_closed s \<or> io_flushing s" "io_queue s' = []"
      "io_closed s' = io_closed s" "io_sent s' = io_sent s"
proof (cases "io_queue s")
  case (Cons out rest)
  let ?s = "s\<lparr>io_queue := rest\<rparr>"
  have here: "sent_outputs C ?s taken" using assms(2) by (simp add: sent_outputs_def)
  show thesis
  proof (cases "send_engine_outputs_to_client C send out ?s")
    case (Pair res s2)
    show thesis
    proof (cases res)
      case (Inl e)
      then show thesis using assms(1) Cons Pair send_failed [of C send out ?s e s2]
        by (intro failed [of e]) (simp_all add: io_choose_def io_output_def)
    next
      case (Inr u)
      then have s': "s' = s2" "status = IoRunning"
        using assms(1) Cons Pair by (simp_all add: io_choose_def io_output_def)
      show thesis
        using sent [OF Cons s'(2)] send_ok [OF _ here, of send out u s2] Pair Inr s'(1) by simp
    qed
  qed
next
  case Nil
  show thesis
    using assms(1) Nil failed ended kept
    by (auto simp: io_choose_def split: if_splits option.splits sum.splits)
qed

lemma run_io_loop_sends:
  assumes "run_io_loop C send rs s = (status, s')" "sent_outputs C s taken"
  shows "\<exists>taken' rest. taken @ ahead s rs = taken' @ rest \<and> sent_outputs C s' taken' \<and>
    length (io_sent s') = length (io_sent s) \<and> (status = IoExited (Inr ()) \<longrightarrow> rest = [])"
  using assms
proof (induction rs arbitrary: s taken)
  case Nil
  then show ?case by auto
next
  case (Cons r rs)
  obtain st s1 where step: "io_choose C send r (io_arrive r s) = (st, s1)"
    by (cases "io_choose C send r (io_arrive r s)")
  have here: "sent_outputs C (io_arrive r s) taken"
    using Cons.prems(2) by (simp add: sent_outputs_def)
  have run: "(case st of IoExited e \<Rightarrow> (IoExited e, s1) | IoRunning \<Rightarrow> run_io_loop C send rs s1) = (status, s')"
    using Cons.prems(1) step by (simp add: io_step_def split: io_status.splits)
  show ?case
    using step here
  proof (cases rule: choose_cases)
    case (sent out rest)
    then show ?thesis
      using Cons.IH [of s1 "taken @ [out]"] run arrive_ahead [of r s rs] by (simp add: ahead_def)
  next
    case (failed e)
    then show ?thesis
      using run Cons.prems(2) by (intro exI [of _ taken] exI [of _ "ahead s (r # rs)"]) (auto simp: sent_outputs_def)
  next
    case ended
    then show ?thesis
      using run here arrive_ahead [of r s rs] by (intro exI [of _ taken] exI [of _ "[]"]) (auto simp: ahead_def)
  next
    case kept
    then show ?thesis
      using Cons.IH [of s1 taken] run here arrive_ahead [of r s rs] by (simp add: ahead_def sent_outputs_def)
  qed
qed

text \<open>Rounds in which nothing fails: sockets take what they get, outputs encode, inputs are sound.\<close>

definition io_healthy :: "wire_codec \<Rightarrow> (nat \<Rightarrow> u8 list \<Rightarrow> unit result) \<Rightarrow> io_round list \<Rightarrow> bool" where
  "io_healthy C send rs \<longleftrightarrow>
     (\<forall>k b. send k b = Inr ()) \<and> (\<forall>out. \<exists>b. wc_envelope C out = Inr b) \<and>
     list_all (\<lambda>r. case ir_input r of None \<Rightarrow> True | Some None \<Rightarrow> False | Some (Some i) \<Rightarrow> \<exists>v. i = Inr v) rs"

lemma healthy_send: "io_healthy C send rs \<Longrightarrow> \<exists>s'. send_engine_outputs_to_client C send out s = (Inr (), s')"
  by (auto simp: io_healthy_def send_engine_outputs_to_client_def split: sum.splits) (metis sum.distinct(1))+

lemma healthy_never_fails:
  assumes "io_healthy C send (r # rs)"
  shows "io_choose C send r s \<noteq> (IoExited (Inl e), s')"
proof (cases "io_queue s")
  case (Cons out rest)
  obtain s2 where "send_engine_outputs_to_client C send out (s\<lparr>io_queue := rest\<rparr>) = (Inr (), s2)"
    using healthy_send [OF assms] by blast
  then show ?thesis using Cons by (simp add: io_choose_def io_output_def)
next
  case Nil
  then show ?thesis
    using assms by (auto simp: io_choose_def io_healthy_def split: option.splits sum.splits)
qed

lemma healthy_tail: "io_healthy C send (r # rs) \<Longrightarrow> io_healthy C send rs"
  by (simp add: io_healthy_def)

lemma run_step:
  "run_io_loop C send (r # rs) s =
     (case io_choose C send r (io_arrive r s) of
        (IoExited e, s') \<Rightarrow> (IoExited e, s') | (IoRunning, s') \<Rightarrow> run_io_loop C send rs s')"
  by (simp add: io_step_def)

lemma closed_run_ends:
  assumes "io_healthy C send rs" "io_closed s" "length (io_queue s) < length rs" "sent_outputs C s taken"
  shows "fst (run_io_loop C send rs s) = IoExited (Inr ())"
  using assms
proof (induction rs arbitrary: s taken)
  case (Cons r rs)
  have same: "io_arrive r s = s" using Cons.prems(2) by (simp add: io_arrive_def)
  obtain st s1 where step: "io_choose C send r s = (st, s1)" by (cases "io_choose C send r s")
  show ?case
    using step Cons.prems(4)
  proof (cases rule: choose_cases)
    case (sent out rest)
    then show ?thesis
      using Cons.IH [OF healthy_tail [OF Cons.prems(1)], of s1] Cons.prems step by (simp add: io_step_def same)
  next
    case (failed e)
    then show ?thesis using healthy_never_fails [OF Cons.prems(1)] step by blast
  next
    case ended
    then show ?thesis using step by (simp add: io_step_def same)
  next
    case kept
    then show ?thesis
      using step Cons.prems(2) by (auto simp: io_choose_def)
  qed
qed simp

lemma open_run_ends:
  assumes "io_healthy C send (before @ r # after)" "ir_sender_dropped r"
    "length (ahead s (before @ r # after)) < length after" "sent_outputs C s taken"
  shows "fst (run_io_loop C send (before @ r # after) s) = IoExited (Inr ())"
  using assms
proof (induction before arbitrary: s taken)
  case Nil
  let ?s = "io_arrive r s"
  have closed: "io_closed ?s" using Nil.prems(2) by (simp add: io_arrive_def)
  have "ahead ?s after = io_queue ?s" using closed by (simp add: ahead_def)
  then have "length (io_queue ?s) < length after"
    using Nil.prems(3) arrive_ahead [of r s after] by simp
  moreover have "sent_outputs C ?s taken" using Nil.prems(4) by (simp add: sent_outputs_def)
  moreover have "io_arrive r ?s = ?s" using closed by (simp add: io_arrive_def)
  ultimately have "fst (run_io_loop C send (r # after) ?s) = IoExited (Inr ())"
    using closed_run_ends [of C send "r # after" ?s taken] Nil.prems(1) closed by simp
  moreover have "run_io_loop C send (r # after) ?s = run_io_loop C send (r # after) s"
    unfolding run_step \<open>io_arrive r ?s = ?s\<close> ..
  ultimately show ?case by simp
next
  case (Cons r0 before)
  let ?rs = "before @ r # after"
  obtain st s1 where step: "io_choose C send r0 (io_arrive r0 s) = (st, s1)"
    by (cases "io_choose C send r0 (io_arrive r0 s)")
  have here: "sent_outputs C (io_arrive r0 s) taken" using Cons.prems(4) by (simp add: sent_outputs_def)
  have healthy: "io_healthy C send (r0 # ?rs)" using Cons.prems(1) by simp
  have room: "length (ahead (io_arrive r0 s) ?rs) < length after"
    using Cons.prems(3) arrive_ahead [of r0 s ?rs] by simp
  show ?case
    using step here
  proof (cases rule: choose_cases)
    case (sent out rest)
    then have "length (ahead s1 ?rs) < length after" using room by (auto simp: ahead_def)
    then show ?thesis
      using Cons.IH [OF healthy_tail [OF healthy] Cons.prems(2) _ sent(5)] step sent(2) by (simp add: io_step_def)
  next
    case (failed e)
    then show ?thesis using healthy_never_fails [OF healthy] step by blast
  next
    case ended
    then show ?thesis using step by (simp add: io_step_def)
  next
    case kept
    have "length (ahead s1 ?rs) < length after" using room kept by (auto simp: ahead_def)
    moreover have "sent_outputs C s1 taken" using here kept(6) by (simp add: sent_outputs_def)
    ultimately show ?thesis
      using Cons.IH [OF healthy_tail [OF healthy] Cons.prems(2)] step kept(1) by (simp add: io_step_def)
  qed
qed

lemma start_sent: "sent_outputs C (io_start n) []"
  by (simp add: sent_outputs_def io_start_def payloads_def)

text \<open>C21: While nothing fails on the wire, the IO loop ends without error once the engine has dropped its
  sender, within as many rounds after the drop as there are outputs, and by then every output the
  engine sent - the last tokens and abort notices of a drain too - has gone to the socket of its
  client, in order (outputs for clients without a socket are dropped), also when an input found the
  engine gone.\<close>

theorem io_loop_delivers_all:
  assumes "rounds = before @ r # after" and "ir_sender_dropped r" and "length (arrivals rounds) < length after"
    and "io_healthy C send rounds"
  shows "fst (run_io_loop C send rounds (io_start n)) = IoExited (Inr ()) \<and>
    (\<forall>k < n. io_sent (snd (run_io_loop C send rounds (io_start n))) ! k = payloads C k (arrivals rounds))"
proof -
  have ahead: "ahead (io_start n) rounds = arrivals rounds" by (simp add: ahead_def io_start_def)
  have ends: "fst (run_io_loop C send rounds (io_start n)) = IoExited (Inr ())"
    using open_run_ends [OF _ assms(2) _ start_sent, where before = before and after = after] assms(1,3,4) ahead by simp
  obtain status s where run: "run_io_loop C send rounds (io_start n) = (status, s)"
    by (cases "run_io_loop C send rounds (io_start n)")
  have "status = IoExited (Inr ())" using ends run by simp
  then have "sent_outputs C s (arrivals rounds)" "length (io_sent s) = n"
    using run_io_loop_sends [OF run start_sent] ahead by (auto simp: io_start_def)
  then show ?thesis using ends run by (simp add: sent_outputs_def)
qed

definition demo_wire :: wire_codec where
  "demo_wire = \<lparr>wc_unpack = (\<lambda>_. Inl ''eof''), wc_pack = (\<lambda>_. Inr []), wc_request = (\<lambda>_. Inl ''eof''),
     wc_strings = (\<lambda>_. Inr []), wc_envelope = (\<lambda>env. Inr [of_nat (env_engine env)])\<rparr>"

definition demo_output :: "nat \<Rightarrow> nat \<Rightarrow> engine_output" where
  "demo_output client tag = \<lparr>eo_client = client, eo_env = UtilityCall tag 0 0 MNil\<rparr>"

definition demo_io_round :: "engine_output list \<Rightarrow> bool \<Rightarrow> io_round" where
  "demo_io_round outs dropped =
     \<lparr>ir_outputs = outs, ir_sender_dropped = dropped, ir_input = Some (Some (Inr InStartDpWave)),
      ir_receiver_dropped = dropped\<rparr>"

definition demo_io_rounds :: "io_round list" where
  "demo_io_rounds =
     [demo_io_round [] False, demo_io_round [demo_output 0 7, demo_output 1 8] True] @
     replicate 3 (demo_io_round [] True)"

theorem io_loop_delivers_all_witness:
  "fst (run_io_loop demo_wire (\<lambda>_ _. Inr ()) demo_io_rounds (io_start 2)) = IoExited (Inr ()) \<and>
   io_sent (snd (run_io_loop demo_wire (\<lambda>_ _. Inr ()) demo_io_rounds (io_start 2))) ! 1 = [[8]]"
proof -
  have split: "demo_io_rounds =
      [demo_io_round [] False] @ demo_io_round [demo_output 0 7, demo_output 1 8] True # replicate 3 (demo_io_round [] True)"
    by (simp add: demo_io_rounds_def)
  have drop: "ir_sender_dropped (demo_io_round [demo_output 0 7, demo_output 1 8] True)"
    by (simp add: demo_io_round_def)
  have arrived: "arrivals demo_io_rounds = [demo_output 0 7, demo_output 1 8]"
    by (simp add: demo_io_rounds_def demo_io_round_def)
  have healthy: "io_healthy demo_wire (\<lambda>_ _. Inr ()) demo_io_rounds"
    by (simp add: io_healthy_def demo_wire_def demo_io_rounds_def demo_io_round_def numeral_3_eq_3)
  have "length (arrivals demo_io_rounds) < length (replicate 3 (demo_io_round [] True))"
    by (simp add: arrived)
  from io_loop_delivers_all [OF split drop this healthy, of 2]
  show ?thesis by (simp add: arrived payloads_def demo_output_def demo_wire_def)
qed

section \<open>The KV feed\<close>

lemma bit_le_bytes:
  assumes "n < 64"
  shows "bit (w :: u64) n = bit (le_bytes 8 w ! (n div 8)) (n mod 8)"
proof -
  have "n div 8 < 8" using assms by simp
  then have "le_bytes 8 w ! (n div 8) = (ucast (drop_bit (8 * (n div 8)) w) :: u8)"
    by (simp add: le_bytes_def)
  then show ?thesis by (simp add: bit_simps)
qed

lemma be_bytes_inj: "be_bytes a = be_bytes b \<longleftrightarrow> a = b"
proof
  assume "be_bytes a = be_bytes b"
  then have "le_bytes 8 a = le_bytes 8 b" by (simp add: be_bytes_def)
  then show "a = b" using bit_le_bytes [of _ a] bit_le_bytes [of _ b] by (intro bit_word_eqI) simp
qed simp

lemma hash_value_inj: "hash_value a = hash_value b \<longleftrightarrow> a = b"
  by (simp add: hash_value_def be_bytes_inj)

lemma map_inj_eq: "(\<And>x y. f x = f y \<longleftrightarrow> x = y) \<Longrightarrow> map f xs = map f ys \<longleftrightarrow> xs = ys"
  by (metis inj_map_eq_map injI)

lemma encode_event_inj: "encode_event a = encode_event b \<longleftrightarrow> a = b"
  by (cases a; cases b)
    (auto simp: map_inj_eq hash_value_inj msgpack_nat_def hash_value_def be_bytes_inj
      word_uint_eq_iff split: option.splits)

text \<open>The batches published in a history; the rounds of a healthy one are not cancelled and send.\<close>

definition published :: "kv_action list \<Rightarrow> kv_cache_event list list" where
  "published acts =
     concat (map (\<lambda>a. case a of KvPublish evs \<Rightarrow> if evs = [] then [] else [evs] | _ \<Rightarrow> []) acts)"

definition kv_healthy :: "wire_codec \<Rightarrow> kv_action list \<Rightarrow> bool" where
  "kv_healthy C acts \<longleftrightarrow>
     (\<forall>v. \<exists>b. wc_pack C v = Inr b) \<and>
     list_all (\<lambda>a. case a of KvRound r \<Rightarrow> \<not> kr_cancelled r \<and> kr_send_ok r | _ \<Rightarrow> True) acts"

text \<open>The \<open>i\<close>-th message carries number \<open>i\<close> and the \<open>i\<close>-th of these batches.\<close>

definition numbered :: "wire_codec \<Rightarrow> kv_publisher \<Rightarrow> kv_cache_event list list \<Rightarrow> bool" where
  "numbered C p batches \<longleftrightarrow>
     length (kp_sent p) = length batches \<and> kp_seq p = of_nat (length batches) \<and>
     (\<forall>i < length batches. \<exists>now payload. encode_batch C now (batches ! i) = Inr payload \<and>
        kp_sent p ! i = build_message (kp_topic p) (of_nat i) payload)"

lemma numbered_send:
  assumes "numbered C p batches" "encode_batch C now evs = Inr payload"
  shows "numbered C (p\<lparr>kp_sent := kp_sent p @ [build_message (kp_topic p) (kp_seq p) payload],
      kp_seq := kp_seq p + 1\<rparr>) (batches @ [evs])"
  using assms by (auto simp: numbered_def nth_append less_Suc_eq)

lemma numbered_update [simp]:
  "numbered C (p\<lparr>kp_queue := q\<rparr>) batches = numbered C p batches"
  "numbered C (p\<lparr>kp_running := x\<rparr>) batches = numbered C p batches"
  "numbered C (p\<lparr>kp_closed := x\<rparr>) batches = numbered C p batches"
  by (simp_all add: numbered_def)

lemma subseq_drop_one: "subseq (xs @ ys) (xs @ y # ys)"
  by (induction xs) (auto intro: list_emb_Cons)

text \<open>Every message is one of the published batches, in order and numbered without gaps.\<close>

lemma kv_send_numbered:
  assumes "numbered C p batches" "subseq (batches @ evs # rest) pub"
  shows "\<exists>batches'. numbered C (kv_send C r evs (p\<lparr>kp_queue := rest\<rparr>)) batches' \<and>
    subseq (batches' @ kp_queue (kv_send C r evs (p\<lparr>kp_queue := rest\<rparr>))) pub"
proof (cases "encode_batch C (kr_now r) evs")
  case (Inl e)
  have "subseq (batches @ rest) (batches @ evs # rest)" by (rule subseq_drop_one)
  then show ?thesis using assms Inl by (intro exI [of _ batches]) (auto simp: kv_send_def intro: subseq_order.trans)
next
  case (Inr payload)
  show ?thesis
  proof (cases "kr_send_ok r")
    case True
    have "numbered C (p\<lparr>kp_queue := rest\<rparr>) batches" using assms(1) by simp
    from numbered_send [OF this Inr] show ?thesis
      using True Inr assms(2) by (intro exI [of _ "batches @ [evs]"]) (simp add: kv_send_def)
  next
    case False
    have "subseq (batches @ rest) (batches @ evs # rest)" by (rule subseq_drop_one)
    then show ?thesis
      using assms Inr False by (intro exI [of _ batches]) (auto simp: kv_send_def intro: subseq_order.trans)
  qed
qed

lemma kv_act_numbered:
  assumes "numbered C p batches" "subseq (batches @ kp_queue p) pub"
  shows "\<exists>batches'. numbered C (kv_act C a p) batches' \<and>
    subseq (batches' @ kp_queue (kv_act C a p)) (pub @ published [a])"
proof (cases a)
  case (KvPublish evs)
  have "subseq (batches @ kp_queue p @ [evs]) (pub @ [evs])"
    using list_emb_append_mono [OF assms(2), of "[evs]" "[evs]"] by simp
  moreover have "subseq (batches @ kp_queue p) (pub @ [evs])"
    using assms(2) by (metis append_Nil2 list_emb_Nil list_emb_append_mono)
  ultimately show ?thesis
    using assms KvPublish by (intro exI [of _ batches]) (auto simp: kv_publish_def published_def)
next
  case (KvRound r)
  show ?thesis
  proof (cases "kp_running p \<and> \<not> kr_cancelled r \<and> kp_queue p \<noteq> []")
    case True
    then obtain evs rest where q: "kp_queue p = evs # rest" by (cases "kp_queue p") auto
    then show ?thesis
      using kv_send_numbered [OF assms(1), of evs rest pub r] assms(2) True KvRound
      by (simp add: kv_step_def published_def)
  next
    case False
    then show ?thesis
      using assms KvRound by (intro exI [of _ batches]) (auto simp: kv_step_def published_def split: list.splits)
  qed
next
  case KvDropSender
  then show ?thesis using assms by (intro exI [of _ batches]) (simp add: published_def)
qed

lemma published_Cons: "published (a # acts) = published [a] @ published acts"
  by (simp add: published_def)

lemma kv_run_numbered:
  assumes "numbered C p batches" "subseq (batches @ kp_queue p) pub"
  shows "\<exists>batches'. numbered C (kv_run C acts p) batches' \<and>
    subseq (batches' @ kp_queue (kv_run C acts p)) (pub @ published acts)"
  using assms
proof (induction acts arbitrary: p batches pub)
  case Nil
  then show ?case by (auto simp: kv_run_def published_def)
next
  case (Cons a acts)
  obtain b where "numbered C (kv_act C a p) b" "subseq (b @ kp_queue (kv_act C a p)) (pub @ published [a])"
    using kv_act_numbered [OF Cons.prems] by blast
  from Cons.IH [OF this] show ?case by (simp add: kv_run_def published_Cons [of a acts])
qed

text \<open>In a healthy history nothing is lost as long as the queue has room for all of it.\<close>

lemma kv_healthy_act:
  assumes "kv_healthy C (a # acts)" "numbered C p batches" "batches @ kp_queue p = pub" "kp_running p"
    "case a of KvPublish evs \<Rightarrow> evs = [] \<or> length (kp_queue p) < KV_QUEUE | _ \<Rightarrow> True" "\<not> kp_closed p"
  shows "\<exists>batches'. numbered C (kv_act C a p) batches' \<and> batches' @ kp_queue (kv_act C a p) = pub @ published [a] \<and>
    (a \<noteq> KvDropSender \<longrightarrow> kp_running (kv_act C a p) \<and> \<not> kp_closed (kv_act C a p))"
proof (cases a)
  case (KvPublish evs)
  then show ?thesis
    using assms
    by (intro exI [of _ batches]; cases "evs = []") (auto simp: kv_publish_def published_def)
next
  case (KvRound r)
  have ok: "\<not> kr_cancelled r" "kr_send_ok r" "\<forall>v. \<exists>b. wc_pack C v = Inr b"
    using assms(1) KvRound by (auto simp: kv_healthy_def)
  show ?thesis
  proof (cases "kp_queue p")
    case Nil
    then show ?thesis
      using assms KvRound ok by (intro exI [of _ batches]) (simp add: kv_step_def published_def)
  next
    case (Cons evs rest)
    obtain payload where "wc_pack C (MArray [MFloat (kr_now r), MArray (map encode_event evs), msgpack_nat 0]) = Inr payload"
      using ok(3) by blast
    then have enc: "encode_batch C (kr_now r) evs = Inr payload" by (simp add: encode_batch_def err_context_def)
    have "numbered C (p\<lparr>kp_queue := rest\<rparr>) batches" using assms(2) by simp
    from numbered_send [OF this enc] show ?thesis
      using assms KvRound ok Cons enc
      by (intro exI [of _ "batches @ [evs]"]) (simp add: kv_step_def kv_send_def published_def)
  qed
next
  case KvDropSender
  then show ?thesis using assms by (intro exI [of _ batches]) (simp add: published_def)
qed

text \<open>The queue has room whenever the engine publishes.\<close>

fun never_full :: "wire_codec \<Rightarrow> kv_action list \<Rightarrow> kv_publisher \<Rightarrow> bool" where
  "never_full C [] p \<longleftrightarrow> True"
| "never_full C (a # acts) p \<longleftrightarrow>
     (case a of KvPublish evs \<Rightarrow> evs = [] \<or> length (kp_queue p) < KV_QUEUE | _ \<Rightarrow> True) \<and>
     never_full C acts (kv_act C a p)"

lemma kv_roomy_run:
  assumes "kv_healthy C acts" "numbered C p batches" "batches @ kp_queue p = pub" "kp_running p"
    "never_full C acts p" "\<not> kp_closed p" "KvDropSender \<notin> set acts"
  shows "\<exists>batches'. numbered C (kv_run C acts p) batches' \<and>
    batches' @ kp_queue (kv_run C acts p) = pub @ published acts"
  using assms
proof (induction acts arbitrary: p batches pub)
  case Nil
  then show ?case by (auto simp: kv_run_def published_def)
next
  case (Cons a acts)
  obtain b where b: "numbered C (kv_act C a p) b" "b @ kp_queue (kv_act C a p) = pub @ published [a]"
      "a \<noteq> KvDropSender \<longrightarrow> kp_running (kv_act C a p) \<and> \<not> kp_closed (kv_act C a p)"
    using kv_healthy_act [OF Cons.prems(1-4) _ Cons.prems(6)] Cons.prems(5) by auto
  have "kv_healthy C acts" using Cons.prems(1) by (simp add: kv_healthy_def)
  moreover have "a \<noteq> KvDropSender" "KvDropSender \<notin> set acts" using Cons.prems(7) by auto
  ultimately show ?case
    using Cons.IH [OF _ b(1,2)] b(3) Cons.prems(5) by (simp add: kv_run_def published_Cons [of a acts])
qed

text \<open>A history that publishes no more than the queue holds never fills it.\<close>

lemma short_never_full:
  assumes "length (kp_queue p) + length (published acts) \<le> KV_QUEUE"
  shows "never_full C acts p"
  using assms
proof (induction acts arbitrary: p)
  case (Cons a acts)
  have "length (kp_queue (kv_act C a p)) \<le> length (kp_queue p) + length (published [a])"
    by (cases a) (auto simp: kv_publish_def published_def kv_step_def kv_send_def split: list.split sum.split)
  then show ?case
    using Cons.prems Cons.IH [of "kv_act C a p"] by (auto simp: published_Cons [of a acts] published_def split: kv_action.split if_splits)
qed simp

lemma kv_healthy_run:
  assumes "kv_healthy C acts" "numbered C p []" "kp_queue p = []" "kp_running p"
    "length (published acts) \<le> KV_QUEUE" "\<not> kp_closed p" "KvDropSender \<notin> set acts"
  shows "\<exists>batches'. numbered C (kv_run C acts p) batches' \<and> batches' @ kp_queue (kv_run C acts p) = published acts"
  using kv_roomy_run [OF assms(1,2) _ assms(4) short_never_full assms(6,7)] assms(3,5) by simp

text \<open>In any history of the KV event publisher the messages on the wire are published batches in the
  order they were published, numbered 0, 1, 2, ... without a gap whatever was dropped or failed, so a
  gap in the numbers never shows a loss; without a failing send or a cancellation, and while
  everything published fits the queue, no batch is lost; and the event encoding loses nothing.\<close>

theorem kv_feed_in_order:
  assumes "kv_spawn cfg = Some p"
  shows "(\<exists>batches. numbered C (kv_run C acts p) batches \<and>
      subseq (batches @ kp_queue (kv_run C acts p)) (published acts) \<and>
      (kv_healthy C acts \<and> length (published acts) \<le> KV_QUEUE \<and> KvDropSender \<notin> set acts \<longrightarrow>
         batches @ kp_queue (kv_run C acts p) = published acts)) \<and>
    (encode_event a = encode_event b \<longleftrightarrow> a = b)"
proof (intro conjI)
  have p: "numbered C p []" "kp_queue p = []" "kp_running p" "\<not> kp_closed p"
    using assms by (auto simp: kv_spawn_def numbered_def split: if_splits)
  show "encode_event a = encode_event b \<longleftrightarrow> a = b" by (rule encode_event_inj)
  show "\<exists>batches. numbered C (kv_run C acts p) batches \<and>
      subseq (batches @ kp_queue (kv_run C acts p)) (published acts) \<and>
      (kv_healthy C acts \<and> length (published acts) \<le> KV_QUEUE \<and> KvDropSender \<notin> set acts \<longrightarrow>
         batches @ kp_queue (kv_run C acts p) = published acts)"
  proof (cases "kv_healthy C acts \<and> length (published acts) \<le> KV_QUEUE \<and> KvDropSender \<notin> set acts")
    case True
    then show ?thesis
      using kv_healthy_run [of C acts p] p by fastforce
  next
    case False
    then show ?thesis using kv_run_numbered [of C p "[]" "[]" acts] p by auto
  qed
qed

definition demo_kv_config :: kv_events_config where
  "demo_kv_config = \<lparr>kc_enabled = True, kc_endpoint = ''tcp://*:5557'', kc_topic = ''kv@pod@model''\<rparr>"

theorem kv_feed_in_order_witness:
  "\<exists>batches. numbered demo_wire (kv_run demo_wire [KvPublish [AllCleared], KvRound \<lparr>kr_now = 0, kr_cancelled = False, kr_send_ok = True\<rparr>]
       (the (kv_spawn demo_kv_config))) batches \<and> batches = [[AllCleared]]"
proof -
  let ?acts = "[KvPublish [AllCleared], KvRound \<lparr>kr_now = 0, kr_cancelled = False, kr_send_ok = True\<rparr>]"
  have spawn: "kv_spawn demo_kv_config = Some (the (kv_spawn demo_kv_config))"
    by (simp add: kv_spawn_def demo_kv_config_def)
  have "kp_queue (kv_run demo_wire ?acts (the (kv_spawn demo_kv_config))) = []"
    by (simp add: kv_run_def kv_spawn_def demo_kv_config_def kv_publish_def KV_QUEUE_def kv_step_def kv_send_def
        encode_batch_def err_context_def demo_wire_def)
  moreover have "kv_healthy demo_wire ?acts" "published ?acts = [[AllCleared]]" "KvDropSender \<notin> set ?acts"
    by (simp_all add: kv_healthy_def demo_wire_def published_def)
  ultimately show ?thesis
    using kv_feed_in_order [OF spawn, of demo_wire ?acts AllCleared AllCleared] by (auto simp: KV_QUEUE_def)
qed

section \<open>Registration\<close>

lemma ready_keys:
  "ready_response_keys (Inr (ready_msgpack r)) = Inr (map fst (ready_entries r))"
  by (simp add: ready_msgpack_def ready_entries_def)

text \<open>The registration of an engine passes the schema check against a recorded one exactly when every
  string key the recorded engine sent is among the 23 keys of the response, whatever the options; and
  what it advertises is consistent: LoRA support with a positive cap, a KV capacity of the blocks
  times their size, and a rank and an instance name of this engine.\<close>

theorem registration_conforms:
  assumes "wc_unpack C recorded = Inr (MMap kvs)"
    and "wc_pack C (ready_msgpack (ready_response_of cfg ver engines idx)) = Inr bytes"
    and "wc_unpack C bytes = Inr (ready_msgpack (ready_response_of cfg ver engines idx))"
  shows "(assert_ready_response_schema (wc_unpack C) recorded
      (ready_encode C (ready_response_of cfg ver engines idx)) = Inr () \<longleftrightarrow>
      (\<forall>k v s. (k, v) \<in> set kvs \<longrightarrow> msgpack_as_str k = Some s \<longrightarrow>
         s \<in> set (map fst (ready_entries (ready_response_of cfg ver engines idx))))) \<and>
    distinct (map fst (ready_entries (ready_response_of cfg ver engines idx))) \<and>
    length (ready_entries (ready_response_of cfg ver engines idx)) = 23 \<and>
    (sr_supports_lora (ready_response_of cfg ver engines idx) \<longleftrightarrow>
      0 < sr_max_loras (ready_response_of cfg ver engines idx)) \<and>
    sr_kv_cache_size_tokens (ready_response_of cfg ver engines idx) =
      Some (sr_num_gpu_blocks (ready_response_of cfg ver engines idx) * sr_block_size (ready_response_of cfg ver engines idx))"
proof (intro conjI)
  let ?r = "ready_response_of cfg ver engines idx"
  let ?recorded = "concat (map (\<lambda>(k, v). case msgpack_as_str k of None \<Rightarrow> [] | Some s \<Rightarrow> [s]) kvs)"
  have "assert_ready_response_schema (wc_unpack C) recorded (ready_encode C ?r) =
      (if missing_ready_keys ?recorded (map fst (ready_entries ?r)) \<noteq> []
       then Inl ''ready-response schema drift'' else Inr ())"
    using assms by (simp add: assert_ready_response_schema_def ready_encode_def err_context_def bind_result_def ready_keys)
  then have "assert_ready_response_schema (wc_unpack C) recorded (ready_encode C ?r) = Inr () \<longleftrightarrow>
      missing_ready_keys ?recorded (map fst (ready_entries ?r)) = []"
    by simp
  also have "\<dots> \<longleftrightarrow> (\<forall>s \<in> set ?recorded. s \<in> set (map fst (ready_entries ?r)))"
    by (simp only: missing_ready_keys_def filter_empty_conv not_not)
  also have "\<dots> \<longleftrightarrow> (\<forall>k v s. (k, v) \<in> set kvs \<longrightarrow> msgpack_as_str k = Some s \<longrightarrow> s \<in> set (map fst (ready_entries ?r)))"
    by (fastforce split: option.splits)
  finally show "assert_ready_response_schema (wc_unpack C) recorded (ready_encode C ?r) = Inr () \<longleftrightarrow>
      (\<forall>k v s. (k, v) \<in> set kvs \<longrightarrow> msgpack_as_str k = Some s \<longrightarrow> s \<in> set (map fst (ready_entries ?r)))" .
  show "distinct (map fst (ready_entries ?r))" "length (ready_entries ?r) = 23"
    by (simp_all add: ready_entries_def)
  show "sr_supports_lora ?r \<longleftrightarrow> 0 < sr_max_loras ?r"
    "sr_kv_cache_size_tokens ?r = Some (sr_num_gpu_blocks ?r * sr_block_size ?r)"
    by (simp_all add: ready_response_of_def Let_def)
qed

definition demo_registration :: sim_ready_response where
  "demo_registration = ready_response_of demo_opt ''v0.33.0'' 1 0"

definition registration_codec :: wire_codec where
  "registration_codec = demo_wire
     \<lparr>wc_pack := (\<lambda>_. Inr [0]),
      wc_unpack := (\<lambda>b. if b = [0] then Inr (ready_msgpack demo_registration)
                        else Inr (MMap [(MString ''dtype'', MNil), (MString ''kv_cache_dtype'', MNil)]))\<rparr>"

theorem registration_conforms_witness:
  "assert_ready_response_schema (wc_unpack registration_codec) [] (ready_encode registration_codec demo_registration) \<noteq> Inr ()"
proof -
  have unpack: "wc_unpack registration_codec [] = Inr (MMap [(MString ''dtype'', MNil), (MString ''kv_cache_dtype'', MNil)])"
    and pack: "wc_pack registration_codec (ready_msgpack (ready_response_of demo_opt ''v0.33.0'' 1 0)) = Inr [0]"
    and again: "wc_unpack registration_codec [0] = Inr (ready_msgpack (ready_response_of demo_opt ''v0.33.0'' 1 0))"
    by (simp_all add: registration_codec_def demo_registration_def)
  have "''kv_cache_dtype'' \<notin> set (map fst (ready_entries demo_registration))" by (simp add: ready_entries_def)
  then show ?thesis
    using registration_conforms [OF unpack pack again] unfolding demo_registration_def by auto
qed

text \<open>The sockets registered by a list of actions.\<close>

fun registered :: "handshake_action list \<Rightarrow> string list" where
  "registered [] = []"
| "registered (Register a # acts) = a # registered acts"
| "registered (_ # acts) = registered acts"

lemma registered_append: "registered (xs @ ys) = registered xs @ registered ys"
  by (induction xs rule: registered.induct) simp_all

lemma registered_data:
  "length ins = length outs \<Longrightarrow>
   registered (concat (map (\<lambda>(i, u). data_socket_actions i u) (zip ins outs))) = ins \<and>
   SendReady \<notin> set (concat (map (\<lambda>(i, u). data_socket_actions i u) (zip ins outs)))"
  by (induction ins outs rule: list_induct2) (simp_all add: data_socket_actions_def registered_append)

lemma registered_coordinator:
  "coordinator_actions init = Inr acts \<Longrightarrow> registered acts = [] \<and> SendReady \<notin> set acts"
  by (auto simp: coordinator_actions_def split: option.splits)

text \<open>READY is sent exactly when the handshake succeeds, as its last message, after every input
  address of INIT has been registered once, in order; every check that fails - no or several INIT
  frames, no inputs, unpaired outputs, one coordinator address without the other, a wrong marker -
  ends the handshake before it.\<close>

theorem ready_sent_last:
  assumes "connect_to_frontend init_frames ready_marker = (acts, res)"
  shows "(SendReady \<in> set acts \<longleftrightarrow> res = Inr ()) \<and>
    (res = Inr () \<longrightarrow> last acts = SendReady \<and>
       (\<exists>init. init_frames = [Inr init] \<and> registered acts = ia_inputs init \<and> ia_inputs init \<noteq> [] \<and>
          length (ia_outputs init) = length (ia_inputs init) \<and>
          (ia_coordinator_input init = None \<longleftrightarrow> ia_coordinator_output init = None)))"
proof (cases "\<exists>init. init_frames = [Inr init] \<and> ia_inputs init \<noteq> [] \<and> length (ia_inputs init) = length (ia_outputs init)")
  case False
  then show ?thesis
    using assms by (auto simp: connect_to_frontend_def split: list.splits sum.splits if_splits)
next
  case True
  then obtain init where init: "init_frames = [Inr init]" "ia_inputs init \<noteq> []"
      "length (ia_inputs init) = length (ia_outputs init)"
    by blast
  note data = registered_data [OF init(3)]
  show ?thesis
  proof (cases "coordinator_actions init")
    case (Inl e)
    then show ?thesis using assms init data by (auto simp: connect_to_frontend_def Let_def)
  next
    case (Inr coordinator)
    have "ia_coordinator_input init = None \<longleftrightarrow> ia_coordinator_output init = None"
      using Inr by (auto simp: coordinator_actions_def split: option.splits)
    then show ?thesis
      using assms init data registered_coordinator [OF Inr] Inr
      by (auto simp: connect_to_frontend_def Let_def registered_append split: if_splits)
  qed
qed

theorem ready_sent_last_witness:
  "registered (fst (connect_to_frontend [Inr \<lparr>ia_inputs = [''tcp://a:1'', ''tcp://b:1''],
     ia_outputs = [''tcp://a:2'', ''tcp://b:2''], ia_coordinator_input = None, ia_coordinator_output = None\<rparr>] True)) =
   [''tcp://a:1'', ''tcp://b:1'']"
proof -
  let ?init = "\<lparr>ia_inputs = [''tcp://a:1'', ''tcp://b:1''], ia_outputs = [''tcp://a:2'', ''tcp://b:2''],
     ia_coordinator_input = None, ia_coordinator_output = None\<rparr>"
  obtain acts res where run: "connect_to_frontend [Inr ?init] True = (acts, res)"
    by (cases "connect_to_frontend [Inr ?init] True")
  moreover have "res = Inr ()"
    using run by (simp add: connect_to_frontend_def coordinator_actions_def Let_def)
  ultimately show ?thesis using ready_sent_last [OF run] by auto
qed

end
