(* ===== verification/Convert.thy ===== *)
theory Convert
  imports Calibrate Release
begin

text \<open>
  The conversion tools: guidellm reports to traces and the summary of a trace
  (\<^verbatim>\<open>crates/sim-trace/src/trace_convert.rs\<close>), dataset files
  (\<^verbatim>\<open>crates/sim-trace/src/dataset_convert.rs\<close>), the deployment fingerprint
  (\<^verbatim>\<open>crates/sim-trace/src/config_hash.rs\<close>) and the header the tap stamps into a capture
  (\<^verbatim>\<open>crates/sim-tap/src/tap.rs\<close>). The JSON parser is the codec of the trace files, SHA-256 a
  function of the model's callers; a report arrives as the JSON value of the file.
\<close>

section \<open>Guidellm reports\<close>

record guidellm_args =
  ga_target :: "string option"
  ga_model :: "string option"

record guidellm_strategy =
  gs_type_name :: string
  gs_streams :: "nat option"
  gs_max_concurrency :: "nat option"

record guidellm_request_stats =
  gr_prompt_tokens :: "nat option"
  gr_output_tokens :: "nat option"
  gr_time_to_first_token_ms :: "f64 option"
  gr_inter_token_latency_ms :: "f64 option"

record guidellm_benchmark =
  gb_strategy :: guidellm_strategy
  gb_successful :: "guidellm_request_stats list"

record guidellm_report =
  gu_args :: "guidellm_args option"
  gu_benchmarks :: "guidellm_benchmark list"

text \<open>A struct inside a field: its decoding error is the field's.\<close>

definition decoded :: "(json \<Rightarrow> 'a result) \<Rightarrow> json \<Rightarrow> 'a option" where
  "decoded dec j = (case dec j of Inl _ \<Rightarrow> None | Inr v \<Rightarrow> Some v)"

definition args_of_json :: "json \<Rightarrow> guidellm_args result" where
  "args_of_json j =
     bind_result (json_entries j) (\<lambda>_.
     bind_result (option_field ''target'' json_as_str j) (\<lambda>target.
     bind_result (option_field ''model'' json_as_str j) (\<lambda>model.
       Inr \<lparr>ga_target = target, ga_model = model\<rparr>)))"

definition strategy_of_json :: "json \<Rightarrow> guidellm_strategy result" where
  "strategy_of_json j =
     bind_result (json_entries j) (\<lambda>_.
     bind_result (req_field ''type_'' json_as_str j) (\<lambda>type_name.
     bind_result (option_field ''streams'' json_as_u64 j) (\<lambda>streams.
     bind_result (option_field ''max_concurrency'' json_as_u64 j) (\<lambda>max_concurrency.
       Inr \<lparr>gs_type_name = type_name, gs_streams = streams, gs_max_concurrency = max_concurrency\<rparr>))))"

definition request_stats_of_json :: "json \<Rightarrow> guidellm_request_stats result" where
  "request_stats_of_json j =
     bind_result (json_entries j) (\<lambda>_.
     bind_result (option_field ''prompt_tokens'' json_as_u64 j) (\<lambda>prompt_tokens.
     bind_result (option_field ''output_tokens'' json_as_u64 j) (\<lambda>output_tokens.
     bind_result (option_field ''time_to_first_token_ms'' json_as_f64 j) (\<lambda>ttft.
     bind_result (option_field ''inter_token_latency_ms'' json_as_f64 j) (\<lambda>itl.
       Inr \<lparr>gr_prompt_tokens = prompt_tokens, gr_output_tokens = output_tokens,
            gr_time_to_first_token_ms = ttft, gr_inter_token_latency_ms = itl\<rparr>)))))"

definition config_strategy_of_json :: "json \<Rightarrow> guidellm_strategy result" where
  "config_strategy_of_json j = bind_result (json_entries j) (\<lambda>_. req_field ''strategy'' (decoded strategy_of_json) j)"

definition breakdown_of_json :: "json \<Rightarrow> guidellm_request_stats list result" where
  "breakdown_of_json j =
     bind_result (json_entries j) (\<lambda>_.
       default_field ''successful'' [] (json_as_list (decoded request_stats_of_json)) j)"

definition benchmark_of_json :: "json \<Rightarrow> guidellm_benchmark result" where
  "benchmark_of_json j =
     bind_result (json_entries j) (\<lambda>_.
     bind_result (req_field ''config'' (decoded config_strategy_of_json) j) (\<lambda>strategy.
     bind_result (req_field ''requests'' (decoded breakdown_of_json) j) (\<lambda>successful.
       Inr \<lparr>gb_strategy = strategy, gb_successful = successful\<rparr>)))"

definition report_of_json :: "json \<Rightarrow> guidellm_report result" where
  "report_of_json j =
     bind_result (json_entries j) (\<lambda>_.
     bind_result (option_field ''args'' (decoded args_of_json) j) (\<lambda>args.
     bind_result (req_field ''benchmarks'' (json_as_list (decoded benchmark_of_json)) j) (\<lambda>benchmarks.
       Inr \<lparr>gu_args = args, gu_benchmarks = benchmarks\<rparr>)))"

section \<open>Conversion\<close>

record convert_options =
  co_model :: "string option"
  co_gpu :: "string option"
  co_tp :: "nat option"

definition or_else :: "'a option \<Rightarrow> 'a option \<Rightarrow> 'a option" where
  "or_else a b = (case a of None \<Rightarrow> b | Some _ \<Rightarrow> a)"

text \<open>The concurrency of a strategy, and whether a warning says it was defaulted.\<close>

definition derive_concurrency :: "guidellm_strategy \<Rightarrow> nat \<times> bool" where
  "derive_concurrency s =
     (if gs_type_name s = ''concurrent''
      then (case gs_streams s of None \<Rightarrow> (1, True) | Some n \<Rightarrow> (n, False))
      else if gs_type_name s = ''synchronous'' then (1, False)
      else if gs_type_name s = ''throughput''
      then (case gs_max_concurrency s of None \<Rightarrow> (1, True) | Some n \<Rightarrow> (n, False))
      else (1, True))"

definition required :: "string \<Rightarrow> 'a option \<Rightarrow> 'a result" where
  "required what x = (case x of None \<Rightarrow> Inl (what @ '' is null'') | Some v \<Rightarrow> Inr v)"

definition convert_request :: "nat \<Rightarrow> guidellm_request_stats \<Rightarrow> trace_record result" where
  "convert_request concurrency r =
     bind_result (required ''prompt_tokens'' (gr_prompt_tokens r)) (\<lambda>prompt_tokens.
     bind_result (required ''output_tokens'' (gr_output_tokens r)) (\<lambda>output_tokens.
     bind_result (required ''time_to_first_token_ms'' (gr_time_to_first_token_ms r)) (\<lambda>ttft.
       Inr (default_record
         \<lparr>tr_prompt_tokens := prompt_tokens, tr_cached_tokens := 0, tr_output_tokens := output_tokens,
          tr_ttft_ms := ttft, tr_itl_ms := None,
          tr_itl_summary :=
            (if output_tokens > 1
             then Some \<lparr>mean_ms = (case gr_inter_token_latency_ms r of None \<Rightarrow> 0 | Some m \<Rightarrow> m),
                        itl_count = output_tokens - 1\<rparr>
             else None),
          tr_concurrency := concurrency, tr_arrival_ms := None, tr_itl_ctx := None\<rparr>))))"

fun collect_results :: "'a result list \<Rightarrow> 'a list result" where
  "collect_results [] = Inr []"
| "collect_results (r # rs) =
     bind_result r (\<lambda>x. bind_result (collect_results rs) (\<lambda>xs. Inr (x # xs)))"

definition report_meta :: "guidellm_report \<Rightarrow> convert_options \<Rightarrow> trace_meta" where
  "report_meta report opts =
     (let from_args = (\<lambda>f. case gu_args report of None \<Rightarrow> None | Some a \<Rightarrow> f a);
          report_model = or_else (from_args ga_model) (from_args ga_target)
      in default_meta\<lparr>tm_model := or_else (co_model opts) report_model, tm_gpu := co_gpu opts,
                      tm_tp := co_tp opts, tm_source := Some ''guidellm''\<rparr>)"

definition convert_report :: "guidellm_report \<Rightarrow> convert_options \<Rightarrow> (trace_meta \<times> trace_record list) result" where
  "convert_report report opts =
     (if gu_benchmarks report = [] then Inl ''guidellm report contains no benchmarks''
      else bind_result
        (collect_results
          (concat (map (\<lambda>b. map (convert_request (fst (derive_concurrency (gb_strategy b)))) (gb_successful b))
            (gu_benchmarks report))))
        (\<lambda>records. Inr (report_meta report opts, records)))"

definition convert_guidellm ::
  "json_codec \<Rightarrow> string \<Rightarrow> convert_options \<Rightarrow> (trace_meta \<times> trace_record list) result" where
  "convert_guidellm C report_json opts =
     bind_result (err_context ''parsing guidellm report JSON'' (bind_result (jc_parse C report_json) report_of_json))
       (\<lambda>report. convert_report report opts)"

definition write_conversion :: "json_codec \<Rightarrow> trace_meta \<Rightarrow> trace_record list \<Rightarrow> string list" where
  "write_conversion C m records = write_trace C m records"

section \<open>Summaries\<close>

record bucket_stats =
  bs_concurrency :: nat
  bs_count :: nat
  bs_prompt_min :: nat
  bs_prompt_max :: nat
  bs_output_min :: nat
  bs_output_max :: nat
  bs_ttft_p50 :: f64
  bs_ttft_p90 :: f64
  bs_ttft_p99 :: f64
  bs_itl_p50 :: f64
  bs_itl_p90 :: f64
  bs_itl_p99 :: f64

text \<open>The converter's own percentile, nearest rank with a saturating index.\<close>

definition tc_percentile :: "f64 list \<Rightarrow> f64 \<Rightarrow> f64" where
  "tc_percentile xs pct =
     (if xs = [] then 0
      else let idx = nat \<lceil>(pct / 100) * real (length xs)\<rceil>;
               idx = min (idx - 1) (length xs - 1)
           in xs ! idx)"

definition group_by_concurrency :: "trace_record list \<Rightarrow> (nat, trace_record list) btree" where
  "group_by_concurrency records =
     fold (\<lambda>r m. bt_insert (tr_concurrency r)
             ((case bt_get m (tr_concurrency r) of None \<Rightarrow> [] | Some rs \<Rightarrow> rs) @ [r]) m) records []"

fun pooled_itls :: "trace_record list \<Rightarrow> f64 list" where
  "pooled_itls [] = []"
| "pooled_itls (r # rs) =
     (case tr_itl_ms r of
        Some gaps \<Rightarrow> gaps @ pooled_itls rs
      | None \<Rightarrow>
          (case tr_itl_summary r of
             Some s \<Rightarrow> map (\<lambda>_. mean_ms s) [0..<itl_count s] @ pooled_itls rs
           | None \<Rightarrow> pooled_itls rs))"

definition min_or_zero :: "nat list \<Rightarrow> nat" where
  "min_or_zero xs = (if xs = [] then 0 else Min (set xs))"

definition max_or_zero :: "nat list \<Rightarrow> nat" where
  "max_or_zero xs = (if xs = [] then 0 else Max (set xs))"

definition bucket_stats_of :: "nat \<Rightarrow> trace_record list \<Rightarrow> bucket_stats" where
  "bucket_stats_of conc recs =
     (let ttfts = sort (map tr_ttft_ms recs); itls = sort (pooled_itls recs)
      in \<lparr>bs_concurrency = conc, bs_count = length recs,
          bs_prompt_min = min_or_zero (map tr_prompt_tokens recs),
          bs_prompt_max = max_or_zero (map tr_prompt_tokens recs),
          bs_output_min = min_or_zero (map tr_output_tokens recs),
          bs_output_max = max_or_zero (map tr_output_tokens recs),
          bs_ttft_p50 = tc_percentile ttfts 50, bs_ttft_p90 = tc_percentile ttfts 90,
          bs_ttft_p99 = tc_percentile ttfts 99, bs_itl_p50 = tc_percentile itls 50,
          bs_itl_p90 = tc_percentile itls 90, bs_itl_p99 = tc_percentile itls 99\<rparr>)"

definition summarize_records :: "trace_record list \<Rightarrow> bucket_stats list result" where
  "summarize_records records =
     (if records = [] then Inl ''trace contains no records''
      else Inr (map (\<lambda>(conc, recs). bucket_stats_of conc recs) (group_by_concurrency records)))"

definition summarize_trace :: "json_codec \<Rightarrow> line_item list \<Rightarrow> (trace_meta \<times> bucket_stats list) result" where
  "summarize_trace C items =
     bind_result (read_trace C items) (\<lambda>(m, records).
       bind_result (summarize_records records) (\<lambda>rows. Inr (m, rows)))"

section \<open>Dataset files\<close>

definition lower_char :: "char \<Rightarrow> char" where
  "lower_char c =
     (let n = of_char c :: nat in if 65 \<le> n \<and> n \<le> 90 then char_of (n + 32) else c)"

text \<open>\<^verbatim>\<open>Path::extension\<close> in lower case, empty when there is none.\<close>

definition path_extension :: "string \<Rightarrow> string" where
  "path_extension path =
     (let name = file_name path; ext = rev (takeWhile (\<lambda>c. c \<noteq> CHR ''.'') (rev name))
      in if length name \<le> length ext + 1 then [] else map lower_char ext)"

definition first_string_field :: "json \<Rightarrow> string list \<Rightarrow> string option" where
  "first_string_field row names =
     (case concat (map (\<lambda>k. case json_get k row of None \<Rightarrow> []
                            | Some v \<Rightarrow> (case json_as_str v of None \<Rightarrow> [] | Some s \<Rightarrow> [s])) names) of
        [] \<Rightarrow> None | s # _ \<Rightarrow> Some s)"

fun join_lines :: "string list \<Rightarrow> string" where
  "join_lines [] = []"
| "join_lines [s] = s"
| "join_lines (s # t # rest) = s @ [newline] @ join_lines (t # rest)"

definition str_of :: "string \<Rightarrow> json \<Rightarrow> string" where
  "str_of k j =
     (case json_get k j of None \<Rightarrow> []
      | Some v \<Rightarrow> (case json_as_str v of None \<Rightarrow> [] | Some s \<Rightarrow> s))"

definition chat_part :: "bool \<Rightarrow> json \<Rightarrow> string list" where
  "chat_part user_only msg =
     (case json_entries msg of
        Inl _ \<Rightarrow> []
      | Inr _ \<Rightarrow>
          let role = map lower_char (str_of ''role'' msg); text = str_of ''content'' msg
          in if text = [] then []
             else if user_only \<and> (role = ''user'' \<or> role = ''system'') then [text]
             else if \<not> user_only \<and> role = ''assistant'' then [text]
             else [])"

definition format_chat_messages :: "json list \<Rightarrow> bool \<Rightarrow> string" where
  "format_chat_messages messages user_only = join_lines (concat (map (chat_part user_only) messages))"

definition json_messages :: "json \<Rightarrow> json list option" where
  "json_messages row = (case json_get ''messages'' row of None \<Rightarrow> None | Some v \<Rightarrow> json_as_array v)"

definition extract_prompt :: "json \<Rightarrow> string result" where
  "extract_prompt row =
     bind_result (err_context ''dataset row must be a JSON object'' (json_entries row)) (\<lambda>_.
       case first_string_field row [''prompt'', ''instruction'', ''question'', ''query'', ''input_text'', ''context''] of
         Some text \<Rightarrow>
           (case first_string_field row [''input'', ''inputs''] of
              None \<Rightarrow> Inr text
            | Some input \<Rightarrow> if input = [] then Inr text else Inr (text @ [newline] @ input))
       | None \<Rightarrow>
           (case json_messages row of
              Some messages \<Rightarrow> Inr (format_chat_messages messages True)
            | None \<Rightarrow>
                (case first_string_field row [''text'', ''content''] of
                   Some text \<Rightarrow> Inr text
                 | None \<Rightarrow> Inl ''dataset row has no recognizable prompt field'')))"

definition extract_response :: "json \<Rightarrow> string result" where
  "extract_response row =
     bind_result (err_context ''dataset row must be a JSON object'' (json_entries row)) (\<lambda>_.
       case first_string_field row [''output'', ''response'', ''completion'', ''answer'', ''target'', ''label''] of
         Some text \<Rightarrow> Inr text
       | None \<Rightarrow>
           (let assistant = (case json_messages row of None \<Rightarrow> [] | Some messages \<Rightarrow> format_chat_messages messages False)
            in if assistant \<noteq> [] then Inr assistant
               else Inl ''dataset row has no recognizable response field''))"

definition looks_like_jsonl :: "string \<Rightarrow> bool" where
  "looks_like_jsonl text =
     (case filter (\<lambda>l. l \<noteq> []) (map trim (str_lines text)) of
        first # _ # _ \<Rightarrow> str_starts_with [CHR 0x7B] first
      | _ \<Rightarrow> False)"

text \<open>The array of the first known split, else the first array of the object, in key order.\<close>

fun is_json_array :: "json \<Rightarrow> bool" where
  "is_json_array (JArray _) = True"
| "is_json_array _ = False"

definition split_rows :: "json \<Rightarrow> json list option" where
  "split_rows j =
     (case concat (map (\<lambda>k. case json_get k j of None \<Rightarrow> []
                            | Some v \<Rightarrow> (case json_as_array v of None \<Rightarrow> [] | Some rows \<Rightarrow> [rows]))
                    [''train'', ''validation'', ''test'', ''data'']) of
        [] \<Rightarrow> None | rows # _ \<Rightarrow> Some rows)"

fun rows_from_json_value :: "json \<Rightarrow> json list result" where
  "rows_from_json_value (JArray rows) = Inr rows"
| "rows_from_json_value (JObject m) =
     (case split_rows (JObject m) of
        Some rows \<Rightarrow> Inr rows
      | None \<Rightarrow>
          (case List.find (\<lambda>(_, v). is_json_array v) m of
             Some (_, JArray rows) \<Rightarrow> Inr rows
           | _ \<Rightarrow> Inl ''JSON dataset object has no array split to convert''))"
| "rows_from_json_value _ = Inl ''JSON dataset must be an array or split object''"

fun jsonl_rows :: "json_codec \<Rightarrow> nat \<Rightarrow> string list \<Rightarrow> json list result" where
  "jsonl_rows C n [] = Inr []"
| "jsonl_rows C n (l # ls) =
     (if trim l = [] then jsonl_rows C (Suc n) ls
      else bind_result (err_context (line_msg n ''invalid JSON'') (jc_parse C (trim l))) (\<lambda>v.
           bind_result (jsonl_rows C (Suc n) ls) (\<lambda>vs. Inr (v # vs))))"

definition parse_json_dataset :: "json_codec \<Rightarrow> string \<Rightarrow> string \<Rightarrow> json list result" where
  "parse_json_dataset C path text =
     (if text = [] then Inr []
      else if path_extension path = ''jsonl'' \<or> looks_like_jsonl text then jsonl_rows C 1 (str_lines text)
      else bind_result (err_context ''parsing JSON dataset'' (jc_parse C text)) rows_from_json_value)"

text \<open>A CSV row as an object of strings; the reader of the file is the \<^verbatim>\<open>csv\<close> crate.\<close>

definition csv_row :: "string list \<Rightarrow> string list \<Rightarrow> json" where
  "csv_row headers cells =
     JObject (fold (\<lambda>(h, v) obj. bt_insert h (JString v) obj) (zip headers cells) [])"

definition csv_rows :: "string list \<Rightarrow> string list result list \<Rightarrow> json list result" where
  "csv_rows headers records =
     bind_result (collect_results (map (err_context ''reading CSV row'') records))
       (\<lambda>rows. Inr (map (csv_row headers) rows))"

text \<open>The readers by extension; the parsed CSV and parquet contents are given.\<close>

definition parse_dataset ::
  "json_codec \<Rightarrow> (string list \<times> string list result list) result \<Rightarrow> json list result \<Rightarrow>
   string \<Rightarrow> string \<Rightarrow> json list result" where
  "parse_dataset C csv parquet path text =
     (let ext = path_extension path
      in if ext = ''json'' \<or> ext = ''jsonl'' then parse_json_dataset C path text
         else if ext = ''csv'' then bind_result csv (\<lambda>(headers, records). csv_rows headers records)
         else if ext = ''parquet'' then parquet
         else Inl ''unsupported dataset extension'')"

definition looks_like_trace_record :: "json \<Rightarrow> bool" where
  "looks_like_trace_record v \<longleftrightarrow>
     (case json_get ''ttft_ms'' v of None \<Rightarrow> False | Some t \<Rightarrow> json_as_f64 t \<noteq> None) \<and>
     json_get ''prompt_tokens'' v \<noteq> None \<and> json_get ''output_tokens'' v \<noteq> None"

definition first_is_trace_record :: "json list \<Rightarrow> bool" where
  "first_is_trace_record rows = (case rows of [] \<Rightarrow> False | r # _ \<Rightarrow> looks_like_trace_record r)"

fun looks_like_trace_json :: "json \<Rightarrow> bool" where
  "looks_like_trace_json (JArray rows) = first_is_trace_record rows"
| "looks_like_trace_json (JObject m) =
     (case split_rows (JObject m) of None \<Rightarrow> False | Some rows \<Rightarrow> first_is_trace_record rows)"
| "looks_like_trace_json _ = False"

fun first_line_is_dataset :: "json_codec \<Rightarrow> string list \<Rightarrow> bool result" where
  "first_line_is_dataset C [] = Inr False"
| "first_line_is_dataset C (l # ls) =
     (if trim l = [] then first_line_is_dataset C ls
      else bind_result (err_context ''parsing first line'' (jc_parse C (trim l))) (\<lambda>v.
           Inr (\<not> looks_like_trace_record v \<and> json_get ''meta'' v = None)))"

definition is_dataset_file :: "json_codec \<Rightarrow> string \<Rightarrow> string \<Rightarrow> bool result" where
  "is_dataset_file C path text =
     (let ext = path_extension path
      in if ext = ''gz'' then Inr False
         else if ext = ''csv'' \<or> ext = ''parquet'' then Inr True
         else if ext \<noteq> ''json'' \<and> ext \<noteq> ''jsonl'' then Inr False
         else if text = [] then Inr False
         else if ext = ''jsonl'' \<or> looks_like_jsonl text then first_line_is_dataset C (str_lines text)
         else bind_result (err_context ''parsing JSON file'' (jc_parse C text)) (\<lambda>v.
                if json_get ''meta'' v \<noteq> None \<or> json_get ''benchmarks'' v \<noteq> None then Inr False
                else Inr (\<not> looks_like_trace_json v)))"

section \<open>The deployment fingerprint\<close>

record config_fingerprint =
  cf_gpu :: string
  cf_vllm_tag :: string
  cf_engine_config :: string

definition SCHEME :: string where
  "SCHEME = ''config-fingerprint-v3''"

definition canonical :: "config_fingerprint \<Rightarrow> string" where
  "canonical f =
     SCHEME @ [newline] @ ''gpu='' @ cf_gpu f @ [newline] @ ''vllm_tag='' @ cf_vllm_tag f @ [newline] @
     ''engine_config='' @ cf_engine_config f @ [newline]"

definition hex_digit :: "nat \<Rightarrow> char" where
  "hex_digit d = (if d < 10 then char_of (48 + d) else char_of (87 + d))"

definition hex_encode :: "u8 list \<Rightarrow> string" where
  "hex_encode bytes = concat (map (\<lambda>b. [hex_digit (unat b div 16), hex_digit (unat b mod 16)]) bytes)"

definition fingerprint_hash :: "(string \<Rightarrow> u8 list) \<Rightarrow> config_fingerprint \<Rightarrow> string" where
  "fingerprint_hash sha256 f = hex_encode (sha256 (canonical f))"

section \<open>The header of a capture\<close>

record tap_meta_config =
  mc_model :: string
  mc_gpu :: "string option"
  mc_tp :: "nat option"
  mc_max_num_seqs :: "nat option"
  mc_block_size :: nat
  mc_config_hash :: "string option"
  mc_vllm_tag :: "string option"
  mc_engine_config :: string

definition build_meta :: "(string \<Rightarrow> u8 list) \<Rightarrow> tap_meta_config \<Rightarrow> string \<Rightarrow> u8 list \<Rightarrow> trace_meta" where
  "build_meta sha256 cfg engine_vllm_version ready_response_payload =
     default_meta
       \<lparr>tm_source := Some ''tap'',
        tm_model := (if mc_model cfg = [] then None else Some (mc_model cfg)),
        tm_gpu := mc_gpu cfg, tm_tp := mc_tp cfg, tm_max_num_seqs := mc_max_num_seqs cfg,
        tm_block_size := Some (mc_block_size cfg),
        tm_config_hash :=
          (case mc_config_hash cfg of
             Some h \<Rightarrow> Some h
           | None \<Rightarrow> Some (fingerprint_hash sha256
               \<lparr>cf_gpu = (case mc_gpu cfg of None \<Rightarrow> [] | Some g \<Rightarrow> g),
                cf_vllm_tag = (case mc_vllm_tag cfg of None \<Rightarrow> engine_vllm_version | Some t \<Rightarrow> t),
                cf_engine_config = mc_engine_config cfg\<rparr>)),
        tm_vllm_version := Some engine_vllm_version,
        tm_ready_response_hex := Some (hex_encode ready_response_payload)\<rparr>"

definition guard_vllm_version :: "string \<Rightarrow> string \<Rightarrow> unit result" where
  "guard_vllm_version expected_tag engine_reported =
     (case (minor_line expected_tag, minor_line engine_reported) of
        (Some want, Some got) \<Rightarrow> if want = got then Inr () else Inl ''vLLM line mismatch''
      | _ \<Rightarrow> Inr ())"

text \<open>What a capture writes first: the guard, when a tag is set, then the header line.\<close>

definition capture_header ::
  "(string \<Rightarrow> u8 list) \<Rightarrow> tap_meta_config \<Rightarrow> string \<Rightarrow> u8 list \<Rightarrow> trace_meta result" where
  "capture_header sha256 cfg engine_vllm_version payload =
     bind_result
       (case mc_vllm_tag cfg of None \<Rightarrow> Inr () | Some tag \<Rightarrow> guard_vllm_version tag engine_vllm_version)
       (\<lambda>_. Inr (build_meta sha256 cfg engine_vllm_version payload))"

end
