(* ===== verification/Remote.thy ===== *)
theory Remote
  imports Convert
begin

text \<open>
  Trace locations and their transfer: the URI type of \<^verbatim>\<open>crates/sim-s3/src/lib.rs\<close>, the staging of
  remote replay inputs and the config-hash gate of \<^verbatim>\<open>src/src/lib.rs\<close>, and the end of a recording in
  \<^verbatim>\<open>src/src/record.rs\<close>. Strings are UTF-8 bytes. The URL parser (crate \<^verbatim>\<open>url\<close>), the hash of the
  standard hasher and the object store are parameters; the bucket is a map from object names to
  bytes. A panic is an error.
\<close>

section \<open>Locations\<close>

text \<open>A byte index where a UTF-8 string may be cut.\<close>

definition is_char_boundary :: "string \<Rightarrow> nat \<Rightarrow> bool" where
  "is_char_boundary s i \<longleftrightarrow>
     i = 0 \<or> i = length s \<or>
     (i < length s \<and> \<not> (128 \<le> (of_char (s ! i) :: nat) \<and> (of_char (s ! i) :: nat) < 192))"

definition eq_ignore_ascii_case :: "string \<Rightarrow> string \<Rightarrow> bool" where
  "eq_ignore_ascii_case a b \<longleftrightarrow> map lower_char a = map lower_char b"

definition is_remote :: "string \<Rightarrow> bool result" where
  "is_remote uri =
     (if length uri < 5 then Inr False
      else if \<not> is_char_boundary uri 5 then Inl ''panic: byte index 5 is not a char boundary''
      else Inr (eq_ignore_ascii_case (take 5 uri) ''s3://'' \<or> eq_ignore_ascii_case (take 5 uri) ''hf://''))"

datatype trace_uri = Local string | S3 string string | HuggingFace string string

record url_parts =
  up_scheme :: string
  up_host :: "string option"
  up_path :: string

type_synonym url_parser = "string \<Rightarrow> url_parts result"

definition parse_s3_uri :: "url_parser \<Rightarrow> string \<Rightarrow> (string \<times> string) result" where
  "parse_s3_uri parse_url uri =
     bind_result (err_context ''parsing S3 URI'' (parse_url uri)) (\<lambda>u.
       if up_scheme u \<noteq> ''s3'' then Inl ''expected an s3:// URI''
       else case up_host u of
              None \<Rightarrow> Inl ''S3 URI has no bucket''
            | Some bucket \<Rightarrow>
                if bucket = [] then Inl ''S3 URI has no bucket''
                else let key = dropWhile (\<lambda>c. c = CHR ''/'') (up_path u)
                     in if key = [] then Inl ''S3 URI has no object key'' else Inr (bucket, key))"

fun join_with :: "char \<Rightarrow> string list \<Rightarrow> string" where
  "join_with c [] = []"
| "join_with c [s] = s"
| "join_with c (s # t # rest) = s @ [c] @ join_with c (t # rest)"

definition parse_hf_uri :: "url_parser \<Rightarrow> string \<Rightarrow> (string \<times> string) result" where
  "parse_hf_uri parse_url uri =
     bind_result (err_context ''parsing HuggingFace URI'' (parse_url uri)) (\<lambda>u.
       if up_scheme u \<noteq> ''hf'' then Inl ''expected an hf:// URI''
       else let host = (case up_host u of None \<Rightarrow> [] | Some h \<Rightarrow> if h = [] then [] else [h]);
                path = dropWhile (\<lambda>c. c = CHR ''/'') (up_path u);
                segments = host @ (if path = [] then [] else filter (\<lambda>s. s \<noteq> []) (split_on (CHR ''/'') path))
            in case segments of
                 org # name # s # rest \<Rightarrow>
                   let file = join_with (CHR ''/'') (s # rest)
                   in if file = [] then Inl ''HuggingFace URI has no file path'' else Inr (org @ ''/'' @ name, file)
               | _ \<Rightarrow> Inl ''HuggingFace URI must be hf://org/repo/file'')"

definition uri_from_str :: "url_parser \<Rightarrow> string \<Rightarrow> trace_uri result" where
  "uri_from_str parse_url s =
     bind_result (is_remote s) (\<lambda>remote.
       if \<not> remote then Inr (Local s)
       else if str_starts_with ''s3://'' s \<or> str_starts_with ''S3://'' s
       then bind_result (parse_s3_uri parse_url s) (\<lambda>(bucket, key). Inr (S3 bucket key))
       else if str_starts_with ''hf://'' s \<or> str_starts_with ''HF://'' s
       then bind_result (parse_hf_uri parse_url s) (\<lambda>(repo, file). Inr (HuggingFace repo file))
       else Inl ''unknown remote URI scheme (expected s3:// or hf://)'')"

fun uri_display :: "trace_uri \<Rightarrow> string" where
  "uri_display (Local path) = path"
| "uri_display (S3 bucket key) = ''s3://'' @ bucket @ ''/'' @ key"
| "uri_display (HuggingFace repo file) = ''hf://'' @ repo @ ''/'' @ file"

fun uri_is_remote :: "trace_uri \<Rightarrow> bool" where
  "uri_is_remote (Local _) = False"
| "uri_is_remote _ = True"

fun local_path :: "trace_uri \<Rightarrow> string option" where
  "local_path (Local path) = Some path"
| "local_path _ = None"

definition key_basename :: "string \<Rightarrow> string" where
  "key_basename key =
     (case List.find (\<lambda>s. s \<noteq> []) (rev (split_on (CHR ''/'') key)) of
        None \<Rightarrow> ''trace.jsonl'' | Some s \<Rightarrow> s)"

text \<open>Sixteen lower-case hex digits.\<close>

definition hex16 :: "u64 \<Rightarrow> string" where
  "hex16 h = hex_encode (rev (u64_to_le_bytes h))"

definition scratch_path :: "(string \<Rightarrow> u64) \<Rightarrow> string \<Rightarrow> string \<Rightarrow> string \<Rightarrow> string" where
  "scratch_path hash_of uri key scratch_dir =
     scratch_dir @ ''/'' @ ''sim-s3-'' @ hex16 (hash_of uri) @ ''-'' @ key_basename key"

fun write_path :: "(string \<Rightarrow> u64) \<Rightarrow> string \<Rightarrow> trace_uri \<Rightarrow> string" where
  "write_path hash_of scratch_dir (Local path) = path"
| "write_path hash_of scratch_dir (S3 bucket key) =
     scratch_path hash_of (uri_display (S3 bucket key)) key scratch_dir"
| "write_path hash_of scratch_dir (HuggingFace repo file) =
     scratch_path hash_of (uri_display (HuggingFace repo file)) file scratch_dir"

section \<open>Uploads\<close>

type_synonym object_store = "(string \<times> string) \<Rightarrow> u8 list option"

fun upload :: "unit result \<Rightarrow> trace_uri \<Rightarrow> u8 list \<Rightarrow> object_store \<Rightarrow> unit result \<times> object_store" where
  "upload put (S3 bucket key) bytes store =
     (case put of Inl e \<Rightarrow> (Inl ''S3 PUT'', store) | Inr _ \<Rightarrow> (Inr (), store((bucket, key) \<mapsto> bytes)))"
| "upload put _ bytes store = (Inr (), store)"

text \<open>A finished sink: where it goes, what it holds, how its finalization and its PUT turn out.\<close>

record sink =
  sk_uri :: trace_uri
  sk_bytes :: "u8 list"
  sk_finish :: "unit result"
  sk_put :: "unit result"

definition finish_sink :: "sink \<Rightarrow> object_store \<Rightarrow> unit result \<times> object_store" where
  "finish_sink k store =
     (case sk_finish k of Inl e \<Rightarrow> (Inl e, store) | Inr _ \<Rightarrow> upload (sk_put k) (sk_uri k) (sk_bytes k) store)"

text \<open>The end of a recording, given how the tap ended.\<close>

definition finish_recording ::
  "unit result \<Rightarrow> sink \<Rightarrow> sink option \<Rightarrow> object_store \<Rightarrow> unit result \<times> object_store" where
  "finish_recording tap_result trace steps store =
     (case finish_sink trace store of
        (Inl e, store) \<Rightarrow> (Inl e, store)
      | (Inr _, store) \<Rightarrow>
          (case steps of
             None \<Rightarrow> (tap_result, store)
           | Some k \<Rightarrow>
               (case finish_sink k store of
                  (Inl e, store) \<Rightarrow> (Inl e, store)
                | (Inr _, store) \<Rightarrow> (tap_result, store))))"

section \<open>Replay inputs\<close>

text \<open>
  The inputs in order with their local copies, and the fetches made; equal URIs are fetched once.
\<close>

fun materialize_inputs ::
  "(trace_uri \<Rightarrow> string result) \<Rightarrow> (string \<times> string) list \<Rightarrow> trace_uri option list \<Rightarrow>
   trace_uri option list result \<times> trace_uri list" where
  "materialize_inputs fetch fetched [] = (Inr [], [])"
| "materialize_inputs fetch fetched (field # inputs) =
     (case field of
        None \<Rightarrow>
          (let (r, fetches) = materialize_inputs fetch fetched inputs
           in (bind_result r (\<lambda>fs. Inr (None # fs)), fetches))
      | Some uri \<Rightarrow>
          if \<not> uri_is_remote uri
          then (let (r, fetches) = materialize_inputs fetch fetched inputs
                in (bind_result r (\<lambda>fs. Inr (Some uri # fs)), fetches))
          else (case map_of fetched (uri_display uri) of
                  Some local \<Rightarrow>
                    (let (r, fetches) = materialize_inputs fetch fetched inputs
                     in (bind_result r (\<lambda>fs. Inr (Some (Local local) # fs)), fetches))
                | None \<Rightarrow>
                    (case fetch uri of
                       Inl e \<Rightarrow> (Inl e, [uri])
                     | Inr local \<Rightarrow>
                         (let (r, fetches) = materialize_inputs fetch ((uri_display uri, local) # fetched) inputs
                          in (bind_result r (\<lambda>fs. Inr (Some (Local local) # fs)), uri # fetches)))))"

definition local_input :: "trace_uri \<Rightarrow> string result" where
  "local_input uri = (case local_path uri of None \<Rightarrow> Inl ''was not materialized to a local path'' | Some p \<Rightarrow> Inr p)"

definition check_trace_hash :: "string \<Rightarrow> trace_meta \<Rightarrow> unit result" where
  "check_trace_hash expected m =
     (case tm_config_hash m of
        Some found \<Rightarrow> if found = expected then Inr () else Inl ''config-hash mismatch''
      | None \<Rightarrow> Inl ''trace has no config_hash'')"

fun check_trace_hashes :: "(string \<Rightarrow> trace_meta result) \<Rightarrow> string \<Rightarrow> string list \<Rightarrow> unit result" where
  "check_trace_hashes read_trace_meta expected [] = Inr ()"
| "check_trace_hashes read_trace_meta expected (path # paths) =
     bind_result (read_trace_meta path) (\<lambda>m.
     bind_result (check_trace_hash expected m) (\<lambda>_. check_trace_hashes read_trace_meta expected paths))"

definition verify_config_hash ::
  "(string \<Rightarrow> trace_meta result) \<Rightarrow> string \<Rightarrow> trace_uri option list \<Rightarrow> unit result" where
  "verify_config_hash read_trace_meta expect_config_hash inputs =
     (if expect_config_hash = [] then Inr ()
      else bind_result (collect_results (map local_input (concat (map (\<lambda>f. case f of None \<Rightarrow> [] | Some u \<Rightarrow> [u]) inputs))))
        (\<lambda>paths. check_trace_hashes read_trace_meta expect_config_hash (remdups_adj (sort paths))))"

end
