(* ===== verification/Convert_Props.thy ===== *)
theory Convert_Props
  imports Convert Trace_File_Props
begin

text \<open>
  The conversion tools: a converted report is a trace that reads back, the summary's rows are the
  calibration quantiles of their records, a written trace is never taken for a dataset, a
  pretty-printed split object is refused, and what the deployment fingerprint separates.
\<close>

section \<open>Converted reports\<close>

definition request_widths :: "guidellm_request_stats \<Rightarrow> bool" where
  "request_widths r \<longleftrightarrow>
     (case gr_prompt_tokens r of None \<Rightarrow> True | Some n \<Rightarrow> n < 2 ^ 64) \<and>
     (case gr_output_tokens r of None \<Rightarrow> True | Some n \<Rightarrow> n < 2 ^ 64)"

definition strategy_widths :: "guidellm_strategy \<Rightarrow> bool" where
  "strategy_widths s \<longleftrightarrow>
     (case gs_streams s of None \<Rightarrow> True | Some n \<Rightarrow> n < 2 ^ 64) \<and>
     (case gs_max_concurrency s of None \<Rightarrow> True | Some n \<Rightarrow> n < 2 ^ 64)"

definition benchmark_widths :: "guidellm_benchmark \<Rightarrow> bool" where
  "benchmark_widths b \<longleftrightarrow> strategy_widths (gb_strategy b) \<and> list_all request_widths (gb_successful b)"

lemma json_as_u64_bound: "json_as_u64 j = Some n \<Longrightarrow> n < 2 ^ 64"
  by (cases j) (auto split: if_splits)

lemma option_field_u64:
  "option_field k json_as_u64 j = Inr x \<Longrightarrow> case x of None \<Rightarrow> True | Some n \<Rightarrow> n < 2 ^ 64"
  using json_as_u64_bound by (auto simp: option_field_def of_option_def split: option.splits if_splits)

lemma decoded_Some: "decoded dec j = Some v \<longleftrightarrow> dec j = Inr v"
  by (simp add: decoded_def split: sum.splits)

lemma req_field_Inr: "req_field k dec j = Inr v \<longleftrightarrow> (\<exists>x. json_get k j = Some x \<and> dec x = Some v)"
  by (auto simp: req_field_def of_option_def split: option.splits)

lemma traverse_option_all:
  "traverse_option dec xs = Some ys \<Longrightarrow> (\<And>x y. dec x = Some y \<Longrightarrow> P y) \<Longrightarrow> list_all P ys"
  by (induction xs arbitrary: ys) (auto split: option.splits)

lemma json_as_list_all:
  "json_as_list dec j = Some ys \<Longrightarrow> (\<And>x y. dec x = Some y \<Longrightarrow> P y) \<Longrightarrow> list_all P ys"
  by (auto simp: json_as_list_def split: option.splits elim: traverse_option_all)

lemma request_stats_widths: "request_stats_of_json j = Inr r \<Longrightarrow> request_widths r"
  by (auto simp: request_stats_of_json_def bind_result_Inr request_widths_def dest!: option_field_u64)

lemma strategy_of_json_widths: "strategy_of_json j = Inr s \<Longrightarrow> strategy_widths s"
  by (auto simp: strategy_of_json_def bind_result_Inr strategy_widths_def dest!: option_field_u64)

lemma breakdown_widths: "breakdown_of_json j = Inr rs \<Longrightarrow> list_all request_widths rs"
  using json_as_list_all [of "decoded request_stats_of_json", where P = request_widths]
    request_stats_widths
  by (fastforce simp: breakdown_of_json_def bind_result_Inr default_field_def of_option_def decoded_Some
      split: option.splits)

lemma benchmark_of_json_widths: "benchmark_of_json j = Inr b \<Longrightarrow> benchmark_widths b"
  using breakdown_widths strategy_of_json_widths
  by (auto simp: benchmark_of_json_def bind_result_Inr req_field_Inr decoded_Some config_strategy_of_json_def
      benchmark_widths_def)

lemma report_widths:
  assumes "report_of_json j = Inr report"
  shows "list_all benchmark_widths (gu_benchmarks report)"
proof -
  obtain x where "json_as_list (decoded benchmark_of_json) x = Some (gu_benchmarks report)"
    using assms by (auto simp: report_of_json_def bind_result_Inr req_field_Inr)
  then show ?thesis
    by (rule json_as_list_all) (simp add: decoded_Some benchmark_of_json_widths)
qed

lemma derive_concurrency_width: "strategy_widths s \<Longrightarrow> fst (derive_concurrency s) < 2 ^ 64"
  by (auto simp: derive_concurrency_def strategy_widths_def split: option.splits)

lemma convert_request_writable:
  assumes "convert_request c r = Inr t" "request_widths r" "c < 2 ^ 64"
  shows "record_widths t \<and> validate_record t = Inr ()"
proof -
  obtain p out ttft where some: "gr_prompt_tokens r = Some p" "gr_output_tokens r = Some out"
    "gr_time_to_first_token_ms r = Some ttft"
    using assms(1) by (auto simp: convert_request_def bind_result_Inr required_def split: option.splits)
  have t: "t = default_record
      \<lparr>tr_prompt_tokens := p, tr_cached_tokens := 0, tr_output_tokens := out, tr_ttft_ms := ttft, tr_itl_ms := None,
       tr_itl_summary := (if out > 1 then Some \<lparr>mean_ms = (case gr_inter_token_latency_ms r of None \<Rightarrow> 0 | Some m \<Rightarrow> m),
         itl_count = out - 1\<rparr> else None),
       tr_concurrency := c, tr_arrival_ms := None, tr_itl_ctx := None\<rparr>"
    using assms(1) some by (simp add: convert_request_def bind_result_def required_def)
  have "p < 2 ^ 64" "out < 2 ^ 64" using assms(2) some by (simp_all add: request_widths_def)
  moreover from this have "out - 1 < 2 ^ 64" by linarith
  ultimately have "p < 2 ^ 64" "out < 2 ^ 64" "out - 1 < 2 ^ 64" by blast+
  then show ?thesis
    using assms(3) unfolding t
    by (simp add: record_widths_def validate_record_def default_record_def)
qed

lemma collect_results_map: "collect_results xs = Inr ys \<Longrightarrow> xs = map Inr ys"
  by (induction xs arbitrary: ys) (auto simp: bind_result_Inr)

text \<open>A report that converts yields one record for every successful request, in report order; every
  record passes the loader's validation, and the file written from them reads back as exactly that
  header and those records (the JSON library printing them faithfully).\<close>

theorem converted_report_reads_back:
  assumes "convert_guidellm C text opts = Inr (m, rs)" and "jc_parse C text = Inr j" and "report_of_json j = Inr report"
    and "prints_back C (meta_to_json m)" and "list_all (\<lambda>r. prints_back C (record_to_json r)) rs"
    and "case co_tp opts of None \<Rightarrow> True | Some n \<Rightarrow> n < 2 ^ 32"
  shows "length rs = sum_list (map (\<lambda>b. length (gb_successful b)) (gu_benchmarks report)) \<and>
    read_trace C (map Line (write_conversion C m rs)) = Inr (m, rs)"
proof -
  let ?convert = "\<lambda>b. map (convert_request (fst (derive_concurrency (gb_strategy b)))) (gb_successful b)"
  have "convert_report report opts = Inr (m, rs)"
    using assms(1-3) by (simp add: convert_guidellm_def bind_result_def err_context_def)
  then have m: "m = report_meta report opts"
    and rs: "collect_results (concat (map ?convert (gu_benchmarks report))) = Inr rs"
    unfolding convert_report_def by (cases "gu_benchmarks report = []"; force simp: bind_result_Inr)+
  note all = collect_results_map [OF rs]
  have len: "length rs = sum_list (map (\<lambda>b. length (gb_successful b)) (gu_benchmarks report))"
    using arg_cong [OF all, of length] by (simp add: length_concat comp_def)
  have ok: "record_widths t \<and> validate_record t = Inr ()" if "t \<in> set rs" for t
  proof -
    have "Inr t \<in> set (concat (map ?convert (gu_benchmarks report)))" unfolding all using that by simp
    then obtain b r where b: "b \<in> set (gu_benchmarks report)" "r \<in> set (gb_successful b)"
        "convert_request (fst (derive_concurrency (gb_strategy b))) r = Inr t"
      by auto
    then have "strategy_widths (gb_strategy b)" "request_widths r"
      using report_widths [OF assms(3)] by (auto simp: list_all_iff benchmark_widths_def)
    then show ?thesis using convert_request_writable [OF b(3) _ derive_concurrency_width] by blast
  qed
  have "meta_widths m"
    using assms(6) by (simp add: m report_meta_def meta_widths_def default_meta_def Let_def)
  moreover have "list_all (writable_record C) rs"
    using ok assms(5) by (simp add: list_all_iff writable_record_def)
  ultimately show ?thesis
    using len read_trace_written [of m C rs "[]"] assms(4) by (simp add: write_conversion_def)
qed

text \<open>A report of one benchmark with one request, and a codec over its three texts.\<close>

definition demo_report :: json where
  "demo_report = JObject [(''benchmarks'', JArray [JObject
     [(''config'', JObject [(''strategy'', JObject [(''type_'', JString ''concurrent''), (''streams'', JInt 4)])]),
      (''requests'', JObject [(''successful'', JArray [JObject
        [(''prompt_tokens'', JInt 10), (''output_tokens'', JInt 1), (''time_to_first_token_ms'', JFloat 5)]])])]])]"

definition demo_report_value :: guidellm_report where
  "demo_report_value = \<lparr>gu_args = None, gu_benchmarks =
     [\<lparr>gb_strategy = \<lparr>gs_type_name = ''concurrent'', gs_streams = Some 4, gs_max_concurrency = None\<rparr>,
       gb_successful = [\<lparr>gr_prompt_tokens = Some 10, gr_output_tokens = Some 1,
         gr_time_to_first_token_ms = Some 5, gr_inter_token_latency_ms = None\<rparr>]\<rparr>]\<rparr>"

definition demo_options :: convert_options where
  "demo_options = \<lparr>co_model = None, co_gpu = None, co_tp = Some 1\<rparr>"

definition demo_meta :: trace_meta where
  "demo_meta = report_meta demo_report_value demo_options"

definition demo_converted :: trace_record where
  "demo_converted = default_record\<lparr>tr_prompt_tokens := 10, tr_output_tokens := 1, tr_ttft_ms := 5, tr_concurrency := 4\<rparr>"

definition demo_codec :: json_codec where
  "demo_codec =
     \<lparr>jc_parse = (\<lambda>s. if s = ''g'' then Inr demo_report
        else if s = ''m'' then Inr (meta_to_json demo_meta)
        else if s = ''r'' then Inr (record_to_json demo_converted) else Inl ''expected value''),
      jc_print = (\<lambda>j. if j = meta_to_json demo_meta then ''m'' else ''r'')\<rparr>"

lemma demo_report_parses: "report_of_json demo_report = Inr demo_report_value"
  by (simp add: demo_report_def demo_report_value_def report_of_json_def bind_result_def option_field_def
      req_field_def default_field_def of_option_def decoded_def benchmark_of_json_def json_as_list_def
      config_strategy_of_json_def strategy_of_json_def breakdown_of_json_def request_stats_of_json_def)

lemma demo_converts: "convert_guidellm demo_codec ''g'' demo_options = Inr (demo_meta, [demo_converted])"
  by (simp add: convert_guidellm_def demo_codec_def bind_result_def err_context_def demo_report_parses
      convert_report_def) (simp add: demo_report_value_def convert_request_def required_def bind_result_def
      derive_concurrency_def demo_converted_def demo_meta_def default_record_def)

lemma demo_prints:
  "prints_back demo_codec (meta_to_json demo_meta)" "prints_back demo_codec (record_to_json demo_converted)"
proof -
  have "record_to_json demo_converted \<noteq> meta_to_json demo_meta"
    by (simp add: record_to_json_def meta_to_json_def)
  then show "prints_back demo_codec (record_to_json demo_converted)" "prints_back demo_codec (meta_to_json demo_meta)"
    by (simp_all add: prints_back_def demo_codec_def trim_def is_space_def)
qed

theorem converted_report_reads_back_witness:
  "read_trace demo_codec (map Line (write_conversion demo_codec demo_meta [demo_converted])) = Inr (demo_meta, [demo_converted])"
proof -
  have "jc_parse demo_codec ''g'' = Inr demo_report" by (simp add: demo_codec_def)
  from converted_report_reads_back [OF demo_converts this demo_report_parses demo_prints(1)]
  show ?thesis using demo_prints(2) by (simp add: demo_options_def)
qed

section \<open>Summaries\<close>

lemma tc_percentile: "tc_percentile = percentile"
  by (simp add: fun_eq_iff tc_percentile_def percentile_def Let_def)

lemma pooled_itls: "pooled_itls rs = concat (map record_itls rs)"
  by (induction rs) (auto simp: record_itls_def map_replicate_const split: option.splits)

text \<open>The quantiles a row prints.\<close>

definition row_ttft :: "bucket_stats \<Rightarrow> quantiles" where
  "row_ttft row = \<lparr>q_p50 = bs_ttft_p50 row, q_p90 = bs_ttft_p90 row, q_p99 = bs_ttft_p99 row\<rparr>"

definition row_itl :: "bucket_stats \<Rightarrow> quantiles" where
  "row_itl row = \<lparr>q_p50 = bs_itl_p50 row, q_p90 = bs_itl_p90 row, q_p99 = bs_itl_p99 row\<rparr>"

abbreviation at_concurrency :: "nat \<Rightarrow> trace_record list \<Rightarrow> trace_record list" where
  "at_concurrency c rs \<equiv> filter (\<lambda>r. tr_concurrency r = c) rs"

lemma group_by_concurrency_snoc:
  "group_by_concurrency (rs @ [r]) =
     bt_insert (tr_concurrency r)
       ((case bt_get (group_by_concurrency rs) (tr_concurrency r) of None \<Rightarrow> [] | Some recs \<Rightarrow> recs) @ [r])
       (group_by_concurrency rs)"
  by (simp add: group_by_concurrency_def)

lemma group_by_concurrency:
  "bt_inv (group_by_concurrency rs) \<and>
   (\<forall>c. bt_get (group_by_concurrency rs) c = (if at_concurrency c rs = [] then None else Some (at_concurrency c rs)))"
proof (induction rs rule: rev_induct)
  case Nil
  then show ?case by (simp add: group_by_concurrency_def)
next
  case (snoc r rs)
  have inv: "bt_inv (group_by_concurrency rs)"
    and get: "bt_get (group_by_concurrency rs) c = (if at_concurrency c rs = [] then None else Some (at_concurrency c rs))" for c
    using snoc.IH by blast+
  have old: "(case bt_get (group_by_concurrency rs) c of None \<Rightarrow> [] | Some recs \<Rightarrow> recs) = at_concurrency c rs" for c
    unfolding get by (cases "at_concurrency c rs") simp_all
  show ?case
    unfolding group_by_concurrency_snoc old using inv
    by (simp only: bt_inv_insert bt_get_insert get) simp
qed

lemma group_keys: "bt_keys (group_by_concurrency rs) = sorted_list_of_set (tr_concurrency ` set rs)"
proof -
  note g = group_by_concurrency [of rs]
  have "set (bt_keys (group_by_concurrency rs)) = tr_concurrency ` set rs"
  proof (rule set_eqI)
    fix c
    have "c \<in> set (bt_keys (group_by_concurrency rs)) \<longleftrightarrow> at_concurrency c rs \<noteq> []"
      using g bt.key_iff [of "group_by_concurrency rs" c] by simp
    then show "c \<in> set (bt_keys (group_by_concurrency rs)) \<longleftrightarrow> c \<in> tr_concurrency ` set rs"
      by (auto simp: filter_empty_conv)
  qed
  moreover have "sorted (bt_keys (group_by_concurrency rs))" "distinct (bt_keys (group_by_concurrency rs))"
    using g by (simp_all add: bt_inv_def strict_sorted_iff)
  ultimately show ?thesis by (metis sorted_list_of_set.idem_if_sorted_distinct)
qed

lemma group_entry:
  "(c, recs) \<in> set (group_by_concurrency rs) \<Longrightarrow> recs = at_concurrency c rs"
  using group_by_concurrency [of rs] bt.elems_get [of "group_by_concurrency rs" c recs]
  by (auto split: if_splits)

lemma sum_counts:
  "distinct ks \<Longrightarrow> f ` set rs \<subseteq> set ks \<Longrightarrow> (\<Sum>k \<leftarrow> ks. length (filter (\<lambda>r. f r = k) rs)) = length rs"
proof (induction rs)
  case (Cons r rs)
  have "(\<Sum>k \<leftarrow> ks. length (filter (\<lambda>r. f r = k) (r # rs))) =
      (\<Sum>k \<leftarrow> ks. (if f r = k then 1 else 0) + length (filter (\<lambda>r. f r = k) rs))"
    by (rule arg_cong [where f = sum_list], rule map_cong) auto
  also have "\<dots> = (\<Sum>k \<leftarrow> ks. if f r = k then 1 else 0) + length rs"
    using Cons by (simp add: sum_list_addf)
  also have "(\<Sum>k \<leftarrow> ks. if f r = k then 1 else 0 :: nat) = 1"
    using Cons.prems by (simp add: sum_list_distinct_conv_sum_set)
  finally show ?case by simp
qed simp

text \<open>The summary of a trace has one row for each recorded concurrency, ascending; a row counts the
  records of that concurrency, the counts add up to the trace, and its percentiles - computed by the
  converter's own routines - are the quantiles calibration computes from those records' pooled
  samples, summary-only records weighted by token.\<close>

theorem summary_matches_calibration:
  assumes "summarize_records records = Inr rows"
  shows "map bs_concurrency rows = sorted_list_of_set (tr_concurrency ` set records) \<and>
    sum_list (map bs_count rows) = length records \<and>
    (\<forall>row \<in> set rows.
       bs_count row = length (filter (\<lambda>r. tr_concurrency r = bs_concurrency row) records) \<and>
       row_ttft row = quantiles_from_sorted
         (fst (pool_samples (filter (\<lambda>r. tr_concurrency r = bs_concurrency row) records))) \<and>
       row_itl row = quantiles_from_sorted
         (snd (pool_samples (filter (\<lambda>r. tr_concurrency r = bs_concurrency row) records))))"
proof -
  let ?g = "group_by_concurrency records"
  have rows: "rows = map (\<lambda>(conc, recs). bucket_stats_of conc recs) ?g"
    using assms by (simp add: summarize_records_def split: if_splits)
  have conc: "bs_concurrency (bucket_stats_of c recs) = c" "bs_count (bucket_stats_of c recs) = length recs" for c recs
    by (simp_all add: bucket_stats_of_def Let_def)
  have keys: "map bs_concurrency rows = sorted_list_of_set (tr_concurrency ` set records)"
    unfolding rows group_keys [symmetric] by (simp add: comp_def case_prod_beta conc)
  have "map bs_count rows = map (\<lambda>c. length (at_concurrency c records)) (bt_keys ?g)"
    unfolding rows by (auto simp: conc dest: group_entry)
  then have "sum_list (map bs_count rows) = length records"
    unfolding group_keys by (simp add: sum_counts)
  moreover have "bs_count row = length (at_concurrency (bs_concurrency row) records) \<and>
      row_ttft row = quantiles_from_sorted (fst (pool_samples (at_concurrency (bs_concurrency row) records))) \<and>
      row_itl row = quantiles_from_sorted (snd (pool_samples (at_concurrency (bs_concurrency row) records)))"
    if "row \<in> set rows" for row
  proof -
    obtain c where "row = bucket_stats_of c (at_concurrency c records)"
      using \<open>row \<in> set rows\<close> group_entry unfolding rows by auto
    then show ?thesis
      by (simp add: bucket_stats_of_def Let_def row_ttft_def row_itl_def quantiles_from_sorted_def
          pool_samples_def tc_percentile pooled_itls)
  qed
  ultimately show ?thesis using keys by blast
qed

theorem summary_matches_calibration_witness:
  "map bs_concurrency (case summarize_records [demo_converted, default_record, demo_converted] of Inr rows \<Rightarrow> rows) = [1, 4]"
proof -
  obtain rows where rows: "summarize_records [demo_converted, default_record, demo_converted] = Inr rows"
    by (simp add: summarize_records_def)
  have "{4, 1, 4 :: nat} = {1, 4}" by auto
  then show ?thesis
    using summary_matches_calibration [OF rows] rows
    by (simp add: demo_converted_def default_record_def default_concurrency_def)
qed

section \<open>Dataset files\<close>

lemma split_on_nonempty [simp]: "split_on c s \<noteq> []"
  by (cases s) (auto split: list.splits)

lemma text_chars:
  "CHR 0x7B \<noteq> char_of (13 :: nat)" "CHR 0x7B \<noteq> char_of (10 :: nat)"
  "CHR ''c'' \<noteq> char_of (13 :: nat)" "CHR ''c'' \<noteq> char_of (10 :: nat)"
  by code_simp+

lemma str_lines_brace:
  "str_lines (CHR 0x7B # newline # rest) = [CHR 0x7B] # str_lines rest"
  by (auto simp: str_lines_def newline_def Let_def strip_cr_def strip_suffix_def text_chars)

lemma trim_brace: "trim [CHR 0x7B] = [CHR 0x7B]"
  by (simp add: trim_def is_space_def)

lemma brace_looks_like_jsonl:
  assumes "\<exists>l \<in> set (str_lines rest). trim l \<noteq> []"
  shows "looks_like_jsonl (CHR 0x7B # newline # rest)"
proof -
  have "filter (\<lambda>l. l \<noteq> []) (map trim (str_lines rest)) \<noteq> []"
    using assms by (auto simp: filter_empty_conv)
  then show ?thesis
    by (auto simp: looks_like_jsonl_def str_lines_brace trim_brace str_starts_with_def split: list.split)
qed

text \<open>A JSON dataset that is one object of splits is read when it is written on one line, but its
  pretty-printed form - an opening brace on a line of its own, as every JSON pretty printer writes -
  is taken for JSON lines: both the dataset test and the reader then fail on line 1, since a brace
  alone is no JSON value.\<close>

theorem pretty_split_object_refused:
  assumes "path_extension path = ''json''" and "\<exists>l \<in> set (str_lines rest). trim l \<noteq> []"
    and "jc_parse C [CHR 0x7B] = Inl e"
    and "jc_parse C one_line = Inr (JObject [(''train'', JArray rows)])" and "length (str_lines one_line) = 1"
    and "one_line \<noteq> []"
  shows "parse_json_dataset C path one_line = Inr rows \<and>
    parse_json_dataset C path (CHR 0x7B # newline # rest) = Inl (line_msg 1 ''invalid JSON'') \<and>
    is_dataset_file C path (CHR 0x7B # newline # rest) = Inl ''parsing first line''"
proof (intro conjI)
  have single: "length (filter P (map trim (str_lines one_line))) \<le> 1" for P
    using length_filter_le [of P "map trim (str_lines one_line)"] assms(5) by simp
  have "\<not> looks_like_jsonl one_line"
    using single [of "\<lambda>l. l \<noteq> []"]
    by (cases "filter (\<lambda>l. l \<noteq> []) (map trim (str_lines one_line))")
      (auto simp: looks_like_jsonl_def simp del: filter_map length_map split: list.split)
  then show "parse_json_dataset C path one_line = Inr rows"
    using assms(1,4,6)
    by (simp add: parse_json_dataset_def err_context_def bind_result_def split_rows_def)
  note pretty = brace_looks_like_jsonl [OF assms(2)] str_lines_brace trim_brace
  show "parse_json_dataset C path (CHR 0x7B # newline # rest) = Inl (line_msg 1 ''invalid JSON'')"
    using assms(3) by (simp add: parse_json_dataset_def pretty err_context_def bind_result_def)
  show "is_dataset_file C path (CHR 0x7B # newline # rest) = Inl ''parsing first line''"
    using assms(1,3) by (simp add: is_dataset_file_def pretty Let_def err_context_def bind_result_def)
qed

definition split_codec :: json_codec where
  "split_codec = \<lparr>jc_parse = (\<lambda>s. if s = ''c'' then Inr (JObject [(''train'', JArray [])]) else Inl ''EOF''),
     jc_print = (\<lambda>_. ''c'')\<rparr>"

theorem pretty_split_object_refused_witness:
  "parse_json_dataset split_codec ''data.json'' ''c'' = Inr [] \<and>
   parse_json_dataset split_codec ''data.json'' (CHR 0x7B # newline # ''c'') = Inl (line_msg 1 ''invalid JSON'')"
proof -
  have ext: "path_extension ''data.json'' = ''json''"
    by (simp add: path_extension_def file_name_def lower_char_def)
  have lines: "str_lines ''c'' = [''c'']"
    by (simp add: str_lines_def strip_cr_def strip_suffix_def text_chars)
  have "\<exists>l \<in> set (str_lines ''c''). trim l \<noteq> []" by (simp add: lines trim_def is_space_def)
  from pretty_split_object_refused [OF ext this, of split_codec "''EOF''" "''c''" "[]"]
  show ?thesis by (simp add: lines split_codec_def)
qed

section \<open>The deployment fingerprint\<close>

lemma append_sep_inj:
  "c \<notin> set a \<Longrightarrow> c \<notin> set b \<Longrightarrow> a @ c # x = b @ c # y \<longleftrightarrow> a = b \<and> x = y"
proof (induction a arbitrary: b)
  case Nil
  then show ?case by (cases b) auto
next
  case (Cons d a)
  then show ?case by (cases b) auto
qed

lemma canonical_inj:
  assumes "newline \<notin> set (cf_gpu f @ cf_gpu g @ cf_vllm_tag f @ cf_vllm_tag g)"
  shows "canonical f = canonical g \<longleftrightarrow> f = g"
  using assms by (cases f; cases g) (auto simp: canonical_def append_sep_inj)

lemma hex_digit_code: "d < 16 \<Longrightarrow> (of_char (hex_digit d) :: nat) = (if d < 10 then 48 + d else 87 + d)"
  by (simp add: hex_digit_def take_bit_nat_eq_self)

lemma hex_digit_inj:
  assumes "a < 16" "b < 16"
  shows "hex_digit a = hex_digit b \<longleftrightarrow> a = b"
proof
  assume "hex_digit a = hex_digit b"
  then have "(of_char (hex_digit a) :: nat) = of_char (hex_digit b)" by (rule arg_cong)
  then show "a = b"
    unfolding hex_digit_code [OF assms(1)] hex_digit_code [OF assms(2)]
    by (cases "a < 10"; cases "b < 10") simp_all
qed simp

lemma hex_byte_inj:
  "hex_digit (unat a div 16) = hex_digit (unat b div 16) \<Longrightarrow>
   hex_digit (unat a mod 16) = hex_digit (unat b mod 16) \<Longrightarrow> a = (b :: u8)"
proof -
  assume eq: "hex_digit (unat a div 16) = hex_digit (unat b div 16)"
    "hex_digit (unat a mod 16) = hex_digit (unat b mod 16)"
  have bound: "unat c < 256" for c :: u8 using unsigned_less [of c] by simp
  have "unat c div 16 < 16" for c :: u8 using bound [of c] by simp
  then have "unat a div 16 = unat b div 16" "unat a mod 16 = unat b mod 16"
    using eq by (simp_all add: hex_digit_inj)
  then have "unat a = unat b" by (metis div_mult_mod_eq)
  then show "a = b" by (simp add: unsigned_word_eqI)
qed

lemma hex_encode_inj: "hex_encode xs = hex_encode ys \<longleftrightarrow> xs = ys"
proof (induction xs arbitrary: ys)
  case Nil
  then show ?case by (cases ys) (simp_all add: hex_encode_def)
next
  case (Cons x xs)
  show ?case
  proof (cases ys)
    case (Cons y zs)
    then show ?thesis using Cons.IH [of zs] hex_byte_inj [of x y] by (auto simp: hex_encode_def)
  qed (simp add: hex_encode_def)
qed

text \<open>Two deployments have the same computed hash exactly when their GPU, tag and engine-flag string
  agree (labels without a line break), up to a collision of SHA-256; the other inputs of a capture -
  model, tensor-parallel size, block size, sequence cap - do not enter the hash, although the
  command's help says the fingerprint is computed from them.\<close>

theorem fingerprint_separates:
  assumes "newline \<notin> set (cf_gpu f @ cf_gpu g @ cf_vllm_tag f @ cf_vllm_tag g)"
    and "sha256 (canonical f) = sha256 (canonical g) \<longrightarrow> canonical f = canonical g"
  shows "(fingerprint_hash sha256 f = fingerprint_hash sha256 g \<longleftrightarrow> f = g) \<and>
    tm_config_hash (build_meta sha256 (cfg\<lparr>mc_model := model, mc_tp := tp, mc_block_size := bs,
      mc_max_num_seqs := seqs\<rparr>) ver payload) = tm_config_hash (build_meta sha256 cfg ver payload)"
proof (intro conjI)
  have same: "canonical f = canonical g \<longleftrightarrow> f = g" using assms(1) by (rule canonical_inj)
  show "fingerprint_hash sha256 f = fingerprint_hash sha256 g \<longleftrightarrow> f = g"
    unfolding fingerprint_hash_def hex_encode_inj using assms(2) same by auto
  show "tm_config_hash (build_meta sha256 (cfg\<lparr>mc_model := model, mc_tp := tp, mc_block_size := bs,
      mc_max_num_seqs := seqs\<rparr>) ver payload) = tm_config_hash (build_meta sha256 cfg ver payload)"
    by (simp add: build_meta_def split: option.split)
qed

theorem fingerprint_separates_witness:
  "fingerprint_hash (map (of_char :: char \<Rightarrow> u8)) \<lparr>cf_gpu = ''H200'', cf_vllm_tag = ''v0.33.0'', cf_engine_config = []\<rparr> \<noteq>
   fingerprint_hash (map of_char) \<lparr>cf_gpu = ''H100'', cf_vllm_tag = ''v0.33.0'', cf_engine_config = []\<rparr>"
proof -
  let ?f = "\<lparr>cf_gpu = ''H200'', cf_vllm_tag = ''v0.33.0'', cf_engine_config = []\<rparr>"
  let ?g = "\<lparr>cf_gpu = ''H100'', cf_vllm_tag = ''v0.33.0'', cf_engine_config = []\<rparr>"
  have labels: "newline \<notin> set (cf_gpu ?f @ cf_gpu ?g @ cf_vllm_tag ?f @ cf_vllm_tag ?g)"
    by (simp add: newline_def char_of_def bit_Suc_0_iff)
  have "map (of_char :: char \<Rightarrow> u8) (canonical ?f) \<noteq> map of_char (canonical ?g)"
    by (simp add: canonical_def SCHEME_def)
  then show ?thesis using fingerprint_separates [OF labels, of "map of_char"] by simp
qed

text \<open>A capture whose tag is set and whose engine reports a version with a readable line is only
  started when it passes the conformance line check for that tag, and a version without one passes
  the guard but fails the check.\<close>

theorem guard_agrees_with_conformance:
  "capture_header sha256 (cfg\<lparr>mc_vllm_tag := Some tag\<rparr>) ver payload =
     (if assert_same_line tag ver = Inr () \<or> minor_line ver = None
      then Inr (build_meta sha256 (cfg\<lparr>mc_vllm_tag := Some tag\<rparr>) ver payload)
      else Inl ''vLLM line mismatch'')"
  by (auto simp: capture_header_def guard_vllm_version_def assert_same_line_def bind_result_def
      split: option.splits)

end
