(* ===== verification/Remote_Props.thy ===== *)
theory Remote_Props
  imports Remote Convert_Props
begin

text \<open>
  Trace locations: what parses back, what panics, which recordings reach their store, that each
  remote input is fetched once, and which traces pass the config-hash gate.
\<close>

section \<open>URIs\<close>

text \<open>What the URL parser documents of a URI with an authority and a path free of escapes.\<close>

definition url_splits :: "url_parser \<Rightarrow> string \<Rightarrow> string \<Rightarrow> string \<Rightarrow> bool" where
  "url_splits parse_url scheme host path \<longleftrightarrow>
     parse_url (scheme @ ''://'' @ host @ ''/'' @ path) =
       Inr \<lparr>up_scheme = scheme, up_host = Some host, up_path = CHR ''/'' # path\<rparr>"

lemma lower_scheme: "map lower_char ''s3://'' = ''s3://''" "map lower_char ''hf://'' = ''hf://''"
  by (simp_all add: lower_char_def)

lemma remote_s3: "is_remote (''s3://'' @ rest) = (if is_char_boundary (''s3://'' @ rest) 5 then Inr True
    else Inl ''panic: byte index 5 is not a char boundary'')"
  by (simp add: is_remote_def eq_ignore_ascii_case_def)

lemma remote_hf: "is_remote (''hf://'' @ rest) = (if is_char_boundary (''hf://'' @ rest) 5 then Inr True
    else Inl ''panic: byte index 5 is not a char boundary'')"
  by (simp add: is_remote_def eq_ignore_ascii_case_def)

definition ascii :: "string \<Rightarrow> bool" where
  "ascii s \<longleftrightarrow> list_all (\<lambda>c. (of_char c :: nat) < 128) s"

lemma ascii_boundary:
  assumes "ascii s" "i \<le> length s"
  shows "is_char_boundary s i"
proof (cases "i = length s")
  case False
  then have "i < length s" using assms(2) by simp
  moreover from this have "(of_char (s ! i) :: nat) < 128"
    using assms(1) by (simp add: ascii_def list_all_length)
  ultimately show ?thesis by (simp add: is_char_boundary_def)
qed (simp add: is_char_boundary_def)

lemma drop_slash: "key \<noteq> [] \<Longrightarrow> hd key \<noteq> CHR ''/'' \<Longrightarrow> dropWhile (\<lambda>c. c = CHR ''/'') (CHR ''/'' # key) = key"
  by (cases key) auto

text \<open>The printed form of an S3 location with an ASCII bucket and key parses back to it (as the URL
  parser splits it), a plain path shorter than a scheme or with other first five bytes is local, and
  a path is refused by a panic exactly when a multi-byte character straddles its fifth byte.\<close>

theorem trace_uri_parses:
  assumes "url_splits parse_url ''s3'' bucket key" and "ascii bucket" and "ascii key"
    and "bucket \<noteq> []" and "key \<noteq> []" and "hd key \<noteq> CHR ''/''"
  shows "uri_from_str parse_url (uri_display (S3 bucket key)) = Inr (S3 bucket key) \<and>
    (5 \<le> length path \<and> \<not> is_char_boundary path 5 \<longrightarrow>
      uri_from_str parse_url path = Inl ''panic: byte index 5 is not a char boundary'') \<and>
    (is_remote path = Inr False \<longrightarrow> uri_from_str parse_url path = Inr (Local path))"
proof (intro conjI)
  have "ascii (uri_display (S3 bucket key))" using assms(2,3) by (simp add: ascii_def)
  then have "is_char_boundary (uri_display (S3 bucket key)) 5" by (rule ascii_boundary) simp
  then have "is_remote (uri_display (S3 bucket key)) = Inr True"
    using remote_s3 [of "bucket @ ''/'' @ key"] by simp
  moreover have "parse_s3_uri parse_url (uri_display (S3 bucket key)) = Inr (bucket, key)"
    using assms(1,4,5) drop_slash [OF assms(5,6)]
    by (simp add: parse_s3_uri_def url_splits_def err_context_def bind_result_def)
  ultimately show "uri_from_str parse_url (uri_display (S3 bucket key)) = Inr (S3 bucket key)"
    by (simp add: uri_from_str_def bind_result_def str_starts_with_def)
  show "5 \<le> length path \<and> \<not> is_char_boundary path 5 \<longrightarrow>
      uri_from_str parse_url path = Inl ''panic: byte index 5 is not a char boundary''"
    by (simp add: uri_from_str_def is_remote_def bind_result_def)
  show "is_remote path = Inr False \<longrightarrow> uri_from_str parse_url path = Inr (Local path)"
    by (simp add: uri_from_str_def bind_result_def)
qed

text \<open>The path \<^verbatim>\<open>/tmp\<close> followed by an accented letter, in UTF-8.\<close>

definition accented_path :: string where
  "accented_path = ''/tmp'' @ [char_of (195 :: nat), char_of (169 :: nat)]"

theorem trace_uri_parses_witness:
  "uri_from_str (\<lambda>_. Inr \<lparr>up_scheme = ''s3'', up_host = Some ''b'', up_path = ''/k''\<rparr>) ''s3://b/k'' = Inr (S3 ''b'' ''k'') \<and>
   uri_from_str (\<lambda>_. Inr \<lparr>up_scheme = ''s3'', up_host = Some ''b'', up_path = ''/k''\<rparr>) accented_path =
     Inl ''panic: byte index 5 is not a char boundary''"
proof -
  let ?parse = "\<lambda>_. Inr \<lparr>up_scheme = ''s3'', up_host = Some ''b'', up_path = ''/k''\<rparr>"
  have splits: "url_splits ?parse ''s3'' ''b'' ''k''" by (simp add: url_splits_def)
  have ascii_parts: "ascii ''b''" "ascii ''k''" by (simp_all add: ascii_def)
  have straddles: "5 \<le> length accented_path" "\<not> is_char_boundary accented_path 5"
    by (simp_all add: accented_path_def is_char_boundary_def take_bit_nat_eq_self)
  show ?thesis
    using trace_uri_parses [OF splits ascii_parts, of accented_path] straddles by simp
qed

section \<open>Recordings\<close>

text \<open>When the trace is finalized and its PUT accepted, the object is in the bucket whatever ended the
  tap - also after a transport error, which is still reported; but a recording directed at a
  HuggingFace location is uploaded nowhere and reported as done.\<close>

theorem recording_uploaded:
  assumes "sk_finish trace = Inr ()" and "sk_put trace = Inr ()"
  shows "finish_recording tap_result trace None store =
    (tap_result,
     case sk_uri trace of S3 bucket key \<Rightarrow> store((bucket, key) \<mapsto> sk_bytes trace) | _ \<Rightarrow> store)"
  using assms by (cases "sk_uri trace") (simp_all add: finish_recording_def finish_sink_def)

definition demo_sink :: "trace_uri \<Rightarrow> sink" where
  "demo_sink uri = \<lparr>sk_uri = uri, sk_bytes = [1, 2], sk_finish = Inr (), sk_put = Inr ()\<rparr>"

theorem recording_uploaded_witness:
  "snd (finish_recording (Inl ''transport'') (demo_sink (S3 ''b'' ''k'')) None (\<lambda>_. None)) (''b'', ''k'') = Some [1, 2] \<and>
   snd (finish_recording (Inr ()) (demo_sink (HuggingFace ''o/r'' ''f'')) None (\<lambda>_. None)) = (\<lambda>_. None)"
proof -
  have ok: "sk_finish (demo_sink u) = Inr ()" "sk_put (demo_sink u) = Inr ()" for u
    by (simp_all add: demo_sink_def)
  show ?thesis
    using recording_uploaded [OF ok [of "S3 ''b'' ''k''"], of "Inl ''transport''" "\<lambda>_. None"]
      recording_uploaded [OF ok [of "HuggingFace ''o/r'' ''f''"], of "Inr ()" "\<lambda>_. None"]
    by (simp add: demo_sink_def)
qed

section \<open>Replay inputs\<close>

text \<open>The local copy of an input.\<close>

definition localized :: "(trace_uri \<Rightarrow> string result) \<Rightarrow> trace_uri \<Rightarrow> trace_uri" where
  "localized fetch uri =
     (if uri_is_remote uri then (case fetch uri of Inl _ \<Rightarrow> uri | Inr local \<Rightarrow> Local local) else uri)"

definition remote_inputs :: "trace_uri option list \<Rightarrow> trace_uri set" where
  "remote_inputs inputs = {u. Some u \<in> set inputs \<and> uri_is_remote u}"

lemma materialize_inputs_spec:
  assumes "inj_on uri_display (U \<union> remote_inputs inputs)"
    and "\<And>k l. map_of fetched k = Some l \<Longrightarrow> \<exists>u \<in> U. k = uri_display u \<and> fetch u = Inr l"
    and "materialize_inputs fetch fetched inputs = (r, fetches)"
  shows "distinct fetches \<and> set fetches \<subseteq> remote_inputs inputs \<and>
    (\<forall>u \<in> set fetches. map_of fetched (uri_display u) = None) \<and>
    (\<forall>fs. r = Inr fs \<longrightarrow> fs = map (map_option (localized fetch)) inputs \<and>
       (\<forall>u \<in> remote_inputs inputs. (\<exists>l. fetch u = Inr l) \<and>
          (u \<in> set fetches \<or> map_of fetched (uri_display u) \<noteq> None)))"
  using assms
proof (induction inputs arbitrary: fetched U r fetches)
  case Nil
  then show ?case by (auto simp: remote_inputs_def)
next
  case (Cons field inputs)
  show ?case
  proof (cases "\<exists>uri. field = Some uri \<and> uri_is_remote uri")
    case False
    have same: "remote_inputs (field # inputs) = remote_inputs inputs"
      using False by (auto simp: remote_inputs_def)
    obtain r' fetches' where rest: "materialize_inputs fetch fetched inputs = (r', fetches')"
      by (cases "materialize_inputs fetch fetched inputs")
    have "fetches = fetches'" "r = bind_result r' (\<lambda>fs. Inr (field # fs))"
      using False Cons.prems(3) rest by (auto split: option.splits if_splits)
    moreover have "map_option (localized fetch) field = field"
      using False by (cases field) (auto simp: localized_def)
    ultimately show ?thesis
      using Cons.IH [OF _ Cons.prems(2) rest] Cons.prems(1) unfolding same by (auto simp: bind_result_Inr)
  next
    case True
    then obtain uri where uri: "field = Some uri" "uri_is_remote uri" by blast
    have more: "remote_inputs (field # inputs) = insert uri (remote_inputs inputs)"
      using uri by (auto simp: remote_inputs_def)
    show ?thesis
    proof (cases "map_of fetched (uri_display uri)")
      case (Some local)
      obtain u where u: "u \<in> U" "uri_display uri = uri_display u" "fetch u = Inr local"
        using Cons.prems(2) [OF Some] by blast
      then have "uri = u" using Cons.prems(1) unfolding more by (auto dest: inj_onD)
      then have loc: "fetch uri = Inr local" using u(3) by simp
      obtain r' fetches' where rest: "materialize_inputs fetch fetched inputs = (r', fetches')"
        by (cases "materialize_inputs fetch fetched inputs")
      have "fetches = fetches'" "r = bind_result r' (\<lambda>fs. Inr (Some (Local local) # fs))"
        using Cons.prems(3) rest Some uri by auto
      moreover have "inj_on uri_display (U \<union> remote_inputs inputs)"
        using Cons.prems(1) unfolding more by (rule inj_on_subset) auto
      ultimately show ?thesis
        using Cons.IH [OF _ Cons.prems(2) rest] loc uri Some unfolding more
        by (auto simp: bind_result_Inr localized_def)
    next
      case None
      show ?thesis
      proof (cases "fetch uri")
        case (Inl e)
        then show ?thesis using Cons.prems(3) None uri unfolding more by auto
      next
        case (Inr local)
        let ?fetched = "(uri_display uri, local) # fetched"
        obtain r' fetches' where rest: "materialize_inputs fetch ?fetched inputs = (r', fetches')"
          by (cases "materialize_inputs fetch ?fetched inputs")
        have parts: "fetches = uri # fetches'" "r = bind_result r' (\<lambda>fs. Inr (Some (Local local) # fs))"
          using Cons.prems(3) rest None Inr uri by auto
        have inj: "inj_on uri_display (insert uri U \<union> remote_inputs inputs)"
          using Cons.prems(1) unfolding more by (rule inj_on_subset) auto
        have known: "\<exists>u \<in> insert uri U. k = uri_display u \<and> fetch u = Inr l"
          if "map_of ?fetched k = Some l" for k l
          using that Cons.prems(2) [of k l] Inr by (auto split: if_splits)
        note ih = Cons.IH [OF inj known rest]
        have "map_of fetched (uri_display u) = None \<and> u \<noteq> uri" if "u \<in> set fetches'" for u
          using ih that by (force split: if_splits)
        moreover have "uri_display u \<noteq> uri_display uri" if "u \<in> remote_inputs inputs" "u \<noteq> uri" for u
          using inj_onD [OF inj, of u uri] that by auto
        ultimately show ?thesis
          using ih parts Inr None uri unfolding more
          by (auto simp: bind_result_Inr localized_def split: if_splits)
      qed
    qed
  qed
qed

text \<open>The remote replay inputs are staged with one fetch for each distinct location, whatever the order
  and repetition of the options; when staging succeeds every input is the local copy of what was
  asked for and nothing remote is left.\<close>

theorem remote_inputs_fetched_once:
  assumes "inj_on uri_display (remote_inputs inputs)" and "materialize_inputs fetch [] inputs = (r, fetches)"
  shows "distinct fetches \<and> set fetches \<subseteq> remote_inputs inputs \<and>
    (\<forall>fs. r = Inr fs \<longrightarrow> fs = map (map_option (localized fetch)) inputs \<and> set fetches = remote_inputs inputs \<and>
       remote_inputs fs = {})"
proof -
  note spec = materialize_inputs_spec [of "{}" inputs "[]" fetch r fetches, simplified, OF assms]
  have "remote_inputs (map (map_option (localized fetch)) inputs) = {}"
    if all: "\<forall>u \<in> remote_inputs inputs. \<exists>l. fetch u = Inr l"
  proof -
    have "\<not> uri_is_remote (localized fetch u)" if "Some u \<in> set inputs" for u
      using all that by (cases "uri_is_remote u") (auto simp: remote_inputs_def localized_def split: sum.splits)
    then show ?thesis unfolding remote_inputs_def by clarsimp (metis map_option_eq_Some)
  qed
  then show ?thesis using spec by blast
qed

theorem remote_inputs_fetched_once_witness:
  "distinct (snd (materialize_inputs (\<lambda>_. Inr ''/tmp/t'') []
     [Some (S3 ''b'' ''k''), Some (Local ''x''), Some (S3 ''b'' ''k'')]))"
proof -
  let ?in = "[Some (S3 ''b'' ''k''), Some (Local ''x''), Some (S3 ''b'' ''k'')]"
  have "remote_inputs ?in = {S3 ''b'' ''k''}" by (auto simp: remote_inputs_def)
  then have "inj_on uri_display (remote_inputs ?in)" by simp
  from remote_inputs_fetched_once [OF this, of "\<lambda>_. Inr ''/tmp/t''"] show ?thesis
    by (metis prod.collapse)
qed

section \<open>The config-hash gate\<close>

lemma check_trace_hashes_iff:
  "check_trace_hashes rd expected paths = Inr () \<longleftrightarrow>
     (\<forall>p \<in> set paths. \<exists>m. rd p = Inr m \<and> tm_config_hash m = Some expected)"
  by (induction paths) (auto simp: bind_result_Inr check_trace_hash_def split: option.splits if_splits)

text \<open>The replay gate: a process that is given a trace captured by a tap without an explicit hash accepts
  it under the fingerprint of its own deployment exactly when GPU, tag and engine flags agree with the
  capture's (up to SHA-256 collisions); without an expected hash every trace passes.\<close>

theorem capture_replay_gate:
  assumes "rd path = Inr (build_meta sha256 cfg ver payload)" and "mc_config_hash cfg = None"
    and "mc_gpu cfg = Some (cf_gpu f)" and "mc_vllm_tag cfg = Some (cf_vllm_tag f)" and "mc_engine_config cfg = cf_engine_config f"
    and "newline \<notin> set (cf_gpu f @ cf_gpu g @ cf_vllm_tag f @ cf_vllm_tag g)"
    and "sha256 (canonical f) = sha256 (canonical g) \<longrightarrow> canonical f = canonical g"
    and "sha256 (canonical g) \<noteq> []"
  shows "(verify_config_hash rd (fingerprint_hash sha256 g) [Some (Local path), None, Some (Local path)] = Inr () \<longleftrightarrow> f = g) \<and>
    verify_config_hash rd [] inputs = Inr ()"
proof (intro conjI)
  have hash: "tm_config_hash (build_meta sha256 cfg ver payload) = Some (fingerprint_hash sha256 f)"
    using assms(2-5) by (cases f) (simp add: build_meta_def)
  have "fingerprint_hash sha256 g \<noteq> []"
    using assms(8) by (cases "sha256 (canonical g)") (simp_all add: fingerprint_hash_def hex_encode_def)
  then have "verify_config_hash rd (fingerprint_hash sha256 g) [Some (Local path), None, Some (Local path)] = Inr () \<longleftrightarrow>
      fingerprint_hash sha256 f = fingerprint_hash sha256 g"
    using assms(1) hash
    by (simp add: verify_config_hash_def local_input_def bind_result_def check_trace_hash_def)
  also have "\<dots> \<longleftrightarrow> f = g"
    unfolding fingerprint_hash_def hex_encode_inj using assms(7) canonical_inj [OF assms(6)] by auto
  finally show "verify_config_hash rd (fingerprint_hash sha256 g) [Some (Local path), None, Some (Local path)] = Inr () \<longleftrightarrow> f = g" .
  show "verify_config_hash rd [] inputs = Inr ()" by (simp add: verify_config_hash_def)
qed

definition demo_capture :: tap_meta_config where
  "demo_capture = \<lparr>mc_model = ''m'', mc_gpu = Some ''H200'', mc_tp = Some 8, mc_max_num_seqs = None, mc_block_size = 16,
     mc_config_hash = None, mc_vllm_tag = Some ''v0.33.0'', mc_engine_config = []\<rparr>"

theorem capture_replay_gate_witness:
  "verify_config_hash (\<lambda>_. Inr (build_meta (map of_char) demo_capture ''0.33.0'' []))
     (fingerprint_hash (map of_char) \<lparr>cf_gpu = ''H100'', cf_vllm_tag = ''v0.33.0'', cf_engine_config = []\<rparr>)
     [Some (Local ''t''), None, Some (Local ''t'')] \<noteq> Inr ()"
proof -
  let ?sha = "map of_char :: string \<Rightarrow> u8 list"
  let ?f = "\<lparr>cf_gpu = ''H200'', cf_vllm_tag = ''v0.33.0'', cf_engine_config = []\<rparr>"
  let ?g = "\<lparr>cf_gpu = ''H100'', cf_vllm_tag = ''v0.33.0'', cf_engine_config = []\<rparr>"
  have labels: "newline \<notin> set (cf_gpu ?f @ cf_gpu ?g @ cf_vllm_tag ?f @ cf_vllm_tag ?g)"
    by (simp add: newline_def char_of_def bit_Suc_0_iff)
  have hashes: "?sha (canonical ?f) = ?sha (canonical ?g) \<longrightarrow> canonical ?f = canonical ?g" "?sha (canonical ?g) \<noteq> []"
    by (simp_all add: canonical_def SCHEME_def)
  have meta: "mc_config_hash demo_capture = None" "mc_gpu demo_capture = Some (cf_gpu ?f)"
    "mc_vllm_tag demo_capture = Some (cf_vllm_tag ?f)" "mc_engine_config demo_capture = cf_engine_config ?f"
    by (simp_all add: demo_capture_def)
  show ?thesis
    using capture_replay_gate [where rd = "\<lambda>_. Inr (build_meta ?sha demo_capture ''0.33.0'' [])", OF refl meta labels hashes]
    by simp
qed

end
