(* ===== verification/Release_Props.thy ===== *)
theory Release_Props
  imports Release
begin

text \<open>
  The release watcher: what a roll leaves of the window, that a watch run keeps the manifest
  valid and never lowers its default, which candidate the \<^verbatim>\<open>rc\<close> line follows, how the dump of
  upstream tags is read, that the canonical tag of a version parses back and lies on its line, and
  that a pin can be repeated.
\<close>

section \<open>The stable window\<close>

abbreviation demote :: "vllm_line \<Rightarrow> vllm_line" where
  "demote l \<equiv> l\<lparr>vl_default := False\<rparr>"

lemma tracker_demote [simp]: "is_tracker (demote l) = is_tracker l"
  by (simp add: is_tracker_def)

abbreviation stable_lines :: "vllm_line list \<Rightarrow> vllm_line list" where
  "stable_lines ls \<equiv> filter (\<lambda>l. \<not> is_tracker l) ls"

lemma stable_indices_snoc:
  "stable_indices (ls @ [x]) = stable_indices ls @ (if is_tracker x then [] else [length ls])"
  by (simp add: stable_indices_def enumerate_append_eq)

lemma stable_indices_length: "length (stable_indices ls) = length (stable_lines ls)"
  by (induction ls rule: rev_induct) (simp_all add: stable_indices_snoc, simp add: stable_indices_def)

lemma last_stable:
  assumes "stable_indices ls \<noteq> []"
  obtains a x b where "ls = a @ x # b" "\<not> is_tracker x" "\<forall>y \<in> set b. is_tracker y"
    "last (stable_indices ls) = length a"
  using assms
proof (induction ls arbitrary: thesis rule: rev_induct)
  case Nil
  then show ?case by (simp add: stable_indices_def)
next
  case (snoc y ls)
  show ?case
  proof (cases "is_tracker y")
    case True
    with snoc.prems(2) have ne: "stable_indices ls \<noteq> []" by (simp add: stable_indices_snoc)
    obtain a x b where s: "ls = a @ x # b" "\<not> is_tracker x" "\<forall>z \<in> set b. is_tracker z"
      "last (stable_indices ls) = length a"
      using snoc.IH ne by blast
    have "last (stable_indices (ls @ [y])) = length a" using True s(4) by (simp add: stable_indices_snoc)
    then show ?thesis using True s(1-3) by (intro snoc.prems(1) [of a x "b @ [y]"]) auto
  next
    case False
    then show ?thesis by (intro snoc.prems(1) [of ls y "[]"]) (auto simp: stable_indices_snoc)
  qed
qed

lemma trim_step:
  assumes "length (stable_indices ls) > m"
  shows "filter is_tracker (remove_at (last (stable_indices ls)) ls) = filter is_tracker ls"
    and "stable_lines (remove_at (last (stable_indices ls)) ls) = butlast (stable_lines ls)"
    and "set (remove_at (last (stable_indices ls)) ls) \<subseteq> set ls"
proof -
  have "stable_indices ls \<noteq> []" using assms by auto
  then obtain a x b where s: "ls = a @ x # b" "\<not> is_tracker x" "\<forall>y \<in> set b. is_tracker y"
      "last (stable_indices ls) = length a"
    by (rule last_stable)
  have rest: "remove_at (last (stable_indices ls)) ls = a @ b"
    unfolding s(4) by (simp add: remove_at_def s(1))
  have none: "stable_lines b = []" using s(3) by (simp add: filter_empty_conv)
  show "filter is_tracker (remove_at (last (stable_indices ls)) ls) = filter is_tracker ls"
    unfolding rest using s(2) by (simp add: s(1))
  show "stable_lines (remove_at (last (stable_indices ls)) ls) = butlast (stable_lines ls)"
    unfolding rest using s(2) none by (simp add: s(1) butlast_append)
  show "set (remove_at (last (stable_indices ls)) ls) \<subseteq> set ls"
    unfolding rest by (auto simp: s(1))
qed

text \<open>Trimming keeps the trackers and the newest stable lines.\<close>

lemma trim_stable_shape:
  "filter is_tracker (trim_stable m ls) = filter is_tracker ls \<and>
   stable_lines (trim_stable m ls) = take m (stable_lines ls) \<and> set (trim_stable m ls) \<subseteq> set ls"
proof (induction m ls rule: trim_stable.induct)
  case (1 m ls)
  show ?case
  proof (cases "length (stable_indices ls) > m")
    case True
    have "m < length (stable_lines ls)" using True by (simp add: stable_indices_length)
    then have "m \<le> length (stable_lines ls) - 1" by linarith
    then have "take m (butlast (stable_lines ls)) = take m (stable_lines ls)"
      by (simp only: butlast_conv_take take_take min.absorb1)
    moreover have "trim_stable m ls = trim_stable m (remove_at (last (stable_indices ls)) ls)"
      using True trim_stable.simps [of m ls] by simp
    ultimately show ?thesis using 1 True trim_step [OF True] by auto
  next
    case False
    then have "trim_stable m ls = ls" using trim_stable.simps [of m ls] by simp
    then show ?thesis using False by (simp add: stable_indices_length)
  qed
qed

lemma take_first_stable: "\<forall>l \<in> set (take (first_stable_index ls) ls). is_tracker l"
  by (auto simp: first_stable_index_def position_None in_set_conv_nth dest!: position_Some
      split: option.splits)

lemma rolled_stable: "\<not> is_tracker (rolled_line (vv_minor_line v) tag to_rev)"
proof -
  obtain c s where c: "nat_str (vv_major v) = c # s"
    using nat_str_nonempty by (metis neq_Nil_conv)
  have d: "digit_val c \<noteq> None" using nat_str_chars [of c "vv_major v"] by (simp add: c)
  have "c \<noteq> CHR ''n''" "c \<noteq> CHR ''r''" using d by (auto simp: digit_val_def)
  then show ?thesis
    by (simp add: rolled_line_def is_tracker_def vv_minor_line_def c NIGHTLY_LINE_def RC_LINE_def)
qed

lemma insert_shape:
  assumes "\<not> is_tracker r" and i_def: "i = first_stable_index ls"
  shows "filter is_tracker (take i ls @ [r] @ drop i ls) = filter is_tracker ls"
    and "stable_lines (take i ls @ [r] @ drop i ls) = r # stable_lines ls"
proof -
  have split: "filter P ls = filter P (take i ls) @ filter P (drop i ls)" for P
    by (metis append_take_drop_id filter_append)
  have none: "stable_lines (take i ls) = []"
    using take_first_stable [of ls] by (simp add: filter_empty_conv i_def)
  show "filter is_tracker (take i ls @ [r] @ drop i ls) = filter is_tracker ls"
    using assms(1) by (simp add: split [of is_tracker])
  show "stable_lines (take i ls @ [r] @ drop i ls) = r # stable_lines ls"
    using assms(1) none by (simp add: split [of "\<lambda>l. \<not> is_tracker l"])
qed

lemma filter_demote: "filter P (map demote ls) = map demote (filter (\<lambda>l. P (demote l)) ls)"
  by (simp add: filter_map comp_def)

lemma roll_shape:
  assumes roll: "rolled = apply_roll_stable ls (vv_minor_line v) tag to_rev max_stable"
  shows "filter is_tracker rolled = map demote (filter is_tracker ls)"
    and "stable_lines rolled =
      take max_stable (rolled_line (vv_minor_line v) tag to_rev # map demote (stable_lines ls))"
    and "set rolled \<subseteq> insert (rolled_line (vv_minor_line v) tag to_rev) (demote ` set ls)"
proof -
  let ?r = "rolled_line (vv_minor_line v) tag to_rev"
  let ?ds = "map demote ls"
  let ?ins = "take (first_stable_index ?ds) ?ds @ [?r] @ drop (first_stable_index ?ds) ?ds"
  have rolled: "rolled = trim_stable max_stable ?ins"
    by (simp add: roll apply_roll_stable_def Let_def)
  note ins = insert_shape [OF rolled_stable refl, of ?ds v tag to_rev]
  note trim = trim_stable_shape [of max_stable ?ins]
  show "filter is_tracker rolled = map demote (filter is_tracker ls)"
    using trim unfolding rolled ins(1) filter_demote by simp
  show "stable_lines rolled = take max_stable (?r # map demote (stable_lines ls))"
    using trim unfolding rolled ins(2) filter_demote by simp
  have "set ?ins \<subseteq> insert ?r (demote ` set ls)"
    by (auto dest!: in_set_takeD in_set_dropD)
  then show "set rolled \<subseteq> insert ?r (demote ` set ls)" using trim unfolding rolled by blast
qed

lemma length_filter_split:
  "length (filter P xs) = length (filter P (filter Q xs)) + length (filter P (filter (\<lambda>x. \<not> Q x) xs))"
  by (induction xs) auto

lemma roll_defaults:
  "filter vl_default (apply_roll_stable ls (vv_minor_line v) tag to_rev max_stable) =
    (if max_stable = 0 then [] else [rolled_line (vv_minor_line v) tag to_rev])"
proof -
  let ?r = "rolled_line (vv_minor_line v) tag to_rev"
  let ?roll = "apply_roll_stable ls (vv_minor_line v) tag to_rev max_stable"
  have demoted: "filter vl_default (map demote xs) = []" for xs
    by (simp add: filter_empty_conv)
  have only: "x = ?r" if "x \<in> set (filter vl_default ?roll)" for x
    using that roll_shape(3) [OF refl, of ls v tag to_rev max_stable] by auto
  have "filter vl_default (stable_lines ?roll) = (if max_stable = 0 then [] else [?r])"
    unfolding roll_shape(2) [OF refl]
    by (cases max_stable) (auto simp: rolled_line_def take_map demoted)
  moreover have "filter vl_default (filter is_tracker ?roll) = []"
    unfolding roll_shape(1) [OF refl] by (rule demoted)
  ultimately have "length (filter vl_default ?roll) = (if max_stable = 0 then 0 else 1)"
    using length_filter_split [of vl_default ?roll is_tracker] by simp
  then show ?thesis
    using only by (cases "filter vl_default ?roll") (auto split: if_splits)
qed

text \<open>A roll demotes every line, puts the new line at the head of the stable lines and keeps the
  newest \<open>max_stable\<close> of them; the nightly and rc trackers stay in order and are neither counted nor
  removed. The new line is then the only default - unless \<open>max_stable\<close> is 0, where the trim removes
  it again and the file that is written has no default line.\<close>

theorem roll_keeps_window:
  "filter is_tracker (apply_roll_stable ls (vv_minor_line v) tag to_rev max_stable) =
     map demote (filter is_tracker ls) \<and>
   filter (\<lambda>l. \<not> is_tracker l) (apply_roll_stable ls (vv_minor_line v) tag to_rev max_stable) =
     take max_stable (rolled_line (vv_minor_line v) tag to_rev #
                      map demote (filter (\<lambda>l. \<not> is_tracker l) ls)) \<and>
   filter vl_default (apply_roll_stable ls (vv_minor_line v) tag to_rev max_stable) =
     (if max_stable = 0 then [] else [rolled_line (vv_minor_line v) tag to_rev])"
  by (intro conjI roll_shape(1,2) [OF refl] roll_defaults)

section \<open>A watch of the releases\<close>

lemma find_position:
  "List.find P xs = (case position P xs of None \<Rightarrow> None | Some i \<Rightarrow> Some (xs ! i))"
  by (induction xs) (auto split: option.splits)

lemma find_filter: "List.find P xs = (case filter P xs of [] \<Rightarrow> None | x # _ \<Rightarrow> Some x)"
  by (induction xs) auto

lemma position_map: "position P (map f xs) = position (\<lambda>x. P (f x)) xs"
  by (induction xs) auto

lemma map_set_fields:
  assumes "\<And>l. P (set_fields tag to_rev l) = P l"
  shows "map P (ls[i := set_fields tag to_rev (ls ! i)]) = map P ls"
  by (cases "i < length ls") (simp_all add: map_update assms list_update_same_conv list_update_beyond)

lemma position_set_fields:
  assumes "\<And>l. P (set_fields tag to_rev l) = P l"
  shows "position P (ls[i := set_fields tag to_rev (ls ! i)]) = position P ls"
  using map_set_fields [of P, OF assms] position_map [of "\<lambda>b. b" P] by metis

lemma length_filter_map: "length (filter P xs) = length (filter (\<lambda>b. b) (map P xs))"
  by (simp add: filter_map comp_def)

lemma length_filter_set_fields:
  assumes "\<And>l. P (set_fields tag to_rev l) = P l"
  shows "length (filter P (ls[i := set_fields tag to_rev (ls ! i)])) = length (filter P ls)"
  unfolding length_filter_map [of P] map_set_fields [of P, OF assms] ..

lemma set_fields_keeps [simp]:
  "vl_line (set_fields tag to_rev l) = vl_line l"
  "vl_default (set_fields tag to_rev l) = vl_default l"
  "vl_patch_repo (set_fields tag to_rev l) = vl_patch_repo l"
  "vl_patch_rev (set_fields tag to_rev l) = vl_patch_rev l"
  "vl_tag (set_fields (Some t) to_rev l) = t"
  by (simp_all add: set_fields_def)

abbreviation half_patched :: "vllm_line \<Rightarrow> bool" where
  "half_patched l \<equiv> (vl_patch_repo l = None) \<noteq> (vl_patch_rev l = None)"

lemma validate_manifest_iff:
  "validate_manifest ls = Inr () \<longleftrightarrow>
     length (filter vl_default ls) = 1 \<and> filter half_patched ls = []"
  by (auto simp: validate_manifest_def list_ex_iff filter_empty_conv)

lemma validate_set_fields:
  "validate_manifest (ls[i := set_fields tag to_rev (ls ! i)]) = Inr () \<longleftrightarrow> validate_manifest ls = Inr ()"
proof -
  have "length (filter half_patched (ls[i := set_fields tag to_rev (ls ! i)])) =
      length (filter half_patched ls)"
    by (rule length_filter_set_fields) simp
  then show ?thesis
    using length_filter_set_fields [of vl_default tag to_rev ls i]
    by (simp add: validate_manifest_iff flip: length_0_conv)
qed

lemma default_set_fields:
  assumes "default_line ls = Inr d"
  obtains j where "j < length ls" "d = ls ! j"
    "default_line (ls[i := set_fields tag to_rev (ls ! i)]) =
       Inr (ls[i := set_fields tag to_rev (ls ! i)] ! j)"
proof -
  obtain j where j: "position vl_default ls = Some j" "d = ls ! j"
    using assms by (auto simp: default_line_def find_position split: option.splits)
  show thesis
    using j position_Some [OF j(1)] position_set_fields [of vl_default tag to_rev ls i]
    by (intro that [of j]) (simp_all add: default_line_def find_position)
qed

lemma manifest_line_Some:
  assumes "manifest_line ls minor = Some e"
  obtains i where "position (\<lambda>l. vl_line l = minor) ls = Some i" "i < length ls" "e = ls ! i" "vl_line e = minor"
  using assms position_Some
  by (fastforce simp: manifest_line_def find_position split: option.splits)

text \<open>What a watch run promises of the tables and of the summary it prints.\<close>

definition keeps_default :: "vllm_line list \<Rightarrow> vllm_line \<Rightarrow> vllm_version \<Rightarrow> watch_run \<Rightarrow> bool" where
  "keeps_default ls d v r \<longleftrightarrow>
     validate_manifest (fst r) = Inr () \<and>
     (\<exists>d' v'. default_line (fst r) = Inr d' \<and> parse_version (vl_tag d') = Some v' \<and> v \<le> v' \<and>
        (case snd r of
           Inl e \<Rightarrow> d' = d
         | Inr None \<Rightarrow> fst r = ls
         | Inr (Some summary) \<Rightarrow> ws_changed summary \<and> (ws_is_default summary \<longleftrightarrow> d' \<noteq> d)))"

lemma keeps_default_same:
  assumes "validate_manifest ls = Inr ()" "default_line ls = Inr d" "parse_version (vl_tag d) = Some v"
    and "case r of Inr (Some _) \<Rightarrow> False | _ \<Rightarrow> True"
  shows "keeps_default ls d v (ls, r)"
  using assms by (auto simp: keeps_default_def split: sum.splits option.splits)

lemma patch_bump_keeps:
  assumes valid: "validate_manifest ls = Inr ()" and distinct_lines: "distinct (map vl_line ls)"
    and d: "default_line ls = Inr d" and v: "parse_version (vl_tag d) = Some v"
    and e: "manifest_line ls minor = Some e" and tag: "parse_version tag = Some newest"
  shows "keeps_default ls d v (patch_bump newest tag to_rev e ls)"
proof (cases "\<exists>current. parse_version (vl_tag e) = Some current \<and> \<not> newest \<le> current")
  case False
  then show ?thesis
    using keeps_default_same [OF valid d v]
    by (auto simp: patch_bump_def split: option.splits)
next
  case True
  then obtain current where current: "parse_version (vl_tag e) = Some current" "\<not> newest \<le> current" by blast
  obtain i where i: "position (\<lambda>l. vl_line l = minor) ls = Some i" "i < length ls" "e = ls ! i" "vl_line e = minor"
    using e by (rule manifest_line_Some)
  let ?ls = "ls[i := set_fields (Some tag) (Some to_rev) (ls ! i)]"
  obtain j where j: "j < length ls" "d = ls ! j" "default_line ?ls = Inr (?ls ! j)"
    using d by (rule default_set_fields)
  have run: "patch_bump newest tag to_rev e ls =
      (?ls, Inr (Some (watch_summary_of (if vl_line d = minor then ChangedDefault else ChangedTransient) tag minor to_rev)))"
    using current i d by (simp add: patch_bump_def apply_set_line_def bind_result_def)
  have same: "vl_line d = minor \<longleftrightarrow> j = i"
    using distinct_lines i j(1,2) by (auto simp: distinct_conv_nth)
  have moved: "set_fields (Some tag) (Some to_rev) (ls ! i) \<noteq> ls ! i"
    using current tag i(3) by (auto dest!: arg_cong [of _ _ vl_tag])
  have "v \<le> newest" if "j = i" using that current v i(3) j(2) by auto
  then show ?thesis
    using run valid v tag j i(2) same moved
    by (auto simp: keeps_default_def validate_set_fields watch_summary_of_def nth_list_update)
qed

lemma roll_window_keeps:
  assumes valid: "validate_manifest ls = Inr ()" and pos: "0 < max_stable"
    and d: "default_line ls = Inr d" and v: "parse_version (vl_tag d) = Some v"
    and fresh: "manifest_line ls (vv_minor_line newest) = None" and tag: "parse_version tag = Some newest"
  shows "keeps_default ls d v (roll_window newest tag to_rev max_stable ls)"
proof (cases "newest \<le> v")
  case True
  then show ?thesis using keeps_default_same [OF valid d v] d v by (simp add: roll_window_def)
next
  case False
  let ?ls = "apply_roll_stable ls (vv_minor_line newest) tag to_rev max_stable"
  let ?r = "rolled_line (vv_minor_line newest) tag to_rev"
  have defaults: "filter vl_default ?ls = [?r]"
    using roll_defaults [of ls newest tag to_rev max_stable] pos by simp
  have "\<not> half_patched l" if "l \<in> set ?ls" for l
    using that roll_shape(3) [OF refl, of ls newest tag to_rev max_stable] valid
    by (auto simp: rolled_line_def validate_manifest_iff filter_empty_conv)
  then have ok: "validate_manifest ?ls = Inr ()"
    using defaults by (simp add: validate_manifest_iff filter_empty_conv)
  have found: "default_line ?ls = Inr ?r"
    using defaults find_filter [of vl_default ?ls] by (simp add: default_line_def)
  have "d \<in> set ls" using d by (auto simp: default_line_def find_Some_iff split: option.splits)
  then have "?r \<noteq> d" using fresh by (auto simp: manifest_line_def find_None_iff rolled_line_def)
  then show ?thesis
    using ok found False d v tag
    by (auto simp: roll_window_def keeps_default_def Let_def bind_result_def watch_summary_of_def rolled_line_def)
qed
text \<open>C22: On a valid manifest with distinct lines and a window of at least one, a stable watch - whatever
  tags and release it is given, and whether it succeeds, does nothing or fails - leaves a manifest
  that still validates and whose default line is never of an older version; the printed summary
  says \<^verbatim>\<open>is_default\<close> exactly when the default line moved.\<close>

theorem watch_stable_never_downgrades:
  assumes "validate_manifest ls = Inr ()" and "distinct (map vl_line ls)" and "0 < max_stable"
    and "default_line ls = Inr d" and "parse_version (vl_tag d) = Some v"
  shows "keeps_default ls d v (watch_stable tags_text latest_stable max_stable ls)"
  using assms keeps_default_same [OF assms(1,4,5)]
    patch_bump_keeps [OF assms(1,2,4,5), where tag = latest_stable]
    roll_window_keeps [OF assms(1,3,4,5), where tag = latest_stable]
  by (auto simp: watch_stable_def split: option.splits)
text \<open>The window of the repository's file, and a release that rolls it.\<close>

definition demo_line :: "string \<Rightarrow> string \<Rightarrow> bool \<Rightarrow> vllm_line" where
  "demo_line line tag is_default =
     \<lparr>vl_line = line, vl_tag = tag, vl_protocol_rev = ''4ba787ec'', vl_patch_repo = None,
      vl_patch_rev = None, vl_default = is_default\<rparr>"

definition demo_window :: "vllm_line list" where
  "demo_window =
     [demo_line ''nightly'' ''nightly'' False, demo_line ''rc'' ''v0.32.1rc0'' False,
      demo_line ''0.33'' ''v0.33.0'' True, demo_line ''0.32'' ''v0.32.0'' False]"

definition demo_dump :: string where
  "demo_dump = ''a1'' @ [char_of (9 :: nat)] @ ''refs/tags/v0.34.0'' @ [newline] @
               ''b2'' @ [char_of (9 :: nat)] @ ''refs/tags/v0.34.0^{}'' @ [newline]"

lemma watch_stable_never_downgrades_witness:
  "keeps_default demo_window (demo_line ''0.33'' ''v0.33.0'' True) (VllmVersion 0 33 0 None)
     (watch_stable demo_dump ''v0.34.0'' 2 demo_window)"
proof (rule watch_stable_never_downgrades)
  show "validate_manifest demo_window = Inr ()"
    by (simp add: validate_manifest_def demo_window_def demo_line_def)
  show "distinct (map vl_line demo_window)" by (simp add: demo_window_def demo_line_def)
  show "default_line demo_window = Inr (demo_line ''0.33'' ''v0.33.0'' True)"
    by (simp add: default_line_def demo_window_def demo_line_def)
  have "parse_version ''v0.33.0'' = Some (VllmVersion 0 33 0 None)"
    by (simp add: parse_version_def trim_def is_space_def str_starts_with_def parse_u32_field_def
        parse_usize_def digit_val_def)
  then show "parse_version (vl_tag (demo_line ''0.33'' ''v0.33.0'' True)) = Some (VllmVersion 0 33 0 None)"
    by (simp add: demo_line_def)
qed simp

section \<open>Upstream tags\<close>

text \<open>A line of the dump as tag, whether it is peeled, and commit.\<close>

definition tag_entry :: "string \<Rightarrow> (string \<times> bool \<times> string) list" where
  "tag_entry line =
     (case split_once [char_of (9 :: nat)] line of
        None \<Rightarrow> []
      | Some (sha, refname) \<Rightarrow>
          (case strip_prefix ''refs/tags/'' (trim refname) of
             None \<Rightarrow> []
           | Some tag \<Rightarrow>
               (case strip_suffix ''^{}'' tag of
                  Some name \<Rightarrow> [(name, True, trim sha)]
                | None \<Rightarrow> [(tag, False, trim sha)])))"

definition tag_shas :: "bool \<Rightarrow> string \<Rightarrow> string list \<Rightarrow> string list" where
  "tag_shas peeled name ls =
     concat (map (\<lambda>l. map (snd \<circ> snd) (filter (\<lambda>e. fst e = name \<and> fst (snd e) = peeled) (tag_entry l))) ls)"

text \<open>The last peeled line of a tag, else its first plain one.\<close>

definition tag_commit :: "string \<Rightarrow> string list \<Rightarrow> string option" where
  "tag_commit name ls =
     (if tag_shas True name ls \<noteq> [] then Some (last (tag_shas True name ls))
      else if tag_shas False name ls \<noteq> [] then Some (hd (tag_shas False name ls)) else None)"

lemma tag_shas_snoc:
  "tag_shas peeled name (ls @ [l]) =
     tag_shas peeled name ls @
     map (snd \<circ> snd) (filter (\<lambda>e. fst e = name \<and> fst (snd e) = peeled) (tag_entry l))"
  by (simp add: tag_shas_def)

lemma insert_tag_entry:
  "insert_tag line tags =
     (case tag_entry line of
        [] \<Rightarrow> tags
      | (name, True, sha) # _ \<Rightarrow> bt_insert name sha tags
      | (name, False, sha) # _ \<Rightarrow> if bt_get tags name = None then bt_insert name sha tags else tags)"
  by (auto simp: insert_tag_def tag_entry_def split: option.splits prod.splits)

lemma tag_entry_length: "length (tag_entry line) \<le> 1"
  by (auto simp: tag_entry_def split: option.splits prod.splits)

lemma tag_entry_cases:
  obtains "tag_entry line = []" | name sha where "tag_entry line = [(name, True, sha)]"
  | name sha where "tag_entry line = [(name, False, sha)]"
proof (cases "tag_entry line")
  case (Cons e es)
  then have "es = []" using tag_entry_length [of line] by simp
  then show thesis using Cons that by (cases e; cases "fst (snd e)") auto
qed (use that in blast)

lemma fold_tags: "bt_get (fold insert_tag ls []) name = tag_commit name ls"
proof (induction ls rule: rev_induct)
  case Nil
  then show ?case by (simp add: tag_commit_def tag_shas_def)
next
  case (snoc l ls)
  then show ?case
    by (cases rule: tag_entry_cases [of l])
      (auto simp: insert_tag_entry bt_get_insert tag_commit_def tag_shas_snoc split: if_splits)
qed

lemma fold_tags_inv: "bt_inv m \<Longrightarrow> bt_inv (fold insert_tag ls m)"
  by (induction ls arbitrary: m) (auto simp: insert_tag_entry bt_inv_insert split: list.splits bool.splits)

text \<open>In the tag dump the commit of an annotated tag is the one its peeled line names, wherever that
  line stands relative to the tag-object line; a lightweight tag keeps its first line.\<close>

theorem peeled_tag_wins:
  "bt_get (parse_ls_remote text) name = tag_commit name (str_lines text)"
  unfolding parse_ls_remote_def by (rule fold_tags)

section \<open>Release candidates\<close>

lemma max_by_key_None: "max_by_key f xs = None \<longleftrightarrow> xs = []"
  by (cases xs) (auto split: option.splits)

lemma max_by_key_Some:
  "max_by_key f xs = Some x \<Longrightarrow> x \<in> set xs \<and> (\<forall>y \<in> set xs. f y \<le> f x)"
  by (induction xs arbitrary: x) (fastforce simp: max_by_key_None split: option.splits if_splits)+

lemma rc_candidates_iff:
  assumes "bt_inv tags"
  shows "(v, name, sha) \<in> set (rc_candidates tags current) \<longleftrightarrow>
    bt_get tags name = Some sha \<and> parse_version name = Some v \<and> vv_rc v \<noteq> None \<and> current < v"
  using bt.elems_get [OF assms, of name sha]
  by (auto simp: rc_candidates_def split: option.splits)

text \<open>Whether a tag of the dump is a candidate newer than the given release.\<close>

definition newer_rc :: "string \<Rightarrow> vllm_version \<Rightarrow> string \<Rightarrow> vllm_version \<Rightarrow> bool" where
  "newer_rc tags_text current name v \<longleftrightarrow>
     bt_get (parse_ls_remote tags_text) name \<noteq> None \<and> parse_version name = Some v \<and>
     vv_rc v \<noteq> None \<and> current < v"

lemma pick_latest_rc_spec:
  "case pick_latest_rc (parse_ls_remote tags_text) current of
     None \<Rightarrow> \<forall>name v. \<not> newer_rc tags_text current name v
   | Some (tag, sha) \<Rightarrow>
       bt_get (parse_ls_remote tags_text) tag = Some sha \<and>
       (\<exists>v. newer_rc tags_text current tag v \<and> (\<forall>name w. newer_rc tags_text current name w \<longrightarrow> w \<le> v))"
proof -
  let ?tags = "parse_ls_remote tags_text"
  have inv: "bt_inv ?tags" by (simp add: parse_ls_remote_def fold_tags_inv)
  have cand: "newer_rc tags_text current name v \<longleftrightarrow>
      (\<exists>sha. (v, name, sha) \<in> set (rc_candidates ?tags current))" for name v
    using rc_candidates_iff [OF inv] by (auto simp: newer_rc_def)
  show ?thesis
  proof (cases "max_by_key fst (rc_candidates ?tags current)")
    case None
    then show ?thesis using cand by (auto simp: pick_latest_rc_def max_by_key_None)
  next
    case (Some x)
    obtain v tag sha where x: "x = (v, tag, sha)" by (cases x)
    have mem: "(v, tag, sha) \<in> set (rc_candidates ?tags current)"
      and top: "\<And>w name s. (w, name, s) \<in> set (rc_candidates ?tags current) \<Longrightarrow> w \<le> v"
      using max_by_key_Some [OF Some] x by auto
    then show ?thesis
      using Some x cand rc_candidates_iff [OF inv, of v tag sha current]
      by (auto simp: pick_latest_rc_def)
  qed
qed

text \<open>On a manifest with an rc line, an rc watch either finds no candidate newer than the stable
  release and leaves the manifest as it is - an rc line that is now behind the window too - or
  moves exactly the rc line to the greatest such candidate of the dump, and reports whether the
  tables changed.\<close>

theorem watch_rc_follows_newest:
  assumes "parse_version latest_stable = Some current" and "position (\<lambda>l. vl_line l = RC_LINE) ls = Some i"
  shows "case watch_rc tags_text latest_stable ls of
      (ls', Inl e) \<Rightarrow> False
    | (ls', Inr None) \<Rightarrow> ls' = ls \<and> (\<forall>name v. \<not> newer_rc tags_text current name v)
    | (ls', Inr (Some summary)) \<Rightarrow>
        ls' = ls[i := set_fields (Some (ws_tag summary)) (Some (ws_rev summary)) (ls ! i)] \<and>
        bt_get (parse_ls_remote tags_text) (ws_tag summary) = Some (ws_rev summary) \<and>
        (\<exists>v. newer_rc tags_text current (ws_tag summary) v \<and>
             (\<forall>name w. newer_rc tags_text current name w \<longrightarrow> w \<le> v)) \<and>
        (ws_changed summary \<longleftrightarrow> ls' \<noteq> ls) \<and> ws_line summary = RC_LINE \<and> \<not> ws_is_default summary"
proof (cases "pick_latest_rc (parse_ls_remote tags_text) current")
  case None
  then show ?thesis using assms(1) pick_latest_rc_spec [of tags_text current] by (simp add: watch_rc_def)
next
  case (Some p)
  obtain tag sha where p: "p = (tag, sha)" by (cases p)
  have i: "i < length ls" using position_Some [OF assms(2)] by simp
  let ?new = "set_fields (Some tag) (Some sha) (ls ! i)"
  have moved: "fields_moved (Some tag) (Some sha) (ls ! i) \<longleftrightarrow> ?new \<noteq> ls ! i"
    by (cases "ls ! i") (auto simp: fields_moved_def set_fields_def)
  have "ls[i := ?new] \<noteq> ls \<longleftrightarrow> ?new \<noteq> ls ! i" using i by (metis list_update_id nth_list_update_eq)
  then show ?thesis
    using assms Some p moved pick_latest_rc_spec [of tags_text current]
    by (simp add: watch_rc_def apply_set_line_def watch_summary_of_def)
qed

lemma watch_rc_follows_newest_witness:
  "fst (watch_rc demo_dump ''v0.33.0'' demo_window) ! 3 = demo_line ''0.32'' ''v0.32.0'' False"
proof -
  have v: "parse_version ''v0.33.0'' = Some (VllmVersion 0 33 0 None)"
    by (simp add: parse_version_def trim_def is_space_def str_starts_with_def parse_u32_field_def
        parse_usize_def digit_val_def)
  have "position (\<lambda>l. vl_line l = RC_LINE) demo_window = Some 1"
    by (simp add: demo_window_def demo_line_def RC_LINE_def)
  from watch_rc_follows_newest [OF v this, of demo_dump]
  have "fst (watch_rc demo_dump ''v0.33.0'' demo_window) ! 3 = demo_window ! 3"
    by (auto split: prod.splits sum.splits option.splits)
  then show ?thesis by (simp add: demo_window_def)
qed

section \<open>Tags and lines\<close>

text \<open>The tag upstream cuts for a version.\<close>

definition tag_of :: "vllm_version \<Rightarrow> string" where
  "tag_of v =
     ''v'' @ nat_str (vv_major v) @ ''.'' @ nat_str (vv_minor v) @ ''.'' @ nat_str (vv_patch v) @
     (case vv_rc v of None \<Rightarrow> [] | Some n \<Rightarrow> ''rc'' @ nat_str n)"

definition version_fits :: "vllm_version \<Rightarrow> bool" where
  "version_fits v \<longleftrightarrow>
     vv_major v < 2 ^ 32 \<and> vv_minor v < 2 ^ 32 \<and> vv_patch v < 2 ^ 32 \<and>
     (case vv_rc v of None \<Rightarrow> True | Some n \<Rightarrow> n < 2 ^ 32)"

lemma split_on_append: "c \<notin> set xs \<Longrightarrow> split_on c (xs @ c # ys) = xs # split_on c ys"
  by (induction xs) auto

lemma split_on_single: "c \<notin> set xs \<Longrightarrow> split_on c xs = [xs]"
  by (induction xs) auto

lemma dropWhile_none: "\<forall>c \<in> set s. \<not> P c \<Longrightarrow> dropWhile P s = s"
  by (cases s) auto

lemma trim_none: "\<forall>c \<in> set s. \<not> is_space c \<Longrightarrow> trim s = s"
  by (simp add: trim_def dropWhile_none)

lemma split_once_rc:
  "\<forall>c \<in> set xs. c \<noteq> CHR ''r'' \<Longrightarrow> split_once ''rc'' (xs @ ''rc'' @ ys) = Some (xs, ys)"
  by (induction xs) (auto simp: str_starts_with_def)

lemma split_once_none: "\<forall>c \<in> set xs. c \<noteq> CHR ''r'' \<Longrightarrow> split_once ''rc'' xs = None"
  by (induction xs) (auto simp: str_starts_with_def)

lemma nat_str_no: "digit_val c = None \<Longrightarrow> c \<notin> set (nat_str n)"
  using nat_str_chars by blast

lemma digit_not_space: "digit_val c \<noteq> None \<Longrightarrow> \<not> is_space c"
  by (auto simp: digit_val_def is_space_def Let_def split: if_splits)

lemma parse_u32_nat_str: "n < 2 ^ 32 \<Longrightarrow> parse_u32_field (nat_str n) = Some n"
  using nat_str_not_plus [of n]
  by (simp add: parse_u32_field_def parse_usize_def nat_str_nonempty parse_digits_nat_str)

lemma tag_fields:
  "split_on (CHR ''.'') (dropWhile (\<lambda>c. c = CHR ''v'') (trim (tag_of v))) =
     [nat_str (vv_major v), nat_str (vv_minor v),
      nat_str (vv_patch v) @ (case vv_rc v of None \<Rightarrow> [] | Some n \<Rightarrow> ''rc'' @ nat_str n)]"
proof -
  let ?rest = "nat_str (vv_patch v) @ (case vv_rc v of None \<Rightarrow> [] | Some n \<Rightarrow> ''rc'' @ nat_str n)"
  have "\<forall>c \<in> set (tag_of v). \<not> is_space c"
    using nat_str_chars digit_not_space
    by (fastforce simp: tag_of_def is_space_def split: option.splits)
  then have "trim (tag_of v) = tag_of v" by (rule trim_none)
  then have trimmed: "trim (tag_of v) =
      CHR ''v'' # nat_str (vv_major v) @ CHR ''.'' # nat_str (vv_minor v) @ CHR ''.'' # ?rest"
    by (simp add: tag_of_def)
  have no_v: "dropWhile (\<lambda>c. c = CHR ''v'') (nat_str n @ s) = nat_str n @ s" for n s
    using nat_str_nonempty [of n] nat_str_no [of "CHR ''v''" n]
    by (cases "nat_str n") (auto simp: digit_val_def)
  have dots: "CHR ''.'' \<notin> set (nat_str n)" for n by (rule nat_str_no) (simp add: digit_val_def)
  then have "CHR ''.'' \<notin> set ?rest" by (auto split: option.splits)
  then show ?thesis
    unfolding trimmed using dots by (simp add: no_v split_on_append split_on_single)
qed

lemma parse_tag_of: "version_fits v \<Longrightarrow> parse_version (tag_of v) = Some v"
proof -
  assume fits: "version_fits v"
  have no_r: "\<forall>c \<in> set (nat_str n). c \<noteq> CHR ''r''" for n
    using nat_str_no [of "CHR ''r''" n] by (auto simp: digit_val_def)
  show ?thesis
    using fits unfolding parse_version_def tag_fields
    by (cases v; cases "vv_rc v")
      (auto simp: version_fits_def parse_u32_nat_str split_once_none [OF no_r]
        split_once_rc [OF no_r, simplified])
qed

lemma minor_line_tag_of: "minor_line (tag_of v) = Some (vv_minor_line v)"
proof -
  have digits: "list_all is_ascii_digit (nat_str n)" for n
    using nat_str_chars by (auto simp: list_all_iff is_ascii_digit_def)
  have all: "takeWhile is_ascii_digit (nat_str n) = nat_str n" for n
    using digits [of n] by (simp add: list_all_iff takeWhile_eq_all_conv)
  show ?thesis
    unfolding minor_line_def tag_fields by (simp add: digits all nat_str_nonempty vv_minor_line_def Let_def)
qed

text \<open>The canonical tag of every version whose numbers fit parses back to that version, the two
  readings of its line - the watcher's and the one the handshake guard and the build use - agree,
  and a candidate sorts after every version below its own release and before the release itself.\<close>

theorem canonical_tag_agrees:
  assumes "version_fits v"
  shows "parse_version (tag_of v) = Some v \<and> minor_line (tag_of v) = Some (vv_minor_line v) \<and>
    (vv_rc v \<noteq> None \<longrightarrow> v < VllmVersion (vv_major v) (vv_minor v) (vv_patch v) None \<and>
       (\<forall>w. vv_rc w = None \<longrightarrow> w < VllmVersion (vv_major v) (vv_minor v) (vv_patch v) None \<longrightarrow> w < v))"
proof (intro conjI impI)
  show "parse_version (tag_of v) = Some v" using assms by (rule parse_tag_of)
  show "minor_line (tag_of v) = Some (vv_minor_line v)" by (rule minor_line_tag_of)
  assume "vv_rc v \<noteq> None"
  then show "v < VllmVersion (vv_major v) (vv_minor v) (vv_patch v) None"
    and "\<forall>w. vv_rc w = None \<longrightarrow> w < VllmVersion (vv_major v) (vv_minor v) (vv_patch v) None \<longrightarrow> w < v"
    by (auto simp: less_vllm_version_def cmp_version_key cmp_of_cases version_key_def split: if_splits)
qed

lemma canonical_tag_agrees_witness:
  "parse_version (tag_of (VllmVersion 0 32 1 (Some 0))) = Some (VllmVersion 0 32 1 (Some 0)) \<and>
   minor_line (tag_of (VllmVersion 0 32 1 (Some 0))) = Some (vv_minor_line (VllmVersion 0 32 1 (Some 0))) \<and>
   VllmVersion 0 32 1 (Some 0) < VllmVersion 0 32 1 None \<and> VllmVersion 0 32 0 None < VllmVersion 0 32 1 (Some 0)"
proof -
  have fits: "version_fits (VllmVersion 0 32 1 (Some 0))" by (simp add: version_fits_def)
  have "VllmVersion 0 32 0 None < VllmVersion 0 32 1 None" by code_simp
  then show ?thesis using canonical_tag_agrees [OF fits] by simp
qed

section \<open>Pinning\<close>

text \<open>The override of a crate of a source.\<close>

definition patched_with :: "cargo_doc \<Rightarrow> string \<Rightarrow> string \<Rightarrow> (string \<times> string) option" where
  "patched_with doc src crate =
     (case cd_patch doc of
        None \<Rightarrow> None
      | Some m \<Rightarrow> (case map_of m src of None \<Rightarrow> None | Some t \<Rightarrow> map_of t crate))"

lemma map_of_assoc_remove: "map_of (assoc_remove k m) k' = (if k' = k then None else map_of m k')"
  by (induction m) (auto simp: assoc_remove_def)

lemma map_of_assoc_set: "map_of (assoc_set k v m) k' = (if k' = k then Some v else map_of m k')"
  by (induction m) auto

lemma assoc_set_again [simp]: "assoc_set k v (assoc_set k w m) = assoc_set k v m"
  by (induction m) auto

lemma assoc_remove_set: "map_of m k = None \<Longrightarrow> assoc_remove k (assoc_set k v m) = m"
  by (induction m) (auto simp: assoc_remove_def split: if_splits intro!: filter_True)

lemma assoc_remove_idem [simp]: "assoc_remove k (assoc_remove k m) = assoc_remove k m"
  by (simp add: assoc_remove_def)

lemma assoc_set_nonempty [simp]: "assoc_set k v m \<noteq> []"
  by (cases m) auto


lemma assoc_set_same: "map_of m k = Some v \<Longrightarrow> assoc_set k v m = m"
  by (induction m) (auto split: if_splits)

lemma assoc_remove_absent: "map_of m k = None \<Longrightarrow> assoc_remove k m = m"
  by (induction m) (auto simp: assoc_remove_def split: if_splits)

text \<open>A patch table without an override of the client, and without empty tables.\<close>

definition unpatched :: "patch_table option \<Rightarrow> bool" where
  "unpatched q \<longleftrightarrow>
     (case q of
        None \<Rightarrow> True
      | Some m \<Rightarrow> m \<noteq> [] \<and>
          (case map_of m VLLM_GIT of None \<Rightarrow> True | Some src \<Rightarrow> src \<noteq> [] \<and> map_of src CLIENT_CRATE = None))"

lemma unpatched_strip: "unpatched (strip_patch p)"
  by (auto simp: strip_patch_def unpatched_def Let_def map_of_assoc_set map_of_assoc_remove split: option.splits)

lemma strip_unpatched: "unpatched q \<Longrightarrow> strip_patch q = q"
  by (auto simp: strip_patch_def unpatched_def Let_def assoc_remove_absent assoc_set_same split: option.splits)

text \<open>The table with the override put in.\<close>

definition with_fork :: "string \<times> string \<Rightarrow> patch_table option \<Rightarrow> patch_table" where
  "with_fork fork q =
     (let m = (case q of None \<Rightarrow> [] | Some m \<Rightarrow> m);
          src = (case map_of m VLLM_GIT of None \<Rightarrow> [] | Some src \<Rightarrow> src)
      in assoc_set VLLM_GIT (assoc_set CLIENT_CRATE fork src) m)"

lemma strip_with_fork:
  assumes q: "unpatched q"
  shows "strip_patch (Some (with_fork fork q)) = q"
proof (cases "q = None \<or> map_of (the q) VLLM_GIT = None")
  case True
  then show ?thesis
    using q by (auto simp: with_fork_def Let_def strip_patch_def unpatched_def map_of_assoc_set
      assoc_remove_def [of CLIENT_CRATE] assoc_remove_set split: option.splits) (simp add: assoc_remove_def)
next
  case False
  then obtain m src where m: "q = Some m" "map_of m VLLM_GIT = Some src" by auto
  with q have "src \<noteq> []" "map_of src CLIENT_CRATE = None" by (simp_all add: unpatched_def)
  then show ?thesis
    using m by (simp add: with_fork_def Let_def strip_patch_def map_of_assoc_set assoc_remove_set assoc_set_same)
      (metis assoc_set_nonempty assoc_set_same)
qed

lemma apply_pin_result:
  "apply_pin doc to_rev patch_repo patch_rev =
     (case cd_dep_rev doc of
        None \<Rightarrow> Inl ''workspace.dependencies.vllm-engine-core-client must be an inline table''
      | Some _ \<Rightarrow>
          (case patch_rev of
             None \<Rightarrow> Inr (doc\<lparr>cd_dep_rev := Some to_rev, cd_patch := strip_patch (cd_patch doc)\<rparr>)
           | Some fork_rev \<Rightarrow>
               (case patch_repo of
                  None \<Rightarrow> Inl ''patch_rev without patch_repo in compat.toml''
                | Some repo \<Rightarrow>
                    Inr (doc\<lparr>cd_dep_rev := Some to_rev,
                             cd_patch := Some (with_fork (repo, fork_rev) (strip_patch (cd_patch doc)))\<rparr>))))"
  by (simp add: apply_pin_def with_fork_def Let_def split: option.splits)

lemma assoc_remove_empty: "assoc_remove k m = [] \<Longrightarrow> k' \<noteq> k \<Longrightarrow> map_of m k' = None"
  using map_of_assoc_remove [of k m k'] by simp

lemma patched_strip:
  "patched_with (doc\<lparr>cd_dep_rev := r, cd_patch := strip_patch (cd_patch doc)\<rparr>) src crate =
     (if src = VLLM_GIT \<and> crate = CLIENT_CRATE then None else patched_with doc src crate)"
  by (auto simp: patched_with_def strip_patch_def Let_def map_of_assoc_set map_of_assoc_remove
      split: option.splits dest: assoc_remove_empty)

lemma patched_with_fork:
  "patched_with (doc\<lparr>cd_dep_rev := r, cd_patch := Some (with_fork fork q)\<rparr>) src crate =
     (if src = VLLM_GIT \<and> crate = CLIENT_CRATE then Some fork
      else patched_with (doc\<lparr>cd_dep_rev := r, cd_patch := q\<rparr>) src crate)"
  by (auto simp: patched_with_def with_fork_def Let_def map_of_assoc_set split: option.splits)

text \<open>A pin sets the base revision, overrides the client crate exactly when the line has a fork
  (an older override goes), leaves every other patch and the version alone, and running the same
  pin again changes nothing.\<close>

theorem pin_repeats:
  assumes "apply_pin doc to_rev patch_repo patch_rev = Inr doc'"
  shows "apply_pin doc' to_rev patch_repo patch_rev = Inr doc' \<and> cd_dep_rev doc' = Some to_rev \<and>
    cd_version doc' = cd_version doc \<and>
    patched_with doc' src crate =
      (if src = VLLM_GIT \<and> crate = CLIENT_CRATE
       then (case patch_rev of None \<Rightarrow> None | Some r \<Rightarrow> map_option (\<lambda>repo. (repo, r)) patch_repo)
       else patched_with doc src crate)"
  using assms
  by (auto simp: apply_pin_result patched_strip patched_with_fork strip_with_fork unpatched_strip
      strip_unpatched split: option.splits)

lemma pin_repeats_witness:
  "cd_dep_rev (case apply_pin \<lparr>cd_dep_rev = Some ''oldrev'', cd_patch = None, cd_version = Some ''0.2.3''\<rparr>
     ''r'' (Some ''fork'') (Some ''f'') of Inr doc \<Rightarrow> doc) = Some ''r''"
proof -
  let ?doc = "\<lparr>cd_dep_rev = Some ''oldrev'', cd_patch = None, cd_version = Some ''0.2.3''\<rparr>"
  obtain doc' where d: "apply_pin ?doc ''r'' (Some ''fork'') (Some ''f'') = Inr doc'"
    by (simp add: apply_pin_result)
  then show ?thesis using pin_repeats [OF d] by simp
qed

end
