(* ===== verification/Tap_Session.thy ===== *)
theory Tap_Session
  imports Tap_Props Convert_Props Transport_Props
begin

text \<open>
  A recording from its start to its file (\<^verbatim>\<open>run_tap\<close> of \<^verbatim>\<open>crates/sim-tap/src/tap.rs\<close>): the handshake with
  the real engine, the version guard, the header line, the connection to the frontend with the
  engine's own payload, and the proxy loop. What the sockets yield and the msgpack codecs are
  arguments; the trace writer is the list of its lines.
\<close>

section \<open>The handshake with the engine\<close>

record tap_options =
  to_frontend_handshake :: string
  to_engine_handshake :: string
  to_input_address :: string
  to_output_address :: string
  to_block_size :: nat
  to_record_tokens :: token_recording

record ready_message =
  rm_local :: "bool option"
  rm_headless :: "bool option"

record handshake_codec =
  hc_ready :: "frame \<Rightarrow> ready_message result"
  hc_init :: "init_addresses \<Rightarrow> frame result"
  hc_info :: "frame \<Rightarrow> string option result"

text \<open>What the upstream sockets yield, in the order the handshake asks them.\<close>

record upstream_world =
  uw_bind_input :: "unit result"
  uw_bind_output :: "unit result"
  uw_bind_handshake :: "unit result"
  uw_hello :: "frame list result"
  uw_send_init :: "unit result"
  uw_ready :: "frame list result"
  uw_registration :: "frame list result"

record upstream_engine =
  ue_ready_message :: ready_message
  ue_ready_response_payload :: frame
  ue_vllm_version :: string

fun into_two_frames :: "frame list \<Rightarrow> (frame \<times> frame) result" where
  "into_two_frames [a, b] = Inr (a, b)"
| "into_two_frames frames = Inl (''expected 2 frames, got '' @ nat_str (length frames))"

definition init_message :: "tap_options \<Rightarrow> init_addresses" where
  "init_message cfg =
     \<lparr>ia_inputs = [to_input_address cfg], ia_outputs = [to_output_address cfg], ia_coordinator_input = None,
      ia_coordinator_output = None\<rparr>"

text \<open>The INIT the engine was sent, if the handshake came that far, and its outcome.\<close>

definition upstream_handshake ::
  "handshake_codec \<Rightarrow> tap_options \<Rightarrow> upstream_world \<Rightarrow> frame list option \<times> upstream_engine result" where
  "upstream_handshake H cfg U =
     (case bind_result (uw_bind_input U) (\<lambda>_. bind_result (uw_bind_output U) (\<lambda>_.
           bind_result (uw_bind_handshake U) (\<lambda>_. bind_result (uw_hello U) (\<lambda>hello.
           bind_result (into_two_frames hello) (\<lambda>(engine_identity, hello_payload).
           bind_result (err_context ''decoding HELLO'' (hc_ready H hello_payload)) (\<lambda>ready_message.
           bind_result (err_context ''encoding INIT'' (hc_init H (init_message cfg))) (\<lambda>init_payload.
             Inr ([engine_identity, init_payload], ready_message)))))))) of
        Inl err \<Rightarrow> (None, Inl err)
      | Inr (init, ready_message) \<Rightarrow>
          (Some init,
           bind_result (err_context ''sending INIT to engine'' (uw_send_init U)) (\<lambda>_.
           bind_result (err_context ''receiving engine READY'' (uw_ready U)) (\<lambda>ready.
           bind_result (into_two_frames ready) (\<lambda>(_, ready_payload).
           bind_result (err_context ''decoding READY'' (hc_ready H ready_payload)) (\<lambda>_.
           bind_result (err_context ''receiving engine registration on input socket'' (uw_registration U)) (\<lambda>reg.
           bind_result (into_two_frames reg) (\<lambda>(_, reg_payload).
           bind_result (err_context ''decoding engine registration ready response'' (hc_info H reg_payload)) (\<lambda>info.
             Inr \<lparr>ue_ready_message = ready_message, ue_ready_response_payload = reg_payload,
                  ue_vllm_version = (case info of None \<Rightarrow> [] | Some v \<Rightarrow> v)\<rparr>)))))))))"

section \<open>The connection to the frontend\<close>

text \<open>What the tap presents to the frontend.\<close>

record frontend_connection =
  fc_handshake :: string
  fc_engine_index :: nat
  fc_local :: bool
  fc_headless :: bool
  fc_payload :: frame

definition downstream_connection :: "string \<Rightarrow> ready_message \<Rightarrow> frame \<Rightarrow> frontend_connection" where
  "downstream_connection frontend_handshake ready_message payload =
     \<lparr>fc_handshake = frontend_handshake, fc_engine_index = 0,
      fc_local = (case rm_local ready_message of None \<Rightarrow> False | Some b \<Rightarrow> b),
      fc_headless = (case rm_headless ready_message of None \<Rightarrow> True | Some b \<Rightarrow> b),
      fc_payload = payload\<rparr>"

text \<open>The frontend's side: the INIT frames it answers the registration with, and its READY marker.\<close>

record frontend_world =
  fw_init :: "init_addresses result list"
  fw_ready_marker :: bool

definition downstream_connect :: "frontend_world \<Rightarrow> (string \<times> string) result" where
  "downstream_connect F =
     (case connect_to_frontend (fw_init F) (fw_ready_marker F) of
        (_, Inl err) \<Rightarrow> Inl ''connecting to frontend''
      | (_, Inr _) \<Rightarrow>
          (case concat (map (\<lambda>r. case r of Inr init \<Rightarrow> zip (ia_inputs init) (ia_outputs init) | Inl _ \<Rightarrow> []) (fw_init F)) of
             [] \<Rightarrow> Inl ''no data sockets from frontend''
           | sockets # _ \<Rightarrow> Inr sockets))"

section \<open>The session\<close>

record tap_session =
  ts_init :: "frame list option"
  ts_lines :: "string list"
  ts_frontend :: "frontend_connection option"
  ts_tap :: tap
  ts_result :: "unit result option"

definition failed_session :: "frame list option \<Rightarrow> string list \<Rightarrow> frontend_connection option \<Rightarrow> string \<Rightarrow> tap_session" where
  "failed_session init written conn err =
     \<lparr>ts_init = init, ts_lines = written, ts_frontend = conn, ts_tap = new_tap, ts_result = Some (Inl err)\<rparr>"

text \<open>The environment of a session: the libraries, the sockets, the writer's answers, the identity frame of
  engine 0, and the events of the loop.\<close>

record session_world =
  sw_sha256 :: "string \<Rightarrow> u8 list"
  sw_json :: json_codec
  sw_handshake :: handshake_codec
  sw_codec :: codec
  sw_upstream :: upstream_world
  sw_frontend :: frontend_world
  sw_meta_written :: "unit result"
  sw_flushed :: "unit result"
  sw_identity :: frame
  sw_capture_start :: instant
  sw_events :: "tap_event list"

definition proxy_config :: "session_world \<Rightarrow> tap_options \<Rightarrow> bool \<Rightarrow> tap_config" where
  "proxy_config S cfg step_stats_on =
     \<lparr>tap_block_size = to_block_size cfg, tap_record_tokens = to_record_tokens cfg,
      tap_step_stats_on = step_stats_on, tap_capture_start = sw_capture_start S, tap_engine_identity = sw_identity S\<rparr>"

text \<open>\<open>ts_result\<close> is \<open>None\<close> while the loop waits for its next event.\<close>

definition run_tap :: "session_world \<Rightarrow> tap_options \<Rightarrow> tap_meta_config \<Rightarrow> bool \<Rightarrow> tap_session" where
  "run_tap S cfg mcfg step_stats_on =
     (case upstream_handshake (sw_handshake S) cfg (sw_upstream S) of
        (init, Inl err) \<Rightarrow> failed_session init [] None err
      | (init, Inr engine) \<Rightarrow>
          (case capture_header (sw_sha256 S) mcfg (ue_vllm_version engine) (ue_ready_response_payload engine) of
             Inl err \<Rightarrow> failed_session init [] None err
           | Inr header \<Rightarrow>
               (case sw_meta_written S of
                  Inl err \<Rightarrow> failed_session init [] None err
                | Inr _ \<Rightarrow>
                    (let line = jc_print (sw_json S) (meta_to_json header);
                         conn = downstream_connection (to_frontend_handshake cfg) (ue_ready_message engine)
                           (ue_ready_response_payload engine)
                     in case downstream_connect (sw_frontend S) of
                          Inl err \<Rightarrow> failed_session init [line] (Some conn) err
                        | Inr _ \<Rightarrow>
                            (let (status, t) = run_proxy (sw_codec S) (proxy_config S cfg step_stats_on) (sw_events S) new_tap
                             in \<lparr>ts_init = init, ts_lines = line # map (append_record (sw_json S)) (tp_trace t),
                                 ts_frontend = Some conn, ts_tap = t,
                                 ts_result =
                                   (case status of
                                      TapRunning \<Rightarrow> None
                                    | TapFailed err \<Rightarrow> Some (Inl err)
                                    | TapStopped \<Rightarrow> Some (err_context ''flushing trace writer'' (sw_flushed S)))\<rparr>)))))"

section \<open>What a session records\<close>

text \<open>A session has come as far as its loop.\<close>

definition session_started :: "session_world \<Rightarrow> tap_options \<Rightarrow> tap_meta_config \<Rightarrow> upstream_engine \<Rightarrow> trace_meta \<Rightarrow> bool" where
  "session_started S cfg mcfg engine header \<longleftrightarrow>
     (\<exists>init. upstream_handshake (sw_handshake S) cfg (sw_upstream S) = (Some init, Inr engine)) \<and>
     capture_header (sw_sha256 S) mcfg (ue_vllm_version engine) (ue_ready_response_payload engine) = Inr header \<and>
     sw_meta_written S = Inr () \<and> (\<exists>sockets. downstream_connect (sw_frontend S) = Inr sockets)"

lemma session_lines:
  assumes "session_started S cfg mcfg engine header"
  shows "ts_lines (run_tap S cfg mcfg b) =
    write_trace (sw_json S) header (tp_trace (snd (run_proxy (sw_codec S) (proxy_config S cfg b) (sw_events S) new_tap)))"
    "ts_frontend (run_tap S cfg mcfg b) =
      Some (downstream_connection (to_frontend_handshake cfg) (ue_ready_message engine) (ue_ready_response_payload engine))"
  using assms by (auto simp: session_started_def run_tap_def Let_def write_trace_def split_beta)

text \<open>The records of a session, and the captures behind them that the loader accepts.\<close>

definition session_records :: "session_world \<Rightarrow> tap_options \<Rightarrow> bool \<Rightarrow> trace_record list" where
  "session_records S cfg b = tp_trace (snd (run_proxy (sw_codec S) (proxy_config S cfg b) (sw_events S) new_tap))"

definition loadable_capture :: "engine_request \<times> instant \<times> chunks \<times> finish_reason \<Rightarrow> bool" where
  "loadable_capture = (\<lambda>(req, t0, cs, reason). chunk_total cs < 2 ^ 32 \<and> (2 \<le> length cs \<or> chunk_total cs \<le> 1))"

definition printable_records :: "json_codec \<Rightarrow> trace_record list \<Rightarrow> bool" where
  "printable_records J rs \<longleftrightarrow> list_all (\<lambda>r. record_widths r \<and> prints_back J (record_to_json r)) rs"

lemma chunk_sizes:
  assumes "chunk_total cs < 2 ^ 32"
  shows "\<forall>c \<in> set cs. length (snd c) < 2 ^ 32"
proof
  fix c assume "c \<in> set cs"
  then have "length (snd c) \<le> chunk_total cs" by (simp add: length_concat member_le_sum_list comp_def)
  with assms show "length (snd c) < 2 ^ 32" by simp
qed

lemma captured_valid: "captured cfg c r \<Longrightarrow> loadable_capture c \<Longrightarrow> validate_record r = Inr ()"
  using captured_loads [OF _ chunk_sizes] by (cases c) (auto simp: loadable_capture_def)

lemma session_captured:
  "list_all2 (captured (proxy_config S cfg b)) (captures (sw_codec S) (sw_events S)) (session_records S cfg b)"
  unfolding session_records_def by (rule captures_captured)

lemma session_writable:
  assumes "list_all loadable_capture (captures (sw_codec S) (sw_events S))"
    "printable_records (sw_json S) (session_records S cfg b)"
  shows "list_all (writable_record (sw_json S)) (session_records S cfg b)"
proof -
  have "validate_record r = Inr ()" if "r \<in> set (session_records S cfg b)" for r
  proof -
    from that obtain i where i: "i < length (session_records S cfg b)" "r = session_records S cfg b ! i"
      by (auto simp: in_set_conv_nth)
    then have "captured (proxy_config S cfg b) (captures (sw_codec S) (sw_events S) ! i) r"
      "loadable_capture (captures (sw_codec S) (sw_events S) ! i)"
      using list_all2_nthD2 [OF session_captured] list_all2_lengthD [OF session_captured [of S cfg b]] assms(1)
      by (auto simp: list_all_length)
    then show ?thesis by (rule captured_valid)
  qed
  then show ?thesis using assms(2) by (simp add: list_all_iff writable_record_def printable_records_def)
qed

lemma session_reads:
  assumes "session_started S cfg mcfg engine header"
    "meta_widths header" "prints_back (sw_json S) (meta_to_json header)"
    "list_all loadable_capture (captures (sw_codec S) (sw_events S))"
    "printable_records (sw_json S) (session_records S cfg b)"
  shows "read_trace (sw_json S) (map Line (ts_lines (run_tap S cfg mcfg b))) = Inr (header, session_records S cfg b)"
  using read_trace_written [OF assms(2,3) session_writable [OF assms(4,5)], of "[]"] session_lines(1) [OF assms(1)]
  by (simp add: session_records_def)

section \<open>Replaying a recording\<close>

lemma replay_subset_finds:
  assumes "i < length rs" "\<forall>r \<in> set rs. tr_arrival_ms r \<noteq> None"
  shows "\<exists>k < length (replay_subset rs). replay_subset rs ! k = rs ! i"
proof -
  have "filter (\<lambda>r. tr_arrival_ms r \<noteq> None) rs = rs" using assms(2) by (simp add: filter_True)
  then have "mset (replay_subset rs) = mset rs" using replay_subset_order [of rs] by simp
  then have "set (replay_subset rs) = set rs" by (rule mset_eq_setD)
  then show ?thesis using assms(1) by (metis in_set_conv_nth)
qed

lemma captured_output:
  assumes "captured cfg (req, t0, cs, reason) r"
  shows "tr_arrival_ms r \<noteq> None"
    "tap_record_tokens cfg = RecordOn \<Longrightarrow> ro_token_ids (recorded_of r) = concat (map snd cs)"
  using assms by (auto simp: captured_def recorded_of_def)

end
