(* ===== verification/Nixl.thy ===== *)
theory Nixl
  imports Data_Plane
begin

text \<open>
  The NIXL-backed KV data plane (\<^verbatim>\<open>src/src/dataplane.rs\<close>, module \<^verbatim>\<open>nixl\<close>): one registered pool of
  paged slots, the descriptor a prefill engine serves over its side channel, the advertisement of
  a request's slots, and the decode side's pull with its pattern check. The NIXL library, the
  allocator, the sockets and the msgpack bytes are a record of the operations the code calls. A
  write through the pool's raw pointer that would leave its allocation has no defined result: it
  is the outcome \<open>Out_of_bounds\<close>. The poll loop consumes what the polls report and is \<open>Polling\<close>
  when they run out.
\<close>

unbundle bit_operations_syntax

section \<open>The libraries\<close>

text \<open>
  What a posted transfer reports: the status at each poll with the microseconds elapsed after it,
  and the bytes of the landing buffer when the loop is left.
\<close>

record xfer =
  xf_polls :: "(bool result \<times> nat) list"
  xf_landed :: "u8 list"

record nixl_lib =
  nl_stub :: bool
  nl_pack :: "msgpack \<Rightarrow> u8 list result"
  nl_unpack :: "u8 list \<Rightarrow> msgpack result"
  nl_agent :: "string \<Rightarrow> int \<Rightarrow> unit result"
  nl_plugin :: "unit result"
  nl_backend :: "unit result"
  nl_alloc :: "nat \<Rightarrow> (nat \<times> u8 list) result"
  nl_opts :: "unit result"
  nl_register :: "unit result"
  nl_local_md :: "u8 list result"
  nl_bind :: "nat \<Rightarrow> unit result"
  nl_spawn :: "unit result"
  nl_connect :: "string \<Rightarrow> nat \<Rightarrow> u8 list result"
  nl_load_md :: "u8 list \<Rightarrow> string result"
  nl_desc_list :: "unit result"
  nl_xfer :: "string \<Rightarrow> (nat \<times> nat) list \<Rightarrow> (nat \<times> nat) list \<Rightarrow> xfer result"

datatype 'a outcome = Done 'a | Polling | Out_of_bounds

fun bind_outcome :: "'a outcome \<Rightarrow> ('a \<Rightarrow> 'b outcome) \<Rightarrow> 'b outcome" where
  "bind_outcome (Done x) f = f x"
| "bind_outcome Polling f = Polling"
| "bind_outcome Out_of_bounds f = Out_of_bounds"

text \<open>\<^verbatim>\<open>usize\<close> arithmetic of a release build wraps at 64 bits; \<^verbatim>\<open>as\<close> casts reinterpret.\<close>

definition usize :: "nat \<Rightarrow> nat" where
  "usize n = n mod 2 ^ 64"

definition usize_of_i64 :: "int \<Rightarrow> nat" where
  "usize_of_i64 i = nat (i mod 2 ^ 64)"

definition i32_of_u32 :: "nat \<Rightarrow> int" where
  "i32_of_u32 n = (let m = n mod 2 ^ 32 in if m < 2 ^ 31 then int m else int m - 2 ^ 32)"

section \<open>The side channel\<close>

definition u32_be_bytes :: "u32 \<Rightarrow> u8 list" where
  "u32_be_bytes w = rev (u32_to_le_bytes w)"

definition u32_from_be_bytes :: "u8 list \<Rightarrow> u32" where
  "u32_from_be_bytes bs = fold (\<lambda>b acc. acc * 256 + ucast b) bs 0"

definition write_framed :: "u8 list \<Rightarrow> u8 list" where
  "write_framed payload = u32_be_bytes (of_nat (length payload)) @ payload"

definition read_exact :: "nat \<Rightarrow> u8 list \<Rightarrow> (u8 list \<times> u8 list) result" where
  "read_exact n stream =
     (if length stream < n then Inl ''failed to fill whole buffer'' else Inr (take n stream, drop n stream))"

definition read_framed :: "u8 list \<Rightarrow> u8 list result" where
  "read_framed stream =
     bind_result (read_exact 4 stream) (\<lambda>(len_buf, rest).
     bind_result (read_exact (unat (u32_from_be_bytes len_buf)) rest) (\<lambda>(buf, _). Inr buf))"

text \<open>The answer every connection to the metadata server receives.\<close>

definition serve_descriptor :: "nixl_lib \<Rightarrow> nat \<Rightarrow> pool_descriptor \<Rightarrow> u8 list result" where
  "serve_descriptor L port d =
     bind_result (nl_pack L (descriptor_encode d)) (\<lambda>payload.
     bind_result (nl_bind L (port mod 2 ^ 16)) (\<lambda>_.
     bind_result (nl_spawn L) (\<lambda>_. Inr (write_framed payload))))"

definition fetch_descriptor :: "nixl_lib \<Rightarrow> string \<Rightarrow> nat \<Rightarrow> pool_descriptor result" where
  "fetch_descriptor L host port =
     bind_result (nl_connect L host (port mod 2 ^ 16)) (\<lambda>stream.
     bind_result (read_framed stream) (\<lambda>payload.
     bind_result (nl_unpack L payload) descriptor_decode))"

section \<open>The plane\<close>

record loaded_peer =
  lp_agent_name :: string
  lp_pool_base :: nat
  lp_block_bytes :: nat

record nixl_plane =
  np_role :: pd_role
  np_cfg :: nixl_config
  np_base :: nat
  np_pool :: "u8 list"
  np_peers :: "string \<rightharpoonup> loaded_peer"

definition pool_bytes :: "nixl_config \<Rightarrow> nat" where
  "pool_bytes cfg = usize (max (nc_kv_cache_blocks cfg) 1 * nc_kv_block_bytes cfg)"

definition descriptor_of :: "nixl_config \<Rightarrow> u8 list \<Rightarrow> nat \<Rightarrow> pool_descriptor" where
  "descriptor_of cfg md base =
     \<lparr>pd_engine_id = nc_engine_id cfg, pd_nixl_agent_md = md, pd_pool_base = base,
      pd_block_bytes = nc_kv_block_bytes cfg, pd_num_blocks = nc_kv_cache_blocks cfg\<rparr>"

text \<open>The plane, and what its side channel answers when it serves one.\<close>

definition nixl_new :: "nixl_lib \<Rightarrow> pd_role \<Rightarrow> nixl_config \<Rightarrow> (nixl_plane \<times> u8 list option) result" where
  "nixl_new L role cfg =
     bind_result (nl_agent L (nc_engine_id cfg) (i32_of_u32 (nc_side_channel_port cfg))) (\<lambda>_.
     bind_result (nl_plugin L) (\<lambda>_.
     bind_result (nl_backend L) (\<lambda>_.
     bind_result (nl_alloc L (pool_bytes cfg)) (\<lambda>(base, pool).
       let plane = \<lparr>np_role = role, np_cfg = cfg, np_base = base, np_pool = pool, np_peers = Map.empty\<rparr>
       in if nl_stub L then Inr (plane, None)
          else bind_result (nl_opts L) (\<lambda>_.
               bind_result (nl_register L) (\<lambda>_.
                 if role = RolePrefill
                 then bind_result (nl_local_md L) (\<lambda>md.
                      bind_result (serve_descriptor L (nc_side_channel_port cfg) (descriptor_of cfg md base))
                        (\<lambda>answer. Inr (plane, Some answer)))
                 else Inr (plane, None)))))))"

definition fill_slot :: "nat \<Rightarrow> u8 \<Rightarrow> nixl_plane \<Rightarrow> nixl_plane outcome" where
  "fill_slot bid pat p =
     (let len = nc_kv_block_bytes (np_cfg p);
          offset = usize (bid * len)
      in if offset + len \<le> length (np_pool p)
         then Done (p\<lparr>np_pool := take offset (np_pool p) @ replicate len pat @ drop (offset + len) (np_pool p)\<rparr>)
         else Out_of_bounds)"

fun fill_slots :: "nat list \<Rightarrow> u8 \<Rightarrow> nixl_plane \<Rightarrow> nixl_plane outcome" where
  "fill_slots [] pat p = Done p"
| "fill_slots (i # ids) pat p = bind_outcome (fill_slot i pat p) (fill_slots ids pat)"

definition ensure_peer ::
  "nixl_lib \<Rightarrow> string \<Rightarrow> string \<Rightarrow> nat \<Rightarrow> nixl_plane \<Rightarrow> loaded_peer result \<times> nixl_plane" where
  "ensure_peer L engine_id host port p =
     (case np_peers p engine_id of
        Some peer \<Rightarrow> (Inr peer, p)
      | None \<Rightarrow>
          (case bind_result (fetch_descriptor L host port) (\<lambda>d.
                bind_result (nl_load_md L (pd_nixl_agent_md d)) (\<lambda>agent_name.
                  Inr \<lparr>lp_agent_name = agent_name, lp_pool_base = pd_pool_base d,
                       lp_block_bytes = pd_block_bytes d\<rparr>)) of
             Inl err \<Rightarrow> (Inl err, p)
           | Inr peer \<Rightarrow> (Inr peer, p\<lparr>np_peers := (np_peers p)(engine_id \<mapsto> peer)\<rparr>)))"

definition do_advertise :: "request_kv \<Rightarrow> nixl_plane \<Rightarrow> (remote_kv \<times> nixl_plane) outcome" where
  "do_advertise kv p =
     bind_outcome (fill_slots (rkv_block_ids kv) (pattern_for (rkv_request_id kv)) p) (\<lambda>p.
       Done (\<lparr>rk_engine_id = nc_engine_id (np_cfg p), rk_host = nc_side_channel_host (np_cfg p),
              rk_port = nc_side_channel_port (np_cfg p), rk_block_ids = map i64_of_usize (rkv_block_ids kv),
              rk_request_id = rkv_request_id kv\<rparr>, p))"

section \<open>Pulling\<close>

definition xfer_timeout :: nat where
  "xfer_timeout = 5000000"

fun poll_xfer :: "(bool result \<times> nat) list \<Rightarrow> unit result outcome" where
  "poll_xfer [] = Polling"
| "poll_xfer ((Inl err, _) # polls) = Done (Inl err)"
| "poll_xfer ((Inr True, _) # polls) = Done (Inr ())"
| "poll_xfer ((Inr False, elapsed) # polls) =
     (if xfer_timeout < elapsed then Done (Inl ''NIXL READ timed out'') else poll_xfer polls)"

definition remote_descs :: "loaded_peer \<Rightarrow> int list \<Rightarrow> (nat \<times> nat) list" where
  "remote_descs peer ids =
     map (\<lambda>i. (usize (lp_pool_base peer + usize_of_i64 i * lp_block_bytes peer), lp_block_bytes peer)) ids"

definition local_descs :: "nat \<Rightarrow> nat \<Rightarrow> nat \<Rightarrow> (nat \<times> nat) list" where
  "local_descs dst_base num block_bytes =
     map (\<lambda>j. (usize (dst_base + j * block_bytes), block_bytes)) [0..<num]"

text \<open>Check the landed blocks one by one, writing each into its local slot.\<close>

fun land_blocks :: "u8 list \<Rightarrow> nat \<Rightarrow> u8 \<Rightarrow> nat \<Rightarrow> nat list \<Rightarrow> nixl_plane \<Rightarrow> (unit result \<times> nixl_plane) outcome" where
  "land_blocks landed block_bytes pat j [] p = Done (Inr (), p)"
| "land_blocks landed block_bytes pat j (local_id # ids) p =
     (let at_j = usize (j * block_bytes);
          got = (if at_j < length landed then Some (landed ! at_j) else None)
      in if got \<noteq> Some pat then Done (Inl (''KV verify failed for block '' @ nat_str j), p)
         else bind_outcome (fill_slot local_id pat p) (land_blocks landed block_bytes pat (Suc j) ids))"

text \<open>Post one read of all advertised blocks and wait for it.\<close>

definition read_remote ::
  "nixl_lib \<Rightarrow> loaded_peer \<Rightarrow> int list \<Rightarrow> u8 list result outcome" where
  "read_remote L peer ids =
     (let n = length ids; block_bytes = lp_block_bytes peer
      in case bind_result (nl_desc_list L) (\<lambda>_.
              bind_result (nl_opts L) (\<lambda>_.
              bind_result (nl_alloc L (usize (n * block_bytes))) (\<lambda>(dst_base, _).
              bind_result (nl_register L) (\<lambda>_.
              bind_result (nl_desc_list L) (\<lambda>_.
                nl_xfer L (lp_agent_name peer) (local_descs dst_base n block_bytes) (remote_descs peer ids)))))) of
           Inl err \<Rightarrow> Done (Inl err)
         | Inr x \<Rightarrow> bind_outcome (poll_xfer (xf_polls x)) (\<lambda>status.
                     Done (bind_result status (\<lambda>_. Inr (xf_landed x)))))"

definition do_pull ::
  "nixl_lib \<Rightarrow> request_kv \<Rightarrow> remote_kv \<Rightarrow> nixl_plane \<Rightarrow> (nat result \<times> nixl_plane) outcome" where
  "do_pull L kv remote p =
     (let ids = rk_block_ids remote; n = length ids in
      if n = 0 then Done (Inr 0, p)
      else case ensure_peer L (rk_engine_id remote) (rk_host remote) (rk_port remote) p of
             (Inl err, p) \<Rightarrow> Done (Inl err, p)
           | (Inr peer, p) \<Rightarrow>
               if lp_block_bytes peer = 0 \<or> lp_pool_base peer = 0 then Done (Inr 0, p)
               else bind_outcome (read_remote L peer ids) (\<lambda>got.
                      case got of
                        Inl err \<Rightarrow> Done (Inl err, p)
                      | Inr landed \<Rightarrow>
                          bind_outcome
                            (land_blocks landed (lp_block_bytes peer) (pattern_for (rk_request_id remote)) 0
                              (take n (rkv_block_ids kv)) p)
                            (\<lambda>(verdict, p).
                               Done (bind_result verdict (\<lambda>_. Inr (usize (n * lp_block_bytes peer))), p))))"

section \<open>The connector boundary\<close>

datatype data_plane = Noop_Plane nixl_config | Nixl_Plane nixl_plane

text \<open>\<open>None\<close> is a build without the \<^verbatim>\<open>nixl\<close> feature.\<close>

definition make_data_plane :: "nixl_lib option \<Rightarrow> pd_role \<Rightarrow> nixl_config \<Rightarrow> data_plane \<times> u8 list option" where
  "make_data_plane feature role cfg =
     (case feature of
        None \<Rightarrow> (Noop_Plane cfg, None)
      | Some L \<Rightarrow>
          if role = RoleBoth then (Noop_Plane cfg, None)
          else case nixl_new L role cfg of
                 Inr (plane, answer) \<Rightarrow> (Nixl_Plane plane, answer)
               | Inl err \<Rightarrow> (Noop_Plane cfg, None))"

fun advertise_prefilled :: "request_kv \<Rightarrow> data_plane \<Rightarrow> (remote_kv result \<times> data_plane) outcome" where
  "advertise_prefilled kv (Noop_Plane cfg) = Done (noop_advertise_prefilled cfg kv, Noop_Plane cfg)"
| "advertise_prefilled kv (Nixl_Plane p) =
     bind_outcome (do_advertise kv p) (\<lambda>(remote, p). Done (Inr remote, Nixl_Plane p))"

fun pull_prefilled :: "nixl_lib \<Rightarrow> request_kv \<Rightarrow> remote_kv \<Rightarrow> data_plane \<Rightarrow> (nat result \<times> data_plane) outcome" where
  "pull_prefilled L kv remote (Noop_Plane cfg) = Done (noop_pull_prefilled kv remote, Noop_Plane cfg)"
| "pull_prefilled L kv remote (Nixl_Plane p) =
     (if nl_stub L then Done (Inr 0, Nixl_Plane p)
      else bind_outcome (do_pull L kv remote p) (\<lambda>(moved, p). Done (moved, Nixl_Plane p)))"

definition release_plane :: "string \<Rightarrow> data_plane \<Rightarrow> data_plane" where
  "release_plane request_id plane = plane"

end
