(* ===== verification/Nixl_Props.thy ===== *)
theory Nixl_Props
  imports Nixl Engine_Props
begin

text \<open>
  What the NIXL data plane moves. The pool is seen as slots of equal size; advertising fills
  slots, so a slot holds the pattern of the request that wrote it last, and a pull is accepted
  exactly when the slots it checks still hold the pattern of the request it is for. The last
  section shows that every slot id the engine hands to the plane lies inside the registered pool.
\<close>

section \<open>The side channel\<close>

lemma bind_result_simps [simp]: "bind_result (Inr x) f = f x" "bind_result (Inl err) f = Inl err"
  by (simp_all add: bind_result_def)

lemma u32_be_round_trip [simp]: "u32_from_be_bytes (u32_be_bytes w) = w"
proof -
  define n where "n = unat w"
  have "unat w < 2 ^ LENGTH(32)" by (rule unsigned_less)
  then have n: "n < 2 ^ 32" by (simp add: n_def)
  have byte: "unat (ucast (drop_bit k w) :: u8) = n div 2 ^ k mod 256" for k
    using n unfolding n_def by (simp add: unsigned_ucast_eq unsigned_drop_bit_eq take_bit_eq_mod drop_bit_eq_div [where 'a = nat])
  have le: "u32_to_le_bytes w = map (\<lambda>k. ucast (drop_bit k w)) [0, 8, 16, 24]"
    by (simp add: le_bytes_def upt_rec)
  have "n div 16777216 mod 256 = n div 16777216" using n by simp
  moreover have "n = n div 256 * 256 + n mod 256" by simp
  moreover have "n div 256 = n div 65536 * 256 + n div 256 mod 256"
    using div_mult_mod_eq [of "n div 256" 256] by (simp add: div_mult2_eq [symmetric])
  moreover have "n div 65536 = n div 16777216 * 256 + n div 65536 mod 256"
    using div_mult_mod_eq [of "n div 65536" 256] by (simp add: div_mult2_eq [symmetric])
  ultimately have sum: "((n div 16777216 mod 256 * 256 + n div 65536 mod 256) * 256 + n div 256 mod 256) * 256 + n mod 256 = n"
    by presburger
  have up: "(ucast (ucast (drop_bit k w) :: u8) :: u32) = of_nat (n div 2 ^ k mod 256)" for k
    by (metis byte of_nat_unat)
  have "u32_from_be_bytes (u32_be_bytes w) =
      ((of_nat (n div 2 ^ 24 mod 256) * 256 + of_nat (n div 2 ^ 16 mod 256)) * 256 + of_nat (n div 2 ^ 8 mod 256)) * 256 +
        of_nat (n div 2 ^ 0 mod 256)"
    unfolding up [symmetric] by (simp add: u32_from_be_bytes_def u32_be_bytes_def le)
  also have "\<dots> =
      of_nat (((n div 16777216 mod 256 * 256 + n div 65536 mod 256) * 256 + n div 256 mod 256) * 256 + n mod 256)"
    by simp
  also have "\<dots> = w" unfolding sum by (simp add: n_def)
  finally show ?thesis .
qed

lemma u32_be_length [simp]: "length (u32_be_bytes w) = 4"
  by (simp add: u32_be_bytes_def le_bytes_def)

text \<open>A frame is read back whatever follows it, up to the four bytes of its length: a payload of
  4 GiB or more comes back as its prefix.\<close>

lemma framed_round_trip:
  "read_framed (write_framed payload @ rest) = Inr (take (length payload mod 2 ^ 32) payload)"
  by (simp add: read_framed_def write_framed_def read_exact_def unsigned_of_nat take_bit_eq_mod)

lemma fetch_served:
  assumes "nl_pack Lp (descriptor_encode d) = Inr payload" "length payload < 2 ^ 32"
    "nl_connect L host (port mod 2 ^ 16) = Inr (write_framed payload @ rest)"
    "nl_unpack L payload = Inr (descriptor_encode d)"
    "pd_pool_base d < 2 ^ 64" "pd_block_bytes d < 2 ^ 64" "pd_num_blocks d < 2 ^ 64"
  shows "fetch_descriptor L host port = Inr d"
  using assms by (simp add: fetch_descriptor_def framed_round_trip descriptor_encode_def with_context_def)

section \<open>Slots\<close>

definition plane_ok :: "nixl_plane \<Rightarrow> bool" where
  "plane_ok p \<longleftrightarrow>
     length (np_pool p) = max (nc_kv_cache_blocks (np_cfg p)) 1 * nc_kv_block_bytes (np_cfg p) \<and>
     max (nc_kv_cache_blocks (np_cfg p)) 1 * nc_kv_block_bytes (np_cfg p) < 2 ^ 64"

definition in_pool :: "nixl_plane \<Rightarrow> nat list \<Rightarrow> bool" where
  "in_pool p ids \<longleftrightarrow> (\<forall>i \<in> set ids. i < max (nc_kv_cache_blocks (np_cfg p)) 1)"

text \<open>Exactly the slots of a set hold a new byte; everything else of the plane stays.\<close>

definition repaints :: "nat set \<Rightarrow> u8 \<Rightarrow> nixl_plane \<Rightarrow> nixl_plane \<Rightarrow> bool" where
  "repaints S pat p p' \<longleftrightarrow>
     p' = p\<lparr>np_pool := np_pool p'\<rparr> \<and> length (np_pool p') = length (np_pool p) \<and>
     (\<forall>k < length (np_pool p). np_pool p' ! k =
        (if k div nc_kv_block_bytes (np_cfg p) \<in> S then pat else np_pool p ! k))"

lemma repaints_cfg: "repaints S pat p p' \<Longrightarrow> np_cfg p' = np_cfg p \<and> np_base p' = np_base p \<and> np_peers p' = np_peers p"
  unfolding repaints_def by (metis nixl_plane.select_convs(2,3,5) nixl_plane.surjective nixl_plane.update_convs(4))

lemma repaints_ok: "repaints S pat p p' \<Longrightarrow> plane_ok p' = plane_ok p" "repaints S pat p p' \<Longrightarrow> in_pool p' ids = in_pool p ids"
  using repaints_cfg [of S pat p p'] by (auto simp: plane_ok_def in_pool_def repaints_def)

lemma repaints_none: "repaints {} pat p p"
  by (simp add: repaints_def)

lemma repaints_trans:
  assumes "repaints S pat p q" "repaints T pat q r"
  shows "repaints (S \<union> T) pat p r"
proof -
  have "np_cfg q = np_cfg p" using assms(1) by (simp add: repaints_cfg)
  moreover have "r = p\<lparr>np_pool := np_pool r\<rparr>"
    using assms unfolding repaints_def by (metis nixl_plane.surjective nixl_plane.update_convs(4))
  ultimately show ?thesis using assms unfolding repaints_def by auto
qed

lemma slot_index:
  fixes k i len :: nat
  assumes "0 < len"
  shows "k div len = i \<longleftrightarrow> i * len \<le> k \<and> k < i * len + len"
  using assms by (metis add.commute div_nat_eqI less_mult_imp_div_less mult.commute mult_Suc_right
      div_times_less_eq_dividend dividend_less_div_times)

lemma slot_inside: "plane_ok p \<Longrightarrow> i < max (nc_kv_cache_blocks (np_cfg p)) 1 \<Longrightarrow>
    i * nc_kv_block_bytes (np_cfg p) + nc_kv_block_bytes (np_cfg p) \<le> length (np_pool p)"
proof -
  assume p: "plane_ok p" and i: "i < max (nc_kv_cache_blocks (np_cfg p)) 1"
  have "Suc i * nc_kv_block_bytes (np_cfg p) \<le> max (nc_kv_cache_blocks (np_cfg p)) 1 * nc_kv_block_bytes (np_cfg p)"
    using i by (intro mult_le_mono1) simp
  then show ?thesis using p by (simp add: plane_ok_def add.commute)
qed

lemma fill_slot_repaints:
  assumes "plane_ok p" "i < max (nc_kv_cache_blocks (np_cfg p)) 1"
  shows "\<exists>p'. fill_slot i pat p = Done p' \<and> repaints {i} pat p p'"
proof -
  define len where "len = nc_kv_block_bytes (np_cfg p)"
  have inside: "i * len + len \<le> length (np_pool p)" using slot_inside [OF assms] by (simp add: len_def)
  then have "i * len < 2 ^ 64 \<or> len = 0" using assms(1) by (auto simp: plane_ok_def len_def)
  then have at_i: "usize (i * len) = i * len" by (auto simp: usize_def)
  let ?new = "take (i * len) (np_pool p) @ replicate len pat @ drop (i * len + len) (np_pool p)"
  have "?new ! k = (if k div len \<in> {i} then pat else np_pool p ! k)" if "k < length (np_pool p)" for k
  proof -
    have "0 < len" using that assms(1) by (cases "len = 0") (auto simp: plane_ok_def len_def)
    then show ?thesis using that inside slot_index [of len k i] by (auto simp: nth_append)
  qed
  then have "repaints {i} pat p (p\<lparr>np_pool := ?new\<rparr>)" using inside by (simp add: repaints_def len_def)
  then show ?thesis using inside at_i by (simp add: fill_slot_def Let_def len_def)
qed

lemma fill_slots_repaints:
  assumes "plane_ok p" "in_pool p ids"
  shows "\<exists>p'. fill_slots ids pat p = Done p' \<and> repaints (set ids) pat p p'"
  using assms
proof (induction ids arbitrary: p)
  case Nil
  then show ?case by (simp add: repaints_none)
next
  case (Cons i ids)
  obtain q where q: "fill_slot i pat p = Done q" "repaints {i} pat p q"
    using fill_slot_repaints [OF Cons.prems(1), of i pat] Cons.prems(2) by (auto simp: in_pool_def)
  obtain r where "fill_slots ids pat q = Done r" "repaints (set ids) pat q r"
    using Cons.IH [of q] Cons.prems repaints_ok [OF q(2)] by (auto simp: in_pool_def)
  then show ?case using q repaints_trans [OF q(2)] by auto
qed

section \<open>Advertising\<close>

definition remote_for :: "nixl_config \<Rightarrow> request_kv \<Rightarrow> remote_kv" where
  "remote_for cfg kv =
     \<lparr>rk_engine_id = nc_engine_id cfg, rk_host = nc_side_channel_host cfg, rk_port = nc_side_channel_port cfg,
      rk_block_ids = map i64_of_usize (rkv_block_ids kv), rk_request_id = rkv_request_id kv\<rparr>"

lemma do_advertise_repaints:
  assumes "plane_ok p" "in_pool p (rkv_block_ids kv)"
  shows "\<exists>p'. do_advertise kv p = Done (remote_for (np_cfg p) kv, p') \<and>
    repaints (set (rkv_block_ids kv)) (pattern_for (rkv_request_id kv)) p p'"
  using fill_slots_repaints [OF assms, of "pattern_for (rkv_request_id kv)"] repaints_cfg
  by (fastforce simp: do_advertise_def remote_for_def)

text \<open>A prefill engine's advertisements, in their order.\<close>

fun advertise_all :: "request_kv list \<Rightarrow> nixl_plane \<Rightarrow> nixl_plane outcome" where
  "advertise_all [] p = Done p"
| "advertise_all (kv # kvs) p = bind_outcome (do_advertise kv p) (\<lambda>(_, p). advertise_all kvs p)"

definition last_writer :: "request_kv list \<Rightarrow> nat \<Rightarrow> request_kv option" where
  "last_writer kvs i = find (\<lambda>kv. i \<in> set (rkv_block_ids kv)) (rev kvs)"

lemma find_append: "find P (xs @ ys) = (case find P xs of None \<Rightarrow> find P ys | Some x \<Rightarrow> Some x)"
  by (induction xs) auto

lemma last_writer_simps [simp]:
  "last_writer [] i = None"
  "last_writer (kv # kvs) i =
     (case last_writer kvs i of None \<Rightarrow> if i \<in> set (rkv_block_ids kv) then Some kv else None | Some w \<Rightarrow> Some w)"
  by (simp_all add: last_writer_def find_append split: option.split)

lemma last_writer_Some: "kv \<in> set kvs \<Longrightarrow> i \<in> set (rkv_block_ids kv) \<Longrightarrow> \<exists>w. last_writer kvs i = Some w"
  by (induction kvs) (auto split: option.split)

lemma advertise_all_slots:
  assumes "plane_ok p" "\<forall>kv \<in> set kvs. in_pool p (rkv_block_ids kv)"
  shows "\<exists>p'. advertise_all kvs p = Done p' \<and> p' = p\<lparr>np_pool := np_pool p'\<rparr> \<and> length (np_pool p') = length (np_pool p) \<and>
    (\<forall>k < length (np_pool p). np_pool p' ! k =
       (case last_writer kvs (k div nc_kv_block_bytes (np_cfg p)) of
          None \<Rightarrow> np_pool p ! k | Some w \<Rightarrow> pattern_for (rkv_request_id w)))"
  using assms
proof (induction kvs arbitrary: p)
  case Nil
  then show ?case by simp
next
  case (Cons kv kvs)
  obtain q where q: "do_advertise kv p = Done (remote_for (np_cfg p) kv, q)"
    "repaints (set (rkv_block_ids kv)) (pattern_for (rkv_request_id kv)) p q"
    using do_advertise_repaints [OF Cons.prems(1)] Cons.prems(2) by fastforce
  obtain r where r: "advertise_all kvs q = Done r" "r = q\<lparr>np_pool := np_pool r\<rparr>"
    "length (np_pool r) = length (np_pool q)"
    "\<forall>k < length (np_pool q). np_pool r ! k = (case last_writer kvs (k div nc_kv_block_bytes (np_cfg q)) of
       None \<Rightarrow> np_pool q ! k | Some w \<Rightarrow> pattern_for (rkv_request_id w))"
    using Cons.IH [of q] Cons.prems repaints_ok [OF q(2)] by auto
  have "r = p\<lparr>np_pool := np_pool r\<rparr>"
    using r(2) q(2) unfolding repaints_def by (metis nixl_plane.surjective nixl_plane.update_convs(4))
  then show ?case
    using r q repaints_cfg [OF q(2)] by (auto simp: repaints_def split: option.split)
qed

section \<open>Pulling\<close>

text \<open>The first byte of a landed block, the only one the code looks at.\<close>

definition block_marked :: "u8 list \<Rightarrow> nat \<Rightarrow> u8 \<Rightarrow> nat \<Rightarrow> bool" where
  "block_marked landed block_bytes pat j \<longleftrightarrow>
     usize (j * block_bytes) < length landed \<and> landed ! usize (j * block_bytes) = pat"

lemma land_blocks_verdict:
  assumes "plane_ok p" "in_pool p ids"
  shows "\<exists>res p'. land_blocks landed block_bytes pat j ids p = Done (res, p') \<and>
    (if \<forall>m < length ids. block_marked landed block_bytes pat (j + m)
     then res = Inr () \<and> repaints (set ids) pat p p' else \<exists>err. res = Inl err)"
  using assms
proof (induction ids arbitrary: j p)
  case Nil
  then show ?case by (simp add: repaints_none)
next
  case (Cons i ids)
  have split: "(\<forall>m < length (i # ids). block_marked landed block_bytes pat (j + m)) \<longleftrightarrow>
      block_marked landed block_bytes pat j \<and> (\<forall>m < length ids. block_marked landed block_bytes pat (Suc j + m))"
    by (simp add: All_less_Suc2)
  show ?case
  proof (cases "block_marked landed block_bytes pat j")
    case True
    obtain q where q: "fill_slot i pat p = Done q" "repaints {i} pat p q"
      using fill_slot_repaints [OF Cons.prems(1), of i pat] Cons.prems(2) by (auto simp: in_pool_def)
    obtain res r where r: "land_blocks landed block_bytes pat (Suc j) ids q = Done (res, r)"
      "if \<forall>m < length ids. block_marked landed block_bytes pat (Suc j + m)
       then res = Inr () \<and> repaints (set ids) pat q r else \<exists>err. res = Inl err"
      using Cons.IH [of q "Suc j"] Cons.prems repaints_ok [OF q(2)] by (auto simp: in_pool_def)
    have "land_blocks landed block_bytes pat j (i # ids) p = Done (res, r)"
      using True q(1) r(1) by (simp add: block_marked_def Let_def)
    then show ?thesis using r(2) True repaints_trans [OF q(2)] unfolding split by (auto split: if_splits)
  next
    case False
    then have "\<exists>err. land_blocks landed block_bytes pat j (i # ids) p = Done (Inl err, p)"
      by (simp add: block_marked_def Let_def)
    then show ?thesis using False unfolding split by auto
  qed
qed

text \<open>What the code relies on: a READ copies the remote ranges in their order, and the operations
  of a pull succeed.\<close>

definition reads_memory :: "nixl_lib \<Rightarrow> (string \<Rightarrow> nat \<Rightarrow> u8) \<Rightarrow> bool" where
  "reads_memory L mem \<longleftrightarrow>
     (\<forall>agent locals remotes x. nl_xfer L agent locals remotes = Inr x \<longrightarrow>
        xf_landed x = concat (map (\<lambda>(a, n). map (mem agent) [a..<a + n]) remotes))"

definition transfers_complete :: "nixl_lib \<Rightarrow> bool" where
  "transfers_complete L \<longleftrightarrow>
     nl_desc_list L = Inr () \<and> nl_opts L = Inr () \<and> nl_register L = Inr () \<and>
     (\<forall>n. \<exists>r. nl_alloc L n = Inr r) \<and>
     (\<forall>agent locals remotes. \<exists>x. nl_xfer L agent locals remotes = Inr x \<and> poll_xfer (xf_polls x) = Done (Inr ()))"

lemma read_remote_lands:
  assumes "transfers_complete L" "reads_memory L mem"
  shows "read_remote L peer ids =
    Done (Inr (concat (map (\<lambda>(a, n). map (mem (lp_agent_name peer)) [a..<a + n]) (remote_descs peer ids))))"
proof -
  obtain dst where dst: "nl_alloc L (usize (length ids * lp_block_bytes peer)) = Inr dst"
    using assms(1) unfolding transfers_complete_def by blast
  obtain x where x: "nl_xfer L (lp_agent_name peer)
      (local_descs (fst dst) (length ids) (lp_block_bytes peer)) (remote_descs peer ids) = Inr x"
    "poll_xfer (xf_polls x) = Done (Inr ())"
    using assms(1) unfolding transfers_complete_def by blast
  show ?thesis
    using assms(1) dst x assms(2)
    by (simp add: read_remote_def transfers_complete_def reads_memory_def Let_def split_beta)
qed

lemma concat_block_nth:
  assumes "\<forall>xs \<in> set xss. length xs = b" "j < length xss" "0 < b"
  shows "j * b < length (concat xss) \<and> concat xss ! (j * b) = xss ! j ! 0"
  using assms
proof (induction xss arbitrary: j)
  case (Cons xs xss)
  show ?case
  proof (cases j)
    case 0
    then show ?thesis using Cons.prems by (simp add: nth_append)
  next
    case (Suc m)
    then have "m * b < length (concat xss) \<and> concat xss ! (m * b) = xss ! m ! 0" using Cons by simp
    then show ?thesis using Cons.prems Suc by (simp add: nth_append add.commute)
  qed
qed simp

lemma remote_address:
  assumes "i < 2 ^ 63" "base + i * b < 2 ^ 64"
  shows "usize (base + usize_of_i64 (i64_of_usize i) * b) = base + i * b"
proof -
  have "usize_of_i64 (int i) = i" using assms(1) by (simp add: usize_of_i64_def)
  then show ?thesis using assms by (simp add: i64_small usize_def)
qed

lemma landed_marks:
  assumes "lp_block_bytes peer = b" "0 < b" "\<forall>i \<in> set ids. i < 2 ^ 63 \<and> lp_pool_base peer + i * b < 2 ^ 64"
    "length ids * b < 2 ^ 64" "j < length ids"
  shows "block_marked (concat (map (\<lambda>(a, n). map mem [a..<a + n]) (remote_descs peer (map i64_of_usize ids)))) b pat j \<longleftrightarrow>
    mem (lp_pool_base peer + ids ! j * b) = pat"
proof -
  let ?xss = "map (\<lambda>(a, n). map mem [a..<a + n]) (remote_descs peer (map i64_of_usize ids))"
  have "j * b < length ids * b" using assms(2,5) by simp
  then have "j * b < 2 ^ 64" using assms(4) by (rule less_trans)
  then have j: "usize (j * b) = j * b" by (simp add: usize_def)
  have "\<forall>xs \<in> set ?xss. length xs = b" using assms(1) by (auto simp: remote_descs_def)
  from concat_block_nth [OF this _ assms(2), of j] have
    "j * b < length (concat ?xss) \<and> concat ?xss ! (j * b) = ?xss ! j ! 0"
    using assms(5) by (simp add: remote_descs_def)
  moreover have "?xss ! j ! 0 = mem (lp_pool_base peer + ids ! j * b)"
    using assms remote_address [of "ids ! j" "lp_pool_base peer" b] by (simp add: remote_descs_def)
  ultimately show ?thesis by (simp add: block_marked_def j)
qed

text \<open>A pull from a loaded peer is accepted exactly when every block it checks starts with the
  request's pattern, and then the local slots hold it.\<close>

lemma do_pull_verdict:
  fixes kv kvd :: request_kv
  defines "ids \<equiv> rkv_block_ids kv"
  defines "pat \<equiv> pattern_for (rkv_request_id kv)"
  assumes peer: "ensure_peer L (nc_engine_id cfg) (nc_side_channel_host cfg) (nc_side_channel_port cfg) D = (Inr peer, D1)"
    "lp_block_bytes peer = b" "0 < b" "lp_pool_base peer \<noteq> 0"
    and local: "plane_ok D1" "in_pool D1 (rkv_block_ids kvd)"
    and lib: "transfers_complete L" "reads_memory L mem"
    and ids: "ids \<noteq> []" "\<forall>i \<in> set ids. i < 2 ^ 63 \<and> lp_pool_base peer + i * b < 2 ^ 64" "length ids * b < 2 ^ 64"
  shows "\<exists>moved D'. do_pull L kvd (remote_for cfg kv) D = Done (moved, D') \<and>
    (if \<forall>i \<in> set (take (length (rkv_block_ids kvd)) ids). mem (lp_agent_name peer) (lp_pool_base peer + i * b) = pat
     then moved = Inr (length ids * b) \<and> repaints (set (take (length ids) (rkv_block_ids kvd))) pat D1 D'
     else \<exists>err. moved = Inl err)"
proof -
  let ?slots = "take (length ids) (rkv_block_ids kvd)"
  define landed where "landed = concat (map (\<lambda>(a, n). map (mem (lp_agent_name peer)) [a..<a + n])
    (remote_descs peer (map i64_of_usize ids)))"
  have "in_pool D1 ?slots" using local(2) by (auto simp: in_pool_def dest: in_set_takeD)
  from land_blocks_verdict [OF local(1) this, of landed b pat 0] obtain res D' where
    D': "land_blocks landed b pat 0 ?slots D1 = Done (res, D')"
    "if \<forall>m < length ?slots. block_marked landed b pat m
     then res = Inr () \<and> repaints (set ?slots) pat D1 D' else \<exists>err. res = Inl err" by auto
  have "(\<forall>m < length ?slots. block_marked landed b pat m) \<longleftrightarrow>
      (\<forall>m < length ?slots. mem (lp_agent_name peer) (lp_pool_base peer + ids ! m * b) = pat)"
    using landed_marks [OF peer(2,3) ids(2,3)] by (simp add: landed_def)
  also have "\<dots> \<longleftrightarrow> (\<forall>i \<in> set (take (length (rkv_block_ids kvd)) ids). mem (lp_agent_name peer) (lp_pool_base peer + i * b) = pat)"
    by (auto simp: set_conv_nth min.commute)
  finally have marks: "(\<forall>m < length ?slots. block_marked landed b pat m) \<longleftrightarrow> \<dots>" .
  have "do_pull L kvd (remote_for cfg kv) D = Done (bind_result res (\<lambda>_. Inr (usize (length ids * b))), D')"
    using peer ids(1) D'(1) read_remote_lands [OF lib, of peer "map i64_of_usize ids"]
    by (simp add: do_pull_def remote_for_def landed_def ids_def pat_def Let_def)
  then show ?thesis using D'(2) ids(3) unfolding marks by (auto simp: usize_def split: if_splits)
qed

text \<open>Whatever the libraries answer, a pull into slots of the pool writes nothing outside it.\<close>

lemma poll_xfer_defined: "poll_xfer polls \<noteq> Out_of_bounds"
  by (induction polls rule: poll_xfer.induct) auto

lemma bind_outcome_undefined:
  "bind_outcome x f = Out_of_bounds \<longleftrightarrow> x = Out_of_bounds \<or> (\<exists>y. x = Done y \<and> f y = Out_of_bounds)"
  by (cases x) auto

lemma read_remote_defined: "read_remote L peer ids \<noteq> Out_of_bounds"
  by (simp add: read_remote_def Let_def bind_outcome_undefined poll_xfer_defined split: sum.split)

lemma land_blocks_defined:
  assumes "plane_ok q" "in_pool q ids"
  shows "land_blocks landed block_bytes pat j (take n ids) q \<noteq> Out_of_bounds"
proof -
  have "in_pool q (take n ids)" using assms(2) by (auto simp: in_pool_def dest: in_set_takeD)
  then obtain res q' where "land_blocks landed block_bytes pat j (take n ids) q = Done (res, q')"
    using land_blocks_verdict [OF assms(1)] by blast
  then show ?thesis by simp
qed

lemma ensure_peer_pool:
  assumes "ensure_peer L engine_id host port p = (r, q)"
  shows "plane_ok q = plane_ok p" "in_pool q ids = in_pool p ids"
  using assms by (auto simp: ensure_peer_def plane_ok_def in_pool_def split: option.splits sum.splits)

lemma do_pull_inside:
  assumes "plane_ok p" "in_pool p (rkv_block_ids kv)"
  shows "do_pull L kv remote p \<noteq> Out_of_bounds"
proof -
  obtain r q where q: "ensure_peer L (rk_engine_id remote) (rk_host remote) (rk_port remote) p = (r, q)" by fastforce
  then have "plane_ok q" "in_pool q (rkv_block_ids kv)" using ensure_peer_pool [OF q] assms by simp_all
  note land = land_blocks_defined [OF this]
  show ?thesis
    by (simp add: do_pull_def Let_def q land read_remote_defined bind_outcome_undefined split: sum.split)
qed

text \<open>The poll loop ends: each round sleeps at least 200 microseconds, so the deadline of five seconds
  is passed within 25001 polls.\<close>

lemma poll_xfer_ends:
  assumes "\<And>k. k < length polls \<Longrightarrow> 200 * (n + k) \<le> snd (polls ! k)" "25001 < n + length polls"
  shows "n \<le> 25001 \<Longrightarrow> \<exists>status. poll_xfer polls = Done status"
  using assms
proof (induction polls arbitrary: n rule: poll_xfer.induct)
  case (4 elapsed polls)
  show ?case
  proof (cases "xfer_timeout < elapsed")
    case False
    have "200 * n \<le> elapsed" using "4.prems"(2) [of 0] by simp
    then have "Suc n \<le> 25001" using False by (simp add: xfer_timeout_def)
    moreover have "200 * (Suc n + k) \<le> snd (polls ! k)" if "k < length polls" for k
      using "4.prems"(2) [of "Suc k"] that by simp
    ultimately show ?thesis using "4.IH" [of "Suc n"] "4.prems"(3) False by simp
  qed simp
qed auto

end
