(* ===== verification/Nixl_Handoff.thy ===== *)
theory Nixl_Handoff
  imports Nixl_Props
begin

text \<open>
  From a prefill engine to a decode engine: which pulls are accepted, why two requests that share a
  cached block disturb each other, what a restart or a second rank does to the peer cache, and that
  the slot ids the engine hands to its plane lie inside the registered pool.
\<close>

section \<open>From a prefill engine to a decode engine\<close>

text \<open>An allocation of the requested size that lies in the address space.\<close>

definition pool_fits :: "nixl_config \<Rightarrow> nixl_plane \<Rightarrow> bool" where
  "pool_fits cfg p \<longleftrightarrow>
     length (np_pool p) = pool_bytes cfg \<and> 0 < nc_kv_block_bytes cfg \<and> nc_kv_cache_blocks cfg < 2 ^ 63 \<and>
     max (nc_kv_cache_blocks cfg) 1 * nc_kv_block_bytes cfg < 2 ^ 64 \<and>
     np_base p \<noteq> 0 \<and> np_base p + pool_bytes cfg < 2 ^ 64"

text \<open>The decode engine's libraries reach the prefill engine: its side channel answers with what was
  served, the codecs agree, and loading its metadata names an agent whose memory is its pool.\<close>

definition reaches_prefill ::
  "nixl_lib \<Rightarrow> nixl_lib \<Rightarrow> (string \<Rightarrow> nat \<Rightarrow> u8) \<Rightarrow> nixl_config \<Rightarrow> u8 list \<Rightarrow> nixl_plane \<Rightarrow> bool" where
  "reaches_prefill Lp Ld mem cfg answer P \<longleftrightarrow>
     length answer < 2 ^ 32 \<and>
     nl_connect Ld (nc_side_channel_host cfg) (nc_side_channel_port cfg mod 2 ^ 16) = Inr answer \<and>
     (\<forall>v payload. nl_pack Lp v = Inr payload \<longrightarrow> nl_unpack Ld payload = Inr v) \<and>
     (\<forall>md. nl_local_md Lp = Inr md \<longrightarrow> (\<exists>agent. nl_load_md Ld md = Inr agent \<and>
        (\<forall>k < length (np_pool P). mem agent (np_base P + k) = np_pool P ! k)))"

lemma bind_result_InrE: "bind_result x f = Inr y \<Longrightarrow> (\<And>v. x = Inr v \<Longrightarrow> f v = Inr y \<Longrightarrow> R) \<Longrightarrow> R"
  by (cases x) auto

lemma nixl_new_served:
  assumes "nixl_new L role cfg = Inr (P, Some answer)"
  shows "role = RolePrefill \<and> np_cfg P = cfg \<and> np_peers P = Map.empty \<and>
    (\<exists>md payload. nl_local_md L = Inr md \<and> answer = write_framed payload \<and>
       nl_pack L (descriptor_encode (descriptor_of cfg md (np_base P))) = Inr payload)"
  using assms unfolding nixl_new_def
  by (auto simp: Let_def serve_descriptor_def elim!: bind_result_InrE split: if_splits)

lemma pool_fits_ok: "pool_fits cfg p \<Longrightarrow> np_cfg p = cfg \<Longrightarrow> plane_ok p"
  by (simp add: pool_fits_def plane_ok_def pool_bytes_def usize_def)

lemma slots_bytes:
  assumes "pool_fits cfg p" "m \<le> max (nc_kv_cache_blocks cfg) 1"
  shows "m * nc_kv_block_bytes cfg < 2 ^ 64"
  using le_less_trans [OF mult_le_mono1 [OF assms(2)]] assms(1) by (simp add: pool_fits_def)

lemma peer_loaded:
  assumes "nixl_new Lp RolePrefill cfg = Inr (P0, Some answer)" "pool_fits cfg P0"
    "reaches_prefill Lp Ld mem cfg answer P" "np_peers D (nc_engine_id cfg) = None"
  obtains agent D1 where
    "ensure_peer Ld (nc_engine_id cfg) (nc_side_channel_host cfg) (nc_side_channel_port cfg) D =
       (Inr \<lparr>lp_agent_name = agent, lp_pool_base = np_base P0, lp_block_bytes = nc_kv_block_bytes cfg\<rparr>, D1)"
    "D1 = D\<lparr>np_peers := np_peers D1\<rparr>"
    "\<forall>k < length (np_pool P). mem agent (np_base P + k) = np_pool P ! k"
proof -
  obtain md payload where md: "nl_local_md Lp = Inr md" "answer = write_framed payload"
    "nl_pack Lp (descriptor_encode (descriptor_of cfg md (np_base P0))) = Inr payload"
    using nixl_new_served [OF assms(1)] by auto
  obtain agent where agent: "nl_load_md Ld md = Inr agent"
    "\<forall>k < length (np_pool P). mem agent (np_base P + k) = np_pool P ! k"
    using assms(3) md(1) by (auto simp: reaches_prefill_def)
  have "nc_kv_cache_blocks cfg < 2 ^ 64" "nc_kv_block_bytes cfg < 2 ^ 64" "np_base P0 < 2 ^ 64"
    using assms(2) slots_bytes [OF assms(2), of 1] by (auto simp: pool_fits_def)
  moreover have "length payload < 2 ^ 32"
    using assms(3) md(2) by (simp add: reaches_prefill_def write_framed_def)
  ultimately have "fetch_descriptor Ld (nc_side_channel_host cfg) (nc_side_channel_port cfg) =
      Inr (descriptor_of cfg md (np_base P0))"
    using assms(3) md by (intro fetch_served [of Lp _ payload _ _ _ "[]"]) (auto simp: reaches_prefill_def descriptor_of_def)
  then show thesis
    using that agent assms(4) by (simp add: ensure_peer_def descriptor_of_def)
qed

lemma slots_count:
  assumes "distinct ids" "\<forall>i \<in> set ids. i < (n :: nat)"
  shows "length ids \<le> n"
proof -
  have "card (set ids) \<le> card {..<n}" using assms(2) by (intro card_mono) auto
  then show ?thesis using assms(1) by (simp add: distinct_card)
qed

lemma advertised_slots:
  assumes "plane_ok P0" "advertise_all kvs P0 = Done P" "\<forall>kv \<in> set kvs. in_pool P0 (rkv_block_ids kv)"
  shows "np_base P = np_base P0" "length (np_pool P) = length (np_pool P0)"
    "k < length (np_pool P0) \<Longrightarrow> np_pool P ! k =
       (case last_writer kvs (k div nc_kv_block_bytes (np_cfg P0)) of
          None \<Rightarrow> np_pool P0 ! k | Some w \<Rightarrow> pattern_for (rkv_request_id w))"
proof -
  obtain P' where P': "advertise_all kvs P0 = Done P'" "P' = P0\<lparr>np_pool := np_pool P'\<rparr>"
    "length (np_pool P') = length (np_pool P0)"
    "\<forall>k < length (np_pool P0). np_pool P' ! k = (case last_writer kvs (k div nc_kv_block_bytes (np_cfg P0)) of
       None \<Rightarrow> np_pool P0 ! k | Some w \<Rightarrow> pattern_for (rkv_request_id w))"
    using advertise_all_slots [OF assms(1,3)] by auto
  then have "P' = P" using assms(2) by simp
  then show "np_base P = np_base P0" "length (np_pool P) = length (np_pool P0)"
    "k < length (np_pool P0) \<Longrightarrow> np_pool P ! k =
       (case last_writer kvs (k div nc_kv_block_bytes (np_cfg P0)) of
          None \<Rightarrow> np_pool P0 ! k | Some w \<Rightarrow> pattern_for (rkv_request_id w))"
    using arg_cong [OF P'(2), of np_base] P'(3,4) by auto
qed

text \<open>A pull over NIXL is accepted exactly when the blocks it checks still belong to its request. A prefill
  engine that set up its pool advertises a history of requests in their order; a decode engine that has
  not loaded it yet fetches its descriptor over the side channel, reads all blocks of one of these
  requests, and succeeds with all bytes moved if each of the blocks it keeps was last written for a
  request with the same pattern; its own slots for the request then hold the pattern and every other
  byte of its pool is what it was. Otherwise it fails.\<close>

lemma handoff_outcome:
  assumes "nixl_new Lp RolePrefill cfg = Inr (P0, Some answer)" "pool_fits cfg P0"
    "advertise_all kvs P0 = Done P" "\<forall>kv \<in> set kvs. in_pool P0 (rkv_block_ids kv)"
    "kv \<in> set kvs" "rkv_block_ids kv \<noteq> []" "distinct (rkv_block_ids kv)"
    "reaches_prefill Lp Ld mem cfg answer P" "transfers_complete Ld" "reads_memory Ld mem"
    "plane_ok D" "np_peers D (nc_engine_id cfg) = None" "in_pool D (rkv_block_ids kvd)"
  shows "\<exists>moved D'. do_pull Ld kvd (remote_for cfg kv) D = Done (moved, D') \<and>
    (if \<forall>i \<in> set (take (length (rkv_block_ids kvd)) (rkv_block_ids kv)).
          \<exists>w. last_writer kvs i = Some w \<and> pattern_for (rkv_request_id w) = pattern_for (rkv_request_id kv)
     then moved = Inr (length (rkv_block_ids kv) * nc_kv_block_bytes cfg) \<and>
       repaints (set (take (length (rkv_block_ids kv)) (rkv_block_ids kvd))) (pattern_for (rkv_request_id kv))
         (D\<lparr>np_peers := np_peers D'\<rparr>) D'
     else \<exists>err. moved = Inl err)"
proof -
  let ?b = "nc_kv_block_bytes cfg" and ?ids = "rkv_block_ids kv" and ?n = "max (nc_kv_cache_blocks cfg) 1"
  let ?checked = "take (length (rkv_block_ids kvd)) ?ids"
  have cfg: "np_cfg P0 = cfg" using nixl_new_served [OF assms(1)] by simp
  have ok: "plane_ok P0" using pool_fits_ok [OF assms(2) cfg] .
  have size: "length (np_pool P0) = ?n * ?b" "0 < ?b" using assms(2) ok cfg by (auto simp: plane_ok_def pool_fits_def)
  note P = advertised_slots [OF ok assms(3,4)]
  obtain agent D1 where D1:
    "ensure_peer Ld (nc_engine_id cfg) (nc_side_channel_host cfg) (nc_side_channel_port cfg) D =
       (Inr \<lparr>lp_agent_name = agent, lp_pool_base = np_base P0, lp_block_bytes = ?b\<rparr>, D1)"
    "D1 = D\<lparr>np_peers := np_peers D1\<rparr>"
    "\<forall>k < length (np_pool P). mem agent (np_base P + k) = np_pool P ! k"
    using peer_loaded [OF assms(1,2,8,12)] .
  have ids: "i < ?n" "i * ?b < length (np_pool P)" if "i \<in> set ?ids" for i
    using assms(4,5) that cfg size P(2) by (auto simp: in_pool_def)
  have mem: "mem agent (np_base P0 + i * ?b) = pattern_for (rkv_request_id kv) \<longleftrightarrow>
      (\<exists>w. last_writer kvs i = Some w \<and> pattern_for (rkv_request_id w) = pattern_for (rkv_request_id kv))"
    if "i \<in> set ?ids" for i
    using D1(3) P ids(2) [OF that] cfg size(2) last_writer_Some [OF assms(5) that] by auto
  have "length ?ids \<le> ?n" using assms(7) ids(1) by (intro slots_count) auto
  then have bytes: "length ?ids * ?b < 2 ^ 64" by (rule slots_bytes [OF assms(2)])
  have "i < 2 ^ 63 \<and> np_base P0 + i * ?b < 2 ^ 64" if "i \<in> set ?ids" for i
    using ids [OF that] P(2) assms(2) by (auto simp: pool_fits_def)
  then have range: "\<forall>i \<in> set ?ids. i < 2 ^ 63 \<and> np_base P0 + i * ?b < 2 ^ 64" by blast
  have "np_cfg D1 = np_cfg D" "np_pool D1 = np_pool D"
    using arg_cong [OF D1(2), of np_cfg] arg_cong [OF D1(2), of np_pool] by simp_all
  then have D1_ok: "plane_ok D1" "in_pool D1 (rkv_block_ids kvd)"
    using assms(11,13) by (simp_all add: plane_ok_def in_pool_def)
  have base: "np_base P0 \<noteq> 0" using assms(2) by (simp add: pool_fits_def)
  obtain moved D' where D': "do_pull Ld kvd (remote_for cfg kv) D = Done (moved, D')"
    "if \<forall>i \<in> set ?checked. mem agent (np_base P0 + i * ?b) = pattern_for (rkv_request_id kv)
     then moved = Inr (length ?ids * ?b) \<and>
       repaints (set (take (length ?ids) (rkv_block_ids kvd))) (pattern_for (rkv_request_id kv)) D1 D'
     else \<exists>err. moved = Inl err"
    using do_pull_verdict [OF D1(1) _ size(2) _ D1_ok assms(9,10,6) _ bytes] range base by auto
  have peers: "D\<lparr>np_peers := np_peers D'\<rparr> = D1" if "repaints S pat D1 D'" for S pat
    using repaints_cfg [OF that] D1(2) by simp
  have owned: "(\<forall>i \<in> set ?checked. mem agent (np_base P0 + i * ?b) = pattern_for (rkv_request_id kv)) \<longleftrightarrow>
      (\<forall>i \<in> set ?checked. \<exists>w. last_writer kvs i = Some w \<and> pattern_for (rkv_request_id w) = pattern_for (rkv_request_id kv))"
    by (rule ball_cong [OF refl]) (rule mem [OF in_set_takeD])
  show ?thesis
    by (intro exI conjI, rule D'(1), use D'(2) peers in \<open>unfold owned, auto split: if_splits\<close>)
qed

section \<open>The example pair\<close>

definition demo_cfg :: nixl_config where
  "demo_cfg = \<lparr>nc_kv_block_bytes = 2, nc_kv_cache_blocks = 2, nc_engine_id = ''p'', nc_side_channel_host = ''h'',
     nc_side_channel_port = 5600\<rparr>"

definition demo_descriptor :: msgpack where
  "demo_descriptor = descriptor_encode (descriptor_of demo_cfg [7] 4096)"

definition pool_memory :: "nixl_plane \<Rightarrow> string \<Rightarrow> nat \<Rightarrow> u8" where
  "pool_memory P agent a = np_pool P ! (a - np_base P)"

definition demo_lib :: "nixl_plane \<Rightarrow> nixl_lib" where
  "demo_lib P =
     \<lparr>nl_stub = False, nl_pack = (\<lambda>v. if v = demo_descriptor then Inr [1] else Inl ''encode''),
      nl_unpack = (\<lambda>_. Inr demo_descriptor), nl_agent = (\<lambda>_ _. Inr ()), nl_plugin = Inr (), nl_backend = Inr (),
      nl_alloc = (\<lambda>n. Inr (4096, replicate n 0)), nl_opts = Inr (), nl_register = Inr (), nl_local_md = Inr [7],
      nl_bind = (\<lambda>_. Inr ()), nl_spawn = Inr (), nl_connect = (\<lambda>_ _. Inr (write_framed [1])),
      nl_load_md = (\<lambda>_. Inr ''p''), nl_desc_list = Inr (),
      nl_xfer = (\<lambda>agent ls rs. Inr \<lparr>xf_polls = [(Inr False, 200), (Inr True, 400)],
        xf_landed = concat (map (\<lambda>(a, n). map (pool_memory P agent) [a..<a + n]) rs)\<rparr>)\<rparr>"

definition demo_plane :: "pd_role \<Rightarrow> nixl_plane" where
  "demo_plane role = \<lparr>np_role = role, np_cfg = demo_cfg, np_base = 4096, np_pool = replicate 4 0, np_peers = Map.empty\<rparr>"

abbreviation demo_kv :: "string \<Rightarrow> nat list \<Rightarrow> request_kv" where
  "demo_kv rid ids \<equiv> \<lparr>rkv_request_id = rid, rkv_num_tokens = 2, rkv_block_ids = ids\<rparr>"

lemma demo_prefill: "nixl_new (demo_lib P) RolePrefill demo_cfg = Inr (demo_plane RolePrefill, Some (write_framed [1]))"
  by (simp add: nixl_new_def demo_lib_def demo_cfg_def demo_plane_def serve_descriptor_def pool_bytes_def usize_def
      demo_descriptor_def)

lemma demo_links:
  "pool_fits demo_cfg (demo_plane role)" "plane_ok (demo_plane role)"
  "transfers_complete (demo_lib P)" "reads_memory (demo_lib P) (pool_memory P)"
  "reaches_prefill (demo_lib Q) (demo_lib P) (pool_memory P) demo_cfg (write_framed [1]) P"
  by (simp_all add: pool_fits_def plane_ok_def demo_plane_def demo_cfg_def pool_bytes_def usize_def
      transfers_complete_def reads_memory_def reaches_prefill_def demo_lib_def pool_memory_def
      write_framed_def xfer_timeout_def)

lemma demo_range: "in_pool (demo_plane role) ids \<longleftrightarrow> (\<forall>i \<in> set ids. i < 2)"
  by (simp add: in_pool_def demo_plane_def demo_cfg_def numeral_2_eq_2)

lemma demo_patterns: "pattern_for ''a'' = 7" "pattern_for ''c'' = 9" "pattern_for ''b'' = 7"
  by (simp_all add: pattern_for_def)

section \<open>What a pull finds\<close>

text \<open>C18: A pull over NIXL is accepted exactly when the blocks it checks still belong to its request. A prefill
  engine that set up its pool advertises a history of requests in their order; a decode engine that has
  not loaded it yet fetches its descriptor over the side channel, reads all blocks of one of these
  requests, and succeeds with all bytes moved if each of the blocks it keeps was last written for a
  request with the same pattern; its own slots for the request then hold the pattern and every other
  byte of its pool is what it was. Otherwise it fails.\<close>

theorem handoff_verdict:
  assumes "nixl_new Lp RolePrefill cfg = Inr (P0, Some answer)" "pool_fits cfg P0"
    "advertise_all kvs P0 = Done P" "\<forall>kv \<in> set kvs. in_pool P0 (rkv_block_ids kv)"
    "kv \<in> set kvs" "rkv_block_ids kv \<noteq> []" "distinct (rkv_block_ids kv)"
    "reaches_prefill Lp Ld mem cfg answer P" "transfers_complete Ld" "reads_memory Ld mem"
    "plane_ok D" "np_peers D (nc_engine_id cfg) = None" "in_pool D (rkv_block_ids kvd)"
  shows "\<exists>moved D'. do_pull Ld kvd (remote_for cfg kv) D = Done (moved, D') \<and>
    (if \<forall>i \<in> set (take (length (rkv_block_ids kvd)) (rkv_block_ids kv)).
          \<exists>w. last_writer kvs i = Some w \<and> pattern_for (rkv_request_id w) = pattern_for (rkv_request_id kv)
     then moved = Inr (length (rkv_block_ids kv) * nc_kv_block_bytes cfg) \<and>
       repaints (set (take (length (rkv_block_ids kv)) (rkv_block_ids kvd))) (pattern_for (rkv_request_id kv))
         (D\<lparr>np_peers := np_peers D'\<rparr>) D'
     else \<exists>err. moved = Inl err)"
  by (rule handoff_outcome [OF assms])

theorem handoff_verdict_witness:
  "\<exists>P D'. advertise_all [demo_kv ''a'' [1, 0]] (demo_plane RolePrefill) = Done P \<and>
     do_pull (demo_lib P) (demo_kv ''x'' [0, 1]) (remote_for demo_cfg (demo_kv ''a'' [1, 0])) (demo_plane RoleDecode) =
       Done (Inr 4, D')"
proof -
  let ?kv = "demo_kv ''a'' [1, 0]"
  obtain P where P: "advertise_all [?kv] (demo_plane RolePrefill) = Done P"
    using advertise_all_slots [OF demo_links(2), of "[?kv]" RolePrefill] by (auto simp: demo_range)
  show ?thesis
    using P handoff_verdict [OF demo_prefill [of P] demo_links(1) P _ _ _ _ demo_links(5,3,4) demo_links(2), of ?kv RoleDecode "demo_kv ''x'' [0, 1]"]
    by (auto simp: demo_range) (auto simp: demo_plane_def demo_cfg_def)
qed

text \<open>C28: Two requests that share a cached block disturb each other. Blocks of a common prefix have one slot
  in the prefill engine's pool, and advertising fills every slot of a request with that request's
  pattern, so the second of them takes the block over: a decode engine that then pulls the first one
  and checks that block refuses it, unless the patterns happen to agree.\<close>

theorem shared_block_refused:
  assumes "nixl_new Lp RolePrefill cfg = Inr (P0, Some answer)" "pool_fits cfg P0"
    "advertise_all [kv, kv'] P0 = Done P" "in_pool P0 (rkv_block_ids kv)" "in_pool P0 (rkv_block_ids kv')"
    "distinct (rkv_block_ids kv)"
    "reaches_prefill Lp Ld mem cfg answer P" "transfers_complete Ld" "reads_memory Ld mem"
    "plane_ok D" "np_peers D (nc_engine_id cfg) = None" "in_pool D (rkv_block_ids kvd)"
    "i \<in> set (take (length (rkv_block_ids kvd)) (rkv_block_ids kv))" "i \<in> set (rkv_block_ids kv')"
    "pattern_for (rkv_request_id kv) \<noteq> pattern_for (rkv_request_id kv')"
  shows "\<exists>err D'. do_pull Ld kvd (remote_for cfg kv) D = Done (Inl err, D')"
proof -
  have "rkv_block_ids kv \<noteq> []" using assms(13) by auto
  then obtain moved D' where
    "do_pull Ld kvd (remote_for cfg kv) D = Done (moved, D')"
    "if \<forall>i \<in> set (take (length (rkv_block_ids kvd)) (rkv_block_ids kv)).
          \<exists>w. last_writer [kv, kv'] i = Some w \<and> pattern_for (rkv_request_id w) = pattern_for (rkv_request_id kv)
     then moved = Inr (length (rkv_block_ids kv) * nc_kv_block_bytes cfg) \<and>
       repaints (set (take (length (rkv_block_ids kv)) (rkv_block_ids kvd))) (pattern_for (rkv_request_id kv))
         (D\<lparr>np_peers := np_peers D'\<rparr>) D'
     else \<exists>err. moved = Inl err"
    using handoff_outcome [OF assms(1-3) _ _ _ assms(6-12)] assms(4,5) by auto
  moreover have "\<not> (\<exists>w. last_writer [kv, kv'] i = Some w \<and> pattern_for (rkv_request_id w) = pattern_for (rkv_request_id kv))"
    using assms(14,15) by simp
  ultimately show ?thesis using assms(13) by (metis (no_types, lifting))
qed

theorem shared_block_refused_witness:
  "\<exists>P err D'. advertise_all [demo_kv ''a'' [1, 0], demo_kv ''c'' [1]] (demo_plane RolePrefill) = Done P \<and>
     do_pull (demo_lib P) (demo_kv ''x'' [0, 1]) (remote_for demo_cfg (demo_kv ''a'' [1, 0])) (demo_plane RoleDecode) =
       Done (Inl err, D')"
proof -
  let ?kv = "demo_kv ''a'' [1, 0]" and ?kv' = "demo_kv ''c'' [1]"
  obtain P where P: "advertise_all [?kv, ?kv'] (demo_plane RolePrefill) = Done P"
    using advertise_all_slots [OF demo_links(2), of "[?kv, ?kv']" RolePrefill] by (auto simp: demo_range)
  show ?thesis
    using P shared_block_refused [OF demo_prefill [of P] demo_links(1) P _ _ _ demo_links(5,3,4) demo_links(2),
        of RoleDecode "demo_kv ''x'' [0, 1]" 1]
    by (auto simp: demo_range demo_patterns) (auto simp: demo_plane_def demo_cfg_def)
qed

text \<open>The peer cache is keyed by the engine id alone. The ranks of one process share it, so the port of a
  second rank is never connected to.\<close>

lemma ranks_share_peer:
  assumes "ensure_peer L (nc_engine_id (nixl_config_of cfg a)) host port D = (Inr peer, D1)"
  shows "ensure_peer L' (nc_engine_id (nixl_config_of cfg b)) host' port' D1 = (Inr peer, D1)"
  using assms by (auto simp: ensure_peer_def nixl_config_of_def split: option.splits sum.splits)

section \<open>The engine stays inside the pool\<close>

definition pool_size :: "nat \<Rightarrow> 'r sim_engine \<Rightarrow> bool" where
  "pool_size n e \<longleftrightarrow> capacity (e_pool e) = n"

lemma finish_capacity [simp]: "capacity (e_pool (finish_request rid e)) = capacity (e_pool e)"
  by (simp add: finish_request_def split: option.splits)

lemma finish_fold_capacity: "capacity (e_pool (fold finish_request rids e)) = capacity (e_pool e)"
  by (induction rids arbitrary: e) simp_all

lemma admit_direct_capacity:
  assumes "base_inv e"
  shows "capacity (e_pool (snd (admit_direct W clk rid client q ids n e))) = capacity (e_pool e)"
  using admit_direct_shape [OF base_invD(4,5) [OF assms] refl, of W clk rid client q ids n] by auto

lemma admit_capacity:
  assumes "core_inv e" "next_waiting e = Some (q, rest)"
  shows "capacity (e_pool (snd (admit W clk q (e\<lparr>e_waiting := rest\<rparr>)))) = capacity (e_pool e)"
proof -
  obtain out pool where c: "cache_prompt (e_pool e) (prompt_of (q_request q)) (request_lora_name (q_request q))
      (req_cache_salt (q_request q)) = (out, pool)" by fastforce
  have b: "base_inv e" using assms(1) by blast
  have pool: "capacity pool = capacity (e_pool e)"
    using cache_prompt_capacity(1) [OF base_invD(3) [OF b]] c by (metis snd_conv)
  let ?e1 = "publish (events out) (e\<lparr>e_waiting := rest, e_pool := pool\<rparr>)"
  have "reserved (req_id (q_request q)) (block_ids out) ?e1" using reserved_after_caching [OF b assms(2) c] .
  then have "base_inv ?e1" by (simp add: reserved_def)
  from admit_direct_capacity [OF this] show ?thesis
    using c pool by (auto simp: admit_def Let_def publish_def split: option.splits)
qed

interpretation pool_size: engine_extension W "pool_size n" "\<lambda>_. True" for W :: "'r world" and n
proof
  show "pool_size n e'" if "core_inv e" "pool_size n e" "evolves e e'" for e e' :: "'r sim_engine"
    using that by (simp add: evolves_def pool_size_def)
  show "pool_size n (snd (admit W clk q (e\<lparr>e_waiting := rest\<rparr>)))"
    if "core_inv e" "pool_size n e" "has_room e" "next_waiting e = Some (q, rest)" for e :: "'r sim_engine" and clk q rest
    using that(2) by (simp add: pool_size_def admit_capacity [OF that(1,4)])
  show "pool_size n (snd (admit_direct W clk rid (pp_client p) (pp_queued p) (pp_block_ids p) (pp_num_local_cached p)
      (e\<lparr>e_pending := bt_remove rid (e_pending e)\<rparr>)))"
    if "core_inv e" "pool_size n e" "bt_get (e_pending e) rid = Some p" for e :: "'r sim_engine" and clk rid p
    using that admit_direct_capacity [of "e\<lparr>e_pending := bt_remove rid (e_pending e)\<rparr>"]
      reserved_pulled [OF core_base [OF that(1)] that(3)] by (simp add: pool_size_def reserved_def)
  show "pool_size n (snd (snd (flush_due t e)))" if "core_inv e" "pool_size n e" for e :: "'r sim_engine" and t
    using that(2) unfolding flush_eq
    by (simp add: pool_size_def finish_fold_capacity count_completed_def drain_all_def Let_def)
  show "pool_size n (count_aborted (snd (withdraw rid e)))"
    if "core_inv e" "pool_size n e" "fst (withdraw rid e) \<noteq> None" for e :: "'r sim_engine" and rid
    using that(2) by (auto simp: pool_size_def count_aborted_def withdraw_def split: option.splits)
qed (auto simp: pool_size_def count_received_def count_failed_def count_aborted_def scheduler_stats_def Let_def split_beta
  reset_prefix_cache_outputs_def publish_def split: option.splits)

lemma engine_pool_size:
  assumes "engine_run W allow cfg e"
  shows "capacity (e_pool e) = max (o_kv_cache_size cfg) 1"
proof -
  obtain idx ev e0 where e0: "new_engine W idx cfg ev = Inr e0" "steps_fit cfg" "engine_reach W allow e0 e"
    using assms by (auto simp: engine_run_def)
  have "pool_size (max (o_kv_cache_size cfg) 1) e0"
    using e0(1) by (auto simp: new_engine_def bind_result_Inr pool_size_def new_pool_def Let_def)
  then show ?thesis
    using pool_size.extended.reach_pres [OF reach_any [OF e0(3)]] new_engine_start(1) [OF e0(1,2)]
    by (simp add: live_def pool_size_def)
qed

text \<open>C19: The engine never makes its data plane write outside the registered pool. In every reachable state
  the slot ids of a running request, which a prefill engine advertises, and of a parked one, which its
  pull writes, lie below the pool's capacity, so the raw writes of both calls stay inside an
  allocation of the configured size, whatever the peer answers.\<close>

theorem slots_inside_pool:
  assumes "engine_run W allow cfg e" "np_cfg p = nixl_config_of cfg idx" "plane_ok p"
    "(\<exists>r. bt_get (e_active e) rid = Some r \<and> a_block_ids r = rkv_block_ids kv) \<or>
     (\<exists>q. bt_get (e_pending e) rid = Some q \<and> pp_block_ids q = rkv_block_ids kv)"
  shows "do_advertise kv p \<noteq> Out_of_bounds \<and> do_pull L kv remote p \<noteq> Out_of_bounds"
proof -
  note I = base_invD [OF core_base [OF engine_run_core [OF assms(1)]]]
  have "i < capacity (e_pool e)" if "i \<in> set (rkv_block_ids kv)" for i
  proof -
    have "0 < held e i"
      using assms(4) that held_remove_active [OF I(1), of rid] held_remove_pending [OF I(2), of rid]
      by (fastforce simp: holds_def)
    then have "0 < refs (e_pool e) i" using I(9) [of i] by simp
    from pinned_slot [OF I(3) this] obtain h s where "bt_get (cached (e_pool e)) h = Some s" "block_id s = i" .
    then have "i \<in> set (cached_ids (e_pool e))" by (force simp: cached_ids_def dest: bt_get_Some_mem)
    then show ?thesis by (rule pool_inv_ids_bound [OF I(3)])
  qed
  then have "in_pool p (rkv_block_ids kv)"
    using assms(2) engine_pool_size [OF assms(1)] by (simp add: in_pool_def nixl_config_of_def)
  then show ?thesis using do_advertise_repaints [OF assms(3)] do_pull_inside [OF assms(3)] by force
qed

theorem slots_inside_pool_witness:
  "do_advertise (demo_kv ''a-0'' (a_block_ids demo_active))
     \<lparr>np_role = RolePrefill, np_cfg = nixl_config_of demo_opt 0, np_base = 0, np_pool = replicate 256 0,
      np_peers = Map.empty\<rparr> \<noteq> Out_of_bounds"
  using slots_inside_pool [OF demo_busy_run, of "\<lparr>np_role = RolePrefill, np_cfg = nixl_config_of demo_opt 0, np_base = 0,
      np_pool = replicate 256 0, np_peers = Map.empty\<rparr>" 0 "''a-0''" "demo_kv ''a-0'' (a_block_ids demo_active)"]
  by (simp add: plane_ok_def nixl_config_of_def demo_opt_def demo_busy_fields(7))

end
