(* ===== verification/End_To_End.thy ===== *)
theory End_To_End
  imports Tap_Session Engine_Handlers Nixl_Handoff
begin

text \<open>
  Properties that span components: what a recording of a real engine makes a replaying engine
  serve, and what a subscriber of the event feed knows of the engine's cache.
\<close>

section \<open>The sources of a replaying engine do not change\<close>

definition replays_file :: "replay_tokens \<Rightarrow> index_steps \<Rightarrow> 'r sim_engine \<Rightarrow> bool" where
  "replays_file s ix e \<longleftrightarrow> e_tokens e = ReplayTokens s \<and> e_step_source e = Some (IndexSteps ix)"

lemma replays_file_frame [simp]:
  "replays_file s ix (e\<lparr>e_step := x1\<rparr>) = replays_file s ix e" "replays_file s ix (e\<lparr>e_pending_spec := x2\<rparr>) = replays_file s ix e"
  "replays_file s ix (e\<lparr>e_prefill_order := x3\<rparr>) = replays_file s ix e" "replays_file s ix (e\<lparr>e_replies := x4\<rparr>) = replays_file s ix e"
  "replays_file s ix (count_failed e) = replays_file s ix e" "replays_file s ix (count_received e) = replays_file s ix e"
  "replays_file s ix (count_aborted e) = replays_file s ix e" "replays_file s ix (count_completed n e) = replays_file s ix e"
  "replays_file s ix (e\<lparr>e_failure_rng := x5\<rparr>) = replays_file s ix e" "replays_file s ix (e\<lparr>e_waiting := x6\<rparr>) = replays_file s ix e"
  "replays_file s ix (e\<lparr>e_loras := x7\<rparr>) = replays_file s ix e" "replays_file s ix (e\<lparr>e_opt := x8\<rparr>) = replays_file s ix e"
  "replays_file s ix (e\<lparr>e_latency := x9\<rparr>) = replays_file s ix e" "replays_file s ix (e\<lparr>e_stats := y1\<rparr>) = replays_file s ix e"
  "replays_file s ix (e\<lparr>e_pool := y2\<rparr>) = replays_file s ix e" "replays_file s ix (e\<lparr>e_pending := y3\<rparr>) = replays_file s ix e"
  "replays_file s ix (e\<lparr>e_pulls := y4\<rparr>) = replays_file s ix e" "replays_file s ix (publish evs e) = replays_file s ix e"
  "replays_file s ix (e\<lparr>e_emit_seq := y5\<rparr>) = replays_file s ix e" "replays_file s ix (e\<lparr>e_active := y6\<rparr>) = replays_file s ix e"
  "replays_file s ix (e\<lparr>e_recent_big := y7\<rparr>) = replays_file s ix e"
  by (simp_all add: replays_file_def count_failed_def count_received_def count_aborted_def count_completed_def publish_def)









section \<open>A recording and the engine that replays it\<close>






















end
