(* ===== verification/Kv_Feed.thy ===== *)
theory Kv_Feed
  imports Transport_Props Engine_Props
begin

text \<open>
  What a subscriber of the KV event feed knows: the decoding of a batch, the view a router keeps of
  the messages it received, and that this view is the engine's cache.
\<close>

section \<open>Decoding the feed\<close>

definition hash_of_bytes :: "u8 list \<Rightarrow> u64" where
  "hash_of_bytes bs = fold (\<lambda>b acc. push_bit 8 acc OR ucast b) bs 0"

lemma bit_byte:
  "bit (push_bit 8 (acc :: u64) OR ucast (b :: u8)) n \<longleftrightarrow> n < 64 \<and> (if n < 8 then bit b n else bit acc (n - 8))"
  using bit_imp_le_length [of b n] bit_imp_le_length [of acc "n - 8"] by (auto simp: bit_simps)

lemma hash_of_be_bytes [simp]: "hash_of_bytes (be_bytes w) = w"
proof -
  have le: "be_bytes w = map (\<lambda>k. ucast (drop_bit k w)) [56, 48, 40, 32, 24, 16, 8, 0]"
    by (simp add: be_bytes_def le_bytes_def upt_rec)
  show ?thesis
  proof (rule bit_word_eqI)
    fix n assume "n < LENGTH(64)"
    then consider "n < 8" | "8 \<le> n" "n < 16" | "16 \<le> n" "n < 24" | "24 \<le> n" "n < 32" | "32 \<le> n" "n < 40"
      | "40 \<le> n" "n < 48" | "48 \<le> n" "n < 56" | "56 \<le> n" "n < 64" by fastforce
    then show "bit (hash_of_bytes (be_bytes w)) n = bit w n"
      unfolding hash_of_bytes_def le fold_simps list.map
      by cases (simp_all only: bit_byte bit_ucast_iff bit_drop_bit_eq, simp_all add: less_diff_conv2)
  qed
qed

fun hash_field :: "msgpack \<Rightarrow> u64 option" where
  "hash_field (MBinary bs) = Some (hash_of_bytes bs)"
| "hash_field _ = None"

fun token_field :: "msgpack \<Rightarrow> u32 option" where
  "token_field (MInt n) = Some (word_of_int n)"
| "token_field _ = None"

fun array_items :: "msgpack \<Rightarrow> msgpack list" where
  "array_items (MArray xs) = xs"
| "array_items _ = []"

fun size_field :: "msgpack \<Rightarrow> nat" where
  "size_field (MInt n) = nat n"
| "size_field _ = 0"

fun stored_of :: "msgpack list \<Rightarrow> kv_cache_event option" where
  "stored_of [hashes, par, tokens, bsz, lora_id, medium, lora] =
     Some (Stored (List.map_filter hash_field (array_items hashes)) (hash_field par)
       (List.map_filter token_field (array_items tokens)) (size_field bsz) (msgpack_as_str lora))"
| "stored_of _ = None"

text \<open>An event with another tag is skipped.\<close>

definition decode_kv_event :: "msgpack \<Rightarrow> kv_cache_event option" where
  "decode_kv_event ev =
     (case array_items ev of
        MString tag # body \<Rightarrow>
          if tag = ''BlockStored'' then stored_of body
          else if tag = ''BlockRemoved''
          then (case body of hashes # _ \<Rightarrow> Some (Removed (List.map_filter hash_field (array_items hashes))) | [] \<Rightarrow> None)
          else if tag = ''AllBlocksCleared'' then Some AllCleared
          else None
      | _ \<Rightarrow> None)"

lemma hash_fields: "List.map_filter hash_field (map hash_value hs) = hs"
  by (induction hs) (simp_all add: map_filter_simps hash_value_def)

lemma token_fields: "List.map_filter token_field (map (\<lambda>t. MInt (uint t)) ts) = ts"
  by (induction ts) (simp_all add: map_filter_simps)

lemma decode_encoded [simp]: "decode_kv_event (encode_event ev) = Some ev"
proof (cases ev)
  case (Stored hs par ts bsz lora)
  then show ?thesis
    by (auto simp: decode_kv_event_def hash_fields token_fields msgpack_nat_def hash_value_def split: option.split)
qed (simp_all add: decode_kv_event_def hash_fields)

text \<open>The events of a message: its third frame unpacked.\<close>

definition message_events :: "wire_codec \<Rightarrow> u8 list list \<Rightarrow> kv_cache_event list" where
  "message_events C frames =
     (case frames of
        [topic, number, payload] \<Rightarrow>
          (case wc_unpack C payload of
             Inr (MArray (ts # MArray evs # rest)) \<Rightarrow> List.map_filter decode_kv_event evs
           | _ \<Rightarrow> [])
      | _ \<Rightarrow> [])"

definition router_view :: "wire_codec \<Rightarrow> u8 list list list \<Rightarrow> u64 set" where
  "router_view C messages = apply_events {} (concat (map (message_events C) messages))"

text \<open>What the msgpack library gives back of a published batch: its events, and a time.\<close>

definition unpacks_batches :: "wire_codec \<Rightarrow> kv_action list \<Rightarrow> bool" where
  "unpacks_batches C acts \<longleftrightarrow>
     (\<forall>evs \<in> set (published acts). \<forall>now b. encode_batch C now evs = Inr b \<longrightarrow>
        (\<exists>now'. wc_unpack C b = Inr (MArray [MFloat now', MArray (map encode_event evs), msgpack_nat 0])))"

lemma message_decodes:
  assumes "unpacks_batches C acts" "evs \<in> set (published acts)" "encode_batch C now evs = Inr payload"
  shows "message_events C (build_message topic n payload) = evs"
proof -
  obtain now' where "wc_unpack C payload = Inr (MArray [MFloat now', MArray (map encode_event evs), msgpack_nat 0])"
    using assms unfolding unpacks_batches_def by blast
  moreover have "List.map_filter decode_kv_event (map encode_event evs) = evs"
    by (induction evs) (simp_all add: map_filter_simps)
  ultimately show ?thesis by (simp add: message_events_def build_message_def)
qed

lemma numbered_decodes:
  assumes "numbered C p batches" "unpacks_batches C acts" "set batches \<subseteq> set (published acts)"
  shows "map (message_events C) (kp_sent p) = batches"
proof (rule nth_equalityI)
  show len: "length (map (message_events C) (kp_sent p)) = length batches" using assms(1) by (simp add: numbered_def)
  fix i assume "i < length (map (message_events C) (kp_sent p))"
  then have i: "i < length batches" using len by simp
  then obtain now payload where "encode_batch C now (batches ! i) = Inr payload"
    "kp_sent p ! i = build_message (kp_topic p) (of_nat i) payload"
    using assms(1) unfolding numbered_def by blast
  then show "map (message_events C) (kp_sent p) ! i = batches ! i"
    using message_decodes [OF assms(2)] assms(3) i len by (simp add: subset_iff)
qed

section \<open>The router's view\<close>

text \<open>C12: A router that decodes the messages of the feed and applies their events to an empty view holds
  exactly the blocks the engine has cached: in every reachable state of an engine whose batches the
  publisher was given, as long as the publisher's queue had room at each publish and has been
  drained, no send failed, and the msgpack library gives back the events of a batch. With batches
  still queued the router is behind by exactly these.\<close>

theorem router_view_is_cache:
  assumes "engine_run W allow cfg e" "e_events_on e" "kv_spawn kcfg = Some p"
    "concat (published acts) = e_published e"
    "kv_healthy C acts" "never_full C acts p" "KvDropSender \<notin> set acts" "unpacks_batches C acts"
  shows "apply_events (router_view C (kp_sent (kv_run C acts p))) (concat (kp_queue (kv_run C acts p))) = keys (e_pool e) \<and>
    (kp_queue (kv_run C acts p) = [] \<longrightarrow> router_view C (kp_sent (kv_run C acts p)) = keys (e_pool e))"
proof -
  have p: "numbered C p []" "kp_queue p = []" "kp_running p" "\<not> kp_closed p"
    using assms(3) by (auto simp: kv_spawn_def numbered_def split: if_splits)
  obtain batches where b: "numbered C (kv_run C acts p) batches"
    "batches @ kp_queue (kv_run C acts p) = published acts"
    using kv_roomy_run [OF assms(5) p(1) _ p(3) assms(6) p(4) assms(7), of "[]"] p(2) by auto
  then have "set batches \<subseteq> set (published acts)" by (metis set_append Un_upper1)
  then have v: "router_view C (kp_sent (kv_run C acts p)) = apply_events {} (concat batches)"
    using numbered_decodes [OF b(1) assms(8)] by (simp add: router_view_def)
  have "apply_events (apply_events {} (concat batches)) (concat (kp_queue (kv_run C acts p))) =
      apply_events {} (concat (published acts))"
    unfolding b(2) [symmetric] by (simp add: apply_events_append)
  also have "\<dots> = keys (e_pool e)" using run_mirrored [OF assms(1,2)] assms(4) by simp
  finally have a: "apply_events (router_view C (kp_sent (kv_run C acts p))) (concat (kp_queue (kv_run C acts p))) =
      keys (e_pool e)" by (simp only: v)
  moreover have "router_view C (kp_sent (kv_run C acts p)) = keys (e_pool e)" if "kp_queue (kv_run C acts p) = []"
    using a by (simp add: that)
  ultimately show ?thesis by blast
qed

text \<open>The example engine has cached one block; its batch, published and sent.\<close>

definition feed_batch :: "kv_cache_event list" where
  "feed_batch = [Stored [12185246084821128038] None [1, 2] 2 None]"

definition feed_codec :: wire_codec where
  "feed_codec = demo_wire\<lparr>wc_unpack := \<lambda>_. Inr (MArray [MFloat 0, MArray (map encode_event feed_batch), msgpack_nat 0])\<rparr>"

definition feed_acts :: "kv_action list" where
  "feed_acts = [KvPublish feed_batch, KvRound \<lparr>kr_now = 0, kr_cancelled = False, kr_send_ok = True\<rparr>]"

theorem router_view_is_cache_witness:
  "router_view feed_codec (kp_sent (kv_run feed_codec feed_acts (the (kv_spawn demo_kv_config)))) = keys (e_pool demo_busy)"
proof -
  let ?p = "the (kv_spawn demo_kv_config)"
  have spawn: "kv_spawn demo_kv_config = Some ?p" by (simp add: kv_spawn_def demo_kv_config_def)
  have q: "kp_queue (kv_run feed_codec feed_acts ?p) = []" "never_full feed_codec feed_acts ?p"
    by (simp_all add: feed_acts_def feed_batch_def feed_codec_def kv_run_def kv_spawn_def demo_kv_config_def kv_publish_def
        KV_QUEUE_def kv_step_def kv_send_def encode_batch_def err_context_def demo_wire_def)
  have pub: "published feed_acts = [feed_batch]" by (simp add: published_def feed_acts_def feed_batch_def)
  then have "concat (published feed_acts) = e_published demo_busy"
    by (simp add: feed_batch_def demo_busy_eq demo_admitted_def)
  moreover have "kv_healthy feed_codec feed_acts" "KvDropSender \<notin> set feed_acts"
    by (simp_all add: kv_healthy_def feed_codec_def demo_wire_def feed_acts_def)
  moreover have "unpacks_batches feed_codec feed_acts" by (simp add: unpacks_batches_def pub feed_codec_def)
  ultimately show ?thesis
    using router_view_is_cache [OF demo_busy_run _ spawn _ _ q(2)] q(1) by (simp add: demo_busy_fields)
qed

end
