(* ===== verification/Tap_Gate.thy ===== *)
theory Tap_Gate
  imports Tap_Session
begin

text \<open>
  When a recording session touches its frontend and its file: the handshake and the version guard
  come first, and the frontend is shown the engine's own registration.
\<close>

section \<open>The gate of a session\<close>

lemma context_Inr: "err_context msg r = Inr x \<longleftrightarrow> r = Inr x"
  by (cases r) (simp_all add: err_context_def)

lemma two_frames: "into_two_frames frames = Inr (a, b) \<longleftrightarrow> frames = [a, b]"
  by (cases frames rule: into_two_frames.cases) auto

lemma handshake_payload:
  assumes "upstream_handshake H cfg U = (init, Inr engine)"
  shows "\<exists>ident. uw_registration U = Inr [ident, ue_ready_response_payload engine]"
  using assms
  by (auto simp: upstream_handshake_def bind_result_Inr context_Inr two_frames split: sum.splits prod.splits)

lemma session_contacts:
  "ts_frontend (run_tap S cfg mcfg b) = Some conn \<longleftrightarrow>
     (\<exists>init engine header. upstream_handshake (sw_handshake S) cfg (sw_upstream S) = (init, Inr engine) \<and>
        capture_header (sw_sha256 S) mcfg (ue_vllm_version engine) (ue_ready_response_payload engine) = Inr header \<and>
        sw_meta_written S = Inr () \<and>
        conn = downstream_connection (to_frontend_handshake cfg) (ue_ready_message engine) (ue_ready_response_payload engine))"
proof (cases "upstream_handshake (sw_handshake S) cfg (sw_upstream S)")
  case (Pair init r)
  then show ?thesis
    by (cases r) (auto simp: run_tap_def failed_session_def Let_def split: sum.split prod.split)
qed

lemma session_silent:
  "ts_frontend (run_tap S cfg mcfg b) = None \<Longrightarrow>
   ts_lines (run_tap S cfg mcfg b) = [] \<and> ts_tap (run_tap S cfg mcfg b) = new_tap \<and>
   (\<exists>err. ts_result (run_tap S cfg mcfg b) = Some (Inl err))"
  by (auto simp: run_tap_def failed_session_def Let_def split_beta split: sum.splits prod.splits)

lemma guard_line:
  "capture_header sha256 mcfg reported payload = Inr header \<Longrightarrow> mc_vllm_tag mcfg = Some tag \<Longrightarrow>
   minor_line tag = Some want \<Longrightarrow> minor_line reported = Some got \<Longrightarrow> want = got"
  by (auto simp: capture_header_def guard_vllm_version_def bind_result_def split: if_splits sum.splits)

text \<open>C27: Nothing is recorded and no frontend sees the tap before the engine has completed its handshake
  and passed the version guard: a session that never contacts the frontend has failed, written no
  line and forwarded nothing; one that does presents the payload of the engine's own registration,
  unchanged, and the engine's minor line is the one of the configured tag whenever both are known.\<close>

theorem session_gate:
  "(case ts_frontend (run_tap S cfg mcfg b) of
      None \<Rightarrow> ts_lines (run_tap S cfg mcfg b) = [] \<and> ts_tap (run_tap S cfg mcfg b) = new_tap \<and>
        (\<exists>err. ts_result (run_tap S cfg mcfg b) = Some (Inl err))
    | Some conn \<Rightarrow>
        (\<exists>ident. uw_registration (sw_upstream S) = Inr [ident, fc_payload conn]) \<and>
        (\<exists>init engine. upstream_handshake (sw_handshake S) cfg (sw_upstream S) = (init, Inr engine) \<and>
           (case (Option.bind (mc_vllm_tag mcfg) minor_line, minor_line (ue_vllm_version engine)) of
              (Some want, Some got) \<Rightarrow> want = got | _ \<Rightarrow> True)))"
proof (cases "ts_frontend (run_tap S cfg mcfg b)")
  case None
  then show ?thesis using session_silent by simp
next
  case (Some conn)
  then obtain init engine header where s: "upstream_handshake (sw_handshake S) cfg (sw_upstream S) = (init, Inr engine)"
    "capture_header (sw_sha256 S) mcfg (ue_vllm_version engine) (ue_ready_response_payload engine) = Inr header"
    "fc_payload conn = ue_ready_response_payload engine"
    by (auto simp: session_contacts downstream_connection_def)
  have g: "case (Option.bind (mc_vllm_tag mcfg) minor_line, minor_line (ue_vllm_version engine)) of
      (Some want, Some got) \<Rightarrow> want = got | _ \<Rightarrow> True"
  proof (cases "mc_vllm_tag mcfg")
    case (Some tag)
    note guard = guard_line [OF s(2) Some]
    show ?thesis
    proof (cases "minor_line tag")
      case (Some want)
      show ?thesis
        by (cases "minor_line (ue_vllm_version engine)")
          (simp_all only: \<open>mc_vllm_tag mcfg = Some tag\<close> Some bind.simps prod.case option.case guard [OF Some])
    qed (simp only: Some bind.simps prod.case option.case)
  qed (simp only: bind.simps prod.case option.case)
  have "\<exists>ident. uw_registration (sw_upstream S) = Inr [ident, fc_payload conn]"
    using handshake_payload [OF s(1)] by (simp add: s(3))
  then show ?thesis unfolding Some option.case by (intro conjI exI [of _ init] exI [of _ engine] s(1) g)
qed

end
