(* ===== verification/Control_Http.thy ===== *)
theory Control_Http
  imports Engine_Handlers Trace_File_Props
begin

text \<open>
  The HTTP side of the control plane (\<^verbatim>\<open>src/src/control.rs\<close>): the JSON of its bodies, the handlers, the
  routing table and the reloadable log filter (\<^verbatim>\<open>LogFilter\<close> of \<^verbatim>\<open>src/src/lib.rs\<close>). The web framework
  and the filter library are arguments: a body arrives parsed or rejected with a status, and
  filters are values with a parser and a printer.
\<close>

section \<open>Bodies\<close>

fun failure_type_str :: "failure_type \<Rightarrow> string" where
  "failure_type_str FailError = ''error''"
| "failure_type_str FailLength = ''length''"
| "failure_type_str FailRepetition = ''repetition''"

definition json_as_failure_type :: "json \<Rightarrow> failure_type option" where
  "json_as_failure_type j =
     (case json_as_str j of
        None \<Rightarrow> None
      | Some s \<Rightarrow>
          if s = ''error'' then Some FailError
          else if s = ''length'' then Some FailLength
          else if s = ''repetition'' then Some FailRepetition
          else None)"

definition config_to_json :: "config \<Rightarrow> json" where
  "config_to_json c = JObject
     [(''time_to_first_token'', json_nat (c_time_to_first_token c)),
      (''time_to_first_token_std_dev'', json_nat (c_time_to_first_token_std_dev c)),
      (''inter_token_latency'', json_nat (c_inter_token_latency c)),
      (''inter_token_latency_std_dev'', json_nat (c_inter_token_latency_std_dev c)),
      (''prefill_overhead'', json_nat (c_prefill_overhead c)),
      (''prefill_time_per_token'', json_nat (c_prefill_time_per_token c)),
      (''prefill_time_std_dev'', json_nat (c_prefill_time_std_dev c)),
      (''time_factor_under_load'', JFloat (c_time_factor_under_load c)),
      (''max_num_seqs'', json_nat (c_max_num_seqs c)),
      (''max_num_batched_tokens'', json_nat (c_max_num_batched_tokens c)),
      (''max_model_len'', json_nat (c_max_model_len c)),
      (''failure_injection_rate'', JFloat (c_failure_injection_rate c)),
      (''failure_types'', json_list (JString \<circ> failure_type_str) (c_failure_types c)),
      (''log_requests'', JBool (c_log_requests c))]"

fun json_as_bool_value :: "json \<Rightarrow> bool option" where
  "json_as_bool_value (JBool b) = Some b"
| "json_as_bool_value _ = None"

definition patch_of_json :: "json \<Rightarrow> config_patch result" where
  "patch_of_json j =
     bind_result (option_field ''time_to_first_token'' json_as_u64 j) (\<lambda>a.
     bind_result (option_field ''time_to_first_token_std_dev'' json_as_u64 j) (\<lambda>b.
     bind_result (option_field ''inter_token_latency'' json_as_u64 j) (\<lambda>c.
     bind_result (option_field ''inter_token_latency_std_dev'' json_as_u64 j) (\<lambda>d.
     bind_result (option_field ''prefill_overhead'' json_as_u64 j) (\<lambda>e.
     bind_result (option_field ''prefill_time_per_token'' json_as_u64 j) (\<lambda>f.
     bind_result (option_field ''prefill_time_std_dev'' json_as_u64 j) (\<lambda>g.
     bind_result (option_field ''time_factor_under_load'' json_as_f64 j) (\<lambda>h.
     bind_result (option_field ''max_num_seqs'' json_as_u64 j) (\<lambda>i.
     bind_result (option_field ''max_num_batched_tokens'' json_as_u64 j) (\<lambda>k.
     bind_result (option_field ''max_model_len'' json_as_u64 j) (\<lambda>l.
     bind_result (option_field ''failure_injection_rate'' json_as_f64 j) (\<lambda>m.
     bind_result (option_field ''failure_types'' (json_as_list json_as_failure_type) j) (\<lambda>n.
     bind_result (option_field ''log_requests'' json_as_bool_value j) (\<lambda>q.
       Inr \<lparr>p_time_to_first_token = a, p_time_to_first_token_std_dev = b, p_inter_token_latency = c,
            p_inter_token_latency_std_dev = d, p_prefill_overhead = e, p_prefill_time_per_token = f,
            p_prefill_time_std_dev = g, p_time_factor_under_load = h, p_max_num_seqs = i,
            p_max_num_batched_tokens = k, p_max_model_len = l, p_failure_injection_rate = m,
            p_failure_types = n, p_log_requests = q\<rparr>))))))))))))))"

definition stats_to_json :: "stats \<Rightarrow> json" where
  "stats_to_json s = JObject
     [(''requests_received'', json_nat (requests_received s)),
      (''requests_completed'', json_nat (requests_completed s)),
      (''requests_failed'', json_nat (requests_failed s)),
      (''requests_aborted'', json_nat (requests_aborted s)),
      (''running'', json_nat (st_running s)), (''waiting'', json_nat (st_waiting s))]"

definition level_to_json :: "string \<Rightarrow> json" where
  "level_to_json level = JObject [(''filter'', JString level)]"

definition level_of_json :: "json \<Rightarrow> string result" where
  "level_of_json j = req_field ''filter'' json_as_str j"

section \<open>Responses\<close>

record http_response =
  hr_status :: nat
  hr_body :: "json option"

definition valid_status :: "nat \<Rightarrow> bool" where
  "valid_status n \<longleftrightarrow> 100 \<le> n \<and> n \<le> 999"

definition error_response :: "control_error \<Rightarrow> http_response" where
  "error_response err =
     \<lparr>hr_status = (if valid_status (ce_status err) then ce_status err else 500),
      hr_body = Some (JObject [(''error'', JString (ce_error err))])\<rparr>"

definition json_response :: "('a \<Rightarrow> json) \<Rightarrow> control_error + 'a \<Rightarrow> http_response" where
  "json_response enc r =
     (case r of Inl err \<Rightarrow> error_response err | Inr x \<Rightarrow> \<lparr>hr_status = 200, hr_body = Some (enc x)\<rparr>)"

text \<open>A body: the framework rejects it or parses it; what does not have the handler's type is refused
  with 422.\<close>

datatype http_body = Rejected nat string | Parsed json

definition extract_body :: "(json \<Rightarrow> 'a result) \<Rightarrow> http_body \<Rightarrow> http_response + 'a" where
  "extract_body dec body =
     (case body of
        Rejected status msg \<Rightarrow> Inl \<lparr>hr_status = status, hr_body = None\<rparr>
      | Parsed j \<Rightarrow>
          (case dec j of
             Inl err \<Rightarrow> Inl \<lparr>hr_status = 422, hr_body = None\<rparr>
           | Inr x \<Rightarrow> Inr x))"

section \<open>The log filter\<close>

text \<open>A filter handle fails once its subscriber is gone.\<close>

record 'f log_filter =
  lf_gone :: "string option"
  lf_filter :: 'f

record 'f filter_lib =
  fl_parse :: "string \<Rightarrow> 'f result"
  fl_show :: "'f \<Rightarrow> string"

definition lf_current :: "'f filter_lib \<Rightarrow> 'f log_filter \<Rightarrow> string result" where
  "lf_current F h = (case lf_gone h of Some err \<Rightarrow> Inl err | None \<Rightarrow> Inr (fl_show F (lf_filter h)))"

definition lf_set :: "'f \<Rightarrow> 'f log_filter \<Rightarrow> unit result \<times> 'f log_filter" where
  "lf_set f h = (case lf_gone h of Some err \<Rightarrow> (Inl err, h) | None \<Rightarrow> (Inr (), h\<lparr>lf_filter := f\<rparr>))"

definition internal :: "'a result \<Rightarrow> control_error + 'a" where
  "internal r = (case r of Inl err \<Rightarrow> Inl (ce_internal err) | Inr x \<Rightarrow> Inr x)"

definition no_log_filter :: control_error where
  "no_log_filter = \<lparr>ce_status = 501, ce_error = ''this process has no reloadable log filter''\<rparr>"

definition get_log :: "'f filter_lib \<Rightarrow> 'f log_filter option \<Rightarrow> control_error + string" where
  "get_log F lg = (case lg of None \<Rightarrow> Inl no_log_filter | Some h \<Rightarrow> internal (lf_current F h))"

definition put_log ::
  "'f filter_lib \<Rightarrow> string \<Rightarrow> 'f log_filter option \<Rightarrow> (control_error + string) \<times> 'f log_filter option" where
  "put_log F level lg =
     (case lg of
        None \<Rightarrow> (Inl no_log_filter, lg)
      | Some h \<Rightarrow>
          (case fl_parse F level of
             Inl err \<Rightarrow> (Inl (ce_bad_request (''invalid log filter: '' @ err)), lg)
           | Inr f \<Rightarrow>
               (case lf_set f h of
                  (Inl err, h) \<Rightarrow> (Inl (ce_internal err), Some h)
                | (Inr _, h) \<Rightarrow> (internal (lf_current F h), Some h))))"

section \<open>The server\<close>

record ('e, 'f) app_state =
  as_engines :: "'e list"
  as_log :: "'f log_filter option"

datatype http_method = GET | PATCH | POST | PUT

datatype route = GetConfigR | PatchConfigR | GetStatsR | ResetStatsR | GetLogR | PutLogR

definition router :: "http_method \<Rightarrow> string \<Rightarrow> route option" where
  "router m path =
     (if path = ''/config'' then (case m of GET \<Rightarrow> Some GetConfigR | PATCH \<Rightarrow> Some PatchConfigR | _ \<Rightarrow> None)
      else if path = ''/stats'' then (case m of GET \<Rightarrow> Some GetStatsR | _ \<Rightarrow> None)
      else if path = ''/stats/reset'' then (case m of POST \<Rightarrow> Some ResetStatsR | _ \<Rightarrow> None)
      else if path = ''/log'' then (case m of GET \<Rightarrow> Some GetLogR | PUT \<Rightarrow> Some PutLogR | _ \<Rightarrow> None)
      else None)"

text \<open>One request: a route's handler over the engines and the log filter.\<close>

definition respond ::
  "'f filter_lib \<Rightarrow> ('e \<Rightarrow> control_request \<Rightarrow> (control_error + control_reply) \<times> 'e) \<Rightarrow> route \<Rightarrow> http_body \<Rightarrow>
   ('e, 'f) app_state \<Rightarrow> http_response \<times> ('e, 'f) app_state" where
  "respond F call r body st =
     (case r of
        GetConfigR \<Rightarrow> (let (res, es) = get_config call (as_engines st)
                       in (json_response config_to_json res, st\<lparr>as_engines := es\<rparr>))
      | PatchConfigR \<Rightarrow>
          (case extract_body patch_of_json body of
             Inl resp \<Rightarrow> (resp, st)
           | Inr p \<Rightarrow> (let (res, es) = patch_config call (as_engines st) p
                       in (json_response config_to_json res, st\<lparr>as_engines := es\<rparr>)))
      | GetStatsR \<Rightarrow> (let (res, es) = get_stats call (as_engines st)
                      in (json_response stats_to_json res, st\<lparr>as_engines := es\<rparr>))
      | ResetStatsR \<Rightarrow>
          (let (res, es) = reset_stats call (as_engines st)
           in (case res of Inl err \<Rightarrow> error_response err | Inr _ \<Rightarrow> \<lparr>hr_status = 204, hr_body = None\<rparr>,
               st\<lparr>as_engines := es\<rparr>))
      | GetLogR \<Rightarrow> (json_response level_to_json (get_log F (as_log st)), st)
      | PutLogR \<Rightarrow>
          (case extract_body level_of_json body of
             Inl resp \<Rightarrow> (resp, st)
           | Inr level \<Rightarrow> (let (res, lg) = put_log F level (as_log st)
                           in (json_response level_to_json res, st\<lparr>as_log := lg\<rparr>))))"

text \<open>An engine of this process handles the call between two of its steps, at the clock it reads then.\<close>

definition engine_call ::
  "'r world \<Rightarrow> clock \<Rightarrow> 'r sim_engine \<Rightarrow> control_request \<Rightarrow> (control_error + control_reply) \<times> 'r sim_engine" where
  "engine_call W clk e c = (let (reply, _, e) = handle_control W clk c e in (reply, e))"

section \<open>What a patch does to a process\<close>





lemma config_of_opt: "e_opt e = e_opt e' \<Longrightarrow> config_of e = config_of e'"
  by (simp add: config_of_def Let_def)









section \<open>Counters and the log filter\<close>

text \<open>The counters of a process are the sums over its engines.\<close>

lemma stats_over_http:
  "respond F (engine_call W clk) GetStatsR body st =
     (\<lparr>hr_status = 200, hr_body = Some (stats_to_json (fold add_reply (map (ReplyStats \<circ> stats_of) (as_engines st)) default_stats))\<rparr>, st)"
  using broadcast_all [of "as_engines st" "engine_call W clk" GetStats "ReplyStats \<circ> stats_of"]
  by (simp add: respond_def get_stats_def engine_call_def json_response_def)

text \<open>Setting the filter is all or nothing, and the answer is the filter in force.\<close>

lemma put_log_outcome:
  assumes "put_log F level (Some h) = (res, lg)"
  shows "if \<exists>f. fl_parse F level = Inr f \<and> lf_gone h = None
    then \<exists>f. fl_parse F level = Inr f \<and> res = Inr (fl_show F f) \<and> lg = Some (h\<lparr>lf_filter := f\<rparr>) \<and> get_log F lg = res
    else lg = Some h \<and> (\<exists>err. res = Inl err)"
  using assms by (auto simp: put_log_def lf_set_def lf_current_def internal_def get_log_def split: sum.splits option.splits)

end
