(* ===== verification/Hub.thy ===== *)
theory Hub
  imports Remote_Props Transport_Props
begin

text \<open>
  Fetching: the HuggingFace Hub settings and file resolution of \<^verbatim>\<open>crates/sim-s3/src/hub.rs\<close>, and the
  S3 and Hub downloads behind \<^verbatim>\<open>TraceUri::materialize\<close> of \<^verbatim>\<open>crates/sim-s3/src/lib.rs\<close>. The hub crate's
  cache lookup and download, the outcome of each S3 call and the environment are parameters; the
  local files are a map from paths to bytes.
\<close>

section \<open>Settings\<close>

text \<open>A variable is read as bytes; \<^verbatim>\<open>env::var\<close> refuses one that is not UTF-8.\<close>

record process_env =
  env_os :: "string \<Rightarrow> string option"
  env_utf8 :: "string \<Rightarrow> bool"

definition env_var :: "process_env \<Rightarrow> string \<Rightarrow> string option" where
  "env_var E name = (case env_os E name of None \<Rightarrow> None | Some v \<Rightarrow> if env_utf8 E v then Some v else None)"

definition ascii_upper :: "char \<Rightarrow> char" where
  "ascii_upper c = (let n = of_char c :: nat in if 97 \<le> n \<and> n \<le> 122 then char_of (n - 32) else c)"

definition to_ascii_uppercase :: "string \<Rightarrow> string" where
  "to_ascii_uppercase s = map ascii_upper s"

text \<open>The repository types the code asks for.\<close>

datatype repo_type = RepoModel | RepoDataset

type_synonym hub_repo = "string \<times> repo_type"

text \<open>The hub crate: its default cache, the lookup in a cache, the building of a client with an extra
  token, and the download of a client. The blocking and the asynchronous client are two instances.\<close>

record hub_crate =
  hb_default_cache :: string
  hb_lookup :: "string \<Rightarrow> hub_repo \<Rightarrow> string \<Rightarrow> string option"
  hb_build_sync :: "string \<Rightarrow> string option \<Rightarrow> unit result"
  hb_build_tokio :: "string \<Rightarrow> string option \<Rightarrow> unit result"
  hb_download :: "string \<Rightarrow> hub_repo \<Rightarrow> string \<Rightarrow> string result"

record hub_settings =
  hs_cache :: string
  hs_offline :: bool

definition hub_from_env :: "hub_crate \<Rightarrow> process_env \<Rightarrow> hub_settings" where
  "hub_from_env B E =
     \<lparr>hs_cache = (case env_os E ''HF_HUB_CACHE'' of Some path \<Rightarrow> path | None \<Rightarrow> hb_default_cache B),
      hs_offline = (case env_var E ''HF_HUB_OFFLINE'' of
                      None \<Rightarrow> False
                    | Some v \<Rightarrow> to_ascii_uppercase v \<in> {''1'', ''ON'', ''YES'', ''TRUE''})\<rparr>"

definition hub_new :: "string \<Rightarrow> bool \<Rightarrow> hub_settings" where
  "hub_new cache_dir offline = \<lparr>hs_cache = cache_dir, hs_offline = offline\<rparr>"

definition hub_cache_dir :: "hub_settings \<Rightarrow> string" where
  "hub_cache_dir s = hs_cache s"

definition hub_cached :: "hub_crate \<Rightarrow> hub_settings \<Rightarrow> hub_repo \<Rightarrow> string \<Rightarrow> string option result" where
  "hub_cached B s repo filename =
     (case hb_lookup B (hs_cache s) repo filename of
        Some path \<Rightarrow> Inr (Some path)
      | None \<Rightarrow>
          if hs_offline s then Inl (filename @ '' is not in HF cache and HF_HUB_OFFLINE is enabled'') else Inr None)"

definition env_token :: "process_env \<Rightarrow> string option" where
  "env_token E =
     (case env_var E ''HF_TOKEN'' of None \<Rightarrow> None | Some token \<Rightarrow> if token \<noteq> [] then Some token else None)"

text \<open>What reaches the network: the repository, the file and the token presented.\<close>

type_synonym hub_request = "hub_repo \<times> string \<times> string option"

definition hub_get ::
  "hub_crate \<Rightarrow> process_env \<Rightarrow> hub_settings \<Rightarrow> repo_type \<Rightarrow> string \<Rightarrow> string \<Rightarrow> string result \<times> hub_request list" where
  "hub_get B E s rtype repo_id filename =
     (case hub_cached B s (repo_id, rtype) filename of
        Inl err \<Rightarrow> (Inl err, [])
      | Inr (Some path) \<Rightarrow> (Inr path, [])
      | Inr None \<Rightarrow>
          (case hb_build_tokio B (hs_cache s) (env_token E) of
             Inl err \<Rightarrow> (Inl ''initializing HuggingFace API'', [])
           | Inr _ \<Rightarrow>
               (case hb_download B (hs_cache s) (repo_id, rtype) filename of
                  Inl err \<Rightarrow> (Inl ''downloading'', [((repo_id, rtype), filename, env_token E)])
                | Inr path \<Rightarrow> (Inr path, [((repo_id, rtype), filename, env_token E)]))))"

definition hub_get_blocking ::
  "hub_crate \<Rightarrow> process_env \<Rightarrow> hub_settings \<Rightarrow> repo_type \<Rightarrow> string \<Rightarrow> string \<Rightarrow> string result \<times> hub_request list" where
  "hub_get_blocking B E s rtype repo_id filename =
     (case hub_cached B s (repo_id, rtype) filename of
        Inl err \<Rightarrow> (Inl err, [])
      | Inr (Some path) \<Rightarrow> (Inr path, [])
      | Inr None \<Rightarrow>
          (case hb_build_sync B (hs_cache s) (env_token E) of
             Inl err \<Rightarrow> (Inl ''initializing HuggingFace API'', [])
           | Inr _ \<Rightarrow>
               (case hb_download B (hs_cache s) (repo_id, rtype) filename of
                  Inl err \<Rightarrow> (Inl ''downloading'', [((repo_id, rtype), filename, env_token E)])
                | Inr path \<Rightarrow> (Inr path, [((repo_id, rtype), filename, env_token E)]))))"

section \<open>Materializing a trace\<close>

text \<open>How the calls of a fetch turn out: the client's request, the collection of its body, the write of
  the scratch file.\<close>

record fetch_world =
  fw_get :: "unit result"
  fw_body :: "unit result"
  fw_write :: "unit result"

type_synonym files = "string \<Rightarrow> u8 list option"

definition s3_fetch ::
  "(string \<Rightarrow> u64) \<Rightarrow> fetch_world \<Rightarrow> object_store \<Rightarrow> string \<Rightarrow> string \<Rightarrow> string \<Rightarrow> files \<Rightarrow> string result \<times> files" where
  "s3_fetch hash_of F store bucket key scratch_dir fs =
     (let dest = scratch_path hash_of (uri_display (S3 bucket key)) key scratch_dir
      in case (fw_get F, store (bucket, key)) of
           (Inl err, _) \<Rightarrow> (Inl ''S3 GET'', fs)
         | (Inr _, None) \<Rightarrow> (Inl ''S3 GET'', fs)
         | (Inr _, Some bytes) \<Rightarrow>
             (case fw_body F of
                Inl err \<Rightarrow> (Inl ''reading S3 object body'', fs)
              | Inr _ \<Rightarrow>
                  (case fw_write F of
                     Inl err \<Rightarrow> (Inl ''writing scratch'', fs)
                   | Inr _ \<Rightarrow> (Inr dest, fs(dest \<mapsto> bytes)))))"

definition fetch_hf :: "hub_crate \<Rightarrow> process_env \<Rightarrow> string \<Rightarrow> string \<Rightarrow> string result \<times> hub_request list" where
  "fetch_hf B E repo filename = hub_get B E (hub_from_env B E) RepoDataset repo filename"

fun materialize ::
  "(string \<Rightarrow> u64) \<Rightarrow> hub_crate \<Rightarrow> process_env \<Rightarrow> fetch_world \<Rightarrow> object_store \<Rightarrow> string \<Rightarrow> trace_uri \<Rightarrow> files \<Rightarrow>
   string result \<times> files" where
  "materialize hash_of B E F store scratch_dir (Local path) fs = (Inr path, fs)"
| "materialize hash_of B E F store scratch_dir (S3 bucket key) fs = s3_fetch hash_of F store bucket key scratch_dir fs"
| "materialize hash_of B E F store scratch_dir (HuggingFace repo filename) fs = (fst (fetch_hf B E repo filename), fs)"

section \<open>Properties\<close>

text \<open>Offline means offline: with \<^verbatim>\<open>HF_HUB_OFFLINE\<close> set to one of its four values in any case, neither
  client sends a request, a file is found exactly when the cache holds it, and a file the cache does
  not hold is an error. Online the cache still comes first, and a miss costs one request, with the
  token of \<^verbatim>\<open>HF_TOKEN\<close> unless that is empty.\<close>

theorem offline_never_requests:
  assumes "env_var E ''HF_HUB_OFFLINE'' = Some v"
  shows "(to_ascii_uppercase v \<in> {''1'', ''ON'', ''YES'', ''TRUE''} \<longrightarrow>
      snd (hub_get B E (hub_from_env B E) rtype repo_id filename) = [] \<and>
      snd (hub_get_blocking B E (hub_from_env B E) rtype repo_id filename) = [] \<and>
      (\<forall>path. fst (hub_get B E (hub_from_env B E) rtype repo_id filename) = Inr path \<longleftrightarrow>
         hb_lookup B (hs_cache (hub_from_env B E)) (repo_id, rtype) filename = Some path)) \<and>
    (hub_get B E s rtype repo_id filename = (res, reqs) \<longrightarrow> reqs \<noteq> [] \<longrightarrow>
      \<not> hs_offline s \<and> hb_lookup B (hs_cache s) (repo_id, rtype) filename = None \<and>
      reqs = [((repo_id, rtype), filename, env_token E)] \<and> env_token E \<noteq> Some [])"
proof (intro conjI impI allI)
  assume "to_ascii_uppercase v \<in> {''1'', ''ON'', ''YES'', ''TRUE''}"
  then have off: "hs_offline (hub_from_env B E)" using assms by (simp add: hub_from_env_def)
  then show "snd (hub_get B E (hub_from_env B E) rtype repo_id filename) = []"
    "snd (hub_get_blocking B E (hub_from_env B E) rtype repo_id filename) = []"
    by (simp_all add: hub_get_def hub_get_blocking_def hub_cached_def split: option.split)
  show "fst (hub_get B E (hub_from_env B E) rtype repo_id filename) = Inr path \<longleftrightarrow>
      hb_lookup B (hs_cache (hub_from_env B E)) (repo_id, rtype) filename = Some path" for path
    using off by (simp add: hub_get_def hub_cached_def split: option.split)
next
  assume g: "hub_get B E s rtype repo_id filename = (res, reqs)" "reqs \<noteq> []"
  then show "\<not> hs_offline s" "hb_lookup B (hs_cache s) (repo_id, rtype) filename = None"
    "reqs = [((repo_id, rtype), filename, env_token E)]"
    by (auto simp: hub_get_def hub_cached_def split: option.splits sum.splits if_splits)
  show "env_token E \<noteq> Some []" by (simp add: env_token_def split: option.split)
qed

definition offline_env :: process_env where
  "offline_env = \<lparr>env_os = [''HF_HUB_OFFLINE'' \<mapsto> ''on'', ''HF_TOKEN'' \<mapsto> []], env_utf8 = \<lambda>_. True\<rparr>"

definition empty_hub :: hub_crate where
  "empty_hub = \<lparr>hb_default_cache = ''/hub'', hb_lookup = \<lambda>_ _ _. None, hb_build_sync = \<lambda>_ _. Inr (),
     hb_build_tokio = \<lambda>_ _. Inr (), hb_download = \<lambda>_ _ f. Inr f\<rparr>"

theorem offline_never_requests_witness:
  "snd (hub_get empty_hub offline_env (hub_from_env empty_hub offline_env) RepoDataset ''org/repo'' ''t.jsonl'') = [] \<and>
   fst (hub_get empty_hub offline_env (hub_from_env empty_hub offline_env) RepoDataset ''org/repo'' ''t.jsonl'') \<noteq> Inr ''t.jsonl''"
proof -
  have on: "env_var offline_env ''HF_HUB_OFFLINE'' = Some ''on''" by (simp add: env_var_def offline_env_def)
  have "to_ascii_uppercase ''on'' = ''ON''" by (simp add: to_ascii_uppercase_def ascii_upper_def Let_def char_of_def bit_Suc_0_iff)
  moreover have "hb_lookup empty_hub d r f = None" for d r f by (simp add: empty_hub_def)
  ultimately show ?thesis
    using offline_never_requests [OF on, of empty_hub RepoDataset "''org/repo''" "''t.jsonl''"] by simp
qed

lemma hex16_inj: "hex16 a = hex16 b \<longleftrightarrow> a = b"
  using be_bytes_inj by (simp add: hex16_def hex_encode_inj be_bytes_def)

lemma hex16_length: "length (hex16 h) = 16"
  by (simp add: hex16_def hex_encode_def length_concat comp_def le_bytes_def sum_list_triv)

text \<open>The scratch path of a location determines its hash.\<close>

lemma scratch_path_hash:
  "scratch_path hash_of u key d = scratch_path hash_of u' key' d \<Longrightarrow> hash_of u = hash_of u'"
  by (simp add: scratch_path_def append_eq_append_conv hex16_length hex16_inj)

text \<open>What a recording uploads a replay fetches: after a sink directed at an S3 object has been
  finalized and its PUT accepted, materializing the same location yields the path the recording
  itself would write to, holding the recorded bytes, and leaves every file outside that path as it
  was; in particular the copy of a location with another hash is not touched.\<close>

theorem uploaded_materializes:
  assumes "sk_uri k = S3 bucket key" "finish_sink k store = (Inr (), store')"
    "fw_get F = Inr ()" "fw_body F = Inr ()" "fw_write F = Inr ()"
  shows "materialize hash_of B E F store' scratch_dir (sk_uri k) fs =
      (Inr (write_path hash_of scratch_dir (sk_uri k)), fs(write_path hash_of scratch_dir (sk_uri k) \<mapsto> sk_bytes k)) \<and>
    (hash_of (uri_display uri') \<noteq> hash_of (uri_display (sk_uri k)) \<and> uri_is_remote uri' \<longrightarrow>
       snd (materialize hash_of B E F store' scratch_dir (sk_uri k) fs) (write_path hash_of scratch_dir uri') =
       fs (write_path hash_of scratch_dir uri'))"
proof -
  have "store' = store((bucket, key) \<mapsto> sk_bytes k)"
    using assms(1,2) by (auto simp: finish_sink_def split: sum.splits)
  then have m: "materialize hash_of B E F store' scratch_dir (sk_uri k) fs =
      (Inr (write_path hash_of scratch_dir (sk_uri k)), fs(write_path hash_of scratch_dir (sk_uri k) \<mapsto> sk_bytes k))"
    using assms by (simp add: s3_fetch_def Let_def)
  have "write_path hash_of scratch_dir uri' \<noteq> write_path hash_of scratch_dir (sk_uri k)"
    if "hash_of (uri_display uri') \<noteq> hash_of (uri_display (sk_uri k))" "uri_is_remote uri'"
    using that assms(1) by (cases uri') (auto dest: scratch_path_hash)
  then show ?thesis by (simp add: m)
qed

theorem uploaded_materializes_witness:
  "\<exists>fs. materialize (\<lambda>_. 0) empty_hub offline_env \<lparr>fw_get = Inr (), fw_body = Inr (), fw_write = Inr ()\<rparr>
     (snd (finish_sink (demo_sink (S3 ''b'' ''k'')) (\<lambda>_. None))) ''/scratch'' (S3 ''b'' ''k'') (\<lambda>_. None) =
     (Inr ''/scratch/sim-s3-0000000000000000-k'', fs) \<and> fs ''/scratch/sim-s3-0000000000000000-k'' = Some [1, 2]"
proof -
  let ?k = "demo_sink (S3 ''b'' ''k'')"
  have k: "sk_uri ?k = S3 ''b'' ''k''" "finish_sink ?k (\<lambda>_. None) = (Inr (), snd (finish_sink ?k (\<lambda>_. None)))"
    by (simp_all add: demo_sink_def finish_sink_def)
  have "scratch_path (\<lambda>_. 0) u ''k'' ''/scratch'' = ''/scratch/sim-s3-0000000000000000-k''" for u
    by (simp add: scratch_path_def) code_simp
  moreover have "sk_bytes ?k = [1, 2]" by (simp add: demo_sink_def)
  ultimately show ?thesis
    using uploaded_materializes [OF k, of "\<lparr>fw_get = Inr (), fw_body = Inr (), fw_write = Inr ()\<rparr>" "\<lambda>_. 0"
        empty_hub offline_env "''/scratch''" "\<lambda>_. None" "Local []"] k(1)
    by simp
qed

end
