(* ===== verification/Trace_Store.thy ===== *)
theory Trace_Store
  imports Tap_Session Hub
begin

text \<open>
  Trace files as bytes: the gzip-aware reader and writer of \<^verbatim>\<open>crates/sim-trace/src/trace.rs\<close>, the lines a
  buffered reader finds in a stream, and the \<^verbatim>\<open>record\<close> command (\<^verbatim>\<open>src/src/record.rs\<close>) from its arguments
  to the uploaded object. The compressor is an argument.
\<close>

section \<open>Lines of a stream\<close>

text \<open>How a stream ends: regularly, by the end of the input inside a gzip member, or by another error.\<close>

datatype stream_end = AtEof | TruncatedEof | ReadFailed string

definition carriage_return :: char where
  "carriage_return = char_of (13 :: nat)"

fun split_lines :: "string \<Rightarrow> string \<Rightarrow> string list \<times> string" where
  "split_lines acc [] = ([], acc)"
| "split_lines acc (c # s) =
     (if c = newline then (let (ls, rest) = split_lines [] s in (acc # ls, rest)) else split_lines (acc @ [c]) s)"

definition line_item_of :: "(string \<Rightarrow> bool) \<Rightarrow> string \<Rightarrow> line_item" where
  "line_item_of utf8 l = (if utf8 l then Line l else LineErr ''stream did not contain valid UTF-8'')"

definition drop_cr :: "string \<Rightarrow> string" where
  "drop_cr l = (if l \<noteq> [] \<and> last l = carriage_return then butlast l else l)"

text \<open>\<^verbatim>\<open>BufRead::lines\<close>: a last line without a newline counts, unless the stream ends in an error.\<close>

definition read_lines :: "(string \<Rightarrow> bool) \<Rightarrow> string \<times> stream_end \<Rightarrow> line_item list" where
  "read_lines utf8 = (\<lambda>(txt, ending).
     let (ls, rest) = split_lines [] txt
     in map (\<lambda>l. case line_item_of utf8 l of Line l \<Rightarrow> Line (drop_cr l) | item \<Rightarrow> item) ls @
        (case ending of
           AtEof \<Rightarrow> if rest = [] then [] else [line_item_of utf8 rest]
         | TruncatedEof \<Rightarrow> [LineEof]
         | ReadFailed err \<Rightarrow> [LineErr err]))"

section \<open>Files\<close>

text \<open>The compressor: a finished stream, a stream flushed to a sync point, and what the decoder makes of
  bytes.\<close>

record gzip_lib =
  gz_finished :: "string \<Rightarrow> u8 list"
  gz_synced :: "string \<Rightarrow> u8 list"
  gz_decode :: "u8 list \<Rightarrow> string \<times> stream_end"

definition gzip_documented :: "gzip_lib \<Rightarrow> bool" where
  "gzip_documented G \<longleftrightarrow> (\<forall>t. gz_decode G (gz_finished G t) = (t, AtEof) \<and> gz_decode G (gz_synced G t) = (t, TruncatedEof))"

definition text_of_bytes :: "u8 list \<Rightarrow> string" where
  "text_of_bytes bs = map (\<lambda>b. char_of (unat b)) bs"

definition open_trace_reader :: "gzip_lib \<Rightarrow> (string \<Rightarrow> bool) \<Rightarrow> files \<Rightarrow> string \<Rightarrow> line_item list result" where
  "open_trace_reader G utf8 fs path =
     (case fs path of
        None \<Rightarrow> Inl (''opening trace file: '' @ path)
      | Some bytes \<Rightarrow>
          Inr (read_lines utf8 (if is_gz path then gz_decode G bytes else (text_of_bytes bytes, AtEof))))"

definition read_trace_file ::
  "gzip_lib \<Rightarrow> (string \<Rightarrow> bool) \<Rightarrow> json_codec \<Rightarrow> files \<Rightarrow> string \<Rightarrow> (trace_meta \<times> trace_record list) result" where
  "read_trace_file G utf8 J fs path =
     bind_result (open_trace_reader G utf8 fs path) (\<lambda>items. err_context (''parsing trace file: '' @ path) (read_trace J items))"

definition read_trace_meta ::
  "gzip_lib \<Rightarrow> (string \<Rightarrow> bool) \<Rightarrow> json_codec \<Rightarrow> files \<Rightarrow> string \<Rightarrow> trace_meta result" where
  "read_trace_meta G utf8 J fs path =
     bind_result (open_trace_reader G utf8 fs path) (\<lambda>items. err_context (''reading trace meta: '' @ path) (read_meta J items))"

record trace_writer =
  tw_path :: string
  tw_gzip :: bool
  tw_text :: string

text \<open>Creating a file empties it.\<close>

definition create_writer :: "unit result \<Rightarrow> string \<Rightarrow> files \<Rightarrow> (trace_writer \<times> files) result" where
  "create_writer opened path fs =
     (case opened of
        Inl err \<Rightarrow> Inl (''creating trace file: '' @ path)
      | Inr _ \<Rightarrow> Inr (\<lparr>tw_path = path, tw_gzip = is_gz path, tw_text = []\<rparr>, fs(path \<mapsto> [])))"

definition write_line :: "string \<Rightarrow> trace_writer \<Rightarrow> trace_writer" where
  "write_line l w = w\<lparr>tw_text := tw_text w @ l @ [newline]\<rparr>"

definition write_lines :: "string list \<Rightarrow> trace_writer \<Rightarrow> trace_writer" where
  "write_lines ls w = fold write_line ls w"

definition flush_writer :: "gzip_lib \<Rightarrow> trace_writer \<Rightarrow> files \<Rightarrow> files" where
  "flush_writer G w fs = fs(tw_path w \<mapsto> (if tw_gzip w then gz_synced G (tw_text w) else as_bytes (tw_text w)))"

definition finished_bytes :: "gzip_lib \<Rightarrow> trace_writer \<Rightarrow> u8 list" where
  "finished_bytes G w = (if tw_gzip w then gz_finished G (tw_text w) else as_bytes (tw_text w))"

text \<open>Dropping a writer finalizes it as well and swallows an error.\<close>

definition drop_writer :: "gzip_lib \<Rightarrow> trace_writer \<Rightarrow> files \<Rightarrow> files" where
  "drop_writer G w fs = fs(tw_path w \<mapsto> finished_bytes G w)"

definition finish_writer :: "gzip_lib \<Rightarrow> unit result \<Rightarrow> trace_writer \<Rightarrow> files \<Rightarrow> unit result \<times> files" where
  "finish_writer G flushed w fs =
     (case flushed of
        Inl err \<Rightarrow> (Inl (if tw_gzip w then ''finishing gzip trace stream'' else ''flushing trace file''), fs)
      | Inr _ \<Rightarrow> (Inr (), fs(tw_path w \<mapsto> finished_bytes G w)))"

section \<open>The record command\<close>

record record_args =
  ra_frontend_handshake :: string
  ra_engine_handshake :: string
  ra_input_address :: string
  ra_output_address :: string
  ra_trace_out :: trace_uri
  ra_model :: string
  ra_gpu :: "string option"
  ra_tp :: "nat option"
  ra_config_hash :: "string option"
  ra_vllm_version :: "string option"
  ra_max_num_seqs :: "nat option"
  ra_engine_config :: string
  ra_block_size :: nat
  ra_record_tokens :: token_recording
  ra_step_stats_out :: "trace_uri option"

definition record_meta :: "record_args \<Rightarrow> tap_meta_config" where
  "record_meta a =
     \<lparr>mc_model = ra_model a, mc_gpu = ra_gpu a, mc_tp = ra_tp a, mc_max_num_seqs = ra_max_num_seqs a,
      mc_block_size = ra_block_size a, mc_config_hash = ra_config_hash a, mc_vllm_tag = ra_vllm_version a,
      mc_engine_config = ra_engine_config a\<rparr>"

definition record_config :: "record_args \<Rightarrow> tap_options" where
  "record_config a =
     \<lparr>to_frontend_handshake = ra_frontend_handshake a, to_engine_handshake = ra_engine_handshake a,
      to_input_address = ra_input_address a, to_output_address = ra_output_address a,
      to_block_size = ra_block_size a, to_record_tokens = ra_record_tokens a\<rparr>"

text \<open>What surrounds the command: the session, the compressor, the hash of scratch names, the scratch
  directory, and how the calls on the two files and their uploads turn out.\<close>

record record_world =
  rw_session :: session_world
  rw_gzip :: gzip_lib
  rw_hash :: "string \<Rightarrow> u64"
  rw_scratch :: string
  rw_step_line :: "step_stats_record \<Rightarrow> string"
  rw_create :: "unit result"
  rw_create_steps :: "unit result"
  rw_finish :: "unit result"
  rw_put :: "unit result"
  rw_finish_steps :: "unit result"
  rw_put_steps :: "unit result"

text \<open>The end of the command, once the tap has returned.\<close>

definition finish_record ::
  "record_world \<Rightarrow> record_args \<Rightarrow> unit result \<Rightarrow> trace_writer \<Rightarrow> trace_writer option \<Rightarrow> files \<Rightarrow> object_store \<Rightarrow>
   unit result \<times> files \<times> object_store" where
  "finish_record R a tap_result w sw fs store =
     (let abandon = (\<lambda>fs. case sw of None \<Rightarrow> fs | Some x \<Rightarrow> drop_writer (rw_gzip R) x fs)
      in case finish_writer (rw_gzip R) (rw_finish R) w fs of
        (Inl err, fs) \<Rightarrow> (Inl err, abandon fs, store)
      | (Inr _, fs) \<Rightarrow>
          (case upload (rw_put R) (ra_trace_out a) (the (fs (tw_path w))) store of
             (Inl err, store) \<Rightarrow> (Inl err, abandon fs, store)
           | (Inr _, store) \<Rightarrow>
               (case sw of
                  None \<Rightarrow> (tap_result, fs, store)
                | Some x \<Rightarrow>
                    (case finish_writer (rw_gzip R) (rw_finish_steps R) x fs of
                       (Inl err, fs) \<Rightarrow> (Inl err, fs, store)
                     | (Inr _, fs) \<Rightarrow>
                         (case ra_step_stats_out a of
                            None \<Rightarrow> (tap_result, fs, store)
                          | Some uri \<Rightarrow>
                              (case upload (rw_put_steps R) uri (the (fs (tw_path x))) store of
                                 (Inl err, store) \<Rightarrow> (Inl err, fs, store)
                               | (Inr _, store) \<Rightarrow> (tap_result, fs, store)))))))"

text \<open>Each line of a running session is followed by a flush, but for the header, which stays in the buffer
  until the first record.\<close>

definition live_files :: "record_world \<Rightarrow> tap_session \<Rightarrow> trace_writer \<Rightarrow> trace_writer option \<Rightarrow> files \<Rightarrow> files" where
  "live_files R s w sw fs =
     (let fs = (if tp_trace (ts_tap s) = [] then fs else flush_writer (rw_gzip R) w fs)
      in case sw of
           None \<Rightarrow> fs
         | Some x \<Rightarrow> if tp_step_stats (ts_tap s) = [] then fs else flush_writer (rw_gzip R) x fs)"

text \<open>The result is \<open>None\<close> while the session runs.\<close>

definition run_record ::
  "record_world \<Rightarrow> record_args \<Rightarrow> files \<Rightarrow> object_store \<Rightarrow> unit result option \<times> files \<times> object_store" where
  "run_record R a fs store =
     (let trace_local = write_path (rw_hash R) (rw_scratch R) (ra_trace_out a);
          step_local = map_option (write_path (rw_hash R) (rw_scratch R)) (ra_step_stats_out a)
      in case create_writer (rw_create R) trace_local fs of
           Inl err \<Rightarrow> (Some (Inl err), fs, store)
         | Inr (w, fs) \<Rightarrow>
             (case (case step_local of
                      None \<Rightarrow> Inr (None, fs)
                    | Some path \<Rightarrow> map_sum id (\<lambda>(x, fs). (Some x, fs)) (create_writer (rw_create_steps R) path fs)) of
                Inl err \<Rightarrow> (Some (Inl err), drop_writer (rw_gzip R) w fs, store)
              | Inr (sw, fs) \<Rightarrow>
                  (let s = run_tap (rw_session R) (record_config a) (record_meta a) (sw \<noteq> None);
                       w = write_lines (ts_lines s) w;
                       sw = map_option (write_lines (map (rw_step_line R) (tp_step_stats (ts_tap s)))) sw
                   in case ts_result s of
                        None \<Rightarrow> (None, live_files R s w sw fs, store)
                      | Some r \<Rightarrow> (let (res, fs, store) = finish_record R a r w sw fs store in (Some res, fs, store)))))"

section \<open>Reading back what was written\<close>

text \<open>A line survives the file: UTF-8, without line ends.\<close>

definition clean_line :: "(string \<Rightarrow> bool) \<Rightarrow> string \<Rightarrow> bool" where
  "clean_line utf8 l \<longleftrightarrow> utf8 l \<and> newline \<notin> set l \<and> (l \<noteq> [] \<longrightarrow> last l \<noteq> carriage_return)"

definition lines_text :: "string list \<Rightarrow> string" where
  "lines_text ls = concat (map (\<lambda>l. l @ [newline]) ls)"

lemma write_lines_text: "write_lines ls w = w\<lparr>tw_text := tw_text w @ lines_text ls\<rparr>"
  by (induction ls arbitrary: w) (simp_all add: write_lines_def write_line_def lines_text_def)

lemma split_line: "newline \<notin> set l \<Longrightarrow> split_lines acc (l @ newline # s) =
    (let (ls, rest) = split_lines [] s in ((acc @ l) # ls, rest))"
  by (induction l arbitrary: acc) (auto simp: split_beta)

lemma split_lines_text: "\<forall>l \<in> set ls. newline \<notin> set l \<Longrightarrow> split_lines [] (lines_text ls) = (ls, [])"
  by (induction ls) (simp_all add: lines_text_def split_line)

lemma read_lines_text:
  assumes "\<forall>l \<in> set ls. clean_line utf8 l"
  shows "read_lines utf8 (lines_text ls, AtEof) = map Line ls"
    "read_lines utf8 (lines_text ls, TruncatedEof) = map Line ls @ [LineEof]"
proof -
  have "split_lines [] (lines_text ls) = (ls, [])"
    using assms by (intro split_lines_text) (simp add: clean_line_def)
  moreover have "map (\<lambda>l. case line_item_of utf8 l of Line l \<Rightarrow> Line (drop_cr l) | item \<Rightarrow> item) ls = map Line ls"
    using assms by (auto simp: clean_line_def line_item_of_def drop_cr_def)
  ultimately show "read_lines utf8 (lines_text ls, AtEof) = map Line ls"
    "read_lines utf8 (lines_text ls, TruncatedEof) = map Line ls @ [LineEof]"
    by (simp_all add: read_lines_def)
qed

lemma text_of_as_bytes [simp]: "text_of_bytes (as_bytes s) = s"
proof -
  have "char_of (unat (of_char c :: u8)) = c" for c
  proof -
    have "(of_nat (of_char c) :: u8) = of_char c" by (rule of_nat_of_char)
    moreover have "unat (of_nat (of_char c) :: u8) = (of_char c :: nat) mod 2 ^ LENGTH(8)" by (rule unat_of_nat)
    ultimately show ?thesis by simp
  qed
  then show ?thesis by (induction s) (simp_all add: text_of_bytes_def as_bytes_def)
qed

lemma open_finished:
  assumes "gzip_documented G" "\<forall>l \<in> set ls. clean_line utf8 l" "tw_gzip w = is_gz path" "tw_text w = lines_text ls"
    "fs path = Some (finished_bytes G w)"
  shows "open_trace_reader G utf8 fs path = Inr (map Line ls)"
  using assms(1,3,4,5) read_lines_text(1) [OF assms(2)]
  by (simp add: open_trace_reader_def finished_bytes_def gzip_documented_def)

lemma open_flushed:
  assumes "gzip_documented G" "\<forall>l \<in> set ls. clean_line utf8 l" "tw_gzip w = is_gz path" "tw_text w = lines_text ls"
    "fs path = flush_writer G w fs0 (tw_path w)"
  shows "\<exists>tail. open_trace_reader G utf8 fs path = Inr (map Line ls @ tail) \<and> (tail = [] \<or> tail = [LineEof])"
  using assms(1,3,4,5) read_lines_text [OF assms(2)]
  by (simp add: open_trace_reader_def flush_writer_def gzip_documented_def)

text \<open>A compressor for examples: it puts a mark in front of the text.\<close>

definition marked_gzip :: gzip_lib where
  "marked_gzip =
     \<lparr>gz_finished = \<lambda>t. 0 # as_bytes t, gz_synced = \<lambda>t. 1 # as_bytes t,
      gz_decode = \<lambda>bs. case bs of [] \<Rightarrow> ([], TruncatedEof)
        | b # rest \<Rightarrow> (text_of_bytes rest, if b = 0 then AtEof else TruncatedEof)\<rparr>"

lemma marked_gzip_documented: "gzip_documented marked_gzip"
  by (simp add: gzip_documented_def marked_gzip_def)

section \<open>Scratch names keep the suffix\<close>

lemma split_on_parts: "x \<in> set (split_on c s) \<Longrightarrow> c \<notin> set x"
  by (induction s arbitrary: x) (auto split: list.splits if_splits)

lemma basename_parts: "CHR ''/'' \<notin> set (key_basename key)" "key_basename key \<noteq> []"
proof -
  have "CHR ''/'' \<notin> set (key_basename key) \<and> key_basename key \<noteq> []"
  proof (cases "List.find (\<lambda>s. s \<noteq> []) (rev (split_on (CHR ''/'') key))")
    case (Some x)
    obtain i where "i < length (rev (split_on (CHR ''/'') key))" "x = rev (split_on (CHR ''/'') key) ! i" "x \<noteq> []"
      using Some unfolding find_Some_iff by blast
    then have "x \<in> set (split_on (CHR ''/'') key)" using nth_mem [of i "rev (split_on (CHR ''/'') key)"] by simp
    with Some split_on_parts \<open>x \<noteq> []\<close> show ?thesis by (simp add: key_basename_def)
  qed (simp add: key_basename_def)
  then show "CHR ''/'' \<notin> set (key_basename key)" "key_basename key \<noteq> []" by simp_all
qed

lemma digit_no_slash: "n < 16 \<Longrightarrow> hex_digit n \<noteq> CHR ''/''"
  by (simp add: hex_digit_def char_of_eq_iff take_bit_nat_eq_self)

lemma hex_no_slash: "CHR ''/'' \<notin> set (hex_encode bs)"
proof -
  have "hex_digit (unat b div 16) \<noteq> CHR ''/''" "hex_digit (unat b mod 16) \<noteq> CHR ''/''" for b :: u8
  proof -
    have "unat b < 2 ^ LENGTH(8)" by (rule unsigned_less)
    then show "hex_digit (unat b div 16) \<noteq> CHR ''/''" "hex_digit (unat b mod 16) \<noteq> CHR ''/''"
      by (auto intro!: digit_no_slash simp: less_mult_imp_div_less)
  qed
  then show ?thesis by (auto simp: hex_encode_def dest: sym)
qed

lemma file_name_of:
  assumes "name \<noteq> []" "CHR ''/'' \<notin> set name"
  shows "file_name (dir @ ''/'' @ name) = name"
proof -
  have "dropWhile (\<lambda>c. c = CHR ''/'') (rev name @ CHR ''/'' # rev dir) = rev name @ CHR ''/'' # rev dir"
    using assms by (cases name rule: rev_cases) auto
  moreover have "takeWhile (\<lambda>c. c \<noteq> CHR ''/'') (rev name @ CHR ''/'' # rev dir) = rev name"
    using assms takeWhile_append2 [of "rev name" "\<lambda>c. c \<noteq> CHR ''/''" "CHR ''/'' # rev dir"] by auto
  ultimately show ?thesis by (simp add: file_name_def)
qed

lemma scratch_gz: "is_gz (scratch_path hash_of uri key dir) = is_gz (scratch_path hash_of uri key dir')"
proof -
  let ?name = "''sim-s3-'' @ hex16 (hash_of uri) @ ''-'' @ key_basename key"
  have "CHR ''/'' \<notin> set ?name" using basename_parts hex_no_slash by (simp add: hex16_def)
  then have "file_name (scratch_path hash_of uri key d) = ?name" for d
    using file_name_of [of ?name d] by (simp add: scratch_path_def)
  then show ?thesis by (simp add: is_gz_def)
qed

section \<open>A recording read back\<close>

text \<open>Every call on the files and the store succeeds, and the sidecar has a path of its own.\<close>

definition smooth_record :: "record_world \<Rightarrow> record_args \<Rightarrow> bool" where
  "smooth_record R a \<longleftrightarrow>
     rw_create R = Inr () \<and> rw_create_steps R = Inr () \<and> rw_finish R = Inr () \<and> rw_put R = Inr () \<and>
     rw_finish_steps R = Inr () \<and> rw_put_steps R = Inr () \<and>
     (case ra_step_stats_out a of None \<Rightarrow> True
      | Some uri \<Rightarrow> write_path (rw_hash R) (rw_scratch R) uri \<noteq> write_path (rw_hash R) (rw_scratch R) (ra_trace_out a))"

text \<open>The session of a recording command and the path it writes to.\<close>

definition recorded_session :: "record_world \<Rightarrow> record_args \<Rightarrow> tap_session" where
  "recorded_session R a = run_tap (rw_session R) (record_config a) (record_meta a) (ra_step_stats_out a \<noteq> None)"

definition record_path :: "record_world \<Rightarrow> record_args \<Rightarrow> string" where
  "record_path R a = write_path (rw_hash R) (rw_scratch R) (ra_trace_out a)"

definition record_writer :: "record_world \<Rightarrow> record_args \<Rightarrow> trace_writer" where
  "record_writer R a =
     \<lparr>tw_path = record_path R a, tw_gzip = is_gz (record_path R a), tw_text = lines_text (ts_lines (recorded_session R a))\<rparr>"

lemma upload_other:
  assumes "write_path hash_of d uri \<noteq> write_path hash_of d (S3 bucket key)"
  shows "snd (upload put uri bytes store) (bucket, key) = store (bucket, key)"
  using assms by (cases uri; cases put) auto

lemma finish_record_stored:
  assumes "smooth_record R a" "tw_path w = record_path R a"
    "sw = map_option (\<lambda>uri. x\<lparr>tw_path := write_path (rw_hash R) (rw_scratch R) uri\<rparr>) (ra_step_stats_out a)"
    "finish_record R a r w sw fs store = (res, fs', store')"
  shows "res = r \<and> fs' (tw_path w) = Some (finished_bytes (rw_gzip R) w) \<and>
    (case ra_trace_out a of S3 bucket key \<Rightarrow> store' (bucket, key) = Some (finished_bytes (rw_gzip R) w) | _ \<Rightarrow> True)"
proof (cases "ra_step_stats_out a")
  case None
  then show ?thesis
    using assms by (cases "ra_trace_out a") (auto simp: finish_record_def finish_writer_def smooth_record_def)
next
  case (Some uri)
  let ?p = "write_path (rw_hash R) (rw_scratch R) uri"
  have p: "?p \<noteq> tw_path w" using assms(1,2) Some by (simp add: smooth_record_def record_path_def)
  let ?b = "finished_bytes (rw_gzip R) (x\<lparr>tw_path := ?p\<rparr>)"
  have up: "\<exists>st'. upload (Inr ()) u bs st = (Inr (), st')" for u bs and st :: object_store by (cases u) simp_all
  obtain s1 where s1: "upload (Inr ()) (ra_trace_out a) (finished_bytes (rw_gzip R) w) store = (Inr (), s1)" using up by blast
  obtain s2 where s2: "upload (Inr ()) uri ?b s1 = (Inr (), s2)" using up by blast
  have "(res, fs', store') = (r, fs(tw_path w \<mapsto> finished_bytes (rw_gzip R) w, ?p \<mapsto> ?b), s2)"
    using assms(1,3,4) Some p
    by (simp add: finish_record_def finish_writer_def smooth_record_def s1 s2)
  then have eqs: "res = r" "fs' = fs(tw_path w \<mapsto> finished_bytes (rw_gzip R) w, ?p \<mapsto> ?b)"
    "store' = s2" by simp_all
  have s3: "store' (bucket, key) = Some (finished_bytes (rw_gzip R) w)"
    if "ra_trace_out a = S3 bucket key" for bucket key
    using upload_other [of "rw_hash R" "rw_scratch R" uri bucket key "Inr ()" ?b s1] p assms(2) that s1 s2
    by (auto simp: record_path_def eqs(3))
  have "fs' (tw_path w) = Some (finished_bytes (rw_gzip R) w)" using p by (simp add: eqs(2))
  then show ?thesis using s3 eqs(1) by (cases "ra_trace_out a") simp_all
qed

lemma run_record_smooth:
  assumes "smooth_record R a"
  shows "\<exists>x sw fs1. sw = map_option (\<lambda>uri. x\<lparr>tw_path := write_path (rw_hash R) (rw_scratch R) uri\<rparr>) (ra_step_stats_out a) \<and>
    run_record R a fs store =
      (case ts_result (recorded_session R a) of
         None \<Rightarrow> (None, live_files R (recorded_session R a) (record_writer R a) sw fs1, store)
       | Some r \<Rightarrow> (let (res, fs', store') = finish_record R a r (record_writer R a) sw fs1 store in (Some res, fs', store')))"
proof (cases "ra_step_stats_out a")
  case None
  show ?thesis
    by (rule exI, rule exI [of _ None], rule exI [of _ "fs(record_path R a \<mapsto> [])"])
      (use assms None in \<open>simp add: run_record_def create_writer_def smooth_record_def recorded_session_def
        record_writer_def record_path_def write_lines_text Let_def cong: option.case_cong\<close>)
next
  case (Some uri)
  let ?p = "write_path (rw_hash R) (rw_scratch R) uri"
  let ?x = "\<lparr>tw_path = ?p, tw_gzip = is_gz ?p,
    tw_text = lines_text (map (rw_step_line R) (tp_step_stats (ts_tap (recorded_session R a))))\<rparr>"
  show ?thesis
    by (rule exI [of _ ?x], rule exI [of _ "Some ?x"], rule exI [of _ "fs(record_path R a \<mapsto> [], ?p \<mapsto> [])"])
      (use assms Some in \<open>simp add: run_record_def create_writer_def smooth_record_def recorded_session_def record_writer_def
        record_path_def write_lines_text Let_def cong: option.case_cong\<close>)
qed

end
