(* ===== verification/Record_Props.thy ===== *)
theory Record_Props
  imports Trace_Store End_To_End
begin













end
