(* ===== verification/Inspect.thy ===== *)
theory Inspect
  imports Trace_Store Arrivals Perfetto
begin

text \<open>
  The \<^verbatim>\<open>inspect\<close> command line (\<^verbatim>\<open>src/src/inspect.rs\<close>) and the exit status of the process
  (\<^verbatim>\<open>src/src/main.rs\<close>): each command over the files, the object store, standard output and the local
  server of the viewer. The renderings of a printed report are its data here.
\<close>

section \<open>Commands\<close>

datatype report_format = ReportText | ReportJson

datatype demo_profile = DemoRealistic | DemoFast

datatype e2e_harness = Sampled | ReplayArrivals

record perfetto_args =
  pa_input :: trace_uri
  pa_output :: "trace_uri option"
  pa_step_stats :: "trace_uri option"
  pa_name :: "string option"
  pa_track_per_request :: bool
  pa_open :: bool
  pa_port :: nat

record calibrate_args =
  ca_trace :: string
  ca_samples :: nat
  ca_seed :: u64
  ca_tolerance :: f64
  ca_json :: report_format
  ca_dump_samples :: "string option"

record wire_args =
  xa_trace :: string
  xa_requests :: "nat option"
  xa_seed :: u64
  xa_knob_fit :: sim_driver
  xa_tolerance :: f64
  xa_replay_arrivals :: e2e_harness
  xa_latency_trace :: "string option"
  xa_dump_trace :: "string option"
  xa_replay_sessions :: session_pacing
  xa_cold_prompts :: prompt_replay
  xa_time_scale :: f64
  xa_sim_args :: "string list"
  xa_json :: report_format

datatype inspect_command =
    FromGuidellm string string convert_options
  | Summarize trace_uri
  | PerfettoExport perfetto_args
  | GenDemo string nat u64 demo_profile
  | CalibrateModel calibrate_args
  | CalibrateE2e wire_args

text \<open>What is printed on standard output.\<close>

datatype printed =
    PrintedSummary trace_meta "bucket_stats list"
  | PrintedTimeline string
  | PrintedJson calibration_report
  | PrintedTables "report_row list" "report_row list"

text \<open>The statuses a process ends with; \<open>ExitUsage\<close> is the argument parser's, \<open>ExitPanic\<close> that of a panic.\<close>

datatype exit_status = ExitSuccess | ExitFailure | ExitUsage | ExitPanic

section \<open>The world and the state\<close>

text \<open>What surrounds a command: the codecs, the hub and the outcome of S3 calls, how opening, writing and
  finalizing a path turn out (a write fails after so many lines), the port the viewer's server gets, the
  process id, and the engine under test. A buffered writer that is dropped loses an error of its last
  flush: \<open>iw_lost\<close> says how much of a file was written then, \<open>iw_stdout_lost\<close> that standard output got
  nothing.\<close>

record 'r inspect_world =
  iw_json :: json_codec
  iw_gzip :: gzip_lib
  iw_utf8 :: "string \<Rightarrow> bool"
  iw_hash :: "string \<Rightarrow> u64"
  iw_hub :: hub_crate
  iw_env :: process_env
  iw_fetch :: fetch_world
  iw_tmp :: string
  iw_create :: "string \<Rightarrow> unit result"
  iw_write :: "string \<Rightarrow> (nat \<times> string) option"
  iw_finish :: "string \<Rightarrow> unit result"
  iw_put :: "unit result"
  iw_lost :: "string \<Rightarrow> nat option"
  iw_stdout :: "unit result"
  iw_stdout_lost :: bool
  iw_server :: "nat \<Rightarrow> nat result"
  iw_step_record :: "json \<Rightarrow> step_stats_record result"
  iw_dump_text :: "sample_dump \<Rightarrow> string"
  iw_rng :: "'r rng_ops"
  iw_show_f64 :: "f64 \<Rightarrow> string"
  iw_pid :: nat
  iw_accepts_args :: "string list \<Rightarrow> bool"
  iw_connect :: "unit result"
  iw_default_request :: engine_request
  iw_for_test :: sampling_params
  iw_replay_serve :: "nat \<Rightarrow> engine_request \<Rightarrow> (duration \<times> instant \<times> stream_item list option) option"
  iw_e2e_serve :: "nat \<Rightarrow> engine_request \<Rightarrow> (instant \<times> stream_item list) result"
  iw_e2e_order :: "trace_record list \<Rightarrow> nat list"

text \<open>What a command changes: files, objects, standard output, and the page and the response its server
  offers.\<close>

record inspect_state =
  is_files :: files
  is_store :: object_store
  is_stdout :: "printed list"
  is_served :: "(string \<times> string) option"

definition print_out :: "'r inspect_world \<Rightarrow> printed \<Rightarrow> inspect_state \<Rightarrow> inspect_state" where
  "print_out W p s = (if iw_stdout_lost W then s else s\<lparr>is_stdout := is_stdout s @ [p]\<rparr>)"

section \<open>Inputs and outputs\<close>

definition materialize_input :: "'r inspect_world \<Rightarrow> trace_uri \<Rightarrow> inspect_state \<Rightarrow> string result \<times> inspect_state" where
  "materialize_input W uri s =
     (case local_path uri of
        Some path \<Rightarrow> (Inr path, s)
      | None \<Rightarrow>
          (let (res, fs) = materialize (iw_hash W) (iw_hub W) (iw_env W) (iw_fetch W) (is_store s) (iw_tmp W) uri (is_files s)
           in (res, s\<lparr>is_files := fs\<rparr>)))"

definition read_input :: "'r inspect_world \<Rightarrow> string \<Rightarrow> inspect_state \<Rightarrow> (trace_meta \<times> trace_record list) result" where
  "read_input W path s = read_trace_file (iw_gzip W) (iw_utf8 W) (iw_json W) (is_files s) path"

text \<open>\<^verbatim>\<open>fs::read_to_string\<close>.\<close>

definition read_to_string :: "'r inspect_world \<Rightarrow> string \<Rightarrow> inspect_state \<Rightarrow> string result" where
  "read_to_string W path s =
     (case is_files s path of
        None \<Rightarrow> Inl (''reading '' @ path)
      | Some bytes \<Rightarrow>
          if iw_utf8 W (text_of_bytes bytes) then Inr (text_of_bytes bytes) else Inl (''reading '' @ path))"

definition write_output :: "'r inspect_world \<Rightarrow> string \<Rightarrow> trace_uri \<Rightarrow> inspect_state \<Rightarrow> unit result \<times> inspect_state" where
  "write_output W bytes uri s =
     (let dest = write_path (iw_hash W) (iw_tmp W) uri
      in case iw_create W dest of
           Inl err \<Rightarrow> (Inl (''writing '' @ dest), s)
         | Inr _ \<Rightarrow>
             (let s = s\<lparr>is_files := (is_files s)(dest \<mapsto> as_bytes bytes)\<rparr>
              in if uri_is_remote uri
                 then (let (res, store) = upload (iw_put W) uri (as_bytes bytes) (is_store s)
                       in (res, s\<lparr>is_store := store\<rparr>))
                 else (Inr (), s)))"

text \<open>A trace written line by line through a writer of its own; a writer that goes out of scope is
  dropped.\<close>

definition store_lines :: "'r inspect_world \<Rightarrow> string \<Rightarrow> string list \<Rightarrow> inspect_state \<Rightarrow> unit result \<times> inspect_state" where
  "store_lines W path ls s =
     (case create_writer (iw_create W path) path (is_files s) of
        Inl err \<Rightarrow> (Inl err, s)
      | Inr (w, fs) \<Rightarrow>
          (case iw_write W path of
             Some (n, err) \<Rightarrow> (Inl err, s\<lparr>is_files := drop_writer (iw_gzip W) (write_lines (take n ls) w) fs\<rparr>)
           | None \<Rightarrow>
               (let (res, fs) = finish_writer (iw_gzip W) (iw_finish W path) (write_lines ls w) fs
                in (res, s\<lparr>is_files := fs\<rparr>))))"

definition write_demo_trace ::
  "'r inspect_world \<Rightarrow> string \<Rightarrow> trace_meta \<Rightarrow> trace_record list \<Rightarrow> inspect_state \<Rightarrow> unit result \<times> inspect_state" where
  "write_demo_trace W path m rs s = store_lines W path (write_trace (iw_json W) m rs) s"

definition write_report_as ::
  "'r inspect_world \<Rightarrow> report_format \<Rightarrow> calibration_report \<Rightarrow> inspect_state \<Rightarrow> unit result \<times> inspect_state" where
  "write_report_as W fmt report s =
     (case iw_stdout W of
        Inl err \<Rightarrow> (Inl err, s)
      | Inr _ \<Rightarrow>
          (case fmt of
             ReportJson \<Rightarrow> (Inr (), print_out W (PrintedJson report) s)
           | ReportText \<Rightarrow>
               (case write_report report of
                  Inl err \<Rightarrow> (Inl err, s)
                | Inr (ttft_rows, itl_rows) \<Rightarrow> (Inr (), print_out W (PrintedTables ttft_rows itl_rows) s))))"

section \<open>The step-stats sidecar\<close>

fun read_step_stats_from :: "'r inspect_world \<Rightarrow> nat \<Rightarrow> line_item list \<Rightarrow> step_stats_record list result" where
  "read_step_stats_from W n [] = Inr []"
| "read_step_stats_from W n (LineEof # rest) = Inl (''reading step-stats line '' @ nat_str n)"
| "read_step_stats_from W n (LineErr err # rest) = Inl (''reading step-stats line '' @ nat_str n)"
| "read_step_stats_from W n (Line l # rest) =
     (if trim l = [] then read_step_stats_from W (Suc n) rest
      else bind_result (err_context (''step-stats line '' @ nat_str n @ '': invalid record'')
             (bind_result (jc_parse (iw_json W) (trim l)) (iw_step_record W))) (\<lambda>r.
           bind_result (read_step_stats_from W (Suc n) rest) (\<lambda>rs. Inr (r # rs))))"

definition read_step_stats :: "'r inspect_world \<Rightarrow> line_item list \<Rightarrow> step_stats_record list result" where
  "read_step_stats W items = read_step_stats_from W 1 items"

definition read_overlays :: "'r inspect_world \<Rightarrow> trace_uri option \<Rightarrow> inspect_state \<Rightarrow> overlays result \<times> inspect_state" where
  "read_overlays W step_stats s =
     (case step_stats of
        None \<Rightarrow> (Inr \<lparr>ov_counters = [], ov_steps = []\<rparr>, s)
      | Some uri \<Rightarrow>
          (case materialize_input W uri s of
             (Inl err, s) \<Rightarrow> (Inl err, s)
           | (Inr path, s) \<Rightarrow>
               (bind_result (open_trace_reader (iw_gzip W) (iw_utf8 W) (is_files s) path) (\<lambda>items.
                bind_result (read_step_stats W items) (\<lambda>snapshots.
                  Inr \<lparr>ov_counters = step_stats_counters snapshots, ov_steps = step_spans snapshots\<rparr>)), s)))"

section \<open>The viewer's server\<close>

definition crlf :: string where
  "crlf = [carriage_return, newline]"

definition viewer_response :: "string \<Rightarrow> string" where
  "viewer_response body =
     ''HTTP/1.1 200 OK'' @ crlf @ ''Access-Control-Allow-Origin: *'' @ crlf @ ''Content-Type: application/json'' @ crlf @
     ''Content-Length: '' @ nat_str (length body) @ crlf @ ''Connection: close'' @ crlf @ crlf @ body"

definition ui_url :: "nat \<Rightarrow> string" where
  "ui_url bound_port =
     ''https://ui.perfetto.dev/#!/?url='' @ ''http://127.0.0.1:'' @ nat_str bound_port @ ''/trace.json''"

text \<open>Once it listens it serves every connection the same response and does not return: \<open>None\<close>.\<close>

definition serve_perfetto :: "'r inspect_world \<Rightarrow> string \<Rightarrow> nat \<Rightarrow> inspect_state \<Rightarrow> unit result option \<times> inspect_state" where
  "serve_perfetto W trace_json port s =
     (case iw_server W port of
        Inl err \<Rightarrow> (Some (Inl err), s)
      | Inr bound_port \<Rightarrow> (None, s\<lparr>is_served := Some (ui_url bound_port, viewer_response trace_json)\<rparr>))"

section \<open>The commands\<close>

text \<open>The outcome of a command: \<open>None\<close> while it serves.\<close>

type_synonym command_result = "exit_status result option \<times> inspect_state"

definition succeed :: "inspect_state \<Rightarrow> command_result" where
  "succeed s = (Some (Inr ExitSuccess), s)"

definition refuse :: "string \<Rightarrow> inspect_state \<Rightarrow> command_result" where
  "refuse err s = (Some (Inl err), s)"

definition from_guidellm :: "'r inspect_world \<Rightarrow> string \<Rightarrow> string \<Rightarrow> convert_options \<Rightarrow> inspect_state \<Rightarrow> command_result" where
  "from_guidellm W input output opts s =
     (case bind_result (read_to_string W input s) (\<lambda>report_json. convert_guidellm (iw_json W) report_json opts) of
        Inl err \<Rightarrow> refuse err s
      | Inr (m, records) \<Rightarrow>
          (case store_lines W output (write_conversion (iw_json W) m records) s of
             (Inl err, s) \<Rightarrow> refuse err s
           | (Inr _, s) \<Rightarrow> succeed s))"

definition summarize_input :: "'r inspect_world \<Rightarrow> trace_uri \<Rightarrow> inspect_state \<Rightarrow> command_result" where
  "summarize_input W input s =
     (case materialize_input W input s of
        (Inl err, s) \<Rightarrow> refuse err s
      | (Inr path, s) \<Rightarrow>
          (case bind_result (open_trace_reader (iw_gzip W) (iw_utf8 W) (is_files s) path) (summarize_trace (iw_json W)) of
             Inl err \<Rightarrow> refuse err s
           | Inr (m, stats) \<Rightarrow>
               (case iw_stdout W of
                  Inl err \<Rightarrow> refuse err s
                | Inr _ \<Rightarrow> succeed (print_out W (PrintedSummary m stats) s))))"

definition perfetto_bytes ::
  "'r inspect_world \<Rightarrow> perfetto_args \<Rightarrow> trace_meta \<Rightarrow> trace_record list \<Rightarrow> overlays \<Rightarrow> string" where
  "perfetto_bytes W a m records ov =
     jc_print (iw_json W) (doc_to_json (fst (write_perfetto m records ov
       \<lparr>po_process_name = pa_name a, po_track_per_request = pa_track_per_request a\<rparr>)))"

text \<open>Where the rendered bytes go: to the output, then to the server, or to standard output when there is
  neither.\<close>

definition route_timeline :: "'r inspect_world \<Rightarrow> perfetto_args \<Rightarrow> string \<Rightarrow> inspect_state \<Rightarrow> command_result" where
  "route_timeline W a bytes s =
     (case (case pa_output a of None \<Rightarrow> (Inr (), s) | Some uri \<Rightarrow> write_output W bytes uri s) of
        (Inl err, s) \<Rightarrow> refuse err s
      | (Inr _, s) \<Rightarrow>
          if pa_open a
          then (case serve_perfetto W bytes (pa_port a) s of
                  (None, s) \<Rightarrow> (None, s)
                | (Some (Inl err), s) \<Rightarrow> refuse err s
                | (Some (Inr _), s) \<Rightarrow> succeed s)
          else if pa_output a = None
          then (case iw_stdout W of
                  Inl err \<Rightarrow> refuse ''writing perfetto trace to stdout'' s
                | Inr _ \<Rightarrow> succeed (print_out W (PrintedTimeline bytes) s))
          else succeed s)"

definition export_perfetto :: "'r inspect_world \<Rightarrow> perfetto_args \<Rightarrow> inspect_state \<Rightarrow> command_result" where
  "export_perfetto W a s =
     (case materialize_input W (pa_input a) s of
        (Inl err, s) \<Rightarrow> refuse err s
      | (Inr path, s) \<Rightarrow>
          (case read_input W path s of
             Inl err \<Rightarrow> refuse err s
           | Inr (m, records) \<Rightarrow>
               (case read_overlays W (pa_step_stats a) s of
                  (Inl err, s) \<Rightarrow> refuse err s
                | (Inr ov, s) \<Rightarrow> route_timeline W a (perfetto_bytes W a m records ov) s)))"

definition gen_demo_trace :: "'r inspect_world \<Rightarrow> string \<Rightarrow> nat \<Rightarrow> u64 \<Rightarrow> demo_profile \<Rightarrow> inspect_state \<Rightarrow> command_result" where
  "gen_demo_trace W output n seed fast s =
     (let (m, recs) = (case fast of DemoFast \<Rightarrow> gen_demo_fast (iw_rng W) n seed
                                  | DemoRealistic \<Rightarrow> gen_demo (iw_rng W) n seed)
      in case write_demo_trace W output m recs s of
           (Inl err, s) \<Rightarrow> refuse err s
         | (Inr _, s) \<Rightarrow> succeed s)"

text \<open>The end of both calibrations: the report is printed and its verdict is the status.\<close>

definition judge :: "'r inspect_world \<Rightarrow> report_format \<Rightarrow> calibration_report \<Rightarrow> inspect_state \<Rightarrow> command_result" where
  "judge W fmt report s =
     (case write_report_as W fmt report s of
        (Inl err, s) \<Rightarrow> refuse err s
      | (Inr _, s) \<Rightarrow>
          (Some (Inr (if v_replay_pass (cr_verdict report) then ExitSuccess else ExitFailure)), s))"

definition calibrate_from_file :: "'r inspect_world \<Rightarrow> string \<Rightarrow> nat \<Rightarrow> u64 \<Rightarrow> f64 \<Rightarrow> inspect_state \<Rightarrow> calibration_report result" where
  "calibrate_from_file W path num_samples seed tolerance s =
     bind_result (read_input W path s) (\<lambda>(m, records). calibrate (iw_rng W) records num_samples seed tolerance)"

text \<open>The samples behind a report, written beside it; the writer is dropped, so an error of its last
  flush is lost.\<close>

definition write_dump :: "'r inspect_world \<Rightarrow> calibrate_args \<Rightarrow> string \<Rightarrow> inspect_state \<Rightarrow> unit result \<times> inspect_state" where
  "write_dump W a dump_path s =
     (case bind_result (read_input W (ca_trace a) s) (\<lambda>(m, records). dump_samples (iw_rng W) records (ca_samples a) (ca_seed a)) of
        Inl err \<Rightarrow> (Inl err, s)
      | Inr dump \<Rightarrow>
          (case iw_create W dump_path of
             Inl err \<Rightarrow> (Inl (''creating '' @ dump_path), s)
           | Inr _ \<Rightarrow>
               (case iw_write W dump_path of
                  Some (n, err) \<Rightarrow>
                    (Inl ''serializing sample dump'',
                     s\<lparr>is_files := (is_files s)(dump_path \<mapsto> as_bytes (take n (iw_dump_text W dump)))\<rparr>)
                | None \<Rightarrow>
                    (let written = (case iw_lost W dump_path of None \<Rightarrow> iw_dump_text W dump
                                                              | Some n \<Rightarrow> take n (iw_dump_text W dump))
                     in (Inr (), s\<lparr>is_files := (is_files s)(dump_path \<mapsto> as_bytes written)\<rparr>)))))"

definition calibrate_model :: "'r inspect_world \<Rightarrow> calibrate_args \<Rightarrow> inspect_state \<Rightarrow> command_result" where
  "calibrate_model W a s =
     (case calibrate_from_file W (ca_trace a) (ca_samples a) (ca_seed a) (ca_tolerance a) s of
        Inl err \<Rightarrow> refuse err s
      | Inr report \<Rightarrow>
          (case (case ca_dump_samples a of None \<Rightarrow> (Inr (), s) | Some dump_path \<Rightarrow> write_dump W a dump_path s) of
             (Inl err, s) \<Rightarrow> refuse err s
           | (Inr _, s) \<Rightarrow> judge W (ca_json a) report s))"

text \<open>Both wire-level harnesses parse the flags of the engine under test, which ends the process when
  they are refused, and connect to it.\<close>

definition under_test :: "'r inspect_world \<Rightarrow> string list \<Rightarrow> 'a result \<Rightarrow> 'a result option" where
  "under_test W flags res =
     (if \<not> iw_accepts_args W flags then None
      else Some (bind_result (iw_connect W) (\<lambda>_. res)))"

definition e2e_replay_config :: "wire_args \<Rightarrow> replay_config" where
  "e2e_replay_config a =
     \<lparr>rc_max_requests = xa_requests a, rc_tolerance = xa_tolerance a, rc_driver = xa_knob_fit a,
      rc_extra_sim_args = xa_sim_args a, rc_pacing = xa_replay_sessions a, rc_prompts = xa_cold_prompts a,
      rc_time_scale = xa_time_scale a\<rparr>"

definition ipc_address :: "'r inspect_world \<Rightarrow> string \<Rightarrow> string \<Rightarrow> string" where
  "ipc_address W harness tag = ''ipc:///tmp/inf-sim-'' @ harness @ ''-'' @ nat_str (iw_pid W) @ ''-'' @ tag @ ''.ipc''"

definition replay_harness :: "'r inspect_world \<Rightarrow> wire_args \<Rightarrow> inspect_state \<Rightarrow> replay_outcome result option" where
  "replay_harness W a s =
     (let cfg = e2e_replay_config a;
          lat_path = (case xa_latency_trace a of None \<Rightarrow> xa_trace a | Some p \<Rightarrow> p)
      in case read_input W (xa_trace a) s of
           Inl err \<Rightarrow> Some (Inl err)
         | Inr (m, all_records) \<Rightarrow>
             (case replay_schedule cfg all_records of
                Inl err \<Rightarrow> Some (Inl err)
              | Inr _ \<Rightarrow>
                  (case (if rc_driver cfg = KnobFit then read_input W lat_path s else Inr (m, [])) of
                     Inl err \<Rightarrow> Some (Inl err)
                   | Inr (_, lat_records) \<Rightarrow>
                       under_test W
                         (replay_sim_args (iw_show_f64 W) cfg m (ipc_address W ''replay'' (nat_str (unat (xa_seed a)))) lat_path lat_records)
                         (replay_arrivals (iw_default_request W) (iw_for_test W) (iw_replay_serve W) cfg m all_records))))"

definition e2e_sim_args :: "string \<Rightarrow> string \<Rightarrow> sim_driver \<Rightarrow> trace_record list \<Rightarrow> string list" where
  "e2e_sim_args addr trace_path driver all_records =
     [''play'', ''--handshake-address'', addr, ''--max-num-seqs'', ''64''] @
     (if driver = KnobFit
      then let knob = fit_knob_from_trace all_records
           in [''--time-to-first-token'', nat_str (kl_time_to_first_token knob),
               ''--time-to-first-token-std-dev'', nat_str (kl_time_to_first_token_std_dev knob),
               ''--inter-token-latency'', nat_str (kl_inter_token_latency knob),
               ''--inter-token-latency-std-dev'', nat_str (kl_inter_token_latency_std_dev knob)]
      else [''--latency-trace'', trace_path])"

definition sampled_harness :: "'r inspect_world \<Rightarrow> wire_args \<Rightarrow> inspect_state \<Rightarrow> calibration_report result option" where
  "sampled_harness W a s =
     (case read_input W (xa_trace a) s of
        Inl err \<Rightarrow> Some (Inl err)
      | Inr (m, all_records) \<Rightarrow>
          if all_records = [] then Some (Inl ''trace has no records'')
          else under_test W
            (e2e_sim_args (ipc_address W ''cal'' (nat_str (unat (xa_seed a)))) (xa_trace a) (xa_knob_fit a) all_records)
            (calibrate_e2e (iw_rng W) (iw_e2e_order W) (iw_e2e_serve W) (iw_default_request W) (iw_for_test W)
               all_records (case xa_requests a of None \<Rightarrow> 60 | Some n \<Rightarrow> n) (xa_seed a) (xa_knob_fit a) (xa_tolerance a)))"

definition calibrate_wire :: "'r inspect_world \<Rightarrow> wire_args \<Rightarrow> inspect_state \<Rightarrow> command_result" where
  "calibrate_wire W a s =
     (case xa_replay_arrivals a of
        ReplayArrivals \<Rightarrow>
          (case replay_harness W a s of
             None \<Rightarrow> (Some (Inr ExitUsage), s)
           | Some (Inl err) \<Rightarrow> refuse err s
           | Some (Inr outcome) \<Rightarrow>
               (case (case xa_dump_trace a of
                        None \<Rightarrow> (Inr (), s)
                      | Some dump_path \<Rightarrow>
                          store_lines W dump_path
                            (write_trace (iw_json W) (default_meta\<lparr>tm_source := Some ''replay-arrivals''\<rparr>) (ro_measured outcome)) s) of
                  (Inl err, s) \<Rightarrow> refuse err s
                | (Inr _, s) \<Rightarrow> judge W (xa_json a) (ro_report outcome) s))
      | Sampled \<Rightarrow>
          (case sampled_harness W a s of
             None \<Rightarrow> (Some (Inr ExitUsage), s)
           | Some (Inl err) \<Rightarrow> refuse err s
           | Some (Inr report) \<Rightarrow> judge W (xa_json a) report s))"

fun run_inspect :: "'r inspect_world \<Rightarrow> inspect_command \<Rightarrow> inspect_state \<Rightarrow> command_result" where
  "run_inspect W (FromGuidellm input output opts) s = from_guidellm W input output opts s"
| "run_inspect W (Summarize input) s = summarize_input W input s"
| "run_inspect W (PerfettoExport a) s = export_perfetto W a s"
| "run_inspect W (GenDemo output n seed fast) s = gen_demo_trace W output n seed fast s"
| "run_inspect W (CalibrateModel a) s = calibrate_model W a s"
| "run_inspect W (CalibrateE2e a) s = calibrate_wire W a s"

text \<open>The process: an error ends it with a failure, reported on standard error, unless it is a panic.\<close>

definition process_status :: "exit_status result \<Rightarrow> exit_status" where
  "process_status res =
     (case res of Inr code \<Rightarrow> code | Inl err \<Rightarrow> if err = out_of_bounds then ExitPanic else ExitFailure)"

definition inspect_process :: "'r inspect_world \<Rightarrow> inspect_command \<Rightarrow> inspect_state \<Rightarrow> exit_status option \<times> inspect_state" where
  "inspect_process W c s = (let (res, s) = run_inspect W c s in (map_option process_status res, s))"

end
