(* ===== verification/Inspect_Props.thy ===== *)
theory Inspect_Props
  imports Inspect Calibrate_Props Convert_Props
begin

text \<open>
  The \<^verbatim>\<open>inspect\<close> commands: what they may change and print, and that the traces they write are traces
  they read.
\<close>

section \<open>What a command touches\<close>




text \<open>Only those are changed; standard output and the server are left alone.\<close>

definition writes_at_most :: "string set \<Rightarrow> (string \<times> string) set \<Rightarrow> inspect_state \<Rightarrow> inspect_state \<Rightarrow> bool" where
  "writes_at_most P K s s' \<longleftrightarrow>
     (\<forall>p. p \<notin> P \<longrightarrow> is_files s' p = is_files s p) \<and> (\<forall>k. k \<notin> K \<longrightarrow> is_store s' k = is_store s k)"

definition same_products :: "inspect_state \<Rightarrow> inspect_state \<Rightarrow> bool" where
  "same_products s s' \<longleftrightarrow> is_stdout s' = is_stdout s \<and> is_served s' = is_served s"

named_theorems touch_defs "what a primitive of a command changes"
lemmas [touch_defs] = writes_at_most_def same_products_def

lemma writes_refl [simp]: "writes_at_most P K s s" "same_products s s"
  by (simp_all add: touch_defs)









text \<open>How a command ends: an error prints nothing, anything else prints at most one thing, a failing
  status comes with the report whose verdict fails, and only a command that goes on serving has started
  the server.\<close>

definition report_printed :: "calibration_report \<Rightarrow> printed \<Rightarrow> bool" where
  "report_printed report p \<longleftrightarrow>
     (case p of
        PrintedJson r \<Rightarrow> r = report
      | PrintedTables ttft_rows itl_rows \<Rightarrow> write_report report = Inr (ttft_rows, itl_rows)
      | _ \<Rightarrow> False)"

definition well_ended :: "'r inspect_world \<Rightarrow> inspect_state \<Rightarrow> command_result \<Rightarrow> bool" where
  "well_ended W s = (\<lambda>(res, s').
     \<exists>out. is_stdout s' = is_stdout s @ out \<and> length out \<le> 1 \<and> (iw_stdout_lost W \<longrightarrow> out = []) \<and>
       (out \<noteq> [] \<longrightarrow> res = Some (Inr ExitSuccess) \<or> res = Some (Inr ExitFailure)) \<and>
       (res = Some (Inr ExitFailure) \<longrightarrow>
          (\<exists>report. \<not> v_replay_pass (cr_verdict report) \<and> list_all (report_printed report) out \<and>
             (\<not> iw_stdout_lost W \<longrightarrow> out \<noteq> []))) \<and>
       (if res = None then is_served s' \<noteq> None else is_served s' = is_served s))"


lemma well_ended_simps [simp]:
  "well_ended W s (refuse err s)" "well_ended W s (succeed s)" "well_ended W s (succeed (print_out W p s))"
  "well_ended W s (Some (Inr ExitUsage), s)"
  by (auto simp: well_ended_def refuse_def succeed_def print_out_def)

lemma judge_ends: "well_ended W s (judge W fmt report s)"
  by (auto simp: well_ended_def judge_def write_report_as_def refuse_def print_out_def report_printed_def
      split: sum.split report_format.split prod.split)

lemma judge_touches: "writes_at_most P K s (snd (judge W fmt report s))"
  by (auto simp: judge_def write_report_as_def refuse_def print_out_def touch_defs
      split: sum.split report_format.split prod.split)


text \<open>One command after the other.\<close>

definition behaves :: "'r inspect_world \<Rightarrow> string set \<Rightarrow> (string \<times> string) set \<Rightarrow> inspect_state \<Rightarrow> command_result \<Rightarrow> bool" where
  "behaves W P K s r \<longleftrightarrow> writes_at_most P K s (snd r) \<and> well_ended W s r"


lemma behaves_simps [simp]:
  "behaves W P K s (refuse err s)" "behaves W P K s (succeed s)" "behaves W P K s (succeed (print_out W p s))"
  "behaves W P K s (Some (Inr ExitUsage), s)" "behaves W P K s (judge W fmt report s)"
  using judge_ends judge_touches
  by (auto simp: behaves_def) (simp_all add: refuse_def succeed_def print_out_def touch_defs)










section \<open>Traces written and read\<close>




























end
