(* ===== verification/Play.thy ===== *)
theory Play
  imports Trace_Store Engine
begin

text \<open>
  The start of a \<^verbatim>\<open>play\<close> process (\<^verbatim>\<open>src/src/lib.rs\<close>): the staging of remote inputs, the check of the
  latency configuration, the config-hash gate, and the construction of each engine from the files its
  options name, datasets with their tokenizer (\<^verbatim>\<open>HFDatasetTokens::from_file\<close>, \<^verbatim>\<open>src/src/tokens.rs\<close>)
  included.
\<close>

section \<open>The process\<close>

text \<open>The options that name inputs; the others, with no input set, are \<open>pl_opt\<close>.\<close>

record play_args =
  pl_opt :: opt
  pl_replay_tokens :: "trace_uri option"
  pl_replay_steps :: "trace_uri option"
  pl_latency_trace :: "trace_uri option"
  pl_expect_config_hash :: string
  pl_engine_count :: nat

text \<open>The tokenizer library: a loaded tokenizer encodes text and knows its vocabulary.\<close>

record tokenizer =
  tk_encode :: "string \<Rightarrow> u32 list result"
  tk_vocab_size :: nat

record play_world =
  pw_json :: json_codec
  pw_gzip :: gzip_lib
  pw_utf8 :: "string \<Rightarrow> bool"
  pw_hash :: "string \<Rightarrow> u64"
  pw_hub :: hub_crate
  pw_env :: process_env
  pw_fetch :: fetch_world
  pw_tmp :: string
  pw_csv :: "u8 list \<Rightarrow> (string list \<times> string list result list) result"
  pw_parquet :: "u8 list \<Rightarrow> json list result"
  pw_is_dir :: "string \<Rightarrow> bool"
  pw_tokenizer :: "u8 list \<Rightarrow> tokenizer result"

section \<open>Datasets\<close>

definition DEFAULT_DATASET_TOKENIZER :: string where
  "DEFAULT_DATASET_TOKENIZER = ''Qwen/Qwen3-0.6B''"

definition dataset_tokenizer_model :: "opt \<Rightarrow> string" where
  "dataset_tokenizer_model cfg = (if o_model_name cfg = [] then DEFAULT_DATASET_TOKENIZER else o_model_name cfg)"

definition path_join :: "string \<Rightarrow> string \<Rightarrow> string" where
  "path_join dir name = (if dir \<noteq> [] \<and> last dir = CHR ''/'' then dir @ name else dir @ ''/'' @ name)"

definition load_hf_tokenizer :: "play_world \<Rightarrow> files \<Rightarrow> string \<Rightarrow> hub_settings \<Rightarrow> tokenizer result" where
  "load_hf_tokenizer W fs model_id hub =
     bind_result
       (if pw_is_dir W model_id then Inr (path_join model_id ''tokenizer.json'')
        else if fs model_id \<noteq> None then Inr model_id
        else fst (hub_get_blocking (pw_hub W) (pw_env W) hub RepoModel model_id ''tokenizer.json''))
       (\<lambda>tokenizer_path.
          err_context (''loading tokenizer for '' @ model_id)
            (case fs tokenizer_path of None \<Rightarrow> Inl ''No such file'' | Some bytes \<Rightarrow> pw_tokenizer W bytes))"

definition tokenize_row :: "tokenizer \<Rightarrow> nat \<Rightarrow> json \<Rightarrow> (u32 list \<times> u32 list) result" where
  "tokenize_row tk idx row =
     bind_result (err_context (''extracting prompt from row '' @ nat_str idx) (extract_prompt row)) (\<lambda>prompt_text.
     bind_result (err_context (''extracting response from row '' @ nat_str idx) (extract_response row)) (\<lambda>response_text.
     bind_result (err_context (''tokenizing prompt for row '' @ nat_str idx) (tk_encode tk prompt_text)) (\<lambda>prompt_ids.
     bind_result (err_context (''tokenizing response for row '' @ nat_str idx) (tk_encode tk response_text)) (\<lambda>response_ids.
       Inr (prompt_ids, response_ids)))))"

fun tokenize_rows :: "tokenizer \<Rightarrow> nat \<Rightarrow> json list \<Rightarrow> (u32 list \<times> u32 list) list result" where
  "tokenize_rows tk idx [] = Inr []"
| "tokenize_rows tk idx (row # rows) =
     bind_result (tokenize_row tk idx row) (\<lambda>t. bind_result (tokenize_rows tk (Suc idx) rows) (\<lambda>ts. Inr (t # ts)))"

definition parse_dataset_file :: "play_world \<Rightarrow> files \<Rightarrow> string \<Rightarrow> json list result" where
  "parse_dataset_file W fs path =
     (case fs path of
        None \<Rightarrow> Inl (''reading '' @ path)
      | Some bytes \<Rightarrow> parse_dataset (pw_json W) (pw_csv W bytes) (pw_parquet W bytes) path (text_of_bytes bytes))"

text \<open>The tokenized rows and the tokenizer's vocabulary; the token source is built from them.\<close>

definition load_dataset :: "play_world \<Rightarrow> files \<Rightarrow> string \<Rightarrow> string \<Rightarrow> ((u32 list \<times> u32 list) list \<times> nat) result" where
  "load_dataset W fs path tokenizer_model =
     bind_result (load_hf_tokenizer W fs tokenizer_model (hub_from_env (pw_hub W) (pw_env W))) (\<lambda>tk.
     bind_result (err_context (''parsing dataset '' @ path) (parse_dataset_file W fs path)) (\<lambda>json_rows.
       if json_rows = [] then Inl (''dataset '' @ path @ '' contains no rows'')
       else bind_result (tokenize_rows tk 0 json_rows) (\<lambda>rows. Inr (rows, tk_vocab_size tk mod 2 ^ 32))))"

section \<open>Inputs\<close>

definition play_trace :: "play_world \<Rightarrow> files \<Rightarrow> string \<Rightarrow> (trace_meta \<times> trace_record list) result" where
  "play_trace W fs path = read_trace_file (pw_gzip W) (pw_utf8 W) (pw_json W) fs path"

text \<open>Only a \<^verbatim>\<open>json\<close> or \<^verbatim>\<open>jsonl\<close> file is read for its kind.\<close>

definition dataset_named :: "play_world \<Rightarrow> files \<Rightarrow> string \<Rightarrow> bool result" where
  "dataset_named W fs path =
     (if path_extension path \<in> {''json'', ''jsonl''}
      then (case fs path of
              None \<Rightarrow> Inl (''reading '' @ path)
            | Some bytes \<Rightarrow> is_dataset_file (pw_json W) path (text_of_bytes bytes))
      else is_dataset_file (pw_json W) path [])"

definition load_replay_tokens :: "play_world \<Rightarrow> files \<Rightarrow> opt \<Rightarrow> trace_uri \<Rightarrow> replay_input result" where
  "load_replay_tokens W fs cfg uri =
     bind_result (local_input uri) (\<lambda>path.
     bind_result (dataset_named W fs path) (\<lambda>dataset.
       if dataset
       then if o_replay_match cfg = MatchPrefix \<and> o_model_name cfg = []
            then Inl ''--replay-tokens with a dataset and --replay-match prefix requires --model-name''
            else bind_result (load_dataset W fs path (dataset_tokenizer_model cfg)) (\<lambda>(rows, vocab).
                   Inr (DatasetInput rows vocab))
       else bind_result (play_trace W fs path) (\<lambda>(m, records). Inr (TraceInput (tm_block_size m) records))))"

definition load_replay_steps :: "play_world \<Rightarrow> files \<Rightarrow> trace_uri \<Rightarrow> (nat option \<times> trace_record list) result" where
  "load_replay_steps W fs uri =
     bind_result (local_input uri) (\<lambda>path.
     bind_result (play_trace W fs path) (\<lambda>(m, records). Inr (tm_block_size m, records)))"

definition load_latency_trace :: "play_world \<Rightarrow> files \<Rightarrow> trace_uri \<Rightarrow> trace_record list result" where
  "load_latency_trace W fs uri =
     bind_result (local_input uri) (\<lambda>path. bind_result (play_trace W fs path) (\<lambda>(m, records). Inr records))"

text \<open>An optional input.\<close>

definition load_optional :: "('a \<Rightarrow> 'b result) \<Rightarrow> 'a option \<Rightarrow> 'b option result" where
  "load_optional load input = (case input of None \<Rightarrow> Inr None | Some x \<Rightarrow> bind_result (load x) (\<lambda>y. Inr (Some y)))"

definition with_latency :: "play_world \<Rightarrow> files \<Rightarrow> play_args \<Rightarrow> opt" where
  "with_latency W fs a = (pl_opt a)\<lparr>o_latency_trace := map_option (load_latency_trace W fs) (pl_latency_trace a)\<rparr>"

section \<open>The start\<close>

text \<open>A fetch does not depend on the files present; what it writes is the file it returns.\<close>

definition fetch_input :: "play_world \<Rightarrow> object_store \<Rightarrow> trace_uri \<Rightarrow> files \<Rightarrow> string result \<times> files" where
  "fetch_input W store uri fs = materialize (pw_hash W) (pw_hub W) (pw_env W) (pw_fetch W) store (pw_tmp W) uri fs"

definition stage_inputs ::
  "play_world \<Rightarrow> object_store \<Rightarrow> trace_uri option list \<Rightarrow> files \<Rightarrow> trace_uri option list result \<times> files" where
  "stage_inputs W store inputs fs =
     (let (res, fetches) = materialize_inputs (\<lambda>uri. fst (fetch_input W store uri fs)) [] inputs
      in (res, fold (\<lambda>uri fs. snd (fetch_input W store uri fs)) fetches fs))"

definition play_inputs :: "play_args \<Rightarrow> trace_uri option list" where
  "play_inputs a = [pl_replay_tokens a, pl_replay_steps a, pl_latency_trace a]"

definition with_inputs :: "trace_uri option list \<Rightarrow> play_args \<Rightarrow> play_args" where
  "with_inputs staged a =
     a\<lparr>pl_replay_tokens := staged ! 0, pl_replay_steps := staged ! 1, pl_latency_trace := staged ! 2\<rparr>"

definition play_startup ::
  "play_world \<Rightarrow> object_store \<Rightarrow> play_args \<Rightarrow> files \<Rightarrow> play_args result \<times> files" where
  "play_startup W store a fs =
     (case stage_inputs W store (play_inputs a) fs of
        (Inl err, fs) \<Rightarrow> (Inl err, fs)
      | (Inr staged, fs) \<Rightarrow>
          (let a = with_inputs staged a
           in (bind_result (build_latency (with_latency W fs a)) (\<lambda>_.
               bind_result (verify_config_hash (read_trace_meta (pw_gzip W) (pw_utf8 W) (pw_json W) fs)
                              (pl_expect_config_hash a) staged) (\<lambda>_. Inr a)), fs)))"

text \<open>One engine: each input is read where its source is built, in that order.\<close>

definition play_engine ::
  "play_world \<Rightarrow> 'r world \<Rightarrow> files \<Rightarrow> play_args \<Rightarrow> nat \<Rightarrow> bool \<Rightarrow> 'r sim_engine result" where
  "play_engine W world fs a idx events_on =
     (let cfg = with_latency W fs a
      in bind_result (build_latency cfg) (\<lambda>_.
         bind_result (load_optional (load_replay_tokens W fs cfg) (pl_replay_tokens a)) (\<lambda>toks.
         let cfg = cfg\<lparr>o_replay_tokens := toks\<rparr>
         in bind_result (build_token_source cfg) (\<lambda>_.
            bind_result (load_optional (load_replay_steps W fs) (pl_replay_steps a)) (\<lambda>steps.
              new_engine world idx (cfg\<lparr>o_replay_steps := steps\<rparr>) events_on)))))"

definition play_engines :: "play_world \<Rightarrow> 'r world \<Rightarrow> files \<Rightarrow> play_args \<Rightarrow> bool \<Rightarrow> 'r sim_engine result list" where
  "play_engines W world fs a events_on = map (\<lambda>idx. play_engine W world fs a idx events_on) [0..<pl_engine_count a]"

end
