(* ===== verification/Play_Props.thy ===== *)
theory Play_Props
  imports Play Record_Props Calibrate_Props
begin

text \<open>
  Recording and playing as commands: what \<^verbatim>\<open>record\<close> leaves in a file or a bucket is what \<^verbatim>\<open>play\<close>
  starts its engines on.
\<close>

section \<open>A finished recording\<close>







section \<open>The file it is\<close>









section \<open>The start on a recording\<close>


















end
