(* ===== verification/Spec2Isabelle.thy ===== *)
theory Spec2Isabelle
  imports Engine_Props Engine_Loop Cache_Examples Latency_Fit_Model Tap_Props
    Perfetto_Peak Arrivals_Report Transport_Props Remote_Props Release_Props
    End_To_End Kv_Feed Tap_Gate Control_Http Record_Props
    Inspect_Props Play_Props
begin

text \<open>
  \<^bold>\<open>Verification of vllm-vcr\<close>

  vllm-vcr (\<^verbatim>\<open>src/\<close>) is a drop-in replacement of a vLLM engine core: it speaks the engine-core
  protocol to a frontend, schedules requests as the real scheduler would, keeps a KV-cache block
  pool and publishes its events, and answers with synthetic or recorded tokens on a synthetic or
  recorded clock. This library models the engine, the parts it calls and the tools around it,
  function by function.

  \<^bold>\<open>Parts of the program and how they interact.\<close> A frontend sends requests, aborts and utility
  calls; the engine-core loop (\<^verbatim>\<open>src/src/engine_core.rs\<close>) hands them to the engine
  (\<^verbatim>\<open>src/src/engine.rs\<close>), which also receives control calls (\<^verbatim>\<open>src/src/control.rs\<close>), completions
  of KV pulls (\<^verbatim>\<open>src/src/dataplane.rs\<close>) and wake-ups at the deadline it announced. The engine
  queues a request, picks the next one by its waiting-queue policy (\<^verbatim>\<open>src/src/sched.rs\<close>) subject
  to the LoRA slots (\<^verbatim>\<open>src/src/lora.rs\<close>), pins its prompt blocks in the pool
  (\<^verbatim>\<open>src/src/blockpool.rs\<close>), plans steps whose duration comes from a latency model
  (\<^verbatim>\<open>crates/sim-trace/src/latency.rs\<close>) or a recorded schedule (\<^verbatim>\<open>src/src/replay_steps.rs\<close>), draws
  tokens from a token source (\<^verbatim>\<open>src/src/tokens.rs\<close>) and emits them when they are due. The traces it
  replays are recorded by the tap (\<^verbatim>\<open>crates/sim-tap/src/tap.rs\<close>), a proxy in front of a real engine.
  The IO loop (\<^verbatim>\<open>src/src/io.rs\<close>) and the event publisher (\<^verbatim>\<open>src/src/kvevents.rs\<close>) carry what the engine
  takes and emits. Around the engine stand tools: calibration replays a trace and compares the
  distributions, converters and the timeline export read and write traces, and the release watcher
  keeps the window of supported vLLM versions.

  \<^bold>\<open>Theories and what they model.\<close>
  \<^item> \<open>Prelude\<close>: named theorem collections, ordered maps as sorted association lists with their
    laws as a locale, results, decimal numerals, list lemmas.
  \<^item> \<open>Block_Pool\<close>, \<open>Cache_Prompt\<close>, \<open>Cache_Examples\<close>: \<^verbatim>\<open>blockpool.rs\<close>. The FNV-1a chain on 64-bit
    words, allocation with least-recently-used eviction, prompt caching with its event runs, pin
    release, reset and counters; an invariant, the abstract meaning of the events as a set of
    hashes, and prefix hits as the longest cached prefix.
  \<^item> \<open>Protocol\<close>: \<^verbatim>\<open>crates/sim-protocol\<close>. Message types, finish reasons, KV-transfer parameters,
    engine ids.
  \<^item> \<open>Scheduler\<close>: \<^verbatim>\<open>sched.rs\<close>. The policies, and the locale of what the engine asks of a policy.
  \<^item> \<open>Lora\<close>: \<^verbatim>\<open>lora.rs\<close>. Wire identity, registry, slot admission.
  \<^item> \<open>Trace\<close>, \<open>Replay_Steps\<close>, \<open>Tokens\<close>: the record type, its validation and hash chain
    (\<^verbatim>\<open>trace.rs\<close>), recorded schedules (\<^verbatim>\<open>replay_steps.rs\<close>) and token sources (\<^verbatim>\<open>tokens.rs\<close>).
  \<^item> \<open>Latency\<close>, \<open>Latency_Props\<close>: \<^verbatim>\<open>latency.rs\<close>. The knob model and the sampling side of the
    trace model. Rust's \<^verbatim>\<open>f64\<close> is a real number here. \<open>Latency_Fit\<close> builds that model from
    records as the code does (service curve by Gaussian elimination, chunk costs, sample grids);
    \<open>Latency_Fit_Props\<close> shows the curve is a least-squares optimum, \<open>Latency_Fit_Model\<close> which traces
    are accepted and that replayed steps stay within the recorded gaps.
  \<^item> \<open>Options\<close>, \<open>Control\<close>, \<open>Data_Plane\<close>: options and the builders of \<^verbatim>\<open>lib.rs\<close>, the control calls
    and their fan-out, the pool descriptor and request patterns of the data plane.
    \<open>Control_Http\<close>: the JSON bodies, handlers, statuses and routes of \<^verbatim>\<open>control.rs\<close> and the log filter of
    \<^verbatim>\<open>lib.rs\<close>, and what a configuration change does to all engines of a process.
  \<^item> \<open>Nixl\<close>, \<open>Nixl_Props\<close>, \<open>Nixl_Handoff\<close>: the NIXL plane of \<^verbatim>\<open>dataplane.rs\<close>. The registered pool is a
    list of bytes, a write through the raw pointer that would leave it is the outcome
    \<open>Out_of_bounds\<close>, a transfer that never completes is \<open>Polling\<close>. A handoff succeeds exactly when the
    blocks it checks still carry its request's pattern, and the engine's slot ids never leave the pool.
  \<^item> \<open>Engine\<close>: \<^verbatim>\<open>engine.rs\<close>, every handler. The record \<open>sim_engine\<close> has the fields of
    \<^verbatim>\<open>SimEngine\<close>; a handler takes and returns it. Published events, spawned pulls and control
    replies are logs of the record.
  \<^item> \<open>Engine_Frame\<close>: the transition system (inputs, wake-ups, pull completions, abort-all and
    rejections as an inductive relation) and two locales, one for the work on requests inside
    the engine and its extension by arrivals and calls, that lift a property of the engine's
    primitives to every handler and every reachable state. \<open>Engine_Inv\<close> (ids, token accounting,
    pins), \<open>Engine_Caps\<close> (sequence and LoRA caps), \<open>Engine_Ledger\<close> (counters, published events),
    \<open>Engine_Progress\<close> (nothing runnable is left without a deadline) and \<open>Engine_Replay\<close> (queued
    tokens follow the recorded stream) interpret them; \<open>Engine_Shape\<close> says once what each
    primitive changes.
  \<^item> \<open>Engine_Compose\<close>: what a composed step contains. \<open>Engine_Term\<close>: the catch-up loop of a
    wake-up ends. \<open>Engine_Aborts\<close>: what an abort removes and reports. \<open>Engine_Run\<close>: runs from a
    fresh engine and a concrete one. \<open>Engine_Props\<close>: what holds in every reachable state.
    \<open>Engine_Handlers\<close>: what single handlers do there (delivery, verbatim replay, step contents,
    aborts, refusals, cache resets, patches).
  \<^item> \<open>Engine_Core\<close>, \<open>Engine_Loop\<close>: \<^verbatim>\<open>engine_core.rs\<close>. The trait as a record of operations, the
    generic loop over what each round polls, the contract of the trait as a locale with the
    loop's theorems (clean exit, drain, end of shutdown, every round returns), and its
    interpretation on the engine.
  \<^item> \<open>Tap\<close>, \<open>Tap_Props\<close>: \<^verbatim>\<open>crates/sim-tap/src/tap.rs\<close>. The proxy between a frontend and a real engine
    and what it observes. The abstract capture is the chunks each request delivered; the written
    records refine it, replaying one gives the captured schedule back, and every message is
    forwarded unchanged. \<open>Tap_Session\<close> is a whole recording (\<open>run_tap\<close>): handshake, version guard,
    header line, connection to the frontend, proxy loop and flush; \<open>Tap_Gate\<close> says what has to
    happen before anything is recorded.
  \<^item> \<open>End_To_End\<close>: the file of a recording session read back and replayed by an engine, in every state
    it reaches. \<open>Kv_Feed\<close>: a subscriber's decoding of the event feed and its view of the cache.
  \<^item> \<open>Transport\<close>, \<open>Transport_Props\<close>: what joins an engine to its frontend. Request decoding and the
    IO loop (\<^verbatim>\<open>io.rs\<close>), the KV-event encoding and publisher (\<^verbatim>\<open>kvevents.rs\<close>), the registration and
    its handshake (\<^verbatim>\<open>frontend_connect.rs\<close>), and what a run returns (\<^verbatim>\<open>lib.rs\<close>). A round of a loop is
    what its \<^verbatim>\<open>select!\<close> finds ready. Outputs are delivered in order up to the end of the loop,
    event batches keep their order and numbering, and the registration covers the recorded schema.
  \<^item> \<open>Trace_File\<close>, \<open>Trace_File_Props\<close>: the trace file as JSON values and lines (\<^verbatim>\<open>trace.rs\<close>), header and
    records, read back from a finished file or a capture still being written.
    \<open>Trace_Store\<close>, \<open>Record_Props\<close>: the same files as bytes, plain or gzip, with their reader and writer,
    and the \<^verbatim>\<open>record\<close> command (\<^verbatim>\<open>record.rs\<close>) from its arguments to the uploaded object; what it stores
    reads back.
  \<^item> \<open>Perfetto\<close>: the timeline export (\<^verbatim>\<open>perfetto.rs\<close>) and the counter tracks of the step statistics
    (\<^verbatim>\<open>step_stats.rs\<close>). \<open>Perfetto_Props\<close>: every document is well formed; \<open>Perfetto_Lanes\<close>: spans of a
    track never overlap; \<open>Perfetto_Peak\<close>: the greedy lanes are as many as the peak concurrency.
  \<^item> \<open>Calibrate\<close>, \<open>Calibrate_Props\<close>: demo traces, quantiles, sampling and the report (\<^verbatim>\<open>calibrate.rs\<close>);
    which traces calibrate and what a percentile is. \<open>Arrivals\<close>: the wire-level harnesses
    (\<^verbatim>\<open>calibrate.rs\<close>, \<^verbatim>\<open>inspect.rs\<close>), over what the engine under test answers. \<open>Arrivals_Props\<close>: the
    session parents; \<open>Arrivals_Report\<close>: rebuilt prompts, the measured records and the report.
  \<^item> \<open>Inspect\<close>, \<open>Inspect_Props\<close>: the \<^verbatim>\<open>inspect\<close> commands (\<^verbatim>\<open>inspect.rs\<close>) over files, objects, standard
    output and the viewer's server, with the exit status of the process (\<^verbatim>\<open>main.rs\<close>). Calls that may fail
    are outcomes in the record \<open>inspect_world\<close>. What a command may change, and the demo flow from a
    generated trace to its verdict.
  \<^item> \<open>Convert\<close>, \<open>Convert_Props\<close>: guidellm reports, trace summaries and dataset files
    (\<^verbatim>\<open>trace_convert.rs\<close>, \<^verbatim>\<open>dataset_convert.rs\<close>), the deployment fingerprint (\<^verbatim>\<open>config_hash.rs\<close>) and the
    header the tap writes. \<open>Remote\<close>, \<open>Remote_Props\<close>: trace locations (\<^verbatim>\<open>crates/sim-s3\<close>), the staging of
    remote inputs and the config-hash gate (\<^verbatim>\<open>lib.rs\<close>), the end of a recording (\<^verbatim>\<open>record.rs\<close>).
    \<open>Play\<close>, \<open>Play_Props\<close>: the start of a \<^verbatim>\<open>play\<close> process on the files its options name (\<^verbatim>\<open>lib.rs\<close>) and
    the loading of datasets (\<^verbatim>\<open>tokens.rs\<close>); a recorded trace is what a later play serves.
    \<open>Hub\<close>: the downloads of a location from S3 and from the HuggingFace Hub, its settings and its
    offline mode (\<^verbatim>\<open>hub.rs\<close>).
  \<^item> \<open>Version\<close>, \<open>Release\<close>, \<open>Release_Props\<close>: the version order, an instance of \<^verbatim>\<open>linorder\<close>, and the tag
    list (\<^verbatim>\<open>xtask/src/version.rs\<close>), the support window and its goldens (\<^verbatim>\<open>crates/sim-compat\<close>,
    \<^verbatim>\<open>conformance.rs\<close>), the release watcher and the pins it writes (\<^verbatim>\<open>xtask/src/main.rs\<close>). The window
    keeps one default that never moves back.

  \<^bold>\<open>Parameters.\<close> What is not code of the repository is an argument: the random generator
  (operations of \<^verbatim>\<open>rand\<close>, gathered in \<open>rng_ops\<close>), the standard library's hash behind request
  seeds, and the data plane's advertisement of a prefilled request (together the record
  \<open>world\<close>), the msgpack decoders of the tap (\<open>codec\<close>), the NIXL library (\<open>nixl_lib\<close>), the gzip codec
  (\<open>gzip_lib\<close>), the sockets and codecs of a recording session (\<open>session_world\<close>), and the engine under test of a
  calibration (\<open>inspect_world\<close>), the tokenizer and the calls of a player (\<open>play_world\<close>). The engine's options
  hold the records of their traces and the tokenized rows of their datasets, which \<open>Play\<close> loads.
  Clock readings are arguments of the handlers, one per handler.

  \<^bold>\<open>Bounds and fuel.\<close> Block hashes and tokens keep their width (64 and 32 bits); counters
  and lengths are natural numbers. The loop of a wake-up (\<open>catch_up\<close>, called by \<open>step\<close>)
  takes a fuel argument and answers \<open>None\<close> when it runs out; the property \<open>wake_up_returns\<close>
  shows that in every reachable state some fuel is enough, and all larger fuel too, whatever the
  latencies are, when the output chunk size is positive: each composed step takes tokens off a
  finite amount of work.

  \<^bold>\<open>Not modelled.\<close> Sockets, the gzip codec, HTTP servers and clients, threads and log lines; the layout
  of printed text reports; tokenizers, parquet and msgpack encoding (library code); the NIXL, S3 and hub
  libraries themselves, whose calls are arguments of the models that make them; the accept loop and
  the browser of the timeline viewer; the Kubernetes credential commands of the build tooling; argument
  parsing; types compiled for tests only.
\<close>

end
